(* ===== verification/PyBase.thy ===== *)
theory PyBase
  imports
    Main
    "HOL-Library.List_Lexorder"
    "HOL-Library.Product_Lexorder"
    "HOL-Library.Sublist"
    "HOL-Library.Multiset"
begin

section \<open>Prelude: Python values, results and lists\<close>

text \<open>
  The values every component shares. A Python \<^verbatim>\<open>str\<close> is a list of code points (\<open>pystr\<close>), so
  that \<^verbatim>\<open>len\<close>, slicing and comparison count and order code points as Python does; \<open>lit\<close> turns an
  ASCII literal into one. Stable identifiers that the code itself fixes (error codes, step names)
  are HOL strings. An exception is the left value of a sum; \<open>res_bind\<close> is the propagation of an
  exception out of a call. \<^verbatim>\<open>datetime\<close> values are \<open>pytime\<close>: an aware value carries its UTC instant in
  microseconds, a naive one only its wall-clock reading.
\<close>

named_theorems res_simps \<open>equations that push exception propagation through the models\<close>

subsection \<open>Strings as lists of code points\<close>

type_synonym pystr = "nat list"

definition lit :: "string \<Rightarrow> pystr" where
  "lit s = map of_char s"

lemma lit_inject [simp]: "lit s = lit t \<longleftrightarrow> s = t"
  by (auto simp: lit_def inj_map_eq_map inj_def)

lemma lit_Nil [simp]: "lit [] = []"
  by (simp add: lit_def)

lemma lit_append: "lit (s @ t) = lit s @ lit t"
  by (simp add: lit_def)

lemma lit_eq_Nil [simp]: "lit s = [] \<longleftrightarrow> s = []"
  by (simp add: lit_def)

lemma length_lit [simp]: "length (lit s) = length s"
  by (simp add: lit_def)

lemma lit_ascii: "c \<in> set (lit s) \<Longrightarrow> c < 256"
  by (auto simp: lit_def)

text \<open>\<^verbatim>\<open>str.isspace\<close> on one character: the code points Unicode classifies as white space.\<close>

definition py_space :: "nat \<Rightarrow> bool" where
  "py_space c \<longleftrightarrow> c \<in> set [9, 10, 11, 12, 13, 28, 29, 30, 31, 32, 133, 160, 5760, 8192, 8193,
     8194, 8195, 8196, 8197, 8198, 8199, 8200, 8201, 8202, 8232, 8233, 8239, 8287, 12288]"

text \<open>\<^verbatim>\<open>\d\<close> in a \<^verbatim>\<open>str\<close> pattern: a decimal digit of any script, ten code points from each zero.\<close>

definition py_digit_zeros :: "nat list" where
  "py_digit_zeros =
     [48, 1632, 1776, 1984, 2406, 2534, 2662, 2790, 2918, 3046, 3174, 3302, 3430, 3558, 3664, 3792,
      3872, 4160, 4240, 6112, 6160, 6470, 6608, 6784, 6800, 6992, 7088, 7232, 7248, 42528, 43216,
      43264, 43472, 43504, 43600, 44016, 65296, 66720, 68912, 69734, 69872, 69942, 70096, 70384,
      70736, 70864, 71248, 71360, 71472, 71904, 72016, 72784, 73040, 73120, 92768, 92864, 93008,
      120782, 120792, 120802, 120812, 120822, 123200, 123632, 125264, 130032]"

definition py_digit :: "nat \<Rightarrow> bool" where
  "py_digit c \<longleftrightarrow> list_ex (\<lambda>z. z \<le> c \<and> c < z + 10) py_digit_zeros"

definition py_strip :: "pystr \<Rightarrow> pystr" where
  "py_strip s = rev (dropWhile py_space (rev (dropWhile py_space s)))"

text \<open>\<^verbatim>\<open>needle in s\<close>\<close>

fun contains_text :: "pystr \<Rightarrow> pystr \<Rightarrow> bool" where
  "contains_text needle [] \<longleftrightarrow> needle = []"
| "contains_text needle (c # s) \<longleftrightarrow> take (length needle) (c # s) = needle \<or> contains_text needle s"

text \<open>\<^verbatim>\<open>not value.strip()\<close>\<close>

definition blank :: "pystr \<Rightarrow> bool" where
  "blank s \<longleftrightarrow> py_strip s = []"

lemma py_strip_Nil [simp]: "py_strip [] = []"
  by (simp add: py_strip_def)

lemma blank_iff_all_space: "blank s \<longleftrightarrow> (\<forall>c \<in> set s. py_space c)"
proof
  assume "blank s"
  then have "dropWhile py_space (rev (dropWhile py_space s)) = []"
    by (simp add: blank_def py_strip_def)
  then have "\<forall>c \<in> set (dropWhile py_space s). py_space c"
    by simp
  moreover have "s = takeWhile py_space s @ dropWhile py_space s"
    by simp
  ultimately show "\<forall>c \<in> set s. py_space c"
    by (metis Un_iff set_append set_takeWhileD)
next
  assume "\<forall>c \<in> set s. py_space c"
  then have "dropWhile py_space s = []" by simp
  then show "blank s" by (simp add: blank_def py_strip_def del: dropWhile_eq_Nil_conv)
qed

lemma blank_Nil [simp]: "blank []"
  by (simp add: blank_def)

lemma blank_Cons [simp]: "blank (c # s) \<longleftrightarrow> py_space c \<and> blank s"
  by (simp add: blank_iff_all_space)

lemma not_blank_nonempty: "\<not> blank s \<Longrightarrow> s \<noteq> []"
  by auto

lemma set_py_strip: "set (py_strip s) \<subseteq> set s"
  by (auto simp: py_strip_def dest: set_dropWhileD) (metis set_dropWhileD set_rev)

lemma dropWhile_idem: "dropWhile P (dropWhile P xs) = dropWhile P xs"
  by (induction xs) auto

lemma py_strip_hd: "py_strip s \<noteq> [] \<Longrightarrow> \<not> py_space (hd (py_strip s))"
proof -
  let ?d = "dropWhile py_space s"
  assume "py_strip s \<noteq> []"
  then have ne: "dropWhile py_space (rev ?d) \<noteq> []"
    by (simp add: py_strip_def)
  then have "?d \<noteq> []" by (metis dropWhile.simps(1) rev.simps(1))
  have "rev ?d = takeWhile py_space (rev ?d) @ dropWhile py_space (rev ?d)"
    by simp
  then have "?d = rev (dropWhile py_space (rev ?d)) @ rev (takeWhile py_space (rev ?d))"
    by (metis rev_append rev_rev_ident)
  then have "hd ?d = hd (py_strip s)"
    using ne by (metis hd_append2 py_strip_def rev_is_Nil_conv)
  with hd_dropWhile [OF \<open>?d \<noteq> []\<close>] show ?thesis by simp
qed

lemma py_strip_idem [simp]: "py_strip (py_strip s) = py_strip s"
proof (cases "py_strip s = []")
  case False
  then have "dropWhile py_space (py_strip s) = py_strip s"
    using py_strip_hd [of s] by (cases "py_strip s") simp_all
  then show ?thesis
    by (simp add: py_strip_def dropWhile_idem)
qed simp

lemma blank_py_strip [simp]: "blank (py_strip s) \<longleftrightarrow> blank s"
  by (simp add: blank_def)

text \<open>\<^verbatim>\<open>sep.join(parts)\<close>\<close>

fun py_join :: "pystr \<Rightarrow> pystr list \<Rightarrow> pystr" where
  "py_join sep [] = []"
| "py_join sep [x] = x"
| "py_join sep (x # y # zs) = x @ sep @ py_join sep (y # zs)"

lemma py_join_Cons:
  "py_join sep (x # xs) = (if xs = [] then x else x @ sep @ py_join sep xs)"
  by (cases xs) auto

text \<open>A separator that occurs in no part makes the join injective on lists of parts.\<close>

lemma append_separator_eq:
  assumes "x @ c # u = y @ c # v" and "c \<notin> set x" and "c \<notin> set y"
  shows "x = y \<and> u = v"
  using assms
proof (induction x arbitrary: y)
  case Nil
  then show ?case by (cases y) auto
next
  case (Cons a x)
  then show ?case by (cases y) auto
qed

lemma py_join_inject:
  assumes "py_join [c] xs = py_join [c] ys" and "length xs = length ys"
    and "\<forall>x \<in> set xs. c \<notin> set x" and "\<forall>y \<in> set ys. c \<notin> set y"
  shows "xs = ys"
  using assms(2,1,3,4)
proof (induction xs ys rule: list_induct2)
  case Nil
  then show ?case by simp
next
  case (Cons x xs y ys)
  from Cons.hyps have "xs = [] \<longleftrightarrow> ys = []" by auto
  with Cons show ?case
    by (cases "xs = []") (auto simp: py_join_Cons dest!: append_separator_eq)
qed

text \<open>\<^verbatim>\<open>str(n)\<close> for a natural number: its decimal digits.\<close>

fun py_nat_str :: "nat \<Rightarrow> pystr" where
  "py_nat_str n = (if n < 10 then [48 + n] else py_nat_str (n div 10) @ [48 + n mod 10])"

declare py_nat_str.simps [simp del]

lemma py_nat_str_ne: "py_nat_str n \<noteq> []"
  by (subst py_nat_str.simps) simp

fun py_nat_val :: "pystr \<Rightarrow> nat" where
  "py_nat_val s = foldl (\<lambda>v c. 10 * v + (c - 48)) 0 s"

lemma py_nat_val_str: "py_nat_val (py_nat_str n) = n"
proof (induction n rule: py_nat_str.induct)
  case (1 n)
  show ?case
  proof (cases "n < 10")
    case True
    then show ?thesis by (subst py_nat_str.simps) simp
  next
    case False
    with 1 have "py_nat_val (py_nat_str (n div 10)) = n div 10" by simp
    with False show ?thesis by (subst py_nat_str.simps) simp
  qed
qed

lemma py_nat_str_inject [simp]: "py_nat_str m = py_nat_str n \<longleftrightarrow> m = n"
  by (metis py_nat_val_str)

subsection \<open>Timestamps\<close>

datatype pytime = Aware int | Naive int

subsection \<open>Results: a returned value or a raised exception\<close>

fun res_bind :: "'e + 'a \<Rightarrow> ('a \<Rightarrow> 'e + 'b) \<Rightarrow> 'e + 'b" where
  "res_bind (Inl e) f = Inl e"
| "res_bind (Inr a) f = f a"

lemma res_bind_Inr_iff [res_simps]:
  "res_bind m f = Inr b \<longleftrightarrow> (\<exists>a. m = Inr a \<and> f a = Inr b)"
  by (cases m) auto

lemma res_bind_Inl_iff [res_simps]:
  "res_bind m f = Inl e \<longleftrightarrow> m = Inl e \<or> (\<exists>a. m = Inr a \<and> f a = Inl e)"
  by (cases m) auto

lemma res_bind_cong [fundef_cong]:
  "m = m' \<Longrightarrow> (\<And>a. m' = Inr a \<Longrightarrow> f a = f' a) \<Longrightarrow> res_bind m f = res_bind m' f'"
  by (cases m') auto

text \<open>\<^verbatim>\<open>if not c: raise e\<close>\<close>

definition ensure :: "bool \<Rightarrow> 'e \<Rightarrow> 'e + unit" where
  "ensure c e = (if c then Inr () else Inl e)"

lemma ensure_iff [res_simps]:
  "ensure c e = Inr u \<longleftrightarrow> c" "ensure c e = Inl e' \<longleftrightarrow> \<not> c \<and> e' = e"
  by (auto simp: ensure_def)

lemma ensure_bool [simp]: "ensure True e = Inr ()" "ensure False e = Inl e"
  by (simp_all add: ensure_def)

text \<open>A comprehension whose body may raise: the first exception in order wins.\<close>

fun res_map :: "('a \<Rightarrow> 'e + 'b) \<Rightarrow> 'a list \<Rightarrow> 'e + 'b list" where
  "res_map f [] = Inr []"
| "res_map f (x # xs) =
     res_bind (f x) (\<lambda>y. res_bind (res_map f xs) (\<lambda>ys. Inr (y # ys)))"

lemma res_map_cong [fundef_cong]:
  "xs = ys \<Longrightarrow> (\<And>x. x \<in> set ys \<Longrightarrow> f x = g x) \<Longrightarrow> res_map f xs = res_map g ys"
proof (induction xs arbitrary: ys)
  case Nil
  then show ?case by auto
next
  case (Cons a xs)
  then show ?case by (cases ys) (auto intro!: res_bind_cong)
qed

lemma res_map_Inr_iff:
  "res_map f xs = Inr ys \<longleftrightarrow> list_all2 (\<lambda>x y. f x = Inr y) xs ys"
  by (induction xs arbitrary: ys) (auto simp: res_simps list_all2_Cons1)

lemma res_map_Inr_map: "(\<And>x. x \<in> set xs \<Longrightarrow> f x = Inr (g x)) \<Longrightarrow> res_map f xs = Inr (map g xs)"
  by (induction xs) auto

text \<open>When every call returns a value with a property, the comprehension returns exactly such values.\<close>

lemma res_map_exists:
  "(\<And>x. x \<in> set xs \<Longrightarrow> \<exists>y. f x = Inr y \<and> P x y) \<Longrightarrow>
     \<exists>ys. res_map f xs = Inr ys \<and> (\<forall>y \<in> set ys. \<exists>x \<in> set xs. P x y) \<and> (\<forall>x \<in> set xs. \<exists>y \<in> set ys. P x y)"
proof (induction xs)
  case Nil
  then show ?case by simp
next
  case (Cons x xs)
  obtain y where y: "f x = Inr y" "P x y" using Cons.prems [of x] by auto
  obtain ys where "res_map f xs = Inr ys" "\<forall>y \<in> set ys. \<exists>x \<in> set xs. P x y" "\<forall>x \<in> set xs. \<exists>y \<in> set ys. P x y"
    using Cons.IH Cons.prems by auto
  with y show ?case by (intro exI [of _ "y # ys"]) auto
qed

lemma res_map_all:
  "res_map f xs = Inr ys \<Longrightarrow> (\<And>x y. f x = Inr y \<Longrightarrow> P y) \<Longrightarrow> \<forall>y \<in> set ys. P y"
  by (induction xs arbitrary: ys) (auto simp: res_simps)

text \<open>A validator that returns its argument leaves a list as it is.\<close>

lemma res_map_validator:
  "res_map f xs = Inr ys \<Longrightarrow> (\<And>x y. f x = Inr y \<Longrightarrow> y = x \<and> P x) \<Longrightarrow> ys = xs \<and> (\<forall>x \<in> set xs. P x)"
  by (induction xs arbitrary: ys) (auto simp: res_simps)

subsection \<open>Lookup by a key that separates\<close>

lemma find_key_iff:
  "distinct (map f xs) \<Longrightarrow> find (\<lambda>x. f x = k) xs = Some e \<longleftrightarrow> e \<in> set xs \<and> f e = k"
  by (induction xs) auto

lemma find_SomeD: "find P xs = Some x \<Longrightarrow> x \<in> set xs \<and> P x"
  by (induction xs) (auto split: if_splits)

lemma find_exists:
  "y \<in> set xs \<Longrightarrow> P y \<Longrightarrow> \<exists>x. find P xs = Some x \<and> x \<in> set xs \<and> P x"
  by (induction xs) auto

subsection \<open>Ranks and ordering\<close>

text \<open>\<^verbatim>\<open>enumerate(xs, start=1)\<close>\<close>

definition enum1 :: "'a list \<Rightarrow> (nat \<times> 'a) list" where
  "enum1 xs = zip [1..<Suc (length xs)] xs"

lemma length_enum1 [simp]: "length (enum1 xs) = length xs"
  by (simp add: enum1_def del: upt_Suc)

lemma map_snd_enum1 [simp]: "map snd (enum1 xs) = xs"
  by (simp add: enum1_def del: upt_Suc)

lemma map_fst_enum1 [simp]: "map fst (enum1 xs) = [1..<Suc (length xs)]"
  by (simp add: enum1_def del: upt_Suc)

lemma nth_enum1 [simp]: "i < length xs \<Longrightarrow> enum1 xs ! i = (Suc i, xs ! i)"
  by (simp add: enum1_def del: upt_Suc)

lemma renumber_map:
  assumes "\<And>i r. f (u i r) = f r"
  shows "map f (map (\<lambda>(i, r). u i r) (enum1 xs)) = map f xs"
proof -
  have "map f (map (\<lambda>(i, r). u i r) zs) = map f (map snd zs)" for zs
    by (induction zs) (auto simp: assms)
  from this [of "enum1 xs"] show ?thesis unfolding map_snd_enum1 .
qed

lemma renumber_ranks:
  assumes "\<And>i r. g (u i r) = i"
  shows "map g (map (\<lambda>(i, r). u i r) (enum1 xs)) = [1..<Suc (length xs)]"
proof -
  have "map g (map (\<lambda>(i, r). u i r) (enum1 xs)) = map fst (enum1 xs)"
    by (simp add: case_prod_beta assms del: map_fst_enum1)
  then show ?thesis by (simp del: upt_Suc)
qed

lemma distinct_map_sort_key: "distinct (map g (sort_key f xs)) \<longleftrightarrow> distinct (map g xs)"
  by (simp add: distinct_map)

text \<open>What a cut of a sorted list leaves out ranks no better than what it keeps.\<close>

lemma taken_or_below:
  assumes "x \<in> set xs"
  shows "x \<in> set (take n (sort_key f xs))
    \<or> length (take n (sort_key f xs)) = n \<and> (\<forall>y \<in> set (take n (sort_key f xs)). f y \<le> f x)"
proof (cases "x \<in> set (take n (sort_key f xs))")
  case False
  have "x \<in> set (take n (sort_key f xs) @ drop n (sort_key f xs))" using assms by simp
  with False have d: "x \<in> set (drop n (sort_key f xs))" unfolding set_append by blast
  then have "length (take n (sort_key f xs)) = n" using drop_all [of "sort_key f xs" n] by (cases "n \<le> length xs") auto
  moreover have "sorted (map f (take n (sort_key f xs) @ drop n (sort_key f xs)))" by simp
  then have "\<forall>y \<in> set (take n (sort_key f xs)). f y \<le> f x"
    using d unfolding map_append sorted_append by auto
  ultimately show ?thesis by blast
qed blast

text \<open>Sorting by a key that separates the elements forgets the input order.\<close>

lemma sort_key_perm_eq:
  assumes "mset xs = mset ys" and "inj_on f (set xs)"
  shows "sort_key f xs = sort_key f ys"
  using assms by (metis properties_for_sort_key filter_cong mset_sort sorted_sort_key
      set_mset_mset sort_key_inj_key_eq)

end
