(* ===== verification/MemoryModels.thy ===== *)
theory MemoryModels
  imports PyBase
begin

section \<open>Session memory: immutable contracts\<close>

text \<open>
  The models of \<^verbatim>\<open>memory/models.py\<close> and the errors of \<^verbatim>\<open>memory/store.py\<close> and
  \<^verbatim>\<open>memory/summarization.py\<close>. A pydantic model is a record; its constructor with the field and
  model validators, in the order pydantic runs them, is the function \<open>new_...\<close>, whose left value is
  the first validation error. The validators of a model assume the declared Python types of their
  arguments, as the HOL types do.
\<close>

subsection \<open>Errors\<close>

datatype mem_error =
    VersionConflict pystr int int
  | TurnConflict pystr pystr pystr
  | Contention pystr nat
  | Unavailable string
  | Corruption pystr
  | CompactionPrefix pystr nat
  | SummaryLineageConflict pystr pystr
  | SummaryIdentityConflict pystr pystr
  | InputTooLarge pystr int nat nat
  | GenerationFailed string
  | OutputInvalid string
  | ValueErr string

subsection \<open>Field validators\<close>

definition nonblank :: "pystr \<Rightarrow> string \<Rightarrow> mem_error + pystr" where
  "nonblank v name = (if blank v then Inl (ValueErr name) else Inr v)"

definition normalize_utc :: "pytime \<Rightarrow> string \<Rightarrow> mem_error + int" where
  "normalize_utc t name = (case t of Naive w \<Rightarrow> Inl (ValueErr name) | Aware i \<Rightarrow> Inr i)"

lemma nonblank_iff [res_simps]:
  "nonblank v n = Inr w \<longleftrightarrow> \<not> blank v \<and> w = v"
  "nonblank v n = Inl e \<longleftrightarrow> blank v \<and> e = ValueErr n"
  by (auto simp: nonblank_def)

lemma nonblank_ok [simp]: "\<not> blank v \<Longrightarrow> nonblank v n = Inr v"
  by (simp add: nonblank_def)

lemma normalize_utc_iff [res_simps]:
  "normalize_utc t n = Inr i \<longleftrightarrow> t = Aware i"
  "normalize_utc t n = Inl e \<longleftrightarrow> (\<exists>w. t = Naive w) \<and> e = ValueErr n"
  by (auto simp: normalize_utc_def split: pytime.splits)

text \<open>
  The pattern \<^verbatim>\<open>\[(?:D|E)\d+\]\<close> anchored at the start of a string, and its search anywhere in
  one. The closing bracket is no digit, so the greedy digit run is the only way to match.
\<close>

definition marker_here :: "pystr \<Rightarrow> bool" where
  "marker_here s = (case s of
     c # d # rest \<Rightarrow> c = 91 \<and> (d = 68 \<or> d = 69) \<and> takeWhile py_digit rest \<noteq> []
       \<and> take 1 (dropWhile py_digit rest) = [93]
   | _ \<Rightarrow> False)"

fun has_evidence_marker :: "pystr \<Rightarrow> bool" where
  "has_evidence_marker [] = False"
| "has_evidence_marker (c # s) = (marker_here (c # s) \<or> has_evidence_marker s)"

subsection \<open>Turns, summaries and snapshots\<close>

record session_turn =
  t_session_id :: pystr
  t_turn_id :: pystr
  t_request_id :: pystr
  t_user_text :: pystr
  t_assistant_text :: pystr
  t_created_at :: int

definition new_session_turn ::
  "pystr \<Rightarrow> pystr \<Rightarrow> pystr \<Rightarrow> pystr \<Rightarrow> pystr \<Rightarrow> pytime \<Rightarrow> mem_error + session_turn" where
  "new_session_turn sid tid rid user assistant created =
     res_bind (nonblank sid ''session_id'') (\<lambda>sid.
     res_bind (nonblank tid ''turn_id'') (\<lambda>tid.
     res_bind (nonblank rid ''request_id'') (\<lambda>rid.
     res_bind (nonblank user ''user_text'') (\<lambda>user.
     res_bind (nonblank assistant ''assistant_text'') (\<lambda>assistant.
     res_bind (normalize_utc created ''created_at'') (\<lambda>created.
     Inr \<lparr>t_session_id = sid, t_turn_id = tid, t_request_id = rid, t_user_text = user,
          t_assistant_text = assistant, t_created_at = created\<rparr>))))))"

record session_summary =
  s_session_id :: pystr
  s_summary_id :: pystr
  s_previous_summary_id :: "pystr option"
  s_source_version :: int
  s_covered_turn_count :: int
  s_covered_through_turn_id :: pystr
  s_summary_text :: pystr
  s_created_at :: int

definition nonblank_option :: "pystr option \<Rightarrow> string \<Rightarrow> mem_error + pystr option" where
  "nonblank_option v name =
     (case v of None \<Rightarrow> Inr None | Some s \<Rightarrow> res_bind (nonblank s name) (\<lambda>s. Inr (Some s)))"

definition new_session_summary ::
  "pystr \<Rightarrow> pystr \<Rightarrow> pystr option \<Rightarrow> int \<Rightarrow> int \<Rightarrow> pystr \<Rightarrow> pystr \<Rightarrow> pytime
    \<Rightarrow> mem_error + session_summary" where
  "new_session_summary sid sumid prev srcv covered through body created =
     res_bind (nonblank sid ''session_id'') (\<lambda>sid.
     res_bind (nonblank sumid ''summary_id'') (\<lambda>sumid.
     res_bind (nonblank_option prev ''previous_summary_id'') (\<lambda>prev.
     res_bind (ensure (0 \<le> srcv) (ValueErr ''source_version'')) (\<lambda>_.
     res_bind (ensure (0 < covered) (ValueErr ''covered_turn_count'')) (\<lambda>_.
     res_bind (nonblank through ''covered_through_turn_id'') (\<lambda>through.
     res_bind (nonblank body ''summary_text'') (\<lambda>body.
     res_bind (ensure (\<not> has_evidence_marker body) (ValueErr ''summary_text'')) (\<lambda>_.
     res_bind (normalize_utc created ''created_at'') (\<lambda>created.
     res_bind (ensure (prev \<noteq> Some sumid) (ValueErr ''previous_summary_id'')) (\<lambda>_.
     Inr \<lparr>s_session_id = sid, s_summary_id = sumid, s_previous_summary_id = prev,
          s_source_version = srcv, s_covered_turn_count = covered,
          s_covered_through_turn_id = through, s_summary_text = body,
          s_created_at = created\<rparr>))))))))))"

record session_snapshot =
  sn_session_id :: pystr
  sn_version :: int
  sn_turns :: "session_turn list"
  sn_summary :: "session_summary option"
  sn_expires_at :: "int option"

definition new_session_snapshot ::
  "pystr \<Rightarrow> int \<Rightarrow> session_turn list \<Rightarrow> session_summary option \<Rightarrow> int option
    \<Rightarrow> mem_error + session_snapshot" where
  "new_session_snapshot sid version turns summary expires =
     res_bind (nonblank sid ''session_id'') (\<lambda>sid.
     res_bind (ensure (0 \<le> version) (ValueErr ''version'')) (\<lambda>_.
     res_bind (ensure (case summary of None \<Rightarrow> True | Some s \<Rightarrow> s_session_id s = sid)
       (ValueErr ''summary session_id must match snapshot session_id'')) (\<lambda>_.
     Inr \<lparr>sn_session_id = sid, sn_version = version, sn_turns = turns, sn_summary = summary,
          sn_expires_at = expires\<rparr>)))"

record memory_policy =
  ttl_seconds :: int
  max_turns :: nat

definition new_memory_policy :: "int \<Rightarrow> int \<Rightarrow> mem_error + memory_policy" where
  "new_memory_policy ttl turns =
     res_bind (ensure (0 < ttl) (ValueErr ''ttl_seconds'')) (\<lambda>_.
     res_bind (ensure (0 < turns) (ValueErr ''max_turns'')) (\<lambda>_.
     Inr \<lparr>ttl_seconds = ttl, max_turns = nat turns\<rparr>))"

definition default_memory_policy :: memory_policy where
  "default_memory_policy = \<lparr>ttl_seconds = 1800, max_turns = 20\<rparr>"

definition policy_wf :: "memory_policy \<Rightarrow> bool" where
  "policy_wf p \<longleftrightarrow> 0 < ttl_seconds p \<and> 0 < max_turns p"

subsection \<open>What the constructors guarantee\<close>

definition turn_wf :: "session_turn \<Rightarrow> bool" where
  "turn_wf t \<longleftrightarrow> \<not> blank (t_session_id t) \<and> \<not> blank (t_turn_id t) \<and> \<not> blank (t_request_id t)
     \<and> \<not> blank (t_user_text t) \<and> \<not> blank (t_assistant_text t)"

definition summary_wf :: "session_summary \<Rightarrow> bool" where
  "summary_wf s \<longleftrightarrow> \<not> blank (s_session_id s) \<and> \<not> blank (s_summary_id s)
     \<and> (case s_previous_summary_id s of None \<Rightarrow> True | Some p \<Rightarrow> \<not> blank p)
     \<and> 0 \<le> s_source_version s \<and> 0 < s_covered_turn_count s
     \<and> \<not> blank (s_covered_through_turn_id s) \<and> \<not> blank (s_summary_text s)
     \<and> \<not> has_evidence_marker (s_summary_text s)
     \<and> s_previous_summary_id s \<noteq> Some (s_summary_id s)"

lemma new_session_turn_wf: "new_session_turn a b c d e f = Inr t \<Longrightarrow> turn_wf t"
  by (auto simp: new_session_turn_def turn_wf_def res_simps)

lemma nonblank_option_iff [res_simps]:
  "nonblank_option v n = Inr w \<longleftrightarrow> w = v \<and> (case v of None \<Rightarrow> True | Some p \<Rightarrow> \<not> blank p)"
  by (auto simp: nonblank_option_def res_simps split: option.splits)

lemma new_session_summary_Inr:
  "new_session_summary sid sumid prev srcv covered through body (Aware now) = Inr s \<longleftrightarrow>
     s = \<lparr>s_session_id = sid, s_summary_id = sumid, s_previous_summary_id = prev,
          s_source_version = srcv, s_covered_turn_count = covered,
          s_covered_through_turn_id = through, s_summary_text = body, s_created_at = now\<rparr>
     \<and> summary_wf s"
  by (auto simp: new_session_summary_def summary_wf_def res_simps)

lemma new_session_summary_wf: "new_session_summary a b c d e f g h = Inr s \<Longrightarrow> summary_wf s"
  by (cases h) (auto simp: new_session_summary_Inr, simp add: new_session_summary_def res_simps)

lemma new_session_snapshot_Inr:
  "new_session_snapshot sid version turns summary expires = Inr s \<longleftrightarrow>
     \<not> blank sid \<and> 0 \<le> version \<and> (case summary of None \<Rightarrow> True | Some u \<Rightarrow> s_session_id u = sid)
     \<and> s = \<lparr>sn_session_id = sid, sn_version = version, sn_turns = turns, sn_summary = summary,
            sn_expires_at = expires\<rparr>"
  by (auto simp: new_session_snapshot_def res_simps)

lemma default_memory_policy_wf: "policy_wf default_memory_policy"
  by (simp add: policy_wf_def default_memory_policy_def)

end
