(* ===== verification/MemoryStore.thy ===== *)
theory MemoryStore
  imports MemoryModels
begin

section \<open>Session memory: the store contract\<close>

text \<open>
  \<^verbatim>\<open>memory/store.py\<close>: the protocol \<^verbatim>\<open>SessionMemoryStore\<close> and the shared \<^verbatim>\<open>validate_compaction\<close>.
  The contract is stated on the view a caller has of one session (\<open>sess_view\<close>: version, retained
  turns, summary); \<open>view_append\<close>, \<open>view_compact\<close> and \<open>view_clear\<close> say what an operation does to
  it. The locale \<open>session_store\<close> is the interface the rolling summary service and the request
  executor rely on: an operation answers with its effect on the view, changes no other session, and
  changes nothing when it raises.
\<close>

subsection \<open>Compaction\<close>

definition validate_compaction ::
  "session_snapshot \<Rightarrow> session_summary \<Rightarrow> pystr list \<Rightarrow> int \<Rightarrow> mem_error + bool" where
  "validate_compaction current summary ids expected =
    (let sid = sn_session_id current; sumid = s_summary_id summary;
         existing = sn_summary current;
         lineage_conflict = SummaryLineageConflict sid sumid;
         prefix_error = CompactionPrefix sid (length ids)
     in if existing = Some summary then Inr True
        else if (case existing of None \<Rightarrow> False | Some e \<Rightarrow> s_summary_id e = sumid)
          then Inl (SummaryIdentityConflict sid sumid)
        else if expected \<noteq> sn_version current
          then Inl (VersionConflict sid expected (sn_version current))
        else if s_session_id summary \<noteq> sid \<or> s_source_version summary \<noteq> expected
          then Inl lineage_conflict
        else if ids = [] \<or> \<not> distinct ids \<or> length (sn_turns current) \<le> length ids
            \<or> list_ex blank ids
          then Inl prefix_error
        else if (case existing of
              None \<Rightarrow> s_previous_summary_id summary \<noteq> None
                \<or> s_covered_turn_count summary \<noteq> int (length ids)
            | Some e \<Rightarrow> s_previous_summary_id summary \<noteq> Some (s_summary_id e)
                \<or> s_covered_turn_count summary \<noteq> s_covered_turn_count e + int (length ids))
          then Inl lineage_conflict
        else if map t_turn_id (take (length ids) (sn_turns current)) \<noteq> ids
          then Inl prefix_error
        else if s_covered_through_turn_id summary \<noteq> last ids
          then Inl lineage_conflict
        else Inr False)"

text \<open>The declarative reading of an accepted, new compaction.\<close>

definition compaction_ok ::
  "session_snapshot \<Rightarrow> session_summary \<Rightarrow> pystr list \<Rightarrow> int \<Rightarrow> bool" where
  "compaction_ok current summary ids expected \<longleftrightarrow>
     expected = sn_version current \<and> s_source_version summary = expected
     \<and> s_session_id summary = sn_session_id current
     \<and> ids \<noteq> [] \<and> distinct ids \<and> \<not> list_ex blank ids
     \<and> (\<exists>rest. rest \<noteq> [] \<and> map t_turn_id (sn_turns current) = ids @ rest)
     \<and> s_covered_through_turn_id summary = last ids
     \<and> (case sn_summary current of
          None \<Rightarrow> s_previous_summary_id summary = None
            \<and> s_covered_turn_count summary = int (length ids)
        | Some e \<Rightarrow> s_summary_id e \<noteq> s_summary_id summary
            \<and> s_previous_summary_id summary = Some (s_summary_id e)
            \<and> s_covered_turn_count summary = s_covered_turn_count e + int (length ids))"

lemma proper_prefix_map_iff:
  "(\<exists>rest. rest \<noteq> [] \<and> map f xs = ids @ rest) \<longleftrightarrow>
     length ids < length xs \<and> map f (take (length ids) xs) = ids"
proof
  assume "\<exists>rest. rest \<noteq> [] \<and> map f xs = ids @ rest"
  then obtain rest where r: "rest \<noteq> []" "map f xs = ids @ rest" by blast
  then have "length xs = length ids + length rest" by (metis length_append length_map)
  with r show "length ids < length xs \<and> map f (take (length ids) xs) = ids"
    by (simp flip: take_map)
next
  assume a: "length ids < length xs \<and> map f (take (length ids) xs) = ids"
  then have "map f xs = ids @ map f (drop (length ids) xs)"
    by (metis append_take_drop_id map_append)
  moreover have "map f (drop (length ids) xs) \<noteq> []" using a by simp
  ultimately show "\<exists>rest. rest \<noteq> [] \<and> map f xs = ids @ rest" by blast
qed

lemma validate_compaction_False_iff:
  "validate_compaction current summary ids expected = Inr False \<longleftrightarrow>
     compaction_ok current summary ids expected"
proof (cases "sn_summary current")
  case None
  then show ?thesis
    by (auto simp: validate_compaction_def compaction_ok_def Let_def proper_prefix_map_iff)
next
  case (Some e)
  then show ?thesis
    by (auto simp: validate_compaction_def compaction_ok_def Let_def proper_prefix_map_iff)
qed

lemma validate_compaction_True_iff:
  "validate_compaction current summary ids expected = Inr True \<longleftrightarrow> sn_summary current = Some summary"
  by (auto simp: validate_compaction_def Let_def)

subsection \<open>The effect of an operation on a session\<close>

record sess_view =
  v_version :: int
  v_turns :: "session_turn list"
  v_summary :: "session_summary option"

definition empty_view :: sess_view where
  "empty_view = \<lparr>v_version = 0, v_turns = [], v_summary = None\<rparr>"

definition snapshot_view :: "session_snapshot \<Rightarrow> sess_view" where
  "snapshot_view s = \<lparr>v_version = sn_version s, v_turns = sn_turns s, v_summary = sn_summary s\<rparr>"

lemma snapshot_view_sel [simp]:
  "v_version (snapshot_view s) = sn_version s"
  "v_turns (snapshot_view s) = sn_turns s"
  "v_summary (snapshot_view s) = sn_summary s"
  by (simp_all add: snapshot_view_def)

fun matching_turn :: "session_turn list \<Rightarrow> session_turn \<Rightarrow> session_turn option" where
  "matching_turn [] candidate = None"
| "matching_turn (turn # turns) candidate =
     (if t_turn_id turn = t_turn_id candidate \<or> t_request_id turn = t_request_id candidate
      then Some turn else matching_turn turns candidate)"

lemma matching_turn_None_iff:
  "matching_turn ts c = None \<longleftrightarrow>
     t_turn_id c \<notin> t_turn_id ` set ts \<and> t_request_id c \<notin> t_request_id ` set ts"
  by (induction ts) auto

lemma matching_turn_SomeD:
  "matching_turn ts c = Some d \<Longrightarrow>
     d \<in> set ts \<and> (t_turn_id d = t_turn_id c \<or> t_request_id d = t_request_id c)"
  by (induction ts) (auto split: if_splits)

text \<open>A slice \<^verbatim>\<open>xs[-n:]\<close> for positive \<^verbatim>\<open>n\<close>.\<close>

definition take_last :: "nat \<Rightarrow> 'a list \<Rightarrow> 'a list" where
  "take_last n xs = drop (length xs - n) xs"

lemma length_take_last [simp]: "length (take_last n xs) = min n (length xs)"
  by (simp add: take_last_def)

lemma suffix_take_last: "suffix (take_last n xs) xs"
  by (simp add: take_last_def suffix_drop)

lemma set_take_last: "set (take_last n xs) \<subseteq> set xs"
  by (simp add: take_last_def set_drop_subset)

lemma last_take_last: "0 < n \<Longrightarrow> xs \<noteq> [] \<Longrightarrow> last (take_last n xs) = last xs"
  by (cases n) (auto simp: take_last_def last_drop)

definition view_append ::
  "nat \<Rightarrow> pystr \<Rightarrow> sess_view \<Rightarrow> session_turn \<Rightarrow> int \<Rightarrow> mem_error + sess_view" where
  "view_append limit sid v turn expected =
     (case matching_turn (v_turns v) turn of
        Some d \<Rightarrow> if d = turn then Inr v
          else Inl (TurnConflict sid (t_turn_id turn) (t_request_id turn))
      | None \<Rightarrow> if expected \<noteq> v_version v then Inl (VersionConflict sid expected (v_version v))
          else Inr (v\<lparr>v_version := v_version v + 1,
                      v_turns := take_last limit (v_turns v @ [turn])\<rparr>))"

definition view_compact ::
  "pystr \<Rightarrow> sess_view \<Rightarrow> session_summary \<Rightarrow> pystr list \<Rightarrow> int \<Rightarrow> mem_error + sess_view" where
  "view_compact sid v summary ids expected =
     res_bind (validate_compaction
        \<lparr>sn_session_id = sid, sn_version = v_version v, sn_turns = v_turns v,
         sn_summary = v_summary v, sn_expires_at = None\<rparr> summary ids expected)
      (\<lambda>retry. Inr (if retry then v
         else \<lparr>v_version = v_version v + 1, v_turns = drop (length ids) (v_turns v),
               v_summary = Some summary\<rparr>))"

definition view_clear :: "pystr \<Rightarrow> sess_view \<Rightarrow> int \<Rightarrow> mem_error + sess_view" where
  "view_clear sid v expected =
     (if expected \<noteq> v_version v then Inl (VersionConflict sid expected (v_version v))
      else Inr empty_view)"

lemma validate_compaction_view:
  "validate_compaction \<lparr>sn_session_id = sn_session_id s, sn_version = sn_version s,
     sn_turns = sn_turns s, sn_summary = sn_summary s, sn_expires_at = x\<rparr> summary ids expected =
   validate_compaction s summary ids expected"
  by (simp add: validate_compaction_def Let_def)

lemma view_compact_snapshot:
  "view_compact (sn_session_id s) (snapshot_view s) summary ids expected =
     res_bind (validate_compaction s summary ids expected)
      (\<lambda>retry. Inr (if retry then snapshot_view s
         else \<lparr>v_version = sn_version s + 1, v_turns = drop (length ids) (sn_turns s),
               v_summary = Some summary\<rparr>))"
  by (simp add: view_compact_def validate_compaction_view cong: if_cong)

subsection \<open>The invariant of a session\<close>

text \<open>
  What every reachable session satisfies: an unused one is empty; otherwise it retains between one
  and \<open>limit\<close> turns, no two of which share a turn or request identifier, and its version counts at
  least the turns covered by the summary and the turns still retained.
\<close>

definition view_wf :: "nat \<Rightarrow> pystr \<Rightarrow> sess_view \<Rightarrow> bool" where
  "view_wf limit sid v \<longleftrightarrow>
     0 \<le> v_version v \<and> (v_version v = 0 \<longrightarrow> v = empty_view)
     \<and> (0 < v_version v \<longrightarrow> v_turns v \<noteq> [])
     \<and> length (v_turns v) \<le> limit
     \<and> distinct (map t_turn_id (v_turns v)) \<and> distinct (map t_request_id (v_turns v))
     \<and> (\<forall>t \<in> set (v_turns v). turn_wf t \<and> t_session_id t = sid)
     \<and> (case v_summary v of
          None \<Rightarrow> int (length (v_turns v)) \<le> v_version v
        | Some s \<Rightarrow> summary_wf s \<and> s_session_id s = sid \<and> s_source_version s < v_version v
            \<and> s_covered_turn_count s + int (length (v_turns v)) < v_version v)"

lemma view_wf_empty [simp]: "view_wf limit sid empty_view"
  by (simp add: view_wf_def empty_view_def)

lemma distinct_map_take_last: "distinct (map f xs) \<Longrightarrow> distinct (map f (take_last n xs))"
  by (simp add: take_last_def distinct_drop flip: drop_map)

lemma view_append_wf:
  assumes wf: "view_wf limit sid v" and pos: "0 < limit"
    and turn: "turn_wf turn" "t_session_id turn = sid"
    and app: "view_append limit sid v turn expected = Inr v'"
  shows "view_wf limit sid v'"
proof (cases "matching_turn (v_turns v) turn")
  case (Some d)
  with app wf show ?thesis by (auto simp: view_append_def split: if_splits)
next
  case None
  with app have v': "v' = v\<lparr>v_version := v_version v + 1,
      v_turns := take_last limit (v_turns v @ [turn])\<rparr>"
    by (auto simp: view_append_def split: if_splits)
  from None have fresh: "t_turn_id turn \<notin> t_turn_id ` set (v_turns v)"
    "t_request_id turn \<notin> t_request_id ` set (v_turns v)"
    by (auto simp: matching_turn_None_iff)
  have dist: "distinct (map t_turn_id (v_turns v @ [turn]))"
    "distinct (map t_request_id (v_turns v @ [turn]))"
    using wf fresh by (auto simp: view_wf_def)
  have ne: "take_last limit (v_turns v @ [turn]) \<noteq> []"
    using pos by (simp flip: length_greater_0_conv)
  have elems: "\<forall>t \<in> set (take_last limit (v_turns v @ [turn])). turn_wf t \<and> t_session_id t = sid"
    using set_take_last [of limit "v_turns v @ [turn]"] wf turn by (auto simp: view_wf_def)
  show ?thesis
    using wf ne elems distinct_map_take_last [OF dist(1)] distinct_map_take_last [OF dist(2)]
    by (auto simp: v' view_wf_def split: option.splits)
qed

lemma view_compact_wf:
  assumes wf: "view_wf limit sid v" and sum: "summary_wf summary"
    and comp: "view_compact sid v summary ids expected = Inr v'"
  shows "view_wf limit sid v'"
proof -
  let ?s = "\<lparr>sn_session_id = sid, sn_version = v_version v, sn_turns = v_turns v,
     sn_summary = v_summary v, sn_expires_at = None\<rparr>"
  from comp obtain r where r: "validate_compaction ?s summary ids expected = Inr r"
    and v': "v' = (if r then v else \<lparr>v_version = v_version v + 1,
       v_turns = drop (length ids) (v_turns v), v_summary = Some summary\<rparr>)"
    by (auto simp: view_compact_def res_simps)
  show ?thesis
  proof (cases r)
    case True
    with v' wf show ?thesis by simp
  next
    case False
    with r have ok: "compaction_ok ?s summary ids expected"
      by (simp add: validate_compaction_False_iff)
    then have len: "length ids < length (v_turns v)"
      unfolding compaction_ok_def by (metis proper_prefix_map_iff session_snapshot.select_convs(3))
    have "distinct (map t_turn_id (drop (length ids) (v_turns v)))"
      "distinct (map t_request_id (drop (length ids) (v_turns v)))"
      using wf by (auto simp: view_wf_def distinct_drop simp flip: drop_map)
    moreover have "\<forall>t \<in> set (drop (length ids) (v_turns v)). turn_wf t \<and> t_session_id t = sid"
      using wf by (auto simp: view_wf_def dest: in_set_dropD)
    ultimately show ?thesis
      using False v' ok wf len sum
      by (auto simp: view_wf_def compaction_ok_def split: option.splits)
  qed
qed

subsection \<open>The interface\<close>

text \<open>
  A provider keeps states of type \<open>'st\<close>. Each operation runs at one reading of the clock;
  \<open>view now sid st\<close> is what the caller of \<^verbatim>\<open>read\<close> sees then.
\<close>

locale session_store =
  fixes limit :: nat
    and inv :: "'st \<Rightarrow> bool"
    and view :: "int \<Rightarrow> pystr \<Rightarrow> 'st \<Rightarrow> sess_view"
    and read :: "int \<Rightarrow> pystr \<Rightarrow> 'st \<Rightarrow> (mem_error + session_snapshot) \<times> 'st"
    and append :: "int \<Rightarrow> session_turn \<Rightarrow> int \<Rightarrow> 'st \<Rightarrow> (mem_error + session_snapshot) \<times> 'st"
    and compact :: "int \<Rightarrow> session_summary \<Rightarrow> pystr list \<Rightarrow> int \<Rightarrow> 'st
      \<Rightarrow> (mem_error + session_snapshot) \<times> 'st"
  assumes limit_pos: "0 < limit"
    and view_wf: "inv st \<Longrightarrow> view_wf limit sid (view now sid st)"
    and read_ok: "inv st \<Longrightarrow> \<not> blank sid \<Longrightarrow> \<exists>s. read now sid st = (Inr s, snd (read now sid st))
        \<and> sn_session_id s = sid \<and> snapshot_view s = view now sid st"
    and read_frame: "inv st \<Longrightarrow> view now i (snd (read now sid st)) = view now i st"
    and read_inv: "inv st \<Longrightarrow> inv (snd (read now sid st))"
    and append_ok: "inv st \<Longrightarrow> turn_wf turn \<Longrightarrow> 0 \<le> expected \<Longrightarrow>
        (case view_append limit (t_session_id turn) (view now (t_session_id turn) st) turn expected of
           Inl e \<Rightarrow> fst (append now turn expected st) = Inl e
             \<and> (\<forall>i. view now i (snd (append now turn expected st)) = view now i st)
         | Inr v \<Rightarrow> (\<exists>s. fst (append now turn expected st) = Inr s
             \<and> sn_session_id s = t_session_id turn \<and> snapshot_view s = v)
             \<and> (\<forall>i. view now i (snd (append now turn expected st))
                  = (if i = t_session_id turn then v else view now i st)))"
    and append_inv: "inv st \<Longrightarrow> turn_wf turn \<Longrightarrow> inv (snd (append now turn expected st))"
    and compact_ok: "inv st \<Longrightarrow> summary_wf summary \<Longrightarrow> 0 \<le> expected \<Longrightarrow>
        (case view_compact (s_session_id summary) (view now (s_session_id summary) st) summary ids
            expected of
           Inl e \<Rightarrow> fst (compact now summary ids expected st) = Inl e
             \<and> (\<forall>i. view now i (snd (compact now summary ids expected st)) = view now i st)
         | Inr v \<Rightarrow> (\<exists>s. fst (compact now summary ids expected st) = Inr s
             \<and> sn_session_id s = s_session_id summary \<and> snapshot_view s = v)
             \<and> (\<forall>i. view now i (snd (compact now summary ids expected st))
                  = (if i = s_session_id summary then v else view now i st)))"
    and compact_inv: "inv st \<Longrightarrow> summary_wf summary \<Longrightarrow>
        inv (snd (compact now summary ids expected st))"
begin

text \<open>An accepted write is visible to the next read of the session.\<close>

lemma append_then_read:
  assumes "inv st" "turn_wf turn" "0 \<le> expected"
    and "append now turn expected st = (Inr s, st')"
  shows "\<exists>s'. fst (read now (t_session_id turn) st') = Inr s' \<and> snapshot_view s' = snapshot_view s"
proof -
  have i: "inv st'" using append_inv [OF assms(1,2), of now expected] assms(4) by simp
  have v: "view now (t_session_id turn) st' = snapshot_view s"
    using append_ok [OF assms(1-3), of now] assms(4) by (auto split: sum.splits)
  have "\<not> blank (t_session_id turn)" using assms(2) by (simp add: turn_wf_def)
  from read_ok [OF i this, of now] v show ?thesis by (metis fst_conv)
qed

text \<open>Of two writers that read the same version, at most one new turn gets in.\<close>

lemma stale_append_refused:
  assumes "inv st" "turn_wf turn" "turn_wf turn'" "0 \<le> expected"
    and same: "t_session_id turn' = t_session_id turn"
    and first: "append now turn expected st = (Inr s, st')"
    and new: "matching_turn (v_turns (view now (t_session_id turn) st)) turn = None"
    and other: "matching_turn (sn_turns s) turn' = None"
  shows "fst (append now turn' expected st') =
           Inl (VersionConflict (t_session_id turn) expected (expected + 1))"
proof -
  let ?v = "view now (t_session_id turn) st"
  have i: "inv st'" using append_inv [OF assms(1,2), of now expected] first by simp
  from append_ok [OF assms(1,2,4), of now] first new
  have exp: "expected = v_version ?v" and sv: "sn_version s = v_version ?v + 1"
    and v': "view now (t_session_id turn) st' = snapshot_view s"
    by (auto simp: view_append_def split: sum.splits if_splits dest: arg_cong [of _ _ v_version])
  from append_ok [OF i assms(3,4), of now] v' other same exp sv
  show ?thesis by (auto simp: view_append_def)
qed

end

end
