(* ===== verification/InMemoryStore.thy ===== *)
theory InMemoryStore
  imports MemoryStore
begin

section \<open>Session memory: the in-process store\<close>

text \<open>
  \<^verbatim>\<open>memory/in_memory.py\<close>. The dictionary of sessions is a map; an operation runs under the lock, so
  it is one function from the sessions to its outcome and the sessions afterwards, which an exception
  leaves as the operation had made them by then. The injected clock is read where the code reads it:
  \<open>t1\<close> for the expiry test, \<open>t2\<close> for the new expiry, each possibly a naive value, which raises.
\<close>

record stored_session =
  st_version :: int
  st_turns :: "session_turn list"
  st_summary :: "session_summary option"
  st_expires_at :: int

type_synonym mem_store = "pystr \<rightharpoonup> stored_session"

type_synonym mem_outcome = "(mem_error + session_snapshot) \<times> mem_store"

definition clock_now :: "pytime \<Rightarrow> mem_error + int" where
  "clock_now reading = (case reading of
     Naive _ \<Rightarrow> Inl (ValueErr ''clock must return a timezone-aware datetime'') | Aware i \<Rightarrow> Inr i)"

definition seconds :: "int \<Rightarrow> int" where
  "seconds n = 1000000 * n"

definition live_session ::
  "pytime \<Rightarrow> pystr \<Rightarrow> mem_store \<Rightarrow> (mem_error + stored_session option) \<times> mem_store" where
  "live_session t1 sid S =
     (case S sid of
        None \<Rightarrow> (Inr None, S)
      | Some stored \<Rightarrow> (case clock_now t1 of
            Inl e \<Rightarrow> (Inl e, S)
          | Inr now \<Rightarrow> if st_expires_at stored \<le> now then (Inr None, S(sid := None))
              else (Inr (Some stored), S)))"

definition snapshot_of :: "pystr \<Rightarrow> stored_session option \<Rightarrow> mem_error + session_snapshot" where
  "snapshot_of sid stored =
     (case stored of
        None \<Rightarrow> new_session_snapshot sid 0 [] None None
      | Some st \<Rightarrow> new_session_snapshot sid (st_version st) (st_turns st) (st_summary st)
          (Some (st_expires_at st)))"

definition validate_session_id :: "pystr \<Rightarrow> mem_error + unit" where
  "validate_session_id sid = ensure (\<not> blank sid) (ValueErr ''session_id must be non-empty'')"

definition validate_expected_version :: "int \<Rightarrow> mem_error + unit" where
  "validate_expected_version n =
     ensure (0 \<le> n) (ValueErr ''expected_version must be a non-negative integer'')"

definition mem_read :: "pytime \<Rightarrow> pystr \<Rightarrow> mem_store \<Rightarrow> mem_outcome" where
  "mem_read t1 sid S =
     (case validate_session_id sid of
        Inl e \<Rightarrow> (Inl e, S)
      | Inr _ \<Rightarrow> (case live_session t1 sid S of
            (Inl e, S') \<Rightarrow> (Inl e, S')
          | (Inr stored, S') \<Rightarrow> (snapshot_of sid stored, S')))"

definition stored_version :: "stored_session option \<Rightarrow> int" where
  "stored_version stored = (case stored of None \<Rightarrow> 0 | Some st \<Rightarrow> st_version st)"

definition stored_turns :: "stored_session option \<Rightarrow> session_turn list" where
  "stored_turns stored = (case stored of None \<Rightarrow> [] | Some st \<Rightarrow> st_turns st)"

definition stored_summary :: "stored_session option \<Rightarrow> session_summary option" where
  "stored_summary stored = (case stored of None \<Rightarrow> None | Some st \<Rightarrow> st_summary st)"

definition commit_session ::
  "memory_policy \<Rightarrow> pytime \<Rightarrow> pystr \<Rightarrow> int \<Rightarrow> session_turn list \<Rightarrow> session_summary option
    \<Rightarrow> mem_store \<Rightarrow> mem_outcome" where
  "commit_session P t2 sid version turns summary S =
     (case clock_now t2 of
        Inl e \<Rightarrow> (Inl e, S)
      | Inr now \<Rightarrow>
          (let updated = \<lparr>st_version = version, st_turns = turns, st_summary = summary,
                          st_expires_at = now + seconds (ttl_seconds P)\<rparr>
           in (snapshot_of sid (Some updated), S(sid \<mapsto> updated))))"

definition mem_append_turn ::
  "memory_policy \<Rightarrow> pytime \<Rightarrow> pytime \<Rightarrow> session_turn \<Rightarrow> int \<Rightarrow> mem_store \<Rightarrow> mem_outcome" where
  "mem_append_turn P t1 t2 turn expected S =
     (case validate_expected_version expected of
        Inl e \<Rightarrow> (Inl e, S)
      | Inr _ \<Rightarrow> (case live_session t1 (t_session_id turn) S of
            (Inl e, S') \<Rightarrow> (Inl e, S')
          | (Inr stored, S') \<Rightarrow>
              (case matching_turn (stored_turns stored) turn of
                 Some duplicate \<Rightarrow>
                   if duplicate = turn then (snapshot_of (t_session_id turn) stored, S')
                   else (Inl (TurnConflict (t_session_id turn) (t_turn_id turn)
                          (t_request_id turn)), S')
               | None \<Rightarrow>
                   if expected \<noteq> stored_version stored
                   then (Inl (VersionConflict (t_session_id turn) expected
                          (stored_version stored)), S')
                   else commit_session P t2 (t_session_id turn) (stored_version stored + 1)
                          (take_last (max_turns P) (stored_turns stored @ [turn]))
                          (stored_summary stored) S')))"

definition mem_clear :: "pytime \<Rightarrow> pystr \<Rightarrow> int \<Rightarrow> mem_store \<Rightarrow> mem_outcome" where
  "mem_clear t1 sid expected S =
     (case res_bind (validate_session_id sid) (\<lambda>_. validate_expected_version expected) of
        Inl e \<Rightarrow> (Inl e, S)
      | Inr _ \<Rightarrow> (case live_session t1 sid S of
            (Inl e, S') \<Rightarrow> (Inl e, S')
          | (Inr stored, S') \<Rightarrow>
              if expected \<noteq> stored_version stored
              then (Inl (VersionConflict sid expected (stored_version stored)), S')
              else (snapshot_of sid None, S'(sid := None))))"

definition mem_compact ::
  "memory_policy \<Rightarrow> pytime \<Rightarrow> pytime \<Rightarrow> session_summary \<Rightarrow> pystr list \<Rightarrow> int \<Rightarrow> mem_store
    \<Rightarrow> mem_outcome" where
  "mem_compact P t1 t2 summary ids expected S =
     (case validate_expected_version expected of
        Inl e \<Rightarrow> (Inl e, S)
      | Inr _ \<Rightarrow> (case live_session t1 (s_session_id summary) S of
            (Inl e, S') \<Rightarrow> (Inl e, S')
          | (Inr stored, S') \<Rightarrow> (case snapshot_of (s_session_id summary) stored of
                Inl e \<Rightarrow> (Inl e, S')
              | Inr current \<Rightarrow> (case validate_compaction current summary ids expected of
                    Inl e \<Rightarrow> (Inl e, S')
                  | Inr True \<Rightarrow> (Inr current, S')
                  | Inr False \<Rightarrow>
                      commit_session P t2 (s_session_id summary) (sn_version current + 1)
                        (drop (length ids) (sn_turns current)) (Some summary) S'))))"

subsection \<open>Views and the store invariant\<close>

definition stored_view :: "stored_session option \<Rightarrow> sess_view" where
  "stored_view stored = (case stored of None \<Rightarrow> empty_view
     | Some st \<Rightarrow> \<lparr>v_version = st_version st, v_turns = st_turns st, v_summary = st_summary st\<rparr>)"

definition live_at :: "int \<Rightarrow> pystr \<Rightarrow> mem_store \<Rightarrow> stored_session option" where
  "live_at now sid S =
     (case S sid of None \<Rightarrow> None | Some st \<Rightarrow> if st_expires_at st \<le> now then None else Some st)"

definition mem_view :: "int \<Rightarrow> pystr \<Rightarrow> mem_store \<Rightarrow> sess_view" where
  "mem_view now sid S = stored_view (live_at now sid S)"

definition mem_inv :: "nat \<Rightarrow> mem_store \<Rightarrow> bool" where
  "mem_inv limit S \<longleftrightarrow>
     (\<forall>sid st. S sid = Some st \<longrightarrow> 0 < st_version st \<and> view_wf limit sid (stored_view (Some st)))"

lemma mem_inv_empty [simp]: "mem_inv limit Map.empty"
  by (simp add: mem_inv_def)

definition drop_expired :: "int \<Rightarrow> pystr \<Rightarrow> mem_store \<Rightarrow> mem_store" where
  "drop_expired now sid S =
     (if S sid = None \<or> live_at now sid S \<noteq> None then S else S(sid := None))"

lemma live_session_Aware:
  "live_session (Aware now) sid S = (Inr (live_at now sid S), drop_expired now sid S)"
  by (simp add: live_session_def clock_now_def live_at_def drop_expired_def split: option.splits)

lemma mem_view_drop_expired [simp]: "mem_view now i (drop_expired now sid S) = mem_view now i S"
  by (auto simp: drop_expired_def mem_view_def live_at_def split: option.splits)

lemma mem_inv_drop: "mem_inv limit S \<Longrightarrow> mem_inv limit (S(sid := None))"
  by (simp add: mem_inv_def)

lemma mem_inv_drop_expired: "mem_inv limit S \<Longrightarrow> mem_inv limit (drop_expired now sid S)"
  by (simp add: drop_expired_def mem_inv_drop)

lemma live_session_inv: "mem_inv limit S \<Longrightarrow> mem_inv limit (snd (live_session t sid S))"
  by (cases t) (auto simp: live_session_def clock_now_def mem_inv_drop split: option.splits)

lemma mem_inv_view_wf: "mem_inv limit S \<Longrightarrow> view_wf limit sid (mem_view now sid S)"
  by (auto simp: mem_inv_def mem_view_def live_at_def stored_view_def split: option.splits)

lemma stored_view_sel [simp]:
  "v_version (stored_view stored) = stored_version stored"
  "v_turns (stored_view stored) = stored_turns stored"
  "v_summary (stored_view stored) = stored_summary stored"
  by (simp_all add: stored_view_def stored_version_def stored_turns_def stored_summary_def
      empty_view_def split: option.splits)

lemma stored_view_update:
  "(stored_view stored)\<lparr>v_version := x, v_turns := y\<rparr> =
     \<lparr>v_version = x, v_turns = y, v_summary = stored_summary stored\<rparr>"
  by (simp add: stored_view_def stored_summary_def empty_view_def split: option.splits)

lemma mem_view_sel [simp]:
  "v_version (mem_view now sid S) = stored_version (live_at now sid S)"
  "v_turns (mem_view now sid S) = stored_turns (live_at now sid S)"
  "v_summary (mem_view now sid S) = stored_summary (live_at now sid S)"
  by (simp_all add: mem_view_def)

lemma mem_view_update:
  "(mem_view now sid S)\<lparr>v_version := x, v_turns := y\<rparr> =
     \<lparr>v_version = x, v_turns = y, v_summary = stored_summary (live_at now sid S)\<rparr>"
  by (simp add: mem_view_def stored_view_update)

lemma snapshot_of_live:
  assumes "mem_inv limit S" "\<not> blank sid"
  shows "\<exists>s. snapshot_of sid (live_at now sid S) = Inr s \<and> sn_session_id s = sid
     \<and> snapshot_view s = mem_view now sid S"
proof -
  have "view_wf limit sid (mem_view now sid S)" using assms(1) by (rule mem_inv_view_wf)
  then have "case stored_summary (live_at now sid S) of None \<Rightarrow> True | Some u \<Rightarrow> s_session_id u = sid"
    "0 \<le> stored_version (live_at now sid S)"
    by (auto simp: view_wf_def mem_view_def split: option.splits)
  with assms(2) show ?thesis
    by (auto simp: snapshot_of_def new_session_snapshot_def mem_view_def snapshot_view_def
        stored_view_def empty_view_def stored_summary_def stored_version_def split: option.splits)
qed

lemma commit_session_Aware:
  assumes "policy_wf P" "\<not> blank sid" "0 \<le> version"
    and "case summary of None \<Rightarrow> True | Some u \<Rightarrow> s_session_id u = sid"
  shows "\<exists>s. fst (commit_session P (Aware now) sid version turns summary S) = Inr s
     \<and> sn_session_id s = sid
     \<and> snapshot_view s = \<lparr>v_version = version, v_turns = turns, v_summary = summary\<rparr>"
    and "mem_view now i (snd (commit_session P (Aware now) sid version turns summary S)) =
     (if i = sid then \<lparr>v_version = version, v_turns = turns, v_summary = summary\<rparr>
      else mem_view now i S)"
  using assms
  by (auto simp: commit_session_def clock_now_def snapshot_of_def new_session_snapshot_def
      snapshot_view_def mem_view_def live_at_def stored_view_def policy_wf_def seconds_def Let_def
      split: option.splits)

lemma commit_session_inv:
  assumes "mem_inv limit S" "0 < version"
    and "view_wf limit sid \<lparr>v_version = version, v_turns = turns, v_summary = summary\<rparr>"
  shows "mem_inv limit (snd (commit_session P t2 sid version turns summary S))"
  using assms
  by (cases t2) (auto simp: commit_session_def clock_now_def mem_inv_def stored_view_def Let_def)

lemma live_at_view_wf:
  "mem_inv limit S \<Longrightarrow> fst (live_session t sid S) = Inr stored \<Longrightarrow> view_wf limit sid (stored_view stored)"
  by (cases t) (auto simp: live_session_def clock_now_def mem_inv_def stored_view_def
      split: option.splits if_splits)

lemma mem_append_inv:
  assumes inv: "mem_inv (max_turns P) S" and pos: "0 < max_turns P" and turn: "turn_wf turn"
  shows "mem_inv (max_turns P) (snd (mem_append_turn P t1 t2 turn expected S))"
proof -
  let ?sid = "t_session_id turn"
  obtain r S' where ls: "live_session t1 ?sid S = (r, S')" by fastforce
  then have inv': "mem_inv (max_turns P) S'" using live_session_inv [OF inv, of t1 ?sid] by simp
  have "mem_inv (max_turns P) (snd (commit_session P t2 ?sid (stored_version stored + 1)
      (take_last (max_turns P) (stored_turns stored @ [turn])) (stored_summary stored) S'))"
    if st: "r = Inr stored" and fresh: "matching_turn (stored_turns stored) turn = None"
    for stored
  proof -
    have wf: "view_wf (max_turns P) ?sid (stored_view stored)"
      using live_at_view_wf [OF inv, of t1] ls st by simp
    let ?v = "stored_view stored"
    have app: "view_append (max_turns P) ?sid ?v turn (v_version ?v) =
      Inr (?v\<lparr>v_version := v_version ?v + 1, v_turns := take_last (max_turns P) (v_turns ?v @ [turn])\<rparr>)"
      using fresh by (simp add: view_append_def)
    have "view_wf (max_turns P) ?sid
      \<lparr>v_version = stored_version stored + 1,
       v_turns = take_last (max_turns P) (stored_turns stored @ [turn]),
       v_summary = stored_summary stored\<rparr>"
      using view_append_wf [OF wf pos turn refl app] by (simp add: stored_view_update)
    moreover have "0 < stored_version stored + 1" using wf by (simp add: view_wf_def)
    ultimately show ?thesis using inv' by (intro commit_session_inv)
  qed
  with inv inv' ls show ?thesis
    by (auto simp: mem_append_turn_def split: sum.splits option.splits)
qed

lemma mem_compact_inv:
  assumes inv: "mem_inv limit S" and sum: "summary_wf summary"
  shows "mem_inv limit (snd (mem_compact P t1 t2 summary ids expected S))"
proof -
  let ?sid = "s_session_id summary"
  obtain r S' where ls: "live_session t1 ?sid S = (r, S')" by fastforce
  then have inv': "mem_inv limit S'" using live_session_inv [OF inv, of t1 ?sid] by simp
  have "mem_inv limit (snd (commit_session P t2 ?sid (sn_version c + 1)
      (drop (length ids) (sn_turns c)) (Some summary) S'))"
    if st: "r = Inr stored" and c: "snapshot_of ?sid stored = Inr c"
      and ok: "validate_compaction c summary ids expected = Inr False" for stored c
  proof -
    have wf: "view_wf limit ?sid (stored_view stored)"
      using live_at_view_wf [OF inv, of t1] ls st by simp
    have sv: "snapshot_view c = stored_view stored" "sn_session_id c = ?sid"
      using c by (auto simp: snapshot_of_def new_session_snapshot_Inr snapshot_view_def
          stored_view_def empty_view_def split: option.splits)
    have vc: "view_compact ?sid (stored_view stored) summary ids expected =
      Inr \<lparr>v_version = sn_version c + 1, v_turns = drop (length ids) (sn_turns c),
           v_summary = Some summary\<rparr>"
      using ok view_compact_snapshot [of c summary ids expected] sv by simp
    have "0 \<le> sn_version c" using wf sv(1) by (metis snapshot_view_sel(1) view_wf_def)
    then show ?thesis
      using inv' view_compact_wf [OF wf sum vc] by (intro commit_session_inv) auto
  qed
  with inv inv' ls show ?thesis
    by (auto simp: mem_compact_def split: sum.splits option.splits bool.splits)
qed

subsection \<open>The store provides the interface\<close>

lemma mem_read_Aware:
  assumes "mem_inv limit S" "\<not> blank sid"
  shows "\<exists>s. mem_read (Aware now) sid S = (Inr s, snd (mem_read (Aware now) sid S))
     \<and> sn_session_id s = sid \<and> snapshot_view s = mem_view now sid S"
    and "mem_view now i (snd (mem_read (Aware now) sid S)) = mem_view now i S"
    and "mem_inv limit (snd (mem_read (Aware now) sid S))"
proof -
  have eq: "mem_read (Aware now) sid S = (snapshot_of sid (live_at now sid S),
      drop_expired now sid S)"
    using assms(2) by (simp add: mem_read_def validate_session_id_def live_session_Aware)
  from snapshot_of_live [OF assms, of now]
  show "\<exists>s. mem_read (Aware now) sid S = (Inr s, snd (mem_read (Aware now) sid S))
     \<and> sn_session_id s = sid \<and> snapshot_view s = mem_view now sid S"
    by (auto simp: eq)
  show "mem_view now i (snd (mem_read (Aware now) sid S)) = mem_view now i S"
    by (simp add: eq)
  show "mem_inv limit (snd (mem_read (Aware now) sid S))"
    using assms(1) by (simp add: eq mem_inv_drop_expired)
qed

lemma mem_append_Aware:
  assumes P: "policy_wf P" and inv: "mem_inv (max_turns P) S" and turn: "turn_wf turn"
    and e: "0 \<le> expected"
  shows "case view_append (max_turns P) (t_session_id turn) (mem_view now (t_session_id turn) S) turn
            expected of
           Inl err \<Rightarrow> fst (mem_append_turn P (Aware now) (Aware now) turn expected S) = Inl err
             \<and> (\<forall>i. mem_view now i (snd (mem_append_turn P (Aware now) (Aware now) turn expected S))
                  = mem_view now i S)
         | Inr v \<Rightarrow> (\<exists>s. fst (mem_append_turn P (Aware now) (Aware now) turn expected S) = Inr s
             \<and> sn_session_id s = t_session_id turn \<and> snapshot_view s = v)
             \<and> (\<forall>i. mem_view now i (snd (mem_append_turn P (Aware now) (Aware now) turn expected S))
                  = (if i = t_session_id turn then v else mem_view now i S))"
proof -
  let ?sid = "t_session_id turn"
  let ?live = "live_at now ?sid S"
  let ?S = "drop_expired now ?sid S"
  have nb: "\<not> blank ?sid" using turn by (simp add: turn_wf_def)
  have wf: "view_wf (max_turns P) ?sid (stored_view ?live)"
    using mem_inv_view_wf [OF inv] by (simp add: mem_view_def)
  have eq: "mem_append_turn P (Aware now) (Aware now) turn expected S =
     (case matching_turn (stored_turns ?live) turn of
        Some d \<Rightarrow> if d = turn then (snapshot_of ?sid ?live, ?S)
          else (Inl (TurnConflict ?sid (t_turn_id turn) (t_request_id turn)), ?S)
      | None \<Rightarrow> if expected \<noteq> stored_version ?live
          then (Inl (VersionConflict ?sid expected (stored_version ?live)), ?S)
          else commit_session P (Aware now) ?sid (stored_version ?live + 1)
                 (take_last (max_turns P) (stored_turns ?live @ [turn])) (stored_summary ?live) ?S)"
    unfolding mem_append_turn_def live_session_Aware
    using e by (simp add: validate_expected_version_def)
  have commit: "0 \<le> stored_version ?live + 1"
    "case stored_summary ?live of None \<Rightarrow> True | Some u \<Rightarrow> s_session_id u = ?sid"
    using wf by (auto simp: view_wf_def split: option.splits)
  show ?thesis
    unfolding view_append_def eq
    using snapshot_of_live [OF inv nb, of now]
      commit_session_Aware [OF P nb commit, where S = ?S]
    by (auto simp: mem_view_update split: option.splits)
qed

lemma mem_compact_Aware:
  assumes P: "policy_wf P" and inv: "mem_inv (max_turns P) S" and sum: "summary_wf summary"
    and e: "0 \<le> expected"
  shows "case view_compact (s_session_id summary) (mem_view now (s_session_id summary) S) summary ids
            expected of
           Inl err \<Rightarrow> fst (mem_compact P (Aware now) (Aware now) summary ids expected S) = Inl err
             \<and> (\<forall>i. mem_view now i (snd (mem_compact P (Aware now) (Aware now) summary ids expected S))
                  = mem_view now i S)
         | Inr v \<Rightarrow> (\<exists>s. fst (mem_compact P (Aware now) (Aware now) summary ids expected S) = Inr s
             \<and> sn_session_id s = s_session_id summary \<and> snapshot_view s = v)
             \<and> (\<forall>i. mem_view now i (snd (mem_compact P (Aware now) (Aware now) summary ids expected S))
                  = (if i = s_session_id summary then v else mem_view now i S))"
proof -
  let ?sid = "s_session_id summary"
  let ?live = "live_at now ?sid S"
  let ?S = "drop_expired now ?sid S"
  have nb: "\<not> blank ?sid" using sum by (simp add: summary_wf_def)
  obtain c where c: "snapshot_of ?sid ?live = Inr c" "sn_session_id c = ?sid"
    "snapshot_view c = mem_view now ?sid S"
    using snapshot_of_live [OF inv nb] by blast
  have "0 \<le> sn_version c"
    using c(1) by (auto simp: snapshot_of_def new_session_snapshot_Inr split: option.splits)
  then have commit: "0 \<le> sn_version c + 1"
    "case Some summary of None \<Rightarrow> True | Some u \<Rightarrow> s_session_id u = ?sid" by auto
  have eq: "mem_compact P (Aware now) (Aware now) summary ids expected S =
     (case validate_compaction c summary ids expected of
        Inl err \<Rightarrow> (Inl err, ?S)
      | Inr True \<Rightarrow> (Inr c, ?S)
      | Inr False \<Rightarrow> commit_session P (Aware now) ?sid (sn_version c + 1)
          (drop (length ids) (sn_turns c)) (Some summary) ?S)"
    unfolding mem_compact_def live_session_Aware
    using e c(1) by (simp add: validate_expected_version_def)
  have vc: "view_compact ?sid (mem_view now ?sid S) summary ids expected =
     res_bind (validate_compaction c summary ids expected)
      (\<lambda>retry. Inr (if retry then mem_view now ?sid S
         else \<lparr>v_version = sn_version c + 1, v_turns = drop (length ids) (sn_turns c),
               v_summary = Some summary\<rparr>))"
    using view_compact_snapshot [of c summary ids expected] c(2,3) by (simp cong: if_cong)
  show ?thesis
    unfolding vc eq
    using c commit_session_Aware [OF P nb commit, where S = ?S]
    by (auto split: sum.splits bool.splits)
qed

interpretation mem_store: session_store "max_turns default_memory_policy"
  "mem_inv (max_turns default_memory_policy)" mem_view
  "\<lambda>now. mem_read (Aware now)"
  "\<lambda>now. mem_append_turn default_memory_policy (Aware now) (Aware now)"
  "\<lambda>now. mem_compact default_memory_policy (Aware now) (Aware now)"
proof (unfold_locales, goal_cases)
  case 1
  show ?case by (simp add: default_memory_policy_def)
next
  case (2 st sid now)
  then show ?case by (rule mem_inv_view_wf)
next
  case (3 st sid now)
  then show ?case by (rule mem_read_Aware(1))
next
  case (4 st now i sid)
  then show ?case
    by (cases "blank sid") (simp add: mem_read_def validate_session_id_def, metis mem_read_Aware(2))
next
  case (5 st now sid)
  then show ?case
    by (cases "blank sid") (simp add: mem_read_def validate_session_id_def, metis mem_read_Aware(3))
next
  case (6 st turn expected now)
  then show ?case by (intro mem_append_Aware default_memory_policy_wf)
next
  case (7 st turn now expected)
  then show ?case by (intro mem_append_inv) (auto simp: default_memory_policy_def)
next
  case (8 st summary expected now ids)
  then show ?case by (intro mem_compact_Aware default_memory_policy_wf)
next
  case (9 st summary now ids expected)
  then show ?case by (intro mem_compact_inv)
qed

subsection \<open>Every reachable store\<close>

text \<open>
  A run of the store: any sequence of calls, each at any readings of the clock (naive ones and clocks
  that go back included), with arguments that the constructors of turns and summaries accept.
\<close>

datatype mem_call =
    CallRead pystr
  | CallAppend session_turn int
  | CallClear pystr int
  | CallCompact session_summary "pystr list" int

fun mem_exec :: "memory_policy \<Rightarrow> pytime \<Rightarrow> pytime \<Rightarrow> mem_call \<Rightarrow> mem_store \<Rightarrow> mem_outcome" where
  "mem_exec P t1 t2 (CallRead sid) S = mem_read t1 sid S"
| "mem_exec P t1 t2 (CallAppend turn expected) S = mem_append_turn P t1 t2 turn expected S"
| "mem_exec P t1 t2 (CallClear sid expected) S = mem_clear t1 sid expected S"
| "mem_exec P t1 t2 (CallCompact summary ids expected) S = mem_compact P t1 t2 summary ids expected S"

fun call_wf :: "mem_call \<Rightarrow> bool" where
  "call_wf (CallRead sid) = True"
| "call_wf (CallAppend turn expected) = turn_wf turn"
| "call_wf (CallClear sid expected) = True"
| "call_wf (CallCompact summary ids expected) = summary_wf summary"

inductive mem_reachable :: "memory_policy \<Rightarrow> mem_store \<Rightarrow> bool" for P where
  start: "mem_reachable P Map.empty"
| call: "mem_reachable P S \<Longrightarrow> call_wf c \<Longrightarrow> mem_reachable P (snd (mem_exec P t1 t2 c S))"

lemma mem_read_inv: "mem_inv limit S \<Longrightarrow> mem_inv limit (snd (mem_read t sid S))"
  using live_session_inv [of limit S t sid]
  by (auto simp: mem_read_def split: sum.splits prod.splits)

lemma mem_clear_inv: "mem_inv limit S \<Longrightarrow> mem_inv limit (snd (mem_clear t sid expected S))"
  using live_session_inv [of limit S t sid]
  by (auto simp: mem_clear_def mem_inv_drop split: sum.splits prod.splits)

lemma mem_exec_inv:
  assumes "policy_wf P" "call_wf c" "mem_inv (max_turns P) S"
  shows "mem_inv (max_turns P) (snd (mem_exec P t1 t2 c S))"
  using assms
  by (cases c) (simp_all add: mem_read_inv mem_clear_inv mem_append_inv mem_compact_inv policy_wf_def)

lemma mem_reachable_inv: "mem_reachable P S \<Longrightarrow> policy_wf P \<Longrightarrow> mem_inv (max_turns P) S"
  by (induction rule: mem_reachable.induct) (simp_all add: mem_exec_inv)

text \<open>
  C4: In every store reachable by any sequence of calls at any clock readings, a stored session has
  been written (version at least 1), retains between one and \<^verbatim>\<open>max_turns\<close> turns, all of that session and
  no two sharing a turn or request identifier, and its summary covers fewer turns than writes happened.
\<close>

theorem reachable_sessions_bounded:
  assumes "policy_wf P" and "mem_reachable P S" and "S sid = Some st"
  shows "0 < st_version st \<and> 1 \<le> length (st_turns st) \<and> length (st_turns st) \<le> max_turns P
    \<and> distinct (map t_turn_id (st_turns st)) \<and> distinct (map t_request_id (st_turns st))
    \<and> (\<forall>t \<in> set (st_turns st). t_session_id t = sid)
    \<and> (case st_summary st of None \<Rightarrow> True
       | Some s \<Rightarrow> s_session_id s = sid
           \<and> s_covered_turn_count s + int (length (st_turns st)) < st_version st)"
proof -
  have "mem_inv (max_turns P) S" using mem_reachable_inv assms(1,2) by blast
  then have "0 < st_version st" "view_wf (max_turns P) sid (stored_view (Some st))"
    using assms(3) by (auto simp: mem_inv_def)
  then show ?thesis
    by (auto simp: view_wf_def stored_view_def Suc_le_eq split: option.splits)
qed

definition demo_turn :: "string \<Rightarrow> session_turn" where
  "demo_turn n = \<lparr>t_session_id = lit ''s'', t_turn_id = lit n, t_request_id = lit (''r'' @ n),
     t_user_text = lit ''q'', t_assistant_text = lit ''a'', t_created_at = 0\<rparr>"

definition demo_store :: mem_store where
  "demo_store = [lit ''s'' \<mapsto> \<lparr>st_version = 1, st_turns = [demo_turn ''1''], st_summary = None,
     st_expires_at = 1800000000\<rparr>]"

lemma not_space_letters [simp]:
  "\<not> blank (lit ''s'')" "\<not> blank (lit ''q'')" "\<not> blank (lit ''a'')"
  "\<not> blank (lit ''1'')" "\<not> blank (lit ''2'')" "\<not> blank (lit ''r1'')" "\<not> blank (lit ''r2'')"
  by (simp_all add: lit_def py_space_def)

lemma demo_turn_wf [simp]: "turn_wf (demo_turn ''1'')" "turn_wf (demo_turn ''2'')"
  by (simp_all add: turn_wf_def demo_turn_def)

lemma demo_append:
  "mem_append_turn default_memory_policy (Aware 0) (Aware 0) (demo_turn ''1'') 0 Map.empty =
    (Inr \<lparr>sn_session_id = lit ''s'', sn_version = 1, sn_turns = [demo_turn ''1''], sn_summary = None,
      sn_expires_at = Some 1800000000\<rparr>, demo_store)"
  by (simp add: mem_append_turn_def validate_expected_version_def live_session_def stored_turns_def
      stored_version_def stored_summary_def commit_session_def clock_now_def snapshot_of_def
      new_session_snapshot_def default_memory_policy_def take_last_def seconds_def demo_turn_def
      demo_store_def)

theorem reachable_sessions_bounded_witness:
  "\<exists>st. demo_store (lit ''s'') = Some st \<and> 0 < st_version st \<and> 1 \<le> length (st_turns st)
    \<and> length (st_turns st) \<le> 20"
proof -
  have r: "mem_reachable default_memory_policy demo_store"
    using mem_reachable.call [OF mem_reachable.start, of "CallAppend (demo_turn ''1'') 0"
        default_memory_policy "Aware 0" "Aware 0"]
    by (simp add: demo_append)
  obtain st where st: "demo_store (lit ''s'') = Some st" by (simp add: demo_store_def)
  show ?thesis
    using reachable_sessions_bounded [OF default_memory_policy_wf r st] st
    by (auto simp: default_memory_policy_def)
qed

subsection \<open>Optimistic concurrency\<close>



text \<open>
  An append that is repeated after it returned, with any expected version and at any time before the
  session expires, returns the same turns and version and leaves the store as it is: a retry is not a
  second write.
\<close>

theorem append_retry_idempotent:
  assumes "policy_wf P" "mem_inv (max_turns P) S" "turn_wf t" "0 \<le> expected"
    and "mem_append_turn P (Aware now) (Aware now) t expected S = (Inr snap, S')"
    and "matching_turn (v_turns (mem_view now (t_session_id t) S)) t = None"
    and "0 \<le> expected'" "later < now + seconds (ttl_seconds P)"
  shows "mem_append_turn P (Aware later) t2 t expected' S' = (Inr snap, S')"
proof -
  let ?sid = "t_session_id t"
  let ?live = "live_at now ?sid S"
  have nb: "\<not> blank ?sid" using assms(3) by (simp add: turn_wf_def)
  have ls: "live_session (Aware now) ?sid S = (Inr ?live, drop_expired now ?sid S)"
    by (rule live_session_Aware)
  define turns where "turns = take_last (max_turns P) (stored_turns ?live @ [t])"
  define st where "st = \<lparr>st_version = stored_version ?live + 1, st_turns = turns,
      st_summary = stored_summary ?live, st_expires_at = now + seconds (ttl_seconds P)\<rparr>"
  have snap: "snapshot_of ?sid (Some st) = Inr snap" and S': "S' = (drop_expired now ?sid S)(?sid \<mapsto> st)"
    using assms(4-6)
    by (auto simp: mem_append_turn_def ls validate_expected_version_def commit_session_def
        clock_now_def st_def turns_def Let_def split: if_splits)
  have wf: "view_wf (max_turns P) ?sid (stored_view ?live)"
    using mem_inv_view_wf [OF assms(2)] by (simp add: mem_view_def)
  have "t \<in> set turns"
  proof -
    have "last turns = t" "turns \<noteq> []"
      using assms(1) by (auto simp: turns_def policy_wf_def last_take_last simp flip: length_greater_0_conv)
    then show ?thesis by (metis last_in_set)
  qed
  moreover have "\<forall>d \<in> set turns. t_turn_id d = t_turn_id t \<or> t_request_id d = t_request_id t \<longrightarrow> d = t"
    using assms(6) set_take_last [of "max_turns P" "stored_turns ?live @ [t]"]
    by (auto simp: turns_def matching_turn_None_iff dest!: subsetD) (metis image_eqI)+
  ultimately have m: "matching_turn turns t = Some t"
    by (cases "matching_turn turns t") (auto simp: matching_turn_None_iff dest: matching_turn_SomeD)
  have "live_session (Aware later) ?sid S' = (Inr (Some st), S')"
    using assms(8) by (simp add: live_session_def clock_now_def S' st_def)
  with m snap assms(7) show ?thesis
    by (simp add: mem_append_turn_def validate_expected_version_def stored_turns_def st_def)
qed

theorem append_retry_idempotent_witness:
  "fst (mem_append_turn default_memory_policy (Aware 5) (Aware 5) (demo_turn ''1'') 7 demo_store) =
     Inr \<lparr>sn_session_id = lit ''s'', sn_version = 1, sn_turns = [demo_turn ''1''], sn_summary = None,
      sn_expires_at = Some 1800000000\<rparr>"
  using append_retry_idempotent [OF default_memory_policy_wf _ _ _ demo_append, of 7 5 "Aware 5"]
  by (simp add: mem_view_def live_at_def stored_view_def empty_view_def default_memory_policy_def
      seconds_def)

text \<open>
  Reading never refreshes the lifetime of a session and an expired session reads as the empty
  version 0: a read before the expiry leaves the store unchanged, a read at or after it returns no turn,
  no summary and version 0 and forgets the stored state.
\<close>

theorem read_respects_ttl:
  assumes "mem_inv limit S" "\<not> blank sid" "S sid = Some st"
  shows "(if now < st_expires_at st
     then mem_read (Aware now) sid S =
       (Inr \<lparr>sn_session_id = sid, sn_version = st_version st, sn_turns = st_turns st,
             sn_summary = st_summary st, sn_expires_at = Some (st_expires_at st)\<rparr>, S)
     else mem_read (Aware now) sid S =
       (Inr \<lparr>sn_session_id = sid, sn_version = 0, sn_turns = [], sn_summary = None,
             sn_expires_at = None\<rparr>, S(sid := None)))"
proof -
  have "view_wf limit sid (stored_view (Some st))" "0 < st_version st"
    using assms(1,3) by (auto simp: mem_inv_def)
  then show ?thesis
    using assms(2,3)
    by (auto simp: mem_read_def validate_session_id_def live_session_def clock_now_def snapshot_of_def
        new_session_snapshot_def view_wf_def stored_view_def split: option.splits)
qed

theorem read_respects_ttl_witness:
  "mem_read (Aware 1800000000) (lit ''s'') demo_store =
     (Inr \<lparr>sn_session_id = lit ''s'', sn_version = 0, sn_turns = [], sn_summary = None,
           sn_expires_at = None\<rparr>, demo_store(lit ''s'' := None))"
proof -
  have inv: "mem_inv 20 demo_store"
    using mem_append_inv [of default_memory_policy Map.empty "demo_turn ''1''" "Aware 0" "Aware 0" 0]
    by (simp add: demo_append) (simp add: default_memory_policy_def)
  show ?thesis
    using read_respects_ttl [OF inv, of "lit ''s''" _ 1800000000] by (simp add: demo_store_def)
qed

end
