(* ===== verification/Serialization.thy ===== *)
theory Serialization
  imports MemoryModels Complex_Main
begin

section \<open>Session memory: the stored JSON value\<close>

text \<open>
  \<^verbatim>\<open>memory/serialization.py\<close>. A JSON document is the tree \<open>json\<close>. What the code takes from libraries
  is the record \<open>codec\<close>: the text form of a tree (\<^verbatim>\<open>json.dumps\<close>, \<^verbatim>\<open>json.loads\<close>, the latter
  failing on text that is no JSON or no UTF-8), ISO timestamps (\<^verbatim>\<open>isoformat\<close>, \<^verbatim>\<open>fromisoformat\<close>)
  and pydantic's reading of a numeric string. \<open>codec_ok\<close> is the documented behaviour the code relies
  on: each pair of functions is a round trip.
\<close>

datatype json =
    JNull
  | JBool bool
  | JInt int
  | JReal rat
  | JStr pystr
  | JList "json list"
  | JObj "(pystr \<times> json) list"

record 'p codec =
  dumps :: "json \<Rightarrow> 'p"
  loads :: "'p \<Rightarrow> json option"
  iso :: "int \<Rightarrow> pystr"
  from_iso :: "pystr \<Rightarrow> pytime option"
  str_int :: "pystr \<Rightarrow> int option"

definition codec_ok :: "'p codec \<Rightarrow> bool" where
  "codec_ok c \<longleftrightarrow> (\<forall>v. loads c (dumps c v) = Some v) \<and> (\<forall>t. from_iso c (iso c t) = Some (Aware t))"

subsection \<open>Reading fields\<close>

definition jget :: "(pystr \<times> json) list \<Rightarrow> string \<Rightarrow> json" where
  "jget fs name = (case map_of fs (lit name) of None \<Rightarrow> JNull | Some v \<Rightarrow> v)"

definition keys_are :: "(pystr \<times> json) list \<Rightarrow> string list \<Rightarrow> bool" where
  "keys_are fs names \<longleftrightarrow> fst ` set fs = lit ` set names"

text \<open>\<^verbatim>\<open>value == n\<close> for an integer \<open>n\<close>: Python compares numbers across its numeric types.\<close>

definition json_eq_int :: "json \<Rightarrow> int \<Rightarrow> bool" where
  "json_eq_int v n = (case v of JInt i \<Rightarrow> i = n | JBool b \<Rightarrow> (if b then 1 else 0) = n
     | JReal r \<Rightarrow> r = of_int n | _ \<Rightarrow> False)"

definition bad :: "string \<Rightarrow> mem_error + 'a" where
  "bad msg = Inl (ValueErr msg)"

text \<open>How a pydantic field of type \<^verbatim>\<open>str\<close>, \<^verbatim>\<open>str | None\<close> or \<^verbatim>\<open>int\<close> reads a JSON value.\<close>

definition str_field :: "json \<Rightarrow> mem_error + pystr" where
  "str_field v = (case v of JStr s \<Rightarrow> Inr s | _ \<Rightarrow> bad ''str field'')"

definition opt_str_field :: "json \<Rightarrow> mem_error + pystr option" where
  "opt_str_field v = (case v of JNull \<Rightarrow> Inr None | JStr s \<Rightarrow> Inr (Some s) | _ \<Rightarrow> bad ''str field'')"

definition int_field :: "'p codec \<Rightarrow> json \<Rightarrow> mem_error + int" where
  "int_field c v = (case v of
       JInt i \<Rightarrow> Inr i
     | JBool b \<Rightarrow> Inr (if b then 1 else 0)
     | JReal r \<Rightarrow> if r = of_int \<lfloor>r\<rfloor> then Inr \<lfloor>r\<rfloor> else bad ''int field''
     | JStr s \<Rightarrow> (case str_int c s of None \<Rightarrow> bad ''int field'' | Some i \<Rightarrow> Inr i)
     | _ \<Rightarrow> bad ''int field'')"

text \<open>\<^verbatim>\<open>datetime.fromisoformat(created_at)\<close> after the type check.\<close>

definition time_field :: "'p codec \<Rightarrow> json \<Rightarrow> string \<Rightarrow> mem_error + pytime" where
  "time_field c v msg = (case v of
       JStr s \<Rightarrow> (case from_iso c s of None \<Rightarrow> bad ''isoformat'' | Some t \<Rightarrow> Inr t)
     | _ \<Rightarrow> bad msg)"

subsection \<open>Encoding\<close>

text \<open>The fields stand in the order \<^verbatim>\<open>sort_keys=True\<close> gives them.\<close>

definition serialize_turn :: "'p codec \<Rightarrow> session_turn \<Rightarrow> json" where
  "serialize_turn c t = JObj
     [(lit ''assistant_text'', JStr (t_assistant_text t)),
      (lit ''created_at'', JStr (iso c (t_created_at t))),
      (lit ''request_id'', JStr (t_request_id t)), (lit ''session_id'', JStr (t_session_id t)),
      (lit ''turn_id'', JStr (t_turn_id t)), (lit ''user_text'', JStr (t_user_text t))]"

definition serialize_summary :: "'p codec \<Rightarrow> session_summary \<Rightarrow> json" where
  "serialize_summary c s = JObj
     [(lit ''covered_through_turn_id'', JStr (s_covered_through_turn_id s)),
      (lit ''covered_turn_count'', JInt (s_covered_turn_count s)),
      (lit ''created_at'', JStr (iso c (s_created_at s))),
      (lit ''previous_summary_id'',
        (case s_previous_summary_id s of None \<Rightarrow> JNull | Some p \<Rightarrow> JStr p)),
      (lit ''session_id'', JStr (s_session_id s)),
      (lit ''source_version'', JInt (s_source_version s)),
      (lit ''summary_id'', JStr (s_summary_id s)),
      (lit ''summary_text'', JStr (s_summary_text s))]"

definition serialize_session_snapshot :: "'p codec \<Rightarrow> session_snapshot \<Rightarrow> 'p" where
  "serialize_session_snapshot c s = dumps c (JObj
     [(lit ''schema_version'', JInt 2),
      (lit ''session_id'', JStr (sn_session_id s)),
      (lit ''summary'', (case sn_summary s of None \<Rightarrow> JNull | Some u \<Rightarrow> serialize_summary c u)),
      (lit ''turns'', JList (map (serialize_turn c) (sn_turns s))),
      (lit ''version'', JInt (sn_version s))])"

subsection \<open>Decoding\<close>

definition deserialize_turn :: "'p codec \<Rightarrow> json \<Rightarrow> mem_error + session_turn" where
  "deserialize_turn c v = (case v of
     JObj f \<Rightarrow>
       if \<not> keys_are f [''session_id'', ''turn_id'', ''request_id'', ''user_text'',
            ''assistant_text'', ''created_at''] then bad ''invalid turn fields''
       else res_bind (time_field c (jget f ''created_at'') ''invalid timestamp'') (\<lambda>created.
            res_bind (str_field (jget f ''session_id'')) (\<lambda>sid.
            res_bind (str_field (jget f ''turn_id'')) (\<lambda>tid.
            res_bind (str_field (jget f ''request_id'')) (\<lambda>rid.
            res_bind (str_field (jget f ''user_text'')) (\<lambda>user.
            res_bind (str_field (jget f ''assistant_text'')) (\<lambda>assistant.
            new_session_turn sid tid rid user assistant created))))))
   | _ \<Rightarrow> bad ''invalid turn fields'')"

definition deserialize_summary ::
  "'p codec \<Rightarrow> json \<Rightarrow> pystr \<Rightarrow> mem_error + session_summary option" where
  "deserialize_summary c v expected = (case v of
     JNull \<Rightarrow> Inr None
   | JObj f \<Rightarrow>
       if \<not> keys_are f [''session_id'', ''summary_id'', ''previous_summary_id'', ''source_version'',
            ''covered_turn_count'', ''covered_through_turn_id'', ''summary_text'', ''created_at'']
       then bad ''invalid summary fields''
       else if jget f ''session_id'' \<noteq> JStr expected then bad ''summary session mismatch''
       else res_bind (time_field c (jget f ''created_at'') ''invalid summary timestamp'') (\<lambda>created.
            res_bind (str_field (jget f ''session_id'')) (\<lambda>sid.
            res_bind (str_field (jget f ''summary_id'')) (\<lambda>sumid.
            res_bind (opt_str_field (jget f ''previous_summary_id'')) (\<lambda>prev.
            res_bind (int_field c (jget f ''source_version'')) (\<lambda>srcv.
            res_bind (int_field c (jget f ''covered_turn_count'')) (\<lambda>covered.
            res_bind (str_field (jget f ''covered_through_turn_id'')) (\<lambda>through.
            res_bind (str_field (jget f ''summary_text'')) (\<lambda>body.
            res_bind (new_session_summary sid sumid prev srcv covered through body created)
              (\<lambda>s. Inr (Some s))))))))))
   | _ \<Rightarrow> bad ''invalid summary fields'')"

text \<open>The summary field by schema version: version 1 has none, version 2 validates it.\<close>

definition schema_summary ::
  "'p codec \<Rightarrow> (pystr \<times> json) list \<Rightarrow> pystr \<Rightarrow> mem_error + session_summary option" where
  "schema_summary c f expected =
    (if json_eq_int (jget f ''schema_version'') 1
     then (if \<not> keys_are f [''schema_version'', ''session_id'', ''version'', ''turns'']
           then bad ''invalid v1 state fields'' else Inr None)
     else if json_eq_int (jget f ''schema_version'') 2
     then (if \<not> keys_are f [''schema_version'', ''session_id'', ''version'', ''summary'', ''turns'']
           then bad ''invalid v2 state fields''
           else deserialize_summary c (jget f ''summary'') expected)
     else bad ''unsupported schema'')"

definition decode_state ::
  "'p codec \<Rightarrow> json \<Rightarrow> pystr \<Rightarrow> int \<Rightarrow> mem_error + session_snapshot" where
  "decode_state c v expected expires = (case v of
     JObj f \<Rightarrow>
       res_bind (schema_summary c f expected) (\<lambda>summary.
       if jget f ''session_id'' \<noteq> JStr expected then bad ''session mismatch''
       else case jget f ''version'' of
         JInt version \<Rightarrow>
           if version < 0 then bad ''invalid version''
           else (case jget f ''turns'' of
             JList items \<Rightarrow>
               res_bind (res_map (deserialize_turn c) items) (\<lambda>turns.
               if list_ex (\<lambda>t. t_session_id t \<noteq> expected) turns then bad ''turn session mismatch''
               else new_session_snapshot expected version turns summary (Some expires))
           | _ \<Rightarrow> bad ''invalid turns'')
       | _ \<Rightarrow> bad ''invalid version'')
   | _ \<Rightarrow> bad ''invalid state fields'')"

text \<open>Every failure while decoding becomes the one corruption error.\<close>

definition deserialize_session_snapshot ::
  "'p codec \<Rightarrow> 'p \<Rightarrow> pystr \<Rightarrow> int \<Rightarrow> mem_error + session_snapshot" where
  "deserialize_session_snapshot c payload expected expires =
     (case (case loads c payload of None \<Rightarrow> bad ''payload'' | Some v \<Rightarrow> decode_state c v expected expires) of
        Inl _ \<Rightarrow> Inl (Corruption expected)
      | Inr s \<Rightarrow> Inr s)"

subsection \<open>Round trip\<close>

definition snapshot_wf :: "session_snapshot \<Rightarrow> bool" where
  "snapshot_wf s \<longleftrightarrow> \<not> blank (sn_session_id s) \<and> 0 \<le> sn_version s
     \<and> (\<forall>t \<in> set (sn_turns s). turn_wf t \<and> t_session_id t = sn_session_id s)
     \<and> (case sn_summary s of None \<Rightarrow> True
        | Some u \<Rightarrow> summary_wf u \<and> s_session_id u = sn_session_id s)"

lemma turn_roundtrip:
  assumes "codec_ok c" "turn_wf t"
  shows "deserialize_turn c (serialize_turn c t) = Inr t"
  using assms
  by (auto simp: deserialize_turn_def serialize_turn_def keys_are_def jget_def time_field_def
      str_field_def codec_ok_def new_session_turn_def turn_wf_def normalize_utc_def)

lemma summary_roundtrip:
  assumes "codec_ok c" "summary_wf s"
  shows "deserialize_summary c (serialize_summary c s) (s_session_id s) = Inr (Some s)"
proof -
  have n: "new_session_summary (s_session_id s) (s_summary_id s) (s_previous_summary_id s)
      (s_source_version s) (s_covered_turn_count s) (s_covered_through_turn_id s)
      (s_summary_text s) (Aware (s_created_at s)) = Inr s"
    using assms(2) by (simp add: new_session_summary_Inr)
  then show ?thesis
    using assms(1)
    by (auto simp: deserialize_summary_def serialize_summary_def keys_are_def jget_def time_field_def
        str_field_def opt_str_field_def int_field_def codec_ok_def split: option.splits)
qed

lemma turns_roundtrip:
  assumes "codec_ok c" "\<forall>t \<in> set ts. turn_wf t"
  shows "res_map (deserialize_turn c) (map (serialize_turn c) ts) = Inr ts"
  using assms by (induction ts) (simp_all add: turn_roundtrip)

lemma snapshot_roundtrip:
  assumes "codec_ok c" and "snapshot_wf s"
  shows "deserialize_session_snapshot c (serialize_session_snapshot c s) (sn_session_id s) expires =
     Inr (s\<lparr>sn_expires_at := Some expires\<rparr>)"
proof -
  let ?f = "[(lit ''schema_version'', JInt 2), (lit ''session_id'', JStr (sn_session_id s)),
      (lit ''summary'', (case sn_summary s of None \<Rightarrow> JNull | Some u \<Rightarrow> serialize_summary c u)),
      (lit ''turns'', JList (map (serialize_turn c) (sn_turns s))),
      (lit ''version'', JInt (sn_version s))]"
  have "deserialize_summary c JNull (sn_session_id s) = Inr None"
    by (simp add: deserialize_summary_def)
  then have summary: "schema_summary c ?f (sn_session_id s) = Inr (sn_summary s)"
    using assms summary_roundtrip [OF assms(1), of "the (sn_summary s)"]
    by (auto simp: schema_summary_def keys_are_def jget_def json_eq_int_def snapshot_wf_def
        split: option.splits)
  have turns: "res_map (deserialize_turn c) (map (serialize_turn c) (sn_turns s)) = Inr (sn_turns s)"
    using assms by (simp add: turns_roundtrip snapshot_wf_def)
  have "\<not> list_ex (\<lambda>t. t_session_id t \<noteq> sn_session_id s) (sn_turns s)"
    using assms(2) by (auto simp: snapshot_wf_def list_ex_iff)
  with assms(2) have "decode_state c (JObj ?f) (sn_session_id s) expires =
      Inr (s\<lparr>sn_expires_at := Some expires\<rparr>)"
    by (auto simp: decode_state_def summary turns jget_def new_session_snapshot_def snapshot_wf_def
        split: option.splits)
  then show ?thesis
    using assms(1)
    by (simp add: deserialize_session_snapshot_def serialize_session_snapshot_def codec_ok_def)
qed

text \<open>
  C6: What the Redis store writes it reads back: decoding the encoding of a well-formed snapshot, with the
  session it belongs to, yields the same version, turns and summary and the expiry the reader supplies,
  under any text and timestamp codecs that are round trips.
\<close>

theorem snapshot_serialization_roundtrip:
  assumes "codec_ok c" and "snapshot_wf s"
  shows "deserialize_session_snapshot c (serialize_session_snapshot c s) (sn_session_id s) expires =
     Inr (s\<lparr>sn_expires_at := Some expires\<rparr>)"
  using assms by (rule snapshot_roundtrip)

text \<open>A concrete codec: the tree is its own text, a timestamp its sign and decimal digits.\<close>

definition tree_codec :: "json codec" where
  "tree_codec = \<lparr>dumps = (\<lambda>v. v), loads = Some,
     iso = (\<lambda>t. if t < 0 then 45 # py_nat_str (nat (- t)) else 43 # py_nat_str (nat t)),
     from_iso = (\<lambda>s. case s of [] \<Rightarrow> None
        | sign # d \<Rightarrow> Some (Aware (if sign = 45 then - int (py_nat_val d) else int (py_nat_val d)))),
     str_int = (\<lambda>s. None)\<rparr>"

lemma tree_codec_ok: "codec_ok tree_codec"
  by (auto simp: codec_ok_def tree_codec_def py_nat_val_str simp del: py_nat_val.simps)

theorem snapshot_serialization_roundtrip_witness:
  "deserialize_session_snapshot tree_codec (serialize_session_snapshot tree_codec
       \<lparr>sn_session_id = [115], sn_version = 3, sn_turns = [], sn_summary = None, sn_expires_at = None\<rparr>)
     [115] 9 =
   Inr \<lparr>sn_session_id = [115], sn_version = 3, sn_turns = [], sn_summary = None,
        sn_expires_at = Some 9\<rparr>"
  using snapshot_serialization_roundtrip [OF tree_codec_ok, of "\<lparr>sn_session_id = [115],
      sn_version = 3, sn_turns = [], sn_summary = None, sn_expires_at = None\<rparr>" 9]
  by (simp add: snapshot_wf_def py_space_def)

lemma deserialize_errors:
  "deserialize_session_snapshot c p sid e = Inl err \<Longrightarrow> err = Corruption sid"
  by (auto simp: deserialize_session_snapshot_def split: sum.splits)

lemma decode_state_snapshot:
  assumes "decode_state c v expected expires = Inr s"
  shows "\<exists>version turns summary items. new_session_snapshot expected version turns summary (Some expires) = Inr s
     \<and> res_map (deserialize_turn c) items = Inr turns \<and> (\<forall>t \<in> set turns. t_session_id t = expected)
     \<and> (\<exists>f. schema_summary c f expected = Inr summary)"
proof (cases v)
  case (JObj f)
  then show ?thesis
  proof (cases "jget f ''version''")
    case (JInt n)
    with JObj assms show ?thesis
      by (cases "jget f ''turns''")
        (auto simp: decode_state_def bad_def res_simps list_ex_iff split: if_splits)
  qed (use JObj assms in \<open>auto simp: decode_state_def bad_def res_simps split: if_splits\<close>)
qed (use assms in \<open>auto simp: decode_state_def bad_def\<close>)

lemma deserialize_turn_wf: "deserialize_turn c v = Inr t \<Longrightarrow> turn_wf t"
  by (cases v) (auto simp: deserialize_turn_def bad_def res_simps split: if_splits
      dest: new_session_turn_wf)

lemma deserialize_summary_wf:
  "deserialize_summary c v sid = Inr (Some u) \<Longrightarrow> summary_wf u"
  by (cases v) (auto simp: deserialize_summary_def bad_def res_simps split: if_splits
      dest: new_session_summary_wf)

text \<open>What is read back is well formed: the constructors ran again on every field.\<close>

lemma deserialize_wf:
  assumes "deserialize_session_snapshot c p sid e = Inr s"
  shows "snapshot_wf s \<and> sn_session_id s = sid"
proof -
  from assms obtain v where "decode_state c v sid e = Inr s"
    by (auto simp: deserialize_session_snapshot_def bad_def split: sum.splits option.splits)
  from decode_state_snapshot [OF this] obtain version turns summary items f where
    n: "new_session_snapshot sid version turns summary (Some e) = Inr s"
    and i: "res_map (deserialize_turn c) items = Inr turns" "\<forall>t \<in> set turns. t_session_id t = sid"
    and f: "schema_summary c f sid = Inr summary" by blast
  have "\<forall>t \<in> set turns. turn_wf t"
    using res_map_all [OF i(1), of turn_wf] deserialize_turn_wf [of c] by blast
  moreover have "case summary of None \<Rightarrow> True | Some u \<Rightarrow> summary_wf u"
    using f by (auto simp: schema_summary_def bad_def split: if_splits option.splits
        dest: deserialize_summary_wf)
  ultimately show ?thesis
    using n i(2) by (auto simp: new_session_snapshot_Inr snapshot_wf_def split: option.splits)
qed

end
