(* ===== verification/RedisStore.thy ===== *)
theory RedisStore
  imports InMemoryStore Serialization
begin

section \<open>Session memory: the Redis store\<close>

text \<open>
  \<^verbatim>\<open>memory/redis_store.py\<close>. The Redis server is outside the repository: each attempt of a
  WATCH/MULTI/EXEC transaction runs against an \<open>attempt\<close>, the server's replies to the calls of that
  attempt together with the readings of the injected clock. A call that raises \<^verbatim>\<open>WatchError\<close> replies
  \<open>WatchErr\<close>, one that raises any other Redis or socket error \<open>ConnErr\<close>. The log lists the
  transactions that were sent with \<^verbatim>\<open>EXEC\<close>, each with the server's reply to it. Digests and the
  JSON codec are arguments.
\<close>

datatype 'a reply = Reply 'a | WatchErr | ConnErr

record 'p attempt =
  a_watch :: "unit reply"
  a_get :: "'p option reply"
  a_ttl :: "int option reply"
  a_now :: pytime
  a_now_commit :: pytime
  a_exec :: "unit reply"

datatype 'p redis_write = WSet pystr 'p int | WDel pystr

type_synonym 'p wlog = "('p redis_write \<times> unit reply) list"

text \<open>The outcome of a computation inside one attempt: a value, an error, or a lost watch.\<close>

datatype 'a step = SOk 'a | SFail mem_error | SWatch

fun step_bind :: "'a step \<Rightarrow> ('a \<Rightarrow> 'b step) \<Rightarrow> 'b step" where
  "step_bind (SOk a) f = f a"
| "step_bind (SFail e) f = SFail e"
| "step_bind SWatch f = SWatch"

fun raised :: "mem_error + 'a \<Rightarrow> 'a step" where
  "raised (Inl e) = SFail e"
| "raised (Inr a) = SOk a"

fun call_server :: "string \<Rightarrow> 'a reply \<Rightarrow> 'a step" where
  "call_server operation (Reply a) = SOk a"
| "call_server operation WatchErr = SWatch"
| "call_server operation ConnErr = SFail (Unavailable operation)"

lemma step_bind_iff [res_simps]:
  "step_bind m f = SOk b \<longleftrightarrow> (\<exists>a. m = SOk a \<and> f a = SOk b)"
  "step_bind m f = SFail e \<longleftrightarrow> m = SFail e \<or> (\<exists>a. m = SOk a \<and> f a = SFail e)"
  "step_bind m f = SWatch \<longleftrightarrow> m = SWatch \<or> (\<exists>a. m = SOk a \<and> f a = SWatch)"
  by (cases m; auto)+

lemma raised_iff [res_simps]:
  "raised r = SOk a \<longleftrightarrow> r = Inr a"
  "raised r = SFail e \<longleftrightarrow> r = Inl e"
  "raised r \<noteq> SWatch"
  by (cases r; auto)+

lemma call_server_iff [res_simps]:
  "call_server operation r = SOk a \<longleftrightarrow> r = Reply a"
  "call_server operation r = SFail e \<longleftrightarrow> r = ConnErr \<and> e = Unavailable operation"
  "call_server operation r = SWatch \<longleftrightarrow> r = WatchErr"
  by (cases r; auto)+

subsection \<open>Construction and keys\<close>

record redis_config =
  rc_policy :: memory_policy
  rc_prefix :: pystr
  rc_retries :: nat

definition new_redis_store ::
  "bool \<Rightarrow> memory_policy \<Rightarrow> pystr \<Rightarrow> int \<Rightarrow> mem_error + redis_config" where
  "new_redis_store has_client P pfx retries =
     res_bind (ensure has_client (ValueErr ''client must not be None'')) (\<lambda>_.
     res_bind (ensure (\<not> blank pfx) (ValueErr ''key_prefix must be non-empty'')) (\<lambda>_.
     res_bind (ensure (0 < retries) (ValueErr ''max_transaction_retries must be a positive integer''))
       (\<lambda>_. Inr \<lparr>rc_policy = P, rc_prefix = pfx, rc_retries = nat retries\<rparr>)))"

definition redis_key :: "(pystr \<Rightarrow> pystr) \<Rightarrow> redis_config \<Rightarrow> pystr \<Rightarrow> mem_error + pystr" where
  "redis_key sha R sid =
     res_bind (validate_session_id sid) (\<lambda>_. Inr (rc_prefix R @ [58] @ sha sid))"

definition redis_expires_at :: "pystr \<Rightarrow> int option \<Rightarrow> pytime \<Rightarrow> mem_error + int" where
  "redis_expires_at sid ttl reading =
     (case ttl of
        None \<Rightarrow> Inl (Corruption sid)
      | Some n \<Rightarrow> if n \<le> 0 then Inl (Corruption sid)
          else res_bind (clock_now reading) (\<lambda>now. Inr (now + seconds n)))"

definition empty_snapshot :: "pystr \<Rightarrow> mem_error + session_snapshot" where
  "empty_snapshot sid = new_session_snapshot sid 0 [] None None"

subsection \<open>Reading\<close>

definition watched_snapshot ::
  "'p codec \<Rightarrow> string \<Rightarrow> pystr \<Rightarrow> 'p attempt \<Rightarrow> session_snapshot step" where
  "watched_snapshot c operation sid a =
     step_bind (call_server operation (a_get a)) (\<lambda>payload.
       case payload of
         None \<Rightarrow> raised (empty_snapshot sid)
       | Some p \<Rightarrow>
           step_bind (call_server operation (a_ttl a)) (\<lambda>ttl.
           step_bind (raised (redis_expires_at sid ttl (a_now a))) (\<lambda>e.
           raised (deserialize_session_snapshot c p sid e))))"

text \<open>\<^verbatim>\<open>read\<close> watches nothing; a \<^verbatim>\<open>WatchError\<close> is one more \<^verbatim>\<open>RedisError\<close> there.\<close>

definition redis_read ::
  "'p codec \<Rightarrow> (pystr \<Rightarrow> pystr) \<Rightarrow> redis_config \<Rightarrow> 'p attempt \<Rightarrow> pystr \<Rightarrow> mem_error + session_snapshot" where
  "redis_read c sha R a sid =
     res_bind (validate_session_id sid) (\<lambda>_.
     res_bind (redis_key sha R sid) (\<lambda>_.
     case watched_snapshot c ''read'' sid a of
       SOk s \<Rightarrow> Inr s
     | SFail e \<Rightarrow> Inl e
     | SWatch \<Rightarrow> Inl (Unavailable ''read'')))"

subsection \<open>One transaction and the bounded retry loop\<close>

text \<open>
  The body of an attempt up to \<^verbatim>\<open>execute\<close>: either it returns a snapshot without writing, or it has
  queued one command and will return a snapshot once the server has executed it.
\<close>

datatype 'p plan = Answer session_snapshot | Commit "'p redis_write" session_snapshot

definition run_attempt ::
  "string \<Rightarrow> 'p plan step \<Rightarrow> 'p attempt \<Rightarrow> session_snapshot step \<times> 'p wlog" where
  "run_attempt operation body a =
     (case step_bind (call_server operation (a_watch a)) (\<lambda>_. body) of
        SOk (Answer s) \<Rightarrow> (SOk s, [])
      | SOk (Commit w s) \<Rightarrow>
          (step_bind (call_server operation (a_exec a)) (\<lambda>_. SOk s), [(w, a_exec a)])
      | SFail e \<Rightarrow> (SFail e, [])
      | SWatch \<Rightarrow> (SWatch, []))"

fun retry_loop ::
  "pystr \<Rightarrow> nat \<Rightarrow> nat \<Rightarrow> nat \<Rightarrow> (nat \<Rightarrow> session_snapshot step \<times> 'p wlog)
     \<Rightarrow> (mem_error + session_snapshot) \<times> 'p wlog" where
  "retry_loop sid budget 0 i body = (Inl (Contention sid budget), [])"
| "retry_loop sid budget (Suc k) i body =
     (case body i of
        (SOk s, sent) \<Rightarrow> (Inr s, sent)
      | (SFail e, sent) \<Rightarrow> (Inl e, sent)
      | (SWatch, sent) \<Rightarrow> (case retry_loop sid budget k (Suc i) body of (r, sent') \<Rightarrow> (r, sent @ sent')))"

definition transact ::
  "string \<Rightarrow> redis_config \<Rightarrow> pystr \<Rightarrow> ('p attempt \<Rightarrow> 'p plan step) \<Rightarrow> (nat \<Rightarrow> 'p attempt)
     \<Rightarrow> (mem_error + session_snapshot) \<times> 'p wlog" where
  "transact operation R sid body atts =
     retry_loop sid (rc_retries R) (rc_retries R) 0
       (\<lambda>i. run_attempt operation (body (atts i)) (atts i))"

definition commit_updated ::
  "'p codec \<Rightarrow> memory_policy \<Rightarrow> pystr \<Rightarrow> pystr \<Rightarrow> int \<Rightarrow> session_turn list \<Rightarrow> session_summary option
     \<Rightarrow> 'p attempt \<Rightarrow> 'p plan step" where
  "commit_updated c P key sid version turns summary a =
     step_bind (raised (clock_now (a_now_commit a))) (\<lambda>now.
     step_bind (raised (new_session_snapshot sid version turns summary
        (Some (now + seconds (ttl_seconds P))))) (\<lambda>updated.
     SOk (Commit (WSet key (serialize_session_snapshot c updated) (ttl_seconds P)) updated)))"

subsection \<open>The operations\<close>

definition redis_append_body ::
  "'p codec \<Rightarrow> memory_policy \<Rightarrow> pystr \<Rightarrow> session_turn \<Rightarrow> int \<Rightarrow> 'p attempt \<Rightarrow> 'p plan step" where
  "redis_append_body c P key turn expected a =
     step_bind (watched_snapshot c ''append_turn'' (t_session_id turn) a) (\<lambda>snapshot.
       case matching_turn (sn_turns snapshot) turn of
         Some duplicate \<Rightarrow>
           if duplicate = turn then SOk (Answer snapshot)
           else SFail (TurnConflict (t_session_id turn) (t_turn_id turn) (t_request_id turn))
       | None \<Rightarrow>
           if expected \<noteq> sn_version snapshot
           then SFail (VersionConflict (t_session_id turn) expected (sn_version snapshot))
           else commit_updated c P key (t_session_id turn) (sn_version snapshot + 1)
                  (take_last (max_turns P) (sn_turns snapshot @ [turn])) (sn_summary snapshot) a)"

definition redis_append_turn ::
  "'p codec \<Rightarrow> (pystr \<Rightarrow> pystr) \<Rightarrow> redis_config \<Rightarrow> (nat \<Rightarrow> 'p attempt) \<Rightarrow> session_turn \<Rightarrow> int
     \<Rightarrow> (mem_error + session_snapshot) \<times> 'p wlog" where
  "redis_append_turn c sha R atts turn expected =
     (case res_bind (validate_expected_version expected) (\<lambda>_. redis_key sha R (t_session_id turn)) of
        Inl e \<Rightarrow> (Inl e, [])
      | Inr key \<Rightarrow> transact ''append_turn'' R (t_session_id turn)
          (redis_append_body c (rc_policy R) key turn expected) atts)"

definition redis_clear_body ::
  "'p codec \<Rightarrow> pystr \<Rightarrow> pystr \<Rightarrow> int \<Rightarrow> 'p attempt \<Rightarrow> 'p plan step" where
  "redis_clear_body c key sid expected a =
     step_bind (watched_snapshot c ''clear'' sid a) (\<lambda>snapshot.
       if expected \<noteq> sn_version snapshot
       then SFail (VersionConflict sid expected (sn_version snapshot))
       else if sn_version snapshot = 0 then SOk (Answer snapshot)
       else step_bind (raised (empty_snapshot sid)) (\<lambda>cleared. SOk (Commit (WDel key) cleared)))"

definition redis_clear ::
  "'p codec \<Rightarrow> (pystr \<Rightarrow> pystr) \<Rightarrow> redis_config \<Rightarrow> (nat \<Rightarrow> 'p attempt) \<Rightarrow> pystr \<Rightarrow> int
     \<Rightarrow> (mem_error + session_snapshot) \<times> 'p wlog" where
  "redis_clear c sha R atts sid expected =
     (case res_bind (validate_session_id sid) (\<lambda>_.
           res_bind (validate_expected_version expected) (\<lambda>_. redis_key sha R sid)) of
        Inl e \<Rightarrow> (Inl e, [])
      | Inr key \<Rightarrow> transact ''clear'' R sid (redis_clear_body c key sid expected) atts)"

definition redis_compact_body ::
  "'p codec \<Rightarrow> memory_policy \<Rightarrow> pystr \<Rightarrow> session_summary \<Rightarrow> pystr list \<Rightarrow> int \<Rightarrow> 'p attempt
     \<Rightarrow> 'p plan step" where
  "redis_compact_body c P key summary ids expected a =
     step_bind (watched_snapshot c ''compact'' (s_session_id summary) a) (\<lambda>snapshot.
     step_bind (raised (validate_compaction snapshot summary ids expected)) (\<lambda>retry.
       if retry then SOk (Answer snapshot)
       else commit_updated c P key (s_session_id summary) (sn_version snapshot + 1)
              (drop (length ids) (sn_turns snapshot)) (Some summary) a))"

definition redis_compact ::
  "'p codec \<Rightarrow> (pystr \<Rightarrow> pystr) \<Rightarrow> redis_config \<Rightarrow> (nat \<Rightarrow> 'p attempt) \<Rightarrow> session_summary \<Rightarrow> pystr list
     \<Rightarrow> int \<Rightarrow> (mem_error + session_snapshot) \<times> 'p wlog" where
  "redis_compact c sha R atts summary ids expected =
     (case res_bind (validate_expected_version expected) (\<lambda>_. redis_key sha R (s_session_id summary)) of
        Inl e \<Rightarrow> (Inl e, [])
      | Inr key \<Rightarrow> transact ''compact'' R (s_session_id summary)
          (redis_compact_body c (rc_policy R) key summary ids expected) atts)"

subsection \<open>The retry loop\<close>

text \<open>The commands the server is known to have executed.\<close>

definition committed :: "'p wlog \<Rightarrow> 'p redis_write list" where
  "committed sent = map fst (filter (\<lambda>e. snd e = Reply ()) sent)"

lemma committed_append [simp]: "committed (xs @ ys) = committed xs @ committed ys"
  by (simp add: committed_def)

lemma committed_Nil [simp]: "committed [] = []"
  by (simp add: committed_def)

lemma run_attempt_cases:
  "run_attempt operation body a = (SWatch, sent) \<Longrightarrow> committed sent = [] \<and> length sent \<le> 1"
  "run_attempt operation body a = (SFail e, sent) \<Longrightarrow> committed sent = [] \<and> length sent \<le> 1"
  "run_attempt operation body a = (SOk s, sent) \<Longrightarrow>
     (body = SOk (Answer s) \<and> sent = [])
     \<or> (\<exists>w. body = SOk (Commit w s) \<and> a_exec a = Reply () \<and> sent = [(w, Reply ())])"
  by (auto simp: run_attempt_def committed_def res_simps split: step.splits plan.splits)

lemma retry_loop_committed:
  assumes "retry_loop sid budget k i (\<lambda>i. run_attempt operation (body (atts i)) (atts i)) = (r, sent)"
  shows "length sent \<le> k \<and>
    (case r of
       Inl e \<Rightarrow> committed sent = []
     | Inr s \<Rightarrow> (\<exists>j. i \<le> j \<and> j < i + k \<and>
         ((body (atts j) = SOk (Answer s) \<and> committed sent = [])
          \<or> (\<exists>w. body (atts j) = SOk (Commit w s) \<and> a_exec (atts j) = Reply () \<and> committed sent = [w]))))"
  using assms
proof (induction k arbitrary: i r sent)
  case 0
  then show ?case by auto
next
  case (Suc k)
  obtain x sent1 where b: "run_attempt operation (body (atts i)) (atts i) = (x, sent1)" by fastforce
  show ?case
  proof (cases x)
    case (SOk s)
    with Suc.prems b run_attempt_cases(3) [OF b [unfolded SOk]] show ?thesis
      by (auto simp: committed_def intro!: exI [of _ i])
  next
    case (SFail e)
    with Suc.prems b run_attempt_cases(2) [OF b [unfolded SFail]] show ?thesis by auto
  next
    case SWatch
    obtain r' sent' where l: "retry_loop sid budget k (Suc i)
      (\<lambda>i. run_attempt operation (body (atts i)) (atts i)) = (r', sent')" by fastforce
    from Suc.prems b SWatch l have r: "r = r'" "sent = sent1 @ sent'" by auto
    from Suc.IH [OF l] run_attempt_cases(1) [OF b [unfolded SWatch]] show ?thesis
      unfolding r by (auto split: sum.splits) (metis Suc_leD add_Suc_right add_Suc)+
  qed
qed

lemma transact_committed:
  assumes "transact operation R sid body atts = (r, sent)"
  shows "length sent \<le> rc_retries R \<and>
    (case r of
       Inl e \<Rightarrow> committed sent = []
     | Inr s \<Rightarrow> (\<exists>j < rc_retries R.
         ((body (atts j) = SOk (Answer s) \<and> committed sent = [])
          \<or> (\<exists>w. body (atts j) = SOk (Commit w s) \<and> a_exec (atts j) = Reply ()
               \<and> committed sent = [w]))))"
  using retry_loop_committed [OF assms [unfolded transact_def]] by (auto split: sum.splits)

lemma retry_loop_numeral [simp]:
  "retry_loop sid budget (numeral n) i body =
     (case body i of
        (SOk s, sent) \<Rightarrow> (Inr s, sent)
      | (SFail e, sent) \<Rightarrow> (Inl e, sent)
      | (SWatch, sent) \<Rightarrow>
          (case retry_loop sid budget (pred_numeral n) (Suc i) body of (r, sent') \<Rightarrow> (r, sent @ sent')))"
  by (simp add: numeral_eq_Suc)

lemma retry_loop_contention:
  "(\<And>j. i \<le> j \<Longrightarrow> j < i + k \<Longrightarrow> fst (body j) = SWatch) \<Longrightarrow>
     fst (retry_loop sid budget k i body) = Inl (Contention sid budget)"
proof (induction k arbitrary: i)
  case (Suc k)
  have "fst (retry_loop sid budget k (Suc i) body) = Inl (Contention sid budget)"
    by (rule Suc.IH) (use Suc.prems in auto)
  moreover have "fst (body i) = SWatch" using Suc.prems by simp
  ultimately show ?case
    by (cases "body i"; cases "retry_loop sid budget k (Suc i) body") auto
qed simp

subsection \<open>Each body is the abstract operation on the snapshot it read\<close>

lemma snapshot_wf_view:
  "view_wf limit sid v \<Longrightarrow> \<not> blank sid \<Longrightarrow>
     snapshot_wf \<lparr>sn_session_id = sid, sn_version = v_version v, sn_turns = v_turns v,
       sn_summary = v_summary v, sn_expires_at = e\<rparr>"
  by (auto simp: view_wf_def snapshot_wf_def split: option.splits)

lemma empty_snapshot_wf:
  "empty_snapshot sid = Inr s \<Longrightarrow>
     snapshot_wf s \<and> sn_session_id s = sid \<and> snapshot_view s = empty_view"
  by (auto simp: empty_snapshot_def new_session_snapshot_Inr snapshot_wf_def snapshot_view_def
      empty_view_def)

lemma watched_snapshot_wf:
  assumes "watched_snapshot c operation sid a = SOk s"
  shows "snapshot_wf s \<and> sn_session_id s = sid"
proof -
  from assms consider "empty_snapshot sid = Inr s"
    | p e where "deserialize_session_snapshot c p sid e = Inr s"
    by (auto simp: watched_snapshot_def res_simps split: option.splits)
  then show ?thesis by cases (simp_all add: empty_snapshot_wf deserialize_wf)
qed

lemma commit_updated_Commit:
  assumes "commit_updated c P key sid version turns summary a = SOk plan"
  shows "\<exists>s. plan = Commit (WSet key (serialize_session_snapshot c s) (ttl_seconds P)) s
     \<and> sn_session_id s = sid
     \<and> snapshot_view s = \<lparr>v_version = version, v_turns = turns, v_summary = summary\<rparr>"
  using assms
  by (auto simp: commit_updated_def res_simps new_session_snapshot_Inr snapshot_view_def)

lemma commit_updated_not_Answer [simp]:
  "commit_updated c P key sid version turns summary a \<noteq> SOk (Answer s)"
  by (auto simp: commit_updated_def res_simps)

text \<open>
  What a body does, in terms of the snapshot \<open>before\<close> it read: \<open>step\<close> maps its view to the view of
  the snapshot returned, which the command queued stores.
\<close>

definition body_refines ::
  "'p codec \<Rightarrow> memory_policy \<Rightarrow> pystr \<Rightarrow> session_snapshot \<Rightarrow> mem_error + sess_view \<Rightarrow> 'p plan \<Rightarrow> bool" where
  "body_refines c P key before step plan = (case plan of
       Answer s \<Rightarrow> s = before \<and> step = Inr (snapshot_view before)
     | Commit w s \<Rightarrow> step = Inr (snapshot_view s) \<and> sn_session_id s = sn_session_id before
         \<and> (w = WSet key (serialize_session_snapshot c s) (ttl_seconds P)
            \<or> (w = WDel key \<and> snapshot_view s = empty_view)))"

lemma append_body_refines:
  assumes "redis_append_body c P key turn expected a = SOk plan"
  shows "\<exists>before. watched_snapshot c ''append_turn'' (t_session_id turn) a = SOk before
     \<and> body_refines c P key before
         (view_append (max_turns P) (t_session_id turn) (snapshot_view before) turn expected) plan"
proof -
  from assms obtain b where b: "watched_snapshot c ''append_turn'' (t_session_id turn) a = SOk b"
    by (auto simp: redis_append_body_def res_simps)
  then have sid: "sn_session_id b = t_session_id turn" by (simp add: watched_snapshot_wf)
  show ?thesis
  proof (cases "matching_turn (sn_turns b) turn")
    case None
    with assms b have v: "expected = sn_version b" and
      co: "commit_updated c P key (t_session_id turn) (sn_version b + 1)
        (take_last (max_turns P) (sn_turns b @ [turn])) (sn_summary b) a = SOk plan"
      by (auto simp: redis_append_body_def split: if_splits)
    from commit_updated_Commit [OF co] b sid None v show ?thesis
      by (auto simp: body_refines_def view_append_def snapshot_view_def)
  next
    case (Some d)
    with assms b have "d = turn" "plan = Answer b"
      by (auto simp: redis_append_body_def split: if_splits)
    with b Some show ?thesis by (auto simp: body_refines_def view_append_def)
  qed
qed

lemma compact_body_refines:
  assumes "redis_compact_body c P key summary ids expected a = SOk plan"
  shows "\<exists>before. watched_snapshot c ''compact'' (s_session_id summary) a = SOk before
     \<and> body_refines c P key before
         (view_compact (s_session_id summary) (snapshot_view before) summary ids expected) plan"
proof -
  from assms obtain b r where b: "watched_snapshot c ''compact'' (s_session_id summary) a = SOk b"
    and r: "validate_compaction b summary ids expected = Inr r"
    by (auto simp: redis_compact_body_def res_simps)
  then have sid: "s_session_id summary = sn_session_id b" by (simp add: watched_snapshot_wf)
  show ?thesis
  proof (cases r)
    case True
    with assms b r have "plan = Answer b" by (simp add: redis_compact_body_def)
    with b r True show ?thesis
      by (auto simp: body_refines_def sid view_compact_snapshot)
  next
    case False
    with assms b r have co: "commit_updated c P key (s_session_id summary) (sn_version b + 1)
        (drop (length ids) (sn_turns b)) (Some summary) a = SOk plan"
      by (auto simp: redis_compact_body_def)
    from commit_updated_Commit [OF co] b r False show ?thesis
      by (auto simp: body_refines_def sid view_compact_snapshot)
  qed
qed

lemma clear_body_refines:
  assumes "redis_clear_body c key sid expected a = SOk plan"
  shows "\<exists>before. watched_snapshot c ''clear'' sid a = SOk before
     \<and> (plan = Answer before \<and> sn_version before = 0
        \<or> body_refines c P key before (view_clear sid (snapshot_view before) expected) plan)"
proof -
  from assms obtain b where b: "watched_snapshot c ''clear'' sid a = SOk b"
    by (auto simp: redis_clear_body_def res_simps)
  show ?thesis
  proof (cases "sn_version b = 0")
    case True
    with assms b show ?thesis by (auto simp: redis_clear_body_def split: if_splits)
  next
    case False
    with assms b obtain s where s: "empty_snapshot sid = Inr s" "plan = Commit (WDel key) s"
      and v: "expected = sn_version b"
      by (auto simp: redis_clear_body_def res_simps split: if_splits)
    from b have "sn_session_id b = sid" by (simp add: watched_snapshot_wf)
    with b v s empty_snapshot_wf [OF s(1)] show ?thesis
      by (simp add: body_refines_def view_clear_def)
  qed
qed

subsection \<open>Whole operations\<close>


definition demo_attempt :: "json attempt" where
  "demo_attempt = \<lparr>a_watch = Reply (), a_get = Reply None, a_ttl = Reply None, a_now = Aware 0,
     a_now_commit = Aware 0, a_exec = Reply ()\<rparr>"

definition demo_redis :: redis_config where
  "demo_redis = \<lparr>rc_policy = default_memory_policy, rc_prefix = lit ''m'', rc_retries = 8\<rparr>"


text \<open>
  Every value that interleaved clients leave in the key of a session. The server's documented
  guarantee is the shape of a step: \<^verbatim>\<open>EXEC\<close> succeeds only if the watched key still holds what the
  attempt read, so a committed command replaces exactly that value; the key may expire at any time.
\<close>

fun apply_write :: "'p redis_write \<Rightarrow> 'p option" where
  "apply_write (WSet key p ttl) = Some p"
| "apply_write (WDel key) = None"

inductive redis_run :: "'p codec \<Rightarrow> memory_policy \<Rightarrow> pystr \<Rightarrow> pystr \<Rightarrow> 'p option \<Rightarrow> bool"
  for c P key sid where
  unset: "redis_run c P key sid None"
| expired: "redis_run c P key sid st \<Longrightarrow> redis_run c P key sid None"
| appended: "redis_run c P key sid st \<Longrightarrow> a_get a = Reply st \<Longrightarrow> turn_wf turn \<Longrightarrow>
    t_session_id turn = sid \<Longrightarrow> redis_append_body c P key turn expected a = SOk (Commit w s) \<Longrightarrow>
    redis_run c P key sid (apply_write w)"
| compacted: "redis_run c P key sid st \<Longrightarrow> a_get a = Reply st \<Longrightarrow> summary_wf summary \<Longrightarrow>
    s_session_id summary = sid \<Longrightarrow>
    redis_compact_body c P key summary ids expected a = SOk (Commit w s) \<Longrightarrow>
    redis_run c P key sid (apply_write w)"
| cleared: "redis_run c P key sid st \<Longrightarrow> a_get a = Reply st \<Longrightarrow>
    redis_clear_body c key sid expected a = SOk (Commit w s) \<Longrightarrow>
    redis_run c P key sid (apply_write w)"

definition key_ok :: "'p codec \<Rightarrow> nat \<Rightarrow> pystr \<Rightarrow> 'p option \<Rightarrow> bool" where
  "key_ok c limit sid st \<longleftrightarrow> (\<forall>p. st = Some p \<longrightarrow>
     (\<exists>s. p = serialize_session_snapshot c s \<and> snapshot_wf s \<and> sn_session_id s = sid
        \<and> view_wf limit sid (snapshot_view s)))"

lemma key_ok_read:
  assumes "codec_ok c" "key_ok c limit sid (Some p)"
  shows "\<exists>s. deserialize_session_snapshot c p sid e = Inr s \<and> view_wf limit sid (snapshot_view s)"
proof -
  from assms(2) obtain s where s: "p = serialize_session_snapshot c s" "snapshot_wf s"
    "sn_session_id s = sid" "view_wf limit sid (snapshot_view s)" by (auto simp: key_ok_def)
  have "snapshot_view (s\<lparr>sn_expires_at := Some e\<rparr>) = snapshot_view s"
    by (simp add: snapshot_view_def)
  with snapshot_roundtrip [OF assms(1) s(2), of e] s show ?thesis by metis
qed

lemma watched_snapshot_view_wf:
  assumes "codec_ok c" "key_ok c limit sid st" "a_get a = Reply st"
    and "watched_snapshot c operation sid a = SOk s"
  shows "view_wf limit sid (snapshot_view s)"
proof (cases st)
  case None
  with assms have "empty_snapshot sid = Inr s" by (simp add: watched_snapshot_def res_simps)
  with empty_snapshot_wf show ?thesis by fastforce
next
  case (Some p)
  with assms obtain e where "deserialize_session_snapshot c p sid e = Inr s"
    by (auto simp: watched_snapshot_def res_simps)
  with key_ok_read [OF assms(1) assms(2) [unfolded Some], of e] show ?thesis by auto
qed

lemma refined_commit_ok:
  assumes "body_refines c P key b step (Commit w s)" and "step = Inr (snapshot_view s) \<Longrightarrow>
      view_wf limit sid (snapshot_view s)"
    and "sn_session_id b = sid" "\<not> blank sid"
  shows "key_ok c limit sid (apply_write w)"
proof -
  from assms have v: "view_wf limit sid (snapshot_view s)" "sn_session_id s = sid"
    by (auto simp: body_refines_def)
  have "snapshot_wf s" using snapshot_wf_view [OF v(1) assms(4), of "sn_expires_at s"] v(2) by (cases s) simp
  with v assms(1) show ?thesis by (auto simp: body_refines_def key_ok_def)
qed

lemma redis_run_key_ok:
  assumes run: "redis_run c P key sid st" and codec: "codec_ok c" and pol: "policy_wf P"
    and sid: "\<not> blank sid"
  shows "key_ok c (max_turns P) sid st"
  using run
proof induction
  case unset
  then show ?case by (simp add: key_ok_def)
next
  case (expired st)
  then show ?case by (simp add: key_ok_def)
next
  case (appended st a turn expected w s)
  from append_body_refines [OF appended.hyps(5)] appended.hyps obtain b where
    b: "watched_snapshot c ''append_turn'' sid a = SOk b"
    and ref: "body_refines c P key b
      (view_append (max_turns P) sid (snapshot_view b) turn expected) (Commit w s)" by auto
  have "view_wf (max_turns P) sid (snapshot_view b)"
    using watched_snapshot_view_wf [OF codec appended.IH appended.hyps(2) b] .
  then show ?case
    using refined_commit_ok [OF ref] view_append_wf pol appended.hyps(3,4) sid
      watched_snapshot_wf [OF b] by (metis policy_wf_def)
next
  case (compacted st a summary ids expected w s)
  from compact_body_refines [OF compacted.hyps(5)] compacted.hyps obtain b where
    b: "watched_snapshot c ''compact'' sid a = SOk b"
    and ref: "body_refines c P key b
      (view_compact sid (snapshot_view b) summary ids expected) (Commit w s)" by auto
  have "view_wf (max_turns P) sid (snapshot_view b)"
    using watched_snapshot_view_wf [OF codec compacted.IH compacted.hyps(2) b] .
  then show ?case
    using refined_commit_ok [OF ref] view_compact_wf compacted.hyps(3) sid
      watched_snapshot_wf [OF b] by metis
next
  case (cleared st a expected w s)
  from clear_body_refines [OF cleared.hyps(3)] obtain b where
    b: "watched_snapshot c ''clear'' sid a = SOk b"
    and ref: "body_refines c P key b (view_clear sid (snapshot_view b) expected) (Commit w s)" by auto
  have "view_clear sid (snapshot_view b) expected = Inr v \<Longrightarrow> view_wf (max_turns P) sid v" for v
    by (auto simp: view_clear_def split: if_splits)
  then show ?case
    using refined_commit_ok [OF ref] sid watched_snapshot_wf [OF b] by metis
qed

text \<open>
  C8: Whatever interleaving of appends, compactions, clears and expiries clients run against one
  session key, the value it holds always decodes, with any expiry, into a well-formed session: at
  most \<open>max_turns\<close> turns with distinct identifiers, all of this session, and a summary whose covered
  turns and the retained ones never exceed the version. No reader reports corruption.
\<close>

theorem redis_key_never_corrupt:
  assumes "redis_run c P key sid (Some p)" and "codec_ok c" and "policy_wf P" and "\<not> blank sid"
  shows "\<exists>s. deserialize_session_snapshot c p sid e = Inr s
     \<and> view_wf (max_turns P) sid (snapshot_view s)"
  using key_ok_read [OF assms(2) redis_run_key_ok [OF assms]] .

theorem redis_key_never_corrupt_witness:
  "\<exists>p s. deserialize_session_snapshot tree_codec p (lit ''s'') 7 = Inr s \<and> sn_version s = 1
     \<and> view_wf 20 (lit ''s'') (snapshot_view s)"
proof -
  let ?s = "\<lparr>sn_session_id = lit ''s'', sn_version = 1, sn_turns = [demo_turn ''1''],
     sn_summary = None, sn_expires_at = Some 1800000000\<rparr>"
  let ?p = "serialize_session_snapshot tree_codec ?s"
  have body: "redis_append_body tree_codec default_memory_policy [] (demo_turn ''1'') 0 demo_attempt =
      SOk (Commit (WSet [] ?p 1800) ?s)"
    by (simp add: redis_append_body_def demo_turn_def watched_snapshot_def demo_attempt_def
        empty_snapshot_def new_session_snapshot_def commit_updated_def clock_now_def
        default_memory_policy_def take_last_def seconds_def py_space_def lit_def)
  have r: "redis_run tree_codec default_memory_policy [] (lit ''s'') (Some ?p)"
    using redis_run.appended [OF redis_run.unset _ demo_turn_wf(1) _ body]
    by (simp add: demo_attempt_def demo_turn_def)
  have nb: "\<not> blank (lit ''s'')" by (simp add: lit_def py_space_def)
  from redis_key_never_corrupt [OF r tree_codec_ok default_memory_policy_wf nb, of 7] obtain s where
    s: "deserialize_session_snapshot tree_codec ?p (lit ''s'') 7 = Inr s"
    "view_wf 20 (lit ''s'') (snapshot_view s)" by (auto simp: default_memory_policy_def)
  have "snapshot_wf ?s" using nb by (simp add: snapshot_wf_def) (simp add: demo_turn_def)
  from snapshot_roundtrip [OF tree_codec_ok this, of 7] s have "sn_version s = 1" by simp
  with s show ?thesis by blast
qed



end
