(* ===== verification/ProviderReplies.thy ===== *)
theory ProviderReplies
  imports Serialization
begin

section \<open>Provider payloads and replies\<close>

text \<open>
  \<^verbatim>\<open>providers/openai_compatible.py\<close>: the rules every provider client shares for a direct
  chat-completion request and for the one normal reply it accepts. A JSON object is an association
  list with distinct keys, as \<^verbatim>\<open>json.loads\<close> builds it; the host of a URL is an argument.
\<close>

definition jfield :: "json \<Rightarrow> string \<Rightarrow> json" where
  "jfield v name = (case v of JObj fs \<Rightarrow> jget fs name | _ \<Rightarrow> JNull)"

definition is_object :: "json \<Rightarrow> bool" where
  "is_object v = (case v of JObj fs \<Rightarrow> True | _ \<Rightarrow> False)"

definition build_chat_completion_payload ::
  "(pystr \<Rightarrow> pystr option) \<Rightarrow> pystr \<Rightarrow> (pystr \<times> json) list \<Rightarrow> (pystr \<times> json) list" where
  "build_chat_completion_payload hostname base_url payload =
     (let body = filter (\<lambda>kv. fst kv \<notin> lit ` {''extra_body'', ''thinking'', ''reasoning_content''}) payload
      in if hostname base_url = Some (lit ''api.deepseek.com'')
         then body @ [(lit ''thinking'', JObj [(lit ''type'', JStr (lit ''disabled''))])]
         else body)"

text \<open>The left value is the code of \<^verbatim>\<open>ChatCompletionResponseError\<close>.\<close>

definition extract_stopped_message_content :: "json \<Rightarrow> string + pystr" where
  "extract_stopped_message_content payload =
     (case jfield payload ''choices'' of
        JList (choice # _) \<Rightarrow>
          if \<not> is_object choice then Inl ''missing_choice''
          else if jfield choice ''finish_reason'' = JStr (lit ''length'') then Inl ''truncated''
          else if jfield choice ''finish_reason'' \<noteq> JStr (lit ''stop'')
            then Inl ''invalid_finish_reason''
          else (case jfield (jfield choice ''message'') ''content'' of
              JStr content \<Rightarrow> if blank content then Inl ''empty_content'' else Inr content
            | _ \<Rightarrow> Inl ''empty_content'')
      | _ \<Rightarrow> Inl ''missing_choice'')"

lemma extract_content_nonblank:
  "extract_stopped_message_content payload = Inr content \<Longrightarrow> \<not> blank content"
  by (auto simp: extract_stopped_message_content_def split: json.splits list.splits if_splits)

lemma payload_drops_sdk_fields:
  assumes "(k, v) \<in> set (build_chat_completion_payload hostname base_url payload)"
  shows "k \<noteq> lit ''extra_body'' \<and> k \<noteq> lit ''reasoning_content''"
  using assms by (auto simp: build_chat_completion_payload_def Let_def split: if_splits)

end
