(* ===== verification/RollingSummary.thy ===== *)
theory RollingSummary
  imports InMemoryStore ProviderReplies
begin

section \<open>Session memory: rolling summaries\<close>

text \<open>
  \<^verbatim>\<open>memory/summarization.py\<close>. The service renders the previous summary and an oldest prefix of the
  retained turns into one prompt, asks an injected summarizer once for a draft, validates it and
  compacts the store with the expected version of the snapshot it started from. The summarizer's
  answer, the digest behind the summary identifier, the clock and the store's \<^verbatim>\<open>compact\<close> are
  arguments; the last is used through the locale \<open>session_store\<close>.
\<close>

subsection \<open>Policy, request, draft and outcome\<close>

record summary_policy =
  trigger_turns :: nat
  retain_recent_turns :: nat
  max_source_chars :: nat
  max_summary_chars :: nat

definition new_summary_policy :: "int \<Rightarrow> int \<Rightarrow> int \<Rightarrow> int \<Rightarrow> mem_error + summary_policy" where
  "new_summary_policy trigger retain source summary =
     res_bind (ensure (1 < trigger) (ValueErr ''trigger_turns'')) (\<lambda>_.
     res_bind (ensure (1 \<le> retain) (ValueErr ''retain_recent_turns'')) (\<lambda>_.
     res_bind (ensure (0 < source) (ValueErr ''max_source_chars'')) (\<lambda>_.
     res_bind (ensure (0 < summary) (ValueErr ''max_summary_chars'')) (\<lambda>_.
     res_bind (ensure (retain < trigger)
       (ValueErr ''retain_recent_turns must be less than trigger_turns'')) (\<lambda>_.
     Inr \<lparr>trigger_turns = nat trigger, retain_recent_turns = nat retain,
          max_source_chars = nat source, max_summary_chars = nat summary\<rparr>)))))"

definition default_summary_policy :: summary_policy where
  "default_summary_policy = \<lparr>trigger_turns = 6, retain_recent_turns = 2, max_source_chars = 8000,
     max_summary_chars = 2000\<rparr>"

definition summary_policy_wf :: "summary_policy \<Rightarrow> bool" where
  "summary_policy_wf Q \<longleftrightarrow> 1 < trigger_turns Q \<and> 1 \<le> retain_recent_turns Q \<and> 0 < max_source_chars Q
     \<and> 0 < max_summary_chars Q \<and> retain_recent_turns Q < trigger_turns Q"

lemma new_summary_policy_wf: "new_summary_policy a b c d = Inr Q \<Longrightarrow> summary_policy_wf Q"
  by (auto simp: new_summary_policy_def summary_policy_wf_def res_simps)

record summary_request =
  rq_session_id :: pystr
  rq_source_version :: int
  rq_previous_summary_text :: "pystr option"
  rq_turns :: "session_turn list"
  rq_target_summary_id :: pystr
  rq_max_summary_chars :: nat

definition new_summary_request ::
  "pystr \<Rightarrow> int \<Rightarrow> pystr option \<Rightarrow> session_turn list \<Rightarrow> pystr \<Rightarrow> nat \<Rightarrow> mem_error + summary_request" where
  "new_summary_request sid version previous turns target max_chars =
     res_bind (nonblank sid ''identifier must be non-empty'') (\<lambda>sid.
     res_bind (ensure (0 \<le> version) (ValueErr ''source_version'')) (\<lambda>_.
     res_bind (nonblank_option previous ''previous_summary_text'') (\<lambda>previous.
     res_bind (nonblank target ''identifier must be non-empty'') (\<lambda>target.
     res_bind (ensure (0 < max_chars) (ValueErr ''max_summary_chars'')) (\<lambda>_.
     res_bind (ensure (turns \<noteq> []) (ValueErr ''turns must be non-empty'')) (\<lambda>_.
     res_bind (ensure (\<not> list_ex (\<lambda>t. t_session_id t \<noteq> sid) turns)
       (ValueErr ''all turns must match request session_id'')) (\<lambda>_.
     Inr \<lparr>rq_session_id = sid, rq_source_version = version, rq_previous_summary_text = previous,
          rq_turns = turns, rq_target_summary_id = target, rq_max_summary_chars = max_chars\<rparr>)))))))"

text \<open>\<^verbatim>\<open>RollingSummaryDraft.model_validate\<close>: exactly one field, non-blank, without evidence markers.\<close>

definition validate_draft_model :: "json \<Rightarrow> pystr option" where
  "validate_draft_model v = (case v of
     JObj fs \<Rightarrow> if \<not> keys_are fs [''summary_text''] then None
       else (case jget fs ''summary_text'' of
         JStr s \<Rightarrow> if blank s \<or> has_evidence_marker s then None else Some s
       | _ \<Rightarrow> None)
   | _ \<Rightarrow> None)"

definition validate_draft :: "json \<Rightarrow> nat \<Rightarrow> mem_error + pystr" where
  "validate_draft draft max_chars = (case validate_draft_model draft of
     None \<Rightarrow> Inl (OutputInvalid ''schema_validation_failed'')
   | Some s \<Rightarrow> if max_chars < length s then Inl (OutputInvalid ''summary_too_long'') else Inr s)"

lemma validate_draft_Inr:
  "validate_draft d n = Inr s \<Longrightarrow> \<not> blank s \<and> \<not> has_evidence_marker s \<and> length s \<le> n"
  by (auto simp: validate_draft_def validate_draft_model_def split: json.splits if_splits
      option.splits)

datatype summary_status = NotRequired | Compacted

record summary_outcome =
  oc_status :: summary_status
  oc_snapshot :: session_snapshot
  oc_compacted :: nat
  oc_summary_id :: "pystr option"

definition new_summary_outcome ::
  "summary_status \<Rightarrow> session_snapshot \<Rightarrow> nat \<Rightarrow> pystr option \<Rightarrow> mem_error + summary_outcome" where
  "new_summary_outcome status snapshot n sumid =
     (let ok = (case status of
          NotRequired \<Rightarrow> n = 0 \<and> sumid = None
        | Compacted \<Rightarrow> 0 < n \<and> (case sumid of None \<Rightarrow> False | Some i \<Rightarrow> \<not> blank i
            \<and> (case sn_summary snapshot of None \<Rightarrow> False | Some s \<Rightarrow> s_summary_id s = i)))
      in res_bind (ensure ok (ValueErr ''outcome'')) (\<lambda>_.
         Inr \<lparr>oc_status = status, oc_snapshot = snapshot, oc_compacted = n,
              oc_summary_id = sumid\<rparr>))"

definition not_required :: "session_snapshot \<Rightarrow> mem_error + summary_outcome" where
  "not_required snapshot = new_summary_outcome NotRequired snapshot 0 None"

subsection \<open>The prompt\<close>

definition render_turn :: "session_turn \<Rightarrow> pystr" where
  "render_turn t = lit ''TURN'' @ [10] @ lit ''USER:'' @ [10] @ t_user_text t @ [10]
     @ lit ''ASSISTANT:'' @ [10] @ t_assistant_text t"

definition render_source :: "pystr option \<Rightarrow> session_turn list \<Rightarrow> nat \<Rightarrow> pystr" where
  "render_source previous turns max_chars =
     lit ''UNTRUSTED_PREVIOUS_SUMMARY:'' @ [10]
     @ (case previous of None \<Rightarrow> lit ''(none)'' | Some p \<Rightarrow> p) @ [10, 10]
     @ lit ''UNTRUSTED_TURNS_TO_SUMMARIZE:'' @ [10]
     @ py_join [10, 10] (map render_turn turns) @ [10, 10]
     @ lit ''OUTPUT_CONSTRAINT: Return only JSON with one summary_text string; ''
     @ lit ''summary_text must be at most '' @ py_nat_str max_chars @ lit '' characters.''"

subsection \<open>The oldest prefix that fits\<close>

fun select_prefix_loop ::
  "mem_error \<Rightarrow> pystr option \<Rightarrow> nat \<Rightarrow> nat \<Rightarrow> session_turn list \<Rightarrow> session_turn list
     \<Rightarrow> mem_error + session_turn list" where
  "select_prefix_loop too_large previous max_source max_summary selected [] = Inr selected"
| "select_prefix_loop too_large previous max_source max_summary selected (t # ts) =
     (if max_source < length (render_source previous (selected @ [t]) max_summary)
      then (if selected = [] then Inl too_large else Inr selected)
      else select_prefix_loop too_large previous max_source max_summary (selected @ [t]) ts)"

definition select_oldest_prefix ::
  "session_snapshot \<Rightarrow> nat \<Rightarrow> nat \<Rightarrow> nat \<Rightarrow> mem_error + session_turn list" where
  "select_oldest_prefix snapshot limit max_source max_summary =
     (let too_large = InputTooLarge (sn_session_id snapshot) (sn_version snapshot)
        (length (sn_turns snapshot)) max_source
      in res_bind (select_prefix_loop too_large (map_option s_summary_text (sn_summary snapshot))
             max_source max_summary [] (take limit (sn_turns snapshot))) (\<lambda>selected.
         if selected = [] then Inl too_large else Inr selected))"

subsection \<open>The summary identifier\<close>

definition summary_id ::
  "(json \<Rightarrow> pystr) \<Rightarrow> pystr \<Rightarrow> int \<Rightarrow> pystr option \<Rightarrow> pystr list \<Rightarrow> pystr" where
  "summary_id digest sid version previous ids =
     lit ''rs1_'' @ digest (JObj
       [(lit ''compacted_turn_ids'', JList (map JStr ids)),
        (lit ''previous_summary_id'', (case previous of None \<Rightarrow> JNull | Some p \<Rightarrow> JStr p)),
        (lit ''session_id'', JStr sid), (lit ''source_version'', JInt version),
        (lit ''version'', JInt 1)])"

subsection \<open>The provider summarizer\<close>

text \<open>
  What the injected provider does: it raises a \<^verbatim>\<open>TypeError\<close> or \<^verbatim>\<open>ValueError\<close>, it raises anything else, it
  answers something that is no awaitable, or it answers a response. \<open>parse\<close> is \<^verbatim>\<open>json.loads\<close>.
\<close>

datatype provider_reply = ProviderValueError | ProviderError | NotAwaitable | Response json

definition provider_summarize ::
  "(pystr \<Rightarrow> json option) \<Rightarrow> bool \<Rightarrow> provider_reply \<Rightarrow> mem_error + pystr" where
  "provider_summarize parse loop_running reply =
     (if loop_running then Inl (GenerationFailed ''synchronous_adapter_event_loop'')
      else case reply of
          ProviderError \<Rightarrow> Inl (GenerationFailed ''provider'')
        | ProviderValueError \<Rightarrow> Inl (OutputInvalid ''invalid_response'')
        | NotAwaitable \<Rightarrow> Inl (OutputInvalid ''invalid_response'')
        | Response v \<Rightarrow>
            if \<not> is_object v then Inl (OutputInvalid ''invalid_response'')
            else (case extract_stopped_message_content v of
                Inl code \<Rightarrow> Inl (OutputInvalid code)
              | Inr content \<Rightarrow> (case parse content of
                    None \<Rightarrow> Inl (OutputInvalid ''json_parse_failed'')
                  | Some parsed \<Rightarrow>
                      if \<not> is_object parsed then Inl (OutputInvalid ''invalid_response'')
                      else (case validate_draft_model parsed of
                          None \<Rightarrow> Inl (OutputInvalid ''schema_validation_failed'')
                        | Some s \<Rightarrow> Inr s))))"

subsection \<open>The service\<close>

text \<open>What the injected summarizer does: a memory error of its own, any other exception, a draft.\<close>

datatype summarizer_reply = RaisedMemory mem_error | RaisedOther | Draft json

fun summarizer_result :: "summarizer_reply \<Rightarrow> mem_error + json" where
  "summarizer_result (RaisedMemory e) = Inl e"
| "summarizer_result RaisedOther = Inl (GenerationFailed ''summarizer'')"
| "summarizer_result (Draft v) = Inr v"

type_synonym 'st compact_op =
  "session_summary \<Rightarrow> pystr list \<Rightarrow> int \<Rightarrow> 'st \<Rightarrow> (mem_error + session_snapshot) \<times> 'st"

text \<open>Everything up to the call of the store: the new summary and the turns it covers.\<close>

definition prepare_compaction ::
  "(json \<Rightarrow> pystr) \<Rightarrow> (summary_request \<Rightarrow> summarizer_reply) \<Rightarrow> pytime \<Rightarrow> summary_policy
     \<Rightarrow> pystr \<Rightarrow> session_snapshot \<Rightarrow> mem_error + (session_summary \<times> session_turn list)" where
  "prepare_compaction digest summarize created Q sid snapshot =
     res_bind (select_oldest_prefix snapshot (length (sn_turns snapshot) - retain_recent_turns Q)
       (max_source_chars Q) (max_summary_chars Q)) (\<lambda>selected.
     let previous = sn_summary snapshot;
         sumid = summary_id digest sid (sn_version snapshot) (map_option s_summary_id previous)
           (map t_turn_id selected)
     in res_bind (new_summary_request sid (sn_version snapshot) (map_option s_summary_text previous)
          selected sumid (max_summary_chars Q)) (\<lambda>request.
        res_bind (summarizer_result (summarize request)) (\<lambda>generated.
        res_bind (validate_draft generated (max_summary_chars Q)) (\<lambda>body.
        res_bind (clock_now created) (\<lambda>now.
        res_bind (new_session_summary sid sumid (map_option s_summary_id previous)
          (sn_version snapshot)
          ((case previous of None \<Rightarrow> 0 | Some p \<Rightarrow> s_covered_turn_count p) + int (length selected))
          (t_turn_id (last selected)) body (Aware now)) (\<lambda>summary.
        Inr (summary, selected)))))))"

definition compact_snapshot_if_needed ::
  "(json \<Rightarrow> pystr) \<Rightarrow> (summary_request \<Rightarrow> summarizer_reply) \<Rightarrow> pytime \<Rightarrow> summary_policy
     \<Rightarrow> 'st compact_op \<Rightarrow> pystr \<Rightarrow> session_snapshot \<Rightarrow> 'st \<Rightarrow> (mem_error + summary_outcome) \<times> 'st" where
  "compact_snapshot_if_needed digest summarize created Q compact_op sid snapshot st =
     (if blank sid then (Inl (ValueErr ''session_id must be non-empty''), st)
      else if sn_session_id snapshot \<noteq> sid
        then (Inl (ValueErr ''snapshot session_id must match session_id''), st)
      else if length (sn_turns snapshot) < trigger_turns Q then (not_required snapshot, st)
      else if length (sn_turns snapshot) \<le> retain_recent_turns Q then (not_required snapshot, st)
      else (case prepare_compaction digest summarize created Q sid snapshot of
          Inl e \<Rightarrow> (Inl e, st)
        | Inr (summary, selected) \<Rightarrow>
            (case compact_op summary (map t_turn_id selected) (sn_version snapshot) st of
               (Inl e, st') \<Rightarrow> (Inl e, st')
             | (Inr updated, st') \<Rightarrow>
                 (new_summary_outcome Compacted updated (length selected)
                    (Some (s_summary_id summary)), st'))))"

definition compact_if_needed ::
  "(json \<Rightarrow> pystr) \<Rightarrow> (summary_request \<Rightarrow> summarizer_reply) \<Rightarrow> pytime \<Rightarrow> summary_policy
     \<Rightarrow> (pystr \<Rightarrow> 'st \<Rightarrow> (mem_error + session_snapshot) \<times> 'st) \<Rightarrow> 'st compact_op \<Rightarrow> pystr \<Rightarrow> 'st
     \<Rightarrow> (mem_error + summary_outcome) \<times> 'st" where
  "compact_if_needed digest summarize created Q read_op compact_op sid st =
     (if blank sid then (Inl (ValueErr ''session_id must be non-empty''), st)
      else case read_op sid st of
          (Inl e, st') \<Rightarrow> (Inl e, st')
        | (Inr snapshot, st') \<Rightarrow>
            compact_snapshot_if_needed digest summarize created Q compact_op sid snapshot st')"

subsection \<open>The selected prefix\<close>

lemma length_py_join_append: "length (py_join sep xs) \<le> length (py_join sep (xs @ ys))"
  by (induction xs) (auto simp: py_join_Cons)

lemma render_source_mono:
  "length (render_source p xs m) \<le> length (render_source p (xs @ ys) m)"
  by (simp add: render_source_def length_py_join_append)

lemma render_take_mono:
  "j \<le> k \<Longrightarrow> length (render_source p (take j xs) m) \<le> length (render_source p (take k xs) m)"
  using render_source_mono [of p "take j xs" m "drop j (take k xs)"]
  by (metis append_take_drop_id min.absorb1 take_take)

lemma select_prefix_loop_spec:
  assumes "select_prefix_loop e p mx ms sel ts = Inr out"
  shows "\<exists>k \<le> length ts. out = sel @ take k ts
     \<and> (0 < k \<longrightarrow> length (render_source p out ms) \<le> mx)
     \<and> (k < length ts \<longrightarrow> mx < length (render_source p (sel @ take (Suc k) ts) ms))"
  using assms
proof (induction ts arbitrary: sel)
  case Nil
  then show ?case by auto
next
  case (Cons t ts)
  show ?case
  proof (cases "mx < length (render_source p (sel @ [t]) ms)")
    case True
    with Cons.prems show ?thesis by (auto split: if_splits intro!: exI [of _ 0])
  next
    case False
    with Cons.prems have l: "select_prefix_loop e p mx ms (sel @ [t]) ts = Inr out" by simp
    obtain k where k: "k \<le> length ts" "out = (sel @ [t]) @ take k ts"
      "0 < k \<longrightarrow> length (render_source p out ms) \<le> mx"
      "k < length ts \<longrightarrow> mx < length (render_source p ((sel @ [t]) @ take (Suc k) ts) ms)"
      using Cons.IH [OF l] by blast
    have "length (render_source p out ms) \<le> mx" using k False by (cases "k = 0") auto
    with k show ?thesis by (auto intro!: exI [of _ "Suc k"])
  qed
qed

lemma select_prefix_loop_Inl:
  "select_prefix_loop e p mx ms sel ts = Inl e' \<Longrightarrow>
     e' = e \<and> sel = [] \<and> ts \<noteq> [] \<and> mx < length (render_source p [hd ts] ms)"
proof (induction ts arbitrary: sel)
  case (Cons t ts)
  then show ?case by (auto split: if_splits)
qed simp

lemma select_oldest_prefix_spec:
  assumes "select_oldest_prefix s limit mx ms = Inr sel"
  shows "\<exists>k. 0 < k \<and> k \<le> limit \<and> k \<le> length (sn_turns s) \<and> sel = take k (sn_turns s)
     \<and> length (render_source (map_option s_summary_text (sn_summary s)) sel ms) \<le> mx
     \<and> (\<forall>j. k < j \<longrightarrow> j \<le> limit \<longrightarrow> j \<le> length (sn_turns s) \<longrightarrow>
          mx < length (render_source (map_option s_summary_text (sn_summary s))
                 (take j (sn_turns s)) ms))"
proof -
  let ?p = "map_option s_summary_text (sn_summary s)"
  let ?ts = "take limit (sn_turns s)"
  from assms obtain e where l: "select_prefix_loop e ?p mx ms [] ?ts = Inr sel" and ne: "sel \<noteq> []"
    by (auto simp: select_oldest_prefix_def Let_def res_simps split: if_splits)
  obtain k where k: "k \<le> length ?ts" "sel = take k ?ts" "0 < k \<longrightarrow> length (render_source ?p sel ms) \<le> mx"
    "k < length ?ts \<longrightarrow> mx < length (render_source ?p (take (Suc k) ?ts) ms)"
    using select_prefix_loop_spec [OF l] unfolding append_Nil by blast
  have "0 < k" using k(2) ne by (cases k) auto
  moreover have "mx < length (render_source ?p (take j (sn_turns s)) ms)"
    if j: "k < j" "j \<le> limit" "j \<le> length (sn_turns s)" for j
  proof -
    have "mx < length (render_source ?p (take (Suc k) (sn_turns s)) ms)"
      using k(4) j by (simp add: min_absorb1)
    then show ?thesis using render_take_mono [of "Suc k" j ?p "sn_turns s" ms] j by simp
  qed
  ultimately show ?thesis using k by (auto simp: min_absorb1 intro!: exI [of _ k])
qed

lemma select_oldest_prefix_ok:
  assumes "0 < limit" "sn_turns s \<noteq> []"
    and "length (render_source (map_option s_summary_text (sn_summary s)) [hd (sn_turns s)] ms) \<le> mx"
  shows "\<exists>sel. select_oldest_prefix s limit mx ms = Inr sel"
proof (cases "select_oldest_prefix s limit mx ms")
  case (Inl e)
  obtain t ts where ts: "take limit (sn_turns s) = t # ts" "t = hd (sn_turns s)"
    using assms(1,2) by (cases limit; cases "sn_turns s") auto
  from Inl consider e' e'' where "select_prefix_loop e' (map_option s_summary_text (sn_summary s))
      mx ms [] (take limit (sn_turns s)) = Inl e''"
    | e' where "select_prefix_loop e' (map_option s_summary_text (sn_summary s))
      mx ms [] (take limit (sn_turns s)) = Inr []"
    by (auto simp: select_oldest_prefix_def Let_def res_simps split: if_splits)
  then show ?thesis
  proof cases
    case 1
    from select_prefix_loop_Inl [OF this] assms(3) ts show ?thesis by simp
  next
    case 2
    from select_prefix_loop_spec [OF this] assms(3) ts show ?thesis by auto
  qed
qed simp

subsection \<open>Compaction through the store contract\<close>

lemma prepare_compaction_Inr:
  assumes "prepare_compaction digest summarize created Q sid snapshot = Inr (summary, selected)"
  shows "summary_wf summary \<and> s_session_id summary = sid
    \<and> s_source_version summary = sn_version snapshot
    \<and> s_previous_summary_id summary = map_option s_summary_id (sn_summary snapshot)
    \<and> s_covered_turn_count summary =
        (case sn_summary snapshot of None \<Rightarrow> 0 | Some p \<Rightarrow> s_covered_turn_count p)
        + int (length selected)
    \<and> s_covered_through_turn_id summary = t_turn_id (last selected)
    \<and> length (s_summary_text summary) \<le> max_summary_chars Q
    \<and> select_oldest_prefix snapshot (length (sn_turns snapshot) - retain_recent_turns Q)
        (max_source_chars Q) (max_summary_chars Q) = Inr selected"
  using assms
  by (auto simp: prepare_compaction_def Let_def res_simps new_session_summary_Inr
      dest: validate_draft_Inr)

lemma prepared_compaction_ok:
  assumes prep: "prepare_compaction digest summarize created Q sid snapshot = Inr (summary, selected)"
    and wf: "view_wf limit sid (snapshot_view snapshot)" and sid: "sn_session_id snapshot = sid"
    and Q: "summary_policy_wf Q"
  shows "\<exists>k. selected = take k (sn_turns snapshot) \<and> 0 < k
    \<and> k + retain_recent_turns Q \<le> length (sn_turns snapshot)
    \<and> compaction_ok snapshot summary (map t_turn_id selected) (sn_version snapshot)"
proof -
  note p = prepare_compaction_Inr [OF prep]
  obtain k where k: "0 < k" "k \<le> length (sn_turns snapshot) - retain_recent_turns Q"
    "k \<le> length (sn_turns snapshot)" "selected = take k (sn_turns snapshot)"
    using p select_oldest_prefix_spec by blast
  have len: "length selected = k" using k by simp
  have prefix: "\<exists>rest. rest \<noteq> [] \<and> map t_turn_id (sn_turns snapshot) = map t_turn_id selected @ rest"
    using k Q by (auto simp: proper_prefix_map_iff summary_policy_wf_def take_map)
  have "distinct (map t_turn_id selected)"
    using wf k by (simp add: view_wf_def flip: take_map)
  moreover have "\<not> list_ex blank (map t_turn_id selected)"
    using wf k by (auto simp: view_wf_def list_ex_iff turn_wf_def dest!: in_set_takeD)
  moreover have "selected \<noteq> []" using k by auto
  ultimately have "compaction_ok snapshot summary (map t_turn_id selected) (sn_version snapshot)"
    using p prefix sid
    by (auto simp: compaction_ok_def last_map summary_wf_def split: option.splits)
  with k show ?thesis by (auto intro!: exI [of _ k])
qed

text \<open>The view a compaction leaves when it is accepted.\<close>

lemma view_compact_accepted:
  assumes "compaction_ok s summary ids (sn_version s)"
  shows "view_compact (sn_session_id s) (snapshot_view s) summary ids (sn_version s) =
     Inr \<lparr>v_version = sn_version s + 1, v_turns = drop (length ids) (sn_turns s),
          v_summary = Some summary\<rparr>"
  using assms by (simp add: view_compact_snapshot flip: validate_compaction_False_iff)

lemma view_compact_effect:
  assumes "view_compact sid v summary ids expected = Inr v'" and "v' \<noteq> v"
  shows "v_version v = expected \<and> v_version v' = expected + 1 \<and> v_summary v' = Some summary
    \<and> map t_turn_id (v_turns v) = ids @ map t_turn_id (v_turns v') \<and> v_turns v' \<noteq> []"
proof -
  let ?s = "\<lparr>sn_session_id = sid, sn_version = v_version v, sn_turns = v_turns v,
     sn_summary = v_summary v, sn_expires_at = None\<rparr>"
  from assms have "validate_compaction ?s summary ids expected = Inr False"
    and v': "v' = \<lparr>v_version = v_version v + 1, v_turns = drop (length ids) (v_turns v),
      v_summary = Some summary\<rparr>"
    by (auto simp: view_compact_def res_simps split: if_splits)
  then have ok: "compaction_ok ?s summary ids expected" by (simp add: validate_compaction_False_iff)
  then obtain rest where r: "rest \<noteq> []" "map t_turn_id (v_turns v) = ids @ rest"
    by (auto simp: compaction_ok_def)
  then have "map t_turn_id (drop (length ids) (v_turns v)) = rest"
    by (metis append_eq_conv_conj drop_map)
  with r v' ok show ?thesis by (auto simp: compaction_ok_def)
qed

context session_store
begin

lemma rolling_compaction:
  assumes i: "inv st" and sid: "\<not> blank sid" "sn_session_id snap = sid"
    and snap: "snapshot_view snap = view now sid st"
    and Q: "summary_policy_wf Q" and trigger: "trigger_turns Q \<le> length (sn_turns snap)"
    and prep: "prepare_compaction digest summarize created Q sid snap = Inr (summary, selected)"
    and run: "compact_snapshot_if_needed digest summarize created Q (compact now) sid snap st = (r, st')"
  shows "\<exists>k s. 0 < k \<and> k + retain_recent_turns Q \<le> length (sn_turns snap)
    \<and> r = Inr \<lparr>oc_status = Compacted, oc_snapshot = s, oc_compacted = k,
          oc_summary_id = Some (s_summary_id summary)\<rparr>
    \<and> (\<forall>j. view now j st' = (if j = sid
         then \<lparr>v_version = sn_version snap + 1, v_turns = drop k (sn_turns snap),
               v_summary = Some summary\<rparr>
         else view now j st))"
proof -
  have wf: "view_wf limit sid (snapshot_view snap)" using view_wf [OF i] snap by simp
  note p = prepare_compaction_Inr [OF prep]
  obtain k where k: "selected = take k (sn_turns snap)" "0 < k"
    "k + retain_recent_turns Q \<le> length (sn_turns snap)"
    and ok: "compaction_ok snap summary (map t_turn_id selected) (sn_version snap)"
    using prepared_compaction_ok [OF prep wf sid(2) Q] by blast
  have len: "length selected = k" using k by simp
  let ?ids = "map t_turn_id selected"
  have vc: "view_compact sid (view now sid st) summary ?ids (sn_version snap) =
      Inr \<lparr>v_version = sn_version snap + 1, v_turns = drop k (sn_turns snap), v_summary = Some summary\<rparr>"
    using view_compact_accepted [OF ok] sid(2) snap len by simp
  have "0 \<le> sn_version snap" using wf by (simp add: view_wf_def)
  from compact_ok [OF i, of summary "sn_version snap" now ?ids] this p vc
  obtain s where s: "fst (compact now summary ?ids (sn_version snap) st) = Inr s"
    "snapshot_view s =
      \<lparr>v_version = sn_version snap + 1, v_turns = drop k (sn_turns snap), v_summary = Some summary\<rparr>"
    and frame: "\<forall>j. view now j (snd (compact now summary ?ids (sn_version snap) st)) = (if j = sid
       then \<lparr>v_version = sn_version snap + 1, v_turns = drop k (sn_turns snap), v_summary = Some summary\<rparr>
       else view now j st)" by auto
  from s(2) have summ: "sn_summary s = Some summary" by (metis sess_view.select_convs(3) snapshot_view_sel(3))
  have "retain_recent_turns Q < length (sn_turns snap)" using k by simp
  with run sid trigger prep s frame summ len k p show ?thesis
    by (cases "compact now summary ?ids (sn_version snap) st")
      (auto simp: compact_snapshot_if_needed_def new_summary_outcome_def summary_wf_def
        intro!: exI [of _ k])
qed

lemma stale_compaction_safe:
  assumes i: "inv st" and version: "0 \<le> sn_version snap"
    and run: "compact_snapshot_if_needed digest summarize created Q (compact now) sid snap st = (r, st')"
    and changed: "view now j st' \<noteq> view now j st"
  shows "j = sid \<and> v_version (view now sid st) = sn_version snap
    \<and> v_version (view now sid st') = sn_version snap + 1
    \<and> (\<exists>k. map t_turn_id (v_turns (view now sid st)) =
         map t_turn_id (take k (sn_turns snap)) @ map t_turn_id (v_turns (view now sid st')))
    \<and> v_turns (view now sid st') \<noteq> []"
proof -
  from run changed obtain summary selected where
    prep: "prepare_compaction digest summarize created Q sid snap = Inr (summary, selected)"
    and st': "st' = snd (compact now summary (map t_turn_id selected) (sn_version snap) st)"
    by (auto simp: compact_snapshot_if_needed_def split: if_splits sum.splits prod.splits)
  note p = prepare_compaction_Inr [OF prep]
  obtain k where k: "selected = take k (sn_turns snap)" using p select_oldest_prefix_spec by blast
  have cok: "case view_compact sid (view now sid st) summary (map t_turn_id selected) (sn_version snap) of
      Inl e \<Rightarrow> (\<forall>i. view now i st' = view now i st)
    | Inr v \<Rightarrow> (\<forall>i. view now i st' = (if i = sid then v else view now i st))"
    using compact_ok [OF i, of summary "sn_version snap" now "map t_turn_id selected"] p version
    unfolding st' by (auto split: sum.splits)
  with changed obtain v where
    v: "view_compact sid (view now sid st) summary (map t_turn_id selected) (sn_version snap) = Inr v"
    and j: "j = sid" and "view now sid st' = v" "v \<noteq> view now sid st"
    by (cases "view_compact sid (view now sid st) summary (map t_turn_id selected) (sn_version snap)")
      (auto split: if_splits)
  with view_compact_effect [OF v] k show ?thesis by (auto intro!: exI [of _ k])
qed

end

subsection \<open>Properties\<close>

text \<open>
  The prompt budget is used fully and never exceeded: the selected turns are the longest oldest
  prefix, within the candidate limit, whose rendered prompt fits \<open>max_source\<close> characters, and
  selection fails only when not even the first candidate fits.
\<close>

theorem oldest_prefix_maximal:
  "case select_oldest_prefix s limit max_source max_summary of
     Inr selected \<Rightarrow> (\<exists>k. 0 < k \<and> k \<le> min limit (length (sn_turns s)) \<and> selected = take k (sn_turns s)
       \<and> (\<forall>j. 0 < j \<and> j \<le> min limit (length (sn_turns s)) \<longrightarrow>
            (length (render_source (map_option s_summary_text (sn_summary s)) (take j (sn_turns s))
               max_summary) \<le> max_source \<longleftrightarrow> j \<le> k)))
   | Inl e \<Rightarrow> limit = 0 \<or> sn_turns s = [] \<or>
       max_source < length (render_source (map_option s_summary_text (sn_summary s))
         [hd (sn_turns s)] max_summary)"
proof (cases "select_oldest_prefix s limit max_source max_summary")
  case (Inl e)
  then show ?thesis
    using select_oldest_prefix_ok [of limit s max_summary max_source] by fastforce
next
  case (Inr selected)
  let ?p = "map_option s_summary_text (sn_summary s)"
  obtain k where k: "0 < k" "k \<le> limit" "k \<le> length (sn_turns s)" "selected = take k (sn_turns s)"
    "length (render_source ?p selected max_summary) \<le> max_source"
    "\<forall>j. k < j \<longrightarrow> j \<le> limit \<longrightarrow> j \<le> length (sn_turns s) \<longrightarrow>
       max_source < length (render_source ?p (take j (sn_turns s)) max_summary)"
    using select_oldest_prefix_spec [OF Inr] by blast
  have "length (render_source ?p (take j (sn_turns s)) max_summary) \<le> max_source \<longleftrightarrow> j \<le> k"
    if "0 < j" "j \<le> min limit (length (sn_turns s))" for j
  proof (cases "j \<le> k")
    case True
    from render_take_mono [OF True, of ?p "sn_turns s" max_summary] k(4,5) True show ?thesis by simp
  next
    case False
    with k(6) that have "max_source < length (render_source ?p (take j (sn_turns s)) max_summary)"
      by simp
    with False show ?thesis by simp
  qed
  with k Inr show ?thesis by auto
qed

definition demo_snapshot :: session_snapshot where
  "demo_snapshot = \<lparr>sn_session_id = lit ''s'', sn_version = 2,
     sn_turns = [demo_turn ''1'', demo_turn ''2''], sn_summary = None,
     sn_expires_at = Some 1800000000\<rparr>"

theorem oldest_prefix_maximal_witness:
  "case select_oldest_prefix demo_snapshot 1 5 9 of Inr selected \<Rightarrow> False | Inl e \<Rightarrow> True"
  using oldest_prefix_maximal [where s = demo_snapshot and limit = 1 and max_source = 5
      and max_summary = 9]
  by (auto simp: render_source_def split: sum.splits)

text \<open>
  C10: A compaction that starts from the current snapshot of the in-process store, once the
  summarizer has produced a valid draft, always goes through: the store's version check, prefix check
  and lineage check all pass. It covers a non-empty oldest prefix, keeps at least
  \<open>retain_recent_turns\<close> turns, stores the new summary and touches no other session.
\<close>

theorem rolling_summary_compacts:
  assumes "mem_inv (max_turns default_memory_policy) S" and "\<not> blank sid"
    and "mem_read (Aware now) sid S = (Inr snap, S')" and "summary_policy_wf Q"
    and "trigger_turns Q \<le> length (sn_turns snap)"
    and "prepare_compaction digest summarize created Q sid snap = Inr (summary, selected)"
  shows "\<exists>k s. 0 < k \<and> k + retain_recent_turns Q \<le> length (sn_turns snap)
    \<and> fst (compact_snapshot_if_needed digest summarize created Q
        (mem_compact default_memory_policy (Aware now) (Aware now)) sid snap S') =
      Inr \<lparr>oc_status = Compacted, oc_snapshot = s, oc_compacted = k,
          oc_summary_id = Some (s_summary_id summary)\<rparr>
    \<and> (\<forall>j. mem_view now j (snd (compact_snapshot_if_needed digest summarize created Q
        (mem_compact default_memory_policy (Aware now) (Aware now)) sid snap S')) =
      (if j = sid then \<lparr>v_version = sn_version snap + 1, v_turns = drop k (sn_turns snap),
         v_summary = Some summary\<rparr> else mem_view now j S))"
proof -
  have i: "mem_inv (max_turns default_memory_policy) S'"
    using mem_store.read_inv [OF assms(1), of now sid] assms(3) by simp
  have frame: "mem_view now j S' = mem_view now j S" for j
    using mem_store.read_frame [OF assms(1), of now j sid] assms(3) by simp
  have snap: "sn_session_id snap = sid" "snapshot_view snap = mem_view now sid S'"
    using mem_store.read_ok [OF assms(1,2), of now] assms(3) frame by auto
  obtain r S'' where run: "compact_snapshot_if_needed digest summarize created Q
      (mem_compact default_memory_policy (Aware now) (Aware now)) sid snap S' = (r, S'')"
    by fastforce
  from mem_store.rolling_compaction [OF i assms(2) snap assms(4,5,6) run] run frame show ?thesis
    by auto
qed


definition demo_store2 :: mem_store where
  "demo_store2 = [lit ''s'' \<mapsto> \<lparr>st_version = 2, st_turns = [demo_turn ''1'', demo_turn ''2''],
     st_summary = None, st_expires_at = 1800000000\<rparr>]"

definition demo_summary_policy :: summary_policy where
  "demo_summary_policy = \<lparr>trigger_turns = 2, retain_recent_turns = 1, max_source_chars = 300,
     max_summary_chars = 9\<rparr>"

definition demo_draft :: "summary_request \<Rightarrow> summarizer_reply" where
  "demo_draft request = Draft (JObj [(lit ''summary_text'', JStr (lit ''q''))])"

lemma demo_store2_inv: "mem_inv (max_turns default_memory_policy) demo_store2"
  by (auto simp: mem_inv_def demo_store2_def view_wf_def stored_view_def stored_summary_def
      stored_version_def stored_turns_def default_memory_policy_def)
    (auto simp: demo_turn_def)

lemma demo_read: "mem_read (Aware 0) (lit ''s'') demo_store2 = (Inr demo_snapshot, demo_store2)"
  by (simp add: mem_read_def validate_session_id_def live_session_def demo_store2_def clock_now_def
      snapshot_of_def new_session_snapshot_def demo_snapshot_def)

lemma demo_prepare:
  "prepare_compaction (\<lambda>v. lit ''1'') demo_draft (Aware 5) demo_summary_policy (lit ''s'')
     demo_snapshot = Inr (\<lparr>s_session_id = lit ''s'', s_summary_id = lit ''rs1_1'',
       s_previous_summary_id = None, s_source_version = 2, s_covered_turn_count = 1,
       s_covered_through_turn_id = lit ''1'', s_summary_text = lit ''q'', s_created_at = 5\<rparr>,
       [demo_turn ''1''])"
proof -
  have "select_oldest_prefix demo_snapshot (Suc 0) 300 9 = Inr [demo_turn ''1'']"
    by (simp add: select_oldest_prefix_def demo_snapshot_def render_source_def render_turn_def
        demo_turn_def py_nat_str.simps)
  moreover have "has_evidence_marker (lit ''q'') = False" "blank (lit ''rs1_1'') = False"
    by (simp_all add: lit_def marker_here_def py_space_def)
  ultimately show ?thesis
    by (simp add: prepare_compaction_def demo_summary_policy_def)
      (simp add: demo_snapshot_def new_summary_request_def summary_id_def
        validate_draft_def validate_draft_model_def demo_draft_def keys_are_def jget_def
        new_session_summary_def nonblank_option_def clock_now_def normalize_utc_def demo_turn_def
        flip: lit_append)
qed

theorem rolling_summary_compacts_witness:
  "\<exists>s. fst (compact_snapshot_if_needed (\<lambda>v. lit ''1'') demo_draft (Aware 5) demo_summary_policy
      (mem_compact default_memory_policy (Aware 0) (Aware 0)) (lit ''s'') demo_snapshot demo_store2) =
    Inr \<lparr>oc_status = Compacted, oc_snapshot = s, oc_compacted = 1,
        oc_summary_id = Some (lit ''rs1_1'')\<rparr>"
proof -
  have "summary_policy_wf demo_summary_policy"
    "trigger_turns demo_summary_policy \<le> length (sn_turns demo_snapshot)"
    by (simp_all add: summary_policy_wf_def demo_summary_policy_def demo_snapshot_def)
  from rolling_summary_compacts [OF demo_store2_inv not_space_letters(1) demo_read this demo_prepare]
  show ?thesis by (auto simp: demo_summary_policy_def demo_snapshot_def le_Suc_eq)
qed


end
