(* ===== verification/ContextModels.thy ===== *)
theory ContextModels
  imports Serialization
begin

section \<open>Context: immutable items, policies and token budgets\<close>

text \<open>
  \<^verbatim>\<open>context/models.py\<close> and \<^verbatim>\<open>context/token_budget.py\<close>. Enumerations are datatypes in the source's
  order, models are records and their validated constructors are the functions \<open>new_...\<close>. Aware
  timestamps are compared by their instant. Metadata values are JSON trees, so the recursive freeze
  of the source has nothing left to refuse in them; the check of reserved keys is modelled.
\<close>

datatype context_kind = SystemInstruction | UserRequest | RouterDecision | SkillInstruction
  | ToolResult | KnowledgeEvidence | DataEvidence | StructuredSummary | ConversationMemory

datatype context_source = SrcSystem | SrcUser | SrcRouter | SrcSkill | SrcTool | SrcAgent | SrcExternal

datatype trust_level = TrustedSystem | VerifiedInternal | TrustedToolResult | UntrustedUser
  | UntrustedExternal

datatype evidence_domain = Knowledge | Data

datatype drop_reason = Expired | KindNotAllowed | TrustNotAllowed | DomainNotAllowed
  | TokenBudgetExceeded

datatype ctx_error =
    CtxInvalid string
  | DuplicateContextItem pystr
  | RequiredItemMissing string pystr
  | RequiredItemRejected string pystr drop_reason
  | ContextBudgetExceeded string pystr
  | ProjectionError string

definition invalid :: "string \<Rightarrow> ctx_error + 'a" where
  "invalid msg = Inl (CtxInvalid msg)"

lemma invalid_iff [res_simps]:
  "invalid msg \<noteq> Inr a" "invalid msg = Inl e \<longleftrightarrow> e = CtxInvalid msg"
  by (auto simp: invalid_def)

subsection \<open>Token budgets\<close>

definition estimate_tokens :: "pystr \<Rightarrow> nat" where
  "estimate_tokens s =
     (if s = [] then 0
      else let ascii = length (filter (\<lambda>c. c < 128) s); other = length s - ascii
           in max 1 ((ascii + 3) div 4 + other))"

record token_budget =
  max_tokens :: int
  reserved_tokens :: int

definition new_token_budget :: "int \<Rightarrow> int \<Rightarrow> ctx_error + token_budget" where
  "new_token_budget m r =
     (if m \<le> 0 then invalid ''max_tokens''
      else if r < 0 then invalid ''reserved_tokens''
      else if m \<le> r then invalid ''reserved_tokens must be less than max_tokens''
      else Inr \<lparr>max_tokens = m, reserved_tokens = r\<rparr>)"

definition available_tokens :: "token_budget \<Rightarrow> int" where
  "available_tokens b = max_tokens b - reserved_tokens b"

definition can_fit :: "token_budget \<Rightarrow> int \<Rightarrow> int \<Rightarrow> ctx_error + bool" where
  "can_fit b current candidate =
     (if current < 0 \<or> candidate < 0 then invalid ''token counts must be non-negative''
      else Inr (current + candidate \<le> available_tokens b))"

lemma new_token_budget_available:
  "new_token_budget m r = Inr b \<Longrightarrow> 0 < available_tokens b"
  by (auto simp: new_token_budget_def available_tokens_def invalid_def split: if_splits)

subsection \<open>Estimation\<close>

text \<open>
  What the context components rely on of an injected estimator: text costs something, and text that
  contains another one costs at least as much.
\<close>

locale token_estimator =
  fixes estimate :: "pystr \<Rightarrow> nat"
  assumes estimate_pos: "s \<noteq> [] \<Longrightarrow> 0 < estimate s"
    and estimate_mono: "subseq s t \<Longrightarrow> estimate s \<le> estimate t"
begin

lemma fits_downward: "subseq s t \<Longrightarrow> estimate t \<le> n \<Longrightarrow> estimate s \<le> n"
  using estimate_mono by (rule order_trans)

end

lemma subseq_length_filter: "subseq xs ys \<Longrightarrow> length (filter P xs) \<le> length (filter P ys)"
  by (induction rule: list_emb.induct) auto

lemma estimate_tokens_alt:
  "estimate_tokens s =
     (length (filter (\<lambda>c. c < 128) s) + 3) div 4 + length (filter (\<lambda>c. \<not> c < 128) s)"
proof (cases "s = []")
  case False
  have l: "length s = length (filter (\<lambda>c. c < 128) s) + length (filter (\<lambda>c. \<not> c < 128) s)"
    by (rule sum_length_filter_compl [symmetric])
  define a b where "a = length (filter (\<lambda>c. c < 128) s)" and "b = length (filter (\<lambda>c. \<not> c < 128) s)"
  then have "length s = a + b" using l by simp
  moreover have "0 < length s" using False by simp
  ultimately have "0 < a + b" by simp
  then have "1 \<le> (a + 3) div 4 + b" by (cases a) auto
  then have "max 1 ((a + 3) div 4 + b) = (a + 3) div 4 + b" by simp
  moreover have "length s - a = b" using l by (simp add: a_def b_def)
  ultimately show ?thesis using False by (simp add: estimate_tokens_def Let_def flip: a_def b_def)
qed (simp add: estimate_tokens_def)

interpretation conservative: token_estimator estimate_tokens
proof
  fix s :: pystr assume "s \<noteq> []"
  then show "0 < estimate_tokens s" by (simp add: estimate_tokens_def Let_def)
next
  fix s t :: pystr assume "subseq s t"
  then show "estimate_tokens s \<le> estimate_tokens t"
    using subseq_length_filter [of s t] unfolding estimate_tokens_alt
    by (intro add_mono div_le_mono) auto
qed

text \<open>Four characters of text cost at most one token less than their number, each at least a quarter.\<close>

lemma length_le_estimate: "length s \<le> 4 * estimate_tokens s"
proof -
  define a b where "a = length (filter (\<lambda>c. c < 128) s)" and "b = length (filter (\<lambda>c. \<not> c < 128) s)"
  then have "length s = a + b" by (simp add: sum_length_filter_compl)
  moreover have "estimate_tokens s = (a + 3) div 4 + b"
    by (simp add: estimate_tokens_alt a_def b_def)
  moreover have "a \<le> 4 * ((a + 3) div 4)" by arith
  ultimately show ?thesis by simp
qed

subsection \<open>Validators\<close>

definition require_nonblank :: "pystr \<Rightarrow> string \<Rightarrow> ctx_error + pystr" where
  "require_nonblank v name = (if blank v then invalid name else Inr v)"

definition require_aware :: "pytime \<Rightarrow> string \<Rightarrow> ctx_error + int" where
  "require_aware t name = (case t of Naive w \<Rightarrow> invalid name | Aware i \<Rightarrow> Inr i)"

lemma require_iff [res_simps]:
  "require_nonblank v n = Inr w \<longleftrightarrow> \<not> blank v \<and> w = v"
  "require_aware t n = Inr i \<longleftrightarrow> t = Aware i"
  by (auto simp: require_nonblank_def require_aware_def invalid_def split: pytime.splits)

fun deduplicate_strings :: "string \<Rightarrow> pystr list \<Rightarrow> pystr list \<Rightarrow> ctx_error + pystr list" where
  "deduplicate_strings name seen [] = Inr []"
| "deduplicate_strings name seen (v # vs) =
     res_bind (require_nonblank v name) (\<lambda>v.
       if v \<in> set seen then deduplicate_strings name seen vs
       else res_bind (deduplicate_strings name (v # seen) vs) (\<lambda>rest. Inr (v # rest)))"

lemma deduplicate_strings_Inr:
  "deduplicate_strings name seen vs = Inr out \<Longrightarrow>
     distinct out \<and> set out = set vs - set seen \<and> (\<forall>v \<in> set vs. \<not> blank v)"
proof (induction vs arbitrary: seen out)
  case (Cons v vs)
  show ?case
  proof (cases "v \<in> set seen")
    case True
    with Cons.prems have "deduplicate_strings name seen vs = Inr out" "\<not> blank v"
      by (auto simp: res_simps)
    with Cons.IH [of seen out] True show ?thesis by auto
  next
    case False
    with Cons.prems obtain rest where
      r: "deduplicate_strings name (v # seen) vs = Inr rest" "out = v # rest" "\<not> blank v"
      by (auto simp: res_simps)
    with Cons.IH [OF r(1)] False show ?thesis by auto
  qed
qed simp

definition reserved_metadata_keys :: "pystr list" where
  "reserved_metadata_keys = map lit [''kind'', ''source'', ''trust_level'', ''evidence_domain'',
     ''citation_ids'', ''system_instruction'']"

definition freeze_metadata :: "(pystr \<times> json) list \<Rightarrow> ctx_error + (pystr \<times> json) list" where
  "freeze_metadata m =
     (if list_ex (\<lambda>kv. fst kv \<in> set reserved_metadata_keys) m
      then invalid ''metadata contains reserved keys'' else Inr m)"

text \<open>\<^verbatim>\<open>^\[(E|D)([1-9]\d*)\]$\<close> as a full match, with the domain letter given.\<close>

definition citation_match :: "nat \<Rightarrow> pystr \<Rightarrow> bool" where
  "citation_match letter s = (case s of
     c # d # n # rest \<Rightarrow> c = 91 \<and> d = letter \<and> 49 \<le> n \<and> n \<le> 57 \<and> rest \<noteq> []
       \<and> last rest = 93 \<and> list_all py_digit (butlast rest)
   | _ \<Rightarrow> False)"

subsection \<open>Items\<close>

record provenance =
  pv_producer :: pystr
  pv_source_item_ids :: "pystr list"
  pv_request_id :: pystr
  pv_trace_id :: "pystr option"
  pv_generated_at :: int

definition new_provenance ::
  "pystr \<Rightarrow> pystr list \<Rightarrow> pystr \<Rightarrow> pystr option \<Rightarrow> pytime \<Rightarrow> ctx_error + provenance" where
  "new_provenance producer sources request trace generated =
     res_bind (require_nonblank producer ''provenance field'') (\<lambda>producer.
     res_bind (deduplicate_strings ''source_item_id'' [] sources) (\<lambda>sources.
     res_bind (require_nonblank request ''provenance field'') (\<lambda>request.
     res_bind (case trace of None \<Rightarrow> Inr None
         | Some t \<Rightarrow> res_bind (require_nonblank t ''trace_id'') (\<lambda>t. Inr (Some t))) (\<lambda>trace.
     res_bind (require_aware generated ''generated_at'') (\<lambda>generated.
     Inr \<lparr>pv_producer = producer, pv_source_item_ids = sources, pv_request_id = request,
          pv_trace_id = trace, pv_generated_at = generated\<rparr>)))))"

record context_item =
  ci_id :: pystr
  ci_kind :: context_kind
  ci_content :: pystr
  ci_source :: context_source
  ci_trust :: trust_level
  ci_provenance :: provenance
  ci_created_at :: int
  ci_expires_at :: "int option"
  ci_tokens :: nat
  ci_domain :: "evidence_domain option"
  ci_citations :: "pystr list"
  ci_metadata :: "(pystr \<times> json) list"

definition derived_kind :: "context_kind \<Rightarrow> bool" where
  "derived_kind k \<longleftrightarrow> k \<noteq> SystemInstruction \<and> k \<noteq> UserRequest"

definition evidence_kind :: "context_kind \<Rightarrow> bool" where
  "evidence_kind k \<longleftrightarrow> k = KnowledgeEvidence \<or> k = DataEvidence"

text \<open>The cross-field contract of an item, in the order of the checks; \<open>None\<close> is acceptance.\<close>

definition item_contract :: "context_item \<Rightarrow> string option" where
  "item_contract i =
    (if (case ci_expires_at i of None \<Rightarrow> False | Some e \<Rightarrow> e < ci_created_at i)
       then Some ''expires_at must not be before created_at''
     else if ci_kind i = SystemInstruction \<and> ci_source i \<noteq> SrcSystem
       then Some ''system_instruction must originate from system''
     else if ci_trust i = TrustedSystem \<and> ci_source i \<noteq> SrcSystem
       then Some ''trusted_system requires system source''
     else if ci_source i = SrcSystem \<and> ci_trust i \<noteq> TrustedSystem
       then Some ''system source must use trusted_system''
     else if ci_kind i = UserRequest \<and> ci_source i \<noteq> SrcUser
       then Some ''user_request must originate from user''
     else if ci_source i = SrcUser \<and> ci_trust i = TrustedSystem
       then Some ''user source cannot use trusted_system''
     else if ci_source i = SrcExternal \<and> (ci_trust i = TrustedSystem \<or> ci_trust i = VerifiedInternal)
       then Some ''external source cannot use internal trust''
     else if ci_kind i = ToolResult \<and> ci_source i \<noteq> SrcTool \<and> ci_source i \<noteq> SrcAgent
       then Some ''tool_result must originate from tool or agent''
     else if evidence_kind (ci_kind i) \<and> (ci_source i = SrcSystem \<or> ci_trust i = TrustedSystem)
       then Some ''evidence cannot use trusted system origin''
     else if evidence_kind (ci_kind i) \<and>
         (ci_domain i \<noteq> Some (if ci_kind i = KnowledgeEvidence then Knowledge else Data)
          \<or> ci_citations i = [])
       then Some ''evidence requires its domain and citations''
     else if evidence_kind (ci_kind i) \<and>
         list_ex (\<lambda>c. \<not> citation_match (if ci_kind i = KnowledgeEvidence then 69 else 68) c)
           (ci_citations i)
       then Some ''evidence citations must match their evidence domain''
     else if \<not> evidence_kind (ci_kind i) \<and> (ci_domain i \<noteq> None \<or> ci_citations i \<noteq> [])
       then Some ''non-evidence items cannot carry evidence domain or citations''
     else if derived_kind (ci_kind i) \<and> pv_source_item_ids (ci_provenance i) = []
       then Some ''derived context items require source_item_ids''
     else if ci_id i \<in> set (pv_source_item_ids (ci_provenance i))
       then Some ''context item cannot directly cite itself as a source''
     else None)"

definition new_context_item ::
  "pystr \<Rightarrow> context_kind \<Rightarrow> pystr \<Rightarrow> context_source \<Rightarrow> trust_level \<Rightarrow> provenance \<Rightarrow> pytime
     \<Rightarrow> pytime option \<Rightarrow> nat \<Rightarrow> evidence_domain option \<Rightarrow> pystr list \<Rightarrow> (pystr \<times> json) list
     \<Rightarrow> ctx_error + context_item" where
  "new_context_item iid kind content source trust prov created expires tokens domain citations metadata =
     res_bind (require_nonblank iid ''context text'') (\<lambda>iid.
     res_bind (ensure (length content \<le> 20000) (CtxInvalid ''content'')) (\<lambda>_.
     res_bind (require_nonblank content ''context text'') (\<lambda>content.
     res_bind (require_aware created ''created_at'') (\<lambda>created.
     res_bind (case expires of None \<Rightarrow> Inr None
         | Some e \<Rightarrow> res_bind (require_aware e ''expires_at'') (\<lambda>e. Inr (Some e))) (\<lambda>expires.
     res_bind (deduplicate_strings ''citation_id'' [] citations) (\<lambda>citations.
     res_bind (freeze_metadata metadata) (\<lambda>metadata.
     let item = \<lparr>ci_id = iid, ci_kind = kind, ci_content = content, ci_source = source,
           ci_trust = trust, ci_provenance = prov, ci_created_at = created,
           ci_expires_at = expires, ci_tokens = tokens, ci_domain = domain,
           ci_citations = citations, ci_metadata = metadata\<rparr>
     in case item_contract item of Some msg \<Rightarrow> invalid msg | None \<Rightarrow> Inr item)))))))"

definition is_expired :: "context_item \<Rightarrow> int \<Rightarrow> bool" where
  "is_expired i instant = (case ci_expires_at i of None \<Rightarrow> False | Some e \<Rightarrow> e \<le> instant)"

definition item_wf :: "context_item \<Rightarrow> bool" where
  "item_wf i \<longleftrightarrow> \<not> blank (ci_id i) \<and> \<not> blank (ci_content i) \<and> length (ci_content i) \<le> 20000
     \<and> item_contract i = None"

lemma new_context_item_wf:
  "new_context_item iid k c s t p cr ex n d cs m = Inr i \<Longrightarrow>
     item_wf i \<and> ci_id i = iid \<and> ci_kind i = k \<and> ci_content i = c \<and> ci_source i = s \<and> ci_trust i = t
     \<and> ci_tokens i = n \<and> ci_domain i = d"
  by (auto simp: new_context_item_def item_wf_def res_simps Let_def split: option.splits)

lemma new_context_item_nonblank:
  "new_context_item iid k c s t p cr ex n d cs m = Inr i \<Longrightarrow> \<not> blank c"
  by (auto simp: new_context_item_def res_simps)

subsection \<open>Policies and selection results\<close>

record context_policy =
  cp_node :: string
  cp_kinds :: "context_kind list"
  cp_trusts :: "trust_level list"
  cp_domains :: "evidence_domain list"
  cp_budget :: token_budget
  cp_required :: "pystr list"

definition new_context_policy ::
  "string \<Rightarrow> context_kind list \<Rightarrow> trust_level list \<Rightarrow> evidence_domain list \<Rightarrow> token_budget
     \<Rightarrow> pystr list \<Rightarrow> ctx_error + context_policy" where
  "new_context_policy node kinds trusts domains budget required =
     res_bind (require_nonblank (lit node) ''node_name'') (\<lambda>_.
     res_bind (ensure (kinds \<noteq> [] \<and> trusts \<noteq> []) (CtxInvalid ''allowed policy sets must be non-empty''))
       (\<lambda>_.
     res_bind (deduplicate_strings ''required_item_id'' [] required) (\<lambda>required.
     Inr \<lparr>cp_node = node, cp_kinds = kinds, cp_trusts = trusts, cp_domains = domains,
          cp_budget = budget, cp_required = required\<rparr>)))"

record dropped_item =
  di_id :: pystr
  di_reason :: drop_reason

definition new_dropped_item :: "pystr \<Rightarrow> drop_reason \<Rightarrow> ctx_error + dropped_item" where
  "new_dropped_item iid reason =
     res_bind (require_nonblank iid ''item_id'') (\<lambda>iid. Inr \<lparr>di_id = iid, di_reason = reason\<rparr>)"

record selection_result =
  sr_items :: "context_item list"
  sr_item_ids :: "pystr list"
  sr_dropped :: "dropped_item list"
  sr_tokens :: int
  sr_available :: int

definition new_selection_result ::
  "context_item list \<Rightarrow> pystr list \<Rightarrow> dropped_item list \<Rightarrow> int \<Rightarrow> int \<Rightarrow> ctx_error + selection_result" where
  "new_selection_result items ids dropped tokens available =
     (if tokens < 0 then invalid ''total_estimated_tokens''
      else if available < 0 then invalid ''available_tokens''
      else if ids \<noteq> map ci_id items then invalid ''selected_item_ids must match selected_items''
      else if \<not> distinct (map ci_id items) \<or> \<not> distinct (map di_id dropped)
        then invalid ''selection item identifiers must be unique''
      else if set (map ci_id items) \<inter> set (map di_id dropped) \<noteq> {}
        then invalid ''an item cannot be selected and dropped''
      else if tokens \<noteq> int (sum_list (map ci_tokens items))
        then invalid ''total_estimated_tokens must match selected items''
      else if available < tokens then invalid ''selected items exceed available_tokens''
      else Inr \<lparr>sr_items = items, sr_item_ids = ids, sr_dropped = dropped, sr_tokens = tokens,
                sr_available = available\<rparr>)"

end
