(* ===== verification/ContextManager.thy ===== *)
theory ContextManager
  imports ContextModels
begin

section \<open>Context: deterministic selection under a policy\<close>

text \<open>
  \<^verbatim>\<open>context/manager.py\<close>. The store of a manager is the list of its items in the order they were
  added (a dictionary with distinct identifiers). \<open>select_context\<close> takes the required items in the
  policy's order, then walks the other items by trust, age and identifier, taking what the policy
  allows and the budget still holds and recording why the rest was dropped.
\<close>

type_synonym context_items = "context_item list"

definition ctx_get :: "pystr \<Rightarrow> context_items \<Rightarrow> context_item option" where
  "ctx_get iid items = find (\<lambda>i. ci_id i = iid) items"

definition ctx_add :: "context_item \<Rightarrow> context_items \<Rightarrow> ctx_error + context_items" where
  "ctx_add item items =
     (if ctx_get (ci_id item) items \<noteq> None then Inl (DuplicateContextItem (ci_id item))
      else Inr (items @ [item]))"

definition trust_priority :: "trust_level \<Rightarrow> nat" where
  "trust_priority t = (case t of TrustedSystem \<Rightarrow> 0 | VerifiedInternal \<Rightarrow> 1 | TrustedToolResult \<Rightarrow> 2
     | UntrustedUser \<Rightarrow> 3 | UntrustedExternal \<Rightarrow> 4)"

definition rejection_reason :: "context_item \<Rightarrow> context_policy \<Rightarrow> int \<Rightarrow> drop_reason option" where
  "rejection_reason i P now =
     (if is_expired i now then Some Expired
      else if ci_kind i \<notin> set (cp_kinds P) then Some KindNotAllowed
      else if ci_trust i \<notin> set (cp_trusts P) then Some TrustNotAllowed
      else if evidence_kind (ci_kind i)
          \<and> (case ci_domain i of None \<Rightarrow> True | Some d \<Rightarrow> d \<notin> set (cp_domains P))
        then Some DomainNotAllowed
      else None)"

fun take_required ::
  "context_policy \<Rightarrow> int \<Rightarrow> context_items \<Rightarrow> pystr list \<Rightarrow> context_item list \<Rightarrow> int
     \<Rightarrow> ctx_error + (context_item list \<times> int)" where
  "take_required P now items [] selected tokens = Inr (selected, tokens)"
| "take_required P now items (iid # iids) selected tokens =
     (case ctx_get iid items of
        None \<Rightarrow> Inl (RequiredItemMissing (cp_node P) iid)
      | Some item \<Rightarrow>
          (case rejection_reason item P now of
             Some reason \<Rightarrow> Inl (RequiredItemRejected (cp_node P) iid reason)
           | None \<Rightarrow>
               res_bind (can_fit (cp_budget P) tokens (int (ci_tokens item))) (\<lambda>ok.
                 if \<not> ok then Inl (ContextBudgetExceeded (cp_node P) iid)
                 else take_required P now items iids (selected @ [item])
                        (tokens + int (ci_tokens item)))))"

fun take_candidates ::
  "context_policy \<Rightarrow> int \<Rightarrow> context_item list \<Rightarrow> context_item list \<Rightarrow> dropped_item list \<Rightarrow> int
     \<Rightarrow> ctx_error + (context_item list \<times> dropped_item list \<times> int)" where
  "take_candidates P now [] selected dropped tokens = Inr (selected, dropped, tokens)"
| "take_candidates P now (item # rest) selected dropped tokens =
     (case rejection_reason item P now of
        Some reason \<Rightarrow>
          res_bind (new_dropped_item (ci_id item) reason) (\<lambda>d.
            take_candidates P now rest selected (dropped @ [d]) tokens)
      | None \<Rightarrow>
          res_bind (can_fit (cp_budget P) tokens (int (ci_tokens item))) (\<lambda>ok.
            if ok then take_candidates P now rest (selected @ [item]) dropped
                         (tokens + int (ci_tokens item))
            else res_bind (new_dropped_item (ci_id item) TokenBudgetExceeded) (\<lambda>d.
                   take_candidates P now rest selected (dropped @ [d]) tokens)))"

definition candidate_key :: "context_item \<Rightarrow> nat \<times> int \<times> pystr" where
  "candidate_key i = (trust_priority (ci_trust i), ci_created_at i, ci_id i)"

definition select_context :: "context_policy \<Rightarrow> pytime \<Rightarrow> context_items \<Rightarrow> ctx_error + selection_result" where
  "select_context P instant items =
     res_bind (require_aware instant ''at must be timezone-aware'') (\<lambda>now.
     res_bind (take_required P now items (cp_required P) [] 0) (\<lambda>(required, tokens).
     let candidates = sort_key candidate_key
           (filter (\<lambda>i. ci_id i \<notin> set (cp_required P)) items)
     in res_bind (take_candidates P now candidates required [] tokens) (\<lambda>(selected, dropped, tokens).
        new_selection_result selected (map ci_id selected) dropped tokens
          (available_tokens (cp_budget P)))))"

subsection \<open>The store of items\<close>

definition items_ok :: "context_items \<Rightarrow> bool" where
  "items_ok items \<longleftrightarrow> distinct (map ci_id items) \<and> (\<forall>i \<in> set items. item_wf i)"

lemma ctx_get_SomeD: "ctx_get iid items = Some i \<Longrightarrow> i \<in> set items \<and> ci_id i = iid"
  by (auto simp: ctx_get_def find_Some_iff)

lemma ctx_get_None_iff: "ctx_get iid items = None \<longleftrightarrow> iid \<notin> ci_id ` set items"
  by (auto simp: ctx_get_def find_None_iff)

lemma ctx_get_iff:
  "distinct (map ci_id items) \<Longrightarrow> ctx_get iid items = Some i \<longleftrightarrow> i \<in> set items \<and> ci_id i = iid"
proof (induction items)
  case Nil
  then show ?case by (simp add: ctx_get_def)
next
  case (Cons x items)
  then show ?case by (auto simp: ctx_get_def)
qed

lemma ctx_add_ok: "items_ok items \<Longrightarrow> item_wf i \<Longrightarrow> ctx_add i items = Inr items' \<Longrightarrow> items_ok items'"
  by (auto simp: items_ok_def ctx_add_def ctx_get_None_iff split: if_splits)

lemma ctx_get_perm:
  assumes "mset items = mset items'" "distinct (map ci_id items)"
  shows "ctx_get iid items = ctx_get iid items'"
proof -
  have "distinct (map ci_id items')" using assms by (metis mset_eq_imp_distinct_iff mset_map)
  moreover have "set items = set items'" using assms(1) by (metis set_mset_mset)
  ultimately show ?thesis
    using ctx_get_iff [OF assms(2)] ctx_get_iff [of items']
    by (metis not_None_eq)
qed

subsection \<open>The two passes\<close>

lemma can_fit_nonneg:
  "0 \<le> n \<Longrightarrow> can_fit b n (int k) = Inr (n + int k \<le> available_tokens b)"
  by (simp add: can_fit_def)

lemma take_required_Inr:
  assumes "take_required P now items iids selected tokens = Inr (selected', tokens')"
    and "0 \<le> tokens" "tokens \<le> available_tokens (cp_budget P)"
  shows "\<exists>new. selected' = selected @ new \<and> map ci_id new = iids \<and> set new \<subseteq> set items
     \<and> (\<forall>i \<in> set new. rejection_reason i P now = None)
     \<and> tokens' = tokens + int (sum_list (map ci_tokens new))
     \<and> tokens' \<le> available_tokens (cp_budget P)"
  using assms
proof (induction iids arbitrary: selected tokens)
  case Nil
  then show ?case by auto
next
  case (Cons iid iids)
  from Cons.prems obtain item where item: "ctx_get iid items = Some item"
    and r: "rejection_reason item P now = None"
    and fit: "tokens + int (ci_tokens item) \<le> available_tokens (cp_budget P)"
    and rest: "take_required P now items iids (selected @ [item]) (tokens + int (ci_tokens item)) =
      Inr (selected', tokens')"
    by (auto simp: can_fit_nonneg split: option.splits if_splits)
  obtain new where new: "selected' = (selected @ [item]) @ new" "map ci_id new = iids"
    "set new \<subseteq> set items" "\<forall>i \<in> set new. rejection_reason i P now = None"
    "tokens' = tokens + int (ci_tokens item) + int (sum_list (map ci_tokens new))"
    "tokens' \<le> available_tokens (cp_budget P)"
    using Cons.IH [OF rest _ fit] Cons.prems(2) by auto
  with ctx_get_SomeD [OF item] r show ?case by (auto intro!: exI [of _ "item # new"])
qed

lemma take_required_Inl:
  assumes "take_required P now items iids selected tokens = Inl e" and "0 \<le> tokens"
  shows "\<exists>iid \<in> set iids.
      (e = RequiredItemMissing (cp_node P) iid \<and> iid \<notin> ci_id ` set items)
    \<or> (\<exists>i reason. e = RequiredItemRejected (cp_node P) iid reason \<and> i \<in> set items \<and> ci_id i = iid
         \<and> rejection_reason i P now = Some reason)
    \<or> e = ContextBudgetExceeded (cp_node P) iid"
  using assms
proof (induction iids arbitrary: selected tokens)
  case (Cons iid iids)
  show ?case
  proof (cases "ctx_get iid items")
    case None
    with Cons.prems show ?thesis by (auto simp: ctx_get_None_iff)
  next
    case (Some item)
    show ?thesis
    proof (cases "rejection_reason item P now")
      case None
      show ?thesis
      proof (cases "tokens + int (ci_tokens item) \<le> available_tokens (cp_budget P)")
        case True
        with Cons.prems Some None have "take_required P now items iids (selected @ [item])
            (tokens + int (ci_tokens item)) = Inl e" by (simp add: can_fit_nonneg)
        from Cons.IH [OF this] Cons.prems(2) show ?thesis by auto
      qed (use Cons.prems Some None in \<open>simp add: can_fit_nonneg\<close>)
    qed (use Cons.prems Some ctx_get_SomeD [OF Some] in auto)
  qed
qed simp

text \<open>What the second pass over \<open>items\<close> adds: the taken \<open>new\<close>, the dropped \<open>out\<close> and the tokens after.\<close>

definition dropped_for :: "context_policy \<Rightarrow> int \<Rightarrow> int \<Rightarrow> context_item \<Rightarrow> dropped_item \<Rightarrow> bool" where
  "dropped_for P now tokens i d \<longleftrightarrow> ci_id i = di_id d
     \<and> (case rejection_reason i P now of
          Some reason \<Rightarrow> di_reason d = reason
        | None \<Rightarrow> di_reason d = TokenBudgetExceeded
            \<and> available_tokens (cp_budget P) < tokens + int (ci_tokens i))"

definition second_pass ::
  "context_policy \<Rightarrow> int \<Rightarrow> context_item list \<Rightarrow> context_item list \<Rightarrow> dropped_item list \<Rightarrow> int \<Rightarrow> int
     \<Rightarrow> bool" where
  "second_pass P now items new out tokens tokens' \<longleftrightarrow>
     set new \<subseteq> set items \<and> (\<forall>i \<in> set new. rejection_reason i P now = None)
     \<and> mset (map ci_id new) + mset (map di_id out) = mset (map ci_id items)
     \<and> tokens' = tokens + int (sum_list (map ci_tokens new))
     \<and> tokens' \<le> available_tokens (cp_budget P)
     \<and> (\<forall>d \<in> set out. \<exists>i \<in> set items. dropped_for P now tokens' i d)"

lemma dropped_for_mono: "dropped_for P now n i d \<Longrightarrow> n \<le> m \<Longrightarrow> dropped_for P now m i d"
  by (auto simp: dropped_for_def split: option.splits)

lemma second_pass_drop:
  assumes "second_pass P now items new out tokens tokens'" and "dropped_for P now tokens item d"
  shows "second_pass P now (item # items) new (d # out) tokens tokens'"
proof -
  have "tokens \<le> tokens'" using assms(1) by (simp add: second_pass_def)
  from dropped_for_mono [OF assms(2) this] assms show ?thesis
    by (auto simp: second_pass_def dropped_for_def)
qed

lemma second_pass_take:
  assumes "second_pass P now items new out (tokens + int (ci_tokens item)) tokens'"
    and "rejection_reason item P now = None"
  shows "second_pass P now (item # items) (item # new) out tokens tokens'"
  using assms by (auto simp: second_pass_def)

lemma take_candidates_total:
  assumes "\<forall>i \<in> set items. \<not> blank (ci_id i)" and "0 \<le> tokens"
    and "tokens \<le> available_tokens (cp_budget P)"
  shows "\<exists>new out tokens'. take_candidates P now items selected dropped tokens =
       Inr (selected @ new, dropped @ out, tokens') \<and> second_pass P now items new out tokens tokens'"
  using assms
proof (induction items arbitrary: selected dropped tokens)
  case Nil
  then show ?case by (simp add: second_pass_def)
next
  case (Cons item items)
  have nb: "\<forall>i \<in> set items. \<not> blank (ci_id i)" and nb1: "\<not> blank (ci_id item)"
    using Cons.prems by simp_all
  have drop: ?case if d: "d = \<lparr>di_id = ci_id item, di_reason = reason\<rparr>"
    and step: "take_candidates P now (item # items) selected dropped tokens =
        take_candidates P now items selected (dropped @ [d]) tokens"
    and why: "dropped_for P now tokens item d" for d reason
  proof -
    obtain new out tokens' where n: "take_candidates P now items selected (dropped @ [d]) tokens =
        Inr (selected @ new, (dropped @ [d]) @ out, tokens')"
      "second_pass P now items new out tokens tokens'"
      using Cons.IH [OF nb Cons.prems(2,3)] by blast
    from step n(1) second_pass_drop [OF n(2) why] show ?thesis by (metis append_Cons append_Nil append_assoc)
  qed
  show ?case
  proof (cases "rejection_reason item P now")
    case (Some reason)
    with nb1 show ?thesis
      by (intro drop [OF refl]) (auto simp: new_dropped_item_def require_nonblank_def dropped_for_def)
  next
    case None
    show ?thesis
    proof (cases "tokens + int (ci_tokens item) \<le> available_tokens (cp_budget P)")
      case False
      with None nb1 Cons.prems(2) show ?thesis
        by (intro drop [OF refl, of TokenBudgetExceeded])
          (auto simp: new_dropped_item_def require_nonblank_def can_fit_nonneg dropped_for_def)
    next
      case True
      have p: "0 \<le> tokens + int (ci_tokens item)" using Cons.prems(2) by simp
      obtain new out tokens' where n: "take_candidates P now items (selected @ [item]) dropped
          (tokens + int (ci_tokens item)) = Inr ((selected @ [item]) @ new, dropped @ out, tokens')"
        "second_pass P now items new out (tokens + int (ci_tokens item)) tokens'"
        using Cons.IH [OF nb p True] by blast
      have "take_candidates P now (item # items) selected dropped tokens =
          Inr (selected @ (item # new), dropped @ out, tokens')"
        using None True Cons.prems(2) n(1) by (simp add: can_fit_nonneg)
      with second_pass_take [OF n(2) None] show ?thesis by blast
    qed
  qed
qed

subsection \<open>Selection\<close>

definition policy_ok :: "context_policy \<Rightarrow> bool" where
  "policy_ok P \<longleftrightarrow> 0 \<le> available_tokens (cp_budget P) \<and> distinct (cp_required P)"

lemma mset_candidates:
  "mset (map ci_id (sort_key candidate_key (filter (\<lambda>i. ci_id i \<notin> set req) items))) =
     filter_mset (\<lambda>x. x \<notin> set req) (mset (map ci_id items))"
  by (simp add: filter_mset_image_mset comp_def flip: mset_filter)

lemma mset_required_part:
  assumes "distinct ids" "distinct req" "set req \<subseteq> set ids"
  shows "filter_mset (\<lambda>x. x \<in> set req) (mset ids) = mset req"
proof -
  have "distinct (filter (\<lambda>x. x \<in> set req) ids)" using assms(1) by simp
  moreover have "set (filter (\<lambda>x. x \<in> set req) ids) = set req" using assms(3) by auto
  ultimately have "mset (filter (\<lambda>x. x \<in> set req) ids) = mset req"
    using assms(2) by (metis set_eq_iff_mset_eq_distinct)
  then show ?thesis by simp
qed

lemma select_context_spec:
  assumes ok: "items_ok items" "policy_ok P"
    and req: "take_required P now items (cp_required P) [] 0 = Inr (required, n0)"
  shows "\<exists>new out n. select_context P (Aware now) items =
       Inr \<lparr>sr_items = required @ new, sr_item_ids = cp_required P @ map ci_id new, sr_dropped = out,
            sr_tokens = n, sr_available = available_tokens (cp_budget P)\<rparr>
     \<and> map ci_id required = cp_required P
     \<and> (\<forall>i \<in> set (required @ new). i \<in> set items \<and> rejection_reason i P now = None)
     \<and> mset (cp_required P @ map ci_id new) + mset (map di_id out) = mset (map ci_id items)
     \<and> n = int (sum_list (map ci_tokens (required @ new)))
     \<and> n \<le> available_tokens (cp_budget P)
     \<and> (\<forall>d \<in> set out. \<exists>i \<in> set items. dropped_for P now n i d)"
proof -
  let ?av = "available_tokens (cp_budget P)"
  let ?cand = "sort_key candidate_key (filter (\<lambda>i. ci_id i \<notin> set (cp_required P)) items)"
  have r: "map ci_id required = cp_required P" "set required \<subseteq> set items"
    "\<forall>i \<in> set required. rejection_reason i P now = None"
    "n0 = int (sum_list (map ci_tokens required))" "n0 \<le> ?av"
    using take_required_Inr [OF req] ok(2) by (auto simp: policy_ok_def)
  have nb: "\<forall>i \<in> set ?cand. \<not> blank (ci_id i)" and n0: "0 \<le> n0"
    using ok(1) r(4) by (auto simp: items_ok_def item_wf_def)
  obtain new out n where c: "take_candidates P now ?cand required [] n0 = Inr (required @ new, out, n)"
    and s: "second_pass P now ?cand new out n0 n"
    using take_candidates_total [OF nb n0 r(5), of now required "[]"] by auto
  have sub: "set (cp_required P) \<subseteq> set (map ci_id items)" using r(1,2) by (metis image_mono set_map)
  have parts: "mset (map ci_id new) + mset (map di_id out) =
      filter_mset (\<lambda>x. x \<notin> set (cp_required P)) (mset (map ci_id items))"
    using s unfolding second_pass_def mset_candidates by simp
  have all: "mset (cp_required P @ map ci_id new) + mset (map di_id out) = mset (map ci_id items)"
    using parts mset_required_part [OF _ _ sub] ok multiset_partition
      [of "mset (map ci_id items)" "\<lambda>x. x \<in> set (cp_required P)"]
    by (simp add: items_ok_def policy_ok_def add.assoc)
  have dist: "distinct ((cp_required P @ map ci_id new) @ map di_id out)"
  proof -
    have "mset ((cp_required P @ map ci_id new) @ map di_id out) = mset (map ci_id items)"
      using all by (simp add: add.assoc)
    with ok(1) show ?thesis unfolding items_ok_def by (metis mset_eq_imp_distinct_iff)
  qed
  have n: "n = int (sum_list (map ci_tokens (required @ new)))" "n \<le> ?av" "0 \<le> n"
    using s r(4) by (auto simp: second_pass_def)
  have "new_selection_result (required @ new) (map ci_id (required @ new)) out n ?av =
      Inr \<lparr>sr_items = required @ new, sr_item_ids = cp_required P @ map ci_id new, sr_dropped = out,
            sr_tokens = n, sr_available = ?av\<rparr>"
    using n dist r(1) ok(2) by (auto simp: new_selection_result_def policy_ok_def)
  then have "select_context P (Aware now) items =
      Inr \<lparr>sr_items = required @ new, sr_item_ids = cp_required P @ map ci_id new, sr_dropped = out,
            sr_tokens = n, sr_available = ?av\<rparr>"
    using req c by (simp add: select_context_def require_aware_def)
  moreover have "\<forall>i \<in> set (required @ new). i \<in> set items \<and> rejection_reason i P now = None"
    using r(2,3) s by (auto simp: second_pass_def)
  moreover have "\<forall>d \<in> set out. \<exists>i \<in> set items. dropped_for P now n i d"
    using s by (fastforce simp: second_pass_def)
  ultimately show ?thesis using r(1) all n(1,2) by blast
qed

lemma take_required_perm:
  assumes "mset items = mset items'" "distinct (map ci_id items)"
  shows "take_required P now items iids selected n = take_required P now items' iids selected n"
  by (induction iids arbitrary: selected n)
    (auto simp: ctx_get_perm [OF assms] split: option.splits intro!: res_bind_cong)

lemma selection_sound_lemma:
  assumes "items_ok items" and "policy_ok P" and "select_context P (Aware now) items = Inr r"
  shows "(\<exists>rest. sr_item_ids r = cp_required P @ rest)
    \<and> (\<forall>i \<in> set (sr_items r). i \<in> set items \<and> rejection_reason i P now = None)
    \<and> sr_tokens r = int (sum_list (map ci_tokens (sr_items r)))
    \<and> sr_tokens r \<le> available_tokens (cp_budget P)
    \<and> mset (sr_item_ids r) + mset (map di_id (sr_dropped r)) = mset (map ci_id items)
    \<and> (\<forall>d \<in> set (sr_dropped r). \<exists>i \<in> set items. dropped_for P now (sr_tokens r) i d)"
proof -
  from assms(3) obtain required n0 where
    req: "take_required P now items (cp_required P) [] 0 = Inr (required, n0)"
    by (auto simp: select_context_def require_aware_def res_simps)
  from select_context_spec [OF assms(1,2) req] assms(3) show ?thesis by auto
qed

lemma rejection_reason_None:
  "rejection_reason i P now = None \<longleftrightarrow> \<not> is_expired i now \<and> ci_kind i \<in> set (cp_kinds P)
     \<and> ci_trust i \<in> set (cp_trusts P)
     \<and> (evidence_kind (ci_kind i) \<longrightarrow> (\<exists>d \<in> set (cp_domains P). ci_domain i = Some d))"
  by (cases "ci_domain i") (auto simp: rejection_reason_def)

lemma select_context_ids:
  "select_context P instant items = Inr r \<Longrightarrow> sr_item_ids r = map ci_id (sr_items r)"
  by (auto simp: select_context_def new_selection_result_def res_simps invalid_def Let_def
      split: if_splits)

text \<open>
  C12: What reaches a prompt is exactly what the policy of the node allows. The selection starts with
  the required items in the policy's order; every selected item is in the store, unexpired and of an
  allowed kind, trust level and evidence domain; the estimate is the exact sum and within the budget;
  every item of the store is either selected or dropped, once; a dropped item carries the reason why
  the policy refuses it, and one dropped for the budget would not fit into the final selection.
\<close>

theorem selection_sound:
  assumes "items_ok items" and "policy_ok P" and "select_context P (Aware now) items = Inr r"
  shows "(\<exists>rest. sr_item_ids r = cp_required P @ rest)
    \<and> (\<forall>i \<in> set (sr_items r). i \<in> set items \<and> \<not> is_expired i now \<and> ci_kind i \<in> set (cp_kinds P)
         \<and> ci_trust i \<in> set (cp_trusts P)
         \<and> (evidence_kind (ci_kind i) \<longrightarrow> (\<exists>d \<in> set (cp_domains P). ci_domain i = Some d)))
    \<and> sr_tokens r = int (sum_list (map ci_tokens (sr_items r)))
    \<and> sr_tokens r \<le> available_tokens (cp_budget P)
    \<and> mset (sr_item_ids r) + mset (map di_id (sr_dropped r)) = mset (map ci_id items)
    \<and> (\<forall>d \<in> set (sr_dropped r). \<exists>i \<in> set items. dropped_for P now (sr_tokens r) i d)"
  using selection_sound_lemma [OF assms] by (auto simp: rejection_reason_None)

definition demo_item :: "string \<Rightarrow> context_kind \<Rightarrow> context_source \<Rightarrow> trust_level \<Rightarrow> nat \<Rightarrow> context_item" where
  "demo_item iid kind source trust tokens =
     \<lparr>ci_id = lit iid, ci_kind = kind, ci_content = lit ''q'', ci_source = source, ci_trust = trust,
      ci_provenance = \<lparr>pv_producer = lit ''a'', pv_source_item_ids = [lit ''r1''],
        pv_request_id = lit ''r1'', pv_trace_id = None, pv_generated_at = 0\<rparr>,
      ci_created_at = 0, ci_expires_at = None, ci_tokens = tokens, ci_domain = None,
      ci_citations = [], ci_metadata = []\<rparr>"

definition demo_items :: context_items where
  "demo_items = [demo_item ''s'' ConversationMemory SrcExternal UntrustedExternal 50,
     demo_item ''q'' UserRequest SrcUser UntrustedUser 10,
     demo_item ''a'' StructuredSummary SrcAgent VerifiedInternal 95]"

definition demo_policy :: context_policy where
  "demo_policy = \<lparr>cp_node = ''router'', cp_kinds = [UserRequest, StructuredSummary, ConversationMemory],
     cp_trusts = [UntrustedUser, VerifiedInternal], cp_domains = [],
     cp_budget = \<lparr>max_tokens = 120, reserved_tokens = 20\<rparr>, cp_required = [lit ''q'']\<rparr>"

lemma not_space_letters2 [simp]: "\<not> blank (lit ''s'')" "\<not> blank (lit ''q'')" "\<not> blank (lit ''a'')"
  by (simp_all add: lit_def py_space_def)

lemma demo_items_ok: "items_ok demo_items" "policy_ok demo_policy"
  by (simp_all add: items_ok_def policy_ok_def demo_items_def demo_policy_def demo_item_def
      item_wf_def item_contract_def evidence_kind_def derived_kind_def available_tokens_def)

lemma demo_select:
  "select_context demo_policy (Aware 5) demo_items =
     Inr \<lparr>sr_items = [demo_item ''q'' UserRequest SrcUser UntrustedUser 10], sr_item_ids = [lit ''q''],
          sr_dropped = [\<lparr>di_id = lit ''a'', di_reason = TokenBudgetExceeded\<rparr>,
            \<lparr>di_id = lit ''s'', di_reason = TrustNotAllowed\<rparr>],
          sr_tokens = 10, sr_available = 100\<rparr>"
  by (simp add: select_context_def require_aware_def demo_items_def demo_policy_def demo_item_def
      ctx_get_def rejection_reason_def is_expired_def evidence_kind_def can_fit_def
      available_tokens_def candidate_key_def trust_priority_def new_dropped_item_def
      require_nonblank_def new_selection_result_def)

theorem selection_sound_witness:
  "mset [lit ''q''] + mset [lit ''a'', lit ''s''] = mset (map ci_id demo_items)
    \<and> dropped_for demo_policy 5 10 (demo_item ''a'' StructuredSummary SrcAgent VerifiedInternal 95)
        \<lparr>di_id = lit ''a'', di_reason = TokenBudgetExceeded\<rparr>"
  using selection_sound [OF demo_items_ok demo_select]
  by (auto simp: demo_items_def demo_item_def dropped_for_def)

text \<open>
  Selection fails only because of a required item, and then names it: it is missing from the
  store, or the policy refuses it for the reason given, or the required items alone exceed the
  budget. In every other case it returns a result; the consistency checks of the result model never
  fail.
\<close>

theorem selection_errors:
  assumes "items_ok items" and "policy_ok P"
  shows "case select_context P (Aware now) items of
      Inr r \<Rightarrow> set (cp_required P) \<subseteq> set (sr_item_ids r)
    | Inl e \<Rightarrow> (\<exists>iid \<in> set (cp_required P).
          (e = RequiredItemMissing (cp_node P) iid \<and> iid \<notin> ci_id ` set items)
        \<or> (\<exists>i reason. e = RequiredItemRejected (cp_node P) iid reason \<and> i \<in> set items
             \<and> ci_id i = iid \<and> rejection_reason i P now = Some reason)
        \<or> e = ContextBudgetExceeded (cp_node P) iid)"
proof (cases "take_required P now items (cp_required P) [] 0")
  case (Inl e)
  then have "select_context P (Aware now) items = Inl e"
    by (simp add: select_context_def require_aware_def)
  with take_required_Inl [OF Inl] show ?thesis by simp
next
  case (Inr x)
  then obtain required n0 where
    req: "take_required P now items (cp_required P) [] 0 = Inr (required, n0)" by (cases x) simp
  from select_context_spec [OF assms req] show ?thesis by auto
qed

theorem selection_errors_witness:
  "case select_context (demo_policy\<lparr>cp_required := [lit ''z'']\<rparr>) (Aware 5) demo_items of
      Inr r \<Rightarrow> False | Inl e \<Rightarrow> e = RequiredItemMissing ''router'' (lit ''z'')"
proof -
  have "policy_ok (demo_policy\<lparr>cp_required := [lit ''z'']\<rparr>)"
    by (simp add: policy_ok_def demo_policy_def available_tokens_def)
  from selection_errors [OF demo_items_ok(1) this, of 5] show ?thesis
    by (simp add: select_context_def require_aware_def demo_policy_def demo_items_def demo_item_def
        ctx_get_def split: sum.splits)
qed

text \<open>
  Selection is deterministic: the order in which items were added to the manager does not
  matter.
\<close>

theorem selection_order_independent:
  assumes "distinct (map ci_id items)" and "mset items' = mset items"
  shows "select_context P instant items' = select_context P instant items"
proof -
  have "inj_on candidate_key (set (filter (\<lambda>i. ci_id i \<notin> set (cp_required P)) items'))"
    using assms by (auto simp: candidate_key_def inj_on_def distinct_map
        dest!: mset_eq_setD [of items' items])
  then have "sort_key candidate_key (filter (\<lambda>i. ci_id i \<notin> set (cp_required P)) items') =
      sort_key candidate_key (filter (\<lambda>i. ci_id i \<notin> set (cp_required P)) items)"
    using assms(2) by (intro sort_key_perm_eq) (simp add: mset_filter)
  moreover have "take_required P now items' iids s n = take_required P now items iids s n" for now iids s n
    using take_required_perm [of items items'] assms by simp
  ultimately show ?thesis unfolding select_context_def by simp
qed

theorem selection_order_independent_witness:
  "select_context demo_policy (Aware 5) (rev demo_items) = select_context demo_policy (Aware 5) demo_items"
  using selection_order_independent [of demo_items "rev demo_items"] demo_items_ok(1)
  by (simp add: items_ok_def)

end
