(* ===== verification/ConversationMemoryView.thy ===== *)
theory ConversationMemoryView
  imports ContextModels MemoryStore
begin

section \<open>Context: conversation memory as bounded untrusted text\<close>

text \<open>
  \<^verbatim>\<open>context/conversation_memory.py\<close>. A session snapshot is rendered as tagged text in which every
  current evidence marker is rewritten, with the newest turns that fit a token allowance. The
  estimator is an argument, used through the locale \<open>token_estimator\<close>.
\<close>

subsection \<open>Evidence markers\<close>

text \<open>
  \<^verbatim>\<open>\[([DE])([1-9]\d*)\]\<close> at the start of a string: the text between the brackets and the rest. The
  greedy digit run is followed by the bracket or there is no match, since the bracket is no digit.
\<close>

definition marker_match :: "pystr \<Rightarrow> (pystr \<times> pystr) option" where
  "marker_match s = (case s of
     c # d # n # rest \<Rightarrow>
       (case dropWhile py_digit rest of
          e # rest' \<Rightarrow>
            if c = 91 \<and> (d = 68 \<or> d = 69) \<and> 49 \<le> n \<and> n \<le> 57 \<and> e = 93
            then Some (d # n # takeWhile py_digit rest, rest') else None
        | [] \<Rightarrow> None)
   | _ \<Rightarrow> None)"

lemma marker_match_length: "marker_match s = Some (b, r) \<Longrightarrow> length r < length s"
proof -
  assume m: "marker_match s = Some (b, r)"
  then obtain c d n rest e where s: "s = c # d # n # rest" and "dropWhile py_digit rest = e # r"
    by (auto simp: marker_match_def split: list.splits if_splits)
  then have "length r < length rest" by (metis Suc_le_eq length_Cons length_dropWhile_le)
  with s show ?thesis by simp
qed

fun has_memory_marker :: "pystr \<Rightarrow> bool" where
  "has_memory_marker [] = False"
| "has_memory_marker (c # s) = (marker_match (c # s) \<noteq> None \<or> has_memory_marker s)"

text \<open>\<^verbatim>\<open>re.sub\<close>: matches from left to right, the search resuming after each.\<close>

function neutralize :: "pystr \<Rightarrow> pystr" where
  "neutralize [] = []"
| "neutralize (c # s) =
     (case marker_match (c # s) of
        Some (body, rest) \<Rightarrow> lit ''[historical-'' @ body @ [93] @ neutralize rest
      | None \<Rightarrow> c # neutralize s)"
  by pat_completeness auto
termination
  by (relation "measure length") (auto dest: marker_match_length)

declare neutralize.simps(2) [simp del]

lemma py_digit_punct [simp]: "\<not> py_digit 91" "\<not> py_digit 93" "\<not> py_digit 10"
  by (simp_all add: py_digit_def py_digit_zeros_def)

lemma marker_match_other: "c \<noteq> 91 \<Longrightarrow> marker_match (c # s) = None"
  by (auto simp: marker_match_def split: list.splits)

lemma neutralize_other [simp]: "c \<noteq> 91 \<Longrightarrow> neutralize (c # s) = c # neutralize s"
  by (simp add: neutralize.simps(2) marker_match_other)

lemma neutralize_head: "\<exists>t. neutralize (c # s) = c # t"
  by (auto simp: neutralize.simps(2) lit_def marker_match_def split: option.splits list.splits
      if_splits)

lemma neutralize_Cons_D:
  assumes "neutralize s = d # t" "d \<noteq> 91"
  shows "\<exists>s'. s = d # s' \<and> t = neutralize s'"
proof (cases s)
  case (Cons c s')
  obtain t' where "neutralize (c # s') = c # t'" using neutralize_head by blast
  with Cons assms have "c = d" by simp
  with Cons assms show ?thesis by simp
qed (use assms in simp)

lemma dropWhile_neutralize: "dropWhile py_digit (neutralize s) = neutralize (dropWhile py_digit s)"
proof (induction s)
  case (Cons c s)
  show ?case
  proof (cases "py_digit c")
    case True
    then have "c \<noteq> 91" by auto
    with Cons True show ?thesis by simp
  next
    case False
    obtain t where "neutralize (c # s) = c # t" using neutralize_head by blast
    with False show ?thesis by simp
  qed
qed simp

lemma marker_match_neutralize:
  assumes "marker_match (c # s) = None"
  shows "marker_match (c # neutralize s) = None"
proof (rule ccontr)
  assume "marker_match (c # neutralize s) \<noteq> None"
  then obtain d n t e t' where m: "c = 91" "d = 68 \<or> d = 69" "49 \<le> n" "n \<le> 57" "e = 93"
    and s: "neutralize s = d # n # t" and t: "dropWhile py_digit t = e # t'"
    by (auto simp: marker_match_def split: list.splits if_splits)
  obtain s1 where s1: "s = d # s1" "n # t = neutralize s1"
    using neutralize_Cons_D [OF s] m(2) by auto
  obtain s2 where s2: "s1 = n # s2" "t = neutralize s2"
    using neutralize_Cons_D [of s1 n t] s1(2) m(4) by auto
  have "neutralize (dropWhile py_digit s2) = e # t'" using t s2(2) by (simp add: dropWhile_neutralize)
  then obtain s3 where "dropWhile py_digit s2 = e # s3" using neutralize_Cons_D m(5) by fastforce
  with m s1(1) s2(1) assms show False by (simp add: marker_match_def)
qed

lemma has_marker_prefix: "91 \<notin> set p \<Longrightarrow> has_memory_marker (p @ x) = has_memory_marker x"
  by (induction p) (auto simp: marker_match_other)

lemma has_marker_historical:
  "91 \<notin> set b \<Longrightarrow> has_memory_marker (lit ''[historical-'' @ b @ 93 # x) = has_memory_marker x"
proof -
  assume b: "91 \<notin> set b"
  have "lit ''[historical-'' @ b @ 93 # x = 91 # (lit ''historical-'' @ b @ [93]) @ x"
    by (simp add: lit_def)
  moreover have "marker_match (91 # (lit ''historical-'' @ b @ [93]) @ x) = None"
    by (simp add: marker_match_def lit_def split: list.splits)
  moreover have "91 \<notin> set (lit ''historical-'' @ b @ [93])" using b by (simp add: lit_def)
  ultimately show ?thesis
    using has_marker_prefix [of "lit ''historical-'' @ b @ [93]" x]
    by (metis has_memory_marker.simps(2))
qed

lemma bracket_not_digit [simp]: "91 \<notin> set (takeWhile py_digit r)"
  by (metis py_digit_punct(1) set_takeWhileD)

lemma marker_match_body: "marker_match s = Some (b, r) \<Longrightarrow> 91 \<notin> set b"
  by (auto simp: marker_match_def split: list.splits if_splits)

lemma neutralize_no_marker: "\<not> has_memory_marker (neutralize s)"
proof (induction s rule: neutralize.induct)
  case (2 c s)
  show ?case
  proof (cases "marker_match (c # s)")
    case None
    with 2 marker_match_neutralize [OF None] show ?thesis
      by (simp add: neutralize.simps(2))
  next
    case (Some br)
    obtain b r where br: "br = (b, r)" by fastforce
    with Some 2 have "\<not> has_memory_marker (neutralize r)" by simp
    with Some br marker_match_body [of "c # s" b r] show ?thesis
      by (simp add: neutralize.simps(2) has_marker_historical)
  qed
qed simp

subsection \<open>Markers never span a line\<close>

lemma marker_match_iff:
  "marker_match s \<noteq> None \<longleftrightarrow> (\<exists>d n rest r. s = 91 # d # n # rest \<and> (d = 68 \<or> d = 69) \<and> 49 \<le> n \<and> n \<le> 57
     \<and> dropWhile py_digit rest = 93 # r)"
  by (auto simp: marker_match_def simp del: dropWhile_eq_Nil_conv split: list.splits)

lemma dropWhile_digit_line:
  "(\<exists>u. dropWhile py_digit (r @ 10 # t) = 93 # u) \<longleftrightarrow> (\<exists>u. dropWhile py_digit r = 93 # u)"
  by (induction r) auto

lemma marker_match_line:
  "(marker_match ((c # s) @ 10 # t) \<noteq> None) = (marker_match (c # s) \<noteq> None)"
proof (cases s)
  case Nil
  then show ?thesis unfolding marker_match_iff by auto
next
  case (Cons d s1)
  then show ?thesis
  proof (cases s1)
    case Nil
    with Cons show ?thesis unfolding marker_match_iff by auto
  next
    case (Cons n s2)
    with \<open>s = d # s1\<close> dropWhile_digit_line [of s2 t] show ?thesis
      unfolding marker_match_iff by auto
  qed
qed

lemma has_marker_line:
  "has_memory_marker (s @ 10 # t) \<longleftrightarrow> has_memory_marker s \<or> has_memory_marker t"
proof (induction s)
  case Nil
  then show ?case by (simp add: marker_match_other)
next
  case (Cons c s)
  then show ?case using marker_match_line [of c s t] by auto
qed

lemma has_marker_join: "has_memory_marker (py_join [10] xs) \<longleftrightarrow> (\<exists>x \<in> set xs. has_memory_marker x)"
  by (induction xs) (auto simp: py_join_Cons has_marker_line)

subsection \<open>Rendering and projection\<close>

definition turn_sections :: "session_turn \<Rightarrow> pystr list" where
  "turn_sections t =
     [lit ''<HISTORICAL_TURN>'', lit ''<HISTORICAL_USER>'', neutralize (t_user_text t),
      lit ''</HISTORICAL_USER>'', lit ''<HISTORICAL_ASSISTANT>'', neutralize (t_assistant_text t),
      lit ''</HISTORICAL_ASSISTANT>'', lit ''</HISTORICAL_TURN>'']"

definition render_memory :: "pystr option \<Rightarrow> session_turn list \<Rightarrow> pystr" where
  "render_memory summary turns = py_join [10]
     ([lit ''<UNTRUSTED_CONVERSATION_MEMORY>'']
      @ (case summary of None \<Rightarrow> []
         | Some s \<Rightarrow> [lit ''<PREVIOUS_SUMMARY>'', s, lit ''</PREVIOUS_SUMMARY>''])
      @ concat (map turn_sections turns)
      @ [lit ''</UNTRUSTED_CONVERSATION_MEMORY>''])"

record memory_projection =
  mp_content :: pystr
  mp_tokens :: nat

definition new_memory_projection :: "pystr \<Rightarrow> nat \<Rightarrow> ctx_error + memory_projection" where
  "new_memory_projection content tokens =
     (if content = [] \<or> 20000 < length content then invalid ''content''
      else if has_memory_marker content
        then invalid ''conversation memory cannot contain current evidence markers''
      else if tokens < 1 then invalid ''estimated_tokens''
      else Inr \<lparr>mp_content = content, mp_tokens = tokens\<rparr>)"

record memory_projector =
  pr_estimate :: "pystr \<Rightarrow> nat"
  pr_allowance :: nat

definition new_memory_projector :: "(pystr \<Rightarrow> nat) \<Rightarrow> int \<Rightarrow> ctx_error + memory_projector" where
  "new_memory_projector estimate allowance =
     (if allowance \<le> 0 then invalid ''token_allowance must be positive''
      else Inr \<lparr>pr_estimate = estimate, pr_allowance = nat allowance\<rparr>)"

definition memory_fits :: "memory_projector \<Rightarrow> pystr option \<Rightarrow> session_turn list \<Rightarrow> bool" where
  "memory_fits pr summary turns \<longleftrightarrow> pr_estimate pr (render_memory summary turns) \<le> pr_allowance pr"

text \<open>The loop over the turns from the newest back; \<open>None\<close> when not even one turn fits alone.\<close>

fun select_newest ::
  "memory_projector \<Rightarrow> pystr option \<Rightarrow> session_turn list \<Rightarrow> session_turn list \<Rightarrow> session_turn list option" where
  "select_newest pr summary [] selected = Some selected"
| "select_newest pr summary (t # ts) selected =
     (if \<not> memory_fits pr summary (t # selected)
      then (if selected = [] \<and> summary = None then None else Some selected)
      else select_newest pr summary ts (t # selected))"

definition project_memory ::
  "memory_projector \<Rightarrow> session_snapshot \<Rightarrow> ctx_error + memory_projection option" where
  "project_memory pr snapshot =
     (if sn_summary snapshot = None \<and> sn_turns snapshot = [] then Inr None
      else let summary = map_option (\<lambda>s. neutralize (s_summary_text s)) (sn_summary snapshot)
        in if summary \<noteq> None \<and> \<not> memory_fits pr summary [] then Inr None
           else case select_newest pr summary (rev (sn_turns snapshot)) [] of
               None \<Rightarrow> Inr None
             | Some turns \<Rightarrow>
                 (let content = render_memory summary turns; tokens = pr_estimate pr content
                  in if pr_allowance pr < tokens then Inr None
                     else res_bind (new_memory_projection content tokens) (\<lambda>p. Inr (Some p))))"

subsection \<open>What the loop keeps\<close>

lemma has_marker_tag [simp]:
  "91 \<notin> set s \<Longrightarrow> \<not> has_memory_marker s"
  using has_marker_prefix [of s "[]"] by simp

lemma lit_bracket: "91 \<in> set (lit s) \<longleftrightarrow> CHR ''['' \<in> set s"
proof -
  have "of_char c = (91 :: nat) \<longleftrightarrow> c = CHR ''[''" for c
    using of_char_eq_iff [of c "CHR ''[''", where ?'a = nat] by simp
  then show ?thesis unfolding lit_def set_map by (metis (no_types, lifting) image_iff)
qed

lemma tag_no_marker: "CHR ''['' \<notin> set s \<Longrightarrow> \<not> has_memory_marker (lit s)"
  by (rule has_marker_tag) (simp only: lit_bracket not_False_eq_True)

lemma turn_sections_no_marker: "x \<in> set (turn_sections t) \<Longrightarrow> \<not> has_memory_marker x"
  by (auto simp: turn_sections_def neutralize_no_marker tag_no_marker)

lemma render_memory_no_marker:
  assumes "\<And>s. summary = Some s \<Longrightarrow> \<not> has_memory_marker s"
  shows "\<not> has_memory_marker (render_memory summary turns)"
proof -
  have tags: "\<not> has_memory_marker (lit ''<UNTRUSTED_CONVERSATION_MEMORY>'')"
    "\<not> has_memory_marker (lit ''</UNTRUSTED_CONVERSATION_MEMORY>'')"
    "\<not> has_memory_marker (lit ''<PREVIOUS_SUMMARY>'')"
    "\<not> has_memory_marker (lit ''</PREVIOUS_SUMMARY>'')"
    by (simp_all add: tag_no_marker)
  with assms show ?thesis
    unfolding render_memory_def has_marker_join
    by (auto dest: turn_sections_no_marker split: option.splits)
qed

lemma subseq_py_join: "subseq xs ys \<Longrightarrow> subseq (py_join sep xs) (py_join sep ys)"
proof (induction rule: list_emb.induct)
  case (list_emb_Cons xs ys y)
  then show ?case
  proof (cases "ys = []")
    case True
    with list_emb_Cons.hyps have "xs = []" using list_emb_Nil2 by blast
    then show ?thesis by simp
  qed (simp add: py_join_Cons subseq_drop_many)
next
  case (list_emb_Cons2 x y xs ys)
  then show ?case
    by (cases "xs = []"; cases "ys = []") (auto simp: py_join_Cons intro: list_emb_append_mono)
qed simp

lemma render_memory_mono: "subseq (render_memory summary ts) (render_memory summary (us @ ts))"
  unfolding render_memory_def
  by (intro subseq_py_join list_emb_append_mono) (auto simp: subseq_drop_many)

lemma render_memory_ne [simp]: "render_memory summary ts \<noteq> []"
  by (simp add: render_memory_def py_join_Cons)

lemma select_newest_Some:
  assumes "select_newest pr summary ts selected = Some out"
  shows "\<exists>us vs. ts = us @ vs \<and> out = rev us @ selected
     \<and> (us \<noteq> [] \<longrightarrow> memory_fits pr summary out)
     \<and> (case vs of [] \<Rightarrow> True | v # _ \<Rightarrow> \<not> memory_fits pr summary (v # out))"
  using assms
proof (induction ts arbitrary: selected)
  case (Cons t ts)
  show ?case
  proof (cases "memory_fits pr summary (t # selected)")
    case True
    with Cons.prems have s: "select_newest pr summary ts (t # selected) = Some out" by simp
    obtain us vs where u: "ts = us @ vs" "out = rev us @ t # selected"
      "us \<noteq> [] \<longrightarrow> memory_fits pr summary out"
      "case vs of [] \<Rightarrow> True | v # _ \<Rightarrow> \<not> memory_fits pr summary (v # out)"
      using Cons.IH [OF s] by blast
    have "memory_fits pr summary out" using u(2,3) True by (cases "us = []") auto
    with u show ?thesis by (intro exI [of _ "t # us"] exI [of _ vs]) auto
  next
    case False
    with Cons.prems have "out = selected" by (auto split: if_splits)
    with False show ?thesis by (intro exI [of _ "[]"] exI [of _ "t # ts"]) auto
  qed
qed auto

lemma select_newest_None:
  "select_newest pr summary ts selected = None \<Longrightarrow>
     selected = [] \<and> summary = None \<and> ts \<noteq> [] \<and> \<not> memory_fits pr summary [hd ts]"
proof (induction ts arbitrary: selected)
  case (Cons t ts)
  then show ?case by (auto split: if_splits)
qed simp

definition neutral_summary :: "session_snapshot \<Rightarrow> pystr option" where
  "neutral_summary s = map_option (\<lambda>u. neutralize (s_summary_text u)) (sn_summary s)"

lemma neutral_summary_no_marker: "neutral_summary s = Some x \<Longrightarrow> \<not> has_memory_marker x"
  by (auto simp: neutral_summary_def neutralize_no_marker)

context token_estimator
begin

lemma fits_suffix:
  assumes "pr_estimate pr = estimate" "memory_fits pr summary (us @ ts)"
  shows "memory_fits pr summary ts"
  using assms fits_downward [OF render_memory_mono] by (auto simp: memory_fits_def)

lemma no_longer_suffix:
  assumes "pr_estimate pr = estimate" "\<not> memory_fits pr summary (v # out)" "us \<noteq> []" "last us = v"
  shows "\<not> memory_fits pr summary (us @ out)"
proof
  assume "memory_fits pr summary (us @ out)"
  moreover have "us @ out = butlast us @ v # out" using assms(3,4) by (metis append_butlast_last_id append.assoc append_Cons append_Nil)
  ultimately show False using fits_suffix [OF assms(1)] assms(2) by metis
qed

text \<open>
  The projection of a snapshot: the newest turns that fit, and no longer suffix fits; nothing when
  nothing fits; an error only for a rendering that fits the allowance but not 20,000 characters.
\<close>

lemma projection_spec:
  assumes est: "pr_estimate pr = estimate"
  shows "case project_memory pr snapshot of
      Inl e \<Rightarrow> \<exists>ts. 20000 < length (render_memory (neutral_summary snapshot) ts)
          \<and> memory_fits pr (neutral_summary snapshot) ts
    | Inr None \<Rightarrow> \<forall>ts. suffix ts (sn_turns snapshot) \<longrightarrow> ts \<noteq> [] \<or> neutral_summary snapshot \<noteq> None \<longrightarrow>
          \<not> memory_fits pr (neutral_summary snapshot) ts
    | Inr (Some p) \<Rightarrow> \<exists>older newer. sn_turns snapshot = older @ newer
          \<and> p = \<lparr>mp_content = render_memory (neutral_summary snapshot) newer,
                 mp_tokens = estimate (render_memory (neutral_summary snapshot) newer)\<rparr>
          \<and> mp_tokens p \<le> pr_allowance pr \<and> \<not> has_memory_marker (mp_content p)
          \<and> (\<forall>us. us \<noteq> [] \<longrightarrow> suffix us older \<longrightarrow>
               \<not> memory_fits pr (neutral_summary snapshot) (us @ newer))"
proof -
  let ?S = "neutral_summary snapshot"
  let ?turns = "sn_turns snapshot"
  have S: "map_option (\<lambda>s. neutralize (s_summary_text s)) (sn_summary snapshot) = ?S"
    by (simp add: neutral_summary_def)
  have Snone: "sn_summary snapshot = None \<longleftrightarrow> ?S = None" by (simp add: neutral_summary_def)
  consider "?S = None" "?turns = []" | "?S \<noteq> None" "\<not> memory_fits pr ?S []"
    | "?S = None \<longrightarrow> ?turns \<noteq> []" "?S \<noteq> None \<longrightarrow> memory_fits pr ?S []" by metis
  then show ?thesis
  proof cases
    case 1
    then have "project_memory pr snapshot = Inr None" by (simp add: project_memory_def Snone)
    with 1 show ?thesis by simp
  next
    case 2
    then have "project_memory pr snapshot = Inr None"
      by (simp add: project_memory_def Let_def S Snone)
    moreover have "\<not> memory_fits pr ?S ts" for ts
      using fits_suffix [OF est, of ?S ts "[]"] 2(2) by auto
    ultimately show ?thesis by simp
  next
    case 3
    have unfold: "project_memory pr snapshot = (case select_newest pr ?S (rev ?turns) [] of
        None \<Rightarrow> Inr None
      | Some turns \<Rightarrow> (let content = render_memory ?S turns; tokens = pr_estimate pr content
          in if pr_allowance pr < tokens then Inr None
             else res_bind (new_memory_projection content tokens) (\<lambda>p. Inr (Some p))))"
      using 3 unfolding project_memory_def S Let_def by (auto simp: Snone)
    show ?thesis
    proof (cases "select_newest pr ?S (rev ?turns) []")
      case None
      from select_newest_None [OF None] have n: "?S = None" "?turns \<noteq> []"
        "\<not> memory_fits pr ?S [last ?turns]" by (auto simp: hd_rev)
      have "\<not> memory_fits pr ?S ts" if "suffix ts ?turns" "ts \<noteq> []" for ts
      proof
        assume f: "memory_fits pr ?S ts"
        have "last ts = last ?turns" using that by (auto simp: suffix_def)
        then have "ts = butlast ts @ [last ?turns]" using that(2) by (metis append_butlast_last_id)
        with f fits_suffix [OF est] n(3) show False by metis
      qed
      with None unfold n(1) show ?thesis by simp
    next
      case (Some out)
      obtain us vs where uv: "rev ?turns = us @ vs" "out = rev us"
        "us \<noteq> [] \<longrightarrow> memory_fits pr ?S out"
        "case vs of [] \<Rightarrow> True | v # _ \<Rightarrow> \<not> memory_fits pr ?S (v # out)"
        using select_newest_Some [OF Some] by auto
      have turns: "?turns = rev vs @ out" using uv(1,2) by (metis rev_append rev_rev_ident)
      have fit: "memory_fits pr ?S out"
      proof (cases "us = []")
        case True
        with Some uv 3 show ?thesis
          by (cases "rev ?turns") (auto split: if_splits dest: select_newest_Some)
      qed (use uv in simp)
      have max: "\<not> memory_fits pr ?S (ws @ out)" if "ws \<noteq> []" "suffix ws (rev vs)" for ws
      proof -
        from that obtain v vs' where v: "vs = v # vs'" by (cases vs) auto
        with that have "last ws = v" by (auto simp: suffix_def) (metis last_appendR last_snoc)
        with no_longer_suffix [OF est _ that(1)] uv(4) v show ?thesis by simp
      qed
      have nm: "\<not> has_memory_marker (render_memory ?S out)"
        by (rule render_memory_no_marker) (rule neutral_summary_no_marker)
      have pos: "0 < estimate (render_memory ?S out)" by (simp add: estimate_pos)
      show ?thesis
      proof (cases "20000 < length (render_memory ?S out)")
        case True
        with Some unfold fit est show ?thesis
          by (auto simp: Let_def memory_fits_def new_memory_projection_def invalid_def)
      next
        case False
        with Some unfold fit est nm pos have "project_memory pr snapshot =
            Inr (Some \<lparr>mp_content = render_memory ?S out, mp_tokens = estimate (render_memory ?S out)\<rparr>)"
          by (simp add: Let_def memory_fits_def new_memory_projection_def)
        with turns max fit nm est show ?thesis by (auto simp: memory_fits_def)
      qed
    qed
  qed
qed

end

text \<open>
  Under the conservative estimator and any allowance up to 5,000 tokens, which covers the default
  of 1,800, projecting a session never raises: the text is at most 20,000 characters. It contains no
  current evidence marker, whatever the session says, it costs at most the allowance, it shows the
  rewritten summary and the longest suffix of newest turns that fits; and it is absent only if no
  text of the session fits.
\<close>

theorem memory_projection_bounded:
  assumes "pr = \<lparr>pr_estimate = estimate_tokens, pr_allowance = n\<rparr>" and "n \<le> 5000"
  shows "case project_memory pr snapshot of
      Inl e \<Rightarrow> False
    | Inr None \<Rightarrow> \<forall>ts. suffix ts (sn_turns snapshot) \<longrightarrow> ts \<noteq> [] \<or> neutral_summary snapshot \<noteq> None \<longrightarrow>
          n < estimate_tokens (render_memory (neutral_summary snapshot) ts)
    | Inr (Some p) \<Rightarrow> length (mp_content p) \<le> 20000 \<and> \<not> has_memory_marker (mp_content p)
        \<and> mp_tokens p = estimate_tokens (mp_content p) \<and> mp_tokens p \<le> n
        \<and> (\<exists>older newer. sn_turns snapshot = older @ newer
          \<and> mp_content p = render_memory (neutral_summary snapshot) newer
          \<and> (\<forall>us. us \<noteq> [] \<longrightarrow> suffix us older \<longrightarrow>
               n < estimate_tokens (render_memory (neutral_summary snapshot) (us @ newer))))"
proof -
  have fits: "memory_fits pr S ts \<longleftrightarrow> estimate_tokens (render_memory S ts) \<le> n" for S ts
    using assms(1) by (simp add: memory_fits_def)
  have short: "length s \<le> 20000" if "estimate_tokens s \<le> n" for s
    using length_le_estimate [of s] that assms(2) by linarith
  have spec: "pr_estimate pr = estimate_tokens" "pr_allowance pr = n" using assms(1) by simp_all
  note ps = conservative.projection_spec [OF spec(1), of snapshot, unfolded fits spec(2) not_le]
  show ?thesis
  proof (cases "project_memory pr snapshot")
    case (Inl e)
    with ps show ?thesis by (auto dest: short)
  next
    case (Inr r)
    show ?thesis
    proof (cases r)
      case None
      with Inr ps show ?thesis by simp
    next
      case (Some p)
      with Inr ps obtain older newer where p: "sn_turns snapshot = older @ newer"
        "p = \<lparr>mp_content = render_memory (neutral_summary snapshot) newer,
           mp_tokens = estimate_tokens (render_memory (neutral_summary snapshot) newer)\<rparr>"
        "mp_tokens p \<le> n" "\<not> has_memory_marker (mp_content p)"
        "\<forall>us. us \<noteq> [] \<longrightarrow> suffix us older \<longrightarrow>
           n < estimate_tokens (render_memory (neutral_summary snapshot) (us @ newer))"
        by auto
      then have "length (mp_content p) \<le> 20000" using short by simp
      with Inr Some p show ?thesis by (simp, blast)
    qed
  qed
qed

theorem memory_projection_bounded_witness:
  "\<forall>p. project_memory \<lparr>pr_estimate = estimate_tokens, pr_allowance = 1800\<rparr>
      \<lparr>sn_session_id = [], sn_version = 1, sn_turns = [\<lparr>t_session_id = [], t_turn_id = [],
         t_request_id = [], t_user_text = lit ''See [D1]'', t_assistant_text = [65],
         t_created_at = 0\<rparr>], sn_summary = None, sn_expires_at = None\<rparr> \<noteq> Inl p"
  using memory_projection_bounded [OF refl, of 1800 "\<lparr>sn_session_id = [], sn_version = 1,
      sn_turns = [\<lparr>t_session_id = [], t_turn_id = [], t_request_id = [],
        t_user_text = lit ''See [D1]'', t_assistant_text = [65], t_created_at = 0\<rparr>],
      sn_summary = None, sn_expires_at = None\<rparr>"]
  by (auto split: sum.splits)

end
