(* ===== verification/ContextRuntime.thy ===== *)
theory ContextRuntime
  imports ContextManager ConversationMemoryView
begin

section \<open>Context: per-node policies and the request runtime\<close>

text \<open>
  \<^verbatim>\<open>context/policies.py\<close> and \<^verbatim>\<open>context/runtime.py\<close>: the fixed allowlist of every workflow node, the
  store of one request with the operations that add classified items to it, the selection for each
  node and the typed projections of a selection. Parsing of JSON text and of a router decision are
  arguments.
\<close>

subsection \<open>Policies\<close>

record budget_config =
  bc_router :: token_budget
  bc_coordinator :: token_budget
  bc_knowledge :: token_budget
  bc_data :: token_budget
  bc_mixed :: token_budget

definition default_budget_config :: budget_config where
  "default_budget_config =
     \<lparr>bc_router = \<lparr>max_tokens = 2400, reserved_tokens = 600\<rparr>,
      bc_coordinator = \<lparr>max_tokens = 2400, reserved_tokens = 400\<rparr>,
      bc_knowledge = \<lparr>max_tokens = 4800, reserved_tokens = 1200\<rparr>,
      bc_data = \<lparr>max_tokens = 4800, reserved_tokens = 1200\<rparr>,
      bc_mixed = \<lparr>max_tokens = 6400, reserved_tokens = 1600\<rparr>\<rparr>"

definition router_policy :: "pystr \<Rightarrow> pystr \<Rightarrow> budget_config \<Rightarrow> ctx_error + context_policy" where
  "router_policy user instruction B = new_context_policy ''router''
     [SystemInstruction, UserRequest, StructuredSummary, ConversationMemory]
     [TrustedSystem, VerifiedInternal, UntrustedUser, UntrustedExternal]
     [] (bc_router B) [user, instruction]"

definition coordinator_policy :: "pystr \<Rightarrow> pystr \<Rightarrow> budget_config \<Rightarrow> ctx_error + context_policy" where
  "coordinator_policy user decision B = new_context_policy ''coordinator''
     [SystemInstruction, UserRequest, RouterDecision, StructuredSummary]
     [TrustedSystem, VerifiedInternal, UntrustedUser]
     [] (bc_coordinator B) [user, decision]"

definition knowledge_policy :: "pystr \<Rightarrow> pystr \<Rightarrow> budget_config \<Rightarrow> ctx_error + context_policy" where
  "knowledge_policy user instruction B = new_context_policy ''knowledge''
     [SystemInstruction, UserRequest, SkillInstruction, KnowledgeEvidence, StructuredSummary,
      ConversationMemory]
     [TrustedSystem, VerifiedInternal, UntrustedUser, UntrustedExternal]
     [Knowledge] (bc_knowledge B) [user, instruction]"

definition data_policy :: "pystr \<Rightarrow> pystr \<Rightarrow> budget_config \<Rightarrow> ctx_error + context_policy" where
  "data_policy user instruction B = new_context_policy ''data''
     [SystemInstruction, UserRequest, SkillInstruction, ToolResult, DataEvidence, StructuredSummary,
      ConversationMemory]
     [TrustedSystem, VerifiedInternal, TrustedToolResult, UntrustedUser, UntrustedExternal]
     [Data] (bc_data B) [user, instruction]"

definition mixed_synthesis_policy ::
  "pystr \<Rightarrow> pystr \<Rightarrow> pystr \<Rightarrow> budget_config \<Rightarrow> ctx_error + context_policy" where
  "mixed_synthesis_policy user data_summary knowledge_summary B = new_context_policy ''mixed_synthesis''
     [SystemInstruction, UserRequest, StructuredSummary, KnowledgeEvidence, DataEvidence]
     [TrustedSystem, VerifiedInternal, UntrustedUser]
     [Knowledge, Data] (bc_mixed B) [user, data_summary, knowledge_summary]"

subsection \<open>The runtime of one request\<close>

record context_diagnostic =
  dg_node :: string
  dg_selected :: "pystr list"
  dg_dropped :: "(pystr \<times> drop_reason) list"
  dg_tokens :: int
  dg_available :: int

record request_runtime =
  rt_request_id :: pystr
  rt_created_at :: int
  rt_estimate :: "pystr \<Rightarrow> nat"
  rt_budgets :: budget_config
  rt_items :: context_items
  rt_diagnostics :: "context_diagnostic list"

definition new_request_runtime ::
  "pystr \<Rightarrow> pytime \<Rightarrow> (pystr \<Rightarrow> nat) \<Rightarrow> budget_config \<Rightarrow> ctx_error + request_runtime" where
  "new_request_runtime request_id created estimate B =
     (if blank request_id then invalid ''request_id must be non-empty''
      else res_bind (require_aware created ''created_at must be timezone-aware'') (\<lambda>created.
        Inr \<lparr>rt_request_id = request_id, rt_created_at = created, rt_estimate = estimate,
             rt_budgets = B, rt_items = [], rt_diagnostics = []\<rparr>))"

definition rt_add :: "context_item \<Rightarrow> request_runtime \<Rightarrow> ctx_error + (context_item \<times> request_runtime)" where
  "rt_add item rt = res_bind (ctx_add item (rt_items rt)) (\<lambda>items. Inr (item, rt\<lparr>rt_items := items\<rparr>))"

definition rt_add_item ::
  "pystr \<Rightarrow> context_kind \<Rightarrow> pystr \<Rightarrow> context_source \<Rightarrow> trust_level \<Rightarrow> pystr list
     \<Rightarrow> evidence_domain option \<Rightarrow> pystr list \<Rightarrow> request_runtime
     \<Rightarrow> ctx_error + (context_item \<times> request_runtime)" where
  "rt_add_item label kind content source trust sources domain citations rt =
     res_bind (new_provenance (lit ''context-runtime'') sources (rt_request_id rt) None
       (Aware (rt_created_at rt))) (\<lambda>prov.
     res_bind (new_context_item (rt_request_id rt @ [58] @ label) kind content source trust prov
       (Aware (rt_created_at rt)) None (rt_estimate rt content) domain citations []) (\<lambda>item.
     rt_add item rt))"

definition rt_user_request :: "pystr \<Rightarrow> request_runtime \<Rightarrow> ctx_error + (context_item \<times> request_runtime)" where
  "rt_user_request content = rt_add_item (lit ''user-request'') UserRequest content SrcUser
     UntrustedUser [] None []"

definition rt_add_conversation_memory ::
  "memory_projection \<Rightarrow> request_runtime \<Rightarrow> ctx_error + (context_item \<times> request_runtime)" where
  "rt_add_conversation_memory p = rt_add_item (lit ''conversation-memory'') ConversationMemory
     (mp_content p) SrcExternal UntrustedExternal [lit ''session-memory-projection''] None []"

definition rt_system_instruction ::
  "pystr \<Rightarrow> pystr \<Rightarrow> request_runtime \<Rightarrow> ctx_error + (context_item \<times> request_runtime)" where
  "rt_system_instruction label content =
     rt_add_item label SystemInstruction content SrcSystem TrustedSystem [] None []"

text \<open>\<open>decision\<close> is the JSON text of a validated router decision.\<close>

definition rt_router_decision ::
  "pystr \<Rightarrow> pystr \<Rightarrow> request_runtime \<Rightarrow> ctx_error + (context_item \<times> request_runtime)" where
  "rt_router_decision decision source =
     rt_add_item (lit ''router-decision'') RouterDecision decision SrcRouter VerifiedInternal [source]
       None []"

definition rt_skill_instruction ::
  "pystr \<Rightarrow> pystr \<Rightarrow> pystr \<Rightarrow> request_runtime \<Rightarrow> ctx_error + (context_item \<times> request_runtime)" where
  "rt_skill_instruction label content source =
     rt_add_item label SkillInstruction content SrcSkill VerifiedInternal [source] None []"

definition rt_verified_summary ::
  "pystr \<Rightarrow> pystr \<Rightarrow> pystr list \<Rightarrow> request_runtime \<Rightarrow> ctx_error + (context_item \<times> request_runtime)" where
  "rt_verified_summary label content sources =
     rt_add_item label StructuredSummary content SrcAgent VerifiedInternal sources None []"

definition rt_verified_answer_summary ::
  "(json \<Rightarrow> pystr) \<Rightarrow> pystr \<Rightarrow> pystr \<Rightarrow> pystr \<Rightarrow> pystr list \<Rightarrow> pystr list \<Rightarrow> request_runtime
     \<Rightarrow> ctx_error + (context_item \<times> request_runtime)" where
  "rt_verified_answer_summary dump label answer subquery citations sources =
     rt_verified_summary label (dump (JObj [(lit ''answer'', JStr answer),
       (lit ''subquery'', JStr subquery), (lit ''citations'', JList (map JStr citations))])) sources"

definition rt_evidence ::
  "pystr \<Rightarrow> pystr \<Rightarrow> evidence_domain \<Rightarrow> pystr list \<Rightarrow> pystr list \<Rightarrow> request_runtime
     \<Rightarrow> ctx_error + (context_item \<times> request_runtime)" where
  "rt_evidence label content domain citations sources =
     rt_add_item label (if domain = Knowledge then KnowledgeEvidence else DataEvidence) content
       SrcAgent VerifiedInternal sources (Some domain) citations"

definition rt_select ::
  "ctx_error + context_policy \<Rightarrow> pytime \<Rightarrow> request_runtime \<Rightarrow> ctx_error + (selection_result \<times> request_runtime)" where
  "rt_select policy instant rt =
     res_bind policy (\<lambda>P. res_bind (select_context P instant (rt_items rt)) (\<lambda>r.
       Inr (r, rt\<lparr>rt_diagnostics := rt_diagnostics rt @
         [\<lparr>dg_node = cp_node P, dg_selected = sr_item_ids r,
           dg_dropped = map (\<lambda>d. (di_id d, di_reason d)) (sr_dropped r),
           dg_tokens = sr_tokens r, dg_available = sr_available r\<rparr>]\<rparr>)))"

definition select_for_router ::
  "context_item \<Rightarrow> context_item \<Rightarrow> pytime \<Rightarrow> request_runtime \<Rightarrow> ctx_error + (selection_result \<times> request_runtime)" where
  "select_for_router user instruction instant rt =
     rt_select (router_policy (ci_id user) (ci_id instruction) (rt_budgets rt)) instant rt"

definition select_for_coordinator ::
  "context_item \<Rightarrow> context_item \<Rightarrow> pytime \<Rightarrow> request_runtime \<Rightarrow> ctx_error + (selection_result \<times> request_runtime)" where
  "select_for_coordinator user decision instant rt =
     rt_select (coordinator_policy (ci_id user) (ci_id decision) (rt_budgets rt)) instant rt"

definition select_for_knowledge ::
  "context_item \<Rightarrow> context_item \<Rightarrow> pytime \<Rightarrow> request_runtime \<Rightarrow> ctx_error + (selection_result \<times> request_runtime)" where
  "select_for_knowledge user instruction instant rt =
     rt_select (knowledge_policy (ci_id user) (ci_id instruction) (rt_budgets rt)) instant rt"

definition select_for_data ::
  "context_item \<Rightarrow> context_item \<Rightarrow> pytime \<Rightarrow> request_runtime \<Rightarrow> ctx_error + (selection_result \<times> request_runtime)" where
  "select_for_data user instruction instant rt =
     rt_select (data_policy (ci_id user) (ci_id instruction) (rt_budgets rt)) instant rt"

definition select_for_mixed_synthesis ::
  "context_item \<Rightarrow> context_item \<Rightarrow> context_item \<Rightarrow> pytime \<Rightarrow> request_runtime
     \<Rightarrow> ctx_error + (selection_result \<times> request_runtime)" where
  "select_for_mixed_synthesis user data_summary knowledge_summary instant rt =
     rt_select (mixed_synthesis_policy (ci_id user) (ci_id data_summary) (ci_id knowledge_summary)
       (rt_budgets rt)) instant rt"

subsection \<open>Projections of a selection\<close>

definition project_require ::
  "context_item list \<Rightarrow> pystr \<Rightarrow> context_kind \<Rightarrow> ctx_error + context_item" where
  "project_require items iid kind =
     (case filter (\<lambda>i. ci_id i = iid) items of
        [i] \<Rightarrow> if ci_kind i = kind then Inr i
               else Inl (ProjectionError ''selected required context item is invalid'')
      | _ \<Rightarrow> Inl (ProjectionError ''selected required context item is invalid''))"

definition project_optional_memory :: "context_item list \<Rightarrow> ctx_error + pystr option" where
  "project_optional_memory items =
     (case filter (\<lambda>i. ci_kind i = ConversationMemory) items of
        [] \<Rightarrow> Inr None
      | [i] \<Rightarrow> Inr (Some (ci_content i))
      | _ \<Rightarrow> Inl (ProjectionError ''selected conversation memory is invalid''))"

definition project_user_request :: "selection_result \<Rightarrow> pystr \<Rightarrow> ctx_error + pystr" where
  "project_user_request r user =
     res_bind (project_require (sr_items r) user UserRequest) (\<lambda>i. Inr (ci_content i))"

definition project_router :: "selection_result \<Rightarrow> pystr \<Rightarrow> ctx_error + (pystr \<times> pystr option)" where
  "project_router r user =
     res_bind (project_require (sr_items r) user UserRequest) (\<lambda>u.
     res_bind (project_optional_memory (sr_items r)) (\<lambda>m. Inr (ci_content u, m)))"

definition project_coordinator ::
  "(pystr \<Rightarrow> 'd option) \<Rightarrow> selection_result \<Rightarrow> pystr \<Rightarrow> pystr \<Rightarrow> ctx_error + (pystr \<times> 'd)" where
  "project_coordinator parse_decision r user decision =
     res_bind (project_require (sr_items r) user UserRequest) (\<lambda>u.
     res_bind (project_require (sr_items r) decision RouterDecision) (\<lambda>d.
     case parse_decision (ci_content d) of
       None \<Rightarrow> Inl (ProjectionError ''selected router decision is invalid'')
     | Some parsed \<Rightarrow> Inr (ci_content u, parsed)))"

record skill_context =
  sk_user_request :: pystr
  sk_instruction :: pystr
  sk_memory :: "pystr option"

definition project_skill :: "selection_result \<Rightarrow> pystr \<Rightarrow> pystr \<Rightarrow> ctx_error + skill_context" where
  "project_skill r user instruction =
     res_bind (project_require (sr_items r) user UserRequest) (\<lambda>u.
     res_bind (project_require (sr_items r) instruction SkillInstruction) (\<lambda>i.
     res_bind (project_optional_memory (sr_items r)) (\<lambda>m.
     Inr \<lparr>sk_user_request = ci_content u, sk_instruction = ci_content i, sk_memory = m\<rparr>)))"

record answer_summary =
  as_answer :: pystr
  as_subquery :: pystr
  as_citations :: "pystr list"

definition citation_shape :: "evidence_domain \<Rightarrow> json \<Rightarrow> bool" where
  "citation_shape domain v = (case v of
     JStr s \<Rightarrow> prefix (if domain = Data then [91, 68] else [91, 69]) s \<and> suffix [93] s
   | _ \<Rightarrow> False)"

definition json_text :: "json \<Rightarrow> pystr" where
  "json_text v = (case v of JStr s \<Rightarrow> s | _ \<Rightarrow> [])"

definition project_summary ::
  "(pystr \<Rightarrow> json option) \<Rightarrow> context_item list \<Rightarrow> pystr \<Rightarrow> evidence_domain \<Rightarrow> ctx_error + answer_summary" where
  "project_summary parse items iid domain =
     res_bind (project_require items iid StructuredSummary) (\<lambda>item.
     let bad_summary = Inl (ProjectionError ''selected summary is invalid'')
     in case parse (ci_content item) of
          Some (JObj fs) \<Rightarrow>
            (case (jget fs ''answer'', jget fs ''subquery'', jget fs ''citations'') of
               (JStr answer, JStr subquery, JList citations) \<Rightarrow>
                 if blank answer \<or> blank subquery \<or> citations = []
                   \<or> list_ex (\<lambda>v. \<not> citation_shape domain v) citations
                 then bad_summary
                 else Inr \<lparr>as_answer = answer, as_subquery = subquery,
                           as_citations = map json_text citations\<rparr>
             | _ \<Rightarrow> bad_summary)
        | _ \<Rightarrow> bad_summary)"

definition project_mixed ::
  "(pystr \<Rightarrow> json option) \<Rightarrow> selection_result \<Rightarrow> pystr \<Rightarrow> pystr \<Rightarrow> pystr
     \<Rightarrow> ctx_error + (pystr \<times> answer_summary \<times> answer_summary)" where
  "project_mixed parse r user data_summary knowledge_summary =
     res_bind (project_require (sr_items r) user UserRequest) (\<lambda>u.
     res_bind (project_summary parse (sr_items r) data_summary Data) (\<lambda>d.
     res_bind (project_summary parse (sr_items r) knowledge_summary Knowledge) (\<lambda>k.
     Inr (ci_content u, d, k))))"

subsection \<open>Reachable runtimes\<close>

definition budgets_ok :: "budget_config \<Rightarrow> bool" where
  "budgets_ok B \<longleftrightarrow> 0 < available_tokens (bc_router B) \<and> 0 < available_tokens (bc_coordinator B)
     \<and> 0 < available_tokens (bc_knowledge B) \<and> 0 < available_tokens (bc_data B)
     \<and> 0 < available_tokens (bc_mixed B)"

text \<open>The operations that classify what they add, and the selections.\<close>

inductive rt_step :: "request_runtime \<Rightarrow> request_runtime \<Rightarrow> bool" where
  "rt_user_request c rt = Inr (i, rt') \<Longrightarrow> rt_step rt rt'"
| "rt_add_conversation_memory p rt = Inr (i, rt') \<Longrightarrow> rt_step rt rt'"
| "rt_system_instruction l c rt = Inr (i, rt') \<Longrightarrow> rt_step rt rt'"
| "rt_router_decision c s rt = Inr (i, rt') \<Longrightarrow> rt_step rt rt'"
| "rt_skill_instruction l c s rt = Inr (i, rt') \<Longrightarrow> rt_step rt rt'"
| "rt_verified_summary l c ss rt = Inr (i, rt') \<Longrightarrow> rt_step rt rt'"
| "rt_evidence l c d cs ss rt = Inr (i, rt') \<Longrightarrow> rt_step rt rt'"
| "rt_select P t rt = Inr (r, rt') \<Longrightarrow> rt_step rt rt'"

inductive rt_reachable :: "request_runtime \<Rightarrow> bool" where
  rt_start: "new_request_runtime rid created estimate B = Inr rt \<Longrightarrow> budgets_ok B \<Longrightarrow> rt_reachable rt"
| rt_next: "rt_reachable rt \<Longrightarrow> rt_step rt rt' \<Longrightarrow> rt_reachable rt'"

definition memory_id :: "request_runtime \<Rightarrow> pystr" where
  "memory_id rt = rt_request_id rt @ [58] @ lit ''conversation-memory''"

definition rt_inv :: "request_runtime \<Rightarrow> bool" where
  "rt_inv rt \<longleftrightarrow> items_ok (rt_items rt) \<and> budgets_ok (rt_budgets rt)
     \<and> (\<forall>i \<in> set (rt_items rt). ci_kind i = ConversationMemory \<longrightarrow> ci_id i = memory_id rt)"

lemma rt_add_item_inv:
  assumes "rt_inv rt" and "rt_add_item label kind c s t ss d cs rt = Inr (i, rt')"
    and "kind = ConversationMemory \<Longrightarrow> label = lit ''conversation-memory''"
  shows "rt_inv rt'"
proof -
  from assms(2) obtain prov items where
    i: "new_context_item (rt_request_id rt @ [58] @ label) kind c s t prov
       (Aware (rt_created_at rt)) None (rt_estimate rt c) d cs [] = Inr i"
    and a: "ctx_add i (rt_items rt) = Inr items" and rt': "rt' = rt\<lparr>rt_items := items\<rparr>"
    by (auto simp: rt_add_item_def rt_add_def res_simps)
  note w = new_context_item_wf [OF i]
  have "items_ok items" using ctx_add_ok assms(1) w a by (auto simp: rt_inv_def)
  moreover have "items = rt_items rt @ [i]" using a by (auto simp: ctx_add_def split: if_splits)
  ultimately show ?thesis using assms(1,3) w rt' by (auto simp: rt_inv_def memory_id_def)
qed

lemma rt_step_inv: "rt_step rt rt' \<Longrightarrow> rt_inv rt \<Longrightarrow> rt_inv rt'"
proof (induction rule: rt_step.induct)
  case (8 P t rt r rt')
  then show ?case by (auto simp: rt_select_def res_simps rt_inv_def memory_id_def)
qed (auto simp: rt_user_request_def rt_add_conversation_memory_def rt_system_instruction_def
    rt_router_decision_def rt_skill_instruction_def rt_verified_summary_def rt_evidence_def
    elim!: rt_add_item_inv split: if_splits)

lemma rt_reachable_inv: "rt_reachable rt \<Longrightarrow> rt_inv rt"
proof (induction rule: rt_reachable.induct)
  case (rt_start rid created estimate B rt)
  then show ?case
    by (auto simp: new_request_runtime_def rt_inv_def items_ok_def res_simps split: if_splits)
next
  case (rt_next rt rt')
  then show ?case using rt_step_inv by blast
qed

subsection \<open>What a node sees\<close>

lemma new_context_policy_Inr:
  "new_context_policy node kinds trusts domains budget required = Inr P \<Longrightarrow>
     cp_kinds P = kinds \<and> cp_trusts P = trusts \<and> cp_domains P = domains \<and> cp_budget P = budget
     \<and> distinct (cp_required P) \<and> set (cp_required P) = set required"
  by (auto simp: new_context_policy_def res_simps dest!: deduplicate_strings_Inr)

lemma rt_select_sound:
  assumes "rt_select policy (Aware now) rt = Inr (r, rt')" and "items_ok (rt_items rt)"
    and "policy = new_context_policy node kinds trusts domains budget required"
    and "0 < available_tokens budget"
  shows "\<forall>i \<in> set (sr_items r). i \<in> set (rt_items rt) \<and> ci_kind i \<in> set kinds
      \<and> ci_trust i \<in> set trusts
      \<and> (evidence_kind (ci_kind i) \<longrightarrow> (\<exists>d \<in> set domains. ci_domain i = Some d))"
    and "set required \<subseteq> ci_id ` set (sr_items r)" and "distinct (map ci_id (sr_items r))"
proof -
  from assms obtain P where P: "new_context_policy node kinds trusts domains budget required = Inr P"
    and r: "select_context P (Aware now) (rt_items rt) = Inr r"
    by (auto simp: rt_select_def res_simps)
  note p = new_context_policy_Inr [OF P]
  have pok: "policy_ok P" using p assms(4) by (simp add: policy_ok_def)
  note s = selection_sound_lemma [OF assms(2) pok r]
  from s p show "\<forall>i \<in> set (sr_items r). i \<in> set (rt_items rt) \<and> ci_kind i \<in> set kinds
      \<and> ci_trust i \<in> set trusts
      \<and> (evidence_kind (ci_kind i) \<longrightarrow> (\<exists>d \<in> set domains. ci_domain i = Some d))"
    by (auto simp: rejection_reason_def split: if_splits option.splits)
  have ids: "sr_item_ids r = map ci_id (sr_items r)"
    using select_context_ids [OF r] .
  with s p show "set required \<subseteq> ci_id ` set (sr_items r)"
    by (metis list.set_map set_append sup.cobounded1)
  from s ids have "distinct (map ci_id (sr_items r) @ map di_id (sr_dropped r))"
    using assms(2) unfolding items_ok_def by (metis mset_append mset_eq_imp_distinct_iff)
  then show "distinct (map ci_id (sr_items r))" by simp
qed

lemma if_Some_None: "(if b then Some x else y) = None \<longleftrightarrow> \<not> b \<and> y = None"
  by simp

lemma item_wf_domain:
  assumes "item_wf i" "ci_domain i = Some d"
  shows "ci_kind i = (if d = Knowledge then KnowledgeEvidence else DataEvidence)"
proof -
  have c: "item_contract i = None" using assms(1) by (simp add: item_wf_def)
  have "\<not> (\<not> evidence_kind (ci_kind i) \<and> (ci_domain i \<noteq> None \<or> ci_citations i \<noteq> []))"
    and "\<not> (evidence_kind (ci_kind i) \<and>
         (ci_domain i \<noteq> Some (if ci_kind i = KnowledgeEvidence then Knowledge else Data)
          \<or> ci_citations i = []))"
    using c unfolding item_contract_def if_Some_None by blast+
  with assms(2) show ?thesis by (auto simp: evidence_kind_def)
qed


lemma project_require_ok:
  assumes "distinct (map ci_id items)" "i \<in> set items" "ci_kind i = kind"
  shows "project_require items (ci_id i) kind = Inr i"
proof -
  have "filter (\<lambda>x. ci_id x = ci_id i) items = [i]"
    using assms(1,2)
  proof (induction items)
    case (Cons x items)
    show ?case
    proof (cases "x = i")
      case True
      then have "filter (\<lambda>y. ci_id y = ci_id i) items = []"
        using Cons.prems(1) by (auto simp: filter_empty_conv) (metis imageI)
      with True show ?thesis by simp
    next
      case False
      with Cons show ?thesis by (auto simp: image_iff)
    qed
  qed simp
  with assms(3) show ?thesis by (simp add: project_require_def)
qed

lemma project_optional_memory_ok:
  assumes "distinct (map ci_id items)"
    and "\<forall>i \<in> set items. ci_kind i = ConversationMemory \<longrightarrow> ci_id i = m"
  shows "\<exists>x. project_optional_memory items = Inr x"
proof -
  let ?f = "filter (\<lambda>i. ci_kind i = ConversationMemory) items"
  have "distinct (map ci_id ?f)" using assms(1) by (simp add: distinct_map_filter)
  moreover have "set (map ci_id ?f) \<subseteq> {m}" using assms(2) by auto
  ultimately have "length ?f \<le> 1"
    by (metis card_mono distinct_card finite.emptyI finite.insertI is_singletonI is_singleton_altdef
        length_map)
  then show ?thesis
    by (cases ?f) (auto simp: project_optional_memory_def split: list.splits)
qed

text \<open>
  In every reachable runtime, when the selection for the knowledge or the data skill succeeds for
  a stored request item and a stored instruction item, its projection succeeds too and hands the
  skill exactly the text of these two items: the projection errors are unreachable.
\<close>

theorem skill_projection_total:
  assumes "rt_reachable rt" and "u \<in> set (rt_items rt)" "ci_kind u = UserRequest"
    and "i \<in> set (rt_items rt)" "ci_kind i = SkillInstruction"
    and "select_for_knowledge u i (Aware now) rt = Inr (r, rt')
      \<or> select_for_data u i (Aware now) rt = Inr (r, rt')"
  shows "\<exists>m. project_skill r (ci_id u) (ci_id i) =
     Inr \<lparr>sk_user_request = ci_content u, sk_instruction = ci_content i, sk_memory = m\<rparr>"
proof -
  have inv: "rt_inv rt" using assms(1) by (rule rt_reachable_inv)
  then have ok: "items_ok (rt_items rt)" and B: "budgets_ok (rt_budgets rt)"
    by (simp_all add: rt_inv_def)
  have "distinct (map ci_id (sr_items r)) \<and> {ci_id u, ci_id i} \<subseteq> ci_id ` set (sr_items r)
      \<and> set (sr_items r) \<subseteq> set (rt_items rt)"
    using assms(6)
  proof
    assume s: "select_for_knowledge u i (Aware now) rt = Inr (r, rt')"
    show ?thesis
      using rt_select_sound [OF s [unfolded select_for_knowledge_def knowledge_policy_def] ok refl] B
      by (auto simp: budgets_ok_def)
  next
    assume s: "select_for_data u i (Aware now) rt = Inr (r, rt')"
    show ?thesis
      using rt_select_sound [OF s [unfolded select_for_data_def data_policy_def] ok refl] B
      by (auto simp: budgets_ok_def)
  qed
  then have d: "distinct (map ci_id (sr_items r))" and sub: "set (sr_items r) \<subseteq> set (rt_items rt)"
    and ids: "ci_id u \<in> ci_id ` set (sr_items r)" "ci_id i \<in> ci_id ` set (sr_items r)" by auto
  have inj: "inj_on ci_id (set (rt_items rt))" using ok by (simp add: items_ok_def distinct_map)
  have "u \<in> set (sr_items r)" "i \<in> set (sr_items r)"
    using ids sub inj assms(2,4) by (auto simp: inj_on_def)
  moreover have "\<forall>x \<in> set (sr_items r). ci_kind x = ConversationMemory \<longrightarrow> ci_id x = memory_id rt"
    using inv sub by (auto simp: rt_inv_def)
  from project_optional_memory_ok [OF d this]
  obtain m where "project_optional_memory (sr_items r) = Inr m" ..
  ultimately show ?thesis
    using assms(3,5) by (simp add: project_skill_def project_require_ok [OF d])
qed

subsection \<open>A concrete request\<close>

definition demo_runtime :: request_runtime where
  "demo_runtime = \<lparr>rt_request_id = lit ''1'', rt_created_at = 0, rt_estimate = estimate_tokens,
     rt_budgets = default_budget_config, rt_items = [], rt_diagnostics = []\<rparr>"

definition demo_rt_item ::
  "string \<Rightarrow> context_kind \<Rightarrow> context_source \<Rightarrow> trust_level \<Rightarrow> pystr list \<Rightarrow> context_item" where
  "demo_rt_item label kind source trust sources =
     \<lparr>ci_id = lit (''1:'' @ label), ci_kind = kind, ci_content = lit ''q'', ci_source = source,
      ci_trust = trust, ci_provenance = \<lparr>pv_producer = lit ''context-runtime'',
        pv_source_item_ids = sources, pv_request_id = lit ''1'', pv_trace_id = None,
        pv_generated_at = 0\<rparr>,
      ci_created_at = 0, ci_expires_at = None, ci_tokens = 1, ci_domain = None, ci_citations = [],
      ci_metadata = []\<rparr>"

definition demo_user :: context_item where
  "demo_user = demo_rt_item ''user-request'' UserRequest SrcUser UntrustedUser []"

definition demo_instruction :: context_item where
  "demo_instruction = demo_rt_item ''a'' SkillInstruction SrcSkill VerifiedInternal [lit ''q'']"

definition demo_runtime2 :: request_runtime where
  "demo_runtime2 = demo_runtime\<lparr>rt_items := [demo_user, demo_instruction]\<rparr>"

lemmas demo_rt_defs = demo_runtime_def demo_user_def demo_instruction_def demo_rt_item_def
  rt_add_item_def rt_add_def new_provenance_def new_context_item_def require_nonblank_def
  require_aware_def ctx_add_def ctx_get_def freeze_metadata_def item_contract_def
  evidence_kind_def derived_kind_def estimate_tokens_def lit_append

lemma lit_colon: "lit (c # s) = of_char c # lit s"
  by (simp add: lit_def)

lemma demo_runtime_steps:
  "rt_user_request (lit ''q'') demo_runtime =
     Inr (demo_user, demo_runtime\<lparr>rt_items := [demo_user]\<rparr>)"
  "rt_skill_instruction (lit ''a'') (lit ''q'') (lit ''q'') (demo_runtime\<lparr>rt_items := [demo_user]\<rparr>) =
     Inr (demo_instruction, demo_runtime2)"
  by (simp_all add: rt_user_request_def rt_skill_instruction_def demo_runtime2_def demo_rt_defs
      lit_colon py_space_def)

lemma demo_runtime_reachable: "rt_reachable demo_runtime2"
proof -
  have "new_request_runtime (lit ''1'') (Aware 0) estimate_tokens default_budget_config =
      Inr demo_runtime"
    by (simp add: new_request_runtime_def demo_runtime_def require_aware_def lit_colon py_space_def)
  moreover have "budgets_ok default_budget_config"
    by (simp add: budgets_ok_def default_budget_config_def available_tokens_def)
  ultimately have "rt_reachable demo_runtime" by (rule rt_start)
  then show ?thesis using demo_runtime_steps by (meson rt_next rt_step.intros(1,5))
qed

lemma demo_select_knowledge:
  "\<exists>r rt'. select_for_knowledge demo_user demo_instruction (Aware 5) demo_runtime2 = Inr (r, rt')
     \<and> sr_items r = [demo_user, demo_instruction]"
  by (simp add: select_for_knowledge_def rt_select_def knowledge_policy_def new_context_policy_def
      require_nonblank_def demo_runtime2_def demo_runtime_def demo_user_def demo_instruction_def
      demo_rt_item_def default_budget_config_def select_context_def require_aware_def ctx_get_def
      rejection_reason_def is_expired_def evidence_kind_def can_fit_def available_tokens_def
      new_selection_result_def lit_colon py_space_def)


theorem skill_projection_total_witness:
  "\<exists>r rt' m. select_for_knowledge demo_user demo_instruction (Aware 5) demo_runtime2 = Inr (r, rt')
     \<and> project_skill r (ci_id demo_user) (ci_id demo_instruction) =
       Inr \<lparr>sk_user_request = lit ''q'', sk_instruction = lit ''q'', sk_memory = m\<rparr>"
proof -
  have "demo_user \<in> set (rt_items demo_runtime2)" "ci_kind demo_user = UserRequest"
    "demo_instruction \<in> set (rt_items demo_runtime2)" "ci_kind demo_instruction = SkillInstruction"
    "ci_content demo_user = lit ''q''" "ci_content demo_instruction = lit ''q''"
    by (simp_all add: demo_runtime2_def demo_user_def demo_instruction_def demo_rt_item_def)
  with demo_select_knowledge skill_projection_total [OF demo_runtime_reachable] show ?thesis
    by metis
qed

end
