(* ===== verification/ProviderEgress.thy ===== *)
theory ProviderEgress
  imports PyBase
begin

section \<open>Security: the provider egress policy\<close>

text \<open>
  \<^verbatim>\<open>security/provider_policy.py\<close>: the closed matrix of provider stages and the check that runs
  before any transport. Classifications are ordered by \<open>class_rank\<close>; error codes are the strings the
  code fixes.
\<close>

datatype data_classification = Public | Internal | Confidential | Restricted | Secret

definition class_rank :: "data_classification \<Rightarrow> nat" where
  "class_rank c = (case c of Public \<Rightarrow> 0 | Internal \<Rightarrow> 1 | Confidential \<Rightarrow> 2 | Restricted \<Rightarrow> 3 | Secret \<Rightarrow> 4)"

datatype provider_stage = Routing | Planning | DataPlanning | DataAnswer | EvidenceSelection
  | AnswerabilityReview | KnowledgeAnswer | InventorySynthesis | WorkflowReview

record stage_policy =
  sp_stage :: provider_stage
  sp_classes :: "data_classification list"
  sp_query :: bool
  sp_knowledge_summary :: bool
  sp_data_aggregate :: bool
  sp_identity :: bool
  sp_raw_document :: bool
  sp_raw_rows :: bool
  sp_max_context_chars :: int
  sp_max_evidence_items :: int

text \<open>The validation of one entry; the left value is the first failing check.\<close>

definition validate_stage_policy :: "stage_policy \<Rightarrow> string + stage_policy" where
  "validate_stage_policy s =
     (if sp_max_context_chars s \<le> 0 \<or> 16000 < sp_max_context_chars s then Inl ''max_context_chars''
      else if sp_max_evidence_items s < 0 \<or> 32 < sp_max_evidence_items s then Inl ''max_evidence_items''
      else if Secret \<in> set (sp_classes s)
        then Inl ''secret data can never be provider eligible''
      else if sp_raw_rows s \<or> sp_raw_document s \<or> sp_identity s
        then Inl ''raw rows, documents, and identity never leave the boundary''
      else Inr s)"

record provider_policy =
  pp_policy_id :: pystr
  pp_version :: pystr
  pp_enabled :: bool
  pp_max_calls :: int
  pp_input_redaction :: bool
  pp_output_check :: bool
  pp_stages :: "stage_policy list"

definition validate_provider_policy :: "provider_policy \<Rightarrow> string + provider_policy" where
  "validate_provider_policy p =
     (if pp_policy_id p = [] \<or> 80 < length (pp_policy_id p) then Inl ''policy_id''
      else if pp_version p = [] \<or> 40 < length (pp_version p) then Inl ''version''
      else if pp_max_calls p \<le> 0 \<or> 32 < pp_max_calls p then Inl ''max_provider_calls''
      else if pp_stages p = [] \<or> 9 < length (pp_stages p) then Inl ''stages''
      else res_bind (res_map validate_stage_policy (pp_stages p)) (\<lambda>_.
        if \<not> distinct (map sp_stage (pp_stages p)) then Inl ''provider stages must be unique''
        else Inr p))"

definition find_stage :: "provider_policy \<Rightarrow> provider_stage \<Rightarrow> string + stage_policy" where
  "find_stage p stage =
     (if \<not> pp_enabled p then Inl ''provider_stage_forbidden''
      else case find (\<lambda>e. sp_stage e = stage) (pp_stages p) of
          Some entry \<Rightarrow> Inr entry
        | None \<Rightarrow> Inl ''provider_stage_forbidden'')"

definition require_provider_egress ::
  "provider_policy option \<Rightarrow> provider_stage \<Rightarrow> data_classification \<Rightarrow> int \<Rightarrow> int \<Rightarrow> string + stage_policy" where
  "require_provider_egress policy stage classification payload_size call_count =
     (case policy of
        None \<Rightarrow> Inl ''provider_policy_missing''
      | Some p \<Rightarrow> res_bind (find_stage p stage) (\<lambda>entry.
          if classification \<notin> set (sp_classes entry)
            then Inl ''provider_data_classification_forbidden''
          else if sp_max_context_chars entry < payload_size then Inl ''provider_payload_too_large''
          else if pp_max_calls p \<le> call_count then Inl ''provider_budget_exceeded''
          else Inr entry))"

subsection \<open>The matrix of the mixed path\<close>

definition query_only :: "data_classification list" where
  "query_only = [Public, Internal]"

definition summary_classes :: "data_classification list" where
  "summary_classes = [Public, Internal, Confidential]"

definition stage_entry ::
  "provider_stage \<Rightarrow> data_classification list \<Rightarrow> bool \<Rightarrow> bool \<Rightarrow> bool \<Rightarrow> int \<Rightarrow> int \<Rightarrow> stage_policy" where
  "stage_entry stage classes query knowledge aggregate chars items =
     \<lparr>sp_stage = stage, sp_classes = classes, sp_query = query, sp_knowledge_summary = knowledge,
      sp_data_aggregate = aggregate, sp_identity = False, sp_raw_document = False,
      sp_raw_rows = False, sp_max_context_chars = chars, sp_max_evidence_items = items\<rparr>"

definition controlled_mixed :: provider_policy where
  "controlled_mixed =
     \<lparr>pp_policy_id = lit ''m8c-provider-egress'', pp_version = lit ''1'', pp_enabled = True,
      pp_max_calls = 9, pp_input_redaction = True, pp_output_check = True,
      pp_stages =
        [stage_entry Routing query_only True False False 2000 0,
         stage_entry Planning query_only True False False 2000 0,
         stage_entry DataPlanning query_only True False False 4000 0,
         stage_entry DataAnswer summary_classes True False True 8000 8,
         stage_entry EvidenceSelection summary_classes False True False 8000 16,
         stage_entry AnswerabilityReview summary_classes False True False 8000 16,
         stage_entry KnowledgeAnswer summary_classes True True False 8000 16,
         stage_entry InventorySynthesis summary_classes True True True 12000 16,
         stage_entry WorkflowReview summary_classes False False False 4000 8]\<rparr>"

lemma controlled_mixed_valid: "validate_provider_policy controlled_mixed = Inr controlled_mixed"
  by (simp add: validate_provider_policy_def controlled_mixed_def validate_stage_policy_def
      stage_entry_def query_only_def summary_classes_def)

lemma find_stage_Inr:
  "find_stage p stage = Inr e \<Longrightarrow> pp_enabled p \<and> e \<in> set (pp_stages p) \<and> sp_stage e = stage"
  by (auto simp: find_stage_def find_Some_iff split: if_splits option.splits)

lemma find_stage_iff:
  assumes "distinct (map sp_stage (pp_stages p))"
  shows "find_stage p stage = Inr e \<longleftrightarrow> pp_enabled p \<and> e \<in> set (pp_stages p) \<and> sp_stage e = stage"
  using find_key_iff [OF assms, of stage e] by (auto simp: find_stage_def split: option.splits)

lemma validate_stage_policy_Inr:
  "validate_stage_policy s = Inr s' \<Longrightarrow> s' = s \<and> sp_max_context_chars s \<le> 16000
     \<and> Secret \<notin> set (sp_classes s) \<and> \<not> sp_raw_rows s \<and> \<not> sp_raw_document s \<and> \<not> sp_identity s"
  by (simp add: validate_stage_policy_def split: if_split_asm)

lemma validated_policy:
  assumes "validate_provider_policy p = Inr q"
  shows "distinct (map sp_stage (pp_stages p)) \<and> pp_max_calls p \<le> 32
    \<and> (\<forall>e \<in> set (pp_stages p). sp_max_context_chars e \<le> 16000 \<and> Secret \<notin> set (sp_classes e)
         \<and> \<not> sp_raw_rows e \<and> \<not> sp_raw_document e \<and> \<not> sp_identity e)"
proof -
  from assms obtain es where "res_map validate_stage_policy (pp_stages p) = Inr es"
    and "distinct (map sp_stage (pp_stages p))" "pp_max_calls p \<le> 32"
    by (auto simp: validate_provider_policy_def res_simps split: if_splits)
  moreover from this(1) have "es = pp_stages p \<and> (\<forall>e \<in> set (pp_stages p).
      sp_max_context_chars e \<le> 16000 \<and> Secret \<notin> set (sp_classes e)
      \<and> \<not> sp_raw_rows e \<and> \<not> sp_raw_document e \<and> \<not> sp_identity e)"
    by (rule res_map_validator) (rule validate_stage_policy_Inr)
  ultimately show ?thesis by (intro conjI; blast)
qed

text \<open>
  Egress is exact and closed: under a validated policy a call may leave if and only if the policy is
  enabled, has an entry for the stage, the entry allows the classification, the payload is within
  the entry's size, and the request has calls left. Whatever passes is never secret, never an entry
  that allows identity, raw documents or raw rows, at most 16,000 characters, and one of at most 32
  calls.
\<close>

theorem provider_egress_exact:
  assumes "validate_provider_policy p = Inr p"
  shows "(require_provider_egress (Some p) stage c len n = Inr e \<longleftrightarrow>
      pp_enabled p \<and> e \<in> set (pp_stages p) \<and> sp_stage e = stage \<and> c \<in> set (sp_classes e)
      \<and> len \<le> sp_max_context_chars e \<and> n < pp_max_calls p)
    \<and> (require_provider_egress (Some p) stage c len n = Inr e \<longrightarrow>
        c \<noteq> Secret \<and> \<not> sp_identity e \<and> \<not> sp_raw_document e \<and> \<not> sp_raw_rows e
        \<and> len \<le> 16000 \<and> n < 32)"
proof -
  note v = validated_policy [OF assms]
  have "require_provider_egress (Some p) stage c len n = Inr e \<longleftrightarrow>
      pp_enabled p \<and> e \<in> set (pp_stages p) \<and> sp_stage e = stage \<and> c \<in> set (sp_classes e)
      \<and> len \<le> sp_max_context_chars e \<and> n < pp_max_calls p"
  proof
    assume "require_provider_egress (Some p) stage c len n = Inr e"
    then show "pp_enabled p \<and> e \<in> set (pp_stages p) \<and> sp_stage e = stage \<and> c \<in> set (sp_classes e)
      \<and> len \<le> sp_max_context_chars e \<and> n < pp_max_calls p"
      by (auto simp: require_provider_egress_def res_simps dest: find_stage_Inr split: if_splits)
  next
    assume r: "pp_enabled p \<and> e \<in> set (pp_stages p) \<and> sp_stage e = stage \<and> c \<in> set (sp_classes e)
      \<and> len \<le> sp_max_context_chars e \<and> n < pp_max_calls p"
    then have "find_stage p stage = Inr e" by (simp add: find_stage_iff [OF conjunct1 [OF v]])
    with r show "require_provider_egress (Some p) stage c len n = Inr e"
      by (simp add: require_provider_egress_def)
  qed
  moreover have "c \<noteq> Secret \<and> \<not> sp_identity e \<and> \<not> sp_raw_document e \<and> \<not> sp_raw_rows e
      \<and> len \<le> 16000 \<and> n < 32"
    if "e \<in> set (pp_stages p)" "c \<in> set (sp_classes e)" "len \<le> sp_max_context_chars e" "n < pp_max_calls p"
  proof -
    from v that(1) have "sp_max_context_chars e \<le> 16000" "Secret \<notin> set (sp_classes e)"
      "\<not> sp_raw_rows e" "\<not> sp_raw_document e" "\<not> sp_identity e" by simp_all
    with that v show ?thesis by auto
  qed
  ultimately show ?thesis by blast
qed

theorem provider_egress_exact_witness:
  "\<exists>e. require_provider_egress (Some controlled_mixed) WorkflowReview Confidential 4000 8 = Inr e
     \<and> \<not> sp_identity e \<and> \<not> sp_raw_document e \<and> \<not> sp_raw_rows e"
proof -
  let ?e = "stage_entry WorkflowReview summary_classes False False False 4000 8"
  have "require_provider_egress (Some controlled_mixed) WorkflowReview Confidential 4000 8 = Inr ?e"
    by (simp add: require_provider_egress_def find_stage_def controlled_mixed_def stage_entry_def
        summary_classes_def)
  with provider_egress_exact [OF controlled_mixed_valid, of WorkflowReview Confidential 4000 8 ?e]
  show ?thesis by blast
qed

end
