(* ===== verification/Redaction.thy ===== *)
theory Redaction
  imports ProviderEgress
begin

section \<open>Security: the payload boundary\<close>

text \<open>
  \<^verbatim>\<open>security/redaction.py\<close>. A payload is a Python value: strings, lists, dictionaries with string
  keys, and the values the recursion does not enter: tuples, other objects (with their \<^verbatim>\<open>str\<close>) and
  scalars. The two groups of regular expressions and \<^verbatim>\<open>str.lower\<close> are arguments, collected in
  \<open>text_rules\<close>.
\<close>

datatype pvalue =
    PStr pystr
  | PList "pvalue list"
  | PDict "(pystr \<times> pvalue) list"
  | PTuple "pvalue list"
  | PObject string pystr
  | PScalar pystr

record text_rules =
  marker_found :: "pystr \<Rightarrow> bool"
  sql_found :: "pystr \<Rightarrow> bool"
  lower :: "pystr \<Rightarrow> pystr"

definition identity_field_names :: "pystr list" where
  "identity_field_names = map lit [''tenant_id'', ''user_id'', ''subject_id'', ''roles'', ''session_id'']"

definition forbidden_field_names :: "pystr list" where
  "forbidden_field_names = map lit [''authorization'', ''connection_string'', ''database_url'',
     ''password'', ''raw_error'', ''raw_rows'', ''rows'', ''secret'', ''sql'', ''token'']"

definition redacted :: pystr where
  "redacted = lit ''[REDACTED]''"

definition sanitize_provider_text :: "text_rules \<Rightarrow> data_classification \<Rightarrow> pystr \<Rightarrow> string + (pystr \<times> nat)" where
  "sanitize_provider_text T c v =
     (if class_rank Restricted \<le> class_rank c then Inl ''provider_data_classification_forbidden''
      else if marker_found T v \<or> sql_found T v then Inl ''provider_sensitive_input_detected''
      else Inr (v, 0))"

fun sanitize_provider_payload ::
  "text_rules \<Rightarrow> data_classification \<Rightarrow> pvalue \<Rightarrow> string + (pvalue \<times> nat)"
and sanitize_items ::
  "text_rules \<Rightarrow> data_classification \<Rightarrow> pvalue list \<Rightarrow> string + (pvalue list \<times> nat)"
and sanitize_fields ::
  "text_rules \<Rightarrow> data_classification \<Rightarrow> (pystr \<times> pvalue) list \<Rightarrow> string + ((pystr \<times> pvalue) list \<times> nat)"
where
  "sanitize_provider_payload T c v =
     (if class_rank Restricted \<le> class_rank c then Inl ''provider_data_classification_forbidden''
      else case v of
          PStr s \<Rightarrow> res_bind (sanitize_provider_text T c s) (\<lambda>(s, n). Inr (PStr s, n))
        | PList xs \<Rightarrow> res_bind (sanitize_items T c xs) (\<lambda>(ys, n). Inr (PList ys, n))
        | PDict fs \<Rightarrow> res_bind (sanitize_fields T c fs) (\<lambda>(gs, n). Inr (PDict gs, n))
        | other \<Rightarrow> Inr (other, 0))"
| "sanitize_items T c [] = Inr ([], 0)"
| "sanitize_items T c (x # xs) =
     res_bind (sanitize_provider_payload T c x) (\<lambda>(y, n).
     res_bind (sanitize_items T c xs) (\<lambda>(ys, m). Inr (y # ys, n + m)))"
| "sanitize_fields T c [] = Inr ([], 0)"
| "sanitize_fields T c ((k, v) # fs) =
     (if lower T k \<in> set forbidden_field_names then Inl ''provider_sensitive_input_detected''
      else if lower T k \<in> set identity_field_names
        then res_bind (sanitize_fields T c fs) (\<lambda>(gs, m). Inr ((k, PStr redacted) # gs, 1 + m))
      else res_bind (sanitize_provider_payload T c v) (\<lambda>(w, n).
           res_bind (sanitize_fields T c fs) (\<lambda>(gs, m). Inr ((k, w) # gs, n + m))))"

declare sanitize_provider_payload.simps [simp del]

definition ensure_safe_provider_output :: "text_rules \<Rightarrow> bool \<Rightarrow> pystr \<Rightarrow> string + unit" where
  "ensure_safe_provider_output T allow_sql v =
     (if marker_found T v \<or> (\<not> allow_sql \<and> sql_found T v)
      then Inl ''provider_sensitive_output_detected'' else Inr ())"

subsection \<open>What passes\<close>

text \<open>A JSON-shaped value: no tuple and no foreign object at any depth.\<close>

fun json_shaped :: "pvalue \<Rightarrow> bool" where
  "json_shaped (PStr s) = True"
| "json_shaped (PList xs) = list_all json_shaped xs"
| "json_shaped (PDict fs) = list_all (\<lambda>(k, v). json_shaped v) fs"
| "json_shaped (PTuple xs) = False"
| "json_shaped (PObject n s) = False"
| "json_shaped (PScalar s) = True"

text \<open>A value safe to leave: unmarked strings, no forbidden field, identity fields masked.\<close>

fun payload_clean :: "text_rules \<Rightarrow> pvalue \<Rightarrow> bool" where
  "payload_clean T (PStr s) = (\<not> marker_found T s \<and> \<not> sql_found T s)"
| "payload_clean T (PList xs) = list_all (payload_clean T) xs"
| "payload_clean T (PDict fs) = list_all (\<lambda>(k, v).
     lower T k \<notin> set forbidden_field_names
     \<and> (if lower T k \<in> set identity_field_names then v = PStr redacted else payload_clean T v)) fs"
| "payload_clean T (PTuple xs) = False"
| "payload_clean T (PObject n s) = False"
| "payload_clean T (PScalar s) = True"

text \<open>Same structure and keys, strings unchanged except masked identity fields.\<close>

fun payload_matches :: "text_rules \<Rightarrow> pvalue \<Rightarrow> pvalue \<Rightarrow> bool" where
  "payload_matches T (PList xs) w = (case w of PList ys \<Rightarrow> list_all2 (payload_matches T) xs ys | _ \<Rightarrow> False)"
| "payload_matches T (PDict fs) w = (case w of
     PDict gs \<Rightarrow> list_all2 (\<lambda>(k, v) (k', v'). k' = k
       \<and> (if lower T k \<in> set identity_field_names then v' = PStr redacted else payload_matches T v v')) fs gs
   | _ \<Rightarrow> False)"
| "payload_matches T v w = (w = v)"

lemma sanitize_sound:
  "(sanitize_provider_payload T c v = Inr (w, n) \<Longrightarrow> json_shaped v \<Longrightarrow>
      payload_clean T w \<and> payload_matches T v w)"
  "(sanitize_items T c xs = Inr (ys, m) \<Longrightarrow> list_all json_shaped xs \<Longrightarrow>
      list_all (payload_clean T) ys \<and> list_all2 (payload_matches T) xs ys)"
  "(sanitize_fields T c fs = Inr (gs, q) \<Longrightarrow> list_all (\<lambda>(k, v). json_shaped v) fs \<Longrightarrow>
      list_all (\<lambda>(k, v). lower T k \<notin> set forbidden_field_names
        \<and> (if lower T k \<in> set identity_field_names then v = PStr redacted else payload_clean T v)) gs
      \<and> list_all2 (\<lambda>(k, v) (k', v'). k' = k
        \<and> (if lower T k \<in> set identity_field_names then v' = PStr redacted else payload_matches T v v'))
        fs gs)"
proof (induction T c v and T c xs and T c fs arbitrary: w n and ys m and gs q
    rule: sanitize_provider_payload_sanitize_items_sanitize_fields.induct)
  case (1 T c v)
  show ?case
  proof (cases "class_rank Restricted \<le> class_rank c")
    case True
    with "1.prems" show ?thesis by (simp add: sanitize_provider_payload.simps)
  next
    case False
    show ?thesis
    proof (cases v)
      case (PStr s)
      with False "1.prems" show ?thesis
        by (auto simp: sanitize_provider_payload.simps sanitize_provider_text_def res_simps
            split: if_splits)
    next
      case (PList xs)
      with False "1.prems"(1) obtain ys where "sanitize_items T c xs = Inr (ys, n)" "w = PList ys"
        by (auto simp: sanitize_provider_payload.simps res_simps)
      with "1.IH"(1) [OF False PList, of ys n] "1.prems"(2) PList show ?thesis by simp
    next
      case (PDict fs)
      with False "1.prems"(1) obtain gs where "sanitize_fields T c fs = Inr (gs, n)" "w = PDict gs"
        by (auto simp: sanitize_provider_payload.simps res_simps)
      with "1.IH"(2) [OF False PDict, of gs n] "1.prems"(2) PDict show ?thesis by simp
    next
      case (PScalar s)
      with False "1.prems" show ?thesis by (auto simp: sanitize_provider_payload.simps)
    qed (use "1.prems" in simp_all)
  qed
next
  case (3 T c x xs)
  then show ?case by (auto simp: res_simps)
next
  case (5 T c key v fs)
  note ok = "5.prems"(1)
  have f: "lower T key \<notin> set forbidden_field_names" using ok by auto
  show ?case
  proof (cases "lower T key \<in> set identity_field_names")
    case True
    with ok f obtain gs' q' where "sanitize_fields T c fs = Inr (gs', q')"
      "gs = (key, PStr redacted) # gs'" by (auto simp: res_simps)
    with "5.IH"(1) [OF f True this(1)] "5.prems"(2) True f show ?thesis by simp
  next
    case False
    with ok f obtain w n gs' q' where w: "sanitize_provider_payload T c v = Inr (w, n)"
      "sanitize_fields T c fs = Inr (gs', q')" "gs = (key, w) # gs'"
      by (auto simp: res_simps)
    have "json_shaped v" "list_all (\<lambda>(k, v). json_shaped v) fs" using "5.prems"(2) by simp_all
    with "5.IH"(2) [OF f False w(1)] "5.IH"(3) [OF f False _ _ w(2)] w False f show ?thesis by simp
  qed
qed auto


definition demo_rules :: text_rules where
  "demo_rules = \<lparr>marker_found = (\<lambda>s. 61 \<in> set s), sql_found = (\<lambda>s. False), lower = (\<lambda>s. s)\<rparr>"

definition demo_payload :: pvalue where
  "demo_payload = PDict [(lit ''tenant_id'', PStr (lit ''t'')), (lit ''q'', PList [PStr (lit ''hi'')])]"

lemma demo_sanitize:
  "sanitize_provider_payload demo_rules Internal demo_payload =
     Inr (PDict [(lit ''tenant_id'', PStr redacted), (lit ''q'', PList [PStr (lit ''hi'')])], 1)"
  by (simp add: sanitize_provider_payload.simps demo_payload_def class_rank_def
      forbidden_field_names_def identity_field_names_def demo_rules_def sanitize_provider_text_def)
    (simp add: lit_def)


text \<open>
  The recursion does not enter tuples or objects: whatever they hold passes as it is, and is sent.
\<close>

lemma tuple_passes_unsanitized:
  "class_rank c < class_rank Restricted \<Longrightarrow>
     sanitize_provider_payload T c (PTuple xs) = Inr (PTuple xs, 0)
     \<and> sanitize_provider_payload T c (PObject name s) = Inr (PObject name s, 0)"
  by (simp add: sanitize_provider_payload.simps)

end
