(* ===== verification/AuditLog.thy ===== *)
theory AuditLog
  imports ProviderEgress
begin

section \<open>Security: the hash-chained audit log\<close>

text \<open>
  \<^verbatim>\<open>security/audit.py\<close>. The log is the text of the file and of its anchor; \<^verbatim>\<open>append\<close> runs against the
  outcome of its input and output: everything written, the write of the line failing after a part of
  it, or the write of the anchor failing after the line. The canonical JSON text of an event, its
  parser and SHA-256 are the record \<open>audit_codec\<close>. Lines are split as \<^verbatim>\<open>str.splitlines\<close> does after
  the newline translation of text mode.
\<close>

datatype audit_event_type = ProviderCallAllowed | ProviderCallBlocked | ProviderCallCompleted
  | ProviderCallFailed | ResponseReleaseAllowed | ResponseReleaseBlocked | WorkflowStarted
  | WorkflowCompleted | WorkflowFailed

datatype audit_component = ApplicationComponent | ProviderComponent | RuntimeComponent

datatype audit_action = CompleteAction | EgressAction | ResponseReleaseAction | WorkflowAction

datatype audit_outcome = OutAllowed | OutBlocked | OutCompleted | OutFailed | OutStarted

record audit_event =
  ae_event_id :: pystr
  ae_timestamp :: int
  ae_request_id :: pystr
  ae_trace_id :: pystr
  ae_principal_type :: pystr
  ae_tenant_hash :: pystr
  ae_event_type :: audit_event_type
  ae_component :: audit_component
  ae_action :: audit_action
  ae_resource_type :: "pystr option"
  ae_resource_id_hash :: "pystr option"
  ae_authorization :: "pystr option"
  ae_policy_id :: pystr
  ae_policy_version :: pystr
  ae_outcome :: audit_outcome
  ae_error_code :: "string option"
  ae_latency_ms :: "int option"
  ae_call_count :: "int option"
  ae_stage :: "provider_stage option"
  ae_tool_category :: "pystr option"
  ae_classification :: "data_classification option"
  ae_redaction_status :: "pystr option"
  ae_previous_hash :: pystr
  ae_event_hash :: pystr

text \<open>The declared bounds on the fields.\<close>

definition audit_event_ok :: "audit_event \<Rightarrow> bool" where
  "audit_event_ok e \<longleftrightarrow>
     0 < length (ae_event_id e) \<and> length (ae_event_id e) \<le> 80
     \<and> 0 < length (ae_request_id e) \<and> length (ae_request_id e) \<le> 128
     \<and> 0 < length (ae_trace_id e) \<and> length (ae_trace_id e) \<le> 128
     \<and> 0 < length (ae_principal_type e) \<and> length (ae_principal_type e) \<le> 24
     \<and> 16 \<le> length (ae_tenant_hash e) \<and> length (ae_tenant_hash e) \<le> 64
     \<and> 0 < length (ae_policy_id e) \<and> length (ae_policy_id e) \<le> 80
     \<and> 0 < length (ae_policy_version e) \<and> length (ae_policy_version e) \<le> 40
     \<and> (case ae_resource_type e of None \<Rightarrow> True | Some s \<Rightarrow> length s \<le> 48)
     \<and> (case ae_resource_id_hash e of None \<Rightarrow> True | Some s \<Rightarrow> 16 \<le> length s \<and> length s \<le> 64)
     \<and> ae_authorization e \<in> {None, Some (lit ''allowed''), Some (lit ''denied'')}
     \<and> (case ae_error_code e of None \<Rightarrow> True
        | Some s \<Rightarrow> 0 < length s \<and> length s \<le> 80
            \<and> list_all (\<lambda>c. c \<in> set ''abcdefghijklmnopqrstuvwxyz0123456789_'') s)
     \<and> (case ae_tool_category e of None \<Rightarrow> True | Some s \<Rightarrow> length s \<le> 48)
     \<and> (case ae_latency_ms e of None \<Rightarrow> True | Some n \<Rightarrow> 0 \<le> n \<and> n \<le> 3600000)
     \<and> (case ae_call_count e of None \<Rightarrow> True | Some n \<Rightarrow> 0 \<le> n \<and> n \<le> 32)
     \<and> (case ae_redaction_status e of None \<Rightarrow> True | Some s \<Rightarrow> length s \<le> 32)
     \<and> length (ae_previous_hash e) \<le> 64 \<and> length (ae_event_hash e) \<le> 64"

subsection \<open>Hash chain\<close>

record audit_codec =
  canonical :: "audit_event \<Rightarrow> pystr"
  parse_event :: "pystr \<Rightarrow> audit_event option"
  canonical_unhashed :: "audit_event \<Rightarrow> pystr"
  sha256 :: "pystr \<Rightarrow> pystr"

definition event_hash :: "audit_codec \<Rightarrow> audit_event \<Rightarrow> pystr" where
  "event_hash c e = sha256 c (canonical_unhashed c e)"

definition with_chain_hash :: "audit_codec \<Rightarrow> pystr \<Rightarrow> audit_event \<Rightarrow> audit_event" where
  "with_chain_hash c previous e =
     (let v = e\<lparr>ae_previous_hash := previous, ae_event_hash := []\<rparr>
      in v\<lparr>ae_event_hash := event_hash c v\<rparr>)"

subsection \<open>The file\<close>

datatype audit_error = SinkClosed | WriteFailed | SinkUnavailable | IntegrityFailed | ChainInvalid

record audit_files =
  log_text :: "pystr option"
  anchor_text :: "pystr option"

record jsonl_sink =
  js_files :: audit_files
  js_closed :: bool
  js_previous :: pystr

datatype audit_io = IoOk | LineFails nat | AnchorFails

definition existing :: "pystr option \<Rightarrow> pystr" where
  "existing t = (case t of None \<Rightarrow> [] | Some s \<Rightarrow> s)"

definition audit_append ::
  "audit_codec \<Rightarrow> audit_io \<Rightarrow> audit_event \<Rightarrow> jsonl_sink \<Rightarrow> (audit_error + audit_event) \<times> jsonl_sink" where
  "audit_append c io e sink =
     (if js_closed sink then (Inl SinkClosed, sink)
      else let chained = with_chain_hash c (js_previous sink) e;
               line = canonical c chained @ [10];
               files = js_files sink
           in case io of
               LineFails n \<Rightarrow> (Inl WriteFailed, sink\<lparr>js_files := files\<lparr>log_text :=
                  Some (existing (log_text files) @ take n line)\<rparr>\<rparr>)
             | AnchorFails \<Rightarrow> (Inl WriteFailed, sink\<lparr>js_files := files\<lparr>log_text :=
                  Some (existing (log_text files) @ line)\<rparr>\<rparr>)
             | IoOk \<Rightarrow> (Inr chained,
                  sink\<lparr>js_files := \<lparr>log_text = Some (existing (log_text files) @ line),
                                    anchor_text = Some (ae_event_hash chained)\<rparr>,
                       js_previous := ae_event_hash chained\<rparr>))"

definition audit_close :: "jsonl_sink \<Rightarrow> jsonl_sink" where
  "audit_close sink = sink\<lparr>js_closed := True\<rparr>"

fun universal_newlines :: "pystr \<Rightarrow> pystr" where
  "universal_newlines [] = []"
| "universal_newlines (c # s) =
     (if c = 13 then 10 # (case s of [] \<Rightarrow> [] | d # t \<Rightarrow> if d = 10 then universal_newlines t
        else universal_newlines s)
      else c # universal_newlines s)"

definition line_boundary :: "nat \<Rightarrow> bool" where
  "line_boundary c \<longleftrightarrow> c \<in> set [10, 11, 12, 13, 28, 29, 30, 133, 8232, 8233]"

text \<open>\<^verbatim>\<open>str.splitlines\<close> on text without a carriage return, the current line accumulated.\<close>

fun split_lines :: "pystr \<Rightarrow> pystr \<Rightarrow> pystr list" where
  "split_lines line [] = (if line = [] then [] else [line])"
| "split_lines line (c # s) =
     (if line_boundary c then line # split_lines [] s else split_lines (line @ [c]) s)"

fun verify_lines :: "audit_codec \<Rightarrow> pystr \<Rightarrow> pystr list \<Rightarrow> audit_error + pystr" where
  "verify_lines c previous [] = Inr previous"
| "verify_lines c previous (line # rest) =
     (case parse_event c line of
        None \<Rightarrow> Inl IntegrityFailed
      | Some e \<Rightarrow>
          if ae_previous_hash e \<noteq> previous
             \<or> ae_event_hash e \<noteq> event_hash c (e\<lparr>ae_event_hash := []\<rparr>)
          then Inl IntegrityFailed
          else verify_lines c (ae_event_hash e) rest)"

definition audit_verify :: "audit_codec \<Rightarrow> audit_files \<Rightarrow> audit_error + pystr" where
  "audit_verify c files =
     (case log_text files of
        None \<Rightarrow> Inl SinkUnavailable
      | Some text \<Rightarrow>
          (let raw = universal_newlines text
           in if raw \<noteq> [] \<and> last raw \<noteq> 10 then Inl IntegrityFailed
              else let lines = split_lines [] raw
                in res_bind (verify_lines c [] lines) (\<lambda>previous.
                     case anchor_text files of
                       None \<Rightarrow> if lines \<noteq> [] then Inl ChainInvalid else Inr previous
                     | Some a \<Rightarrow> if py_strip a \<noteq> previous then Inl ChainInvalid else Inr previous)))"

definition open_sink :: "audit_codec \<Rightarrow> audit_files \<Rightarrow> audit_error + jsonl_sink" where
  "open_sink c files =
     (case log_text files of
        None \<Rightarrow> if anchor_text files \<noteq> None then Inl ChainInvalid
                else Inr \<lparr>js_files = files, js_closed = False, js_previous = []\<rparr>
      | Some _ \<Rightarrow> res_bind (audit_verify c files) (\<lambda>previous.
                Inr \<lparr>js_files = files, js_closed = False, js_previous = previous\<rparr>))"

subsection \<open>What the codec promises\<close>

definition line_safe :: "pystr \<Rightarrow> bool" where
  "line_safe s \<longleftrightarrow> \<not> list_ex line_boundary s"

text \<open>
  On the events \<open>E\<close> of the closed schema parsing is the inverse of the canonical text; a digest is a
  non-empty string without white space; the text hashed leaves out the event hash.
\<close>

definition audit_codec_ok :: "audit_codec \<Rightarrow> audit_event set \<Rightarrow> bool" where
  "audit_codec_ok c E \<longleftrightarrow>
     (\<forall>e \<in> E. parse_event c (canonical c e) = Some e)
     \<and> (\<forall>x. sha256 c x \<noteq> [] \<and> \<not> list_ex py_space (sha256 c x))
     \<and> (\<forall>e h. canonical_unhashed c (e\<lparr>ae_event_hash := h\<rparr>) = canonical_unhashed c e)"

subsection \<open>Reading back what was written\<close>

definition log_of :: "audit_codec \<Rightarrow> audit_event list \<Rightarrow> pystr" where
  "log_of c es = concat (map (\<lambda>e. canonical c e @ [10]) es)"

fun chain_ok :: "audit_codec \<Rightarrow> pystr \<Rightarrow> audit_event list \<Rightarrow> bool" where
  "chain_ok c previous [] = True"
| "chain_ok c previous (e # es) =
     (ae_previous_hash e = previous \<and> ae_event_hash e = event_hash c e
      \<and> chain_ok c (ae_event_hash e) es)"

definition tip :: "audit_event list \<Rightarrow> pystr" where
  "tip es = (if es = [] then [] else ae_event_hash (last es))"

lemma chain_ok_append:
  "chain_ok c p (es @ [e]) \<longleftrightarrow> chain_ok c p es
     \<and> ae_previous_hash e = (if es = [] then p else ae_event_hash (last es))
     \<and> ae_event_hash e = event_hash c e"
  by (induction es arbitrary: p) auto

lemma with_chain_hash_sel:
  assumes "audit_codec_ok c E"
  shows "ae_previous_hash (with_chain_hash c p e) = p"
    and "ae_event_hash (with_chain_hash c p e) = event_hash c (with_chain_hash c p e)"
proof -
  show "ae_previous_hash (with_chain_hash c p e) = p" by (simp add: with_chain_hash_def Let_def)
  let ?v = "e\<lparr>ae_previous_hash := p, ae_event_hash := []\<rparr>"
  have "canonical_unhashed c (?v\<lparr>ae_event_hash := event_hash c ?v\<rparr>) = canonical_unhashed c ?v"
    using assms unfolding audit_codec_ok_def by blast
  then show "ae_event_hash (with_chain_hash c p e) = event_hash c (with_chain_hash c p e)"
    by (simp add: with_chain_hash_def Let_def event_hash_def)
qed

lemma universal_newlines_id: "13 \<notin> set s \<Longrightarrow> universal_newlines s = s"
  by (induction s) auto

lemma split_lines_line:
  "line_safe s \<Longrightarrow> split_lines l (s @ 10 # t) = (l @ s) # split_lines [] t"
  by (induction s arbitrary: l) (auto simp: line_safe_def line_boundary_def)

lemma split_lines_log:
  "\<forall>e \<in> set es. line_safe (canonical c e) \<Longrightarrow> split_lines [] (log_of c es) = map (canonical c) es"
  by (induction es) (auto simp: log_of_def split_lines_line)

lemma log_of_no_cr: "\<forall>e \<in> set es. line_safe (canonical c e) \<Longrightarrow> 13 \<notin> set (log_of c es)"
  by (auto simp: log_of_def line_safe_def line_boundary_def list_ex_iff)

lemma verify_lines_chain:
  assumes "audit_codec_ok c E" "chain_ok c p es" "set es \<subseteq> E"
  shows "verify_lines c p (map (canonical c) es) = Inr (if es = [] then p else ae_event_hash (last es))"
proof -
  have "event_hash c (e\<lparr>ae_event_hash := []\<rparr>) = event_hash c e" for e
    using assms(1) by (simp add: event_hash_def audit_codec_ok_def)
  with assms show ?thesis
    by (induction es arbitrary: p) (auto simp: audit_codec_ok_def)
qed

lemma verify_lines_D:
  assumes "audit_codec_ok c E" "verify_lines c p lines = Inr t"
  shows "\<exists>es. map (parse_event c) lines = map Some es \<and> chain_ok c p es
     \<and> t = (if es = [] then p else ae_event_hash (last es))"
proof -
  have h: "event_hash c (e\<lparr>ae_event_hash := []\<rparr>) = event_hash c e" for e
    using assms(1) by (simp add: event_hash_def audit_codec_ok_def)
  from assms(2) show ?thesis
  proof (induction lines arbitrary: p)
    case Nil
    then show ?case by (intro exI [of _ "[]"]) simp
  next
    case (Cons l ls)
    from Cons.prems obtain e where e: "parse_event c l = Some e" "ae_previous_hash e = p"
      "ae_event_hash e = event_hash c e" and r: "verify_lines c (ae_event_hash e) ls = Inr t"
      by (auto simp: h split: option.splits if_splits)
    from Cons.IH [OF r] obtain es where "map (parse_event c) ls = map Some es"
      "chain_ok c (ae_event_hash e) es" "t = (if es = [] then ae_event_hash e else ae_event_hash (last es))"
      by blast
    with e show ?case by (intro exI [of _ "e # es"]) auto
  qed
qed

text \<open>A sink whose files hold exactly the events it has committed.\<close>

definition sink_holds :: "audit_codec \<Rightarrow> audit_event list \<Rightarrow> jsonl_sink \<Rightarrow> bool" where
  "sink_holds c es s \<longleftrightarrow>
     chain_ok c [] es \<and> (\<forall>e \<in> set es. line_safe (canonical c e)) \<and> \<not> js_closed s
     \<and> js_previous s = tip es
     \<and> js_files s = (if es = [] then \<lparr>log_text = None, anchor_text = None\<rparr>
          else \<lparr>log_text = Some (log_of c es), anchor_text = Some (tip es)\<rparr>)"

lemma py_strip_no_space: "\<not> list_ex py_space s \<Longrightarrow> py_strip s = s"
proof -
  assume s: "\<not> list_ex py_space s"
  have d: "dropWhile py_space t = t" if "\<not> list_ex py_space t" for t
    using that by (cases t) auto
  show ?thesis using d [OF s] d [of "rev s"] s by (simp add: py_strip_def list_ex_iff)
qed

lemma tip_hash: "chain_ok c p es \<Longrightarrow> es \<noteq> [] \<Longrightarrow> tip es = event_hash c (last es)"
proof -
  assume c: "chain_ok c p es" and ne: "es \<noteq> []"
  then obtain fs e where "es = fs @ [e]" by (metis append_butlast_last_id)
  with c show ?thesis by (simp add: tip_def chain_ok_append)
qed

lemma event_hash_text:
  assumes "audit_codec_ok c E"
  shows "py_strip (event_hash c e) = event_hash c e" and "event_hash c e \<noteq> []"
  using assms by (auto simp: audit_codec_ok_def event_hash_def py_strip_no_space)

lemma verify_log:
  assumes ok: "audit_codec_ok c E" and es: "chain_ok c [] es" "\<forall>e \<in> set es. line_safe (canonical c e)" "es \<noteq> []" "set es \<subseteq> E"
  shows "audit_verify c \<lparr>log_text = Some (log_of c es), anchor_text = Some (tip es)\<rparr> = Inr (tip es)"
proof -
  have raw: "universal_newlines (log_of c es) = log_of c es"
    using log_of_no_cr [OF es(2)] by (rule universal_newlines_id)
  obtain fs e where "es = fs @ [e]" using es(3) by (metis append_butlast_last_id)
  then have last: "log_of c es \<noteq> []" "last (log_of c es) = 10" by (simp_all add: log_of_def)
  have "py_strip (tip es) = tip es"
    using tip_hash [OF es(1,3)] event_hash_text [OF ok] by simp
  then show ?thesis
    using raw last split_lines_log [OF es(2)] verify_lines_chain [OF ok es(1,4)] es(3)
    by (simp add: audit_verify_def Let_def tip_def)
qed

lemma sink_holds_append:
  assumes ok: "audit_codec_ok c E" and s: "sink_holds c es s"
    and safe: "line_safe (canonical c (with_chain_hash c (tip es) e))"
  shows "\<exists>s'. audit_append c IoOk e s = (Inr (with_chain_hash c (tip es) e), s')
     \<and> sink_holds c (es @ [with_chain_hash c (tip es) e]) s'"
proof -
  let ?e = "with_chain_hash c (tip es) e"
  note sel = with_chain_hash_sel [OF ok, of "tip es" e]
  have chain: "chain_ok c [] (es @ [?e])"
    using s sel by (auto simp: chain_ok_append sink_holds_def tip_def)
  have "existing (log_text (js_files s)) = log_of c es"
    using s by (auto simp: sink_holds_def existing_def log_of_def)
  moreover have "\<not> js_closed s" "js_previous s = tip es" using s by (simp_all add: sink_holds_def)
  ultimately have "audit_append c IoOk e s = (Inr ?e, s\<lparr>js_files := \<lparr>log_text = Some (log_of c (es @ [?e])),
      anchor_text = Some (ae_event_hash ?e)\<rparr>, js_previous := ae_event_hash ?e\<rparr>)"
    by (simp add: audit_append_def Let_def log_of_def)
  with s safe chain show ?thesis by (simp add: sink_holds_def tip_def)
qed

fun audit_run :: "audit_codec \<Rightarrow> audit_event list \<Rightarrow> jsonl_sink \<Rightarrow> jsonl_sink" where
  "audit_run c [] s = s"
| "audit_run c (e # es) s = audit_run c es (snd (audit_append c IoOk e s))"

fun chained_events :: "audit_codec \<Rightarrow> pystr \<Rightarrow> audit_event list \<Rightarrow> audit_event list" where
  "chained_events c previous [] = []"
| "chained_events c previous (e # es) =
     (let e' = with_chain_hash c previous e in e' # chained_events c (ae_event_hash e') es)"

lemma tip_snoc [simp]: "tip (es @ [e]) = ae_event_hash e"
  by (simp add: tip_def)

lemma audit_run_holds:
  assumes ok: "audit_codec_ok c E" and "sink_holds c done s"
    and "\<forall>e \<in> set (chained_events c (tip done) es). line_safe (canonical c e)"
  shows "sink_holds c (done @ chained_events c (tip done) es) (audit_run c es s)"
  using assms(2,3)
proof (induction es arbitrary: "done" s)
  case (Cons e es)
  let ?e = "with_chain_hash c (tip done) e"
  from Cons.prems(2) have "line_safe (canonical c ?e)" by (simp add: Let_def)
  from sink_holds_append [OF ok Cons.prems(1) this] obtain s' where
    s': "audit_append c IoOk e s = (Inr ?e, s')" "sink_holds c (done @ [?e]) s'" by blast
  from Cons.IH [OF s'(2)] Cons.prems(2) s'(1) show ?case by (simp add: Let_def)
qed simp

lemma sink_holds_verify:
  assumes "audit_codec_ok c E" "sink_holds c es s" "es \<noteq> []" "set es \<subseteq> E"
  shows "audit_verify c (js_files s) = Inr (js_previous s)"
  using assms verify_log [of c E es] by (simp add: sink_holds_def)

lemma sink_holds_open:
  assumes "audit_codec_ok c E" "sink_holds c es s" "set es \<subseteq> E"
  shows "open_sink c (js_files s) = Inr s"
proof (cases "es = []")
  case True
  with assms(2) show ?thesis
    by (cases s) (auto simp: sink_holds_def open_sink_def tip_def)
next
  case False
  with assms sink_holds_verify [OF assms(1,2) False assms(3)] show ?thesis
    by (cases s) (auto simp: sink_holds_def open_sink_def)
qed

text \<open>
  A log that was only appended to verifies: after any sequence of appends that all succeed, on
  events whose canonical text holds no line boundary, the file holds exactly these events in order,
  each chained to its predecessor; reopening it verifies it and continues from the same tip.
\<close>

theorem audit_log_verifies:
  assumes "audit_codec_ok c E" and "open_sink c \<lparr>log_text = None, anchor_text = None\<rparr> = Inr s"
    and "set (chained_events c [] es) \<subseteq> E"
    and "\<forall>e \<in> set (chained_events c [] es). line_safe (canonical c e)"
  shows "sink_holds c (chained_events c [] es) (audit_run c es s)
    \<and> open_sink c (js_files (audit_run c es s)) = Inr (audit_run c es s)"
proof -
  have "sink_holds c [] s" using assms(2) by (auto simp: open_sink_def sink_holds_def tip_def)
  from audit_run_holds [OF assms(1) this, of es] assms(4)
  have "sink_holds c (chained_events c [] es) (audit_run c es s)" by (simp add: tip_def)
  with sink_holds_open [OF assms(1) this assms(3)] show ?thesis by simp
qed

lemma chain_unique:
  assumes ok: "audit_codec_ok c E"
    and fields: "\<And>a b. a \<in> set es \<Longrightarrow> b \<in> set fs \<Longrightarrow>
      canonical_unhashed c a = canonical_unhashed c b \<Longrightarrow> a\<lparr>ae_event_hash := []\<rparr> = b\<lparr>ae_event_hash := []\<rparr>"
    and inj: "inj_on (sha256 c) (canonical_unhashed c ` (set es \<union> set fs))"
    and "chain_ok c [] es" "chain_ok c [] fs" "tip es = tip fs"
  shows "es = fs"
  using inj fields assms(4-6)
proof (induction es arbitrary: fs rule: rev_induct)
  case Nil
  then have "fs = [] \<or> tip fs = event_hash c (last fs)" using tip_hash by blast
  moreover have "tip fs = []" using Nil.prems(5) by (simp add: tip_def)
  ultimately show ?case using event_hash_text(2) [OF ok, of "last fs"] by metis
next
  case (snoc e es)
  have h: "event_hash c e = tip fs"
    using snoc.prems(3,5) by (simp add: chain_ok_append)
  then have "fs \<noteq> []" using event_hash_text(2) [OF ok] by (auto simp: tip_def)
  then obtain fs' f where fs: "fs = fs' @ [f]" by (metis append_butlast_last_id)
  have ef: "ae_event_hash e = ae_event_hash f" "event_hash c e = event_hash c f"
    using snoc.prems(3-5) fs by (simp_all add: chain_ok_append)
  then have "sha256 c (canonical_unhashed c e) = sha256 c (canonical_unhashed c f)"
    by (simp add: event_hash_def)
  then have "canonical_unhashed c e = canonical_unhashed c f"
    by (rule inj_onD [OF snoc.prems(1)]) (use fs in simp_all)
  with snoc.prems(2) [of e f] fs ef(1) have e: "e = f" by (cases e; cases f) simp
  have "tip es = tip fs'"
    using snoc.prems(3,4) e unfolding fs chain_ok_append tip_def by auto
  moreover have "inj_on (sha256 c) (canonical_unhashed c ` (set es \<union> set fs'))"
    by (rule inj_on_subset [OF snoc.prems(1)]) (auto simp: fs)
  moreover have "a\<lparr>ae_event_hash := []\<rparr> = b\<lparr>ae_event_hash := []\<rparr>"
    if "a \<in> set es" "b \<in> set fs'" "canonical_unhashed c a = canonical_unhashed c b" for a b
    using snoc.prems(2) [of a b] that fs by simp
  ultimately have "es = fs'"
    using snoc.IH [of fs'] snoc.prems(3,4) by (simp add: chain_ok_append fs)
  with e fs show ?case by simp
qed

text \<open>
  C16: The log is tamper evident: if any other text verifies against the anchor of a genuine log and
  the digest does not collide on the events of the two, its lines are exactly the genuine events:
  nothing was changed, removed, added or reordered without detection.
\<close>

theorem audit_tamper_evident:
  assumes "audit_codec_ok c E"
    and "\<And>a b. a \<in> set es \<Longrightarrow> b \<in> set fs \<Longrightarrow>
      canonical_unhashed c a = canonical_unhashed c b \<Longrightarrow> a\<lparr>ae_event_hash := []\<rparr> = b\<lparr>ae_event_hash := []\<rparr>"
    and "sink_holds c es s" and "es \<noteq> []"
    and "audit_verify c \<lparr>log_text = Some tampered, anchor_text = anchor_text (js_files s)\<rparr> = Inr t"
    and "map (parse_event c) (split_lines [] (universal_newlines tampered)) = map Some fs"
    and "inj_on (sha256 c) (canonical_unhashed c ` (set es \<union> set fs))"
  shows "fs = es"
proof -
  let ?lines = "split_lines [] (universal_newlines tampered)"
  have anchor: "anchor_text (js_files s) = Some (tip es)" and chain: "chain_ok c [] es"
    using assms(3,4) by (simp_all add: sink_holds_def)
  from assms(5) anchor have v: "verify_lines c [] ?lines = Inr t" and t: "py_strip (tip es) = t"
    by (auto simp: audit_verify_def Let_def res_simps split: if_splits)
  from verify_lines_D [OF assms(1) v] assms(6) obtain gs where gs: "map Some fs = map Some gs"
    "chain_ok c [] gs" "t = (if gs = [] then [] else ae_event_hash (last gs))" by auto
  have g: "gs = fs" using gs(1) by (simp add: inj_map_eq_map)
  have fs: "chain_ok c [] fs" using gs(2) g by simp
  have "t = tip fs" using gs(3) unfolding g tip_def .
  moreover have "t = tip es"
    using t tip_hash [OF chain assms(4)] event_hash_text [OF assms(1)] by simp
  ultimately have tips: "tip es = tip fs" by simp
  have "es = fs" using chain_unique [OF assms(1) _ assms(7) chain fs tips] assms(2) by blast
  then show ?thesis by (rule sym)
qed

subsection \<open>A concrete log\<close>

definition demo_event :: "nat \<Rightarrow> audit_event" where
  "demo_event n = \<lparr>ae_event_id = [n], ae_timestamp = 0, ae_request_id = [114], ae_trace_id = [116],
     ae_principal_type = lit ''human'', ae_tenant_hash = replicate 16 97,
     ae_event_type = ProviderCallAllowed, ae_component = ProviderComponent, ae_action = EgressAction,
     ae_resource_type = None, ae_resource_id_hash = None, ae_authorization = None,
     ae_policy_id = [112], ae_policy_version = [49], ae_outcome = OutAllowed, ae_error_code = None,
     ae_latency_ms = None, ae_call_count = Some 0, ae_stage = Some Routing,
     ae_tool_category = None,
     ae_classification = Some Internal, ae_redaction_status = None, ae_previous_hash = [],
     ae_event_hash = []\<rparr>"

definition demo_chain :: "audit_event list" where
  "demo_chain = [(demo_event 49)\<lparr>ae_event_hash := [98, 49]\<rparr>,
     (demo_event 50)\<lparr>ae_previous_hash := [98, 49], ae_event_hash := [98, 50]\<rparr>]"

definition demo_audit_codec :: audit_codec where
  "demo_audit_codec = \<lparr>canonical = (\<lambda>e. ae_event_id e),
     parse_event = (\<lambda>s. if s = [49] then Some (demo_chain ! 0)
       else if s = [50] then Some (demo_chain ! 1) else None),
     canonical_unhashed = (\<lambda>e. ae_event_id e), sha256 = (\<lambda>x. 98 # filter (\<lambda>c. \<not> py_space c) x)\<rparr>"

definition fresh_sink :: jsonl_sink where
  "fresh_sink = \<lparr>js_files = \<lparr>log_text = None, anchor_text = None\<rparr>, js_closed = False, js_previous = []\<rparr>"

lemma demo_codec_ok: "audit_codec_ok demo_audit_codec (set demo_chain)"
  by (auto simp: audit_codec_ok_def demo_audit_codec_def demo_chain_def demo_event_def list_ex_iff
      py_space_def)

lemma demo_chained: "chained_events demo_audit_codec [] [demo_event 49, demo_event 50] = demo_chain"
  by (simp add: with_chain_hash_def event_hash_def demo_audit_codec_def demo_chain_def Let_def
      demo_event_def py_space_def)

lemma fresh_open: "open_sink c \<lparr>log_text = None, anchor_text = None\<rparr> = Inr fresh_sink"
  by (simp add: open_sink_def fresh_sink_def)

lemma demo_safe: "\<forall>e \<in> set demo_chain. line_safe (canonical demo_audit_codec e)"
  by (simp add: demo_chain_def demo_audit_codec_def demo_event_def line_safe_def line_boundary_def)

theorem audit_log_verifies_witness:
  "open_sink demo_audit_codec
     (js_files (audit_run demo_audit_codec [demo_event 49, demo_event 50] fresh_sink)) =
   Inr (audit_run demo_audit_codec [demo_event 49, demo_event 50] fresh_sink)"
  using audit_log_verifies [OF demo_codec_ok fresh_open, of "[demo_event 49, demo_event 50]",
      unfolded demo_chained] demo_safe by blast

theorem audit_tamper_evident_witness:
  "map (parse_event demo_audit_codec) (split_lines [] (universal_newlines [49, 13, 10, 50, 10])) =
     map Some demo_chain"
proof -
  let ?s = "audit_run demo_audit_codec [demo_event 49, demo_event 50] fresh_sink"
  have "sink_holds demo_audit_codec [] fresh_sink" by (simp add: sink_holds_def fresh_sink_def tip_def)
  from audit_run_holds [OF demo_codec_ok this, of "[demo_event 49, demo_event 50]"] demo_safe
  have h: "sink_holds demo_audit_codec demo_chain ?s"
    unfolding tip_def if_P [OF refl] demo_chained append_Nil by blast
  have p: "map (parse_event demo_audit_codec) (split_lines [] (universal_newlines [49, 13, 10, 50, 10])) =
      map Some [demo_chain ! 0, demo_chain ! 1]"
    by (simp add: demo_audit_codec_def line_boundary_def)
  have v: "audit_verify demo_audit_codec \<lparr>log_text = Some [49, 13, 10, 50, 10],
      anchor_text = anchor_text (js_files ?s)\<rparr> = Inr [98, 50]"
    using h by (simp add: sink_holds_def audit_verify_def line_boundary_def demo_audit_codec_def
        demo_chain_def demo_event_def event_hash_def tip_def py_strip_def py_space_def Let_def)
  have f: "a \<in> set demo_chain \<Longrightarrow> b \<in> set [demo_chain ! 0, demo_chain ! 1] \<Longrightarrow>
      canonical_unhashed demo_audit_codec a = canonical_unhashed demo_audit_codec b \<Longrightarrow>
      a\<lparr>ae_event_hash := []\<rparr> = b\<lparr>ae_event_hash := []\<rparr>" for a b
    by (auto simp: demo_chain_def demo_audit_codec_def demo_event_def)
  have i: "inj_on (sha256 demo_audit_codec) (canonical_unhashed demo_audit_codec `
      (set demo_chain \<union> set [demo_chain ! 0, demo_chain ! 1]))"
    by (simp add: demo_chain_def demo_audit_codec_def demo_event_def py_space_def)
  have "demo_chain \<noteq> []" by (simp add: demo_chain_def)
  have "[demo_chain ! 0, demo_chain ! 1] = demo_chain"
    by (rule audit_tamper_evident [OF demo_codec_ok f h \<open>demo_chain \<noteq> []\<close> v p i])
  with p show ?thesis by (simp only:)
qed

subsection \<open>Two ways the log stops verifying\<close>

text \<open>
  A field that holds a line separator beyond the ASCII control characters, which the canonical JSON
  leaves as it is, is accepted by \<^verbatim>\<open>append\<close> and splits the line when the file is verified.
\<close>

lemma audit_line_separator_rejected:
  assumes "canonical c (with_chain_hash c [] e) = a @ [8232] @ b" and "line_safe a"
    and "13 \<notin> set b" and "parse_event c a = None"
  shows "\<exists>x s. audit_append c IoOk e fresh_sink = (Inr x, s)
     \<and> audit_verify c (js_files s) = Inl IntegrityFailed"
proof -
  have sep: "split_lines l (a @ 8232 # t) = (l @ a) # split_lines [] t" for l t
    using assms(2) by (induction a arbitrary: l) (auto simp: line_safe_def line_boundary_def)
  have "13 \<notin> set a" using assms(2) by (auto simp: line_safe_def list_ex_iff line_boundary_def)
  then have "universal_newlines (a @ 8232 # b @ [10]) = a @ 8232 # b @ [10]"
    using assms(3) by (intro universal_newlines_id) auto
  with assms(1,4) show ?thesis
    by (simp add: audit_append_def fresh_sink_def Let_def existing_def audit_verify_def sep)
qed

text \<open>
  After a write of the anchor failed, the line is in the file but the sink still chains from the
  tip before it: the next append succeeds and leaves a file that does not verify.
\<close>

lemma audit_anchor_failure_breaks_chain:
  assumes ok: "audit_codec_ok c E" and s: "sink_holds c es s" and "set es \<subseteq> E"
    and d: "d = with_chain_hash c (tip es) e" "d \<in> E" "line_safe (canonical c d)"
    and g: "g = with_chain_hash c (tip es) f" "g \<in> E" "line_safe (canonical c g)"
    and fresh: "ae_event_hash d \<noteq> tip es"
  shows "\<exists>s1 s2. audit_append c AnchorFails e s = (Inl WriteFailed, s1)
     \<and> audit_append c IoOk f s1 = (Inr g, s2) \<and> audit_verify c (js_files s2) = Inl IntegrityFailed"
proof -
  have base: "existing (log_text (js_files s)) = log_of c es" "\<not> js_closed s" "js_previous s = tip es"
    using s by (auto simp: sink_holds_def existing_def log_of_def)
  have safe: "\<forall>x \<in> set (es @ [d, g]). line_safe (canonical c x)"
    using s d(3) g(3) by (auto simp: sink_holds_def)
  have log: "log_of c es @ canonical c d @ [10] @ canonical c g @ [10] = log_of c (es @ [d, g])"
    by (simp add: log_of_def)
  have chain: "chain_ok c [] (es @ [d])"
    using s with_chain_hash_sel [OF ok, of "tip es" e] d(1)
    by (auto simp: chain_ok_append sink_holds_def tip_def)
  have "verify_lines c p (map (canonical c) xs) = Inr q \<Longrightarrow>
      verify_lines c p (map (canonical c) xs @ ys) = verify_lines c q ys" for p q xs ys
    by (induction xs arbitrary: p) (auto split: option.splits if_splits)
  from this [OF verify_lines_chain [OF ok chain]] assms(3) d(2)
  have "verify_lines c [] (map (canonical c) (es @ [d, g])) =
      verify_lines c (ae_event_hash d) [canonical c g]" by simp
  also have "\<dots> = Inl IntegrityFailed"
    using ok g with_chain_hash_sel(1) [OF ok, of "tip es" f] fresh by (simp add: audit_codec_ok_def)
  finally have v: "verify_lines c [] (map (canonical c) (es @ [d, g])) = Inl IntegrityFailed" .
  have "universal_newlines (log_of c (es @ [d, g])) = log_of c (es @ [d, g])"
    using log_of_no_cr [OF safe] by (rule universal_newlines_id)
  moreover have "last (log_of c (es @ [d, g])) = 10" by (simp add: log_of_def)
  ultimately have "audit_verify c \<lparr>log_text = Some (log_of c (es @ [d, g])), anchor_text = a\<rparr> =
      Inl IntegrityFailed" for a
    using split_lines_log [OF safe] v by (simp add: audit_verify_def Let_def del: map_append)
  with base d(1) g(1) log show ?thesis
    by (simp add: audit_append_def Let_def existing_def)
qed

end
