(* ===== verification/SecurityModels.thy ===== *)
theory SecurityModels
  imports PyBase
begin

section \<open>Security: principals, scopes, contexts and default-deny authorization\<close>

text \<open>
  \<^verbatim>\<open>security/models.py\<close> and \<^verbatim>\<open>security/policy.py\<close>. Sets of strings are lists read as sets. The
  private factory marker that lets only the two factories build privileged principals is a value of
  \<open>factory_marker\<close>. SHA-256 is the argument \<open>sha\<close>. The decision events carry fields that the
  context has validated already.
\<close>

datatype principal_type = Human | SystemPrincipal | TestPrincipal

datatype auth_method = UpstreamAsserted | InternalSystem | TestFixture

datatype sec_error = Unauthenticated | SecurityContextInvalid | TenantContextMissing
  | ScenarioForbidden | WorkflowForbidden | SkillForbidden | ToolForbidden
  | DataScopeMissing | DataScopeInvalid | DataScopeViolation
  | KnowledgeScopeMissing | KnowledgeScopeInvalid | KnowledgeScopeViolation
  | TenantScopeMismatch | SessionScopeViolation | EvidenceScopeViolation | CitationScopeViolation

text \<open>A refused model validation, or a stable authorization denial.\<close>

datatype security_failure = SecInvalid string | Denied sec_error

subsection \<open>Text\<close>

definition control_char :: "nat \<Rightarrow> bool" where
  "control_char c \<longleftrightarrow> c < 32 \<or> c = 127"

definition validate_text :: "pystr \<Rightarrow> string \<Rightarrow> security_failure + pystr" where
  "validate_text v label =
     (if blank v then Inl (SecInvalid label)
      else let normalized = py_strip v
           in if list_ex control_char normalized then Inl (SecInvalid label) else Inr normalized)"

definition text_ok :: "pystr \<Rightarrow> bool" where
  "text_ok s \<longleftrightarrow> \<not> blank s \<and> py_strip s = s \<and> \<not> list_ex control_char s"

lemma validate_text_ok: "validate_text v l = Inr s \<Longrightarrow> text_ok s \<and> s = py_strip v"
  by (auto simp: validate_text_def text_ok_def Let_def split: if_splits)

lemma validate_text_fix: "text_ok s \<Longrightarrow> validate_text s l = Inr s"
  by (simp add: validate_text_def text_ok_def)

lemma text_ok_no_separator: "text_ok s \<Longrightarrow> 31 \<notin> set s"
  by (auto simp: text_ok_def list_ex_iff control_char_def)

text \<open>A field with bounds on its length, checked before its validator runs.\<close>

definition bounded_text :: "nat \<Rightarrow> pystr \<Rightarrow> string \<Rightarrow> security_failure + pystr" where
  "bounded_text m v label =
     (if v = [] \<or> m < length v then Inl (SecInvalid label) else validate_text v label)"

definition bounded_grants :: "nat \<Rightarrow> nat \<Rightarrow> pystr list \<Rightarrow> string \<Rightarrow> security_failure + pystr list" where
  "bounded_grants least most vs label =
     (if length (remdups vs) < least \<or> most < length (remdups vs) then Inl (SecInvalid label)
      else res_map (\<lambda>v. validate_text v label) vs)"

lemma bounded_text_ok: "bounded_text m v l = Inr s \<Longrightarrow> text_ok s \<and> s = py_strip v"
  by (auto simp: bounded_text_def split: if_splits dest: validate_text_ok)

lemma bounded_grants_ok: "bounded_grants a b vs l = Inr ws \<Longrightarrow> \<forall>w \<in> set ws. text_ok w"
proof -
  assume "bounded_grants a b vs l = Inr ws"
  then have "res_map (\<lambda>v. validate_text v l) vs = Inr ws"
    by (simp add: bounded_grants_def split: if_split_asm)
  then show ?thesis by (rule res_map_all) (simp add: validate_text_ok)
qed

subsection \<open>Principals\<close>

datatype factory_marker = NoMarker | SystemMarker | TestMarker

record principal =
  p_type :: principal_type
  p_subject_id :: pystr
  p_tenant_id :: pystr
  p_roles :: "pystr list"
  p_method :: auth_method

definition expected_method :: "principal_type \<Rightarrow> auth_method" where
  "expected_method t = (case t of Human \<Rightarrow> UpstreamAsserted | SystemPrincipal \<Rightarrow> InternalSystem
     | TestPrincipal \<Rightarrow> TestFixture)"

definition new_principal ::
  "factory_marker \<Rightarrow> principal_type \<Rightarrow> pystr \<Rightarrow> pystr \<Rightarrow> pystr list \<Rightarrow> auth_method
     \<Rightarrow> security_failure + principal" where
  "new_principal marker t subject tenant roles method =
     res_bind (bounded_text 128 subject ''identity identifier'') (\<lambda>subject.
     res_bind (bounded_text 128 tenant ''identity identifier'') (\<lambda>tenant.
     res_bind (bounded_grants 1 16 roles ''role'') (\<lambda>roles.
     res_bind (ensure (method = expected_method t)
       (SecInvalid ''principal type and authentication method are incompatible'')) (\<lambda>_.
     res_bind (ensure (t = SystemPrincipal \<longrightarrow> marker = SystemMarker)
       (SecInvalid ''system principals require the explicit system factory'')) (\<lambda>_.
     res_bind (ensure (t = TestPrincipal \<longrightarrow> marker = TestMarker)
       (SecInvalid ''test principals require the explicit test factory'')) (\<lambda>_.
     Inr \<lparr>p_type = t, p_subject_id = subject, p_tenant_id = tenant, p_roles = roles,
          p_method = method\<rparr>))))))"

definition make_system_principal :: "pystr \<Rightarrow> pystr \<Rightarrow> pystr list \<Rightarrow> security_failure + principal" where
  "make_system_principal subject tenant roles =
     new_principal SystemMarker SystemPrincipal subject tenant roles InternalSystem"

definition make_test_principal :: "pystr \<Rightarrow> pystr \<Rightarrow> pystr list \<Rightarrow> security_failure + principal" where
  "make_test_principal subject tenant roles =
     new_principal TestMarker TestPrincipal subject tenant roles TestFixture"

text \<open>Without a factory only human, upstream-asserted principals can be built.\<close>

lemma new_principal_unprivileged:
  "new_principal NoMarker t s tn rs m = Inr p \<Longrightarrow> p_type p = Human \<and> p_method p = UpstreamAsserted"
  by (cases t) (auto simp: new_principal_def expected_method_def res_simps)

subsection \<open>Scopes\<close>

record data_scope =
  ds_tenant_id :: pystr
  ds_domains :: "pystr list"
  ds_resources :: "pystr list"
  ds_capabilities :: "pystr list"
  ds_version :: pystr

definition new_data_scope ::
  "pystr \<Rightarrow> pystr list \<Rightarrow> pystr list \<Rightarrow> pystr list \<Rightarrow> pystr \<Rightarrow> security_failure + data_scope" where
  "new_data_scope tenant domains resources capabilities version =
     res_bind (bounded_text 128 tenant ''data scope field'') (\<lambda>tenant.
     res_bind (bounded_grants 0 8 domains ''data scope grant'') (\<lambda>domains.
     res_bind (bounded_grants 0 32 resources ''data scope grant'') (\<lambda>resources.
     res_bind (bounded_grants 0 4 capabilities ''data scope grant'') (\<lambda>capabilities.
     res_bind (bounded_text 40 version ''data scope field'') (\<lambda>version.
     Inr \<lparr>ds_tenant_id = tenant, ds_domains = domains, ds_resources = resources,
          ds_capabilities = capabilities, ds_version = version\<rparr>)))))"

definition data_permits :: "data_scope \<Rightarrow> pystr \<Rightarrow> pystr option \<Rightarrow> bool" where
  "data_permits s domain resource \<longleftrightarrow>
     domain \<in> set (ds_domains s) \<and> lit ''read'' \<in> set (ds_capabilities s)
     \<and> (case resource of None \<Rightarrow> True | Some r \<Rightarrow> r \<in> set (ds_resources s))"

record knowledge_scope =
  ks_tenant_id :: pystr
  ks_namespaces :: "pystr list"
  ks_documents :: "pystr list"
  ks_version :: pystr

definition new_knowledge_scope ::
  "pystr \<Rightarrow> pystr list \<Rightarrow> pystr list \<Rightarrow> pystr \<Rightarrow> security_failure + knowledge_scope" where
  "new_knowledge_scope tenant namespaces documents version =
     res_bind (bounded_text 128 tenant ''knowledge scope field'') (\<lambda>tenant.
     res_bind (bounded_grants 0 16 namespaces ''knowledge scope grant'') (\<lambda>namespaces.
     res_bind (bounded_grants 0 128 documents ''knowledge scope grant'') (\<lambda>documents.
     res_bind (bounded_text 40 version ''knowledge scope field'') (\<lambda>version.
     Inr \<lparr>ks_tenant_id = tenant, ks_namespaces = namespaces, ks_documents = documents,
          ks_version = version\<rparr>))))"

definition permits_document :: "knowledge_scope \<Rightarrow> pystr \<Rightarrow> bool" where
  "permits_document s d \<longleftrightarrow> d \<in> set (ks_documents s)"

record session_scope =
  ss_tenant_id :: pystr
  ss_subject_id :: pystr
  ss_version :: pystr

definition new_session_scope :: "pystr \<Rightarrow> pystr \<Rightarrow> pystr \<Rightarrow> security_failure + session_scope" where
  "new_session_scope tenant subject version =
     res_bind (bounded_text 128 tenant ''session scope field'') (\<lambda>tenant.
     res_bind (bounded_text 128 subject ''session scope field'') (\<lambda>subject.
     res_bind (bounded_text 40 version ''session scope field'') (\<lambda>version.
     Inr \<lparr>ss_tenant_id = tenant, ss_subject_id = subject, ss_version = version\<rparr>)))"

lemma new_session_scope_ok:
  "new_session_scope t s v = Inr sc \<Longrightarrow>
     text_ok (ss_tenant_id sc) \<and> text_ok (ss_subject_id sc)
     \<and> ss_tenant_id sc = py_strip t \<and> ss_subject_id sc = py_strip s"
  by (auto simp: new_session_scope_def res_simps dest: bounded_text_ok)

subsection \<open>The security context of a request\<close>

record security_context =
  sc_principal :: principal
  sc_request_id :: pystr
  sc_trace_id :: pystr
  sc_scenarios :: "pystr list"
  sc_workflows :: "pystr list"
  sc_skills :: "pystr list"
  sc_tools :: "pystr list"
  sc_data_scope :: "data_scope option"
  sc_knowledge_scope :: "knowledge_scope option"
  sc_session_scope :: "session_scope option"
  sc_policy_id :: pystr
  sc_policy_version :: pystr

definition build_security_context ::
  "principal \<Rightarrow> pystr \<Rightarrow> pystr \<Rightarrow> pystr list \<Rightarrow> pystr list \<Rightarrow> pystr list \<Rightarrow> pystr list
     \<Rightarrow> data_scope option \<Rightarrow> knowledge_scope option \<Rightarrow> session_scope option
     \<Rightarrow> security_failure + security_context" where
  "build_security_context p request trace scenarios workflows skills tools ds ks ss =
     res_bind (bounded_text 128 request ''security context field'') (\<lambda>request.
     res_bind (bounded_text 128 trace ''security context field'') (\<lambda>trace.
     res_bind (bounded_grants 1 8 scenarios ''authorization grant'') (\<lambda>scenarios.
     res_bind (bounded_grants 1 8 workflows ''authorization grant'') (\<lambda>workflows.
     res_bind (bounded_grants 1 16 skills ''authorization grant'') (\<lambda>skills.
     res_bind (bounded_grants 1 16 tools ''authorization grant'') (\<lambda>tools.
     Inr \<lparr>sc_principal = p, sc_request_id = request, sc_trace_id = trace, sc_scenarios = scenarios,
          sc_workflows = workflows, sc_skills = skills, sc_tools = tools, sc_data_scope = ds,
          sc_knowledge_scope = ks, sc_session_scope = ss, sc_policy_id = lit ''m8c-default-deny'',
          sc_policy_version = lit ''1''\<rparr>))))))"

definition tenant_id_digest :: "(pystr \<Rightarrow> pystr) \<Rightarrow> security_context \<Rightarrow> pystr" where
  "tenant_id_digest sha c = sha (p_tenant_id (sc_principal c))"

definition session_key_text :: "session_scope \<Rightarrow> pystr \<Rightarrow> pystr" where
  "session_key_text scope sid = py_join [31] [ss_tenant_id scope, ss_subject_id scope, sid]"

definition scoped_session_key ::
  "(pystr \<Rightarrow> pystr) \<Rightarrow> security_context \<Rightarrow> pystr \<Rightarrow> security_failure + pystr" where
  "scoped_session_key sha c sid =
     (case sc_session_scope c of
        None \<Rightarrow> Inl (Denied SessionScopeViolation)
      | Some scope \<Rightarrow> res_bind (validate_text sid ''session identifier'') (\<lambda>sid.
          Inr (sha (session_key_text scope sid))))"

subsection \<open>Default-deny authorization\<close>

record security_event =
  se_request_id :: pystr
  se_trace_id :: pystr
  se_principal_type :: principal_type
  se_tenant_digest :: pystr
  se_action :: string
  se_resource_type :: string
  se_allowed :: bool
  se_policy_id :: pystr
  se_policy_version :: pystr
  se_scope_version :: "pystr option"
  se_error_code :: "sec_error option"

definition decision_event ::
  "(pystr \<Rightarrow> pystr) \<Rightarrow> security_context \<Rightarrow> string \<Rightarrow> string \<Rightarrow> bool \<Rightarrow> sec_error \<Rightarrow> pystr option
     \<Rightarrow> security_event" where
  "decision_event sha c action resource_type allowed code version =
     \<lparr>se_request_id = sc_request_id c, se_trace_id = sc_trace_id c,
      se_principal_type = p_type (sc_principal c), se_tenant_digest = tenant_id_digest sha c,
      se_action = action, se_resource_type = resource_type, se_allowed = allowed,
      se_policy_id = sc_policy_id c, se_policy_version = sc_policy_version c,
      se_scope_version = version, se_error_code = (if allowed then None else Some code)\<rparr>"

definition require_grant ::
  "(pystr \<Rightarrow> pystr) \<Rightarrow> security_context \<Rightarrow> string \<Rightarrow> string \<Rightarrow> pystr \<Rightarrow> pystr list \<Rightarrow> sec_error
     \<Rightarrow> security_failure + security_event" where
  "require_grant sha c action resource_type resource grants code =
     (let allowed = (resource \<in> set grants);
          event = decision_event sha c action resource_type allowed code None
      in if \<not> allowed then Inl (Denied code) else Inr event)"

definition scope_event ::
  "(pystr \<Rightarrow> pystr) \<Rightarrow> security_context \<Rightarrow> string \<Rightarrow> string \<Rightarrow> bool \<Rightarrow> sec_error \<Rightarrow> pystr
     \<Rightarrow> security_failure + security_event" where
  "scope_event sha c action resource_type allowed code version =
     (let event = decision_event sha c action resource_type allowed code (Some version)
      in if \<not> allowed then Inl (Denied code) else Inr event)"

definition require_scenario ::
  "(pystr \<Rightarrow> pystr) \<Rightarrow> security_context \<Rightarrow> pystr \<Rightarrow> security_failure + security_event" where
  "require_scenario sha c scenario = require_grant sha c ''enter_scenario'' ''scenario'' scenario
     (sc_scenarios c) ScenarioForbidden"

definition require_workflow ::
  "(pystr \<Rightarrow> pystr) \<Rightarrow> security_context \<Rightarrow> pystr \<Rightarrow> security_failure + security_event" where
  "require_workflow sha c workflow = require_grant sha c ''enter_workflow'' ''workflow'' workflow
     (sc_workflows c) WorkflowForbidden"

definition require_skill ::
  "(pystr \<Rightarrow> pystr) \<Rightarrow> security_context \<Rightarrow> pystr \<Rightarrow> security_failure + security_event" where
  "require_skill sha c skill = require_grant sha c ''execute_skill'' ''skill'' skill
     (sc_skills c) SkillForbidden"

definition require_tool ::
  "(pystr \<Rightarrow> pystr) \<Rightarrow> security_context \<Rightarrow> pystr \<Rightarrow> security_failure + security_event" where
  "require_tool sha c tool = require_grant sha c ''execute_tool'' ''tool'' tool
     (sc_tools c) ToolForbidden"

definition require_data_scope ::
  "(pystr \<Rightarrow> pystr) \<Rightarrow> security_context \<Rightarrow> pystr \<Rightarrow> security_failure + security_event" where
  "require_data_scope sha c domain = (case sc_data_scope c of
       None \<Rightarrow> Inl (Denied DataScopeMissing)
     | Some s \<Rightarrow>
         if ds_tenant_id s \<noteq> p_tenant_id (sc_principal c) then Inl (Denied TenantScopeMismatch)
         else scope_event sha c ''access_data_scope'' ''data_scope''
                (data_permits s domain None \<and> ds_resources s \<noteq> []) DataScopeViolation (ds_version s))"

definition require_knowledge_scope ::
  "(pystr \<Rightarrow> pystr) \<Rightarrow> security_context \<Rightarrow> security_failure + security_event" where
  "require_knowledge_scope sha c = (case sc_knowledge_scope c of
       None \<Rightarrow> Inl (Denied KnowledgeScopeMissing)
     | Some s \<Rightarrow>
         if ks_tenant_id s \<noteq> p_tenant_id (sc_principal c) then Inl (Denied TenantScopeMismatch)
         else scope_event sha c ''access_knowledge_scope'' ''knowledge_scope''
                (ks_documents s \<noteq> []) KnowledgeScopeViolation (ks_version s))"

definition require_session_scope ::
  "(pystr \<Rightarrow> pystr) \<Rightarrow> security_context \<Rightarrow> security_failure + security_event" where
  "require_session_scope sha c = (case sc_session_scope c of
       None \<Rightarrow> Inl (Denied SessionScopeViolation)
     | Some s \<Rightarrow>
         if ss_tenant_id s \<noteq> p_tenant_id (sc_principal c)
           \<or> ss_subject_id s \<noteq> p_subject_id (sc_principal c)
         then Inl (Denied SessionScopeViolation)
         else scope_event sha c ''access_session_scope'' ''session_scope'' True
                SessionScopeViolation (ss_version s))"

subsection \<open>The contract of a policy\<close>

text \<open>
  What the workflow components rely on: a policy that lets a request enter a scenario or workflow, or
  execute a skill or tool, found the grant in the request's own context.
\<close>

locale authorization_policy =
  fixes scenario workflow skill tool ::
    "security_context \<Rightarrow> pystr \<Rightarrow> security_failure + security_event"
  assumes scenario_granted: "scenario c s = Inr e \<Longrightarrow> s \<in> set (sc_scenarios c)"
    and workflow_granted: "workflow c w = Inr e \<Longrightarrow> w \<in> set (sc_workflows c)"
    and skill_granted: "skill c k = Inr e \<Longrightarrow> k \<in> set (sc_skills c)"
    and tool_granted: "tool c t = Inr e \<Longrightarrow> t \<in> set (sc_tools c)"
begin

text \<open>A list of tools that all pass is a list of grants.\<close>

lemma tools_granted: "res_map (tool c) ts = Inr es \<Longrightarrow> set ts \<subseteq> set (sc_tools c)"
  by (induction ts arbitrary: es) (auto simp: res_simps dest: tool_granted)

end

lemma require_grant_Inr:
  "require_grant sha c action rt resource grants code = Inr e \<longleftrightarrow>
     resource \<in> set grants \<and> e = decision_event sha c action rt True code None"
  by (auto simp: require_grant_def Let_def)

interpretation default_deny: authorization_policy
  "require_scenario sha" "require_workflow sha" "require_skill sha" "require_tool sha" for sha
  by unfold_locales
    (auto simp: require_scenario_def require_workflow_def require_skill_def require_tool_def
      require_grant_Inr)

subsection \<open>Properties\<close>


lemma scoped_session_key_Inr:
  assumes "scoped_session_key sha c sid = Inr k"
  shows "\<exists>s. sc_session_scope c = Some s \<and> text_ok (py_strip sid)
     \<and> k = sha (session_key_text s (py_strip sid))"
  using assms
  by (auto simp: scoped_session_key_def res_simps split: option.splits dest: validate_text_ok)

lemma require_session_scope_Inr:
  "require_session_scope sha c = Inr e \<Longrightarrow> \<exists>s. sc_session_scope c = Some s
     \<and> ss_tenant_id s = p_tenant_id (sc_principal c) \<and> ss_subject_id s = p_subject_id (sc_principal c)"
  by (auto simp: require_session_scope_def split: option.splits if_splits)

text \<open>
  C15: Session memory never crosses a tenant or a principal: if two contexts with validated session
  scopes pass the session check and derive the same store key, and the digest does not collide on
  the two texts it was computed from, then they are the same tenant and the same subject asking for the same session label. No choice of
  identifiers can forge the separator.
\<close>

theorem session_keys_isolated:
  assumes scopes: "sc_session_scope c = Some s" "sc_session_scope d = Some u"
    and valid: "text_ok (ss_tenant_id s)" "text_ok (ss_subject_id s)"
      "text_ok (ss_tenant_id u)" "text_ok (ss_subject_id u)"
    and no_collision: "inj_on sha {session_key_text s (py_strip x), session_key_text u (py_strip y)}"
    and "require_session_scope sha c = Inr e" and "require_session_scope sha d = Inr f"
    and "scoped_session_key sha c x = Inr k" and "scoped_session_key sha d y = Inr k"
  shows "p_tenant_id (sc_principal c) = p_tenant_id (sc_principal d)
    \<and> p_subject_id (sc_principal c) = p_subject_id (sc_principal d) \<and> py_strip x = py_strip y"
proof -
  from scoped_session_key_Inr [OF assms(10)] scoped_session_key_Inr [OF assms(11)] scopes
  have ok: "text_ok (py_strip x)" "text_ok (py_strip y)"
    and k: "sha (session_key_text s (py_strip x)) = sha (session_key_text u (py_strip y))" by auto
  have "session_key_text s (py_strip x) = session_key_text u (py_strip y)"
    using inj_onD [OF no_collision k] by simp
  then have "[ss_tenant_id s, ss_subject_id s, py_strip x] =
      [ss_tenant_id u, ss_subject_id u, py_strip y]"
    unfolding session_key_text_def
    by (rule py_join_inject) (use ok valid in \<open>auto simp: text_ok_no_separator\<close>)
  with require_session_scope_Inr [OF assms(8)] require_session_scope_Inr [OF assms(9)] scopes
  show ?thesis by auto
qed

definition demo_principal :: principal where
  "demo_principal = \<lparr>p_type = Human, p_subject_id = lit ''u'', p_tenant_id = lit ''t'',
     p_roles = [lit ''r''], p_method = UpstreamAsserted\<rparr>"

definition demo_scope :: session_scope where
  "demo_scope = \<lparr>ss_tenant_id = lit ''t'', ss_subject_id = lit ''u'', ss_version = lit ''1''\<rparr>"

definition demo_context :: security_context where
  "demo_context = \<lparr>sc_principal = demo_principal, sc_request_id = lit ''r'', sc_trace_id = lit ''t'',
     sc_scenarios = [lit ''data_query''], sc_workflows = [lit ''data_query''],
     sc_skills = [lit ''enterprise_data_analysis''], sc_tools = [lit ''x''], sc_data_scope = None,
     sc_knowledge_scope = None, sc_session_scope = Some demo_scope,
     sc_policy_id = lit ''m8c-default-deny'', sc_policy_version = lit ''1''\<rparr>"

theorem session_keys_isolated_witness:
  "\<exists>k. scoped_session_key (\<lambda>s. s) demo_context [115] = Inr k
    \<and> scoped_session_key (\<lambda>s. s) demo_context [32, 115] = Inr k \<and> py_strip [115] = py_strip [32, 115]"
proof -
  have key: "scoped_session_key (\<lambda>s. s) demo_context [115] = Inr (lit ''t'' @ [31] @ lit ''u'' @ [31, 115])"
    "scoped_session_key (\<lambda>s. s) demo_context [32, 115] = Inr (lit ''t'' @ [31] @ lit ''u'' @ [31, 115])"
    by (simp_all add: scoped_session_key_def demo_context_def validate_text_def py_space_def
        py_strip_def control_char_def session_key_text_def demo_scope_def)
  have e: "\<exists>e. require_session_scope (\<lambda>s. s) demo_context = Inr e"
    by (simp add: require_session_scope_def demo_context_def demo_principal_def demo_scope_def
        scope_event_def)
  have t: "text_ok (ss_tenant_id demo_scope)" "text_ok (ss_subject_id demo_scope)"
    by (simp_all add: demo_scope_def text_ok_def lit_def py_space_def py_strip_def control_char_def)
  have "py_strip [115] = py_strip [32, 115]"
    using e session_keys_isolated [OF _ _ t t _ _ _ key]
    by (auto simp: demo_context_def demo_scope_def session_key_text_def py_strip_def py_space_def)
  with key show ?thesis by blast
qed

end
