(* ===== verification/Governance.thy ===== *)
theory Governance
  imports Redaction AuditLog SecurityModels
begin

section \<open>Security: governed provider calls\<close>

text \<open>
  \<^verbatim>\<open>security/governance.py\<close>. One call runs the redactor, the egress policy, the audit sink, the
  transport and the output check in this order; what is injected is the record \<open>governance\<close>: the
  policy, the audit sink with its state of type \<open>'s\<close>, the redactor, the transport's reply, the
  size of a canonical payload, the text of a result and the fresh identifier and time of an event.
  The context of a bound request is an optional argument, its call counter part of the state. The
  effects of a call are returned in order; a transport carries the state of the sink at that moment.
\<close>

subsection \<open>Sinks\<close>

text \<open>
  What governance relies on of a sink: an event whose append succeeded is held, in its content, by
  every later state.
\<close>

locale audit_sink =
  fixes append :: "audit_event \<Rightarrow> 's \<Rightarrow> (audit_error + audit_event) \<times> 's"
    and holds :: "audit_event \<Rightarrow> 's \<Rightarrow> bool"
  assumes append_holds: "append e s = (Inr x, s') \<Longrightarrow> holds e s'"
    and append_keeps: "holds d s \<Longrightarrow> append e s = (r, s') \<Longrightarrow> holds d s'"

record memory_sink =
  ms_events :: "audit_event list"
  ms_closed :: bool

definition memory_sink_append :: "audit_event \<Rightarrow> memory_sink \<Rightarrow> (audit_error + audit_event) \<times> memory_sink" where
  "memory_sink_append e s =
     (if ms_closed s then (Inl SinkClosed, s) else (Inr e, s\<lparr>ms_events := ms_events s @ [e]\<rparr>))"

definition memory_sink_close :: "memory_sink \<Rightarrow> memory_sink" where
  "memory_sink_close s = s\<lparr>ms_closed := True\<rparr>"

interpretation memory_audit: audit_sink memory_sink_append "\<lambda>e s. e \<in> set (ms_events s)"
  by unfold_locales (auto simp: memory_sink_append_def split: if_splits)

text \<open>The durable sink holds an event when its line, chained to some predecessor, is in the file.\<close>

definition jsonl_holds :: "audit_codec \<Rightarrow> audit_event \<Rightarrow> jsonl_sink \<Rightarrow> bool" where
  "jsonl_holds c e s \<longleftrightarrow>
     (\<exists>p. sublist (canonical c (with_chain_hash c p e) @ [10]) (existing (log_text (js_files s))))"

lemma audit_append_log:
  "audit_append c io e s = (r, s') \<Longrightarrow>
     \<exists>t. existing (log_text (js_files s')) = existing (log_text (js_files s)) @ t"
  by (auto simp: audit_append_def Let_def existing_def split: if_splits audit_io.splits)

interpretation jsonl_audit: audit_sink "\<lambda>e s. audit_append c (io s e) e s" "jsonl_holds c" for c io
proof (unfold_locales, goal_cases)
  case (1 e s x s')
  then have "existing (log_text (js_files s')) = existing (log_text (js_files s))
      @ canonical c (with_chain_hash c (js_previous s) e) @ [10]"
    by (auto simp: audit_append_def Let_def existing_def split: if_splits audit_io.splits)
  then show ?case unfolding jsonl_holds_def
    by (intro exI [of _ "js_previous s"]) (simp add: sublist_def, metis append_Nil2)
next
  case (2 d s e r s')
  then obtain p t where "sublist (canonical c (with_chain_hash c p d) @ [10])
      (existing (log_text (js_files s)))"
    "existing (log_text (js_files s')) = existing (log_text (js_files s)) @ t"
    using audit_append_log by (metis jsonl_holds_def)
  then show ?case unfolding jsonl_holds_def sublist_def by (metis append.assoc)
qed

subsection \<open>The call\<close>

datatype gov_error = PolicyError string | AuditFailed audit_error | EventRejected | TransportRaised

datatype 'r transport_reply = TResult 'r | TPolicy string | TRaised

record request_context =
  rc_request_id :: pystr
  rc_trace_id :: pystr
  rc_principal_type :: pystr
  rc_tenant_hash :: pystr
  rc_policy_id :: pystr
  rc_policy_version :: pystr

record ('s, 'r) governance =
  gv_policy :: "provider_policy option"
  gv_append :: "(audit_event \<Rightarrow> 's \<Rightarrow> (audit_error + audit_event) \<times> 's) option"
  gv_redactor :: "text_rules option"
  gv_transport :: "pvalue \<Rightarrow> 'r transport_reply"
  gv_size :: "pvalue \<Rightarrow> int"
  gv_text :: "'r \<Rightarrow> pystr"
  gv_fresh :: "'s \<Rightarrow> pystr \<times> int"

record 's gov_state =
  gs_count :: nat
  gs_sink :: 's

datatype 's gov_effect = Audited audit_event | Transported pvalue 's

type_synonym ('s, 'a) gov_result = "(gov_error + 'a) \<times> 's gov_state \<times> 's gov_effect list"

definition principal_name :: "principal_type \<Rightarrow> pystr" where
  "principal_name t = (case t of Human \<Rightarrow> lit ''human'' | SystemPrincipal \<Rightarrow> lit ''system''
     | TestPrincipal \<Rightarrow> lit ''test'')"

definition bind_request ::
  "(pystr \<Rightarrow> pystr) \<Rightarrow> ('s, 'r) governance \<Rightarrow> pystr \<Rightarrow> pystr \<Rightarrow> security_context
     \<Rightarrow> string + request_context" where
  "bind_request sha G request_id trace_id c =
     (case gv_policy G of
        None \<Rightarrow> Inl ''provider_policy_missing''
      | Some p \<Rightarrow>
          if gv_append G = None then Inl ''audit_sink_missing''
          else if gv_redactor G = None then Inl ''provider_redaction_failed''
          else Inr \<lparr>rc_request_id = request_id, rc_trace_id = trace_id,
                    rc_principal_type = principal_name (p_type (sc_principal c)),
                    rc_tenant_hash = sha (p_tenant_id (sc_principal c)),
                    rc_policy_id = pp_policy_id p, rc_policy_version = pp_version p\<rparr>)"

definition audit_code :: "audit_error \<Rightarrow> string" where
  "audit_code e = (case e of ChainInvalid \<Rightarrow> ''audit_chain_invalid'' | IntegrityFailed \<Rightarrow> ''audit_chain_invalid''
     | _ \<Rightarrow> ''audit_write_failed'')"

text \<open>
  The event an append builds. The latency that the callers pass is not among the fields the source
  fills in, so it stays absent.
\<close>

definition gov_event ::
  "('s, 'r) governance \<Rightarrow> request_context \<Rightarrow> 's gov_state \<Rightarrow> audit_event_type \<Rightarrow> audit_outcome
     \<Rightarrow> provider_stage option \<Rightarrow> data_classification option \<Rightarrow> nat option \<Rightarrow> string option \<Rightarrow> audit_event" where
  "gov_event G ctx st kind outcome stage classification redactions code =
     (let (eid, now) = gv_fresh G (gs_sink st)
      in \<lparr>ae_event_id = eid, ae_timestamp = now, ae_request_id = rc_request_id ctx,
          ae_trace_id = rc_trace_id ctx, ae_principal_type = rc_principal_type ctx,
          ae_tenant_hash = rc_tenant_hash ctx, ae_event_type = kind,
          ae_component = ProviderComponent, ae_action = EgressAction,
          ae_resource_type = None, ae_resource_id_hash = None, ae_authorization = None,
          ae_policy_id = rc_policy_id ctx, ae_policy_version = rc_policy_version ctx,
          ae_outcome = outcome, ae_error_code = code, ae_latency_ms = None,
          ae_call_count = Some (int (gs_count st)), ae_stage = stage, ae_tool_category = None,
          ae_classification = classification,
          ae_redaction_status = map_option (\<lambda>n. lit ''redacted_'' @ py_nat_str n) redactions,
          ae_previous_hash = [], ae_event_hash = []\<rparr>)"

definition gov_append ::
  "('s, 'r) governance \<Rightarrow> audit_event \<Rightarrow> 's gov_state \<Rightarrow> ('s, unit) gov_result" where
  "gov_append G e st =
     (case gv_append G of
        None \<Rightarrow> (Inl (AuditFailed SinkUnavailable), st, [])
      | Some app \<Rightarrow>
          if \<not> audit_event_ok e then (Inl EventRejected, st, [])
          else (case app e (gs_sink st) of
              (Inl err, s) \<Rightarrow> (Inl (AuditFailed err), st\<lparr>gs_sink := s\<rparr>, [])
            | (Inr _, s) \<Rightarrow> (Inr (), st\<lparr>gs_sink := s\<rparr>, [Audited e])))"

text \<open>\<^verbatim>\<open>_append_blocked\<close> followed by raising the policy error, unless the sink fails.\<close>

definition gov_blocked ::
  "('s, 'r) governance \<Rightarrow> request_context \<Rightarrow> provider_stage \<Rightarrow> data_classification \<Rightarrow> string
     \<Rightarrow> 's gov_state \<Rightarrow> ('s, 'a) gov_result" where
  "gov_blocked G ctx stage classification code st =
     (case gov_append G (gov_event G ctx st ProviderCallBlocked OutBlocked (Some stage)
             (Some classification) None (Some code)) st of
        (Inl (AuditFailed err), st', fx) \<Rightarrow> (Inl (PolicyError (audit_code err)), st', fx)
      | (Inl e, st', fx) \<Rightarrow> (Inl e, st', fx)
      | (Inr _, st', fx) \<Rightarrow> (Inl (PolicyError code), st', fx))"

text \<open>The checks before the transport: the sanitized payload, its redactions and the stage entry.\<close>

definition gov_admit ::
  "('s, 'r) governance \<Rightarrow> provider_stage \<Rightarrow> data_classification \<Rightarrow> pvalue \<Rightarrow> int \<Rightarrow> nat
     \<Rightarrow> string + (pvalue \<times> nat)" where
  "gov_admit G stage classification payload evidence_count calls =
     (case gv_redactor G of
        None \<Rightarrow> Inl ''provider_redaction_failed''
      | Some T \<Rightarrow> res_bind (sanitize_provider_payload T classification payload) (\<lambda>(sanitized, n).
          res_bind (require_provider_egress (gv_policy G) stage classification (gv_size G sanitized)
            (int calls)) (\<lambda>entry.
          if sp_max_evidence_items entry < evidence_count then Inl ''provider_payload_too_large''
          else Inr (sanitized, n))))"

text \<open>After the transport: the output check and the closing event.\<close>

definition gov_finish ::
  "('s, 'r) governance \<Rightarrow> request_context \<Rightarrow> provider_stage \<Rightarrow> data_classification
     \<Rightarrow> 'r transport_reply \<Rightarrow> 's gov_state \<Rightarrow> ('s, 'r) gov_result" where
  "gov_finish G ctx stage classification reply st =
     (case reply of
        TPolicy code \<Rightarrow> gov_blocked G ctx stage classification code st
      | TRaised \<Rightarrow>
          (case gov_append G (gov_event G ctx st ProviderCallFailed OutFailed (Some stage)
               (Some classification) None (Some ''provider_transport_failed'')) st of
             (Inl e, st', fx) \<Rightarrow> (Inl e, st', fx)
           | (Inr _, st', fx) \<Rightarrow> (Inl TransportRaised, st', fx))
      | TResult r \<Rightarrow>
          (case gv_redactor G of
             None \<Rightarrow> gov_blocked G ctx stage classification ''provider_redaction_failed'' st
           | Some T \<Rightarrow>
              (case ensure_safe_provider_output T (stage = DataPlanning) (gv_text G r) of
                 Inl code \<Rightarrow> gov_blocked G ctx stage classification code st
               | Inr _ \<Rightarrow>
                   (case gov_append G (gov_event G ctx st ProviderCallCompleted OutCompleted
                        (Some stage) (Some classification) None None) st of
                      (Inl e, st', fx) \<Rightarrow> (Inl e, st', fx)
                    | (Inr _, st', fx) \<Rightarrow> (Inr r, st', fx)))))"

definition gov_call ::
  "('s, 'r) governance \<Rightarrow> request_context option \<Rightarrow> provider_stage \<Rightarrow> pvalue \<Rightarrow> data_classification
     \<Rightarrow> int \<Rightarrow> 's gov_state \<Rightarrow> ('s, 'r) gov_result" where
  "gov_call G bound stage payload classification evidence_count st =
     (case bound of
        None \<Rightarrow> (Inl (PolicyError ''provider_policy_missing''), st, [])
      | Some ctx \<Rightarrow>
          if gv_append G = None then (Inl (PolicyError ''audit_sink_missing''), st, [])
          else (case gov_admit G stage classification payload evidence_count (gs_count st) of
              Inl code \<Rightarrow> gov_blocked G ctx stage classification code st
            | Inr (sanitized, n) \<Rightarrow>
                (case gov_append G (gov_event G ctx st ProviderCallAllowed OutAllowed (Some stage)
                     (Some classification) (Some n) None) st of
                   (Inl (AuditFailed err), st', fx) \<Rightarrow> (Inl (PolicyError (audit_code err)), st', fx)
                 | (Inl e, st', fx) \<Rightarrow> (Inl e, st', fx)
                 | (Inr _, st', fx) \<Rightarrow>
                     (case gov_finish G ctx stage classification (gv_transport G sanitized)
                         (st'\<lparr>gs_count := gs_count st' + 1\<rparr>) of
                        (r, st'', fx') \<Rightarrow>
                          (r, st'', fx @ [Transported sanitized (gs_sink st')] @ fx')))))"

text \<open>\<^verbatim>\<open>audit\<close> and \<^verbatim>\<open>audit_for_request\<close>: boundary events outside a provider call.\<close>

definition gov_audit ::
  "('s, 'r) governance \<Rightarrow> request_context option \<Rightarrow> audit_event_type \<Rightarrow> audit_outcome \<Rightarrow> string option
     \<Rightarrow> 's gov_state \<Rightarrow> ('s, unit) gov_result" where
  "gov_audit G bound kind outcome code st =
     (case bound of
        None \<Rightarrow> (Inl (PolicyError ''provider_policy_missing''), st, [])
      | Some ctx \<Rightarrow>
          if gv_append G = None then (Inl (PolicyError ''audit_sink_missing''), st, [])
          else gov_append G (gov_event G ctx st kind outcome None None None code) st)"

definition gov_audit_for_request ::
  "(pystr \<Rightarrow> pystr) \<Rightarrow> ('s, 'r) governance \<Rightarrow> pystr \<Rightarrow> pystr \<Rightarrow> security_context \<Rightarrow> audit_event_type
     \<Rightarrow> audit_outcome \<Rightarrow> string option \<Rightarrow> 's \<Rightarrow> ('s, unit) gov_result" where
  "gov_audit_for_request sha G request_id trace_id c kind outcome code sink =
     (case bind_request sha G request_id trace_id c of
        Inl e \<Rightarrow> (Inl (PolicyError e), \<lparr>gs_count = 0, gs_sink = sink\<rparr>, [])
      | Inr ctx \<Rightarrow> gov_audit G (Some ctx) kind outcome code \<lparr>gs_count = 0, gs_sink = sink\<rparr>)"

text \<open>\<^verbatim>\<open>_evidence_count\<close> on the messages of a chat request, and on any payload.\<close>

definition evidence_length :: "pvalue \<Rightarrow> nat" where
  "evidence_length m = (case m of
     PDict fs \<Rightarrow> (case map_of fs (lit ''evidence'') of
         Some (PList xs) \<Rightarrow> length xs
       | Some (PTuple xs) \<Rightarrow> length xs
       | _ \<Rightarrow> 0)
   | _ \<Rightarrow> 0)"

definition evidence_count :: "pvalue list \<Rightarrow> nat" where
  "evidence_count messages = sum_list (map evidence_length messages)"

fun evidence_count_from_payload :: "pvalue \<Rightarrow> nat" where
  "evidence_count_from_payload (PDict fs) = sum_list (map (\<lambda>(k, v). evidence_count_from_payload v) fs)"
| "evidence_count_from_payload (PList xs) = sum_list (map evidence_count_from_payload xs)"
| "evidence_count_from_payload (PTuple xs) = sum_list (map evidence_count_from_payload xs)"
| "evidence_count_from_payload (PObject name s) = (if suffix ''Evidence'' name then 1 else 0)"
| "evidence_count_from_payload v = 0"

text \<open>The calls of one bound request, one after the other.\<close>

fun gov_run ::
  "('s, 'r) governance \<Rightarrow> request_context \<Rightarrow> (provider_stage \<times> pvalue \<times> data_classification \<times> int) list
     \<Rightarrow> 's gov_state \<Rightarrow> 's gov_state \<times> 's gov_effect list" where
  "gov_run G ctx [] st = (st, [])"
| "gov_run G ctx ((stage, payload, classification, n) # calls) st =
     (case gov_call G (Some ctx) stage payload classification n st of
        (r, st', fx) \<Rightarrow> (case gov_run G ctx calls st' of (st'', fx') \<Rightarrow> (st'', fx @ fx')))"

subsection \<open>What the effects show\<close>

lemma gov_append_cases:
  assumes "gov_append G e st = (r, st', fx)"
  shows "gs_count st' = gs_count st \<and>
    ((r = Inr () \<and> fx = [Audited e]
        \<and> (\<exists>app x. gv_append G = Some app \<and> app e (gs_sink st) = (Inr x, gs_sink st')))
     \<or> (\<exists>err. r = Inl err \<and> fx = []))"
  using assms by (auto simp: gov_append_def split: option.splits if_splits sum.splits prod.splits)

lemma gov_blocked_cases:
  assumes "gov_blocked G ctx stage c code st = (r, st', fx)"
  shows "gs_count st' = gs_count st \<and> (\<exists>e. r = Inl e)
    \<and> set fx \<subseteq> range Audited"
proof -
  let ?e = "gov_event G ctx st ProviderCallBlocked OutBlocked (Some stage) (Some c) None (Some code)"
  obtain x st1 fx1 where a: "gov_append G ?e st = (x, st1, fx1)" by (metis prod_cases3)
  from gov_append_cases [OF a] a assms show ?thesis
    by (auto simp: gov_blocked_def split: gov_error.splits)
qed

lemma gov_finish_cases:
  assumes "gov_finish G ctx stage c reply st = (r, st', fx)"
  shows "gs_count st' = gs_count st \<and> set fx \<subseteq> range Audited
    \<and> (case r of Inl e \<Rightarrow> True
       | Inr x \<Rightarrow> reply = TResult x
           \<and> (\<exists>T. gv_redactor G = Some T \<and>
                ensure_safe_provider_output T (stage = DataPlanning) (gv_text G x) = Inr ())
           \<and> fx = [Audited (gov_event G ctx st ProviderCallCompleted OutCompleted (Some stage) (Some c)
                None None)])"
proof -
  have fin: ?thesis
    if a: "gov_append G e st = (x, st1, fx1)"
      and r: "(r, st', fx) = (case (x, st1, fx1) of (Inl e, st', fx) \<Rightarrow> (Inl e, st', fx)
                    | (Inr _, st', fx) \<Rightarrow> (y, st', fx))"
      and ok: "\<And>z. y = Inr z \<Longrightarrow> reply = TResult z \<and> (\<exists>T. gv_redactor G = Some T \<and>
                ensure_safe_provider_output T (stage = DataPlanning) (gv_text G z) = Inr ())
           \<and> e = gov_event G ctx st ProviderCallCompleted OutCompleted (Some stage) (Some c) None None"
    for e x st1 fx1 y
    using gov_append_cases [OF a] r ok by (auto split: sum.splits)
  have blocked: ?thesis if "gov_blocked G ctx stage c code st = (r, st', fx)" for code
    using gov_blocked_cases [OF that] by auto
  show ?thesis
  proof (cases reply)
    case (TResult y)
    show ?thesis
    proof (cases "gv_redactor G")
      case None
      with TResult assms blocked show ?thesis by (simp add: gov_finish_def)
    next
      case (Some T)
      show ?thesis
      proof (cases "ensure_safe_provider_output T (stage = DataPlanning) (gv_text G y)")
        case (Inl code)
        with TResult Some assms blocked show ?thesis by (simp add: gov_finish_def)
      next
        case (Inr u)
        let ?e = "gov_event G ctx st ProviderCallCompleted OutCompleted (Some stage) (Some c) None None"
        obtain x st1 fx1 where a: "gov_append G ?e st = (x, st1, fx1)" by (metis prod_cases3)
        show ?thesis
          by (rule fin [OF a, of "Inr y"])
            (use assms TResult Some Inr a in \<open>auto simp: gov_finish_def split: sum.splits\<close>)
      qed
    qed
  next
    case (TPolicy code)
    with assms blocked show ?thesis by (simp add: gov_finish_def)
  next
    case TRaised
    let ?e = "gov_event G ctx st ProviderCallFailed OutFailed (Some stage) (Some c) None
      (Some ''provider_transport_failed'')"
    obtain x st1 fx1 where a: "gov_append G ?e st = (x, st1, fx1)" by (metis prod_cases3)
    show ?thesis
      by (rule fin [OF a, of "Inl TransportRaised"])
        (use assms TRaised a in \<open>auto simp: gov_finish_def split: sum.splits\<close>)
  qed
qed

text \<open>A call transports nothing, or it transports once, between its own events.\<close>

lemma gov_call_cases:
  assumes "gov_call G (Some ctx) stage payload c n st = (r, st', fx)"
  shows "(set fx \<subseteq> range Audited \<and> gs_count st' = gs_count st \<and> (\<exists>e. r = Inl e))
    \<or> (\<exists>app p k x sink fx'.
        gov_admit G stage c payload n (gs_count st) = Inr (p, k) \<and> gv_append G = Some app
        \<and> app (gov_event G ctx st ProviderCallAllowed OutAllowed (Some stage) (Some c) (Some k) None)
            (gs_sink st) = (Inr x, sink)
        \<and> fx = Audited (gov_event G ctx st ProviderCallAllowed OutAllowed (Some stage) (Some c) (Some k)
            None) # Transported p sink # fx'
        \<and> set fx' \<subseteq> range Audited \<and> gs_count st' = gs_count st + 1
        \<and> gov_finish G ctx stage c (gv_transport G p) \<lparr>gs_count = gs_count st + 1, gs_sink = sink\<rparr> =
            (r, st', fx'))"
proof (cases "gv_append G")
  case None
  with assms show ?thesis by (auto simp: gov_call_def)
next
  case (Some app)
  show ?thesis
  proof (cases "gov_admit G stage c payload n (gs_count st)")
    case (Inl code)
    with assms Some have "gov_blocked G ctx stage c code st = (r, st', fx)" by (simp add: gov_call_def)
    from gov_blocked_cases [OF this] show ?thesis by auto
  next
    case (Inr pk)
    obtain p k where pk: "pk = (p, k)" by fastforce
    let ?e = "gov_event G ctx st ProviderCallAllowed OutAllowed (Some stage) (Some c) (Some k) None"
    obtain x st1 fx1 where a: "gov_append G ?e st = (x, st1, fx1)" by (metis prod_cases3)
    show ?thesis
    proof (cases "x = Inr ()")
      case False
      with gov_append_cases [OF a] obtain err where "x = Inl err" "fx1 = []" "gs_count st1 = gs_count st"
        by auto
      with assms Some Inr pk a show ?thesis
        by (cases err) (auto simp: gov_call_def)
    next
      case True
      with gov_append_cases [OF a] Some obtain y where ok: "app ?e (gs_sink st) = (Inr y, gs_sink st1)"
        "fx1 = [Audited ?e]" "gs_count st1 = gs_count st" by auto
      obtain r2 st2 fx2 where f: "gov_finish G ctx stage c (gv_transport G p)
          (st1\<lparr>gs_count := gs_count st1 + 1\<rparr>) = (r2, st2, fx2)" by (metis prod_cases3)
      have st1: "st1\<lparr>gs_count := gs_count st1 + 1\<rparr> = \<lparr>gs_count = gs_count st + 1, gs_sink = gs_sink st1\<rparr>"
        using ok(3) by (cases st1) simp
      from assms Some Inr pk a True f have "(r, st', fx) = (r2, st2, fx1 @ [Transported p (gs_sink st1)] @ fx2)"
        by (simp add: gov_call_def)
      then have fx: "fx = Audited ?e # Transported p (gs_sink st1) # fx2" "r2 = r" "st2 = st'"
        using ok(2) by simp_all
      note f' = f [unfolded st1 fx(2,3)]
      from gov_finish_cases [OF f'] have "set fx2 \<subseteq> range Audited" "gs_count st' = gs_count st + 1"
        by simp_all
      with Inr pk Some ok(1) f' fx(1) show ?thesis by blast
    qed
  qed
qed

context audit_sink
begin

text \<open>At the moment of a transport the sink holds the event that allowed it.\<close>

lemma transport_is_audited:
  assumes "gv_append G = Some append"
    and "gov_call G (Some ctx) stage payload c n st = (r, st', fx)"
    and "Transported p sink \<in> set fx"
  shows "\<exists>k. gov_admit G stage c payload n (gs_count st) = Inr (p, k)
    \<and> holds (gov_event G ctx st ProviderCallAllowed OutAllowed (Some stage) (Some c) (Some k) None) sink"
  using gov_call_cases [OF assms(2)] assms(1,3) append_holds by fastforce

end

lemma gov_admit_Inr:
  "gov_admit G stage c payload n calls = Inr (p, k) \<Longrightarrow>
     (\<exists>T P e. gv_redactor G = Some T \<and> sanitize_provider_payload T c payload = Inr (p, k)
       \<and> gv_policy G = Some P
       \<and> require_provider_egress (Some P) stage c (gv_size G p) (int calls) = Inr e
       \<and> n \<le> sp_max_evidence_items e)"
  by (cases "gv_policy G")
    (auto simp: gov_admit_def require_provider_egress_def res_simps split: option.splits if_splits)

text \<open>
  C18: Nothing leaves before its facts are durable: whenever a governed call over the hash-chained file
  reaches the transport, the payload sent is the sanitized one, the egress policy admitted its stage,
  classification, size and evidence count, and at that moment the file already holds the line of the
  event that allowed exactly this call.
\<close>

theorem transport_only_after_audit:
  assumes "gv_append G = Some (\<lambda>e s. audit_append codec (io s e) e s)"
    and "gov_call G (Some ctx) stage payload c n st = (r, st', fx)"
    and "Transported p sink \<in> set fx"
  shows "\<exists>T P e k. gv_redactor G = Some T \<and> sanitize_provider_payload T c payload = Inr (p, k)
    \<and> gv_policy G = Some P
    \<and> require_provider_egress (Some P) stage c (gv_size G p) (int (gs_count st)) = Inr e
    \<and> n \<le> sp_max_evidence_items e
    \<and> jsonl_holds codec
        (gov_event G ctx st ProviderCallAllowed OutAllowed (Some stage) (Some c) (Some k) None) sink"
proof -
  from jsonl_audit.transport_is_audited [OF assms] obtain k where
    a: "gov_admit G stage c payload n (gs_count st) = Inr (p, k)" and
    h: "jsonl_holds codec
      (gov_event G ctx st ProviderCallAllowed OutAllowed (Some stage) (Some c) (Some k) None) sink" by blast
  from gov_admit_Inr [OF a] h show ?thesis by blast
qed

text \<open>
  A result is released only if it passed the output check and its completion was recorded: when a
  governed call returns a result, the transport produced it, no prohibited marker is in its text,
  SQL only for the data planner, and the last effect is the recorded completion event.
\<close>

theorem released_result_checked:
  assumes "gov_call G (Some ctx) stage payload c n st = (Inr x, st', fx)"
  shows "\<exists>p T. gv_transport G p = TResult x \<and> gv_redactor G = Some T
    \<and> \<not> marker_found T (gv_text G x) \<and> (stage = DataPlanning \<or> \<not> sql_found T (gv_text G x))
    \<and> (\<exists>e. last fx = Audited e \<and> ae_event_type e = ProviderCallCompleted \<and> ae_stage e = Some stage)"
proof -
  from gov_call_cases [OF assms] obtain p sink fx' e where
    fx: "fx = Audited e # Transported p sink # fx'"
    and f: "gov_finish G ctx stage c (gv_transport G p)
      \<lparr>gs_count = gs_count st + 1, gs_sink = sink\<rparr> = (Inr x, st', fx')" by auto
  from gov_finish_cases [OF f] obtain T where "gv_transport G p = TResult x" "gv_redactor G = Some T"
    "ensure_safe_provider_output T (stage = DataPlanning) (gv_text G x) = Inr ()"
    "fx' = [Audited (gov_event G ctx \<lparr>gs_count = gs_count st + 1, gs_sink = sink\<rparr>
       ProviderCallCompleted OutCompleted (Some stage) (Some c) None None)]" by auto
  with fx show ?thesis
    by (auto simp: ensure_safe_provider_output_def gov_event_def split: if_splits prod.splits)
qed

fun transported :: "'s gov_effect \<Rightarrow> bool" where
  "transported (Transported p s) = True"
| "transported (Audited e) = False"

lemma no_transport: "set fx \<subseteq> range Audited \<Longrightarrow> filter transported fx = []"
  by (induction fx) auto

lemma gov_call_transports:
  assumes "gov_call G (Some ctx) stage payload c n st = (r, st', fx)"
  shows "gs_count st' = gs_count st + length (filter transported fx)
    \<and> (filter transported fx \<noteq> [] \<longrightarrow>
         (\<exists>P. gv_policy G = Some P \<and> int (gs_count st') \<le> pp_max_calls P))"
  using gov_call_cases [OF assms]
proof (elim disjE exE conjE)
  fix app p k x sink fx'
  assume a: "gov_admit G stage c payload n (gs_count st) = Inr (p, k)"
    and "fx = Audited (gov_event G ctx st ProviderCallAllowed OutAllowed (Some stage) (Some c) (Some k)
      None) # Transported p sink # fx'" "set fx' \<subseteq> range Audited" "gs_count st' = gs_count st + 1"
  moreover from gov_admit_Inr [OF a] obtain P where "gv_policy G = Some P"
    "int (gs_count st) < pp_max_calls P"
    by (auto simp: require_provider_egress_def res_simps split: if_splits)
  ultimately show ?thesis by (auto simp: no_transport)
qed (simp add: no_transport)

lemma gov_run_transports:
  assumes "gov_run G ctx calls st = (st', fx)" and "gv_policy G = Some P"
    and "int (gs_count st) \<le> pp_max_calls P"
  shows "gs_count st' = gs_count st + length (filter transported fx)
    \<and> int (gs_count st') \<le> pp_max_calls P"
  using assms
proof (induction calls arbitrary: st fx)
  case (Cons call calls)
  obtain stage payload c n where call: "call = (stage, payload, c, n)" by (metis prod_cases4)
  obtain r st1 fx1 where a: "gov_call G (Some ctx) stage payload c n st = (r, st1, fx1)"
    by (metis prod_cases3)
  obtain fx2 where b: "gov_run G ctx calls st1 = (st', fx2)" "fx = fx1 @ fx2"
    using Cons.prems(1) a call by (auto split: prod.splits)
  have "int (gs_count st1) \<le> pp_max_calls P"
    using gov_call_transports [OF a] Cons.prems(2,3) by (cases "filter transported fx1") auto
  from Cons.IH [OF b(1) Cons.prems(2) this] gov_call_transports [OF a] b(2) show ?case by simp
qed simp

text \<open>
  The call budget of a request is never exceeded: over any sequence of governed calls of one bound
  request, whatever the provider and the sink answer, the transport runs at most
  \<open>max_provider_calls\<close> times, and the counter is exactly the number of transports.
\<close>

theorem provider_calls_bounded:
  assumes "gov_run G ctx calls \<lparr>gs_count = 0, gs_sink = sink\<rparr> = (st', fx)"
    and "gv_policy G = Some P" and "validate_provider_policy P = Inr P"
  shows "int (length (filter transported fx)) \<le> pp_max_calls P
    \<and> gs_count st' = length (filter transported fx)"
proof -
  have "0 \<le> pp_max_calls P"
    using assms(3) by (auto simp: validate_provider_policy_def split: if_splits)
  with gov_run_transports [OF assms(1,2)] show ?thesis by simp
qed

subsection \<open>A concrete governed call\<close>

definition demo_gov :: "(jsonl_sink, pystr) governance" where
  "demo_gov = \<lparr>gv_policy = Some controlled_mixed,
     gv_append = Some (\<lambda>e s. audit_append demo_audit_codec IoOk e s), gv_redactor = Some demo_rules,
     gv_transport = (\<lambda>p. TResult (lit ''ok'')), gv_size = (\<lambda>p. 10), gv_text = (\<lambda>r. r),
     gv_fresh = (\<lambda>s. ([49], 0))\<rparr>"

definition demo_request :: request_context where
  "demo_request = \<lparr>rc_request_id = [114], rc_trace_id = [116], rc_principal_type = lit ''human'',
     rc_tenant_hash = replicate 16 97, rc_policy_id = [112], rc_policy_version = [49]\<rparr>"

definition demo_gov_state :: "jsonl_sink gov_state" where
  "demo_gov_state = \<lparr>gs_count = 0, gs_sink = fresh_sink\<rparr>"

definition demo_clean :: pvalue where
  "demo_clean = PDict [(lit ''tenant_id'', PStr redacted), (lit ''q'', PList [PStr (lit ''hi'')])]"

lemma demo_admit: "gov_admit demo_gov Routing Internal demo_payload 0 0 = Inr (demo_clean, 1)"
  by (simp add: gov_admit_def demo_gov_def demo_sanitize demo_clean_def require_provider_egress_def
      find_stage_def controlled_mixed_def stage_entry_def query_only_def)

lemma demo_gov_append:
  assumes "\<not> js_closed (gs_sink st)" and "audit_event_ok e"
  shows "\<exists>st'. gov_append demo_gov e st = (Inr (), st', [Audited e])
    \<and> js_closed (gs_sink st') = js_closed (gs_sink st)"
proof -
  obtain x s' where a: "audit_append demo_audit_codec IoOk e (gs_sink st) = (Inr x, s')"
    "js_closed s' = js_closed (gs_sink st)"
    using assms by (simp add: audit_append_def Let_def)
  have "gv_append demo_gov = Some (\<lambda>e s. audit_append demo_audit_codec IoOk e s)"
    by (simp add: demo_gov_def)
  with a assms(2) show ?thesis by (simp add: gov_append_def)
qed

lemma gov_event_type:
  "ae_event_type (gov_event G ctx st kind outcome stage classification redactions code) = kind"
  by (cases "gv_fresh G (gs_sink st)") (simp add: gov_event_def)

lemma demo_event_ok:
  assumes "gs_count st \<le> 32" and "redactions \<in> {None, Some 1}"
  shows "audit_event_ok (gov_event demo_gov demo_request st kind outcome stage classification
     redactions None)"
  using assms
  by (auto simp: gov_event_def demo_gov_def demo_request_def audit_event_ok_def lit_def
      py_nat_str.simps [of "Suc 0"])

lemma demo_call:
  "\<exists>st' sink e e'. gov_call demo_gov (Some demo_request) Routing demo_payload Internal 0 demo_gov_state =
     (Inr (lit ''ok''), st', [Audited e, Transported demo_clean sink, Audited e'])"
proof -
  have "\<not> marker_found demo_rules (lit ''ok'')" "\<not> sql_found demo_rules (lit ''ok'')"
    by (simp_all add: demo_rules_def lit_def)
  then have safe: "ensure_safe_provider_output demo_rules b (lit ''ok'') = Inr ()" for b
    by (simp add: ensure_safe_provider_output_def)
  let ?e = "gov_event demo_gov demo_request demo_gov_state ProviderCallAllowed OutAllowed
    (Some Routing) (Some Internal) (Some 1) None"
  obtain st1 where a: "gov_append demo_gov ?e demo_gov_state = (Inr (), st1, [Audited ?e])"
    "\<not> js_closed (gs_sink st1)" using demo_gov_append [of demo_gov_state ?e] demo_event_ok [of demo_gov_state "Some 1"]
    by (auto simp: demo_gov_state_def fresh_sink_def)
  have "gs_count st1 = 0" using gov_append_cases [OF a(1)] by (simp add: demo_gov_state_def)
  let ?st = "st1\<lparr>gs_count := gs_count st1 + 1\<rparr>"
  let ?f = "gov_event demo_gov demo_request ?st ProviderCallCompleted OutCompleted (Some Routing)
    (Some Internal) None None"
  obtain st2 where b: "gov_append demo_gov ?f ?st = (Inr (), st2, [Audited ?f])"
    using demo_gov_append [of ?st ?f] demo_event_ok [of ?st None] \<open>gs_count st1 = 0\<close> a(2) by auto
  have "gov_finish demo_gov demo_request Routing Internal (gv_transport demo_gov demo_clean) ?st =
      (Inr (lit ''ok''), st2, [Audited ?f])"
    using safe b by (simp add: gov_finish_def) (simp add: demo_gov_def)
  with a(1) demo_admit show ?thesis
    by (simp add: gov_call_def) (simp add: demo_gov_state_def demo_gov_def)
qed

theorem transport_only_after_audit_witness:
  "\<exists>sink e. jsonl_holds demo_audit_codec e sink \<and> ae_event_type e = ProviderCallAllowed"
proof -
  obtain st' sink e e' where c: "gov_call demo_gov (Some demo_request) Routing demo_payload Internal 0
      demo_gov_state = (Inr (lit ''ok''), st', [Audited e, Transported demo_clean sink, Audited e'])"
    using demo_call by blast
  have g: "gv_append demo_gov = Some (\<lambda>e s. audit_append demo_audit_codec ((\<lambda>s e. IoOk) s e) e s)"
    by (simp add: demo_gov_def)
  have "Transported demo_clean sink \<in> set [Audited e, Transported demo_clean sink, Audited e']" by simp
  from transport_only_after_audit [OF g c this] show ?thesis using gov_event_type by blast
qed

theorem released_result_checked_witness:
  "\<not> marker_found demo_rules (lit ''ok'') \<and> gv_redactor demo_gov = Some demo_rules"
proof -
  obtain st' sink e e' where c: "gov_call demo_gov (Some demo_request) Routing demo_payload Internal 0
      demo_gov_state = (Inr (lit ''ok''), st', [Audited e, Transported demo_clean sink, Audited e'])"
    using demo_call by blast
  have gt: "gv_text demo_gov (lit ''ok'') = lit ''ok''" and T: "gv_redactor demo_gov = Some demo_rules"
    by (simp_all add: demo_gov_def)
  from released_result_checked [OF c, unfolded gt T] show ?thesis using T by auto
qed

theorem provider_calls_bounded_witness:
  "\<exists>st' fx. gov_run demo_gov demo_request [(Routing, demo_payload, Internal, 0)] demo_gov_state = (st', fx)
     \<and> length (filter transported fx) = 1 \<and> gs_count st' = 1"
proof -
  obtain st' sink e e' where c: "gov_call demo_gov (Some demo_request) Routing demo_payload Internal 0
      demo_gov_state = (Inr (lit ''ok''), st', [Audited e, Transported demo_clean sink, Audited e'])"
    using demo_call by blast
  then have run: "gov_run demo_gov demo_request [(Routing, demo_payload, Internal, 0)]
      \<lparr>gs_count = 0, gs_sink = fresh_sink\<rparr> = (st', [Audited e, Transported demo_clean sink, Audited e'])"
    by (simp add: demo_gov_state_def)
  have "gv_policy demo_gov = Some controlled_mixed" by (simp add: demo_gov_def)
  from provider_calls_bounded [OF run this controlled_mixed_valid]
  have "gs_count st' = 1" by simp
  with run show ?thesis by (simp add: demo_gov_state_def)
qed

text \<open>The latency of a call is computed and passed, but no event of a governed call carries it.\<close>

lemma governed_events_have_no_latency:
  "ae_latency_ms (gov_event G ctx st kind outcome stage classification redactions code) = None"
  by (simp add: gov_event_def split: prod.splits)

end
