(* ===== verification/Skills.thy ===== *)
theory Skills
  imports ContextRuntime SecurityModels Complex_Main
begin

section \<open>Skills: contracts, registry and invocation\<close>

text \<open>
  \<^verbatim>\<open>routing/models.py\<close>, \<^verbatim>\<open>coordination/models.py\<close> (the skill result), \<^verbatim>\<open>skills/contracts.py\<close>,
  \<^verbatim>\<open>skills/registry.py\<close> and \<^verbatim>\<open>coordination/skill_execution.py\<close>. A skill is a record of its definition,
  of the optional entry points it offers and of its run, a function of the call, of the request's
  context runtime and of a world of type \<open>'w\<close> that stands for everything behind it (tools, providers,
  databases). The state of a request, \<open>flow\<close>, threads the runtime and the world through the calls and
  keeps the list of the calls made, newest last. Tracing does not influence a result and is left out.
\<close>

subsection \<open>Routes and decisions\<close>

datatype request_route = KnowledgeRoute | DataRoute | MixedRoute | UnsupportedRoute

definition route_value :: "request_route \<Rightarrow> pystr" where
  "route_value r = (case r of KnowledgeRoute \<Rightarrow> lit ''knowledge'' | DataRoute \<Rightarrow> lit ''data''
     | MixedRoute \<Rightarrow> lit ''mixed'' | UnsupportedRoute \<Rightarrow> lit ''unsupported'')"

record router_decision =
  rd_route :: request_route
  rd_query :: pystr
  rd_reason :: pystr
  rd_knowledge :: "pystr option"
  rd_data :: "pystr option"
  rd_missing :: "pystr option"
  rd_confidence :: rat

text \<open>A text field: its declared bound on the given value, then the whitespace rule.\<close>

definition text_field :: "nat \<Rightarrow> pystr \<Rightarrow> string + pystr" where
  "text_field limit s =
     (if s = [] \<or> limit < length s then Inl ''field''
      else if blank s then Inl ''text fields cannot be blank'' else Inr (py_strip s))"

definition optional_text_field :: "nat \<Rightarrow> pystr option \<Rightarrow> string + pystr option" where
  "optional_text_field limit s = (case s of
       None \<Rightarrow> Inr None
     | Some t \<Rightarrow> if limit < length t then Inl ''field''
         else if blank t then Inl ''text fields cannot be blank'' else Inr (Some (py_strip t)))"

definition route_contract :: "request_route \<Rightarrow> pystr option \<Rightarrow> pystr option \<Rightarrow> bool" where
  "route_contract r k d = (case r of
       KnowledgeRoute \<Rightarrow> k \<noteq> None \<and> d = None
     | DataRoute \<Rightarrow> d \<noteq> None \<and> k = None
     | MixedRoute \<Rightarrow> k \<noteq> None \<and> d \<noteq> None
     | UnsupportedRoute \<Rightarrow> k = None \<and> d = None)"

definition new_router_decision ::
  "request_route \<Rightarrow> pystr \<Rightarrow> pystr \<Rightarrow> pystr option \<Rightarrow> pystr option \<Rightarrow> pystr option \<Rightarrow> rat
     \<Rightarrow> string + router_decision" where
  "new_router_decision route query reason knowledge data missing confidence =
     res_bind (text_field 4000 query) (\<lambda>query.
     res_bind (text_field 600 reason) (\<lambda>reason.
     res_bind (optional_text_field 2000 knowledge) (\<lambda>knowledge.
     res_bind (optional_text_field 2000 data) (\<lambda>data.
     res_bind (optional_text_field 600 missing) (\<lambda>missing.
     res_bind (ensure (0 \<le> confidence \<and> confidence \<le> 1) ''confidence'') (\<lambda>_.
     res_bind (ensure (route_contract route knowledge data) ''route'') (\<lambda>_.
     Inr \<lparr>rd_route = route, rd_query = query, rd_reason = reason, rd_knowledge = knowledge,
          rd_data = data, rd_missing = missing, rd_confidence = confidence\<rparr>)))))))"

subsection \<open>Skill results\<close>

datatype skill_status = SkillCompleted | SkillFailed

record skill_result =
  sr_status :: skill_status
  sr_name :: pystr
  sr_version :: pystr
  sr_route :: request_route
  sr_answer :: "pystr option"
  sr_citations :: "pystr list"
  sr_steps :: "pystr list"
  sr_tool :: "pystr option"
  sr_error :: "pystr option"

text \<open>\<^verbatim>\<open>^\[E\d+\]$\<close> (letter 69) and \<^verbatim>\<open>^\[D\d+\]$\<close> (letter 68), matched in full.\<close>

definition skill_citation :: "nat \<Rightarrow> pystr \<Rightarrow> bool" where
  "skill_citation letter s = (case s of
     c # l # rest \<Rightarrow> c = 91 \<and> l = letter \<and> butlast rest \<noteq> [] \<and> list_all py_digit (butlast rest)
       \<and> last rest = 93
   | _ \<Rightarrow> False)"

definition route_citations :: "request_route \<Rightarrow> pystr option \<Rightarrow> pystr list \<Rightarrow> bool" where
  "route_citations r tool cs = (case r of
       KnowledgeRoute \<Rightarrow> tool \<noteq> None \<and> list_all (skill_citation 69) cs
     | DataRoute \<Rightarrow> tool \<noteq> None \<and> list_all (skill_citation 68) cs
     | MixedRoute \<Rightarrow> tool = None \<and> list_all (\<lambda>c. skill_citation 69 c \<or> skill_citation 68 c) cs
     | UnsupportedRoute \<Rightarrow> False)"

definition terminal_contract :: "skill_result \<Rightarrow> bool" where
  "terminal_contract r = (case sr_status r of
       SkillCompleted \<Rightarrow> sr_answer r \<noteq> None \<and> sr_error r = None
         \<and> route_citations (sr_route r) (sr_tool r) (sr_citations r)
     | SkillFailed \<Rightarrow> sr_answer r = None \<and> sr_citations r = [] \<and> sr_tool r = None \<and> sr_error r \<noteq> None)"

definition new_skill_result ::
  "skill_status \<Rightarrow> pystr \<Rightarrow> pystr \<Rightarrow> request_route \<Rightarrow> pystr option \<Rightarrow> pystr list \<Rightarrow> pystr list
     \<Rightarrow> pystr option \<Rightarrow> pystr option \<Rightarrow> string + skill_result" where
  "new_skill_result status name version route answer citations steps tool code =
     res_bind (ensure (name \<noteq> [] \<and> length name \<le> 120) ''skill_name'') (\<lambda>_.
     res_bind (ensure (version \<noteq> [] \<and> length version \<le> 40) ''skill_version'') (\<lambda>_.
     res_bind (optional_text_field 8000 answer) (\<lambda>answer.
     res_bind (ensure (length steps \<le> 8) ''executed_steps'') (\<lambda>_.
     res_bind (ensure (steps \<noteq> [] \<and> list_all (\<lambda>s. \<not> blank s) steps)
        ''executed_steps must be nonempty named steps'') (\<lambda>_.
     res_bind (ensure (case tool of None \<Rightarrow> True | Some t \<Rightarrow> length t \<le> 120) ''selected_tool'') (\<lambda>_.
     res_bind (optional_text_field 120 code) (\<lambda>code.
     let r = \<lparr>sr_status = status, sr_name = name, sr_version = version, sr_route = route,
              sr_answer = answer, sr_citations = citations, sr_steps = steps, sr_tool = tool,
              sr_error = code\<rparr>
     in if terminal_contract r then Inr r else Inl ''terminal contract'')))))))"

text \<open>What every constructed result satisfies.\<close>

definition skill_result_ok :: "skill_result \<Rightarrow> bool" where
  "skill_result_ok r \<longleftrightarrow> terminal_contract r \<and> sr_steps r \<noteq> [] \<and> length (sr_steps r) \<le> 8
     \<and> sr_name r \<noteq> [] \<and> length (sr_name r) \<le> 120
     \<and> (case sr_answer r of None \<Rightarrow> True | Some a \<Rightarrow> \<not> blank a \<and> length a \<le> 8000)
     \<and> (case sr_error r of None \<Rightarrow> True | Some e \<Rightarrow> \<not> blank e \<and> length e \<le> 120)"

lemma length_py_strip: "length (py_strip s) \<le> length s"
  by (simp add: py_strip_def)
    (metis length_dropWhile_le length_rev le_trans)

lemma new_skill_result_ok: "new_skill_result st n v r a cs ss t c = Inr x \<Longrightarrow> skill_result_ok x"
  by (auto simp: new_skill_result_def res_simps skill_result_ok_def optional_text_field_def Let_def
      split: if_splits option.splits intro: order_trans [OF length_py_strip])

lemma completed_result:
  "skill_result_ok r \<Longrightarrow> sr_status r = SkillCompleted \<Longrightarrow>
     sr_error r = None \<and> route_citations (sr_route r) (sr_tool r) (sr_citations r)
     \<and> sr_route r \<noteq> UnsupportedRoute \<and> (\<exists>a. sr_answer r = Some a \<and> length a \<le> 8000)"
  by (auto simp: skill_result_ok_def terminal_contract_def route_citations_def split: option.splits)

lemma failed_result:
  "skill_result_ok r \<Longrightarrow> sr_status r = SkillFailed \<Longrightarrow>
     sr_answer r = None \<and> sr_citations r = [] \<and> sr_tool r = None
     \<and> (\<exists>e. sr_error r = Some e \<and> length e \<le> 120)"
  by (auto simp: skill_result_ok_def terminal_contract_def split: option.splits)

subsection \<open>Skills\<close>

record skill_definition =
  sd_name :: pystr
  sd_version :: pystr
  sd_description :: pystr
  sd_route :: request_route
  sd_input :: "pystr list"
  sd_tools :: "pystr list"
  sd_steps :: "pystr list"
  sd_output :: "pystr list"
  sd_failures :: "pystr list"
  sd_requires :: "pystr list"

text \<open>
  The three ways a skill is called: with the trace extension (given the user item only when the
  skill also takes a context, and the security context only when it is present and accepted), with
  the context extension, or plainly.
\<close>

datatype skill_call =
    TraceCall pystr router_decision "pystr option" "security_context option"
  | ContextCall pystr router_decision pystr
  | PlainCall pystr router_decision

datatype 'a skill_reply = Returned 'a | NotAResult | Refused sec_error | Threw | Cancelled

record 'w skill =
  sl_definition :: skill_definition
  sl_applicable :: "pystr \<Rightarrow> router_decision \<Rightarrow> bool"
  sl_with_trace :: bool
  sl_with_context :: bool
  sl_takes_security :: bool
  sl_run :: "skill_call \<Rightarrow> request_runtime \<Rightarrow> 'w \<Rightarrow> skill_result skill_reply \<times> request_runtime \<times> 'w"

abbreviation sl_name :: "'w skill \<Rightarrow> pystr" where
  "sl_name s \<equiv> sd_name (sl_definition s)"

abbreviation sl_route :: "'w skill \<Rightarrow> request_route" where
  "sl_route s \<equiv> sd_route (sl_definition s)"

subsection \<open>Registry\<close>

datatype registry_error = NameRegistered | RouteRegistered | NotRegistered | RouteNotRegistered

definition registry_code :: "registry_error \<Rightarrow> pystr" where
  "registry_code e = (case e of NameRegistered \<Rightarrow> lit ''skill_name_already_registered''
     | RouteRegistered \<Rightarrow> lit ''skill_route_already_registered''
     | NotRegistered \<Rightarrow> lit ''skill_not_registered''
     | RouteNotRegistered \<Rightarrow> lit ''skill_route_not_registered'')"

record 'w registry =
  rg_names :: "(pystr \<times> 'w skill) list"
  rg_routes :: "(request_route \<times> 'w skill) list"

definition new_registry :: "'w registry" where
  "new_registry = \<lparr>rg_names = [], rg_routes = []\<rparr>"

definition rg_register :: "'w skill \<Rightarrow> 'w registry \<Rightarrow> registry_error + 'w registry" where
  "rg_register s R =
     (if map_of (rg_names R) (sl_name s) \<noteq> None then Inl NameRegistered
      else if map_of (rg_routes R) (sl_route s) \<noteq> None then Inl RouteRegistered
      else Inr \<lparr>rg_names = rg_names R @ [(sl_name s, s)], rg_routes = rg_routes R @ [(sl_route s, s)]\<rparr>)"

definition rg_get :: "pystr \<Rightarrow> 'w registry \<Rightarrow> registry_error + 'w skill" where
  "rg_get name R = (case map_of (rg_names R) name of None \<Rightarrow> Inl NotRegistered | Some s \<Rightarrow> Inr s)"

definition rg_for_route :: "request_route \<Rightarrow> 'w registry \<Rightarrow> registry_error + 'w skill" where
  "rg_for_route r R = (case map_of (rg_routes R) r of None \<Rightarrow> Inl RouteNotRegistered | Some s \<Rightarrow> Inr s)"

definition rg_all_names :: "'w registry \<Rightarrow> pystr list" where
  "rg_all_names R = map fst (rg_names R)"

inductive registry_built :: "'w registry \<Rightarrow> bool" where
  "registry_built new_registry"
| "registry_built R \<Longrightarrow> rg_register s R = Inr R' \<Longrightarrow> registry_built R'"

definition registry_ok :: "'w registry \<Rightarrow> bool" where
  "registry_ok R \<longleftrightarrow> map snd (rg_names R) = map snd (rg_routes R)
     \<and> distinct (map fst (rg_names R)) \<and> distinct (map fst (rg_routes R))
     \<and> (\<forall>(n, s) \<in> set (rg_names R). n = sl_name s) \<and> (\<forall>(r, s) \<in> set (rg_routes R). r = sl_route s)"

lemma registry_built_ok: "registry_built R \<Longrightarrow> registry_ok R"
proof (induction rule: registry_built.induct)
  case 1
  show ?case by (simp add: registry_ok_def new_registry_def)
next
  case (2 R s R')
  then show ?case
    by (auto simp: registry_ok_def rg_register_def map_of_eq_None_iff split: if_splits)
qed

text \<open>A built registry answers a route with the skill of that route, which its name finds too.\<close>

lemma map_of_names_routes:
  assumes "map snd xs = map snd ys" and "(r, s) \<in> set ys"
  shows "\<exists>n. (n, s) \<in> set xs"
proof -
  from assms(2) have "s \<in> set (map snd ys)" by force
  with assms(1) have "s \<in> set (map snd xs)" by simp
  then show ?thesis by auto
qed

lemma registry_okD:
  assumes "registry_ok R"
  shows "map snd (rg_names R) = map snd (rg_routes R)" and "distinct (map fst (rg_names R))"
    and "(n, s) \<in> set (rg_names R) \<Longrightarrow> n = sl_name s"
    and "(r, s) \<in> set (rg_routes R) \<Longrightarrow> r = sl_route s"
  using assms unfolding registry_ok_def by blast+

lemma registry_name_ok:
  assumes "registry_ok R" and "rg_get n R = Inr s"
  shows "sl_name s = n"
proof -
  have "(n, s) \<in> set (rg_names R)"
    using assms(2) by (auto simp: rg_get_def map_of_SomeD split: option.splits)
  from registry_okD(3) [OF assms(1) this] show ?thesis by (rule sym)
qed

lemma registry_route_ok:
  assumes "registry_ok R" and "rg_for_route r R = Inr s"
  shows "sl_route s = r \<and> rg_get (sl_name s) R = Inr s"
proof -
  have route: "(r, s) \<in> set (rg_routes R)"
    using assms(2) by (auto simp: rg_for_route_def map_of_SomeD split: option.splits)
  from map_of_names_routes [OF registry_okD(1) [OF assms(1)] route] obtain n where
    n: "(n, s) \<in> set (rg_names R)" by (elim exE)
  from registry_okD(3) [OF assms(1) n] have name: "n = sl_name s" .
  have "map_of (rg_names R) n = Some s"
    by (rule map_of_is_SomeI [OF registry_okD(2) [OF assms(1)] n])
  with registry_okD(4) [OF assms(1) route] name show ?thesis by (metis option.simps(5) rg_get_def)
qed

subsection \<open>Invocation\<close>

record auth_policy =
  ap_scenario :: "security_context \<Rightarrow> pystr \<Rightarrow> security_failure + security_event"
  ap_workflow :: "security_context \<Rightarrow> pystr \<Rightarrow> security_failure + security_event"
  ap_skill :: "security_context \<Rightarrow> pystr \<Rightarrow> security_failure + security_event"
  ap_tool :: "security_context \<Rightarrow> pystr \<Rightarrow> security_failure + security_event"
  ap_data_scope :: "security_context \<Rightarrow> pystr \<Rightarrow> security_failure + security_event"
  ap_knowledge_scope :: "security_context \<Rightarrow> security_failure + security_event"

definition default_deny_policy :: "(pystr \<Rightarrow> pystr) \<Rightarrow> auth_policy" where
  "default_deny_policy sha = \<lparr>ap_scenario = require_scenario sha, ap_workflow = require_workflow sha,
     ap_skill = require_skill sha, ap_tool = require_tool sha, ap_data_scope = require_data_scope sha,
     ap_knowledge_scope = require_knowledge_scope sha\<rparr>"

datatype flow_call = RouterCall | PlannerCall | SkillRun pystr skill_call | ReviewerCall

record 'w flow =
  fl_runtime :: request_runtime
  fl_world :: 'w
  fl_calls :: "flow_call list"

definition authorize_tools ::
  "auth_policy option \<Rightarrow> security_context option \<Rightarrow> pystr list \<Rightarrow> security_failure + unit" where
  "authorize_tools policy sec tools = (case policy of
       None \<Rightarrow> Inr ()
     | Some P \<Rightarrow> (case sec of
           None \<Rightarrow> Inl (Denied Unauthenticated)
         | Some c \<Rightarrow> res_bind (res_map (ap_tool P c) tools) (\<lambda>_. Inr ())))"

definition refusal :: "security_failure \<Rightarrow> 'a skill_reply" where
  "refusal f = (case f of Denied c \<Rightarrow> Refused c | SecInvalid s \<Rightarrow> Threw)"

text \<open>How a flow ends, and the codes it reports.\<close>

datatype 'a flow_result = Finished 'a | FlowCancelled | FlowThrew

definition sec_code :: "sec_error \<Rightarrow> pystr" where
  "sec_code e = (case e of
     Unauthenticated \<Rightarrow> lit ''unauthenticated''
   | SecurityContextInvalid \<Rightarrow> lit ''security_context_invalid''
   | TenantContextMissing \<Rightarrow> lit ''tenant_context_missing''
   | ScenarioForbidden \<Rightarrow> lit ''scenario_forbidden''
   | WorkflowForbidden \<Rightarrow> lit ''workflow_forbidden''
   | SkillForbidden \<Rightarrow> lit ''skill_forbidden''
   | ToolForbidden \<Rightarrow> lit ''tool_forbidden''
   | DataScopeMissing \<Rightarrow> lit ''data_scope_missing''
   | DataScopeInvalid \<Rightarrow> lit ''data_scope_invalid''
   | DataScopeViolation \<Rightarrow> lit ''data_scope_violation''
   | KnowledgeScopeMissing \<Rightarrow> lit ''knowledge_scope_missing''
   | KnowledgeScopeInvalid \<Rightarrow> lit ''knowledge_scope_invalid''
   | KnowledgeScopeViolation \<Rightarrow> lit ''knowledge_scope_violation''
   | TenantScopeMismatch \<Rightarrow> lit ''tenant_scope_mismatch''
   | SessionScopeViolation \<Rightarrow> lit ''session_scope_violation''
   | EvidenceScopeViolation \<Rightarrow> lit ''evidence_scope_violation''
   | CitationScopeViolation \<Rightarrow> lit ''citation_scope_violation'')"

text \<open>\<^verbatim>\<open>code or fallback\<close>\<close>

definition code_or :: "pystr option \<Rightarrow> pystr \<Rightarrow> pystr" where
  "code_or code fallback = (case code of None \<Rightarrow> fallback | Some c \<Rightarrow> if c = [] then fallback else c)"

definition skill_call_of ::
  "'w skill \<Rightarrow> pystr \<Rightarrow> router_decision \<Rightarrow> pystr \<Rightarrow> security_context option \<Rightarrow> skill_call" where
  "skill_call_of s query d user sec =
     (if sl_with_trace s
      then TraceCall query d (if sl_with_context s then Some user else None)
             (if sl_takes_security s then sec else None)
      else if sl_with_context s then ContextCall query d user
      else PlainCall query d)"

definition run_skill :: "'w skill \<Rightarrow> skill_call \<Rightarrow> 'w flow \<Rightarrow> skill_result skill_reply \<times> 'w flow" where
  "run_skill s call fl = (case sl_run s call (fl_runtime fl) (fl_world fl) of
     (r, rt, w) \<Rightarrow> (r, \<lparr>fl_runtime = rt, fl_world = w, fl_calls = fl_calls fl @ [SkillRun (sl_name s) call]\<rparr>))"

definition skill_memory_consumed :: "request_runtime \<Rightarrow> nat \<Rightarrow> pystr option \<Rightarrow> bool" where
  "skill_memory_consumed rt start memory = (case memory of
       None \<Rightarrow> False
     | Some m \<Rightarrow> list_ex (\<lambda>d. dg_node d \<in> {''knowledge'', ''data''} \<and> m \<in> set (dg_selected d))
         (drop start (rt_diagnostics rt)))"

definition execute_registered_skill ::
  "'w skill \<Rightarrow> pystr \<Rightarrow> router_decision \<Rightarrow> pystr \<Rightarrow> pystr option \<Rightarrow> security_context option
     \<Rightarrow> auth_policy option \<Rightarrow> 'w flow \<Rightarrow> (skill_result skill_reply \<times> bool) \<times> 'w flow" where
  "execute_registered_skill s query d user memory sec policy fl =
     (case authorize_tools policy sec (sd_tools (sl_definition s)) of
        Inl f \<Rightarrow> ((refusal f, False), fl)
      | Inr _ \<Rightarrow> (case run_skill s (skill_call_of s query d user sec) fl of
          (r, fl') \<Rightarrow> ((r, sl_with_context s \<and>
              skill_memory_consumed (fl_runtime fl') (length (rt_diagnostics (fl_runtime fl))) memory),
            fl')))"

lemma execute_registered_skill_calls:
  assumes "execute_registered_skill s query d user memory sec policy fl = ((r, m), fl')"
  shows "(fl' = fl \<and> (\<exists>f. r = refusal f))
    \<or> (fl_calls fl' = fl_calls fl @ [SkillRun (sl_name s) (skill_call_of s query d user sec)]
        \<and> authorize_tools policy sec (sd_tools (sl_definition s)) = Inr ()
        \<and> (\<exists>rt w rt' w'. sl_run s (skill_call_of s query d user sec) rt w = (r, rt', w')))"
  using assms
  by (auto simp: execute_registered_skill_def run_skill_def split: sum.splits prod.splits)

lemma refusal_not_returned [simp]: "refusal f \<noteq> Returned r" "refusal f \<noteq> NotAResult" "refusal f \<noteq> Cancelled"
  by (cases f; simp add: refusal_def)+

definition skill_ok :: "'w skill \<Rightarrow> bool" where
  "skill_ok s \<longleftrightarrow> (\<forall>call rt w r rt' w'. sl_run s call rt w = (Returned r, rt', w') \<longrightarrow> skill_result_ok r)"

lemma execute_registered_skill_ok:
  assumes "execute_registered_skill s query d user memory sec policy fl = ((Returned r, m), fl')"
    and "skill_ok s"
  shows "skill_result_ok r"
  using execute_registered_skill_calls [OF assms(1)]
proof (elim disjE conjE exE)
  fix rt w rt' w'
  assume "sl_run s (skill_call_of s query d user sec) rt w = (Returned r, rt', w')"
  with assms(2) show ?thesis unfolding skill_ok_def by blast
next
  fix f
  assume "Returned r = refusal f"
  then show ?thesis by (metis refusal_not_returned(1))
qed

context authorization_policy
begin

lemma authorized_tools:
  assumes "authorize_tools (Some P) sec tools = Inr ()" and "ap_tool P = tool"
  shows "\<exists>c. sec = Some c \<and> set tools \<subseteq> set (sc_tools c)"
  using assms tools_granted by (auto simp: authorize_tools_def res_simps split: option.splits)

end

end
