(* ===== verification/AgentWorkflow.thy ===== *)
theory AgentWorkflow
  imports Skills
begin

section \<open>Agent workflow: planner, bounded executor, reviewer\<close>

text \<open>
  \<^verbatim>\<open>agent_workflow/models.py\<close>, \<^verbatim>\<open>validation.py\<close>, \<^verbatim>\<open>executor.py\<close> and \<^verbatim>\<open>workflow.py\<close>: the plan and review
  contracts, the hard budget of a request, the validator of an untrusted plan, the executor of its one
  step and the workflow that plans, executes, reviews and repairs at most once. Planner and reviewer
  are functions of their request and of the world. Tracing is left out: no result depends on it.
\<close>

subsection \<open>Plans and reviews\<close>

definition plan_version :: pystr where
  "plan_version = lit ''m8b-v1''"

definition inventory_risk_skill :: pystr where
  "inventory_risk_skill = lit ''inventory-risk-diagnosis''"

datatype plan_objective = MixedInventoryDiagnosis

datatype required_output = MixedDiagnosis

record plan_step =
  ps_id :: pystr
  ps_sequence :: int
  ps_skill :: pystr
  ps_objective :: plan_objective
  ps_depends :: "pystr list"
  ps_output :: required_output
  ps_optional :: bool

definition new_plan_step ::
  "pystr \<Rightarrow> int \<Rightarrow> pystr \<Rightarrow> plan_objective \<Rightarrow> pystr list \<Rightarrow> required_output \<Rightarrow> bool \<Rightarrow> string + plan_step" where
  "new_plan_step sid n name objective depends output optional =
     res_bind (text_field 80 sid) (\<lambda>sid.
     res_bind (ensure (1 \<le> n \<and> n \<le> 8) ''sequence'') (\<lambda>_.
     res_bind (text_field 120 name) (\<lambda>name.
     Inr \<lparr>ps_id = sid, ps_sequence = n, ps_skill = name, ps_objective = objective,
          ps_depends = depends, ps_output = output, ps_optional = optional\<rparr>)))"

record execution_plan =
  ep_id :: pystr
  ep_version :: pystr
  ep_objective :: plan_objective
  ep_steps :: "plan_step list"
  ep_rounds :: int
  ep_calls :: int

definition new_execution_plan ::
  "pystr \<Rightarrow> pystr \<Rightarrow> plan_objective \<Rightarrow> plan_step list \<Rightarrow> int \<Rightarrow> int \<Rightarrow> string + execution_plan" where
  "new_execution_plan pid version objective steps rounds calls =
     res_bind (text_field 80 pid) (\<lambda>pid.
     res_bind (text_field 40 version) (\<lambda>version.
     res_bind (ensure (length steps \<le> 8 \<and> 1 \<le> rounds \<and> rounds \<le> 8 \<and> 1 \<le> calls \<and> calls \<le> 8) ''plan'') (\<lambda>_.
     Inr \<lparr>ep_id = pid, ep_version = version, ep_objective = objective, ep_steps = steps,
          ep_rounds = rounds, ep_calls = calls\<rparr>)))"

datatype reviewer_outcome = RvAccept | RvRepair | RvUnanswerable | RvFailClosed

datatype reviewer_final = FnAccepted | FnRepair | FnUnanswerable | FnFailed

record reviewer_decision =
  rv_outcome :: reviewer_outcome
  rv_accepted :: "pystr option"
  rv_target :: "pystr option"
  rv_reason :: pystr
  rv_final :: reviewer_final

text \<open>\<^verbatim>\<open>^[a-z][a-z0-9_]{0,119}$\<close>, matched in full.\<close>

definition safe_code :: "pystr \<Rightarrow> bool" where
  "safe_code s = (case s of [] \<Rightarrow> False
     | c # rest \<Rightarrow> 97 \<le> c \<and> c \<le> 122 \<and> length rest \<le> 119
         \<and> list_all (\<lambda>c. (97 \<le> c \<and> c \<le> 122) \<or> (48 \<le> c \<and> c \<le> 57) \<or> c = 95) rest)"

definition new_reviewer_decision ::
  "reviewer_outcome \<Rightarrow> pystr option \<Rightarrow> pystr option \<Rightarrow> pystr \<Rightarrow> reviewer_final \<Rightarrow> string + reviewer_decision" where
  "new_reviewer_decision outcome accepted target reason final =
     res_bind (optional_text_field 80 accepted) (\<lambda>accepted.
     res_bind (optional_text_field 80 target) (\<lambda>target.
     res_bind (ensure (safe_code reason) ''reason_code must be a stable safe code'') (\<lambda>_.
     Inr \<lparr>rv_outcome = outcome, rv_accepted = accepted, rv_target = target, rv_reason = reason,
          rv_final = final\<rparr>)))"

datatype workflow_status = WfAccepted | WfUnanswerable | WfFailed

datatype step_status = StepCompleted | BusinessFailed | TechnicalFailed

record planning_request =
  pr_route :: request_route
  pr_user :: pystr
  pr_objective :: plan_objective
  pr_skills :: "pystr list"

record step_summary =
  su_id :: pystr
  su_skill :: pystr
  su_status :: step_status
  su_error :: "pystr option"
  su_citations :: nat
  su_answered :: bool
  su_round :: nat

record review_request =
  wq_plan :: pystr
  wq_user :: pystr
  wq_objective :: plan_objective
  wq_steps :: "step_summary list"
  wq_skill_calls :: nat
  wq_repairs :: nat

record step_result =
  st_id :: pystr
  st_skill :: pystr
  st_status :: step_status
  st_result :: "skill_result option"
  st_error :: "pystr option"
  st_round :: nat
  st_memory :: bool

record workflow_result =
  wr_status :: workflow_status
  wr_result :: "skill_result option"
  wr_error :: "pystr option"
  wr_steps :: "step_result list"
  wr_memory :: bool

subsection \<open>Budget\<close>

record execution_budget =
  eb_max_steps :: nat
  eb_max_rounds :: nat
  eb_max_calls :: nat
  eb_max_repairs :: nat
  eb_max_reviews :: nat
  eb_rounds :: nat
  eb_calls :: nat
  eb_repairs :: nat
  eb_reviews :: nat

definition new_budget :: execution_budget where
  "new_budget = \<lparr>eb_max_steps = 1, eb_max_rounds = 2, eb_max_calls = 2, eb_max_repairs = 1,
     eb_max_reviews = 2, eb_rounds = 0, eb_calls = 0, eb_repairs = 0, eb_reviews = 0\<rparr>"

definition reserve_round :: "execution_budget \<Rightarrow> bool \<times> execution_budget" where
  "reserve_round b = (if eb_max_rounds b \<le> eb_rounds b then (False, b)
     else (True, b\<lparr>eb_rounds := eb_rounds b + 1\<rparr>))"

definition reserve_call :: "execution_budget \<Rightarrow> bool \<times> execution_budget" where
  "reserve_call b = (if eb_max_calls b \<le> eb_calls b then (False, b)
     else (True, b\<lparr>eb_calls := eb_calls b + 1\<rparr>))"

definition reserve_repair :: "execution_budget \<Rightarrow> bool \<times> execution_budget" where
  "reserve_repair b = (if eb_max_repairs b \<le> eb_repairs b then (False, b)
     else (True, b\<lparr>eb_repairs := eb_repairs b + 1\<rparr>))"

definition reserve_review :: "execution_budget \<Rightarrow> bool \<times> execution_budget" where
  "reserve_review b = (if eb_max_reviews b \<le> eb_reviews b then (False, b)
     else (True, b\<lparr>eb_reviews := eb_reviews b + 1\<rparr>))"

definition remaining_calls :: "execution_budget \<Rightarrow> nat" where
  "remaining_calls b = eb_max_calls b - eb_calls b"

definition remaining_repairs :: "execution_budget \<Rightarrow> nat" where
  "remaining_repairs b = eb_max_repairs b - eb_repairs b"

subsection \<open>Validation of a plan\<close>

definition sequence_for_step :: "execution_plan \<Rightarrow> pystr \<Rightarrow> int option" where
  "sequence_for_step plan sid = map_option ps_sequence (find (\<lambda>s. ps_id s = sid) (ep_steps plan))"

definition check_plan_step :: "execution_plan \<Rightarrow> plan_step \<Rightarrow> pystr + unit" where
  "check_plan_step plan step =
     (if ps_objective step \<noteq> ep_objective plan then Inl (lit ''workflow_plan_objective_invalid'')
      else if ps_output step \<noteq> MixedDiagnosis then Inl (lit ''workflow_plan_output_invalid'')
      else if list_ex (\<lambda>d. d \<notin> set (map ps_id (ep_steps plan))) (ps_depends step)
      then Inl (lit ''workflow_plan_dependency_invalid'')
      else if list_ex (\<lambda>d. d = ps_id step) (ps_depends step)
      then Inl (lit ''workflow_plan_dependency_cycle'')
      else if list_ex (\<lambda>d. case sequence_for_step plan d of None \<Rightarrow> False | Some n \<Rightarrow> ps_sequence step \<le> n)
                (ps_depends step)
      then Inl (lit ''workflow_plan_dependency_invalid'')
      else Inr ())"

text \<open>The plan argument is absent when the planner returned something that is not a plan.\<close>

definition validate_plan :: "'w registry \<Rightarrow> execution_budget \<Rightarrow> execution_plan option \<Rightarrow> pystr + unit" where
  "validate_plan R budget candidate = (case candidate of
       None \<Rightarrow> Inl (lit ''workflow_plan_invalid'')
     | Some plan \<Rightarrow>
         if ep_version plan \<noteq> plan_version then Inl (lit ''workflow_plan_version_invalid'')
         else if ep_objective plan \<noteq> MixedInventoryDiagnosis
         then Inl (lit ''workflow_plan_objective_invalid'')
         else if ep_steps plan = [] then Inl (lit ''workflow_plan_empty'')
         else if \<not> distinct (map ps_id (ep_steps plan))
         then Inl (lit ''workflow_plan_step_id_duplicate'')
         else if map ps_sequence (ep_steps plan) \<noteq> map int [1..<length (ep_steps plan) + 1]
         then Inl (lit ''workflow_plan_sequence_invalid'')
         else res_bind (res_map (check_plan_step plan) (ep_steps plan)) (\<lambda>_.
           if eb_max_steps budget < length (ep_steps plan)
           then Inl (lit ''workflow_plan_step_count_invalid'')
           else if length (ep_steps plan) \<noteq> 1 then Inl (lit ''workflow_plan_step_count_invalid'')
           else if int (eb_max_rounds budget) < ep_rounds plan \<or> int (eb_max_calls budget) < ep_calls plan
           then Inl (lit ''workflow_plan_budget_invalid'')
           else let step = hd (ep_steps plan) in
             if ps_id step \<noteq> py_strip (ps_id step) then Inl (lit ''workflow_plan_step_id_invalid'')
             else if ps_skill step \<noteq> inventory_risk_skill
             then Inl (lit ''workflow_plan_skill_not_allowed'')
             else if ps_optional step \<or> ps_depends step \<noteq> []
             then Inl (lit ''workflow_plan_dependency_invalid'')
             else (case rg_get (ps_skill step) R of
                 Inl _ \<Rightarrow> Inl (lit ''workflow_plan_skill_not_allowed'')
               | Inr s \<Rightarrow> if sl_route s \<noteq> MixedRoute then Inl (lit ''workflow_plan_skill_not_allowed'')
                   else Inr ())))"

subsection \<open>Bounded execution of the step\<close>

definition technical_failure :: "plan_step \<Rightarrow> execution_budget \<Rightarrow> pystr \<Rightarrow> step_result" where
  "technical_failure step budget code =
     \<lparr>st_id = ps_id step, st_skill = ps_skill step, st_status = TechnicalFailed, st_result = None,
      st_error = Some code, st_round = max 1 (eb_rounds budget), st_memory = False\<rparr>"

definition authorize_skill ::
  "auth_policy option \<Rightarrow> security_context option \<Rightarrow> pystr \<Rightarrow> security_failure + unit" where
  "authorize_skill policy sec name = (case policy of
       None \<Rightarrow> Inr ()
     | Some P \<Rightarrow> (case sec of
           None \<Rightarrow> Inl (Denied Unauthenticated)
         | Some c \<Rightarrow> res_bind (ap_skill P c name) (\<lambda>_. Inr ())))"

definition step_of_reply ::
  "plan_step \<Rightarrow> execution_budget \<Rightarrow> 'w skill \<Rightarrow> router_decision \<Rightarrow> bool \<Rightarrow> skill_result skill_reply
     \<Rightarrow> step_result flow_result" where
  "step_of_reply step budget s d memory reply = (case reply of
       Cancelled \<Rightarrow> FlowCancelled
     | Threw \<Rightarrow> Finished (technical_failure step budget (lit ''workflow_skill_execution_failed''))
     | Refused e \<Rightarrow> Finished (technical_failure step budget (lit ''workflow_skill_execution_failed''))
     | NotAResult \<Rightarrow> Finished (technical_failure step budget (lit ''workflow_skill_result_invalid''))
     | Returned r \<Rightarrow>
         if sr_name r \<noteq> sl_name s \<or> sr_route r \<noteq> rd_route d
         then Finished (technical_failure step budget (lit ''workflow_skill_result_invalid''))
         else Finished \<lparr>st_id = ps_id step, st_skill = ps_skill step,
           st_status = (if sr_status r = SkillFailed then BusinessFailed else StepCompleted),
           st_result = Some r, st_error = (if sr_status r = SkillFailed then sr_error r else None),
           st_round = eb_rounds budget, st_memory = memory\<rparr>)"

type_synonym ('w, 'a) flow_out = "('a flow_result \<times> execution_budget) \<times> 'w flow"

definition bounded_execute ::
  "'w registry \<Rightarrow> execution_plan \<Rightarrow> pystr \<Rightarrow> router_decision \<Rightarrow> pystr \<Rightarrow> pystr option
     \<Rightarrow> security_context option \<Rightarrow> auth_policy option \<Rightarrow> execution_budget \<Rightarrow> 'w flow
     \<Rightarrow> ('w, step_result) flow_out" where
  "bounded_execute R plan query d user memory sec policy budget fl =
     (let step = hd (ep_steps plan);
          (round_ok, budget) = reserve_round budget
      in if \<not> round_ok
         then ((Finished (technical_failure step budget (lit ''workflow_round_budget_exhausted'')), budget), fl)
         else let (call_ok, budget) = reserve_call budget
      in if \<not> call_ok
         then ((Finished (technical_failure step budget (lit ''workflow_skill_budget_exhausted'')), budget), fl)
         else if ps_skill step \<noteq> inventory_risk_skill
         then ((Finished (technical_failure step budget (lit ''workflow_skill_not_allowed'')), budget), fl)
         else (case authorize_skill policy sec (ps_skill step) of
             Inl (Denied e) \<Rightarrow> ((Finished (technical_failure step budget (sec_code e)), budget), fl)
           | Inl (SecInvalid _) \<Rightarrow> ((FlowThrew, budget), fl)
           | Inr _ \<Rightarrow> (case rg_get (ps_skill step) R of
                 Inl _ \<Rightarrow>
                   ((Finished (technical_failure step budget (lit ''workflow_skill_not_allowed'')), budget), fl)
               | Inr s \<Rightarrow>
                   if sl_name s \<noteq> inventory_risk_skill \<or> \<not> sl_applicable s query d
                   then ((Finished (technical_failure step budget (lit ''workflow_skill_not_allowed'')),
                       budget), fl)
                   else (case execute_registered_skill s query d user memory sec policy fl of
                       ((reply, consumed), fl') \<Rightarrow>
                         ((step_of_reply step budget s d consumed reply, budget), fl')))))"

subsection \<open>The workflow\<close>

datatype 'a provider_reply = Reply 'a | OtherReply | ProviderError pystr | ProviderThrew | ProviderCancelled

record 'w workflow =
  wf_planner :: "planning_request \<Rightarrow> 'w \<Rightarrow> execution_plan provider_reply \<times> 'w"
  wf_reviewer :: "review_request \<Rightarrow> 'w \<Rightarrow> reviewer_decision provider_reply \<times> 'w"
  wf_registry :: "'w registry"
  wf_enabled :: bool
  wf_repairable :: "pystr list"

definition is_enabled_for :: "'w workflow \<Rightarrow> router_decision \<Rightarrow> 'w skill \<Rightarrow> bool" where
  "is_enabled_for W d s \<longleftrightarrow> wf_enabled W \<and> rd_route d = MixedRoute
     \<and> sl_name s = inventory_risk_skill \<and> sl_route s = MixedRoute"

definition step_summary_of :: "step_result \<Rightarrow> step_summary" where
  "step_summary_of s =
     \<lparr>su_id = st_id s, su_skill = st_skill s, su_status = st_status s, su_error = st_error s,
      su_citations = (case st_result s of None \<Rightarrow> 0 | Some r \<Rightarrow> length (sr_citations r)),
      su_answered = (case st_result s of None \<Rightarrow> False | Some r \<Rightarrow> sr_answer r \<noteq> None),
      su_round = st_round s\<rparr>"

definition wf_accepted :: "skill_result \<Rightarrow> step_result list \<Rightarrow> workflow_result" where
  "wf_accepted r steps = \<lparr>wr_status = WfAccepted, wr_result = Some r, wr_error = None,
     wr_steps = steps, wr_memory = list_ex st_memory steps\<rparr>"

definition wf_unanswerable :: "step_result list \<Rightarrow> workflow_result" where
  "wf_unanswerable steps = \<lparr>wr_status = WfUnanswerable, wr_result = None,
     wr_error = Some (lit ''workflow_unanswerable''), wr_steps = steps,
     wr_memory = list_ex st_memory steps\<rparr>"

definition wf_failed :: "pystr \<Rightarrow> step_result list \<Rightarrow> workflow_result" where
  "wf_failed code steps = \<lparr>wr_status = WfFailed, wr_result = None, wr_error = Some code,
     wr_steps = steps, wr_memory = list_ex st_memory steps\<rparr>"

definition with_memory :: "workflow_result \<Rightarrow> step_result list \<Rightarrow> workflow_result" where
  "with_memory r steps = r\<lparr>wr_steps := steps, wr_memory := list_ex st_memory steps\<rparr>"

definition accept_result :: "reviewer_decision \<Rightarrow> step_result list \<Rightarrow> skill_result option" where
  "accept_result review steps =
     (if rv_outcome review \<noteq> RvAccept \<or> rv_final review \<noteq> FnAccepted \<or> rv_accepted review = None
        \<or> rv_target review \<noteq> None then None
      else (case find (\<lambda>s. Some (st_id s) = rv_accepted review \<and> st_status s = StepCompleted
                 \<and> st_result s \<noteq> None) (rev steps) of
          None \<Rightarrow> None
        | Some s \<Rightarrow> st_result s))"

definition is_unanswerable :: "reviewer_decision \<Rightarrow> bool" where
  "is_unanswerable review \<longleftrightarrow> rv_outcome review = RvUnanswerable \<and> rv_final review = FnUnanswerable
     \<and> rv_accepted review = None \<and> rv_target review = None"

definition repair_is_allowed ::
  "'w workflow \<Rightarrow> reviewer_decision \<Rightarrow> step_result \<Rightarrow> execution_budget \<Rightarrow> bool" where
  "repair_is_allowed W review initial b \<longleftrightarrow> rv_final review = FnRepair \<and> rv_accepted review = None
     \<and> rv_target review = Some (st_id initial) \<and> st_skill initial \<in> set (wf_repairable W)
     \<and> eb_repairs b < eb_max_repairs b \<and> eb_rounds b < eb_max_rounds b
     \<and> eb_calls b < eb_max_calls b \<and> eb_reviews b < eb_max_reviews b"

text \<open>
  \<^verbatim>\<open>_review\<close>: a decision, or the failed result it returns instead. The summaries admit at most 32
  citations; more make the request model raise.
\<close>

definition wf_review ::
  "'w workflow \<Rightarrow> execution_plan \<Rightarrow> pystr \<Rightarrow> step_result list \<Rightarrow> execution_budget \<Rightarrow> 'w flow
     \<Rightarrow> ('w, reviewer_decision + workflow_result) flow_out" where
  "wf_review W plan query steps budget fl =
     (let (ok, budget) = reserve_review budget
      in if \<not> ok then ((Finished (Inr (wf_failed (lit ''workflow_reviewer_budget_exhausted'') steps)), budget), fl)
         else let summaries = map step_summary_of steps
      in if list_ex (\<lambda>s. 32 < su_citations s) summaries then ((FlowThrew, budget), fl)
         else let request = \<lparr>wq_plan = ep_id plan, wq_user = query, wq_objective = ep_objective plan,
                wq_steps = summaries, wq_skill_calls = remaining_calls budget,
                wq_repairs = remaining_repairs budget\<rparr>;
              (reply, w) = wf_reviewer W request (fl_world fl);
              fl = fl\<lparr>fl_world := w, fl_calls := fl_calls fl @ [ReviewerCall]\<rparr>
      in (case reply of
            ProviderCancelled \<Rightarrow> ((FlowCancelled, budget), fl)
          | ProviderError code \<Rightarrow> ((Finished (Inr (wf_failed code steps)), budget), fl)
          | ProviderThrew \<Rightarrow> ((Finished (Inr (wf_failed (lit ''workflow_reviewer_failed'') steps)), budget), fl)
          | OtherReply \<Rightarrow> ((Finished (Inr (wf_failed (lit ''workflow_reviewer_invalid'') steps)), budget), fl)
          | Reply decision \<Rightarrow> ((Finished (Inl decision), budget), fl)))"

definition second_verdict :: "reviewer_decision \<Rightarrow> step_result list \<Rightarrow> workflow_result" where
  "second_verdict review steps =
     (case accept_result review steps of
        Some r \<Rightarrow> wf_accepted r steps
      | None \<Rightarrow>
          if is_unanswerable review then wf_unanswerable steps
          else if rv_outcome review = RvRepair then wf_failed (lit ''workflow_repair_not_permitted'') steps
          else if rv_outcome review = RvFailClosed
          then wf_failed (lit ''workflow_reviewer_fail_closed'') steps
          else wf_failed (lit ''workflow_reviewer_invalid'') steps)"

text \<open>The repair round: the second execution is called without security context and policy.\<close>

definition wf_repair_round ::
  "'w workflow \<Rightarrow> execution_plan \<Rightarrow> pystr \<Rightarrow> router_decision \<Rightarrow> pystr \<Rightarrow> pystr option \<Rightarrow> step_result
     \<Rightarrow> execution_budget \<Rightarrow> 'w flow \<Rightarrow> ('w, workflow_result) flow_out" where
  "wf_repair_round W plan query d user memory first budget fl =
     (case bounded_execute (wf_registry W) plan query d user memory None None budget fl of
        ((FlowCancelled, budget), fl) \<Rightarrow> ((FlowCancelled, budget), fl)
      | ((FlowThrew, budget), fl) \<Rightarrow> ((FlowThrew, budget), fl)
      | ((Finished repaired, budget), fl) \<Rightarrow>
          let steps = [first, repaired]
          in if st_status repaired = TechnicalFailed
             then ((Finished (wf_failed (code_or (st_error repaired)
                 (lit ''workflow_skill_execution_failed'')) steps), budget), fl)
             else (case wf_review W plan query steps budget fl of
                 ((FlowCancelled, budget), fl) \<Rightarrow> ((FlowCancelled, budget), fl)
               | ((FlowThrew, budget), fl) \<Rightarrow> ((FlowThrew, budget), fl)
               | ((Finished (Inr r), budget), fl) \<Rightarrow> ((Finished (with_memory r steps), budget), fl)
               | ((Finished (Inl review), budget), fl) \<Rightarrow>
                   ((Finished (second_verdict review steps), budget), fl)))"

definition first_verdict ::
  "'w workflow \<Rightarrow> execution_plan \<Rightarrow> pystr \<Rightarrow> router_decision \<Rightarrow> pystr \<Rightarrow> pystr option
     \<Rightarrow> reviewer_decision \<Rightarrow> step_result \<Rightarrow> execution_budget \<Rightarrow> 'w flow \<Rightarrow> ('w, workflow_result) flow_out" where
  "first_verdict W plan query d user memory review first budget fl =
     (case accept_result review [first] of
        Some r \<Rightarrow> ((Finished (wf_accepted r [first]), budget), fl)
      | None \<Rightarrow>
          if is_unanswerable review then ((Finished (wf_unanswerable [first]), budget), fl)
          else if rv_outcome review = RvFailClosed
          then ((Finished (wf_failed (lit ''workflow_reviewer_fail_closed'') [first]), budget), fl)
          else if rv_outcome review \<noteq> RvRepair
          then ((Finished (wf_failed (lit ''workflow_reviewer_invalid'') [first]), budget), fl)
          else if \<not> repair_is_allowed W review first budget
          then ((Finished (wf_failed (lit ''workflow_repair_not_permitted'') [first]), budget), fl)
          else let (ok, budget) = reserve_repair budget
            in if \<not> ok
               then ((Finished (wf_failed (lit ''workflow_repair_budget_exhausted'') [first]), budget), fl)
               else wf_repair_round W plan query d user memory first budget fl)"

definition wf_first_round ::
  "'w workflow \<Rightarrow> execution_plan \<Rightarrow> pystr \<Rightarrow> router_decision \<Rightarrow> pystr \<Rightarrow> pystr option
     \<Rightarrow> security_context option \<Rightarrow> auth_policy option \<Rightarrow> execution_budget \<Rightarrow> 'w flow
     \<Rightarrow> ('w, workflow_result) flow_out" where
  "wf_first_round W plan query d user memory sec policy budget fl =
     (case bounded_execute (wf_registry W) plan query d user memory sec policy budget fl of
        ((FlowCancelled, budget), fl) \<Rightarrow> ((FlowCancelled, budget), fl)
      | ((FlowThrew, budget), fl) \<Rightarrow> ((FlowThrew, budget), fl)
      | ((Finished first, budget), fl) \<Rightarrow>
          if st_status first = TechnicalFailed
          then ((Finished (wf_failed (code_or (st_error first)
              (lit ''workflow_skill_execution_failed'')) [first]), budget), fl)
          else (case wf_review W plan query [first] budget fl of
              ((FlowCancelled, budget), fl) \<Rightarrow> ((FlowCancelled, budget), fl)
            | ((FlowThrew, budget), fl) \<Rightarrow> ((FlowThrew, budget), fl)
            | ((Finished (Inr r), budget), fl) \<Rightarrow> ((Finished (with_memory r [first]), budget), fl)
            | ((Finished (Inl review), budget), fl) \<Rightarrow>
                first_verdict W plan query d user memory review first budget fl))"

text \<open>The planning request is built inside the guarded call: a query out of bounds fails planning.\<close>

definition wf_execute ::
  "'w workflow \<Rightarrow> pystr \<Rightarrow> router_decision \<Rightarrow> pystr \<Rightarrow> pystr option
     \<Rightarrow> security_context option \<Rightarrow> auth_policy option \<Rightarrow> 'w flow \<Rightarrow> ('w, workflow_result) flow_out" where
  "wf_execute W query d user memory sec policy fl =
     (if query = [] \<or> 4000 < length query
      then ((Finished (wf_failed (lit ''workflow_planner_failed'') []), new_budget), fl)
      else let request = \<lparr>pr_route = rd_route d, pr_user = query,
                 pr_objective = MixedInventoryDiagnosis, pr_skills = [inventory_risk_skill]\<rparr>;
               (reply, w) = wf_planner W request (fl_world fl);
               fl = fl\<lparr>fl_world := w, fl_calls := fl_calls fl @ [PlannerCall]\<rparr>;
               go = (\<lambda>candidate. (case validate_plan (wf_registry W) new_budget candidate of
                   Inl code \<Rightarrow> ((Finished (wf_failed (code_or (Some code) (lit ''workflow_plan_invalid'')) []),
                     new_budget), fl)
                 | Inr _ \<Rightarrow> wf_first_round W (the candidate) query d user memory sec policy new_budget fl))
      in (case reply of
            ProviderCancelled \<Rightarrow> ((FlowCancelled, new_budget), fl)
          | ProviderError code \<Rightarrow> ((Finished (wf_failed code []), new_budget), fl)
          | ProviderThrew \<Rightarrow> ((Finished (wf_failed (lit ''workflow_planner_failed'') []), new_budget), fl)
          | OtherReply \<Rightarrow> go None
          | Reply plan \<Rightarrow> go (Some plan)))"

subsection \<open>What a round does\<close>

datatype call_kind = KRouter | KPlanner | KSkill | KReviewer

fun kind_of :: "flow_call \<Rightarrow> call_kind" where
  "kind_of RouterCall = KRouter"
| "kind_of PlannerCall = KPlanner"
| "kind_of (SkillRun n c) = KSkill"
| "kind_of ReviewerCall = KReviewer"

text \<open>
  A step that was executed carries a result that the registered inventory skill returned for the
  route of the request.
\<close>

definition returned_by :: "'w registry \<Rightarrow> skill_result \<Rightarrow> bool" where
  "returned_by R x \<longleftrightarrow> (\<exists>s call rt w rt' w'. rg_get inventory_risk_skill R = Inr s
     \<and> sl_run s call rt w = (Returned x, rt', w'))"

definition step_ok :: "'w registry \<Rightarrow> router_decision \<Rightarrow> step_result \<Rightarrow> bool" where
  "step_ok R d s \<longleftrightarrow> (case st_status s of
       TechnicalFailed \<Rightarrow> st_result s = None \<and> st_error s \<noteq> None
     | StepCompleted \<Rightarrow> (\<exists>r. st_result s = Some r \<and> sr_status r = SkillCompleted
         \<and> sr_name r = inventory_risk_skill \<and> sr_route r = rd_route d \<and> returned_by R r)
     | BusinessFailed \<Rightarrow> (\<exists>r. st_result s = Some r \<and> sr_status r = SkillFailed
         \<and> sr_name r = inventory_risk_skill \<and> sr_route r = rd_route d \<and> returned_by R r))"

text \<open>A run that was made was granted by the policy it was made under.\<close>

definition run_granted ::
  "'w registry \<Rightarrow> security_context option \<Rightarrow> auth_policy option \<Rightarrow> flow_call \<Rightarrow> bool" where
  "run_granted R sec policy call = (case call of
       SkillRun n c \<Rightarrow> n = inventory_risk_skill \<and> authorize_skill policy sec n = Inr ()
         \<and> (\<exists>s. rg_get n R = Inr s \<and> authorize_tools policy sec (sd_tools (sl_definition s)) = Inr ())
     | _ \<Rightarrow> True)"

lemma technical_failure_status [simp]:
  "st_status (technical_failure step b code) = TechnicalFailed"
  "st_result (technical_failure step b code) = None"
  "st_error (technical_failure step b code) = Some code"
  "step_ok R d (technical_failure step b code)"
  by (simp_all add: technical_failure_def step_ok_def)

lemma bounded_execute_cases:
  assumes "bounded_execute R plan query d user memory sec policy b fl = ((out, b'), fl')"
  shows "(fl' = fl \<and> (out = FlowThrew \<or> (\<exists>code. out = Finished (technical_failure (hd (ep_steps plan)) b' code))))
    \<or> (\<exists>s reply consumed. rg_get inventory_risk_skill R = Inr s \<and> sl_name s = inventory_risk_skill
        \<and> authorize_skill policy sec inventory_risk_skill = Inr ()
        \<and> execute_registered_skill s query d user memory sec policy fl = ((reply, consumed), fl')
        \<and> out = step_of_reply (hd (ep_steps plan)) b' s d consumed reply)"
proof -
  let ?step = "hd (ep_steps plan)"
  obtain ok1 b1 where 1: "reserve_round b = (ok1, b1)" by fastforce
  obtain ok2 b2 where 2: "reserve_call b1 = (ok2, b2)" by fastforce
  consider "\<not> ok1" | "ok1" "\<not> ok2" | "ok1" "ok2" "ps_skill ?step \<noteq> inventory_risk_skill"
    | f where "ok1" "ok2" "ps_skill ?step = inventory_risk_skill"
        "authorize_skill policy sec inventory_risk_skill = Inl f"
    | e where "ok1" "ok2" "ps_skill ?step = inventory_risk_skill"
        "authorize_skill policy sec inventory_risk_skill = Inr ()"
        "rg_get inventory_risk_skill R = Inl e"
    | s where "ok1" "ok2" "ps_skill ?step = inventory_risk_skill"
        "authorize_skill policy sec inventory_risk_skill = Inr ()"
        "rg_get inventory_risk_skill R = Inr s"
        "sl_name s \<noteq> inventory_risk_skill \<or> \<not> sl_applicable s query d"
    | s where "ok1" "ok2" "ps_skill ?step = inventory_risk_skill"
        "authorize_skill policy sec inventory_risk_skill = Inr ()"
        "rg_get inventory_risk_skill R = Inr s"
        "sl_name s = inventory_risk_skill" "sl_applicable s query d"
    by (cases "authorize_skill policy sec inventory_risk_skill"; cases "rg_get inventory_risk_skill R")
      auto
  then show ?thesis
  proof cases
    case (4 f)
    with assms 1 2 show ?thesis
      by (cases f) (auto simp: bounded_execute_def)
  next
    case (7 s)
    obtain reply consumed fl2 where
      e: "execute_registered_skill s query d user memory sec policy fl = ((reply, consumed), fl2)"
      by (metis prod.exhaust)
    with assms 1 2 7 show ?thesis by (auto simp: bounded_execute_def)
  qed (use assms 1 2 in \<open>auto simp: bounded_execute_def\<close>)
qed

lemma step_of_reply_cases:
  assumes "step_of_reply step b s d consumed reply = Finished r" and "sl_name s = inventory_risk_skill"
    and "\<And>x. reply = Returned x \<Longrightarrow> returned_by R x"
  shows "step_ok R d r \<and> (st_status r \<noteq> TechnicalFailed \<longrightarrow> (\<exists>x. reply = Returned x))"
proof (cases reply)
  case (Returned x)
  with assms show ?thesis
    by (cases "sr_status x") (auto simp: step_of_reply_def step_ok_def split: if_splits)
qed (use assms in \<open>auto simp: step_of_reply_def\<close>)

lemma bounded_execute_calls:
  assumes "bounded_execute R plan query d user memory sec policy b fl = ((out, b'), fl')"
  shows "\<exists>new. fl_calls fl' = fl_calls fl @ new \<and> (map kind_of new = [] \<or> map kind_of new = [KSkill])
    \<and> list_all (run_granted R sec policy) new
    \<and> (\<forall>r. out = Finished r \<longrightarrow> step_ok R d r \<and> (st_status r \<noteq> TechnicalFailed \<longrightarrow> new \<noteq> []))"
  using bounded_execute_cases [OF assms]
proof (elim disjE conjE exE)
  fix s reply consumed
  assume R: "rg_get inventory_risk_skill R = Inr s" "sl_name s = inventory_risk_skill"
    "authorize_skill policy sec inventory_risk_skill = Inr ()"
    and e: "execute_registered_skill s query d user memory sec policy fl = ((reply, consumed), fl')"
    and o: "out = step_of_reply (hd (ep_steps plan)) b' s d consumed reply"
  have ret: "returned_by R x" if "reply = Returned x" for x
    using execute_registered_skill_calls [OF e]
  proof (elim disjE conjE exE)
    fix f
    assume "reply = refusal f"
    with that show ?thesis by (metis refusal_not_returned(1))
  next
    fix rt w rt' w'
    assume "sl_run s (skill_call_of s query d user sec) rt w = (reply, rt', w')"
    with that R(1) show ?thesis unfolding returned_by_def by blast
  qed
  have o': "step_ok R d r \<and> (st_status r \<noteq> TechnicalFailed \<longrightarrow> (\<exists>x. reply = Returned x))"
    if "out = Finished r" for r
    using step_of_reply_cases [OF _ R(2) ret] o that by metis
  from execute_registered_skill_calls [OF e] show ?thesis
  proof (elim disjE conjE exE)
    fix f
    assume "fl' = fl" "reply = refusal f"
    with o' show ?thesis by (intro exI [of _ "[]"]) auto
  next
    assume c: "fl_calls fl' = fl_calls fl @ [SkillRun (sl_name s) (skill_call_of s query d user sec)]"
      and t: "authorize_tools policy sec (sd_tools (sl_definition s)) = Inr ()"
    have "run_granted R sec policy (SkillRun (sl_name s) (skill_call_of s query d user sec))"
      using R t by (simp add: run_granted_def)
    with c o' show ?thesis
      by (intro exI [of _ "[SkillRun (sl_name s) (skill_call_of s query d user sec)]"]) auto
  qed
qed auto

lemma wf_review_calls:
  assumes "wf_review W plan query steps b fl = ((out, b'), fl')"
  shows "\<exists>new. fl_calls fl' = fl_calls fl @ new \<and> (new = [] \<or> new = [ReviewerCall])
    \<and> (\<forall>rv. out = Finished (Inl rv) \<longrightarrow> new = [ReviewerCall])
    \<and> (\<forall>r. out = Finished (Inr r) \<longrightarrow> wr_status r = WfFailed \<and> wr_result r = None \<and> wr_error r \<noteq> None)"
proof -
  obtain ok1 b1 where 1: "reserve_review b = (ok1, b1)" by fastforce
  show ?thesis
  proof (cases "ok1 \<and> \<not> list_ex (\<lambda>s. 32 < su_citations s) (map step_summary_of steps)")
    case False
    with assms 1 show ?thesis by (auto simp: wf_review_def wf_failed_def Let_def split: if_splits)
  next
    case True
    let ?rq = "\<lparr>wq_plan = ep_id plan, wq_user = query, wq_objective = ep_objective plan,
      wq_steps = map step_summary_of steps, wq_skill_calls = remaining_calls b1,
      wq_repairs = remaining_repairs b1\<rparr>"
    obtain reply w where 2: "wf_reviewer W ?rq (fl_world fl) = (reply, w)" by fastforce
    from assms 1 True 2 show ?thesis
      by (cases reply) (auto simp: wf_review_def wf_failed_def Let_def)
  qed
qed

subsection \<open>What a whole run does\<close>

text \<open>
  The result of a run: an accepted result is that of a completed step, any other carries an error and
  no result.
\<close>

definition result_ok :: "'w registry \<Rightarrow> router_decision \<Rightarrow> workflow_result \<Rightarrow> bool" where
  "result_ok R d r \<longleftrightarrow> list_all (step_ok R d) (wr_steps r) \<and> length (wr_steps r) \<le> 2
     \<and> (if wr_status r = WfAccepted
        then wr_error r = None \<and> wr_result r \<noteq> None
          \<and> (\<exists>s \<in> set (wr_steps r). st_status s = StepCompleted \<and> st_result s = wr_result r)
        else wr_result r = None \<and> wr_error r \<noteq> None)"

lemma result_ok_simps [simp]:
  "result_ok R d (wf_failed code steps) \<longleftrightarrow> list_all (step_ok R d) steps \<and> length steps \<le> 2"
  "result_ok R d (wf_unanswerable steps) \<longleftrightarrow> list_all (step_ok R d) steps \<and> length steps \<le> 2"
  "wr_status (wf_failed code steps) = WfFailed" "wr_status (wf_unanswerable steps) = WfUnanswerable"
  "wr_status (wf_accepted x steps) = WfAccepted" "wr_status (with_memory r steps) = wr_status r"
  by (auto simp: result_ok_def wf_failed_def wf_unanswerable_def wf_accepted_def with_memory_def)

lemma accept_result_Some:
  assumes "accept_result review steps = Some r"
  shows "\<exists>s \<in> set steps. st_status s = StepCompleted \<and> st_result s = Some r
    \<and> rv_accepted review = Some (st_id s) \<and> rv_outcome review = RvAccept"
proof -
  let ?P = "\<lambda>s. Some (st_id s) = rv_accepted review \<and> st_status s = StepCompleted \<and> st_result s \<noteq> None"
  from assms obtain s where f: "find ?P (rev steps) = Some s" and r: "st_result s = Some r"
    and o: "rv_outcome review = RvAccept"
    unfolding accept_result_def by (auto split: if_splits option.splits)
  from find_SomeD [OF f] have "s \<in> set steps" "?P s" by auto
  with r o show ?thesis by auto
qed

lemma wf_accepted_ok:
  "accept_result review steps = Some r \<Longrightarrow> list_all (step_ok R d) steps \<Longrightarrow> length steps \<le> 2 \<Longrightarrow>
     result_ok R d (wf_accepted r steps)"
  by (drule accept_result_Some) (auto simp: result_ok_def wf_accepted_def)

lemma second_verdict_ok:
  "list_all (step_ok R d) steps \<Longrightarrow> length steps \<le> 2 \<Longrightarrow> result_ok R d (second_verdict review steps)"
  by (auto simp: second_verdict_def wf_accepted_ok split: option.splits)

lemma with_memory_ok:
  assumes "wr_status r = WfFailed \<and> wr_result r = None \<and> wr_error r \<noteq> None"
    and "list_all (step_ok R d) steps" and "length steps \<le> 2"
  shows "result_ok R d (with_memory r steps)"
  using assms by (auto simp: result_ok_def with_memory_def)

lemma wf_repair_round_calls:
  assumes "wf_repair_round W plan query d user memory first b fl = ((out, b'), fl')"
    and "step_ok (wf_registry W) d first"
  shows "\<exists>new. fl_calls fl' = fl_calls fl @ new \<and> prefix (map kind_of new) [KSkill, KReviewer]
    \<and> list_all (run_granted (wf_registry W) None None) new
    \<and> (\<forall>r. out = Finished r \<longrightarrow> result_ok (wf_registry W) d r
         \<and> (wr_status r = WfAccepted \<longrightarrow> map kind_of new = [KSkill, KReviewer]))"
proof -
  obtain out1 b1 fl1 where
    e: "bounded_execute (wf_registry W) plan query d user memory None None b fl = ((out1, b1), fl1)"
    by (metis prod.exhaust)
  from bounded_execute_calls [OF e] obtain new1 where n1: "fl_calls fl1 = fl_calls fl @ new1"
    "map kind_of new1 = [] \<or> map kind_of new1 = [KSkill]"
    "list_all (run_granted (wf_registry W) None None) new1"
    and s1: "\<forall>r. out1 = Finished r \<longrightarrow> step_ok (wf_registry W) d r \<and> (st_status r \<noteq> TechnicalFailed \<longrightarrow> new1 \<noteq> [])"
    by (elim exE conjE)
  show ?thesis
  proof (cases "\<exists>r. out1 = Finished r \<and> st_status r \<noteq> TechnicalFailed")
    case False
    have "fl' = fl1 \<and> (\<forall>r. out = Finished r \<longrightarrow> result_ok (wf_registry W) d r \<and> wr_status r \<noteq> WfAccepted)"
      using False assms e s1 by (cases out1) (auto simp: wf_repair_round_def Let_def)
    with n1 show ?thesis by (intro exI [of _ new1]) auto
  next
    case True
    then obtain r where r: "out1 = Finished r" "st_status r \<noteq> TechnicalFailed" by blast
    have n1': "map kind_of new1 = [KSkill]" using s1 r n1(2) by auto
    have st: "list_all (step_ok (wf_registry W) d) [first, r]" using s1 r(1) assms(2) by simp
    obtain out2 b2 fl2 where v: "wf_review W plan query [first, r] b1 fl1 = ((out2, b2), fl2)"
      by (metis prod.exhaust)
    from wf_review_calls [OF v] obtain new2 where n2: "fl_calls fl2 = fl_calls fl1 @ new2"
      "new2 = [] \<or> new2 = [ReviewerCall]" "\<forall>rv. out2 = Finished (Inl rv) \<longrightarrow> new2 = [ReviewerCall]"
      and f2: "\<forall>x. out2 = Finished (Inr x) \<longrightarrow>
        wr_status x = WfFailed \<and> wr_result x = None \<and> wr_error x \<noteq> None"
      by (elim exE conjE)
    have "fl' = fl2 \<and> (\<forall>r. out = Finished r \<longrightarrow> result_ok (wf_registry W) d r
        \<and> (wr_status r = WfAccepted \<longrightarrow> new2 = [ReviewerCall]))"
    proof (cases out2)
      case (Finished y)
      then show ?thesis
      proof (cases y)
        case (Inl rv)
        with Finished assms(1) e r v have "fl' = fl2" "out = Finished (second_verdict rv [first, r])"
          by (simp_all add: wf_repair_round_def Let_def)
        moreover have "result_ok (wf_registry W) d (second_verdict rv [first, r])"
          by (rule second_verdict_ok [OF st]) simp
        ultimately show ?thesis using n2(3) Finished Inl by simp
      next
        case (Inr x)
        with Finished assms(1) e r v have "fl' = fl2" "out = Finished (with_memory x [first, r])"
          by (simp_all add: wf_repair_round_def Let_def)
        moreover have "result_ok (wf_registry W) d (with_memory x [first, r])"
          using f2 Finished Inr st by (intro with_memory_ok) simp_all
        ultimately show ?thesis using f2 Finished Inr by simp
      qed
    qed (use assms(1) e r v in \<open>simp_all add: wf_repair_round_def Let_def\<close>)
    with n1 n1' n2(1,2) show ?thesis
      by (intro exI [of _ "new1 @ new2"]) (auto simp: run_granted_def)
  qed
qed

lemma wf_first_verdict_calls:
  assumes "first_verdict W plan query d user memory review first b fl = ((out, b'), fl')"
    and "step_ok (wf_registry W) d first"
  shows "\<exists>new. fl_calls fl' = fl_calls fl @ new \<and> prefix (map kind_of new) [KSkill, KReviewer]
    \<and> list_all (run_granted (wf_registry W) None None) new
    \<and> (\<forall>r. out = Finished r \<longrightarrow> result_ok (wf_registry W) d r
         \<and> (wr_status r = WfAccepted \<longrightarrow> map kind_of new = [] \<or> map kind_of new = [KSkill, KReviewer]))"
proof -
  obtain ok b1 where 1: "reserve_repair b = (ok, b1)" by fastforce
  have "(fl' = fl \<and> (\<exists>r. out = Finished r \<and> result_ok (wf_registry W) d r))
    \<or> wf_repair_round W plan query d user memory first b1 fl = ((out, b'), fl')"
    using assms 1 wf_accepted_ok [of review "[first]" _ "wf_registry W" d]
    by (auto simp: first_verdict_def Let_def split: option.splits if_splits)
  then show ?thesis
  proof (elim disjE conjE exE)
    assume "wf_repair_round W plan query d user memory first b1 fl = ((out, b'), fl')"
    from wf_repair_round_calls [OF this assms(2)] show ?thesis by (rule ex_forward) simp
  qed auto
qed

lemma wf_first_round_calls:
  assumes "wf_first_round W plan query d user memory sec policy b fl = ((out, b'), fl')"
  shows "\<exists>new1 new2. fl_calls fl' = fl_calls fl @ new1 @ new2
    \<and> prefix (map kind_of (new1 @ new2)) [KSkill, KReviewer, KSkill, KReviewer]
    \<and> list_all (run_granted (wf_registry W) sec policy) new1
    \<and> list_all (run_granted (wf_registry W) None None) new2
    \<and> (new2 \<noteq> [] \<longrightarrow> map kind_of new1 = [KSkill, KReviewer])
    \<and> (\<forall>r. out = Finished r \<longrightarrow> result_ok (wf_registry W) d r
         \<and> (wr_status r = WfAccepted \<longrightarrow> new1 \<noteq> [] \<and> last (map kind_of (new1 @ new2)) = KReviewer))"
proof -
  obtain out1 b1 fl1 where
    e: "bounded_execute (wf_registry W) plan query d user memory sec policy b fl = ((out1, b1), fl1)"
    by (metis prod.exhaust)
  from bounded_execute_calls [OF e] obtain new1 where n1: "fl_calls fl1 = fl_calls fl @ new1"
    "map kind_of new1 = [] \<or> map kind_of new1 = [KSkill]"
    "list_all (run_granted (wf_registry W) sec policy) new1"
    and s1: "\<forall>r. out1 = Finished r \<longrightarrow> step_ok (wf_registry W) d r \<and> (st_status r \<noteq> TechnicalFailed \<longrightarrow> new1 \<noteq> [])"
    by (elim exE conjE)
  show ?thesis
  proof (cases "\<exists>r. out1 = Finished r \<and> st_status r \<noteq> TechnicalFailed")
    case False
    have "fl' = fl1 \<and> (\<forall>r. out = Finished r \<longrightarrow> result_ok (wf_registry W) d r \<and> wr_status r \<noteq> WfAccepted)"
      using False assms e s1 by (cases out1) (auto simp: wf_first_round_def)
    with n1 show ?thesis by (intro exI [of _ new1] exI [of _ "[]"]) auto
  next
    case True
    then obtain r where r: "out1 = Finished r" "st_status r \<noteq> TechnicalFailed" by blast
    have n1': "map kind_of new1 = [KSkill]" using s1 r n1(2) by auto
    have st: "step_ok (wf_registry W) d r" using s1 r(1) by simp
    obtain out2 b2 fl2 where v: "wf_review W plan query [r] b1 fl1 = ((out2, b2), fl2)"
      by (metis prod.exhaust)
    from wf_review_calls [OF v] obtain new2 where n2: "fl_calls fl2 = fl_calls fl1 @ new2"
      "new2 = [] \<or> new2 = [ReviewerCall]" "\<forall>rv. out2 = Finished (Inl rv) \<longrightarrow> new2 = [ReviewerCall]"
      and f2: "\<forall>x. out2 = Finished (Inr x) \<longrightarrow>
        wr_status x = WfFailed \<and> wr_result x = None \<and> wr_error x \<noteq> None"
      by (elim exE conjE)
    have g2: "list_all (run_granted (wf_registry W) sec policy) (new1 @ new2)"
      using n1(3) n2(2) by (auto simp: run_granted_def)
    show ?thesis
    proof (cases "\<exists>rv. out2 = Finished (Inl rv)")
      case False
      have "fl' = fl2 \<and> (\<forall>r. out = Finished r \<longrightarrow> result_ok (wf_registry W) d r \<and> wr_status r \<noteq> WfAccepted)"
      proof (cases out2)
        case (Finished y)
        with False obtain x where x: "out2 = Finished (Inr x)" by (cases y) auto
        with assms e r v have "fl' = fl2" "out = Finished (with_memory x [r])"
          by (simp_all add: wf_first_round_def)
        moreover have "result_ok (wf_registry W) d (with_memory x [r])"
          using f2 x st by (intro with_memory_ok) simp_all
        ultimately show ?thesis using f2 x by simp
      qed (use assms e r v in \<open>simp_all add: wf_first_round_def\<close>)
      with g2 n1 n1' n2(1,2) show ?thesis
        by (intro exI [of _ "new1 @ new2"] exI [of _ "[]"]) auto
    next
      case True
      then obtain rv where rv: "out2 = Finished (Inl rv)" by blast
      with assms e r v have f: "first_verdict W plan query d user memory rv r b2 fl2 = ((out, b'), fl')"
        by (simp add: wf_first_round_def)
      from wf_first_verdict_calls [OF f st] obtain new3 where n3: "fl_calls fl' = fl_calls fl2 @ new3"
        "prefix (map kind_of new3) [KSkill, KReviewer]"
        "list_all (run_granted (wf_registry W) None None) new3"
        "\<forall>r. out = Finished r \<longrightarrow> result_ok (wf_registry W) d r
         \<and> (wr_status r = WfAccepted \<longrightarrow> map kind_of new3 = [] \<or> map kind_of new3 = [KSkill, KReviewer])"
        by (elim exE conjE)
      have n2': "new2 = [ReviewerCall]" using n2(3) rv by blast
      have k: "map kind_of (new1 @ new2) = [KSkill, KReviewer]" using n1' n2' by simp
      have eq: "map kind_of new1 @ map kind_of new2 @ map kind_of new3 = [KSkill, KReviewer] @ map kind_of new3"
        using k by (metis append_assoc map_append)
      have "prefix ([KSkill, KReviewer] @ map kind_of new3) [KSkill, KReviewer, KSkill, KReviewer]"
        using n3(2) by simp
      then have p: "prefix (map kind_of new1 @ map kind_of new2 @ map kind_of new3)
          [KSkill, KReviewer, KSkill, KReviewer]"
        by (simp only: eq)
      have l: "last (map kind_of ((new1 @ new2) @ new3)) = KReviewer"
        if "map kind_of new3 = [] \<or> map kind_of new3 = [KSkill, KReviewer]"
        using that k by auto
      show ?thesis
        by (intro exI [of _ "new1 @ new2"] exI [of _ new3] conjI)
          (use n1(1) n2(1) n3 g2 k l p in auto)
    qed
  qed
qed

lemma wf_execute_calls:
  assumes "wf_execute W query d user memory sec policy fl = ((out, b), fl')"
  shows "\<exists>new1 new2. fl_calls fl' = fl_calls fl @ new1 @ new2
    \<and> prefix (map kind_of (new1 @ new2)) [KPlanner, KSkill, KReviewer, KSkill, KReviewer]
    \<and> list_all (run_granted (wf_registry W) sec policy) new1
    \<and> list_all (run_granted (wf_registry W) None None) new2
    \<and> (new2 \<noteq> [] \<longrightarrow> map kind_of new1 = [KPlanner, KSkill, KReviewer])
    \<and> (\<forall>r. out = Finished r \<longrightarrow> result_ok (wf_registry W) d r
         \<and> (wr_status r = WfAccepted \<longrightarrow> new1 \<noteq> [] \<and> last (map kind_of (new1 @ new2)) = KReviewer))"
proof -
  let ?rq = "\<lparr>pr_route = rd_route d, pr_user = query, pr_objective = MixedInventoryDiagnosis,
    pr_skills = [inventory_risk_skill]\<rparr>"
  obtain reply w where 1: "wf_planner W ?rq (fl_world fl) = (reply, w)" by fastforce
  let ?fl = "fl\<lparr>fl_world := w, fl_calls := fl_calls fl @ [PlannerCall]\<rparr>"
  consider "query = [] \<or> 4000 < length query"
    | "\<not> (query = [] \<or> 4000 < length query)" "fl' = ?fl"
      "\<forall>r. out = Finished r \<longrightarrow> result_ok (wf_registry W) d r \<and> wr_status r \<noteq> WfAccepted"
    | plan where "wf_first_round W plan query d user memory sec policy new_budget ?fl = ((out, b), fl')"
    using assms 1
    by (cases reply) (auto simp: wf_execute_def Let_def split: if_splits sum.splits)
  then show ?thesis
  proof cases
    case 1
    with assms show ?thesis
      by (intro exI [of _ "[]"]) (auto simp: wf_execute_def)
  next
    case 2
    then show ?thesis
      by (intro exI [of _ "[PlannerCall]"] exI [of _ "[]"]) (auto simp: run_granted_def)
  next
    case (3 plan)
    from wf_first_round_calls [OF this] obtain new1 new2 where
      "fl_calls fl' = fl_calls ?fl @ new1 @ new2"
      "prefix (map kind_of (new1 @ new2)) [KSkill, KReviewer, KSkill, KReviewer]"
      "list_all (run_granted (wf_registry W) sec policy) new1"
      "list_all (run_granted (wf_registry W) None None) new2"
      "new2 \<noteq> [] \<longrightarrow> map kind_of new1 = [KSkill, KReviewer]"
      "\<forall>r. out = Finished r \<longrightarrow> result_ok (wf_registry W) d r
         \<and> (wr_status r = WfAccepted \<longrightarrow> new1 \<noteq> [] \<and> last (map kind_of (new1 @ new2)) = KReviewer)"
      by (elim exE conjE)
    then show ?thesis
      by (intro exI [of _ "PlannerCall # new1"] exI [of _ new2]) (auto simp: run_granted_def)
  qed
qed

subsection \<open>Properties\<close>

text \<open>
  C19: The workflow is bounded and ordered: in any run, whatever planner, skill and reviewer answer, the
  calls made are a prefix of planner, skill, reviewer, skill, reviewer: at most one plan, two skill
  runs and two reviews, no run before the plan and no second run before the first review.
\<close>

theorem workflow_call_order:
  "\<exists>new. fl_calls (snd (wf_execute W query d user memory sec policy fl)) = fl_calls fl @ new
     \<and> prefix (map kind_of new) [KPlanner, KSkill, KReviewer, KSkill, KReviewer]"
proof -
  obtain out b fl' where e: "wf_execute W query d user memory sec policy fl = ((out, b), fl')"
    by (metis prod.exhaust)
  from wf_execute_calls [OF e] e show ?thesis by (metis snd_conv)
qed


context authorization_policy
begin

text \<open>A run made under a policy was granted by the context.\<close>

lemma granted_run:
  assumes "run_granted R sec (Some P) (SkillRun n c)" and "ap_skill P = skill" and "ap_tool P = tool"
  shows "\<exists>ctx s. sec = Some ctx \<and> rg_get n R = Inr s \<and> n \<in> set (sc_skills ctx)
    \<and> set (sd_tools (sl_definition s)) \<subseteq> set (sc_tools ctx)"
proof -
  from assms(1) obtain s where s: "rg_get n R = Inr s" "authorize_skill (Some P) sec n = Inr ()"
    "authorize_tools (Some P) sec (sd_tools (sl_definition s)) = Inr ()"
    by (auto simp: run_granted_def)
  from s(2) obtain ctx e where ctx: "sec = Some ctx" "skill ctx n = Inr e"
    using assms(2) by (auto simp: authorize_skill_def res_simps split: option.splits)
  from authorized_tools [OF s(3) assms(3)] ctx s(1) skill_granted [OF ctx(2)] show ?thesis by auto
qed

end

lemma runs_of_first_round:
  assumes "SkillRun n c \<in> set (new1 @ new2)" and "list_all (run_granted R sec policy) new1"
    and "list_all (run_granted R None None) new2"
    and "new2 \<noteq> [] \<longrightarrow> map kind_of new1 = [KPlanner, KSkill, KReviewer]"
  shows "\<exists>c. run_granted R sec policy (SkillRun n c)"
proof (cases "SkillRun n c \<in> set new1")
  case True
  with assms(2) show ?thesis by (auto simp: list_all_iff)
next
  case False
  with assms have "new2 \<noteq> []" "n = inventory_risk_skill"
    by (auto simp: list_all_iff run_granted_def split: flow_call.splits)
  with assms(4) have "KSkill \<in> set (map kind_of new1)" by simp
  then obtain x where x: "x \<in> set new1" "kind_of x = KSkill" by auto
  from x(2) obtain m c' where "x = SkillRun m c'" by (cases x) auto
  with x(1) assms(2) \<open>n = inventory_risk_skill\<close> show ?thesis
    by (auto simp: list_all_iff run_granted_def)
qed

text \<open>
  Under the default-deny policy no skill runs without its grants: if a run of the workflow runs a
  skill at all, then the request has a security context, and that context grants the skill by name
  and every tool the registered skill is allowed to use.
\<close>

theorem workflow_runs_granted:
  assumes "wf_execute W query d user memory sec (Some (default_deny_policy sha)) fl = ((out, b), fl')"
    and "SkillRun n c \<in> set (fl_calls fl')" and "fl_calls fl = []"
  shows "\<exists>ctx s. sec = Some ctx \<and> n = inventory_risk_skill \<and> rg_get n (wf_registry W) = Inr s
    \<and> n \<in> set (sc_skills ctx) \<and> set (sd_tools (sl_definition s)) \<subseteq> set (sc_tools ctx)"
proof -
  from wf_execute_calls [OF assms(1)] obtain new1 new2 where n: "fl_calls fl' = fl_calls fl @ new1 @ new2"
    "list_all (run_granted (wf_registry W) sec (Some (default_deny_policy sha))) new1"
    "list_all (run_granted (wf_registry W) None None) new2"
    "new2 \<noteq> [] \<longrightarrow> map kind_of new1 = [KPlanner, KSkill, KReviewer]"
    by (elim exE conjE)
  from n(1) assms(2,3) have "SkillRun n c \<in> set (new1 @ new2)" by simp
  from runs_of_first_round [OF this n(2-4)] obtain c' where
    g: "run_granted (wf_registry W) sec (Some (default_deny_policy sha)) (SkillRun n c')" ..
  then have "n = inventory_risk_skill" by (simp add: run_granted_def)
  with default_deny.granted_run [OF g, of sha] show ?thesis
    by (auto simp: default_deny_policy_def)
qed

text \<open>
  C21: Plan validation is exact: an untrusted plan is admitted if and only if it has the pinned
  version, exactly one mandatory step, numbered 1, without dependencies, that names the inventory
  skill with an unpadded identifier, asks for no more rounds and calls than the budget has, and the
  skill is registered for mixed requests.
\<close>

theorem plan_validation_exact:
  "validate_plan R new_budget (Some plan) = Inr () \<longleftrightarrow>
     ep_version plan = plan_version \<and> ep_rounds plan \<le> 2 \<and> ep_calls plan \<le> 2
     \<and> (\<exists>step s. ep_steps plan = [step] \<and> ps_sequence step = 1 \<and> ps_depends step = []
          \<and> \<not> ps_optional step \<and> py_strip (ps_id step) = ps_id step
          \<and> ps_skill step = inventory_risk_skill \<and> rg_get inventory_risk_skill R = Inr s
          \<and> sl_route s = MixedRoute)"
proof (cases "\<exists>step. ep_steps plan = [step]")
  case False
  then have "ep_steps plan = [] \<or> 1 < length (ep_steps plan)"
    by (cases "ep_steps plan"; cases "tl (ep_steps plan)") auto
  then show ?thesis
    by (auto simp: validate_plan_def new_budget_def res_simps)
next
  case True
  then obtain step where s: "ep_steps plan = [step]" by blast
  have objective: "ep_objective plan = MixedInventoryDiagnosis" "ps_objective step = MixedInventoryDiagnosis"
    "ps_output step = MixedDiagnosis"
    by (metis plan_objective.exhaust, metis plan_objective.exhaust, metis required_output.exhaust)
  show ?thesis
  proof (cases "ps_depends step = []")
    case dep: True
    have "check_plan_step plan step = Inr ()"
      using objective dep by (simp add: check_plan_step_def)
    with s objective dep show ?thesis
      by (cases "rg_get inventory_risk_skill R")
        (auto simp: validate_plan_def new_budget_def res_simps)
  next
    case False
    with s show ?thesis by (auto simp: validate_plan_def new_budget_def res_simps Let_def split: if_splits)
  qed
qed

subsection \<open>A concrete run with a repair\<close>

text \<open>The world of the run counts the reviews: the first one asks for a repair, the second accepts.\<close>

definition demo_step :: plan_step where
  "demo_step = \<lparr>ps_id = [115], ps_sequence = 1, ps_skill = inventory_risk_skill,
     ps_objective = MixedInventoryDiagnosis, ps_depends = [], ps_output = MixedDiagnosis,
     ps_optional = False\<rparr>"

definition demo_plan :: execution_plan where
  "demo_plan = \<lparr>ep_id = [112], ep_version = plan_version, ep_objective = MixedInventoryDiagnosis,
     ep_steps = [demo_step], ep_rounds = 1, ep_calls = 1\<rparr>"

definition demo_result :: skill_result where
  "demo_result = \<lparr>sr_status = SkillCompleted, sr_name = inventory_risk_skill, sr_version = [49],
     sr_route = MixedRoute, sr_answer = Some [97], sr_citations = [[91, 68, 49, 93]],
     sr_steps = [[115]], sr_tool = None, sr_error = None\<rparr>"

definition demo_skill :: "nat skill" where
  "demo_skill = \<lparr>sl_definition = \<lparr>sd_name = inventory_risk_skill, sd_version = [49],
       sd_description = [100], sd_route = MixedRoute, sd_input = [],
       sd_tools = [lit ''run_data_agent'', lit ''run_knowledge_agent''], sd_steps = [], sd_output = [],
       sd_failures = [], sd_requires = []\<rparr>,
     sl_applicable = (\<lambda>q d. True), sl_with_trace = True, sl_with_context = True,
     sl_takes_security = True, sl_run = (\<lambda>call rt w. (Returned demo_result, rt, w))\<rparr>"

definition demo_registry :: "nat registry" where
  "demo_registry = \<lparr>rg_names = [(inventory_risk_skill, demo_skill)],
     rg_routes = [(MixedRoute, demo_skill)]\<rparr>"

definition demo_review :: "nat \<Rightarrow> reviewer_decision" where
  "demo_review w = (if w = 0
     then \<lparr>rv_outcome = RvRepair, rv_accepted = None, rv_target = Some [115], rv_reason = [97],
           rv_final = FnRepair\<rparr>
     else \<lparr>rv_outcome = RvAccept, rv_accepted = Some [115], rv_target = None, rv_reason = [97],
           rv_final = FnAccepted\<rparr>)"

definition demo_workflow :: "nat workflow" where
  "demo_workflow = \<lparr>wf_planner = (\<lambda>q w. (Reply demo_plan, w)),
     wf_reviewer = (\<lambda>q w. (Reply (demo_review w), w + 1)), wf_registry = demo_registry,
     wf_enabled = True, wf_repairable = [inventory_risk_skill]\<rparr>"

definition demo_decision :: router_decision where
  "demo_decision = \<lparr>rd_route = MixedRoute, rd_query = [113], rd_reason = [114],
     rd_knowledge = Some [107], rd_data = Some [100], rd_missing = None, rd_confidence = 1\<rparr>"

definition demo_grants :: security_context where
  "demo_grants = demo_context\<lparr>sc_skills := [inventory_risk_skill],
     sc_tools := [lit ''run_data_agent'', lit ''run_knowledge_agent'']\<rparr>"

definition demo_wf_runtime :: request_runtime where
  "demo_wf_runtime = \<lparr>rt_request_id = [114], rt_created_at = 0, rt_estimate = length,
     rt_budgets = default_budget_config, rt_items = [], rt_diagnostics = []\<rparr>"

definition demo_flow :: "nat flow" where
  "demo_flow = \<lparr>fl_runtime = demo_wf_runtime, fl_world = 0, fl_calls = []\<rparr>"

abbreviation grants_policy :: auth_policy where
  "grants_policy \<equiv> default_deny_policy (\<lambda>s. s)"

abbreviation demo_run_call :: "security_context option \<Rightarrow> flow_call" where
  "demo_run_call sec \<equiv> SkillRun inventory_risk_skill (TraceCall [113] demo_decision (Some [117]) sec)"

lemma demo_get: "rg_get inventory_risk_skill demo_registry = Inr demo_skill"
  by (simp add: rg_get_def demo_registry_def)

lemma demo_skill_simps [simp]:
  "sl_name demo_skill = inventory_risk_skill" "sl_applicable demo_skill q d"
  "sl_route demo_skill = MixedRoute"
  "skill_call_of demo_skill q d u sec = TraceCall q d (Some u) sec"
  "run_skill demo_skill call fl = (Returned demo_result,
     fl\<lparr>fl_calls := fl_calls fl @ [SkillRun inventory_risk_skill call]\<rparr>)"
  by (simp_all add: demo_skill_def skill_call_of_def run_skill_def)

lemma demo_execute_registered:
  assumes "authorize_tools policy sec (sd_tools (sl_definition demo_skill)) = Inr ()"
  shows "execute_registered_skill demo_skill q d u None sec policy fl = ((Returned demo_result, False),
     fl\<lparr>fl_calls := fl_calls fl @ [SkillRun inventory_risk_skill (TraceCall q d (Some u) sec)]\<rparr>)"
  using assms by (simp add: execute_registered_skill_def skill_memory_consumed_def)

definition demo_done :: "nat \<Rightarrow> step_result" where
  "demo_done n = \<lparr>st_id = [115], st_skill = inventory_risk_skill, st_status = StepCompleted,
     st_result = Some demo_result, st_error = None, st_round = n, st_memory = False\<rparr>"

lemma demo_bounded_execute:
  assumes "reserve_round b = (True, b1)" and "reserve_call b1 = (True, b2)"
    and "authorize_skill policy sec inventory_risk_skill = Inr ()"
    and "authorize_tools policy sec (sd_tools (sl_definition demo_skill)) = Inr ()"
  shows "bounded_execute demo_registry demo_plan q demo_decision u None sec policy b fl =
    ((Finished (demo_done (eb_rounds b2)), b2), fl\<lparr>fl_calls := fl_calls fl @
       [SkillRun inventory_risk_skill (TraceCall q demo_decision (Some u) sec)]\<rparr>)"
proof -
  have p: "hd (ep_steps demo_plan) = demo_step" "ps_skill demo_step = inventory_risk_skill"
    by (simp_all add: demo_plan_def demo_step_def)
  have s: "step_of_reply demo_step b2 demo_skill demo_decision False (Returned demo_result) =
      Finished (demo_done (eb_rounds b2))"
    by (simp add: step_of_reply_def demo_result_def demo_decision_def demo_done_def demo_step_def)
  show ?thesis
    using assms by (simp add: bounded_execute_def p s demo_get demo_execute_registered)
qed

lemma demo_reviewed:
  assumes "reserve_review b = (True, b')" and "\<forall>s \<in> set steps. \<exists>c. s = demo_done c"
  shows "wf_review demo_workflow demo_plan q steps b fl = ((Finished (Inl (demo_review (fl_world fl))), b'),
     fl\<lparr>fl_world := fl_world fl + 1, fl_calls := fl_calls fl @ [ReviewerCall]\<rparr>)"
proof -
  have "\<not> list_ex (\<lambda>s. 32 < su_citations s) (map step_summary_of steps)"
    using assms(2) by (fastforce simp: list_ex_iff step_summary_of_def demo_done_def demo_result_def)
  then show ?thesis
    using assms(1) by (simp add: wf_review_def Let_def demo_workflow_def)
qed

lemma demo_authorized:
  "authorize_skill (Some grants_policy) (Some demo_grants) inventory_risk_skill = Inr ()"
  "authorize_tools (Some grants_policy) (Some demo_grants) (sd_tools (sl_definition demo_skill)) = Inr ()"
  by (simp_all add: authorize_skill_def authorize_tools_def default_deny_policy_def require_skill_def
      require_tool_def require_grant_def demo_grants_def Let_def demo_skill_def)

abbreviation demo_steps :: "step_result list" where
  "demo_steps \<equiv> [demo_done 1, demo_done 2]"

lemma demo_valid: "validate_plan demo_registry new_budget (Some demo_plan) = Inr ()"
  using demo_get
  by (simp add: validate_plan_def demo_plan_def demo_step_def new_budget_def check_plan_step_def
      py_strip_def py_space_def)

definition demo_calls :: "flow_call list" where
  "demo_calls = [PlannerCall, demo_run_call (Some demo_grants), ReviewerCall, demo_run_call None, ReviewerCall]"

abbreviation demo_flow_at :: "nat \<Rightarrow> nat \<Rightarrow> nat flow" where
  "demo_flow_at n w \<equiv> demo_flow\<lparr>fl_world := w, fl_calls := take n demo_calls\<rparr>"

lemma demo_repair_round:
  defines "b \<equiv> new_budget\<lparr>eb_rounds := 1, eb_calls := 1, eb_reviews := 1, eb_repairs := 1\<rparr>"
  shows "\<exists>b'. wf_repair_round demo_workflow demo_plan [113] demo_decision [117] None
      (demo_done 1) b (demo_flow_at 3 1) =
    ((Finished (wf_accepted demo_result demo_steps), b'), demo_flow_at 5 2)"
proof -
  let ?b1 = "b\<lparr>eb_rounds := 2\<rparr>" and ?b2 = "b\<lparr>eb_rounds := 2, eb_calls := 2\<rparr>"
    and ?b3 = "b\<lparr>eb_rounds := 2, eb_calls := 2, eb_reviews := 2\<rparr>"
  have r: "reserve_round b = (True, ?b1)" "reserve_call ?b1 = (True, ?b2)" "reserve_review ?b2 = (True, ?b3)"
    by (simp_all add: b_def new_budget_def reserve_round_def reserve_call_def reserve_review_def)
  have e: "bounded_execute demo_registry demo_plan [113] demo_decision [117] None None None b
      (demo_flow_at 3 1) = ((Finished (demo_done 2), ?b2), demo_flow_at 4 1)"
    using demo_bounded_execute [OF r(1,2), of None None "[113]" "[117]" "demo_flow_at 3 1"]
    by (simp add: authorize_skill_def authorize_tools_def demo_calls_def)
  have v: "wf_review demo_workflow demo_plan [113] demo_steps ?b2 (demo_flow_at 4 1) =
      ((Finished (Inl (demo_review 1)), ?b3), demo_flow_at 5 2)"
    using demo_reviewed [OF r(3), of demo_steps "[113]" "demo_flow_at 4 1"]
    by (force simp: demo_calls_def)
  have a: "accept_result (demo_review 1) demo_steps = Some demo_result"
    by (simp add: accept_result_def demo_review_def demo_done_def)
  have s: "second_verdict (demo_review 1) demo_steps = wf_accepted demo_result demo_steps"
    unfolding second_verdict_def a by simp
  have "st_status (demo_done c) \<noteq> TechnicalFailed" "wf_registry demo_workflow = demo_registry" for c
    by (simp_all add: demo_done_def demo_workflow_def)
  with e v s show ?thesis by (simp add: wf_repair_round_def)
qed

lemma demo_run:
  "\<exists>b. wf_execute demo_workflow [113] demo_decision [117] None (Some demo_grants) (Some grants_policy) demo_flow =
     ((Finished (wf_accepted demo_result demo_steps), b), demo_flow_at 5 2)"
proof -
  let ?b0 = "new_budget"
  let ?b1 = "?b0\<lparr>eb_rounds := 1\<rparr>" and ?b2 = "?b0\<lparr>eb_rounds := 1, eb_calls := 1\<rparr>"
    and ?b3 = "?b0\<lparr>eb_rounds := 1, eb_calls := 1, eb_reviews := 1\<rparr>"
    and ?b4 = "?b0\<lparr>eb_rounds := 1, eb_calls := 1, eb_reviews := 1, eb_repairs := 1\<rparr>"
  have r: "reserve_round ?b0 = (True, ?b1)" "reserve_call ?b1 = (True, ?b2)" "reserve_review ?b2 = (True, ?b3)"
    "reserve_repair ?b3 = (True, ?b4)"
    by (simp_all add: new_budget_def reserve_round_def reserve_call_def reserve_review_def reserve_repair_def)
  have reg: "wf_registry demo_workflow = demo_registry" by (simp add: demo_workflow_def)
  have st: "st_status (demo_done c) \<noteq> TechnicalFailed" for c by (simp add: demo_done_def)
  have e: "bounded_execute demo_registry demo_plan [113] demo_decision [117] None (Some demo_grants)
      (Some grants_policy) ?b0 (demo_flow_at 1 0) = ((Finished (demo_done 1), ?b2), demo_flow_at 2 0)"
    using demo_bounded_execute [OF r(1,2) demo_authorized, of "[113]" "[117]" "demo_flow_at 1 0"]
    by (simp add: demo_calls_def)
  have v: "wf_review demo_workflow demo_plan [113] [demo_done 1] ?b2 (demo_flow_at 2 0) =
      ((Finished (Inl (demo_review 0)), ?b3), demo_flow_at 3 1)"
    using demo_reviewed [OF r(3), of "[demo_done 1]" "[113]" "demo_flow_at 2 0"]
    by (force simp: demo_calls_def)
  have a: "accept_result (demo_review 0) [demo_done 1] = None" "\<not> is_unanswerable (demo_review 0)"
    "rv_outcome (demo_review 0) = RvRepair" "repair_is_allowed demo_workflow (demo_review 0) (demo_done 1) ?b3"
    by (simp_all add: accept_result_def is_unanswerable_def demo_review_def repair_is_allowed_def
        demo_done_def demo_workflow_def new_budget_def)
  from demo_repair_round obtain b' where
    rr: "wf_repair_round demo_workflow demo_plan [113] demo_decision [117] None (demo_done 1) ?b4
      (demo_flow_at 3 1) = ((Finished (wf_accepted demo_result demo_steps), b'), demo_flow_at 5 2)"
    by auto
  have "first_verdict demo_workflow demo_plan [113] demo_decision [117] None (demo_review 0)
      (demo_done 1) ?b3 (demo_flow_at 3 1) = ((Finished (wf_accepted demo_result demo_steps), b'), demo_flow_at 5 2)"
    using a rr r(4) by (simp add: first_verdict_def)
  then have f: "wf_first_round demo_workflow demo_plan [113] demo_decision [117] None (Some demo_grants)
      (Some grants_policy) ?b0 (demo_flow_at 1 0) =
      ((Finished (wf_accepted demo_result demo_steps), b'), demo_flow_at 5 2)"
    using e v reg st by (simp add: wf_first_round_def)
  have pl: "wf_planner demo_workflow q w = (Reply demo_plan, w)" for q w
    by (simp add: demo_workflow_def)
  have fl: "demo_flow\<lparr>fl_world := fl_world demo_flow, fl_calls := fl_calls demo_flow @ [PlannerCall]\<rparr> =
      demo_flow_at 1 0"
    by (simp add: demo_flow_def demo_calls_def)
  show ?thesis
    using f fl by (simp add: wf_execute_def pl reg demo_valid)
qed


theorem workflow_runs_granted_witness:
  "inventory_risk_skill \<in> set (sc_skills demo_grants)
     \<and> set (sd_tools (sl_definition demo_skill)) \<subseteq> set (sc_tools demo_grants)"
proof -
  from demo_run obtain b where r: "wf_execute demo_workflow [113] demo_decision [117] None
      (Some demo_grants) (Some grants_policy) demo_flow =
      ((Finished (wf_accepted demo_result demo_steps), b), demo_flow_at 5 2)" ..
  have c: "demo_run_call (Some demo_grants) \<in> set (fl_calls (demo_flow_at 5 2))" and n: "fl_calls demo_flow = []"
    by (simp_all add: demo_calls_def demo_flow_def)
  have reg: "wf_registry demo_workflow = demo_registry" by (simp add: demo_workflow_def)
  from workflow_runs_granted [OF r c n] demo_get reg show ?thesis by auto
qed

text \<open>
  The repaired execution of the same authorized request reaches the skill without its security
  context: the second of the two runs carries none.
\<close>

lemma repair_round_drops_security:
  "\<exists>b fl'. wf_execute demo_workflow [113] demo_decision [117] None (Some demo_grants) (Some grants_policy)
       demo_flow = ((Finished (wf_accepted demo_result demo_steps), b), fl')
     \<and> fl_calls fl' = [PlannerCall, demo_run_call (Some demo_grants), ReviewerCall, demo_run_call None,
         ReviewerCall]"
  using demo_run by (auto simp: demo_calls_def)

end
