(* ===== verification/Coordinator.thy ===== *)
theory Coordinator
  imports AgentWorkflow
begin

section \<open>The coordinator\<close>

text \<open>
  \<^verbatim>\<open>coordination/coordinator.py\<close> and the result of \<^verbatim>\<open>coordination/models.py\<close>: one request is routed
  through the context runtime, authorized, and handed to the controlled workflow or to the one
  registered skill of its route. The router is a function of the selected request, of the selected
  items when it takes a context, and of the world; the JSON text of a decision and its parser, the text
  of the router prompt, the token estimator, the clock and a fresh request identifier are arguments.
\<close>

subsection \<open>Results\<close>

datatype coordinator_status = CoordCompleted | CoordUnsupported | CoordRequiresMixed | CoordFailed

record coordinator_result =
  co_status :: coordinator_status
  co_route :: "request_route option"
  co_skill :: "pystr option"
  co_answer :: "pystr option"
  co_citations :: "pystr list"
  co_steps :: "pystr list"
  co_tool_steps :: "pystr list"
  co_error :: "pystr option"
  co_memory :: bool

definition coordinator_contract :: "coordinator_result \<Rightarrow> bool" where
  "coordinator_contract r = (case co_status r of
       CoordCompleted \<Rightarrow> co_route r \<in> {Some KnowledgeRoute, Some DataRoute, Some MixedRoute}
         \<and> co_skill r \<noteq> None \<and> co_answer r \<noteq> None \<and> co_error r = None \<and> co_tool_steps r \<noteq> []
     | CoordUnsupported \<Rightarrow> co_route r = Some UnsupportedRoute \<and> co_skill r = None
     | CoordRequiresMixed \<Rightarrow> co_route r = Some MixedRoute \<and> co_skill r = None
         \<and> co_error r = Some (lit ''requires_mixed_skill'')
     | CoordFailed \<Rightarrow> co_answer r = None \<and> co_citations r = [] \<and> co_skill r = None \<and> co_error r \<noteq> None)"

definition at_most :: "nat \<Rightarrow> pystr option \<Rightarrow> bool" where
  "at_most limit s = (case s of None \<Rightarrow> True | Some t \<Rightarrow> length t \<le> limit)"

text \<open>Constructing a result: its validation raises when the contract does not hold.\<close>

definition new_coordinator_result :: "coordinator_result \<Rightarrow> coordinator_result flow_result" where
  "new_coordinator_result r =
     (if at_most 120 (co_skill r) \<and> at_most 8000 (co_answer r) \<and> length (co_steps r) \<le> 6
        \<and> length (co_tool_steps r) \<le> 8 \<and> at_most 120 (co_error r) \<and> coordinator_contract r
      then Finished r else FlowThrew)"

definition coord_failed ::
  "request_route option \<Rightarrow> string list \<Rightarrow> pystr \<Rightarrow> bool \<Rightarrow> coordinator_result flow_result" where
  "coord_failed route steps code memory = new_coordinator_result
     \<lparr>co_status = CoordFailed, co_route = route, co_skill = None, co_answer = None, co_citations = [],
      co_steps = map lit steps, co_tool_steps = [], co_error = Some code, co_memory = memory\<rparr>"

definition coord_completed ::
  "request_route \<Rightarrow> skill_result \<Rightarrow> string list \<Rightarrow> bool \<Rightarrow> coordinator_result flow_result" where
  "coord_completed route r steps memory = new_coordinator_result
     \<lparr>co_status = CoordCompleted, co_route = Some route, co_skill = Some (sr_name r),
      co_answer = sr_answer r, co_citations = sr_citations r, co_steps = map lit steps,
      co_tool_steps = sr_steps r, co_error = None, co_memory = memory\<rparr>"

subsection \<open>Configuration\<close>

datatype router_reply = Routed router_decision | NotADecision | RoutingError pystr | RouterThrew
  | RouterCancelled

record 'w coordinator =
  cd_with_context :: bool
  cd_route :: "pystr \<Rightarrow> context_item list option \<Rightarrow> 'w \<Rightarrow> router_reply \<times> 'w"
  cd_registry :: "'w registry"
  cd_workflow :: "'w workflow option"
  cd_prompt :: pystr
  cd_estimate :: "pystr \<Rightarrow> nat"
  cd_dump :: "router_decision \<Rightarrow> pystr"
  cd_parse :: "pystr \<Rightarrow> router_decision option"

record request =
  rq_query :: pystr
  rq_id :: pystr
  rq_created :: int
  rq_memory :: "memory_projection option"
  rq_security :: "security_context option"
  rq_policy :: "auth_policy option"

text \<open>What routing hands on: the runtime, the request items and whether the router saw the memory.\<close>

record prepared =
  pp_runtime :: request_runtime
  pp_user :: context_item
  pp_memory_id :: "pystr option"
  pp_selection :: selection_result
  pp_request :: pystr

subsection \<open>Authorization of a route\<close>

definition require_route_scopes :: "auth_policy \<Rightarrow> security_context \<Rightarrow> request_route \<Rightarrow> security_failure + unit" where
  "require_route_scopes P c route = (case route of
       KnowledgeRoute \<Rightarrow> res_bind (ap_knowledge_scope P c) (\<lambda>_. Inr ())
     | DataRoute \<Rightarrow> res_bind (ap_data_scope P c (lit ''enterprise_operations'')) (\<lambda>_. Inr ())
     | MixedRoute \<Rightarrow> res_bind (ap_knowledge_scope P c) (\<lambda>_.
         res_bind (ap_data_scope P c (lit ''enterprise_operations'')) (\<lambda>_. Inr ()))
     | UnsupportedRoute \<Rightarrow> Inr ())"

definition authorize_route ::
  "auth_policy option \<Rightarrow> security_context option \<Rightarrow> request_route \<Rightarrow> security_failure + unit" where
  "authorize_route policy sec route = (case policy of
       None \<Rightarrow> Inr ()
     | Some P \<Rightarrow> (case sec of
           None \<Rightarrow> Inl (SecInvalid ''security_context'')
         | Some c \<Rightarrow> res_bind (ap_scenario P c (route_value route)) (\<lambda>_. require_route_scopes P c route)))"

definition authorize_execution ::
  "auth_policy option \<Rightarrow> security_context option \<Rightarrow> pystr \<Rightarrow> pystr \<Rightarrow> security_failure + unit" where
  "authorize_execution policy sec workflow_name skill_name = (case policy of
       None \<Rightarrow> Inr ()
     | Some P \<Rightarrow> (case sec of
           None \<Rightarrow> Inl (SecInvalid ''security_context'')
         | Some c \<Rightarrow> res_bind (ap_workflow P c workflow_name) (\<lambda>_.
             res_bind (ap_skill P c skill_name) (\<lambda>_. Inr ()))))"

subsection \<open>Routing\<close>

definition prepare_routing :: "'w coordinator \<Rightarrow> request \<Rightarrow> request_runtime \<Rightarrow> ctx_error + prepared" where
  "prepare_routing C q rt =
     res_bind (rt_user_request (rq_query q) rt) (\<lambda>(user, rt).
     res_bind (case rq_memory q of
         None \<Rightarrow> Inr (None, rt)
       | Some m \<Rightarrow> res_bind (rt_add_conversation_memory m rt) (\<lambda>(i, rt). Inr (Some (ci_id i), rt)))
       (\<lambda>(memory, rt).
     res_bind (rt_system_instruction (lit ''router-instruction'') (cd_prompt C) rt) (\<lambda>(instruction, rt).
     res_bind (select_for_router user instruction (Aware (rt_created_at rt)) rt) (\<lambda>(selection, rt).
     res_bind (project_router selection (ci_id user)) (\<lambda>(selected, _).
     Inr \<lparr>pp_runtime = rt, pp_user = user, pp_memory_id = memory, pp_selection = selection,
          pp_request = selected\<rparr>)))))"

definition router_consumed :: "'w coordinator \<Rightarrow> prepared \<Rightarrow> bool" where
  "router_consumed C p = (cd_with_context C \<and> (case pp_memory_id p of
     None \<Rightarrow> False | Some m \<Rightarrow> m \<in> set (sr_item_ids (pp_selection p))))"

definition route_request ::
  "'w coordinator \<Rightarrow> prepared \<Rightarrow> 'w flow \<Rightarrow> router_reply \<times> 'w flow" where
  "route_request C p fl =
     (case cd_route C (pp_request p) (if cd_with_context C then Some (sr_items (pp_selection p)) else None)
         (fl_world fl) of
        (reply, w) \<Rightarrow> (reply, \<lparr>fl_runtime = pp_runtime p, fl_world = w, fl_calls = fl_calls fl @ [RouterCall]\<rparr>))"

definition select_coordination ::
  "'w coordinator \<Rightarrow> prepared \<Rightarrow> router_decision \<Rightarrow> request_runtime
     \<Rightarrow> ctx_error + (pystr \<times> router_decision \<times> request_runtime)" where
  "select_coordination C p d rt =
     res_bind (rt_router_decision (cd_dump C d) (ci_id (pp_user p)) rt) (\<lambda>(item, rt).
     res_bind (select_for_coordinator (pp_user p) item (Aware (rt_created_at rt)) rt) (\<lambda>(selection, rt).
     res_bind (project_coordinator (cd_parse C) selection (ci_id (pp_user p)) (ci_id item))
       (\<lambda>(selected, decision). Inr (selected, decision, rt))))"

subsection \<open>Execution\<close>

text \<open>The result of a skill becomes the result of the request.\<close>

definition settle_result ::
  "request_route \<Rightarrow> 'w skill \<Rightarrow> string list \<Rightarrow> bool \<Rightarrow> skill_result \<Rightarrow> coordinator_result flow_result" where
  "settle_result route s steps memory r =
     (if sr_route r \<noteq> route \<or> sr_name r \<noteq> sl_name s
      then coord_failed (Some route) steps (lit ''skill_result_contract_invalid'') memory
      else if sr_status r = SkillCompleted then coord_completed route r steps memory
      else coord_failed (Some route) steps (code_or (sr_error r) (lit ''skill_execution_failed'')) memory)"

text \<open>
  The direct execution of a skill. On the mixed route (\<open>mixed\<close>) a returned value that is no skill
  result is refused; on the single-domain routes reading its fields raises.
\<close>

definition run_direct ::
  "bool \<Rightarrow> string list \<Rightarrow> request \<Rightarrow> prepared \<Rightarrow> pystr \<Rightarrow> router_decision \<Rightarrow> bool \<Rightarrow> 'w skill \<Rightarrow> 'w flow
     \<Rightarrow> coordinator_result flow_result \<times> 'w flow" where
  "run_direct mixed steps q p selected d memory s fl =
     (let route = rd_route d; start = length (rt_diagnostics (fl_runtime fl));
          done = steps @ [''execute_skill'']
      in (case execute_registered_skill s selected d (ci_id (pp_user p)) (pp_memory_id p) (rq_security q)
             (rq_policy q) fl of
           ((Cancelled, _), fl') \<Rightarrow> (FlowCancelled, fl')
         | ((Refused e, _), fl') \<Rightarrow>
             (coord_failed (Some route) (steps @ [''authorize_skill'']) (sec_code e) memory, fl')
         | ((Threw, _), fl') \<Rightarrow> (coord_failed (Some route) done (lit ''skill_execution_failed'')
             (memory \<or> skill_memory_consumed (fl_runtime fl') start (pp_memory_id p)), fl')
         | ((NotAResult, m), fl') \<Rightarrow>
             (if mixed then coord_failed (Some route) done (lit ''skill_result_contract_invalid'') (memory \<or> m)
              else FlowThrew, fl')
         | ((Returned r, m), fl') \<Rightarrow> (settle_result route s done (memory \<or> m) r, fl')))"

definition run_workflow ::
  "'w workflow \<Rightarrow> string list \<Rightarrow> request \<Rightarrow> prepared \<Rightarrow> pystr \<Rightarrow> router_decision \<Rightarrow> bool \<Rightarrow> 'w skill \<Rightarrow> 'w flow
     \<Rightarrow> coordinator_result flow_result \<times> 'w flow" where
  "run_workflow W steps q p selected d memory s fl =
     (let route = rd_route d; start = length (rt_diagnostics (fl_runtime fl));
          done = steps @ [''execute_skill'', ''controlled_workflow'']
      in (case wf_execute W selected d (ci_id (pp_user p)) (pp_memory_id p) (rq_security q) (rq_policy q) fl of
           ((FlowCancelled, _), fl') \<Rightarrow> (FlowCancelled, fl')
         | ((FlowThrew, _), fl') \<Rightarrow> (coord_failed (Some route) (steps @ [''execute_skill''])
             (lit ''workflow_execution_failed'')
             (memory \<or> skill_memory_consumed (fl_runtime fl') start (pp_memory_id p)), fl')
         | ((Finished w, _), fl') \<Rightarrow>
             (if wr_status w \<noteq> WfAccepted
              then coord_failed (Some route) done (code_or (wr_error w) (lit ''workflow_execution_failed''))
                (memory \<or> wr_memory w)
              else (case wr_result w of
                  None \<Rightarrow> coord_failed (Some route) done (lit ''skill_result_contract_invalid'')
                    (memory \<or> wr_memory w)
                | Some r \<Rightarrow> settle_result route s done (memory \<or> wr_memory w) r), fl')))"

definition execute_mixed ::
  "'w coordinator \<Rightarrow> request \<Rightarrow> prepared \<Rightarrow> pystr \<Rightarrow> router_decision \<Rightarrow> 'w flow
     \<Rightarrow> coordinator_result flow_result \<times> 'w flow" where
  "execute_mixed C q p selected d fl =
     (let route = rd_route d; memory = router_consumed C p;
          steps = [''route_request'', ''select_mixed_skill'']
      in (case rg_for_route route (cd_registry C) of
           Inl e \<Rightarrow> (coord_failed (Some route) steps (registry_code e) memory, fl)
         | Inr s \<Rightarrow>
             if \<not> sl_applicable s (rq_query q) d
             then (coord_failed (Some route) steps (lit ''no_matching_skill'') memory, fl)
             else let enabled = (case cd_workflow C of None \<Rightarrow> False | Some W \<Rightarrow> is_enabled_for W d s)
               in (case authorize_execution (rq_policy q) (rq_security q)
                     (if enabled then lit ''controlled_mixed'' else lit ''direct'') (sl_name s) of
                   Inl (Denied e) \<Rightarrow>
                     (coord_failed (Some route) (steps @ [''authorize_skill'']) (sec_code e) memory, fl)
                 | Inl (SecInvalid _) \<Rightarrow> (coord_failed (Some route) (steps @ [''execute_skill''])
                     (if enabled then lit ''workflow_execution_failed'' else lit ''skill_execution_failed'')
                     memory, fl)
                 | Inr _ \<Rightarrow> (case cd_workflow C of
                       None \<Rightarrow> run_direct True steps q p selected d memory s fl
                     | Some W \<Rightarrow>
                         if enabled then run_workflow W steps q p selected d memory s fl
                         else run_direct True steps q p selected d memory s fl))))"

definition execute_single ::
  "'w coordinator \<Rightarrow> request \<Rightarrow> prepared \<Rightarrow> pystr \<Rightarrow> router_decision \<Rightarrow> 'w flow
     \<Rightarrow> coordinator_result flow_result \<times> 'w flow" where
  "execute_single C q p selected d fl =
     (let route = rd_route d; memory = router_consumed C p;
          steps = [''route_request'', ''select_skill'']
      in (case rg_for_route route (cd_registry C) of
           Inl e \<Rightarrow> (coord_failed (Some route) steps (registry_code e) memory, fl)
         | Inr s \<Rightarrow>
             if sl_route s \<noteq> route
             then (coord_failed (Some route) steps (lit ''skill_route_mismatch'') memory, fl)
             else (case authorize_execution (rq_policy q) (rq_security q) (lit ''direct'') (sl_name s) of
                 Inl (Denied e) \<Rightarrow>
                   (coord_failed (Some route) (steps @ [''authorize_skill'']) (sec_code e) memory, fl)
               | Inl (SecInvalid _) \<Rightarrow> (coord_failed (Some route) (steps @ [''execute_skill''])
                   (lit ''skill_execution_failed'') memory, fl)
               | Inr _ \<Rightarrow> run_direct False steps q p selected d memory s fl)))"

definition dispatch ::
  "'w coordinator \<Rightarrow> request \<Rightarrow> prepared \<Rightarrow> pystr \<Rightarrow> router_decision \<Rightarrow> 'w flow
     \<Rightarrow> coordinator_result flow_result \<times> 'w flow" where
  "dispatch C q p selected d fl =
     (let route = rd_route d; memory = router_consumed C p
      in if route = UnsupportedRoute
         then (new_coordinator_result
           \<lparr>co_status = CoordUnsupported, co_route = Some route, co_skill = None, co_answer = None,
            co_citations = [], co_steps = [lit ''route_request'', lit ''short_circuit_unsupported''],
            co_tool_steps = [], co_error = None, co_memory = memory\<rparr>, fl)
         else (case authorize_route (rq_policy q) (rq_security q) route of
             Inl (Denied e) \<Rightarrow> (coord_failed (Some route)
               [''route_request'', ''authorize_scenario'', ''authorize_scope''] (sec_code e) memory, fl)
           | Inl (SecInvalid _) \<Rightarrow> (FlowThrew, fl)
           | Inr _ \<Rightarrow> if route = MixedRoute then execute_mixed C q p selected d fl
               else execute_single C q p selected d fl))"

definition coordinate_routed ::
  "'w coordinator \<Rightarrow> request \<Rightarrow> prepared \<Rightarrow> router_reply \<Rightarrow> 'w flow
     \<Rightarrow> coordinator_result flow_result \<times> 'w flow" where
  "coordinate_routed C q p reply fl =
     (let memory = router_consumed C p; steps = [''route_request'']
      in (case reply of
           RouterCancelled \<Rightarrow> (FlowCancelled, fl)
         | RoutingError sub \<Rightarrow> (coord_failed None steps (lit ''coordinator_router_'' @ sub) memory, fl)
         | RouterThrew \<Rightarrow> (coord_failed None steps (lit ''coordinator_router_failed'') memory, fl)
         | NotADecision \<Rightarrow> (coord_failed None steps (lit ''invalid_router_decision'') memory, fl)
         | Routed d \<Rightarrow> (case select_coordination C p d (fl_runtime fl) of
               Inl _ \<Rightarrow> (coord_failed (Some (rd_route d)) steps (lit ''coordinator_context_failed'') memory, fl)
             | Inr (selected, decision, rt) \<Rightarrow> dispatch C q p selected decision (fl\<lparr>fl_runtime := rt\<rparr>))))"

text \<open>One request: its result, the calls it made and the world it leaves.\<close>

definition coord_execute ::
  "'w coordinator \<Rightarrow> request \<Rightarrow> 'w \<Rightarrow> coordinator_result flow_result \<times> flow_call list \<times> 'w" where
  "coord_execute C q w =
     (if rq_policy q \<noteq> None \<and> rq_security q = None
      then (coord_failed None [''authorize_request''] (sec_code Unauthenticated) False, [], w)
      else (case new_request_runtime (rq_id q) (Aware (rq_created q)) (cd_estimate C)
                   default_budget_config of
          Inl _ \<Rightarrow> (FlowThrew, [], w)
        | Inr rt \<Rightarrow> (case prepare_routing C q rt of
              Inl _ \<Rightarrow> (coord_failed None [''route_request''] (lit ''coordinator_router_failed'') False, [], w)
            | Inr p \<Rightarrow> (case route_request C p \<lparr>fl_runtime = rt, fl_world = w, fl_calls = []\<rparr> of
                (reply, fl) \<Rightarrow> (case coordinate_routed C q p reply fl of
                    (r, fl') \<Rightarrow> (r, fl_calls fl', fl_world fl'))))))"

subsection \<open>Grants\<close>

text \<open>A policy whose scope checks also bind the scopes to the tenant of the request's principal.\<close>

locale scoped_authorization = authorization_policy +
  fixes data_scope :: "security_context \<Rightarrow> pystr \<Rightarrow> security_failure + security_event"
    and knowledge_scope :: "security_context \<Rightarrow> security_failure + security_event"
  assumes data_scope_bound: "data_scope c domain = Inr e \<Longrightarrow>
      \<exists>s. sc_data_scope c = Some s \<and> ds_tenant_id s = p_tenant_id (sc_principal c)
        \<and> data_permits s domain None"
    and knowledge_scope_bound: "knowledge_scope c = Inr e \<Longrightarrow>
      \<exists>s. sc_knowledge_scope c = Some s \<and> ks_tenant_id s = p_tenant_id (sc_principal c)"
begin

definition same_policy :: "auth_policy \<Rightarrow> bool" where
  "same_policy P \<longleftrightarrow> ap_scenario P = scenario \<and> ap_workflow P = workflow \<and> ap_skill P = skill
     \<and> ap_tool P = tool \<and> ap_data_scope P = data_scope \<and> ap_knowledge_scope P = knowledge_scope"

lemma route_granted:
  assumes "authorize_route (Some P) sec route = Inr ()" and "same_policy P"
  shows "\<exists>c. sec = Some c \<and> route_value route \<in> set (sc_scenarios c)
    \<and> (route \<in> {KnowledgeRoute, MixedRoute} \<longrightarrow>
        (\<exists>s. sc_knowledge_scope c = Some s \<and> ks_tenant_id s = p_tenant_id (sc_principal c)))
    \<and> (route \<in> {DataRoute, MixedRoute} \<longrightarrow>
        (\<exists>s. sc_data_scope c = Some s \<and> ds_tenant_id s = p_tenant_id (sc_principal c)
           \<and> data_permits s (lit ''enterprise_operations'') None))"
proof (cases sec)
  case None
  with assms(1) show ?thesis by (simp add: authorize_route_def)
next
  case (Some c)
  with assms obtain e where e: "scenario c (route_value route) = Inr e"
    and r: "require_route_scopes P c route = Inr ()"
    by (auto simp: authorize_route_def same_policy_def res_simps)
  from r assms(2) have
    "route \<in> {KnowledgeRoute, MixedRoute} \<longrightarrow> (\<exists>e. knowledge_scope c = Inr e)"
    "route \<in> {DataRoute, MixedRoute} \<longrightarrow> (\<exists>e. data_scope c (lit ''enterprise_operations'') = Inr e)"
    by (auto simp: require_route_scopes_def same_policy_def res_simps split: request_route.splits)
  with Some scenario_granted [OF e] knowledge_scope_bound data_scope_bound show ?thesis by blast
qed

lemma execution_granted:
  assumes "authorize_execution (Some P) (Some c) w k = Inr ()" and "same_policy P"
  shows "w \<in> set (sc_workflows c) \<and> k \<in> set (sc_skills c)"
  using assms workflow_granted skill_granted
  by (auto simp: authorize_execution_def same_policy_def res_simps)

end

interpretation scoped_default_deny: scoped_authorization
  "require_scenario sha" "require_workflow sha" "require_skill sha" "require_tool sha"
  "require_data_scope sha" "require_knowledge_scope sha" for sha
  by unfold_locales
    (auto simp: require_data_scope_def require_knowledge_scope_def scope_event_def Let_def
      split: option.splits if_splits)

lemma same_default_policy: "scoped_default_deny.same_policy sha (default_deny_policy sha)"
  by (simp add: scoped_default_deny.same_policy_def default_deny_policy_def)

subsection \<open>What a request may run\<close>

lemma run_direct_calls:
  assumes "run_direct mixed steps q p selected d memory s fl = (r, fl')"
  shows "fl_calls fl' = fl_calls fl
    \<or> (\<exists>c. fl_calls fl' = fl_calls fl @ [SkillRun (sl_name s) c]
         \<and> authorize_tools (rq_policy q) (rq_security q) (sd_tools (sl_definition s)) = Inr ())"
proof -
  obtain reply m fl2 where
    e: "execute_registered_skill s selected d (ci_id (pp_user p)) (pp_memory_id p) (rq_security q)
      (rq_policy q) fl = ((reply, m), fl2)" by (metis prod.exhaust)
  with assms have "fl' = fl2" by (cases reply) (auto simp: run_direct_def Let_def)
  with execute_registered_skill_calls [OF e] show ?thesis by blast
qed

text \<open>
  A skill run of a request: the skill is registered under its name, and every check of the policy
  before it succeeded.
\<close>

definition run_checked :: "'w coordinator \<Rightarrow> request \<Rightarrow> request_route \<Rightarrow> pystr \<Rightarrow> bool" where
  "run_checked C q route n \<longleftrightarrow> authorize_route (rq_policy q) (rq_security q) route = Inr ()
     \<and> (\<exists>w. w \<in> {lit ''direct'', lit ''controlled_mixed''}
          \<and> authorize_execution (rq_policy q) (rq_security q) w n = Inr ())
     \<and> (\<exists>s. rg_get n (cd_registry C) = Inr s
          \<and> authorize_tools (rq_policy q) (rq_security q) (sd_tools (sl_definition s)) = Inr ())"

lemma run_checkedI:
  assumes "authorize_route (rq_policy q) (rq_security q) route = Inr ()"
    and "w = lit ''direct'' \<or> w = lit ''controlled_mixed''"
    and "authorize_execution (rq_policy q) (rq_security q) w (sl_name s) = Inr ()"
    and "rg_get (sl_name s) (cd_registry C) = Inr s"
    and "n = sl_name s
      \<and> authorize_tools (rq_policy q) (rq_security q) (sd_tools (sl_definition s)) = Inr ()"
  shows "run_checked C q route n"
  unfolding run_checked_def using assms by blast

lemma run_workflow_calls:
  assumes "run_workflow W steps q p selected d memory s fl = (r, fl')"
    and "SkillRun n c \<in> set (fl_calls fl')" and "SkillRun n c \<notin> set (fl_calls fl)"
  shows "n = inventory_risk_skill \<and> (\<exists>s. rg_get n (wf_registry W) = Inr s
    \<and> authorize_tools (rq_policy q) (rq_security q) (sd_tools (sl_definition s)) = Inr ())"
proof -
  obtain out b fl2 where e: "wf_execute W selected d (ci_id (pp_user p)) (pp_memory_id p)
      (rq_security q) (rq_policy q) fl = ((out, b), fl2)" by (metis prod.exhaust)
  with assms(1) have fl': "fl' = fl2" by (cases out) (auto simp: run_workflow_def Let_def)
  from wf_execute_calls [OF e] obtain new1 new2 where n: "fl_calls fl2 = fl_calls fl @ new1 @ new2"
    "list_all (run_granted (wf_registry W) (rq_security q) (rq_policy q)) new1"
    "list_all (run_granted (wf_registry W) None None) new2"
    "new2 \<noteq> [] \<longrightarrow> map kind_of new1 = [KPlanner, KSkill, KReviewer]" by (elim exE conjE)
  from assms(2,3) n(1) fl' have "SkillRun n c \<in> set (new1 @ new2)" by auto
  from runs_of_first_round [OF this n(2-4)] show ?thesis by (auto simp: run_granted_def)
qed

lemma execute_mixed_checked:
  assumes "execute_mixed C q p selected d fl = (r, fl')" and "rd_route d = MixedRoute"
    and "authorize_route (rq_policy q) (rq_security q) MixedRoute = Inr ()"
    and "SkillRun n c \<in> set (fl_calls fl')" and "SkillRun n c \<notin> set (fl_calls fl)"
    and R: "registry_ok (cd_registry C)" and W: "\<forall>W. cd_workflow C = Some W \<longrightarrow> wf_registry W = cd_registry C"
  shows "run_checked C q MixedRoute n"
proof -
  have "fl' \<noteq> fl" using assms(4,5) by auto
  then obtain s where s: "rg_for_route MixedRoute (cd_registry C) = Inr s"
    using assms(1,2) by (auto simp: execute_mixed_def Let_def split: sum.splits)
  let ?en = "case cd_workflow C of None \<Rightarrow> False | Some W \<Rightarrow> is_enabled_for W d s"
  let ?w = "if ?en then lit ''controlled_mixed'' else lit ''direct''"
  have a: "authorize_execution (rq_policy q) (rq_security q) ?w (sl_name s) = Inr ()"
  proof (cases "authorize_execution (rq_policy q) (rq_security q) ?w (sl_name s)")
    case (Inl f)
    with assms(1,2) s \<open>fl' \<noteq> fl\<close> show ?thesis
      by (cases f) (auto simp: execute_mixed_def Let_def split: if_splits)
  qed simp
  have name: "rg_get (sl_name s) (cd_registry C) = Inr s"
    using registry_route_ok [OF R s] by simp
  have "(\<exists>W. cd_workflow C = Some W \<and> ?en
        \<and> run_workflow W [''route_request'', ''select_mixed_skill''] q p selected d (router_consumed C p) s fl
          = (r, fl'))
    \<or> run_direct True [''route_request'', ''select_mixed_skill''] q p selected d (router_consumed C p) s fl
          = (r, fl')"
    using assms(1,2) s a \<open>fl' \<noteq> fl\<close>
    by (cases "cd_workflow C") (auto simp: execute_mixed_def Let_def split: if_splits)
  then have "n = sl_name s
      \<and> authorize_tools (rq_policy q) (rq_security q) (sd_tools (sl_definition s)) = Inr ()"
  proof (elim disjE exE conjE)
    fix X
    assume X: "cd_workflow C = Some X" ?en and e:
      "run_workflow X [''route_request'', ''select_mixed_skill''] q p selected d (router_consumed C p) s fl
        = (r, fl')"
    from X have n: "sl_name s = inventory_risk_skill" by (simp add: is_enabled_for_def)
    from run_workflow_calls [OF e assms(4,5)] obtain s' where s': "n = inventory_risk_skill"
      "rg_get n (wf_registry X) = Inr s'"
      "authorize_tools (rq_policy q) (rq_security q) (sd_tools (sl_definition s')) = Inr ()" by blast
    have "wf_registry X = cd_registry C" using W X(1) by blast
    with s'(1,2) n name have "Inr s' = (Inr s :: registry_error + 'a skill)" by metis
    with s' n show ?thesis by simp
  next
    assume "run_direct True [''route_request'', ''select_mixed_skill''] q p selected d
      (router_consumed C p) s fl = (r, fl')"
    from run_direct_calls [OF this] assms(4,5) show ?thesis by auto
  qed
  note run = this
  have w: "?w = lit ''direct'' \<or> ?w = lit ''controlled_mixed''" by (cases ?en) simp_all
  show ?thesis by (rule run_checkedI [OF assms(3) w a name run])
qed

lemma execute_single_checked:
  assumes "execute_single C q p selected d fl = (r, fl')"
    and "authorize_route (rq_policy q) (rq_security q) (rd_route d) = Inr ()"
    and "SkillRun n c \<in> set (fl_calls fl')" and "SkillRun n c \<notin> set (fl_calls fl)"
    and R: "registry_ok (cd_registry C)"
  shows "run_checked C q (rd_route d) n"
proof -
  have "fl' \<noteq> fl" using assms(3,4) by auto
  then obtain s where s: "rg_for_route (rd_route d) (cd_registry C) = Inr s"
    using assms(1) by (auto simp: execute_single_def Let_def split: sum.splits)
  have name: "rg_get (sl_name s) (cd_registry C) = Inr s" "sl_route s = rd_route d"
    using registry_route_ok [OF R s] by simp_all
  have a: "authorize_execution (rq_policy q) (rq_security q) (lit ''direct'') (sl_name s) = Inr ()"
  proof (cases "authorize_execution (rq_policy q) (rq_security q) (lit ''direct'') (sl_name s)")
    case (Inl f)
    with assms(1) s name \<open>fl' \<noteq> fl\<close> show ?thesis
      by (cases f) (auto simp: execute_single_def Let_def)
  qed simp
  have "run_direct False [''route_request'', ''select_skill''] q p selected d (router_consumed C p) s fl
      = (r, fl')"
    using assms(1) s a name by (auto simp: execute_single_def Let_def)
  from run_direct_calls [OF this] assms(3,4) have "n = sl_name s"
    "authorize_tools (rq_policy q) (rq_security q) (sd_tools (sl_definition s)) = Inr ()" by auto
  then have run: "n = sl_name s
      \<and> authorize_tools (rq_policy q) (rq_security q) (sd_tools (sl_definition s)) = Inr ()" by simp
  show ?thesis by (rule run_checkedI [OF assms(2) disjI1 [OF refl] a name(1) run])
qed

lemma dispatch_checked:
  assumes "dispatch C q p selected d fl = (r, fl')"
    and "SkillRun n c \<in> set (fl_calls fl')" and "SkillRun n c \<notin> set (fl_calls fl)"
    and R: "registry_ok (cd_registry C)" and W: "\<forall>W. cd_workflow C = Some W \<longrightarrow> wf_registry W = cd_registry C"
  shows "run_checked C q (rd_route d) n"
proof -
  have ne: "fl' \<noteq> fl" using assms(2,3) by auto
  then have u: "rd_route d \<noteq> UnsupportedRoute" using assms(1) by (auto simp: dispatch_def Let_def)
  have a: "authorize_route (rq_policy q) (rq_security q) (rd_route d) = Inr ()"
  proof (cases "authorize_route (rq_policy q) (rq_security q) (rd_route d)")
    case (Inl f)
    with assms(1) u ne show ?thesis by (cases f) (auto simp: dispatch_def Let_def)
  qed simp
  show ?thesis
  proof (cases "rd_route d = MixedRoute")
    case True
    with assms(1) a have "execute_mixed C q p selected d fl = (r, fl')" by (simp add: dispatch_def)
    from execute_mixed_checked [OF this True a [unfolded True] assms(2,3) R W] True show ?thesis by simp
  next
    case False
    with assms(1) a u have "execute_single C q p selected d fl = (r, fl')"
      by (simp add: dispatch_def Let_def)
    from execute_single_checked [OF this a assms(2,3) R] show ?thesis .
  qed
qed

lemma coord_execute_checked:
  assumes "coord_execute C q w = (r, calls, w')" and "SkillRun n c \<in> set calls"
    and "registry_ok (cd_registry C)" and "\<forall>W. cd_workflow C = Some W \<longrightarrow> wf_registry W = cd_registry C"
  shows "\<exists>route. run_checked C q route n"
proof -
  obtain rt p where p: "prepare_routing C q rt = Inr p"
    and e: "(case route_request C p \<lparr>fl_runtime = rt, fl_world = w, fl_calls = []\<rparr> of
        (reply, fl) \<Rightarrow> (case coordinate_routed C q p reply fl of
          (r, fl') \<Rightarrow> (r, fl_calls fl', fl_world fl'))) = (r, calls, w')"
    using assms(1,2) by (auto simp: coord_execute_def split: if_splits sum.splits)
  obtain reply fl where f: "route_request C p \<lparr>fl_runtime = rt, fl_world = w, fl_calls = []\<rparr> = (reply, fl)"
    by fastforce
  then have calls: "fl_calls fl = [RouterCall]" by (auto simp: route_request_def split: prod.splits)
  obtain r2 fl' where g: "coordinate_routed C q p reply fl = (r2, fl')" by fastforce
  with e f have c: "SkillRun n c \<in> set (fl_calls fl')" using assms(2) by simp
  with calls have ne: "fl' \<noteq> fl" by auto
  obtain d where d: "reply = Routed d" using g ne by (cases reply) (auto simp: coordinate_routed_def Let_def)
  obtain selected decision rt2 where s: "select_coordination C p d (fl_runtime fl) = Inr (selected, decision, rt2)"
    using g d ne by (auto simp: coordinate_routed_def split: sum.splits)
  with g d have "dispatch C q p selected decision (fl\<lparr>fl_runtime := rt2\<rparr>) = (r2, fl')"
    by (simp add: coordinate_routed_def)
  from dispatch_checked [OF this c _ assms(3,4)] calls show ?thesis by auto
qed


subsection \<open>What a request returns\<close>

text \<open>
  A result is that of a completed, contract-conforming skill result for its route, or it exposes
  nothing.
\<close>

definition result_exposes_only_skill :: "coordinator_result \<Rightarrow> bool" where
  "result_exposes_only_skill r \<longleftrightarrow>
     (if co_status r = CoordCompleted
      then (\<exists>x. skill_result_ok x \<and> sr_status x = SkillCompleted \<and> co_route r = Some (sr_route x)
          \<and> co_skill r = Some (sr_name x) \<and> co_answer r = sr_answer x
          \<and> co_citations r = sr_citations x \<and> co_tool_steps r = sr_steps x)
      else co_status r \<noteq> CoordRequiresMixed \<and> co_answer r = None \<and> co_citations r = []
        \<and> co_skill r = None \<and> co_tool_steps r = [])"

lemma coord_failed_exposes:
  "coord_failed route steps code memory = Finished r \<Longrightarrow> result_exposes_only_skill r"
  by (auto simp: coord_failed_def new_coordinator_result_def result_exposes_only_skill_def
      split: if_splits)

lemma settle_result_exposes:
  assumes "settle_result route s steps memory x = Finished r" and "skill_result_ok x"
  shows "result_exposes_only_skill r"
proof (cases "coord_completed route x steps memory = Finished r \<and> sr_route x = route
    \<and> sr_status x = SkillCompleted")
  case True
  then have "r = \<lparr>co_status = CoordCompleted, co_route = Some (sr_route x), co_skill = Some (sr_name x),
      co_answer = sr_answer x, co_citations = sr_citations x, co_steps = map lit steps,
      co_tool_steps = sr_steps x, co_error = None, co_memory = memory\<rparr>"
    by (auto simp: coord_completed_def new_coordinator_result_def split: if_splits)
  with True assms(2) show ?thesis by (auto simp: result_exposes_only_skill_def)
next
  case False
  with assms(1) have "\<exists>steps code m. coord_failed (Some route) steps code m = Finished r"
    by (auto simp: settle_result_def split: if_splits)
  then show ?thesis by (blast intro: coord_failed_exposes)
qed

definition skills_ok :: "'w registry \<Rightarrow> bool" where
  "skills_ok R \<longleftrightarrow> registry_ok R \<and> (\<forall>(n, s) \<in> set (rg_names R). skill_ok s)"

lemma skills_ok_get: "skills_ok R \<Longrightarrow> rg_get n R = Inr s \<Longrightarrow> skill_ok s"
  by (auto simp: skills_ok_def rg_get_def dest: map_of_SomeD split: option.splits)

lemma skills_ok_route:
  assumes "skills_ok R" and "rg_for_route r R = Inr s"
  shows "skill_ok s"
proof -
  have "registry_ok R" using assms(1) by (simp add: skills_ok_def)
  from registry_route_ok [OF this assms(2)] have "rg_get (sl_name s) R = Inr s" by simp
  from skills_ok_get [OF assms(1) this] show ?thesis .
qed

lemma run_direct_exposes:
  assumes "run_direct mixed steps q p selected d memory s fl = (Finished r, fl')" and "skill_ok s"
  shows "result_exposes_only_skill r"
proof -
  obtain reply m fl2 where
    e: "execute_registered_skill s selected d (ci_id (pp_user p)) (pp_memory_id p) (rq_security q)
      (rq_policy q) fl = ((reply, m), fl2)" by (metis prod.exhaust)
  show ?thesis
  proof (cases reply)
    case (Returned x)
    with e have "execute_registered_skill s selected d (ci_id (pp_user p)) (pp_memory_id p)
      (rq_security q) (rq_policy q) fl = ((Returned x, m), fl2)" by simp
    from execute_registered_skill_ok [OF this assms(2)] assms(1) e Returned show ?thesis
      by (auto simp: run_direct_def Let_def intro: settle_result_exposes)
  qed (use assms(1) e in \<open>auto simp: run_direct_def Let_def intro: coord_failed_exposes split: if_splits\<close>)
qed

lemma run_workflow_exposes:
  assumes "run_workflow W steps q p selected d memory s fl = (Finished r, fl')"
    and "skills_ok (wf_registry W)"
  shows "result_exposes_only_skill r"
proof -
  obtain out b fl2 where e: "wf_execute W selected d (ci_id (pp_user p)) (pp_memory_id p)
      (rq_security q) (rq_policy q) fl = ((out, b), fl2)" by (metis prod.exhaust)
  have ok: "skill_result_ok x" if "out = Finished v" "wr_status v = WfAccepted" "wr_result v = Some x" for v x
  proof -
    from wf_execute_calls [OF e] that(1) have "result_ok (wf_registry W) d v" by blast
    with that(2,3) obtain st where "st \<in> set (wr_steps v)" "st_status st = StepCompleted"
      "st_result st = Some x" "list_all (step_ok (wf_registry W) d) (wr_steps v)"
      by (auto simp: result_ok_def)
    then have "returned_by (wf_registry W) x" by (auto simp: list_all_iff step_ok_def)
    then obtain s' call rt w rt' w' where "rg_get inventory_risk_skill (wf_registry W) = Inr s'"
      "sl_run s' call rt w = (Returned x, rt', w')" unfolding returned_by_def by blast
    with skills_ok_get [OF assms(2)] show ?thesis unfolding skill_ok_def by blast
  qed
  show ?thesis
  proof (cases out)
    case (Finished v)
    with assms(1) e ok [OF Finished] show ?thesis
      by (cases "wr_status v = WfAccepted"; cases "wr_result v")
        (auto simp: run_workflow_def Let_def intro: coord_failed_exposes settle_result_exposes)
  qed (use assms(1) e in \<open>auto simp: run_workflow_def Let_def intro: coord_failed_exposes\<close>)
qed

lemma execute_mixed_exposes:
  assumes "execute_mixed C q p selected d fl = (Finished r, fl')" and "skills_ok (cd_registry C)"
    and "\<forall>W. cd_workflow C = Some W \<longrightarrow> skills_ok (wf_registry W)"
  shows "result_exposes_only_skill r"
proof (cases "rg_for_route (rd_route d) (cd_registry C)")
  case (Inl e)
  with assms(1) show ?thesis by (auto simp: execute_mixed_def Let_def intro: coord_failed_exposes)
next
  case (Inr s)
  let ?steps = "[''route_request'', ''select_mixed_skill'']"
  let ?en = "case cd_workflow C of None \<Rightarrow> False | Some W \<Rightarrow> is_enabled_for W d s"
  let ?a = "authorize_execution (rq_policy q) (rq_security q)
    (if ?en then lit ''controlled_mixed'' else lit ''direct'') (sl_name s)"
  consider route steps code m where "coord_failed route steps code m = Finished r"
    | "run_direct True ?steps q p selected d (router_consumed C p) s fl = (Finished r, fl')"
    | W where "cd_workflow C = Some W"
        "run_workflow W ?steps q p selected d (router_consumed C p) s fl = (Finished r, fl')"
  proof (cases ?a)
    case (Inl f)
    with Inr assms(1) that(1) show ?thesis
      by (cases f) (auto simp: execute_mixed_def Let_def split: if_splits)
  next
    case (Inr u)
    with \<open>rg_for_route (rd_route d) (cd_registry C) = Inr s\<close> assms(1) that show ?thesis
      by (cases "cd_workflow C") (auto simp: execute_mixed_def Let_def split: if_splits)
  qed
  then show ?thesis
  proof cases
    case 1
    then show ?thesis by (rule coord_failed_exposes)
  next
    case 2
    from run_direct_exposes [OF this skills_ok_route [OF assms(2) Inr]] show ?thesis .
  next
    case (3 W)
    with assms(3) show ?thesis by (auto intro: run_workflow_exposes)
  qed
qed

lemma execute_single_exposes:
  assumes "execute_single C q p selected d fl = (Finished r, fl')" and "skills_ok (cd_registry C)"
  shows "result_exposes_only_skill r"
proof (cases "rg_for_route (rd_route d) (cd_registry C)")
  case (Inl e)
  with assms(1) show ?thesis by (auto simp: execute_single_def Let_def intro: coord_failed_exposes)
next
  case (Inr s)
  show ?thesis
  proof (cases "sl_route s = rd_route d
      \<and> authorize_execution (rq_policy q) (rq_security q) (lit ''direct'') (sl_name s) = Inr ()")
    case True
    with Inr assms(1) have "run_direct False [''route_request'', ''select_skill''] q p selected d
        (router_consumed C p) s fl = (Finished r, fl')" by (simp add: execute_single_def)
    from run_direct_exposes [OF this skills_ok_route [OF assms(2) Inr]] show ?thesis .
  next
    case False
    with Inr assms(1) have "\<exists>route steps code m. coord_failed route steps code m = Finished r"
      by (cases "authorize_execution (rq_policy q) (rq_security q) (lit ''direct'') (sl_name s)")
        (auto simp: execute_single_def Let_def split: if_splits security_failure.splits)
    then show ?thesis by (blast intro: coord_failed_exposes)
  qed
qed

lemma coord_execute_exposes:
  assumes "coord_execute C q w = (Finished r, calls, w')" and "skills_ok (cd_registry C)"
    and "\<forall>W. cd_workflow C = Some W \<longrightarrow> skills_ok (wf_registry W)"
  shows "result_exposes_only_skill r"
proof -
  have unsupported: "result_exposes_only_skill r"
    if "new_coordinator_result \<lparr>co_status = CoordUnsupported, co_route = x, co_skill = None,
      co_answer = None, co_citations = [], co_steps = y, co_tool_steps = [], co_error = None,
      co_memory = z\<rparr> = Finished r" for x y z
    using that by (auto simp: new_coordinator_result_def result_exposes_only_skill_def split: if_splits)
  have dispatched: "result_exposes_only_skill r" if d: "dispatch C q p selected d fl = (Finished r, fl')"
    for p selected d fl fl'
  proof -
    consider "rd_route d = UnsupportedRoute" | f where "rd_route d \<noteq> UnsupportedRoute"
        "authorize_route (rq_policy q) (rq_security q) (rd_route d) = Inl f"
      | "execute_mixed C q p selected d fl = (Finished r, fl')"
      | "execute_single C q p selected d fl = (Finished r, fl')"
      using d by (cases "authorize_route (rq_policy q) (rq_security q) (rd_route d)")
        (auto simp: dispatch_def Let_def split: if_splits)
    then show ?thesis
    proof cases
      case 1
      with d show ?thesis by (auto simp: dispatch_def Let_def intro: unsupported)
    next
      case (2 f)
      with d show ?thesis
        by (cases f) (auto simp: dispatch_def Let_def intro: coord_failed_exposes)
    qed (use assms in \<open>auto intro: execute_mixed_exposes execute_single_exposes\<close>)
  qed
  have routed: "result_exposes_only_skill r"
    if "coordinate_routed C q p reply fl = (Finished r, fl')" for p reply fl fl'
    using that
    by (cases reply) (auto simp: coordinate_routed_def Let_def intro: coord_failed_exposes dispatched
        split: sum.splits)
  from assms(1) show ?thesis
    by (auto simp: coord_execute_def intro: coord_failed_exposes routed split: if_splits sum.splits prod.splits)
qed


text \<open>On a single-domain route a skill that returns no skill result makes the whole request raise.\<close>

lemma direct_non_result_raises:
  assumes "execute_registered_skill s selected d (ci_id (pp_user p)) (pp_memory_id p) (rq_security q)
    (rq_policy q) fl = ((NotAResult, m), fl')"
  shows "run_direct False steps q p selected d memory s fl = (FlowThrew, fl')"
    "\<exists>r. run_direct True [''route_request'', ''select_mixed_skill''] q p selected d memory s fl = (Finished r, fl')
       \<and> co_error r = Some (lit ''skill_result_contract_invalid'')"
  using assms
  by (simp_all add: run_direct_def coord_failed_def new_coordinator_result_def at_most_def
      coordinator_contract_def)

subsection \<open>A concrete request\<close>

definition demo_full_grants :: security_context where
  "demo_full_grants = demo_grants\<lparr>sc_request_id := lit ''1'', sc_scenarios := [lit ''mixed''], sc_workflows := [lit ''direct''],
     sc_data_scope := Some \<lparr>ds_tenant_id = lit ''t'', ds_domains = [lit ''enterprise_operations''],
       ds_resources = [[114]], ds_capabilities = [lit ''read''], ds_version = [49]\<rparr>,
     sc_knowledge_scope := Some \<lparr>ks_tenant_id = lit ''t'', ks_namespaces = [[110]],
       ks_documents = [[100]], ks_version = [49]\<rparr>\<rparr>"

definition demo_coordinator :: "nat coordinator" where
  "demo_coordinator = \<lparr>cd_with_context = True, cd_route = (\<lambda>q items w. (Routed demo_decision, w)),
     cd_registry = demo_registry, cd_workflow = None, cd_prompt = lit ''q'',
     cd_estimate = estimate_tokens, cd_dump = (\<lambda>d. lit ''q''), cd_parse = (\<lambda>s. Some demo_decision)\<rparr>"

definition demo_request :: request where
  "demo_request = \<lparr>rq_query = lit ''q'', rq_id = lit ''1'', rq_created = 0, rq_memory = None,
     rq_security = Some demo_full_grants, rq_policy = Some grants_policy\<rparr>"

definition demo_system :: context_item where
  "demo_system = demo_rt_item ''router-instruction'' SystemInstruction SrcSystem TrustedSystem []"

definition demo_routed :: context_item where
  "demo_routed = demo_rt_item ''router-decision'' RouterDecision SrcRouter VerifiedInternal
     [lit ''1:user-request'']"

lemmas demo_select_defs = rt_select_def new_context_policy_def
  require_nonblank_def default_budget_config_def select_context_def require_aware_def ctx_get_def
  rejection_reason_def is_expired_def evidence_kind_def can_fit_def available_tokens_def
  new_selection_result_def lit_colon py_space_def

lemma demo_coord_prepare:
  "\<exists>p. prepare_routing demo_coordinator demo_request demo_runtime = Inr p
     \<and> pp_user p = demo_user \<and> pp_memory_id p = None \<and> pp_request p = lit ''q''
     \<and> rt_items (pp_runtime p) = [demo_user, demo_system]
     \<and> pp_runtime p = demo_runtime\<lparr>rt_items := [demo_user, demo_system],
         rt_diagnostics := rt_diagnostics (pp_runtime p)\<rparr>"
proof -
  let ?rt = "demo_runtime\<lparr>rt_items := [demo_user, demo_system]\<rparr>"
  have i: "rt_system_instruction (lit ''router-instruction'') (lit ''q'') (demo_runtime\<lparr>rt_items := [demo_user]\<rparr>)
      = Inr (demo_system, ?rt)"
    by (simp add: rt_system_instruction_def demo_system_def demo_rt_defs lit_colon py_space_def)
  have s: "\<exists>r rt'. select_for_router demo_user demo_system (Aware 0) ?rt = Inr (r, rt')
      \<and> sr_items r = [demo_user, demo_system] \<and> rt_items rt' = [demo_user, demo_system] \<and> rt' = ?rt\<lparr>rt_diagnostics := rt_diagnostics rt'\<rparr>"
    by (simp add: select_for_router_def router_policy_def demo_runtime_def demo_user_def
        demo_system_def demo_rt_item_def demo_select_defs)
  then obtain r rt' where s: "select_for_router demo_user demo_system (Aware 0) ?rt = Inr (r, rt')"
    and r: "sr_items r = [demo_user, demo_system]" and ri: "rt_items rt' = [demo_user, demo_system]" and rt': "rt' = ?rt\<lparr>rt_diagnostics := rt_diagnostics rt'\<rparr>"
    by blast
  have p: "project_router r (ci_id demo_user) = Inr (lit ''q'', None)"
    by (simp add: project_router_def project_require_def project_optional_memory_def r demo_user_def
        demo_system_def demo_rt_item_def)
  have c: "rt_created_at demo_runtime = 0" by (simp add: demo_runtime_def)
  have "prepare_routing demo_coordinator demo_request demo_runtime = Inr \<lparr>pp_runtime = rt',
      pp_user = demo_user, pp_memory_id = None, pp_selection = r, pp_request = lit ''q''\<rparr>"
    using s by (simp add: prepare_routing_def demo_coordinator_def demo_request_def i p c res_simps
        demo_runtime_steps)
  with rt' ri show ?thesis by simp
qed

lemma demo_coordinate:
  assumes "rt = demo_runtime\<lparr>rt_items := [demo_user, demo_system], rt_diagnostics := ds\<rparr>"
    and "pp_user p = demo_user"
  shows "\<exists>rt'. select_coordination demo_coordinator p demo_decision rt = Inr (lit ''q'', demo_decision, rt')"
proof -
  let ?rt = "rt\<lparr>rt_items := [demo_user, demo_system, demo_routed]\<rparr>"
  have i: "rt_router_decision (lit ''q'') (ci_id demo_user) rt = Inr (demo_routed, ?rt)"
    by (simp add: assms(1) rt_router_decision_def demo_system_def demo_routed_def demo_rt_defs lit_colon py_space_def)
  have "\<exists>r rt'. select_for_coordinator demo_user demo_routed (Aware 0) ?rt = Inr (r, rt')
      \<and> sr_items r = [demo_user, demo_routed, demo_system]"
    by (simp add: assms(1) select_for_coordinator_def coordinator_policy_def demo_runtime_def demo_user_def
        demo_system_def demo_routed_def demo_rt_item_def demo_select_defs)
  then obtain r rt' where s: "select_for_coordinator demo_user demo_routed (Aware 0) ?rt = Inr (r, rt')"
    and r: "sr_items r = [demo_user, demo_routed, demo_system]" by blast
  have p: "project_coordinator (\<lambda>s. Some demo_decision) r (ci_id demo_user) (ci_id demo_routed) =
      Inr (lit ''q'', demo_decision)"
    by (simp add: project_coordinator_def project_require_def r demo_user_def
        demo_system_def demo_routed_def demo_rt_item_def)
  have c: "rt_created_at rt = 0" by (simp add: demo_runtime_def assms(1))
  show ?thesis
    using s by (simp add: select_coordination_def assms(2) demo_coordinator_def i c p res_simps)
qed

lemma demo_full_authorized:
  "authorize_route (Some grants_policy) (Some demo_full_grants) MixedRoute = Inr ()"
  "authorize_execution (Some grants_policy) (Some demo_full_grants) (lit ''direct'') inventory_risk_skill = Inr ()"
  "authorize_tools (Some grants_policy) (Some demo_full_grants) (sd_tools (sl_definition demo_skill)) = Inr ()"
  by (simp_all add: authorize_route_def authorize_execution_def authorize_tools_def require_route_scopes_def
      default_deny_policy_def require_scenario_def require_workflow_def require_skill_def require_tool_def
      require_grant_def require_data_scope_def require_knowledge_scope_def data_permits_def scope_event_def
      demo_full_grants_def demo_grants_def demo_context_def demo_principal_def Let_def demo_skill_def lit_colon route_value_def)

definition demo_answer :: coordinator_result where
  "demo_answer = \<lparr>co_status = CoordCompleted, co_route = Some MixedRoute,
     co_skill = Some inventory_risk_skill, co_answer = Some [97], co_citations = [[91, 68, 49, 93]],
     co_steps = map lit [''route_request'', ''select_mixed_skill'', ''execute_skill''],
     co_tool_steps = [[115]], co_error = None, co_memory = False\<rparr>"

lemma demo_coord_run:
  "\<exists>w. coord_execute demo_coordinator demo_request 0 = (Finished demo_answer,
     [RouterCall, SkillRun inventory_risk_skill (TraceCall (lit ''q'') demo_decision
        (Some (ci_id demo_user)) (Some demo_full_grants))], w)"
proof -
  obtain p where p: "prepare_routing demo_coordinator demo_request demo_runtime = Inr p"
    "pp_user p = demo_user" "pp_memory_id p = None"
    "pp_runtime p = demo_runtime\<lparr>rt_items := [demo_user, demo_system],
         rt_diagnostics := rt_diagnostics (pp_runtime p)\<rparr>"
    using demo_coord_prepare by blast
  obtain rt' where s: "select_coordination demo_coordinator p demo_decision (pp_runtime p) =
      Inr (lit ''q'', demo_decision, rt')"
    using demo_coordinate [OF p(4,2)] by blast
  have n: "new_request_runtime (lit ''1'') (Aware 0) estimate_tokens default_budget_config = Inr demo_runtime"
    by (simp add: new_request_runtime_def demo_runtime_def require_aware_def lit_colon py_space_def)
  have c: "router_consumed demo_coordinator p = False" by (simp add: router_consumed_def p(3))
  have d: "rd_route demo_decision = MixedRoute" by (simp add: demo_decision_def)
  have q: "rq_policy demo_request = Some grants_policy" "rq_security demo_request = Some demo_full_grants"
    by (simp_all add: demo_request_def)
  have g: "rg_for_route MixedRoute demo_registry = Inr demo_skill"
    by (simp add: rg_for_route_def demo_registry_def)
  have t: "settle_result MixedRoute demo_skill [''route_request'', ''select_mixed_skill'', ''execute_skill'']
      False demo_result = Finished demo_answer"
    by (simp add: settle_result_def demo_result_def coord_completed_def new_coordinator_result_def
        at_most_def coordinator_contract_def demo_answer_def lit_def inventory_risk_skill_def)
  have r: "fst (run_direct True [''route_request'', ''select_mixed_skill''] demo_request p (lit ''q'')
      demo_decision False demo_skill fl) = Finished demo_answer"
    "fl_calls (snd (run_direct True [''route_request'', ''select_mixed_skill''] demo_request p (lit ''q'')
      demo_decision False demo_skill fl)) = fl_calls fl @ [SkillRun inventory_risk_skill
        (TraceCall (lit ''q'') demo_decision (Some (ci_id demo_user)) (Some demo_full_grants))]" for fl
    using demo_execute_registered [OF demo_full_authorized(3)] t
    by (simp_all add: run_direct_def q p(2,3) d)
  have f: "rq_id demo_request = lit ''1''" "rq_created demo_request = 0"
    "cd_estimate demo_coordinator = estimate_tokens" "cd_registry demo_coordinator = demo_registry"
    "cd_workflow demo_coordinator = None"
    by (simp_all add: demo_request_def demo_coordinator_def)
  have u: "route_request demo_coordinator p fl = (Routed demo_decision,
      \<lparr>fl_runtime = pp_runtime p, fl_world = fl_world fl, fl_calls = fl_calls fl @ [RouterCall]\<rparr>)" for fl
    by (simp add: route_request_def demo_coordinator_def)
  have m: "execute_mixed demo_coordinator demo_request p (lit ''q'') demo_decision fl =
      run_direct True [''route_request'', ''select_mixed_skill''] demo_request p (lit ''q'')
        demo_decision False demo_skill fl" for fl
    by (simp add: execute_mixed_def d g f c q demo_full_authorized(2))
  have x: "dispatch demo_coordinator demo_request p (lit ''q'') demo_decision fl =
      run_direct True [''route_request'', ''select_mixed_skill''] demo_request p (lit ''q'')
        demo_decision False demo_skill fl" for fl
    by (simp add: dispatch_def d q demo_full_authorized(1) m)
  let ?fl = "\<lparr>fl_runtime = rt', fl_world = 0, fl_calls = [RouterCall]\<rparr>"
  obtain a fl' where a: "run_direct True [''route_request'', ''select_mixed_skill''] demo_request p (lit ''q'')
      demo_decision False demo_skill ?fl = (a, fl')" by (metis prod.exhaust)
  show ?thesis
    using r [of ?fl] by (simp add: coord_execute_def q f n p(1) u coordinate_routed_def s x a)
qed

lemma demo_coordinator_built:
  "registry_built (cd_registry demo_coordinator)" "skills_ok (cd_registry demo_coordinator)"
proof -
  have r: "rg_register demo_skill new_registry = Inr demo_registry"
    by (simp add: rg_register_def new_registry_def demo_registry_def py_strip_def py_space_def
       inventory_risk_skill_def lit_def demo_skill_def)
  show b: "registry_built (cd_registry demo_coordinator)"
    using registry_built.intros(2) [OF registry_built.intros(1) r] by (simp add: demo_coordinator_def)
  have "skill_result_ok demo_result"
    by (simp add: skill_result_ok_def demo_result_def terminal_contract_def route_citations_def
      skill_citation_def py_space_def py_digit_def py_digit_zeros_def inventory_risk_skill_def lit_def)
  then have "skill_ok demo_skill" by (auto simp: skill_ok_def demo_skill_def)
  then show "skills_ok (cd_registry demo_coordinator)"
    using registry_built_ok [OF b] by (simp add: skills_ok_def demo_coordinator_def demo_registry_def)
qed



end
