(* ===== verification/Chunking.thy ===== *)
theory Chunking
  imports Serialization "HOL-Library.AList"
begin

section \<open>Ingestion: parent and child chunks of a document block\<close>

text \<open>
  \<^verbatim>\<open>ingestion/chunking.py\<close> with the contracts \<^verbatim>\<open>DocumentBlock\<close>, \<^verbatim>\<open>ParentChunk\<close> and \<^verbatim>\<open>ChildChunk\<close>
  of \<^verbatim>\<open>domain/models.py\<close>. Offsets count code points. The hexadecimal SHA-256 digest of the canonical
  JSON text of an identity payload is the argument \<open>digest\<close>. The window loop is a partial function:
  \<open>None\<close> means that it never returns, and that it does return is part of what is proved.
\<close>

subsection \<open>Contracts\<close>

record document_block =
  db_block_id :: pystr
  db_document_id :: pystr
  db_document_version :: pystr
  db_content :: pystr
  db_block_index :: int
  db_page_number :: "int option"
  db_source :: "pystr option"
  db_file_name :: "pystr option"
  db_file_suffix :: "pystr option"
  db_mime_type :: "pystr option"
  db_file_sha256 :: "pystr option"
  db_content_sha256 :: "pystr option"
  db_parser_name :: "pystr option"
  db_section :: "pystr option"
  db_metadata :: "(pystr \<times> json) list"

definition hex_digest :: "pystr \<Rightarrow> bool" where
  "hex_digest s \<longleftrightarrow> length s = 64 \<and> list_all (\<lambda>c. 48 \<le> c \<and> c \<le> 57 \<or> 97 \<le> c \<and> c \<le> 102) s"

definition page_ok :: "int option \<Rightarrow> bool" where
  "page_ok p = (case p of None \<Rightarrow> True | Some n \<Rightarrow> 1 \<le> n)"

text \<open>What the validation of a \<^verbatim>\<open>DocumentBlock\<close> leaves.\<close>

definition block_contract :: "document_block \<Rightarrow> bool" where
  "block_contract b \<longleftrightarrow> db_block_id b \<noteq> [] \<and> db_document_id b \<noteq> [] \<and> db_document_version b \<noteq> []
     \<and> 0 \<le> db_block_index b \<and> page_ok (db_page_number b)
     \<and> (\<forall>s \<in> set_option (db_file_sha256 b). hex_digest s)
     \<and> (\<forall>s \<in> set_option (db_content_sha256 b). hex_digest s)"

datatype chunk_error = ContractInvalid string | NeverReturns | NoSection | NoParent pystr

record parent_chunk =
  pc_id :: pystr
  pc_document_id :: pystr
  pc_document_version :: pystr
  pc_content :: pystr
  pc_block_ids :: "pystr list"
  pc_page :: "int option"
  pc_source :: "pystr option"
  pc_start :: int
  pc_end :: int
  pc_metadata :: "(pystr \<times> json) list"

record child_chunk =
  cc_id :: pystr
  cc_parent_id :: pystr
  cc_document_id :: pystr
  cc_document_version :: pystr
  cc_content :: pystr
  cc_page :: "int option"
  cc_source :: "pystr option"
  cc_start :: "int option"
  cc_end :: "int option"
  cc_metadata :: "(pystr \<times> json) list"

definition new_parent_chunk :: "parent_chunk \<Rightarrow> chunk_error + parent_chunk" where
  "new_parent_chunk c =
     (if pc_id c = [] \<or> pc_document_id c = [] \<or> pc_document_version c = [] \<or> pc_content c = []
        \<or> [] \<in> set (pc_block_ids c) \<or> \<not> page_ok (pc_page c) \<or> pc_start c < 0 \<or> pc_end c \<le> 0
      then Inl (ContractInvalid ''parent chunk'')
      else if pc_end c \<le> pc_start c
      then Inl (ContractInvalid ''end_offset must be greater than start_offset'')
      else Inr c)"

definition new_child_chunk :: "child_chunk \<Rightarrow> chunk_error + child_chunk" where
  "new_child_chunk c =
     (if cc_id c = [] \<or> cc_parent_id c = [] \<or> cc_document_id c = [] \<or> cc_document_version c = []
        \<or> cc_content c = [] \<or> \<not> page_ok (cc_page c)
        \<or> (\<exists>n \<in> set_option (cc_start c). n < 0) \<or> (\<exists>n \<in> set_option (cc_end c). n < 0)
      then Inl (ContractInvalid ''child chunk'')
      else case (cc_start c, cc_end c) of
          (None, None) \<Rightarrow> Inr c
        | (Some a, Some b) \<Rightarrow>
            if b \<le> a then Inl (ContractInvalid ''end_offset must be greater than start_offset'')
            else Inr c
        | _ \<Rightarrow> Inl (ContractInvalid ''start_offset and end_offset must be provided together''))"

record chunking_result =
  cr_parents :: "parent_chunk list"
  cr_children :: "child_chunk list"

subsection \<open>The chunker\<close>

record chunker =
  ck_parent :: int
  ck_child :: int
  ck_overlap :: int

definition new_chunker :: "int \<Rightarrow> int \<Rightarrow> int \<Rightarrow> string + chunker" where
  "new_chunker parent_size child_size overlap =
     (if parent_size \<le> 0 then Inl ''parent_chunk_size must be greater than zero''
      else if child_size \<le> 0 then Inl ''child_chunk_size must be greater than zero''
      else if parent_size < child_size then Inl ''child_chunk_size must not exceed parent_chunk_size''
      else if overlap < 0 then Inl ''chunk_overlap must not be negative''
      else if child_size \<le> overlap then Inl ''chunk_overlap must be smaller than child_chunk_size''
      else Inr \<lparr>ck_parent = parent_size, ck_child = child_size, ck_overlap = overlap\<rparr>)"

partial_function (option) windows_from :: "int \<Rightarrow> int \<Rightarrow> int \<Rightarrow> int \<Rightarrow> (int \<times> int) list option" where
  "windows_from len width overlap start =
     (if start < len
      then let e = min (start + width) len
           in if e = len then Some [(start, e)]
              else Option.bind (windows_from len width overlap (e - overlap)) (\<lambda>ws. Some ((start, e) # ws))
      else Some [])"

definition windows :: "int \<Rightarrow> int \<Rightarrow> int \<Rightarrow> (int \<times> int) list option" where
  "windows len width overlap = windows_from len width overlap 0"

definition chunk_windows :: "int \<Rightarrow> int \<Rightarrow> int \<Rightarrow> chunk_error + (int \<times> int) list" where
  "chunk_windows len width overlap =
     (case windows len width overlap of None \<Rightarrow> Inl NeverReturns | Some ws \<Rightarrow> Inr ws)"

text \<open>\<^verbatim>\<open>content[start:end]\<close> for offsets that are not negative.\<close>

definition slice :: "pystr \<Rightarrow> int \<Rightarrow> int \<Rightarrow> pystr" where
  "slice s a b = take (nat (b - a)) (drop (nat a) s)"

definition json_opt :: "('a \<Rightarrow> json) \<Rightarrow> 'a option \<Rightarrow> json" where
  "json_opt f v = (case v of None \<Rightarrow> JNull | Some x \<Rightarrow> f x)"

definition stable_id ::
  "(json \<Rightarrow> pystr) \<Rightarrow> chunker \<Rightarrow> string \<Rightarrow> document_block \<Rightarrow> int \<Rightarrow> int \<Rightarrow> pystr \<Rightarrow> pystr option \<Rightarrow> pystr" where
  "stable_id digest ck kind b s e content parent_id = lit kind @ [95] @ digest (JObj
     [(lit ''version'', JStr (lit ''parent-child-v1'')), (lit ''kind'', JStr (lit kind)),
      (lit ''document_id'', JStr (db_document_id b)),
      (lit ''document_version'', JStr (db_document_version b)),
      (lit ''block_id'', JStr (db_block_id b)), (lit ''page_number'', json_opt JInt (db_page_number b)),
      (lit ''source'', json_opt JStr (db_source b)), (lit ''metadata'', JObj (db_metadata b)),
      (lit ''start'', JInt s), (lit ''end'', JInt e), (lit ''content'', JStr content),
      (lit ''parent_id'', json_opt JStr parent_id), (lit ''parent_chunk_size'', JInt (ck_parent ck)),
      (lit ''child_chunk_size'', JInt (ck_child ck)), (lit ''chunk_overlap'', JInt (ck_overlap ck))])"

definition make_parent ::
  "(json \<Rightarrow> pystr) \<Rightarrow> chunker \<Rightarrow> document_block \<Rightarrow> (pystr \<times> json) list \<Rightarrow> int \<Rightarrow> int
     \<Rightarrow> chunk_error + parent_chunk" where
  "make_parent digest ck b metadata s e =
     (let content = slice (db_content b) s e
      in new_parent_chunk
        \<lparr>pc_id = stable_id digest ck ''parent'' b s e content None, pc_document_id = db_document_id b,
         pc_document_version = db_document_version b, pc_content = content,
         pc_block_ids = [db_block_id b], pc_page = db_page_number b, pc_source = db_source b,
         pc_start = s, pc_end = e, pc_metadata = metadata\<rparr>)"

definition make_child ::
  "(json \<Rightarrow> pystr) \<Rightarrow> chunker \<Rightarrow> document_block \<Rightarrow> (pystr \<times> json) list \<Rightarrow> pystr \<Rightarrow> pystr \<Rightarrow> int \<Rightarrow> int
     \<Rightarrow> chunk_error + child_chunk" where
  "make_child digest ck b metadata parent_id content s e = new_child_chunk
     \<lparr>cc_id = stable_id digest ck ''child'' b s e content (Some parent_id), cc_parent_id = parent_id,
      cc_document_id = db_document_id b, cc_document_version = db_document_version b,
      cc_content = content, cc_page = db_page_number b, cc_source = db_source b,
      cc_start = Some s, cc_end = Some e, cc_metadata = metadata\<rparr>"

definition chunk_parent ::
  "(json \<Rightarrow> pystr) \<Rightarrow> chunker \<Rightarrow> document_block \<Rightarrow> int \<times> int \<Rightarrow> chunk_error + (parent_chunk \<times> child_chunk list)" where
  "chunk_parent digest ck b w =
     res_bind (make_parent digest ck b (db_metadata b) (fst w) (snd w)) (\<lambda>p.
     res_bind (chunk_windows (int (length (pc_content p))) (ck_child ck) (ck_overlap ck)) (\<lambda>ws.
     res_bind (res_map (\<lambda>v. make_child digest ck b (db_metadata b) (pc_id p)
          (slice (pc_content p) (fst v) (snd v)) (fst w + fst v) (fst w + snd v))
        (filter (\<lambda>v. \<not> blank (slice (pc_content p) (fst v) (snd v))) ws)) (\<lambda>cs.
     Inr (p, cs))))"

definition chunk_block ::
  "(json \<Rightarrow> pystr) \<Rightarrow> chunker \<Rightarrow> document_block \<Rightarrow> chunk_error + chunking_result" where
  "chunk_block digest ck b =
     (if blank (db_content b) then Inr \<lparr>cr_parents = [], cr_children = []\<rparr>
      else res_bind (chunk_windows (int (length (db_content b))) (ck_parent ck) 0) (\<lambda>ws.
        res_bind (res_map (chunk_parent digest ck b)
            (filter (\<lambda>w. \<not> blank (slice (db_content b) (fst w) (snd w))) ws)) (\<lambda>ps.
        Inr \<lparr>cr_parents = map fst ps, cr_children = concat (map snd ps)\<rparr>)))"

subsection \<open>The window loop\<close>

text \<open>How many windows of a width at a stride cover a length.\<close>

definition window_count :: "int \<Rightarrow> int \<Rightarrow> int \<Rightarrow> nat" where
  "window_count len width stride =
     (if len \<le> 0 then 0 else if len \<le> width then 1 else nat ((len - width + stride - 1) div stride) + 1)"

definition window_at :: "int \<Rightarrow> int \<Rightarrow> int \<Rightarrow> nat \<Rightarrow> int \<times> int" where
  "window_at len width stride i = (int i * stride, min (int i * stride + width) len)"

lemma window_count_step:
  assumes "0 < stride" and "stride \<le> width" and "width < len"
  shows "window_count len width stride = Suc (window_count (len - stride) width stride)"
proof (cases "len - stride \<le> width")
  case True
  have "(len - width + stride - 1) div stride = 1"
    using assms True by (intro int_div_pos_eq [of _ _ 1 "len - width - 1"]) auto
  with True assms show ?thesis by (simp add: window_count_def)
next
  case False
  have "(len - width + stride - 1) div stride = (len - stride - width + stride - 1) div stride + 1"
    using assms(1) div_add_self2 [of stride "len - stride - width + stride - 1"] by (simp add: algebra_simps)
  moreover have "0 \<le> (len - stride - width + stride - 1) div stride"
    using False assms by (intro pos_imp_zdiv_nonneg_iff [THEN iffD2]) auto
  ultimately show ?thesis using False assms by (simp add: window_count_def nat_add_distrib)
qed

lemma windows_from_closed:
  assumes "0 \<le> overlap" and "overlap < width"
  shows "windows_from len width overlap s =
    Some (map (\<lambda>i. (s + fst (window_at (len - s) width (width - overlap) i),
      s + snd (window_at (len - s) width (width - overlap) i))) [0..<window_count (len - s) width (width - overlap)])"
proof (induction "nat (len - s)" arbitrary: s rule: less_induct)
  case less
  let ?d = "width - overlap"
  show ?case
  proof (cases "s < len")
    case False
    then show ?thesis by (subst windows_from.simps) (simp add: window_count_def)
  next
    case True
    show ?thesis
    proof (cases "len \<le> s + width")
      case True
      with \<open>s < len\<close> show ?thesis
        by (subst windows_from.simps) (simp add: window_count_def window_at_def min_def)
    next
      case False
      then have lt: "s + width < len" by simp
      have "nat (len - (s + ?d)) < nat (len - s)" using True assms by simp
      from less [OF this] have IH: "windows_from len width overlap (s + ?d) =
        Some (map (\<lambda>i. (s + ?d + fst (window_at (len - s - ?d) width ?d i),
          s + ?d + snd (window_at (len - s - ?d) width ?d i))) [0..<window_count (len - s - ?d) width ?d])"
        by (simp add: algebra_simps)
      have c: "window_count (len - s) width ?d = Suc (window_count (len - s - ?d) width ?d)"
        using assms lt by (intro window_count_step) auto
      have step: "windows_from len width overlap s =
          Option.bind (windows_from len width overlap (s + ?d)) (\<lambda>ws. Some ((s, s + width) # ws))"
        using True lt by (subst windows_from.simps) (simp add: min_def Let_def algebra_simps)
      show ?thesis
        unfolding step IH c upt_conv_Cons [OF zero_less_Suc] map_Suc_upt [symmetric]
        using lt by (simp add: window_at_def min_def algebra_simps o_def)
    qed
  qed
qed

lemma windows_closed:
  "0 \<le> overlap \<Longrightarrow> overlap < width \<Longrightarrow> windows len width overlap =
     Some (map (window_at len width (width - overlap)) [0..<window_count len width (width - overlap)])"
  by (simp add: windows_def windows_from_closed)

lemma windows_from_props:
  assumes "windows_from len width overlap s = Some ws" and "0 \<le> overlap" "overlap < width"
  shows "(\<forall>(a, b) \<in> set ws. s \<le> a \<and> a < b \<and> b \<le> len \<and> b - a \<le> width)
    \<and> (\<forall>i. s \<le> i \<and> i < len \<longrightarrow> (\<exists>(a, b) \<in> set ws. a \<le> i \<and> i < b))
    \<and> (overlap = 0 \<longrightarrow> distinct ws \<and> pairwise (\<lambda>v w. snd v \<le> fst w \<or> snd w \<le> fst v) (set ws))"
  using assms(1)
proof (induction "nat (len - s)" arbitrary: s ws rule: less_induct)
  case less
  show ?case
  proof (cases "s < len \<and> s + width < len")
    case False
    with less.prems show ?thesis
      by (subst (asm) windows_from.simps) (auto simp: Let_def min_def split: if_splits)
  next
    case True
    let ?t = "s + width - overlap"
    from True less.prems obtain vs where vs: "windows_from len width overlap ?t = Some vs"
      and ws: "ws = (s, s + width) # vs"
      by (subst (asm) windows_from.simps) (auto simp: Let_def min_def bind_eq_Some_conv)
    have "nat (len - ?t) < nat (len - s)" using True assms by simp
    from less.hyps [OF this vs] have IH:
      "\<forall>(a, b) \<in> set vs. ?t \<le> a \<and> a < b \<and> b \<le> len \<and> b - a \<le> width"
      "\<forall>i. ?t \<le> i \<and> i < len \<longrightarrow> (\<exists>(a, b) \<in> set vs. a \<le> i \<and> i < b)"
      "overlap = 0 \<longrightarrow> distinct vs \<and> pairwise (\<lambda>v w. snd v \<le> fst w \<or> snd w \<le> fst v) (set vs)"
      by blast+
    have "\<forall>(a, b) \<in> set ws. s \<le> a \<and> a < b \<and> b \<le> len \<and> b - a \<le> width"
      using IH(1) ws True assms by fastforce
    moreover have "\<exists>(a, b) \<in> set ws. a \<le> i \<and> i < b" if "s \<le> i" "i < len" for i
      using IH(2) ws that assms by (cases "i < s + width") auto
    moreover have "distinct ws \<and> pairwise (\<lambda>v w. snd v \<le> fst w \<or> snd w \<le> fst v) (set ws)" if "overlap = 0"
      using IH(1,3) ws that assms by (fastforce simp: pairwise_insert)
    ultimately show ?thesis by blast
  qed
qed

text \<open>Without the validation of the chunker the loop can run forever.\<close>

lemma windows_from_stuck:
  assumes "windows_from len width overlap s = Some ws"
  shows "overlap = width \<longrightarrow> \<not> (s < len \<and> s + width < len)"
proof (rule windows_from.raw_induct
    [where P = "\<lambda>len width overlap s ws. overlap = width \<longrightarrow> \<not> (s < len \<and> s + width < len)", OF _ assms])
  fix f :: "int \<Rightarrow> int \<Rightarrow> int \<Rightarrow> int \<Rightarrow> (int \<times> int) list option" and len width overlap start ws
  assume IH: "\<And>len width overlap start y. f len width overlap start = Some y \<Longrightarrow>
      overlap = width \<longrightarrow> \<not> (start < len \<and> start + width < len)"
    and e: "(if start < len then let e = min (start + width) len in if e = len then Some [(start, e)]
      else Option.bind (f len width overlap (e - overlap)) (\<lambda>ws. Some ((start, e) # ws)) else Some []) = Some ws"
  show "overlap = width \<longrightarrow> \<not> (start < len \<and> start + width < len)"
  proof (intro impI notI)
    assume o: "overlap = width" and lt: "start < len \<and> start + width < len"
    then have "min (start + width) len = start + width" by simp
    with e o lt have "\<exists>vs. f len width width start = Some vs"
      by (auto simp: Let_def bind_eq_Some_conv)
    with IH lt show False by blast
  qed
qed

lemma windows_diverge: "0 < len \<Longrightarrow> width < len \<Longrightarrow> windows len width width = None"
  using windows_from_stuck [of len width width 0] by (cases "windows len width width") (auto simp: windows_def)

text \<open>
  C25: The window loop of a validated chunker always ends: for the parents as for the children it
  yields exactly the windows that start at the multiples of the stride (the width less the overlap),
  each cut at the end of the content, as many as it takes for the first one to reach the end. The
  validation is needed: with an overlap as large as the width the loop runs forever on every longer
  content.
\<close>

theorem window_loop_terminates:
  assumes "new_chunker parent_size child_size overlap = Inr ck"
  shows "windows len (ck_child ck) (ck_overlap ck) = Some (map
      (window_at len child_size (child_size - overlap)) [0..<window_count len child_size (child_size - overlap)])
    \<and> windows len (ck_parent ck) 0 = Some (map (window_at len parent_size parent_size)
        [0..<window_count len parent_size parent_size])
    \<and> (child_size < len \<longrightarrow> windows len child_size child_size = None)"
  using assms by (auto simp: new_chunker_def windows_closed windows_diverge split: if_splits)

theorem window_loop_terminates_witness:
  "windows 10 4 1 = Some [(0, 4), (3, 7), (6, 10)] \<and> windows 10 8 0 = Some [(0, 8), (8, 10)]
     \<and> windows 10 4 4 = None"
proof -
  have n: "new_chunker 8 4 1 = Inr \<lparr>ck_parent = 8, ck_child = 4, ck_overlap = 1\<rparr>"
    by (simp add: new_chunker_def)
  from window_loop_terminates [OF n, of 10] show ?thesis
    by (simp add: window_count_def window_at_def upt_rec)
qed

subsection \<open>Chunks of a block\<close>

lemma length_slice: "0 \<le> a \<Longrightarrow> a \<le> b \<Longrightarrow> b \<le> int (length s) \<Longrightarrow> int (length (slice s a b)) = b - a"
  unfolding slice_def by simp

lemma nth_slice:
  "0 \<le> a \<Longrightarrow> a \<le> i \<Longrightarrow> i < b \<Longrightarrow> i < int (length s) \<Longrightarrow> slice s a b ! nat (i - a) = s ! nat i"
  by (simp add: slice_def nat_diff_distrib)

lemma slice_slice:
  assumes "0 \<le> a" "0 \<le> c" "c \<le> d" "d \<le> b - a" "b \<le> int (length s)"
  shows "slice (slice s a b) c d = slice s (a + c) (a + d)"
proof -
  have "nat (d - c) \<le> nat (b - a) - nat c" using assms by linarith
  then have "min (nat (d - c)) (nat (b - a) - nat c) = nat (d - c)" by simp
  moreover have "nat (a + c) = nat c + nat a" using assms by simp
  ultimately show ?thesis by (simp add: slice_def drop_take)
qed

lemma slice_ne: "slice s a b \<noteq> [] \<Longrightarrow> a < b"
  by (auto simp: slice_def)

lemma slice_not_blank:
  assumes "0 \<le> a" "a \<le> i" "i < b" "i < int (length s)" "\<not> py_space (s ! nat i)"
  shows "\<not> blank (slice s a b)"
proof -
  have "nat (i - a) < nat (b - a)" "nat (i - a) < length s - nat a" using assms by linarith+
  then have "nat (i - a) < length (slice s a b)" by (simp add: slice_def)
  then have "s ! nat i \<in> set (slice s a b)" using nth_slice [OF assms(1-4)] by (metis nth_mem)
  with assms(5) show ?thesis by (auto simp: blank_iff_all_space)
qed

lemma chunk_windows_ok:
  assumes "0 \<le> overlap" "overlap < width"
  shows "\<exists>ws. chunk_windows len width overlap = Inr ws
    \<and> (\<forall>w \<in> set ws. 0 \<le> fst w \<and> fst w < snd w \<and> snd w \<le> len \<and> snd w - fst w \<le> width)
    \<and> (\<forall>i. 0 \<le> i \<and> i < len \<longrightarrow> (\<exists>w \<in> set ws. fst w \<le> i \<and> i < snd w))
    \<and> (overlap = 0 \<longrightarrow> distinct ws \<and> pairwise (\<lambda>v w. snd v \<le> fst w \<or> snd w \<le> fst v) (set ws))"
proof -
  obtain ws where ws: "windows_from len width overlap 0 = Some ws"
    using windows_from_closed [OF assms, of len 0] by blast
  with windows_from_props [OF ws assms] show ?thesis
    by (intro exI [of _ ws]) (simp add: chunk_windows_def windows_def split_def)
qed

text \<open>Within a valid block every nonempty span makes a valid chunk.\<close>

definition child_of ::
  "(json \<Rightarrow> pystr) \<Rightarrow> chunker \<Rightarrow> document_block \<Rightarrow> (pystr \<times> json) list \<Rightarrow> pystr \<Rightarrow> int \<Rightarrow> int \<Rightarrow> child_chunk" where
  "child_of digest ck b metadata pid s e =
     (let content = slice (db_content b) s e
      in \<lparr>cc_id = stable_id digest ck ''child'' b s e content (Some pid), cc_parent_id = pid,
          cc_document_id = db_document_id b, cc_document_version = db_document_version b,
          cc_content = content, cc_page = db_page_number b, cc_source = db_source b,
          cc_start = Some s, cc_end = Some e, cc_metadata = metadata\<rparr>)"

definition parent_of ::
  "(json \<Rightarrow> pystr) \<Rightarrow> chunker \<Rightarrow> document_block \<Rightarrow> (pystr \<times> json) list \<Rightarrow> int \<Rightarrow> int \<Rightarrow> parent_chunk" where
  "parent_of digest ck b metadata s e =
     (let content = slice (db_content b) s e
      in \<lparr>pc_id = stable_id digest ck ''parent'' b s e content None, pc_document_id = db_document_id b,
          pc_document_version = db_document_version b, pc_content = content,
          pc_block_ids = [db_block_id b], pc_page = db_page_number b, pc_source = db_source b,
          pc_start = s, pc_end = e, pc_metadata = metadata\<rparr>)"

lemma parent_of_sel [simp]:
  "pc_start (parent_of digest ck b m s e) = s" "pc_end (parent_of digest ck b m s e) = e"
  "pc_content (parent_of digest ck b m s e) = slice (db_content b) s e"
  "pc_metadata (parent_of digest ck b m s e) = m"
  by (simp_all add: parent_of_def Let_def)

lemma child_of_sel [simp]:
  "cc_start (child_of digest ck b m pid s e) = Some s" "cc_end (child_of digest ck b m pid s e) = Some e"
  "cc_content (child_of digest ck b m pid s e) = slice (db_content b) s e"
  "cc_parent_id (child_of digest ck b m pid s e) = pid"
  "cc_metadata (child_of digest ck b m pid s e) = m"
  by (simp_all add: child_of_def Let_def)

lemma stable_id_ne: "kind \<noteq> [] \<Longrightarrow> stable_id digest ck kind b s e content pid \<noteq> []"
  by (simp add: stable_id_def)

lemma make_parent_ok:
  assumes "block_contract b" "0 \<le> s" "slice (db_content b) s e \<noteq> []"
  shows "make_parent digest ck b m s e = Inr (parent_of digest ck b m s e)"
  using assms slice_ne [OF assms(3)]
  by (auto simp: make_parent_def new_parent_chunk_def parent_of_def block_contract_def stable_id_ne Let_def)

lemma make_child_ok:
  assumes "block_contract b" "0 \<le> s" "slice (db_content b) s e \<noteq> []" "pid \<noteq> []"
  shows "make_child digest ck b m pid (slice (db_content b) s e) s e = Inr (child_of digest ck b m pid s e)"
  using assms slice_ne [OF assms(3)]
  by (auto simp: make_child_def new_child_chunk_def child_of_def block_contract_def stable_id_ne Let_def)


text \<open>One parent with its children.\<close>

lemma chunk_parent_ok:
  assumes ck: "0 \<le> ck_overlap ck" "ck_overlap ck < ck_child ck" and b: "block_contract b"
    and w: "0 \<le> fst w" "snd w \<le> int (length (db_content b))"
    and ne: "\<not> blank (slice (db_content b) (fst w) (snd w))"
  obtains p cs where "chunk_parent digest ck b w = Inr (p, cs)"
    and "p = parent_of digest ck b (db_metadata b) (fst w) (snd w)"
    and "\<And>k. k \<in> set cs \<Longrightarrow> \<exists>s e. k = child_of digest ck b (db_metadata b) (pc_id p) s e \<and> fst w \<le> s \<and> s < e
        \<and> e \<le> snd w \<and> e - s \<le> ck_child ck \<and> \<not> blank (cc_content k)"
    and "\<And>i. fst w \<le> i \<Longrightarrow> i < snd w \<Longrightarrow> \<not> py_space (db_content b ! nat i) \<Longrightarrow>
        \<exists>s e. child_of digest ck b (db_metadata b) (pc_id p) s e \<in> set cs \<and> s \<le> i \<and> i < e
          \<and> \<not> blank (slice (db_content b) s e)"
proof -
  let ?p = "parent_of digest ck b (db_metadata b) (fst w) (snd w)"
  let ?c = "slice (db_content b) (fst w) (snd w)"
  let ?child = "\<lambda>v. child_of digest ck b (db_metadata b) (pc_id ?p) (fst w + fst v) (fst w + snd v)"
  have "?c \<noteq> []" using ne by auto
  have lt: "fst w < snd w" using slice_ne [OF \<open>?c \<noteq> []\<close>] .
  have len: "int (length ?c) = snd w - fst w" using length_slice w lt by simp
  have mp: "make_parent digest ck b (db_metadata b) (fst w) (snd w) = Inr ?p"
    using make_parent_ok [OF b w(1) \<open>?c \<noteq> []\<close>] .
  obtain ws where ws: "chunk_windows (int (length ?c)) (ck_child ck) (ck_overlap ck) = Inr ws"
    and all_ws: "\<forall>v \<in> set ws. 0 \<le> fst v \<and> fst v < snd v \<and> snd v \<le> int (length ?c) \<and> snd v - fst v \<le> ck_child ck"
    and cover: "\<forall>i. 0 \<le> i \<and> i < int (length ?c) \<longrightarrow> (\<exists>v \<in> set ws. fst v \<le> i \<and> i < snd v)"
    using chunk_windows_ok [OF ck, of "int (length ?c)"] by (elim exE conjE)
  note in_ws = all_ws [rule_format]
  let ?vs = "filter (\<lambda>v. \<not> blank (slice ?c (fst v) (snd v))) ws"
  have sl: "slice ?c (fst v) (snd v) = slice (db_content b) (fst w + fst v) (fst w + snd v)"
    if "v \<in> set ws" for v using in_ws [OF that] len w by (intro slice_slice) auto
  have "make_child digest ck b (db_metadata b) (pc_id ?p) (slice ?c (fst v) (snd v))
      (fst w + fst v) (fst w + snd v) = Inr (?child v)" if "v \<in> set ?vs" for v
  proof -
    from that have v: "v \<in> set ws" "slice ?c (fst v) (snd v) \<noteq> []" by auto
    have "pc_id ?p \<noteq> []" by (simp add: parent_of_def Let_def stable_id_ne)
    with make_child_ok [OF b] v in_ws [OF v(1)] w(1) show ?thesis by (simp add: sl [OF v(1)])
  qed
  then have rm: "res_map (\<lambda>v. make_child digest ck b (db_metadata b) (pc_id ?p) (slice ?c (fst v) (snd v))
      (fst w + fst v) (fst w + snd v)) ?vs = Inr (map ?child ?vs)"
    by (rule res_map_Inr_map)
  have "chunk_parent digest ck b w = Inr (?p, map ?child ?vs)"
    using rm by (simp add: chunk_parent_def mp ws)
  moreover have "\<exists>s e. k = child_of digest ck b (db_metadata b) (pc_id ?p) s e \<and> fst w \<le> s \<and> s < e
        \<and> e \<le> snd w \<and> e - s \<le> ck_child ck \<and> \<not> blank (cc_content k)" if "k \<in> set (map ?child ?vs)" for k
  proof -
    from that obtain v where v: "v \<in> set ws" "\<not> blank (slice ?c (fst v) (snd v))" "k = ?child v" by auto
    with in_ws [OF v(1)] sl [OF v(1)] len show ?thesis
      by (intro exI [of _ "fst w + fst v"] exI [of _ "fst w + snd v"]) simp
  qed
  moreover have "\<exists>s e. child_of digest ck b (db_metadata b) (pc_id ?p) s e \<in> set (map ?child ?vs) \<and> s \<le> i \<and> i < e
        \<and> \<not> blank (slice (db_content b) s e)"
    if i: "fst w \<le> i" "i < snd w" "\<not> py_space (db_content b ! nat i)" for i
  proof -
    obtain v where v: "v \<in> set ws" "fst v \<le> i - fst w" "i - fst w < snd v"
      using cover [rule_format, of "i - fst w"] i len by auto
    have "\<not> blank (slice ?c (fst v) (snd v))"
      unfolding sl [OF v(1)] using in_ws [OF v(1)] v i w len by (intro slice_not_blank [of _ i]) auto
    with v sl [OF v(1)] show ?thesis
      by (intro exI [of _ "fst w + fst v"] exI [of _ "fst w + snd v"]) auto
  qed
  ultimately show ?thesis using that by blast
qed


text \<open>The span of a child and the content it holds.\<close>

definition child_spans :: "document_block \<Rightarrow> child_chunk \<Rightarrow> int \<Rightarrow> int \<Rightarrow> bool" where
  "child_spans b k s e \<longleftrightarrow> cc_start k = Some s \<and> cc_end k = Some e \<and> s < e
     \<and> cc_content k = slice (db_content b) s e \<and> \<not> blank (cc_content k)"

text \<open>
  Chunking a valid block with a validated chunker never raises and always returns. Every parent
  is a nonblank slice of the block no longer than the parent size, and no two parents overlap; every
  child is a nonblank slice no longer than the child size inside the parent it names; and every
  visible character of the block lies in a parent and in a child of that parent, so nothing that could
  be searched is lost.
\<close>

lemma chunk_block_covers:
  assumes "new_chunker parent_size child_size overlap = Inr ck" and "block_contract b"
  shows "\<exists>r. chunk_block digest ck b = Inr r
    \<and> (\<forall>p \<in> set (cr_parents r). pc_content p = slice (db_content b) (pc_start p) (pc_end p)
         \<and> 0 \<le> pc_start p \<and> pc_start p < pc_end p \<and> pc_end p \<le> int (length (db_content b))
         \<and> pc_end p - pc_start p \<le> parent_size \<and> \<not> blank (pc_content p))
    \<and> pairwise (\<lambda>p q. pc_end p \<le> pc_start q \<or> pc_end q \<le> pc_start p) (set (cr_parents r))
    \<and> (\<forall>k \<in> set (cr_children r). \<exists>p \<in> set (cr_parents r). \<exists>s e. cc_parent_id k = pc_id p
         \<and> child_spans b k s e \<and> pc_start p \<le> s \<and> e \<le> pc_end p \<and> e - s \<le> child_size)
    \<and> (\<forall>i. 0 \<le> i \<and> i < int (length (db_content b)) \<and> \<not> py_space (db_content b ! nat i) \<longrightarrow>
         (\<exists>p \<in> set (cr_parents r). pc_start p \<le> i \<and> i < pc_end p
            \<and> (\<exists>k \<in> set (cr_children r). \<exists>s e. cc_parent_id k = pc_id p \<and> child_spans b k s e \<and> s \<le> i \<and> i < e)))"
    (is "\<exists>r. _ = Inr r \<and> ?P r")
proof (cases "blank (db_content b)")
  case True
  then have "py_space (db_content b ! nat i)" if "0 \<le> i" "i < int (length (db_content b))" for i
    using that by (auto simp: blank_iff_all_space)
  with True show ?thesis by (auto simp: chunk_block_def pairwise_def)
next
  case False
  let ?s = "db_content b"
  have ck: "0 \<le> ck_overlap ck" "ck_overlap ck < ck_child ck" "ck_child ck = child_size"
    "ck_parent ck = parent_size" "0 < parent_size"
    using assms(1) by (auto simp: new_chunker_def split: if_splits)
  have pos: "0 < ck_parent ck" using ck by simp
  obtain ws where ws: "chunk_windows (int (length ?s)) (ck_parent ck) 0 = Inr ws"
    and in_ws: "\<forall>w \<in> set ws. 0 \<le> fst w \<and> fst w < snd w \<and> snd w \<le> int (length ?s) \<and> snd w - fst w \<le> ck_parent ck"
    and cover: "\<forall>i. 0 \<le> i \<and> i < int (length ?s) \<longrightarrow> (\<exists>w \<in> set ws. fst w \<le> i \<and> i < snd w)"
    and dist: "0 = (0::int) \<longrightarrow> distinct ws \<and> pairwise (\<lambda>v w. snd v \<le> fst w \<or> snd w \<le> fst v) (set ws)"
    using chunk_windows_ok [OF order_refl pos, of "int (length ?s)"] by (elim exE conjE)
  let ?vs = "filter (\<lambda>w. \<not> blank (slice ?s (fst w) (snd w))) ws"
  let ?p = "\<lambda>w. parent_of digest ck b (db_metadata b) (fst w) (snd w)"
  define good where "good w cs \<longleftrightarrow>
      (\<forall>k \<in> set cs. \<exists>s e. k = child_of digest ck b (db_metadata b) (pc_id (?p w)) s e \<and> fst w \<le> s \<and> s < e
        \<and> e \<le> snd w \<and> e - s \<le> ck_child ck \<and> \<not> blank (cc_content k))
      \<and> (\<forall>i. fst w \<le> i \<and> i < snd w \<and> \<not> py_space (?s ! nat i) \<longrightarrow>
          (\<exists>s e. child_of digest ck b (db_metadata b) (pc_id (?p w)) s e \<in> set cs \<and> s \<le> i \<and> i < e
            \<and> \<not> blank (slice ?s s e)))" for w cs
  have "\<exists>cs. chunk_parent digest ck b w = Inr (?p w, cs) \<and> good w cs" if "w \<in> set ?vs" for w
  proof -
    from that in_ws have "0 \<le> fst w" "snd w \<le> int (length ?s)" "\<not> blank (slice ?s (fst w) (snd w))" by auto
    from chunk_parent_ok [OF ck(1,2) assms(2) this] show ?thesis unfolding good_def by metis
  qed
  then obtain cs where cs: "\<And>w. w \<in> set ?vs \<Longrightarrow> chunk_parent digest ck b w = Inr (?p w, cs w) \<and> good w (cs w)"
    by metis
  let ?r = "\<lparr>cr_parents = map ?p ?vs, cr_children = concat (map cs ?vs)\<rparr>"
  have "res_map (chunk_parent digest ck b) ?vs = Inr (map (\<lambda>w. (?p w, cs w)) ?vs)"
    using cs by (intro res_map_Inr_map) auto
  then have r: "chunk_block digest ck b = Inr ?r"
    using False by (simp add: chunk_block_def ws o_def)
  have "pairwise (\<lambda>p q. pc_end p \<le> pc_start q \<or> pc_end q \<le> pc_start p) (set (cr_parents ?r))"
  proof (rule pairwiseI)
    fix p q
    assume "p \<in> set (cr_parents ?r)" "q \<in> set (cr_parents ?r)" "p \<noteq> q"
    then obtain v w where "p = ?p v" "q = ?p w" "v \<in> set ws" "w \<in> set ws" "v \<noteq> w" by auto
    with dist show "pc_end p \<le> pc_start q \<or> pc_end q \<le> pc_start p" by (simp add: pairwise_def)
  qed
  moreover have "\<exists>p \<in> set (cr_parents ?r). \<exists>s e. cc_parent_id k = pc_id p
         \<and> child_spans b k s e \<and> pc_start p \<le> s \<and> e \<le> pc_end p \<and> e - s \<le> child_size"
    if "k \<in> set (cr_children ?r)" for k
  proof -
    from that obtain w where w: "w \<in> set ?vs" "k \<in> set (cs w)" by auto
    with cs [OF w(1)] obtain s e where "k = child_of digest ck b (db_metadata b) (pc_id (?p w)) s e"
      "fst w \<le> s" "s < e" "e \<le> snd w" "e - s \<le> ck_child ck" "\<not> blank (cc_content k)"
      unfolding good_def by blast
    with w(1) show ?thesis
      by (intro bexI [of _ "?p w"] exI [of _ s] exI [of _ e]) (auto simp: child_spans_def ck)
  qed
  moreover have "\<exists>p \<in> set (cr_parents ?r). pc_start p \<le> i \<and> i < pc_end p
      \<and> (\<exists>k \<in> set (cr_children ?r). \<exists>s e. cc_parent_id k = pc_id p \<and> child_spans b k s e \<and> s \<le> i \<and> i < e)"
    if i: "0 \<le> i" "i < int (length ?s)" "\<not> py_space (?s ! nat i)" for i
  proof -
    from cover i obtain w where w: "w \<in> set ws" "fst w \<le> i" "i < snd w" by blast
    with in_ws have "0 \<le> fst w" "snd w \<le> int (length ?s)" by auto
    from slice_not_blank [OF this(1) w(2,3) i(2,3)] w(1) have "w \<in> set ?vs" by simp
    from cs [OF this] w i obtain s e where
      k: "child_of digest ck b (db_metadata b) (pc_id (?p w)) s e \<in> set (cs w)" "s \<le> i" "i < e"
        "\<not> blank (slice ?s s e)"
      unfolding good_def by blast
    let ?k = "child_of digest ck b (db_metadata b) (pc_id (?p w)) s e"
    have "?k \<in> set (cr_children ?r)"
      using k(1) \<open>w \<in> set ?vs\<close> by (cases w) auto
    moreover have "?p w \<in> set (cr_parents ?r)" using \<open>w \<in> set ?vs\<close> by auto
    moreover have "child_spans b ?k s e" using k by (simp add: child_spans_def)
    moreover have "cc_parent_id ?k = pc_id (?p w)" "pc_start (?p w) \<le> i" "i < pc_end (?p w)"
      using w by simp_all
    ultimately show ?thesis using k(2,3) by blast
  qed
  ultimately have "?P ?r" using in_ws ck by auto
  with r show ?thesis by blast
qed

end
