(* ===== verification/ClauseChunking.thy ===== *)
theory ClauseChunking
  imports Chunking
begin

section \<open>Ingestion: chunks that respect sections and clauses\<close>

text \<open>
  \<^verbatim>\<open>ingestion/clause_aware_chunking.py\<close>. The two multi-line patterns are written out: a heading is one
  to six hashes at the start of a line, white space, a title and optional closing hashes; a clause
  marker is the fixed Chinese label with a clause identifier, up to the end of a line. A heading or a
  marker can match at most once per line start, so that \<^verbatim>\<open>finditer\<close> visits the line starts in order.
\<close>

subsection \<open>The two patterns\<close>

definition hspace :: "nat \<Rightarrow> bool" where
  "hspace c \<longleftrightarrow> c = 32 \<or> c = 9"

text \<open>\<^verbatim>\<open>[ \t]*#*[ \t]*$\<close> on the rest of a line\<close>

definition closes_heading :: "pystr \<Rightarrow> bool" where
  "closes_heading s \<longleftrightarrow> dropWhile hspace (dropWhile (\<lambda>c. c = 35) (dropWhile hspace s)) = []"

text \<open>The lazy \<^verbatim>\<open>.*?\<close>: the shortest title after which the rest closes the heading.\<close>

fun heading_title :: "pystr \<Rightarrow> pystr" where
  "heading_title [] = []"
| "heading_title (c # s) = (if closes_heading (c # s) then [] else c # heading_title s)"

definition heading_at :: "pystr \<Rightarrow> (nat \<times> pystr) option" where
  "heading_at s =
     (let line = takeWhile (\<lambda>c. c \<noteq> 10) s; level = length (takeWhile (\<lambda>c. c = 35) line);
          rest = drop level line
      in if 1 \<le> level \<and> level \<le> 6 \<and> rest \<noteq> [] \<and> hspace (hd rest)
         then Some (level, heading_title (dropWhile hspace rest)) else None)"

definition clause_label :: pystr where
  "clause_label = [26465, 27454, 32, 73, 68, 65306]"

definition clause_upper :: "nat \<Rightarrow> bool" where
  "clause_upper c \<longleftrightarrow> 65 \<le> c \<and> c \<le> 90"

definition clause_char :: "nat \<Rightarrow> bool" where
  "clause_char c \<longleftrightarrow> clause_upper c \<or> 48 \<le> c \<and> c \<le> 57 \<or> c = 45"

definition clause_at :: "pystr \<Rightarrow> pystr option" where
  "clause_at s =
     (if take 6 s \<noteq> clause_label then None
      else let body = dropWhile py_space (drop 6 s); cid = takeWhile clause_char body;
               rest = drop (length cid) body; space = takeWhile py_space rest
        in if cid \<noteq> [] \<and> clause_upper (hd cid) \<and> (10 \<in> set space \<or> length space = length rest)
           then Some cid else None)"

definition line_starts :: "pystr \<Rightarrow> nat list" where
  "line_starts s = filter (\<lambda>p. p = 0 \<or> s ! (p - 1) = 10) [0..<length s]"

record heading =
  hg_start :: int
  hg_level :: nat
  hg_title :: pystr

definition headings :: "pystr \<Rightarrow> heading list" where
  "headings s = List.map_filter (\<lambda>p. map_option (\<lambda>(l, t). \<lparr>hg_start = int p, hg_level = l, hg_title = t\<rparr>)
     (heading_at (drop p s))) (line_starts s)"

definition clause_markers :: "pystr \<Rightarrow> (int \<times> pystr) list" where
  "clause_markers s = List.map_filter (\<lambda>p. map_option (\<lambda>i. (int p, i)) (clause_at (drop p s))) (line_starts s)"

subsection \<open>Sections and clauses\<close>

record section_span =
  se_start :: int
  se_end :: int
  se_path :: pystr
  se_heading :: pystr

record clause =
  cl_id :: pystr
  cl_start :: int
  cl_end :: int

definition path_step :: "heading \<Rightarrow> (nat \<times> pystr) list \<Rightarrow> (nat \<times> pystr) list" where
  "path_step h stack =
     filter (\<lambda>e. fst e \<le> hg_level h) (AList.update (hg_level h) (py_strip (hg_title h)) stack)"

definition section_path :: "heading list \<Rightarrow> int \<Rightarrow> pystr" where
  "section_path hs position =
     py_join (lit '' > '') (map snd (sort_key fst
       (fold path_step (takeWhile (\<lambda>h. hg_start h \<le> position) hs) [])))"

definition business_level :: "heading list \<Rightarrow> nat" where
  "business_level hs =
     (let levels = filter (\<lambda>l. 2 \<le> l) (map hg_level hs)
      in if levels = [] then 1 else Min (set levels))"

definition sections :: "pystr \<Rightarrow> section_span list" where
  "sections s =
     (let hs = headings s; bs = filter (\<lambda>h. hg_level h = business_level hs) hs
      in if bs = [] then [\<lparr>se_start = 0, se_end = int (length s), se_path = [], se_heading = []\<rparr>]
         else map (\<lambda>i. \<lparr>se_start = if i = 0 then 0 else hg_start (bs ! i),
             se_end = if Suc i < length bs then hg_start (bs ! Suc i) else int (length s),
             se_path = section_path hs (hg_start (bs ! i)),
             se_heading = py_strip (hg_title (bs ! i))\<rparr>) [0..<length bs])"

definition clauses :: "pystr \<Rightarrow> section_span list \<Rightarrow> chunk_error + clause list" where
  "clauses s secs =
     (let ms = clause_markers s
      in res_map (\<lambda>i. case find (\<lambda>x. se_start x \<le> fst (ms ! i) \<and> fst (ms ! i) < se_end x) secs of
            None \<Rightarrow> Inl NoSection
          | Some x \<Rightarrow> Inr \<lparr>cl_id = snd (ms ! i), cl_start = fst (ms ! i),
              cl_end = min (if Suc i < length ms then fst (ms ! Suc i) else se_end x) (se_end x)\<rparr>)
        [0..<length ms])"

definition in_section :: "section_span \<Rightarrow> clause \<Rightarrow> bool" where
  "in_section x c \<longleftrightarrow> se_start x \<le> cl_start c \<and> cl_end c \<le> se_end x"

subsection \<open>Parent ranges and clause windows\<close>

fun ranges_from :: "int \<Rightarrow> int \<Rightarrow> int \<Rightarrow> int \<Rightarrow> pystr list \<Rightarrow> clause list \<Rightarrow> (int \<times> int \<times> pystr list) list" where
  "ranges_from width stop a b ids [] =
     (if a < b then [(a, b, ids)] else []) @ (if b < stop then [(b, stop, [])] else [])"
| "ranges_from width stop a b ids (c # cs) =
     (if a < b \<and> width < cl_end c - a
      then (a, b, ids) # ranges_from width stop (cl_start c) (cl_end c) [cl_id c] cs
      else ranges_from width stop a (cl_end c) (ids @ [cl_id c]) cs)"

definition parent_ranges :: "chunker \<Rightarrow> section_span \<Rightarrow> clause list \<Rightarrow> (int \<times> int \<times> pystr list) list" where
  "parent_ranges ck x cs =
     (if cs = [] then [(se_start x, se_end x, [])]
      else ranges_from (ck_parent ck) (se_end x) (se_start x) (se_start x) [] cs)"

definition clause_windows :: "chunker \<Rightarrow> clause \<Rightarrow> chunk_error + (int \<times> int) list" where
  "clause_windows ck c =
     (if cl_end c - cl_start c \<le> ck_child ck then Inr [(cl_start c, cl_end c)]
      else res_bind (chunk_windows (cl_end c - cl_start c) (ck_child ck) (ck_overlap ck)) (\<lambda>ws.
        Inr (map (\<lambda>w. (cl_start c + fst w, cl_start c + snd w)) ws)))"

definition clause_metadata :: "document_block \<Rightarrow> section_span \<Rightarrow> pystr list \<Rightarrow> (pystr \<times> json) list" where
  "clause_metadata b x ids =
     AList.update (lit ''clause_ids'') (JList (map JStr ids))
     (AList.update (lit ''nearest_heading'') (JStr (se_heading x))
     (AList.update (lit ''section_path'') (JStr (se_path x))
     (AList.update (lit ''strategy_id'') (JStr (lit ''clause-aware-v1'')) (db_metadata b))))"

definition clause_parents ::
  "(json \<Rightarrow> pystr) \<Rightarrow> chunker \<Rightarrow> document_block \<Rightarrow> clause list \<Rightarrow> section_span \<Rightarrow> chunk_error + parent_chunk list" where
  "clause_parents digest ck b cls x =
     res_map (\<lambda>(s, e, ids). make_parent digest ck b (clause_metadata b x ids) s e)
       (filter (\<lambda>(s, e, ids). \<not> blank (slice (db_content b) s e))
         (parent_ranges ck x (filter (in_section x) cls)))"

text \<open>The dictionary of the parents by their range keeps the place of the first and the value of the last.\<close>

definition parents_by_range :: "parent_chunk list \<Rightarrow> ((int \<times> int) \<times> parent_chunk) list" where
  "parents_by_range ps = fold (\<lambda>p. AList.update (pc_start p, pc_end p) p) ps []"

definition clause_children ::
  "(json \<Rightarrow> pystr) \<Rightarrow> chunker \<Rightarrow> document_block \<Rightarrow> parent_chunk list \<Rightarrow> section_span \<Rightarrow> clause
     \<Rightarrow> chunk_error + child_chunk list" where
  "clause_children digest ck b ps x c =
     (case find (\<lambda>p. pc_start p \<le> cl_start c \<and> cl_end c \<le> pc_end p) (map snd (parents_by_range ps)) of
        None \<Rightarrow> Inl (NoParent (cl_id c))
      | Some p \<Rightarrow> res_bind (clause_windows ck c) (\<lambda>ws.
          res_map (\<lambda>w. make_child digest ck b (clause_metadata b x [cl_id c]) (pc_id p)
            (slice (db_content b) (fst w) (snd w)) (fst w) (snd w)) ws))"

definition clause_chunk_block ::
  "(json \<Rightarrow> pystr) \<Rightarrow> chunker \<Rightarrow> document_block \<Rightarrow> chunk_error + chunking_result" where
  "clause_chunk_block digest ck b =
     (if blank (db_content b) then Inr \<lparr>cr_parents = [], cr_children = []\<rparr>
      else let secs = sections (db_content b)
      in res_bind (clauses (db_content b) secs) (\<lambda>cls.
         res_bind (res_map (clause_parents digest ck b cls) secs) (\<lambda>pss.
         let ps = concat pss
         in res_bind (res_map (\<lambda>x. res_map (clause_children digest ck b ps x) (filter (in_section x) cls)) secs)
           (\<lambda>kss. Inr \<lparr>cr_parents = ps, cr_children = concat (map concat kss)\<rparr>))))"


subsection \<open>Sections tile the content\<close>

lemma line_starts_sorted: "sorted_wrt (<) (filter P (line_starts s))"
  by (simp add: line_starts_def sorted_wrt_filter)

lemma heading_starts:
  "map hg_start (headings s) = map int (filter (\<lambda>p. heading_at (drop p s) \<noteq> None) (line_starts s))"
  by (auto simp: headings_def List.map_filter_def)

lemma marker_starts:
  "map fst (clause_markers s) = map int (filter (\<lambda>p. clause_at (drop p s) \<noteq> None) (line_starts s))"
  by (auto simp: clause_markers_def List.map_filter_def)

lemma sorted_wrt_map_int: "sorted_wrt (<) (map int xs) \<longleftrightarrow> sorted_wrt (<) xs"
  by (simp add: sorted_wrt_map)

lemma headings_sorted: "sorted_wrt (\<lambda>h g. hg_start h < hg_start g) (headings s)"
  using line_starts_sorted by (metis (no_types) heading_starts sorted_wrt_map sorted_wrt_map_int)

lemma markers_sorted: "sorted_wrt (\<lambda>m n. fst m < fst n) (clause_markers s)"
  using line_starts_sorted by (metis (no_types) marker_starts sorted_wrt_map sorted_wrt_map_int)

lemma headings_within: "h \<in> set (headings s) \<Longrightarrow> 0 \<le> hg_start h \<and> hg_start h < int (length s)"
  by (auto simp: headings_def List.map_filter_def line_starts_def)

lemma markers_within: "m \<in> set (clause_markers s) \<Longrightarrow> 0 \<le> fst m \<and> fst m < int (length s)"
  by (auto simp: clause_markers_def List.map_filter_def line_starts_def)

definition tiles :: "int \<Rightarrow> section_span list \<Rightarrow> bool" where
  "tiles len secs \<longleftrightarrow> (\<forall>x \<in> set secs. 0 \<le> se_start x \<and> se_start x < se_end x \<and> se_end x \<le> len)
     \<and> (\<forall>i. 0 \<le> i \<and> i < len \<longrightarrow> (\<exists>x \<in> set secs. se_start x \<le> i \<and> i < se_end x))
     \<and> (\<forall>x \<in> set secs. \<forall>y \<in> set secs. \<forall>i. se_start x \<le> i \<and> i < se_end x \<and> se_start y \<le> i \<and> i < se_end y \<longrightarrow> x = y)"

lemma boundaries_tile:
  fixes f g :: "nat \<Rightarrow> pystr"
  assumes "sorted_wrt (\<lambda>h g. hg_start h < hg_start g) bs" and "bs \<noteq> []"
    and "\<forall>h \<in> set bs. 0 \<le> hg_start h \<and> hg_start h < len"
  defines "sec \<equiv> \<lambda>i. \<lparr>se_start = if i = 0 then 0 else hg_start (bs ! i),
      se_end = if Suc i < length bs then hg_start (bs ! Suc i) else len, se_path = f i, se_heading = g i\<rparr>"
  shows "tiles len (map sec [0..<length bs])"
proof -
  let ?n = "length bs"
  have lt: "hg_start (bs ! j) < hg_start (bs ! k)" if "j < k" "k < ?n" for j k
    using assms(1) that by (auto simp: sorted_wrt_iff_nth_less)
  have rng: "0 \<le> hg_start (bs ! j)" "hg_start (bs ! j) < len" if "j < ?n" for j
    using assms(3) that by auto
  have n: "0 < ?n" using assms(2) by simp
  have span: "0 \<le> se_start (sec j) \<and> se_start (sec j) < se_end (sec j) \<and> se_end (sec j) \<le> len" if "j < ?n" for j
    using rng [OF that] rng [of "Suc j"] rng [OF n] lt [of j "Suc j"] by (auto simp: sec_def)
  have cov: "\<exists>j < ?n. se_start (sec j) \<le> i \<and> i < se_end (sec j)" if i: "0 \<le> i" "i < len" for i
  proof -
    let ?J = "{j. j < ?n \<and> (j = 0 \<or> hg_start (bs ! j) \<le> i)}"
    let ?j = "Max ?J"
    have fin: "finite ?J" by simp
    have "0 \<in> ?J" using n by simp
    then have j: "?j \<in> ?J" using Max_in [OF fin] by blast
    have "Suc ?j \<notin> ?J"
    proof
      assume "Suc ?j \<in> ?J"
      from Max_ge [OF fin this] show False by simp
    qed
    then have "Suc ?j < ?n \<Longrightarrow> i < hg_start (bs ! Suc ?j)" by auto
    with j i show ?thesis by (intro exI [of _ ?j]) (auto simp: sec_def)
  qed
  have ord: "se_end (sec j) \<le> se_start (sec k)" if "j < k" "k < ?n" for j k
    using that lt [of "Suc j" k] by (cases "Suc j = k") (auto simp: sec_def)
  have dis: "sec j = sec k"
    if "j < ?n" "k < ?n" "se_start (sec j) \<le> i" "i < se_end (sec j)" "se_start (sec k) \<le> i" "i < se_end (sec k)" for i j k
    using that ord [of j k] ord [of k j] by (cases j k rule: linorder_cases) auto
  show ?thesis
    unfolding tiles_def using span cov dis by (auto simp: Bex_def image_iff) blast
qed

lemma sections_tile:
  assumes "s \<noteq> []"
  shows "tiles (int (length s)) (sections s)"
proof -
  let ?bs = "filter (\<lambda>h. hg_level h = business_level (headings s)) (headings s)"
  show ?thesis
  proof (cases "?bs = []")
    case True
    with assms show ?thesis by (simp add: sections_def tiles_def Let_def)
  next
    case False
    have "sorted_wrt (\<lambda>h g. hg_start h < hg_start g) ?bs"
      using headings_sorted by (rule sorted_wrt_filter)
    moreover have "\<forall>h \<in> set ?bs. 0 \<le> hg_start h \<and> hg_start h < int (length s)"
      by (auto dest: headings_within)
    ultimately have "tiles (int (length s)) (map (\<lambda>i. \<lparr>se_start = if i = 0 then 0 else hg_start (?bs ! i),
        se_end = if Suc i < length ?bs then hg_start (?bs ! Suc i) else int (length s),
        se_path = section_path (headings s) (hg_start (?bs ! i)),
        se_heading = py_strip (hg_title (?bs ! i))\<rparr>) [0..<length ?bs])"
      by (intro boundaries_tile False)
    with False show ?thesis unfolding sections_def Let_def by (simp only: if_False)
  qed
qed


subsection \<open>Clauses and parent ranges\<close>

text \<open>The clauses of a content, each with the section its marker stands in.\<close>

definition clause_in :: "pystr \<Rightarrow> section_span list \<Rightarrow> nat \<Rightarrow> clause \<Rightarrow> bool" where
  "clause_in s secs i c \<longleftrightarrow> (\<exists>x \<in> set secs. in_section x c \<and> cl_start c < se_end x
     \<and> cl_id c = snd (clause_markers s ! i) \<and> cl_start c = fst (clause_markers s ! i)
     \<and> cl_start c < cl_end c \<and> cl_end c = min (if Suc i < length (clause_markers s)
           then fst (clause_markers s ! Suc i) else se_end x) (se_end x))"

lemma clauses_ok:
  assumes "tiles (int (length s)) secs"
  shows "\<exists>cls. clauses s secs = Inr cls \<and> length cls = length (clause_markers s)
    \<and> (\<forall>i < length cls. clause_in s secs i (cls ! i))"
proof -
  let ?ms = "clause_markers s"
  let ?f = "\<lambda>i. case find (\<lambda>x. se_start x \<le> fst (?ms ! i) \<and> fst (?ms ! i) < se_end x) secs of
            None \<Rightarrow> Inl NoSection
          | Some x \<Rightarrow> Inr \<lparr>cl_id = snd (?ms ! i), cl_start = fst (?ms ! i),
              cl_end = min (if Suc i < length ?ms then fst (?ms ! Suc i) else se_end x) (se_end x)\<rparr>"
  have one: "\<exists>c. ?f i = Inr c \<and> clause_in s secs i c" if i: "i < length ?ms" for i
  proof -
    have "0 \<le> fst (?ms ! i)" "fst (?ms ! i) < int (length s)"
      using markers_within i nth_mem by blast+
    then obtain y where "y \<in> set secs" "se_start y \<le> fst (?ms ! i)" "fst (?ms ! i) < se_end y"
      using assms unfolding tiles_def by blast
    then obtain x where x: "find (\<lambda>x. se_start x \<le> fst (?ms ! i) \<and> fst (?ms ! i) < se_end x) secs = Some x"
      by (cases "find (\<lambda>x. se_start x \<le> fst (?ms ! i) \<and> fst (?ms ! i) < se_end x) secs")
        (auto simp: find_None_iff)
    from find_SomeD [OF x] have xs: "x \<in> set secs" "se_start x \<le> fst (?ms ! i)" "fst (?ms ! i) < se_end x"
      by auto
    have "Suc i < length ?ms \<Longrightarrow> fst (?ms ! i) < fst (?ms ! Suc i)"
      using markers_sorted [of s] by (simp add: sorted_wrt_iff_nth_less)
    then have "clause_in s secs i \<lparr>cl_id = snd (?ms ! i), cl_start = fst (?ms ! i),
        cl_end = min (if Suc i < length ?ms then fst (?ms ! Suc i) else se_end x) (se_end x)\<rparr>"
      using xs unfolding clause_in_def in_section_def by (intro bexI [OF _ xs(1)]) auto
    then show ?thesis unfolding x option.case by blast
  qed
  then have "\<forall>i. \<exists>c. i < length ?ms \<longrightarrow> ?f i = Inr c \<and> clause_in s secs i c" by blast
  from choice [OF this] obtain g where g: "\<forall>i. i < length ?ms \<longrightarrow> ?f i = Inr (g i) \<and> clause_in s secs i (g i)" ..
  have "res_map ?f [0..<length ?ms] = Inr (map g [0..<length ?ms])"
    using g by (intro res_map_Inr_map) (simp del: split_paired_All)
  then have "clauses s secs = Inr (map g [0..<length ?ms])"
    by (simp only: clauses_def Let_def)
  moreover have "\<forall>i < length ?ms. clause_in s secs i (g i)" using g by blast
  ultimately show ?thesis by (intro exI [of _ "map g [0..<length ?ms]"]) simp
qed

definition clauses_sorted :: "clause list \<Rightarrow> bool" where
  "clauses_sorted cs \<longleftrightarrow> sorted_wrt (\<lambda>c d. cl_end c \<le> cl_start d) cs"

lemma clauses_are_sorted:
  assumes "\<forall>i < length cls. clause_in s secs i (cls ! i)" and "length cls = length (clause_markers s)"
  shows "clauses_sorted (filter P cls)"
proof -
  have "cl_end (cls ! i) \<le> cl_start (cls ! j)" if "i < j" "j < length cls" for i j
  proof -
    have "clause_in s secs i (cls ! i)" "clause_in s secs j (cls ! j)" using assms(1) that by auto
    then have "cl_end (cls ! i) \<le> fst (clause_markers s ! Suc i)" "cl_start (cls ! j) = fst (clause_markers s ! j)"
      using that assms(2) by (auto simp: clause_in_def)
    moreover have "fst (clause_markers s ! Suc i) \<le> fst (clause_markers s ! j)"
      using markers_sorted [of s] that assms(2)
      by (cases "Suc i = j") (auto simp: sorted_wrt_iff_nth_less intro!: less_imp_le)
    ultimately show ?thesis by simp
  qed
  then show ?thesis
    unfolding clauses_sorted_def by (intro sorted_wrt_filter) (simp add: sorted_wrt_iff_nth_less)
qed

text \<open>The open range is kept, and every clause falls into one range.\<close>

lemma ranges_from_cover:
  assumes "clauses_sorted cs" and "a \<le> b"
    and "\<forall>c \<in> set cs. b \<le> cl_start c \<and> cl_start c < cl_end c"
  shows "(\<forall>r \<in> set (ranges_from width stop a b ids cs). a \<le> fst r)
    \<and> (a < b \<longrightarrow> (\<exists>r \<in> set (ranges_from width stop a b ids cs). fst r = a \<and> b \<le> fst (snd r)))
    \<and> (\<forall>c \<in> set cs. \<exists>r \<in> set (ranges_from width stop a b ids cs). fst r \<le> cl_start c \<and> cl_end c \<le> fst (snd r))
    \<and> (cs \<noteq> [] \<longrightarrow> (\<exists>r \<in> set (ranges_from width stop a b ids cs). fst r = a \<and> (a < b \<or> cl_end (hd cs) \<le> fst (snd r))))"
  using assms
proof (induction cs arbitrary: a b ids)
  case Nil
  then show ?case by auto
next
  case (Cons c cs)
  have s: "clauses_sorted cs" and nxt: "\<forall>d \<in> set cs. cl_end c \<le> cl_start d"
    using Cons.prems(1) by (auto simp: clauses_sorted_def)
  have c: "b \<le> cl_start c" "cl_start c < cl_end c" using Cons.prems(3) by auto
  have d: "\<forall>d \<in> set cs. cl_end c \<le> cl_start d \<and> cl_start d < cl_end d" using nxt Cons.prems(3) by auto
  have ac: "a \<le> cl_end c" "cl_start c \<le> cl_end c" using Cons.prems(2) c by auto
  show ?case
  proof (cases "a < b \<and> width < cl_end c - a")
    case True
    let ?R = "set (ranges_from width stop (cl_start c) (cl_end c) [cl_id c] cs)"
    have e: "set (ranges_from width stop a b ids (c # cs)) = insert (a, b, ids) ?R" using True by simp
    note IH = Cons.IH [OF s ac(2) d, of "[cl_id c]"]
    note IHs = IH [THEN conjunct1] IH [THEN conjunct2, THEN conjunct1]
      IH [THEN conjunct2, THEN conjunct2, THEN conjunct1]
    from IHs(2) c(2) obtain r where "r \<in> ?R" "fst r \<le> cl_start c" "cl_end c \<le> fst (snd r)" by auto
    with IHs(3) have "\<forall>d \<in> set (c # cs). \<exists>r \<in> ?R. fst r \<le> cl_start d \<and> cl_end d \<le> fst (snd r)"
      by auto
    moreover have "\<forall>r \<in> ?R. a \<le> fst r" using IHs(1) c True by auto
    ultimately show ?thesis unfolding e using True by simp
  next
    case False
    have lt: "a < cl_end c" using Cons.prems(2) c by simp
    from False have e: "ranges_from width stop a b ids (c # cs) =
        ranges_from width stop a (cl_end c) (ids @ [cl_id c]) cs" by auto
    let ?R = "set (ranges_from width stop a (cl_end c) (ids @ [cl_id c]) cs)"
    note IH = Cons.IH [OF s ac(1) d, of "ids @ [cl_id c]"]
    note IHs = IH [THEN conjunct1] IH [THEN conjunct2, THEN conjunct1]
      IH [THEN conjunct2, THEN conjunct2, THEN conjunct1]
    from IHs(2) lt obtain r where r: "r \<in> ?R" "fst r = a" "cl_end c \<le> fst (snd r)" by blast
    have "\<exists>r \<in> ?R. fst r \<le> cl_start c \<and> cl_end c \<le> fst (snd r)"
      using r c Cons.prems(2) by (intro bexI [OF _ r(1)]) simp
    with IHs(3) have "\<forall>d \<in> set (c # cs). \<exists>r \<in> ?R. fst r \<le> cl_start d \<and> cl_end d \<le> fst (snd r)"
      by simp
    moreover have "\<exists>r \<in> ?R. fst r = a \<and> b \<le> fst (snd r)"
      using r c by (intro bexI [OF _ r(1)]) simp
    moreover have "\<exists>r \<in> ?R. fst r = a \<and> (a < b \<or> cl_end (hd (c # cs)) \<le> fst (snd r))"
      using r by (intro bexI [OF _ r(1)]) simp
    ultimately show ?thesis unfolding e using IHs(1) by blast
  qed
qed


lemma parent_ranges_ok:
  assumes "0 \<le> se_start x" and "clauses_sorted cs"
    and "\<forall>c \<in> set cs. in_section x c \<and> cl_start c < cl_end c"
  shows "(\<forall>r \<in> set (parent_ranges ck x cs). 0 \<le> fst r)
    \<and> (\<forall>c \<in> set cs. \<exists>r \<in> set (parent_ranges ck x cs). fst r \<le> cl_start c \<and> cl_end c \<le> fst (snd r))
    \<and> (\<exists>r \<in> set (parent_ranges ck x cs). fst r = se_start x
         \<and> (if cs = [] then fst (snd r) = se_end x else cl_end (hd cs) \<le> fst (snd r)))"
proof (cases "cs = []")
  case True
  with assms(1) show ?thesis by (simp add: parent_ranges_def)
next
  case False
  have "\<forall>c \<in> set cs. se_start x \<le> cl_start c \<and> cl_start c < cl_end c"
    using assms(3) by (auto simp: in_section_def)
  note R = ranges_from_cover [OF assms(2) order_refl this, of "ck_parent ck" "se_end x" "[]"]
  have "\<forall>r \<in> set (parent_ranges ck x cs). 0 \<le> fst r"
    using R [THEN conjunct1] assms(1) False by (force simp: parent_ranges_def)
  with R False show ?thesis by (simp add: parent_ranges_def)
qed

lemma marker_visible:
  assumes "m \<in> set (clause_markers s)"
  shows "s ! nat (fst m) = 26465"
proof -
  from assms obtain p where "p \<in> set (line_starts s)"
    and p: "clause_at (drop p s) \<noteq> None" "fst m = int p"
    unfolding clause_markers_def List.map_filter_def by auto
  then have "p < length s" by (simp add: line_starts_def)
  from p have "take 6 (drop p s) = clause_label" by (auto simp: clause_at_def split: if_splits)
  then have "take 6 (drop p s) ! 0 = 26465" by (simp add: clause_label_def)
  with p \<open>p < length s\<close> show ?thesis by simp
qed

lemma visible_label: "\<not> py_space 26465"
  by (simp add: py_space_def)

lemma AList_update_set: "set (AList.update k v al) \<subseteq> insert (k, v) (set al)"
  by (induction al) auto

lemma parents_fold:
  "set (fold (\<lambda>p. AList.update (pc_start p, pc_end p) p) ps al) \<subseteq> set al \<union> (\<lambda>p. ((pc_start p, pc_end p), p)) ` set ps
   \<and> fst ` set al \<union> (\<lambda>p. (pc_start p, pc_end p)) ` set ps
     \<subseteq> fst ` set (fold (\<lambda>p. AList.update (pc_start p, pc_end p) p) ps al)"
proof (induction ps arbitrary: al)
  case Nil
  then show ?case by simp
next
  case (Cons p ps)
  let ?k = "(pc_start p, pc_end p)"
  from Cons.IH [of "AList.update ?k p al"] AList_update_set [of ?k p al] dom_update [of ?k p al]
  show ?case by auto
qed

lemma parents_by_range_ok:
  "set (map snd (parents_by_range ps)) \<subseteq> set ps
   \<and> (\<forall>p \<in> set ps. \<exists>q \<in> set (map snd (parents_by_range ps)). pc_start q = pc_start p \<and> pc_end q = pc_end p)"
proof -
  note F = parents_fold [of ps "[]", folded parents_by_range_def]
  have "\<exists>q \<in> set (map snd (parents_by_range ps)). pc_start q = pc_start p \<and> pc_end q = pc_end p"
    if "p \<in> set ps" for p
  proof -
    from F that have "(pc_start p, pc_end p) \<in> fst ` set (parents_by_range ps)" by auto
    then obtain q where q: "((pc_start p, pc_end p), q) \<in> set (parents_by_range ps)" by auto
    with F have "pc_start q = pc_start p \<and> pc_end q = pc_end p" by auto
    with q show ?thesis by (auto intro!: bexI [of _ "((pc_start p, pc_end p), q)"])
  qed
  moreover have "set (map snd (parents_by_range ps)) \<subseteq> set ps" using F by auto
  ultimately show ?thesis by blast
qed

lemma clause_parents_ok:
  assumes "block_contract b" and "\<forall>r \<in> set (parent_ranges ck x (filter (in_section x) cls)). 0 \<le> fst r"
  shows "clause_parents digest ck b cls x = Inr (map (\<lambda>(s, e, ids). parent_of digest ck b (clause_metadata b x ids) s e)
    (filter (\<lambda>(s, e, ids). \<not> blank (slice (db_content b) s e)) (parent_ranges ck x (filter (in_section x) cls))))"
  unfolding clause_parents_def
proof (rule res_map_Inr_map)
  fix r
  assume r: "r \<in> set (filter (\<lambda>(s, e, ids). \<not> blank (slice (db_content b) s e))
      (parent_ranges ck x (filter (in_section x) cls)))"
  obtain s e ids where r': "r = (s, e, ids)" by (cases r)
  with r assms(2) have "0 \<le> s" "slice (db_content b) s e \<noteq> []" by auto
  with make_parent_ok [OF assms(1)] show "(case r of (s, e, ids) \<Rightarrow> make_parent digest ck b (clause_metadata b x ids) s e) =
      Inr (case r of (s, e, ids) \<Rightarrow> parent_of digest ck b (clause_metadata b x ids) s e)"
    by (simp add: r')
qed

lemma clause_windows_ok:
  assumes "0 \<le> ck_overlap ck" "ck_overlap ck < ck_child ck" and "cl_start c < cl_end c"
  shows "\<exists>ws. clause_windows ck c = Inr ws
    \<and> (\<forall>w \<in> set ws. cl_start c \<le> fst w \<and> fst w < snd w \<and> snd w \<le> cl_end c \<and> snd w - fst w \<le> ck_child ck)
    \<and> (\<forall>i. cl_start c \<le> i \<and> i < cl_end c \<longrightarrow> (\<exists>w \<in> set ws. fst w \<le> i \<and> i < snd w))"
proof (cases "cl_end c - cl_start c \<le> ck_child ck")
  case True
  with assms(3) show ?thesis by (simp add: clause_windows_def)
next
  case False
  obtain ws where ws: "chunk_windows (cl_end c - cl_start c) (ck_child ck) (ck_overlap ck) = Inr ws"
    and a: "\<forall>w \<in> set ws. 0 \<le> fst w \<and> fst w < snd w \<and> snd w \<le> cl_end c - cl_start c \<and> snd w - fst w \<le> ck_child ck"
    and v: "\<forall>i. 0 \<le> i \<and> i < cl_end c - cl_start c \<longrightarrow> (\<exists>w \<in> set ws. fst w \<le> i \<and> i < snd w)"
    using chunk_windows_ok [OF assms(1,2), of "cl_end c - cl_start c"] by (elim exE conjE)
  let ?f = "\<lambda>w. (cl_start c + fst w, cl_start c + snd w)"
  have "\<exists>w \<in> set (map ?f ws). fst w \<le> i \<and> i < snd w" if "cl_start c \<le> i" "i < cl_end c" for i
  proof -
    from v [rule_format, of "i - cl_start c"] that obtain w where
      "w \<in> set ws" "fst w \<le> i - cl_start c" "i - cl_start c < snd w" by auto
    then show ?thesis by (intro bexI [of _ "?f w"]) auto
  qed
  moreover have "\<forall>w \<in> set (map ?f ws). cl_start c \<le> fst w \<and> fst w < snd w \<and> snd w \<le> cl_end c
      \<and> snd w - fst w \<le> ck_child ck"
    using a by auto
  ultimately show ?thesis using ws False by (intro exI [of _ "map ?f ws"]) (simp add: clause_windows_def)
qed


text \<open>The children of one clause, given a parent range that contains it.\<close>

definition clause_child ::
  "(json \<Rightarrow> pystr) \<Rightarrow> chunker \<Rightarrow> document_block \<Rightarrow> parent_chunk list \<Rightarrow> clause \<Rightarrow> int \<Rightarrow> int \<Rightarrow> child_chunk \<Rightarrow> bool" where
  "clause_child digest ck b ps c s e k \<longleftrightarrow> (\<exists>p \<in> set ps. \<exists>x. k = child_of digest ck b (clause_metadata b x [cl_id c]) (pc_id p) s e
     \<and> cl_start c \<le> s \<and> s < e \<and> e \<le> cl_end c \<and> e - s \<le> ck_child ck
     \<and> pc_start p \<le> cl_start c \<and> cl_end c \<le> pc_end p)"

lemma clause_children_ok:
  assumes ck: "0 \<le> ck_overlap ck" "ck_overlap ck < ck_child ck" and b: "block_contract b"
    and c: "0 \<le> cl_start c" "cl_start c < cl_end c" "cl_end c \<le> int (length (db_content b))"
    and p: "p \<in> set ps" "pc_start p \<le> cl_start c" "cl_end c \<le> pc_end p" and ids: "\<forall>p \<in> set ps. pc_id p \<noteq> []"
  shows "\<exists>ks. clause_children digest ck b ps x c = Inr ks
    \<and> (\<forall>k \<in> set ks. \<exists>s e. clause_child digest ck b ps c s e k)
    \<and> (\<forall>i. cl_start c \<le> i \<and> i < cl_end c \<longrightarrow>
        (\<exists>k \<in> set ks. \<exists>s e. clause_child digest ck b ps c s e k \<and> s \<le> i \<and> i < e))"
proof -
  let ?P = "\<lambda>p. pc_start p \<le> cl_start c \<and> cl_end c \<le> pc_end p"
  from parents_by_range_ok [of ps] p obtain q0 where
    "q0 \<in> set (map snd (parents_by_range ps))" "pc_start q0 = pc_start p" "pc_end q0 = pc_end p" by blast
  with p find_exists [of q0 "map snd (parents_by_range ps)" ?P] obtain q where
    q: "find ?P (map snd (parents_by_range ps)) = Some q" by auto
  from find_SomeD [OF q] parents_by_range_ok [of ps] have
    qs: "q \<in> set ps" "pc_start q \<le> cl_start c" "cl_end c \<le> pc_end q" by auto
  obtain ws where ws: "clause_windows ck c = Inr ws"
    and a: "\<forall>w \<in> set ws. cl_start c \<le> fst w \<and> fst w < snd w \<and> snd w \<le> cl_end c \<and> snd w - fst w \<le> ck_child ck"
    and v: "\<forall>i. cl_start c \<le> i \<and> i < cl_end c \<longrightarrow> (\<exists>w \<in> set ws. fst w \<le> i \<and> i < snd w)"
    using clause_windows_ok [OF ck c(2)] by (elim exE conjE)
  let ?k = "\<lambda>w. child_of digest ck b (clause_metadata b x [cl_id c]) (pc_id q) (fst w) (snd w)"
  have "make_child digest ck b (clause_metadata b x [cl_id c]) (pc_id q)
      (slice (db_content b) (fst w) (snd w)) (fst w) (snd w) = Inr (?k w)" if w: "w \<in> set ws" for w
  proof -
    from a w c have "0 \<le> fst w" "fst w < snd w" "snd w \<le> int (length (db_content b))" by auto
    then have "slice (db_content b) (fst w) (snd w) \<noteq> []"
      using length_slice [of "fst w" "snd w" "db_content b"] by auto
    with make_child_ok [OF b \<open>0 \<le> fst w\<close>] ids qs(1) show ?thesis by blast
  qed
  then have "clause_children digest ck b ps x c = Inr (map ?k ws)"
    by (simp add: clause_children_def q ws res_map_Inr_map)
  moreover have k: "clause_child digest ck b ps c (fst w) (snd w) (?k w)" if "w \<in> set ws" for w
    using that a qs unfolding clause_child_def by (intro bexI [OF _ qs(1)] exI [of _ x]) auto
  moreover have "\<exists>k \<in> set (map ?k ws). \<exists>s e. clause_child digest ck b ps c s e k \<and> s \<le> i \<and> i < e"
    if "cl_start c \<le> i" "i < cl_end c" for i
  proof -
    from v that obtain w where w: "w \<in> set ws" "fst w \<le> i" "i < snd w" by blast
    with k [OF w(1)] show ?thesis
      by (intro bexI [of _ "?k w"] exI [of _ "fst w"] exI [of _ "snd w"]) auto
  qed
  moreover have "\<exists>s e. clause_child digest ck b ps c s e k'" if "k' \<in> set (map ?k ws)" for k'
    using that k by auto
  ultimately show ?thesis by (intro exI [of _ "map ?k ws"] conjI allI ballI impI) (simp, blast+)
qed

lemma clause_child_metadata:
  "clause_child digest ck b ps c s e k \<Longrightarrow> map_of (cc_metadata k) (lit ''clause_ids'') = Some (JList [JStr (cl_id c)])"
  by (auto simp: clause_child_def clause_metadata_def update_conv')


text \<open>The parents of one section.\<close>

definition section_parents ::
  "(json \<Rightarrow> pystr) \<Rightarrow> chunker \<Rightarrow> document_block \<Rightarrow> clause list \<Rightarrow> section_span \<Rightarrow> parent_chunk list \<Rightarrow> bool" where
  "section_parents digest ck b cls x ps \<longleftrightarrow>
     (\<forall>p \<in> set ps. pc_id p \<noteq> [] \<and> pc_content p = slice (db_content b) (pc_start p) (pc_end p) \<and> \<not> blank (pc_content p))
     \<and> (\<forall>c \<in> set cls. in_section x c \<longrightarrow> (\<exists>p \<in> set ps. pc_start p \<le> cl_start c \<and> cl_end c \<le> pc_end p))
     \<and> (\<forall>i. se_start x \<le> i \<and> i < se_end x \<and> \<not> py_space (db_content b ! nat i) \<and>
          (\<forall>c \<in> set cls. in_section x c \<longrightarrow> i < cl_end c) \<longrightarrow> (\<exists>p \<in> set ps. pc_start p \<le> i \<and> i < pc_end p))"

lemma section_parents_exist:
  assumes b: "block_contract b" and x: "0 \<le> se_start x" "se_end x \<le> int (length (db_content b))"
    and sorted: "clauses_sorted (filter (in_section x) cls)"
    and cls: "\<forall>c \<in> set cls. 0 \<le> cl_start c \<and> cl_start c < cl_end c \<and> \<not> py_space (db_content b ! nat (cl_start c))"
  shows "\<exists>ps. clause_parents digest ck b cls x = Inr ps \<and> section_parents digest ck b cls x ps"
proof -
  let ?s = "db_content b"
  let ?cs = "filter (in_section x) cls"
  let ?R = "set (parent_ranges ck x ?cs)"
  let ?p = "\<lambda>r. parent_of digest ck b (clause_metadata b x (snd (snd r))) (fst r) (fst (snd r))"
  have "\<forall>c \<in> set ?cs. in_section x c \<and> cl_start c < cl_end c" using cls by auto
  note R = parent_ranges_ok [OF x(1) sorted this, of ck]
  note R0 = R [THEN conjunct1] and R1 = R [THEN conjunct2, THEN conjunct1] and R2 = R [THEN conjunct2, THEN conjunct2]
  obtain ps where ps: "clause_parents digest ck b cls x = Inr ps"
    and mem: "set ps = ?p ` {r \<in> ?R. \<not> blank (slice ?s (fst r) (fst (snd r)))}"
    using clause_parents_ok [OF b R0, of digest] by (auto simp: split_def)
  have vis: "\<exists>p \<in> set ps. pc_start p = fst r \<and> pc_end p = fst (snd r)"
    if "r \<in> ?R" "fst r \<le> i" "i < fst (snd r)" "i < int (length ?s)" "\<not> py_space (?s ! nat i)" for r i
  proof -
    have "\<not> blank (slice ?s (fst r) (fst (snd r)))" using R0 that by (intro slice_not_blank [of _ i]) auto
    with that(1) mem show ?thesis by (intro bexI [of _ "?p r"]) auto
  qed
  have "\<exists>p \<in> set ps. pc_start p \<le> cl_start c \<and> cl_end c \<le> pc_end p" if c: "c \<in> set cls" "in_section x c" for c
  proof -
    from R1 c obtain r where r: "r \<in> ?R" "fst r \<le> cl_start c" "cl_end c \<le> fst (snd r)" by auto
    have "cl_start c < fst (snd r)" "cl_start c < int (length ?s)" "\<not> py_space (?s ! nat (cl_start c))"
      using r c cls x(2) by (auto simp: in_section_def)
    from vis [OF r(1,2) this] obtain p where "p \<in> set ps" "pc_start p = fst r" "pc_end p = fst (snd r)"
      by blast
    with r show ?thesis by (intro bexI [of _ p]) simp_all
  qed
  moreover have "\<exists>p \<in> set ps. pc_start p \<le> i \<and> i < pc_end p"
    if i: "se_start x \<le> i" "i < se_end x" "\<not> py_space (?s ! nat i)" "\<forall>c \<in> set cls. in_section x c \<longrightarrow> i < cl_end c" for i
  proof -
    from R2 obtain r where r: "r \<in> ?R" "fst r = se_start x"
      "if ?cs = [] then fst (snd r) = se_end x else cl_end (hd ?cs) \<le> fst (snd r)" by blast
    have "?cs \<noteq> [] \<Longrightarrow> hd ?cs \<in> set ?cs" by (rule hd_in_set)
    then have "i < fst (snd r)" using r(3) i by (auto split: if_splits)
    moreover have "fst r \<le> i" "i < int (length ?s)" using r(2) i x(2) by auto
    ultimately obtain p where "p \<in> set ps" "pc_start p = fst r" "pc_end p = fst (snd r)"
      using vis [OF r(1) _ _ _ i(3)] by blast
    with \<open>i < fst (snd r)\<close> \<open>fst r \<le> i\<close> show ?thesis by (intro bexI [of _ p]) simp_all
  qed
  moreover have "\<forall>p \<in> set ps. pc_id p \<noteq> [] \<and> pc_content p = slice ?s (pc_start p) (pc_end p) \<and> \<not> blank (pc_content p)"
    unfolding mem by (auto simp: parent_of_def Let_def stable_id_ne)
  ultimately show ?thesis using ps unfolding section_parents_def by blast
qed


text \<open>A position behind the first clause of its section lies in a clause of that section.\<close>

lemma last_clause_covers:
  assumes T: "tiles len secs" and nth: "\<forall>j < length cls. clause_in s secs j (cls ! j)"
    and l: "length cls = length (clause_markers s)"
    and x: "x \<in> set secs" "se_start x \<le> i" "i < se_end x"
    and ex: "\<exists>c \<in> set cls. in_section x c \<and> cl_start c \<le> i"
  shows "\<exists>c \<in> set cls. in_section x c \<and> cl_start c \<le> i \<and> i < cl_end c"
proof -
  let ?J = "{j. j < length cls \<and> in_section x (cls ! j) \<and> cl_start (cls ! j) \<le> i}"
  let ?j = "Max ?J"
  have fin: "finite ?J" by simp
  have "?J \<noteq> {}" using ex by (auto simp: in_set_conv_nth)
  from Max_in [OF fin this] have j: "?j < length cls" "in_section x (cls ! ?j)" "cl_start (cls ! ?j) \<le> i" by auto
  have unique: "y = x" if "y \<in> set secs" "se_start y \<le> m" "m < se_end y" "se_start x \<le> m" "m < se_end x" for y m
    using T x(1) that unfolding tiles_def by blast
  from nth j(1) obtain y where y: "y \<in> set secs" "in_section y (cls ! ?j)" "cl_start (cls ! ?j) < se_end y"
    "cl_end (cls ! ?j) = min (if Suc ?j < length (clause_markers s)
       then fst (clause_markers s ! Suc ?j) else se_end y) (se_end y)"
    unfolding clause_in_def by blast
  have "y = x"
    using unique [OF y(1), of "cl_start (cls ! ?j)"] y j x by (auto simp: in_section_def)
  have "i < fst (clause_markers s ! Suc ?j)" if suc: "Suc ?j < length (clause_markers s)"
  proof (rule ccontr)
    assume "\<not> i < fst (clause_markers s ! Suc ?j)"
    have "clause_in s secs (Suc ?j) (cls ! Suc ?j)" using nth suc l by simp
    then obtain z where z: "z \<in> set secs" "in_section z (cls ! Suc ?j)"
      "cl_start (cls ! Suc ?j) < se_end z" "cl_start (cls ! Suc ?j) = fst (clause_markers s ! Suc ?j)"
      unfolding clause_in_def by blast
    have "cl_start (cls ! ?j) = fst (clause_markers s ! ?j)" using nth j(1) unfolding clause_in_def by blast
    then have "cl_start (cls ! ?j) < cl_start (cls ! Suc ?j)"
      using markers_sorted [of s] suc z(4) by (simp add: sorted_wrt_iff_nth_less)
    then have "z = x"
      using unique [OF z(1), of "cl_start (cls ! Suc ?j)"] z j x \<open>\<not> i < _\<close> by (auto simp: in_section_def)
    with z suc l \<open>\<not> i < _\<close> have "Suc ?j \<in> ?J" by simp
    from Max_ge [OF fin this] show False by simp
  qed
  with y(4) \<open>y = x\<close> x j show ?thesis by (intro bexI [of _ "cls ! ?j"]) auto
qed

text \<open>
  C27: Clause-aware chunking of a valid block with a validated chunker never raises: the two cases the
  code treats as impossible, a marker outside every section and a clause without a parent, are
  impossible. The clauses are the markers of the content in order, they do not overlap, and every
  position of a clause lies in a child. A child never crosses the border of its clause, carries that
  clause's identifier, is no longer than the child size and lies inside the parent it names; every
  visible character of the block, in a clause or not, lies in a parent.
\<close>

theorem clause_chunking_complete:
  assumes "new_chunker parent_size child_size overlap = Inr ck" and "block_contract b"
  shows "\<exists>r cls. clause_chunk_block digest ck b = Inr r
    \<and> clauses (db_content b) (sections (db_content b)) = Inr cls
    \<and> map (\<lambda>c. (cl_start c, cl_id c)) cls = clause_markers (db_content b) \<and> clauses_sorted cls
    \<and> (\<forall>c \<in> set cls. \<forall>i. cl_start c \<le> i \<and> i < cl_end c \<longrightarrow>
         (\<exists>k \<in> set (cr_children r). \<exists>s e. cc_start k = Some s \<and> cc_end k = Some e \<and> s \<le> i \<and> i < e))
    \<and> (\<forall>k \<in> set (cr_children r). \<exists>c \<in> set cls. \<exists>p \<in> set (cr_parents r). \<exists>s e.
         cc_start k = Some s \<and> cc_end k = Some e \<and> cc_content k = slice (db_content b) s e
         \<and> cl_start c \<le> s \<and> s < e \<and> e \<le> cl_end c \<and> e - s \<le> child_size
         \<and> map_of (cc_metadata k) (lit ''clause_ids'') = Some (JList [JStr (cl_id c)])
         \<and> cc_parent_id k = pc_id p \<and> pc_start p \<le> cl_start c \<and> cl_end c \<le> pc_end p)
    \<and> (\<forall>p \<in> set (cr_parents r). pc_content p = slice (db_content b) (pc_start p) (pc_end p) \<and> \<not> blank (pc_content p))
    \<and> (\<forall>i. 0 \<le> i \<and> i < int (length (db_content b)) \<and> \<not> py_space (db_content b ! nat i) \<longrightarrow>
         (\<exists>p \<in> set (cr_parents r). pc_start p \<le> i \<and> i < pc_end p))"
proof (cases "blank (db_content b)")
  case True
  then have all: "py_space (db_content b ! nat i)" if "0 \<le> i" "i < int (length (db_content b))" for i
    using that by (auto simp: blank_iff_all_space)
  have "clause_markers (db_content b) = []"
    using all marker_visible markers_within visible_label by (metis list.set_intros(1) neq_Nil_conv)
  with True all show ?thesis by (auto simp: clause_chunk_block_def clauses_def clauses_sorted_def)
next
  case False
  let ?s = "db_content b" and ?secs = "sections (db_content b)"
  have ck: "0 \<le> ck_overlap ck" "ck_overlap ck < ck_child ck" "ck_child ck = child_size"
    using assms(1) by (auto simp: new_chunker_def split: if_splits)
  have T: "tiles (int (length ?s)) ?secs" using False by (intro sections_tile) auto
  then have secs: "\<forall>x \<in> set ?secs. 0 \<le> se_start x \<and> se_end x \<le> int (length ?s)"
    by (auto simp: tiles_def)
  obtain cls where cls: "clauses ?s ?secs = Inr cls" "length cls = length (clause_markers ?s)"
    and nth: "\<forall>i < length cls. clause_in ?s ?secs i (cls ! i)"
    using clauses_ok [OF T] by (elim exE conjE)
  have markers: "map (\<lambda>c. (cl_start c, cl_id c)) cls = clause_markers ?s"
    using cls(2) nth by (intro nth_equalityI) (auto simp: clause_in_def)
  have member: "\<exists>x \<in> set ?secs. in_section x c \<and> cl_start c < cl_end c \<and> cl_start c < se_end x" if "c \<in> set cls" for c
    using that nth by (auto simp: in_set_conv_nth clause_in_def)
  have wf: "0 \<le> cl_start c \<and> cl_start c < cl_end c \<and> cl_end c \<le> int (length ?s) \<and> \<not> py_space (?s ! nat (cl_start c))"
    if c: "c \<in> set cls" for c
  proof -
    from member [OF c] secs have "0 \<le> cl_start c" "cl_start c < cl_end c" "cl_end c \<le> int (length ?s)"
      by (auto simp: in_section_def)
    moreover have "(cl_start c, cl_id c) \<in> set (clause_markers ?s)" unfolding markers [symmetric] using c by auto
    ultimately show ?thesis using marker_visible visible_label by fastforce
  qed
  have sp: "\<exists>ps. clause_parents digest ck b cls x = Inr ps \<and> section_parents digest ck b cls x ps"
    if "x \<in> set ?secs" for x
    using secs that wf by (intro section_parents_exist assms(2) clauses_are_sorted [OF nth cls(2)]) auto
  have "\<exists>pss. res_map (clause_parents digest ck b cls) ?secs = Inr pss
      \<and> (\<forall>ps \<in> set pss. \<exists>x \<in> set ?secs. section_parents digest ck b cls x ps)
      \<and> (\<forall>x \<in> set ?secs. \<exists>ps \<in> set pss. section_parents digest ck b cls x ps)"
    by (rule res_map_exists, erule sp)
  then obtain pss where pss: "res_map (clause_parents digest ck b cls) ?secs = Inr pss"
    and pss1: "\<forall>ps \<in> set pss. \<exists>x \<in> set ?secs. section_parents digest ck b cls x ps"
    and pss2: "\<forall>x \<in> set ?secs. \<exists>ps \<in> set pss. section_parents digest ck b cls x ps" by (elim exE conjE)
  let ?ps = "concat pss"
  have parents: "\<forall>p \<in> set ?ps. pc_id p \<noteq> [] \<and> pc_content p = slice ?s (pc_start p) (pc_end p) \<and> \<not> blank (pc_content p)"
    using pss1 by (fastforce simp: section_parents_def)
  define kids where "kids c ks \<longleftrightarrow> (\<forall>k \<in> set ks. \<exists>s e. clause_child digest ck b ?ps c s e k)
    \<and> (\<forall>i. cl_start c \<le> i \<and> i < cl_end c \<longrightarrow>
        (\<exists>k \<in> set ks. \<exists>s e. clause_child digest ck b ?ps c s e k \<and> s \<le> i \<and> i < e))" for c ks
  define skids where "skids x kss \<longleftrightarrow> (\<forall>ks \<in> set kss. \<exists>c \<in> set (filter (in_section x) cls). kids c ks)
    \<and> (\<forall>c \<in> set (filter (in_section x) cls). \<exists>ks \<in> set kss. kids c ks)" for x kss
  have kid: "\<exists>ks. clause_children digest ck b ?ps x c = Inr ks \<and> kids c ks"
    if x: "x \<in> set ?secs" and c: "c \<in> set (filter (in_section x) cls)" for x c
  proof -
    from c have c': "c \<in> set cls" "in_section x c" by auto
    from pss2 x c' obtain p where "p \<in> set ?ps" "pc_start p \<le> cl_start c" "cl_end c \<le> pc_end p"
      unfolding section_parents_def by fastforce
    with clause_children_ok [OF ck(1,2) assms(2), of c p ?ps digest x] wf [OF c'(1)] parents
    show ?thesis unfolding kids_def by blast
  qed
  have skid: "\<exists>kss. res_map (clause_children digest ck b ?ps x) (filter (in_section x) cls) = Inr kss \<and> skids x kss"
    if "x \<in> set ?secs" for x
    unfolding skids_def by (rule res_map_exists, erule kid [OF that])
  have "\<exists>kss. res_map (\<lambda>x. res_map (clause_children digest ck b ?ps x) (filter (in_section x) cls)) ?secs = Inr kss
      \<and> (\<forall>k \<in> set kss. \<exists>x \<in> set ?secs. skids x k) \<and> (\<forall>x \<in> set ?secs. \<exists>k \<in> set kss. skids x k)"
    by (rule res_map_exists, erule skid)
  then obtain kss where kss: "res_map (\<lambda>x. res_map (clause_children digest ck b ?ps x) (filter (in_section x) cls)) ?secs = Inr kss"
    and kss1: "\<forall>k \<in> set kss. \<exists>x \<in> set ?secs. skids x k" and kss2: "\<forall>x \<in> set ?secs. \<exists>k \<in> set kss. skids x k"
    by (elim exE conjE)
  let ?r = "\<lparr>cr_parents = ?ps, cr_children = concat (map concat kss)\<rparr>"
  have r: "clause_chunk_block digest ck b = Inr ?r"
    using False cls(1) pss kss by (simp add: clause_chunk_block_def Let_def)
  have down: "\<exists>c \<in> set cls. \<exists>s e. clause_child digest ck b ?ps c s e k" if "k \<in> set (cr_children ?r)" for k
  proof -
    from that obtain ks kk where "kk \<in> set kss" "ks \<in> set kk" "k \<in> set ks" by auto
    with kss1 obtain x where "skids x kk" by blast
    with \<open>ks \<in> set kk\<close> obtain c where "c \<in> set cls" "kids c ks" unfolding skids_def by auto
    with \<open>k \<in> set ks\<close> show ?thesis unfolding kids_def by blast
  qed
  have up: "\<exists>k \<in> set (cr_children ?r). \<exists>s e. clause_child digest ck b ?ps c s e k \<and> s \<le> i \<and> i < e"
    if c: "c \<in> set cls" "cl_start c \<le> i" "i < cl_end c" for c i
  proof -
    from member [OF c(1)] obtain x where x: "x \<in> set ?secs" "in_section x c" by blast
    with kss2 obtain kk where kk: "kk \<in> set kss" "skids x kk" by blast
    with x c(1) obtain ks where ks: "ks \<in> set kk" "kids c ks" unfolding skids_def by auto
    with c obtain k s e where "k \<in> set ks" "clause_child digest ck b ?ps c s e k" "s \<le> i" "i < e"
      unfolding kids_def by blast
    moreover have "k \<in> set (cr_children ?r)" using \<open>k \<in> set ks\<close> ks(1) kk(1) by auto
    ultimately show ?thesis by blast
  qed
  have visible: "\<exists>p \<in> set ?ps. pc_start p \<le> i \<and> i < pc_end p"
    if i: "0 \<le> i" "i < int (length ?s)" "\<not> py_space (?s ! nat i)" for i
  proof -
    from T i obtain x where x: "x \<in> set ?secs" "se_start x \<le> i" "i < se_end x" unfolding tiles_def by blast
    from pss2 x obtain ps where "ps \<in> set pss" "section_parents digest ck b cls x ps" by blast
    then have ps: "set ps \<subseteq> set ?ps" "section_parents digest ck b cls x ps" by auto
    show ?thesis
    proof (cases "\<exists>c \<in> set cls. in_section x c \<and> cl_start c \<le> i")
      case False
      then have "\<forall>c \<in> set cls. in_section x c \<longrightarrow> i < cl_end c" using wf by force
      with ps x i show ?thesis unfolding section_parents_def by blast
    next
      case True
      from last_clause_covers [OF T nth cls(2) x True] obtain c where
        c: "c \<in> set cls" "in_section x c" "cl_start c \<le> i" "i < cl_end c" by blast
      with ps obtain p where "p \<in> set ?ps" "pc_start p \<le> cl_start c" "cl_end c \<le> pc_end p"
        unfolding section_parents_def by blast
      with c show ?thesis by (intro bexI [of _ p]) auto
    qed
  qed
  have covered: "\<forall>c \<in> set cls. \<forall>i. cl_start c \<le> i \<and> i < cl_end c \<longrightarrow>
      (\<exists>k \<in> set (cr_children ?r). \<exists>s e. cc_start k = Some s \<and> cc_end k = Some e \<and> s \<le> i \<and> i < e)"
  proof (intro ballI allI impI)
    fix c i
    assume that: "c \<in> set cls" "cl_start c \<le> i \<and> i < cl_end c"
    from up [OF that(1)] that(2) obtain k s e where k: "k \<in> set (cr_children ?r)" "clause_child digest ck b ?ps c s e k"
      "s \<le> i" "i < e" by blast
    from k(2) have "cc_start k = Some s" "cc_end k = Some e" by (auto simp: clause_child_def)
    with k show "\<exists>k \<in> set (cr_children ?r). \<exists>s e. cc_start k = Some s \<and> cc_end k = Some e \<and> s \<le> i \<and> i < e"
      by blast
  qed
  have "\<exists>c \<in> set cls. \<exists>p \<in> set (cr_parents ?r). \<exists>s e.
         cc_start k = Some s \<and> cc_end k = Some e \<and> cc_content k = slice ?s s e
         \<and> cl_start c \<le> s \<and> s < e \<and> e \<le> cl_end c \<and> e - s \<le> child_size
         \<and> map_of (cc_metadata k) (lit ''clause_ids'') = Some (JList [JStr (cl_id c)])
         \<and> cc_parent_id k = pc_id p \<and> pc_start p \<le> cl_start c \<and> cl_end c \<le> pc_end p"
    if k: "k \<in> set (cr_children ?r)" for k
  proof -
    from down [OF k] obtain c s e where c: "c \<in> set cls" "clause_child digest ck b ?ps c s e k" by blast
    note m = clause_child_metadata [OF c(2)]
    from c(2) obtain p x where p: "p \<in> set ?ps" "k = child_of digest ck b (clause_metadata b x [cl_id c]) (pc_id p) s e"
      "cl_start c \<le> s" "s < e" "e \<le> cl_end c" "e - s \<le> ck_child ck" "pc_start p \<le> cl_start c" "cl_end c \<le> pc_end p"
      unfolding clause_child_def by blast
    with m ck(3) show ?thesis
      by (intro bexI [OF _ c(1)] bexI [of _ p] exI [of _ s] exI [of _ e]) simp_all
  qed
  then have kids_ok: "\<forall>k \<in> set (cr_children ?r). \<exists>c \<in> set cls. \<exists>p \<in> set (cr_parents ?r). \<exists>s e.
         cc_start k = Some s \<and> cc_end k = Some e \<and> cc_content k = slice ?s s e
         \<and> cl_start c \<le> s \<and> s < e \<and> e \<le> cl_end c \<and> e - s \<le> child_size
         \<and> map_of (cc_metadata k) (lit ''clause_ids'') = Some (JList [JStr (cl_id c)])
         \<and> cc_parent_id k = pc_id p \<and> pc_start p \<le> cl_start c \<and> cl_end c \<le> pc_end p"
    by (rule ballI)
  have sorted: "clauses_sorted cls" using clauses_are_sorted [OF nth cls(2), of "\<lambda>_. True"] by simp
  have parents_ok: "\<forall>p \<in> set (cr_parents ?r). pc_content p = slice ?s (pc_start p) (pc_end p) \<and> \<not> blank (pc_content p)"
  proof -
    have "set (cr_parents ?r) = set ?ps" by simp
    with parents show ?thesis by blast
  qed
  have visible_ok: "\<forall>i. 0 \<le> i \<and> i < int (length ?s) \<and> \<not> py_space (?s ! nat i) \<longrightarrow>
      (\<exists>p \<in> set (cr_parents ?r). pc_start p \<le> i \<and> i < pc_end p)"
    using visible by simp
  show ?thesis
    by (intro exI [of _ ?r] exI [of _ cls] conjI r cls(1) markers sorted covered kids_ok parents_ok visible_ok)
qed

subsection \<open>A concrete clause\<close>

definition demo_clause_text :: pystr where
  "demo_clause_text = [26465, 27454, 32, 73, 68, 65306, 65, 10, 32, 32, 32, 32, 32, 32, 32, 32, 97]"

definition demo_block :: document_block where
  "demo_block = \<lparr>db_block_id = [98], db_document_id = [100], db_document_version = [49],
     db_content = [97, 98, 32, 99], db_block_index = 0, db_page_number = Some 1, db_source = None,
     db_file_name = None, db_file_suffix = None, db_mime_type = None, db_file_sha256 = None,
     db_content_sha256 = None, db_parser_name = None, db_section = None, db_metadata = []\<rparr>"

definition demo_clause_block :: document_block where
  "demo_clause_block = demo_block\<lparr>db_content := demo_clause_text\<rparr>"

definition demo_chunker :: chunker where
  "demo_chunker = \<lparr>ck_parent = 20, ck_child = 8, ck_overlap = 0\<rparr>"

lemma demo_chunker_new: "new_chunker 20 8 0 = Inr demo_chunker"
  by (simp add: new_chunker_def demo_chunker_def)

lemma demo_clause_contract: "block_contract demo_clause_block"
  by (simp add: block_contract_def demo_clause_block_def demo_block_def page_ok_def)

lemma demo_line_starts: "line_starts demo_clause_text = [0, 8]"
  by (simp add: line_starts_def demo_clause_text_def upt_rec)

lemma demo_matches:
  "clause_at demo_clause_text = Some [65]" "clause_at (drop 8 demo_clause_text) = None"
  "heading_at demo_clause_text = None" "heading_at (drop 8 demo_clause_text) = None"
  by (simp_all add: clause_at_def heading_at_def demo_clause_text_def clause_label_def clause_char_def
      clause_upper_def py_space_def Let_def)

lemma demo_clause_markers: "clause_markers demo_clause_text = [(0, [65])]"
  by (simp add: clause_markers_def List.map_filter_def demo_line_starts demo_matches)

lemma demo_clause_sections: "sections demo_clause_text = [\<lparr>se_start = 0, se_end = 17, se_path = [], se_heading = []\<rparr>]"
proof -
  have "headings demo_clause_text = []"
    by (simp add: headings_def List.map_filter_def demo_line_starts demo_matches)
  then show ?thesis by (simp add: sections_def demo_clause_text_def clause_label_def)
qed

lemma demo_clauses: "clauses demo_clause_text (sections demo_clause_text) =
    Inr [\<lparr>cl_id = [65], cl_start = 0, cl_end = 17\<rparr>]"
  by (simp add: clauses_def Let_def demo_clause_markers demo_clause_sections)

theorem clause_chunking_complete_witness:
  "\<exists>r. clause_chunk_block (\<lambda>v. []) demo_chunker demo_clause_block = Inr r
     \<and> (\<exists>k \<in> set (cr_children r). map_of (cc_metadata k) (lit ''clause_ids'') = Some (JList [JStr [65]]))"
proof -
  have t: "db_content demo_clause_block = demo_clause_text" by (simp add: demo_clause_block_def)
  from clause_chunking_complete [OF demo_chunker_new demo_clause_contract, of "\<lambda>v. []", unfolded t demo_clauses]
  obtain r cls where r: "clause_chunk_block (\<lambda>v. []) demo_chunker demo_clause_block = Inr r"
    and cls: "Inr [\<lparr>cl_id = [65], cl_start = 0, cl_end = 17\<rparr>] = (Inr cls :: chunk_error + clause list)"
    and cov: "\<forall>c \<in> set cls. \<forall>i. cl_start c \<le> i \<and> i < cl_end c \<longrightarrow>
         (\<exists>k \<in> set (cr_children r). \<exists>s e. cc_start k = Some s \<and> cc_end k = Some e \<and> s \<le> i \<and> i < e)"
    and kids: "\<forall>k \<in> set (cr_children r). \<exists>c \<in> set cls. \<exists>p \<in> set (cr_parents r). \<exists>s e.
         cc_start k = Some s \<and> cc_end k = Some e \<and> cc_content k = slice demo_clause_text s e
         \<and> cl_start c \<le> s \<and> s < e \<and> e \<le> cl_end c \<and> e - s \<le> 8
         \<and> map_of (cc_metadata k) (lit ''clause_ids'') = Some (JList [JStr (cl_id c)])
         \<and> cc_parent_id k = pc_id p \<and> pc_start p \<le> cl_start c \<and> cl_end c \<le> pc_end p"
    by (elim exE conjE)
  from cls have c: "cls = [\<lparr>cl_id = [65], cl_start = 0, cl_end = 17\<rparr>]" by simp
  from cov [rule_format, of _ 0] c obtain k where k: "k \<in> set (cr_children r)" by auto
  with kids have "\<exists>c \<in> set cls. map_of (cc_metadata k) (lit ''clause_ids'') = Some (JList [JStr (cl_id c)])"
    by blast
  with c have "map_of (cc_metadata k) (lit ''clause_ids'') = Some (JList [JStr [65]])" by simp
  with r k show ?thesis by blast
qed

text \<open>
  Unlike the plain chunker this one does not drop blank windows: the second child of an overlong
  clause with a run of white space is blank, which the contract of a retrieval candidate refuses.
\<close>

lemma clause_child_blank:
  "\<exists>r. clause_chunk_block (\<lambda>v. []) demo_chunker demo_clause_block = Inr r
     \<and> (\<exists>k \<in> set (cr_children r). cc_content k = [32, 32, 32, 32, 32, 32, 32, 32] \<and> blank (cc_content k))"
proof -
  let ?c = "\<lparr>cl_id = [65], cl_start = 0, cl_end = 17\<rparr>"
  let ?x = "\<lparr>se_start = 0, se_end = 17, se_path = [], se_heading = []\<rparr>"
  have t: "db_content demo_clause_block = demo_clause_text" by (simp add: demo_clause_block_def)
  have w: "windows 17 8 0 = Some [(0, 8), (8, 16), (16, 17)]"
    by (simp add: windows_closed window_count_def window_at_def upt_rec)
  have nb: "\<not> blank demo_clause_text" by (simp add: demo_clause_text_def py_space_def)
  have in_x: "in_section ?x ?c" by (simp add: in_section_def)
  have full: "slice demo_clause_text 0 17 = demo_clause_text" by (simp add: slice_def demo_clause_text_def)
  have rg: "parent_ranges demo_chunker ?x [?c] = [(0, 17, [[65]])]" by (simp add: parent_ranges_def)
  let ?p = "parent_of (\<lambda>v. []) demo_chunker demo_clause_block (clause_metadata demo_clause_block ?x [[65]]) 0 17"
  have p: "clause_parents (\<lambda>v. []) demo_chunker demo_clause_block [?c] ?x = Inr [?p]"
    using clause_parents_ok [OF demo_clause_contract, of demo_chunker ?x "[?c]"] by (simp add: rg in_x t full nb)
  let ?k = "\<lambda>s e. child_of (\<lambda>v. []) demo_chunker demo_clause_block
      (clause_metadata demo_clause_block ?x [[65]]) (pc_id ?p) s e"
  have mk: "make_child (\<lambda>v. []) demo_chunker demo_clause_block (clause_metadata demo_clause_block ?x [[65]]) (pc_id ?p)
      (slice demo_clause_text s e) s e = Inr (?k s e)" if "(s, e) \<in> {(0, 8), (8, 16), (16, 17)}" for s e
  proof -
    have "slice demo_clause_text s e \<noteq> []" "0 \<le> s" using that by (auto simp: slice_def demo_clause_text_def)
    moreover have "pc_id ?p \<noteq> []" by (simp add: parent_of_def Let_def stable_id_ne)
    ultimately show ?thesis using make_child_ok [OF demo_clause_contract] t by metis
  qed
  have cw: "clause_windows demo_chunker ?c = Inr [(0, 8), (8, 16), (16, 17)]"
    by (simp add: clause_windows_def demo_chunker_def chunk_windows_def w)
  have "map snd (parents_by_range [?p]) = [?p]" by (simp add: parents_by_range_def)
  then have f: "find (\<lambda>p. pc_start p \<le> cl_start ?c \<and> cl_end ?c \<le> pc_end p) (map snd (parents_by_range [?p])) = Some ?p"
    by simp
  have "res_map (\<lambda>w. make_child (\<lambda>v. []) demo_chunker demo_clause_block
      (clause_metadata demo_clause_block ?x [[65]]) (pc_id ?p) (slice demo_clause_text (fst w) (snd w)) (fst w) (snd w))
      [(0, 8), (8, 16), (16, 17)] = Inr (map (\<lambda>w. ?k (fst w) (snd w)) [(0, 8), (8, 16), (16, 17)])"
    by (rule res_map_Inr_map) (use mk in auto)
  then have "clause_children (\<lambda>v. []) demo_chunker demo_clause_block [?p] ?x ?c = Inr [?k 0 8, ?k 8 16, ?k 16 17]"
    unfolding clause_children_def f option.case cw t by simp
  then have "clause_chunk_block (\<lambda>v. []) demo_chunker demo_clause_block =
      Inr \<lparr>cr_parents = [?p], cr_children = [?k 0 8, ?k 8 16, ?k 16 17]\<rparr>"
    using p by (simp add: clause_chunk_block_def t nb Let_def demo_clauses [unfolded demo_clause_sections] demo_clause_sections in_x)
  moreover have "cc_content (?k 8 16) = [32, 32, 32, 32, 32, 32, 32, 32]"
    by (simp add: t slice_def demo_clause_text_def)
  moreover have "blank ([32, 32, 32, 32, 32, 32, 32, 32])" by (simp add: py_space_def blank_iff_all_space)
  ultimately show ?thesis by simp
qed
end
