(* ===== verification/DomainSkills.thy ===== *)
theory DomainSkills
  imports ToolCalling
begin

section \<open>The single-domain skills\<close>

text \<open>
  \<^verbatim>\<open>skills/native_runtime.py\<close>, \<^verbatim>\<open>skills/enterprise_data_analysis.py\<close> and
  \<^verbatim>\<open>skills/enterprise_knowledge_qa.py\<close>: the two executors behind a skill and the two skills, as
  values of the type \<open>skill\<close> of the registry. The two classes have the same shape, so their steps are
  written once, over the definition of the skill; what differs is a parameter. Trace spans are left out.
\<close>

subsection \<open>Executors\<close>

text \<open>\<open>te_memory\<close> is missing when the executor has no \<^verbatim>\<open>execute_with_memory\<close>.\<close>

record 'w tool_executor =
  te_execute :: "pystr \<Rightarrow> router_decision \<Rightarrow> security_context option \<Rightarrow> 'w
    \<Rightarrow> tool_calling_result flow_result \<times> 'w"
  te_memory :: "(pystr \<Rightarrow> router_decision \<Rightarrow> pystr \<Rightarrow> security_context option \<Rightarrow> 'w
    \<Rightarrow> tool_calling_result flow_result \<times> 'w) option"

definition native_executor :: "'w tool_runtime \<Rightarrow> 'w tool_executor" where
  "native_executor T =
     \<lparr>te_execute = (\<lambda>query d sec w. case run_native_tool_calling T query d None sec w of (out, ev, w) \<Rightarrow> (out, w)),
      te_memory = Some (\<lambda>query d m sec w.
        case run_native_tool_calling T query d (Some m) sec w of (out, ev, w) \<Rightarrow> (out, w))\<rparr>"

definition preselected_failure :: "request_route \<Rightarrow> pystr \<Rightarrow> pystr option \<Rightarrow> tool_calling_result flow_result" where
  "preselected_failure route code tool =
     tool_failed route code tool (if tool \<noteq> None then Some (lit ''server_preselected_tool'') else None)
       (if tool \<noteq> None then 1 else 0) None"

definition preselected_tool ::
  "'w agent_tool \<Rightarrow> 'w agent_tool \<Rightarrow> router_decision \<Rightarrow> (pystr \<times> pystr \<times> 'w agent_tool) option" where
  "preselected_tool knowledge data d = (case (rd_route d, rd_knowledge d, rd_data d) of
       (KnowledgeRoute, Some query, _) \<Rightarrow> Some (knowledge_tool_name, query, knowledge)
     | (DataRoute, _, Some query) \<Rightarrow> Some (data_tool_name, query, data)
     | _ \<Rightarrow> None)"

text \<open>The tools of the application have a traced entry point, which is taken also without a recorder.\<close>

definition preselected_execute ::
  "'w agent_tool \<Rightarrow> 'w agent_tool \<Rightarrow> pystr \<Rightarrow> router_decision \<Rightarrow> security_context option \<Rightarrow> 'w
     \<Rightarrow> tool_calling_result flow_result \<times> 'w" where
  "preselected_execute knowledge data user_query d sec w =
     (let route = rd_route d in
      if blank user_query then (preselected_failure route (lit ''tool_calling_query_invalid'') None, w)
      else (case preselected_tool knowledge data d of
          None \<Rightarrow> (preselected_failure route (lit ''tool_calling_route_invalid'') None, w)
        | Some (name, query, tool) \<Rightarrow>
            (case run_tool True tool query sec w of
               (CallCancelled, w) \<Rightarrow> (FlowCancelled, w)
             | (CallRaised, w) \<Rightarrow>
                 (preselected_failure route (lit ''agent_tool_execution_failed'') (Some name), w)
             | (CallValue r, w) \<Rightarrow>
                 if \<not> atr_succeeded r
                 then (preselected_failure route
                   (code_or (atr_error r) (lit ''agent_tool_execution_failed'')) (Some name), w)
                 else (new_tool_calling_result
                   \<lparr>tc_status = ToolCompleted, tc_route = route, tc_tool = Some name,
                    tc_call_id = Some (lit ''server_preselected_tool''), tc_answer = atr_answer r,
                    tc_citations = atr_citations r, tc_steps = 2, tc_error = None, tc_http = None\<rparr>, w))))"

definition preselected_with_memory ::
  "'w agent_tool \<Rightarrow> 'w agent_tool \<Rightarrow> pystr \<Rightarrow> router_decision \<Rightarrow> pystr \<Rightarrow> security_context option \<Rightarrow> 'w
     \<Rightarrow> tool_calling_result flow_result \<times> 'w" where
  "preselected_with_memory knowledge data user_query d memory sec w =
     (if \<not> blank memory
      then (preselected_failure (rd_route d) (lit ''tool_calling_memory_unsupported'') None, w)
      else preselected_execute knowledge data user_query d sec w)"

definition preselected_executor :: "'w agent_tool \<Rightarrow> 'w agent_tool \<Rightarrow> 'w tool_executor" where
  "preselected_executor knowledge data =
     \<lparr>te_execute = preselected_execute knowledge data,
      te_memory = Some (preselected_with_memory knowledge data)\<rparr>"

subsection \<open>Definitions of the skills\<close>

definition data_skill_name :: pystr where
  "data_skill_name = lit ''enterprise-data-analysis''"

definition knowledge_skill_name :: pystr where
  "knowledge_skill_name = lit ''enterprise-knowledge-qa''"

definition data_definition :: skill_definition where
  "data_definition = \<lparr>sd_name = data_skill_name, sd_version = lit ''1.0.0'',
     sd_description = lit ''Answer operations-data questions through the existing cited Data Agent.'',
     sd_route = DataRoute, sd_input = [lit ''user_query'', lit ''RouterDecision(data)''],
     sd_tools = [data_tool_name],
     sd_steps = map lit [''validate_route'', ''native_tool_calling'', ''validate_selected_tool'', ''map_result''],
     sd_output = map lit [''answer'', ''[D#] citations'', ''safe error_code''],
     sd_failures = map lit [''skill_route_invalid'', ''skill_runtime_failed'', ''skill_selected_tool_invalid''],
     sd_requires = []\<rparr>"

definition knowledge_definition :: skill_definition where
  "knowledge_definition = \<lparr>sd_name = knowledge_skill_name, sd_version = lit ''1.0.0'',
     sd_description = lit ''Answer document knowledge questions through the existing cited Knowledge QA.'',
     sd_route = KnowledgeRoute, sd_input = [lit ''user_query'', lit ''RouterDecision(knowledge)''],
     sd_tools = [knowledge_tool_name],
     sd_steps = map lit [''validate_route'', ''native_tool_calling'', ''validate_selected_tool'', ''map_result''],
     sd_output = map lit [''answer'', ''[E#] citations'', ''safe error_code''],
     sd_failures = map lit [''skill_route_invalid'', ''skill_runtime_failed'', ''skill_selected_tool_invalid''],
     sd_requires = []\<rparr>"

subsection \<open>Execution\<close>

text \<open>A constructed result is returned; a failed validation raises.\<close>

definition reply_of :: "string + skill_result \<Rightarrow> skill_result skill_reply" where
  "reply_of r = (case r of Inl _ \<Rightarrow> Threw | Inr x \<Rightarrow> Returned x)"

definition domain_failed ::
  "skill_definition \<Rightarrow> request_route \<Rightarrow> string list \<Rightarrow> pystr \<Rightarrow> skill_result skill_reply" where
  "domain_failed D route steps code = reply_of
     (new_skill_result SkillFailed (sd_name D) (sd_version D) route None [] (map lit steps) None (Some code))"

definition call_executor ::
  "'w tool_executor \<Rightarrow> pystr \<Rightarrow> router_decision \<Rightarrow> pystr option \<Rightarrow> security_context option \<Rightarrow> 'w
     \<Rightarrow> tool_calling_result flow_result \<times> 'w" where
  "call_executor ex query d memory sec w = (case memory of
       None \<Rightarrow> te_execute ex query d sec w
     | Some m \<Rightarrow> (case te_memory ex of None \<Rightarrow> (FlowThrew, w) | Some run \<Rightarrow> run query d m sec w))"

definition map_runtime_result ::
  "skill_definition \<Rightarrow> router_decision \<Rightarrow> tool_calling_result \<Rightarrow> skill_result skill_reply" where
  "map_runtime_result D d r =
     (let steps = [''validate_route'', ''native_tool_calling'']
      in if tc_status r \<noteq> ToolCompleted
         then domain_failed D (rd_route d) steps (code_or (tc_error r) (lit ''skill_runtime_failed''))
         else if tc_route r \<noteq> rd_route d \<or> tc_route r \<noteq> sd_route D
         then domain_failed D (rd_route d) steps (lit ''skill_runtime_route_mismatch'')
         else if tc_tool r \<notin> Some ` set (sd_tools D)
         then domain_failed D (rd_route d) steps (lit ''skill_tool_not_allowed'')
         else reply_of (new_skill_result SkillCompleted (sd_name D) (sd_version D) (rd_route d) (tc_answer r)
           (tc_citations r) (map lit (steps @ [''validate_selected_tool'', ''map_result''])) (tc_tool r) None))"

definition domain_execute ::
  "skill_definition \<Rightarrow> 'w tool_executor \<Rightarrow> pystr \<Rightarrow> router_decision \<Rightarrow> pystr option \<Rightarrow> security_context option
     \<Rightarrow> 'w \<Rightarrow> skill_result skill_reply \<times> 'w" where
  "domain_execute D ex query d memory sec w =
     (if rd_route d \<noteq> sd_route D
      then (domain_failed D (rd_route d) [''validate_route''] (lit ''skill_route_invalid''), w)
      else (case call_executor ex query d memory sec w of
          (FlowCancelled, w) \<Rightarrow> (Cancelled, w)
        | (FlowThrew, w) \<Rightarrow> (domain_failed D (rd_route d) [''validate_route'', ''native_tool_calling'']
            (lit ''skill_runtime_failed''), w)
        | (Finished r, w) \<Rightarrow> (map_runtime_result D d r, w)))"

definition data_execute ::
  "'w tool_executor \<Rightarrow> pystr \<Rightarrow> router_decision \<Rightarrow> pystr option \<Rightarrow> security_context option
     \<Rightarrow> 'w \<Rightarrow> skill_result skill_reply \<times> 'w" where
  "data_execute = domain_execute data_definition"

definition knowledge_execute ::
  "'w tool_executor \<Rightarrow> pystr \<Rightarrow> router_decision \<Rightarrow> pystr option \<Rightarrow> security_context option
     \<Rightarrow> 'w \<Rightarrow> skill_result skill_reply \<times> 'w" where
  "knowledge_execute = domain_execute knowledge_definition"

subsection \<open>Execution over a selected context\<close>

text \<open>
  A call on the runtime that may raise: what raises leaves the runtime as it was before the call, and
  the exception leaves the skill.
\<close>

definition or_throw ::
  "ctx_error + ('a \<times> request_runtime) \<Rightarrow> request_runtime \<Rightarrow> ('a \<Rightarrow> request_runtime \<Rightarrow> 'r skill_reply \<times> request_runtime \<times> 'w)
     \<Rightarrow> 'w \<Rightarrow> 'r skill_reply \<times> request_runtime \<times> 'w" where
  "or_throw m rt k w = (case m of Inl _ \<Rightarrow> (Threw, rt, w) | Inr (a, rt') \<Rightarrow> k a rt')"

definition record_answer ::
  "string \<Rightarrow> evidence_domain \<Rightarrow> pystr \<Rightarrow> pystr \<Rightarrow> skill_result \<Rightarrow> request_runtime \<Rightarrow> 'w
     \<Rightarrow> skill_result skill_reply \<times> request_runtime \<times> 'w" where
  "record_answer word domain instruction answer r rt w =
     or_throw (rt_verified_summary (lit (word @ ''-answer-summary'')) answer [instruction] rt) rt (\<lambda>summary rt.
     or_throw (rt_evidence (lit (word @ ''-answer-evidence'')) answer domain (sr_citations r) [ci_id summary] rt) rt
       (\<lambda>_ rt. (Returned r, rt, w)) w) w"

text \<open>\<open>word\<close>, the instruction, the selection and what is recorded differ between the two skills.\<close>

definition select_for_domain ::
  "evidence_domain \<Rightarrow> context_item \<Rightarrow> context_item \<Rightarrow> request_runtime \<Rightarrow> ctx_error + (selection_result \<times> request_runtime)" where
  "select_for_domain domain user instruction rt =
     (if domain = Data then select_for_data else select_for_knowledge) user instruction (Aware (rt_created_at rt)) rt"

definition run_selected ::
  "skill_definition \<Rightarrow> string \<Rightarrow> evidence_domain \<Rightarrow> (skill_result \<Rightarrow> bool) \<Rightarrow> 'w tool_executor
     \<Rightarrow> router_decision \<Rightarrow> pystr \<Rightarrow> security_context option \<Rightarrow> skill_context \<Rightarrow> request_runtime \<Rightarrow> 'w
     \<Rightarrow> skill_result skill_reply \<times> request_runtime \<times> 'w" where
  "run_selected D word domain recorded ex d instruction sec selected rt w =
     (case domain_execute D ex (sk_user_request selected) d (sk_memory selected) sec w of
        (Returned r, w) \<Rightarrow> (case sr_answer r of
            Some answer \<Rightarrow> if sr_status r = SkillCompleted \<and> recorded r
              then record_answer word domain instruction answer r rt w else (Returned r, rt, w)
          | None \<Rightarrow> (Returned r, rt, w))
      | (reply, w) \<Rightarrow> (reply, rt, w))"

definition domain_with_context ::
  "skill_definition \<Rightarrow> string \<Rightarrow> evidence_domain \<Rightarrow> string \<Rightarrow> (skill_result \<Rightarrow> bool) \<Rightarrow> 'w tool_executor
     \<Rightarrow> router_decision \<Rightarrow> pystr \<Rightarrow> security_context option \<Rightarrow> request_runtime \<Rightarrow> 'w
     \<Rightarrow> skill_result skill_reply \<times> request_runtime \<times> 'w" where
  "domain_with_context D word domain instruction recorded ex d user sec rt w =
     or_throw (rt_skill_instruction (lit (word @ ''-skill-instruction'')) (lit instruction) user rt) rt
       (\<lambda>item rt. case ctx_get user (rt_items rt) of
          None \<Rightarrow> (Threw, rt, w)
        | Some user_item \<Rightarrow>
            or_throw (select_for_domain domain user_item item rt) rt (\<lambda>selection rt.
            case project_skill selection user (ci_id item) of
              Inl _ \<Rightarrow> (Threw, rt, w)
            | Inr selected \<Rightarrow> run_selected D word domain recorded ex d (ci_id item) sec selected rt w) w) w"

definition data_with_context ::
  "'w tool_executor \<Rightarrow> router_decision \<Rightarrow> pystr \<Rightarrow> security_context option \<Rightarrow> request_runtime \<Rightarrow> 'w
     \<Rightarrow> skill_result skill_reply \<times> request_runtime \<times> 'w" where
  "data_with_context = domain_with_context data_definition ''data'' Data
     ''Execute only the approved read-only data question.'' (\<lambda>r. sr_citations r \<noteq> [])"

definition knowledge_with_context ::
  "'w tool_executor \<Rightarrow> router_decision \<Rightarrow> pystr \<Rightarrow> security_context option \<Rightarrow> request_runtime \<Rightarrow> 'w
     \<Rightarrow> skill_result skill_reply \<times> request_runtime \<times> 'w" where
  "knowledge_with_context = domain_with_context knowledge_definition ''knowledge'' Knowledge
     ''Execute only the approved knowledge question.'' (\<lambda>r. True)"

text \<open>The three entry points of a skill.\<close>

definition entry_point ::
  "(pystr \<Rightarrow> router_decision \<Rightarrow> pystr \<Rightarrow> security_context option \<Rightarrow> request_runtime \<Rightarrow> 'w
      \<Rightarrow> 'r skill_reply \<times> request_runtime \<times> 'w)
     \<Rightarrow> (pystr \<Rightarrow> router_decision \<Rightarrow> security_context option \<Rightarrow> request_runtime \<Rightarrow> 'w
      \<Rightarrow> 'r skill_reply \<times> request_runtime \<times> 'w)
     \<Rightarrow> skill_call \<Rightarrow> request_runtime \<Rightarrow> 'w \<Rightarrow> 'r skill_reply \<times> request_runtime \<times> 'w" where
  "entry_point in_context plain call rt w = (case call of
       TraceCall query d (Some user) sec \<Rightarrow> in_context query d user sec rt w
     | TraceCall query d None sec \<Rightarrow> plain query d sec rt w
     | ContextCall query d user \<Rightarrow> in_context query d user None rt w
     | PlainCall query d \<Rightarrow> plain query d None rt w)"

text \<open>Neither class has \<^verbatim>\<open>is_applicable\<close>, which is asked on the mixed route only.\<close>

definition data_skill :: "'w tool_executor \<Rightarrow> 'w skill" where
  "data_skill ex = \<lparr>sl_definition = data_definition, sl_applicable = (\<lambda>query d. False),
     sl_with_trace = True, sl_with_context = True, sl_takes_security = True,
     sl_run = entry_point (\<lambda>query d user sec rt w. data_with_context ex d user sec rt w)
       (\<lambda>query d sec rt w. case data_execute ex query d None sec w of (r, w) \<Rightarrow> (r, rt, w))\<rparr>"

definition knowledge_skill :: "'w tool_executor \<Rightarrow> 'w skill" where
  "knowledge_skill ex = \<lparr>sl_definition = knowledge_definition, sl_applicable = (\<lambda>query d. False),
     sl_with_trace = True, sl_with_context = True, sl_takes_security = True,
     sl_run = entry_point (\<lambda>query d user sec rt w. knowledge_with_context ex d user sec rt w)
       (\<lambda>query d sec rt w. case knowledge_execute ex query d None sec w of (r, w) \<Rightarrow> (r, rt, w))\<rparr>"

subsection \<open>Results are well formed\<close>

lemma new_skill_result_Inr:
  "new_skill_result st n v r a cs ss t c = Inr x \<Longrightarrow> sr_status x = st \<and> sr_name x = n \<and> sr_route x = r
     \<and> sr_citations x = cs \<and> sr_steps x = ss \<and> sr_tool x = t \<and> sr_answer x = map_option py_strip a"
  by (auto simp: new_skill_result_def res_simps optional_text_field_def Let_def split: if_splits option.splits)

lemma reply_of_Returned: "reply_of m = Returned r \<longleftrightarrow> m = Inr r"
  by (cases m) (auto simp: reply_of_def)

lemma reply_of_Cancelled [simp]: "reply_of m \<noteq> Cancelled" "reply_of m \<noteq> NotAResult" "reply_of m \<noteq> Refused e"
  by (cases m; simp add: reply_of_def)+

definition result_of :: "skill_definition \<Rightarrow> skill_result \<Rightarrow> bool" where
  "result_of D r \<longleftrightarrow> skill_result_ok r \<and> sr_name r = sd_name D
     \<and> (sr_status r = SkillCompleted \<longrightarrow> sr_route r = sd_route D \<and> sr_tool r \<in> Some ` set (sd_tools D))"

lemma domain_failed_result:
  "domain_failed D route steps code = Returned r \<Longrightarrow> result_of D r \<and> sr_status r = SkillFailed"
  by (auto simp: domain_failed_def reply_of_Returned result_of_def
      dest: new_skill_result_Inr new_skill_result_ok)

lemma map_runtime_result_spec:
  assumes "map_runtime_result D d x = Returned r"
  shows "result_of D r \<and> (sr_status r = SkillCompleted \<longrightarrow> tc_status x = ToolCompleted
    \<and> sr_answer r = map_option py_strip (tc_answer x) \<and> sr_citations r = tc_citations x
    \<and> sr_tool r = tc_tool x)"
  using assms unfolding map_runtime_result_def Let_def
  by (auto simp: reply_of_Returned result_of_def split: if_splits
      dest: new_skill_result_Inr new_skill_result_ok domain_failed_result)

lemma domain_execute_spec:
  assumes "domain_execute D ex query d memory sec w = (Returned r, w')"
  shows "result_of D r \<and> (sr_status r = SkillCompleted \<longrightarrow> rd_route d = sd_route D
    \<and> (\<exists>x. call_executor ex query d memory sec w = (Finished x, w') \<and> tc_status x = ToolCompleted
      \<and> sr_answer r = map_option py_strip (tc_answer x) \<and> sr_citations r = tc_citations x
      \<and> sr_tool r = tc_tool x))"
  using assms unfolding domain_execute_def
  by (auto split: if_splits prod.splits flow_result.splits dest: domain_failed_result map_runtime_result_spec)

lemma or_throw_cases:
  assumes "or_throw m rt k w = (r, rt', w')"
  shows "(r = Threw \<and> rt' = rt \<and> w' = w) \<or> (\<exists>a rt1. m = Inr (a, rt1) \<and> k a rt1 = (r, rt', w'))"
  using assms by (auto simp: or_throw_def split: sum.splits)

lemma or_throw_Returned:
  "or_throw m rt k w = (Returned r, rt', w') \<longleftrightarrow> (\<exists>a rt1. m = Inr (a, rt1) \<and> k a rt1 = (Returned r, rt', w'))"
  by (auto simp: or_throw_def split: sum.splits)

lemma record_answer_Returned:
  "record_answer word domain instruction answer x rt w = (Returned r, rt', w') \<Longrightarrow> r = x \<and> w' = w"
  by (auto simp: record_answer_def or_throw_Returned)

lemma run_selected_spec:
  assumes "run_selected D word domain recorded ex d instruction sec selected rt w = (Returned r, rt', w')"
  shows "domain_execute D ex (sk_user_request selected) d (sk_memory selected) sec w = (Returned r, w')"
proof -
  obtain reply w1 where e: "domain_execute D ex (sk_user_request selected) d (sk_memory selected) sec w = (reply, w1)"
    by (rule prod.exhaust)
  show ?thesis
    using assms unfolding run_selected_def e
    by (cases reply) (auto split: option.splits if_splits dest: record_answer_Returned)
qed

text \<open>What happens before the skill is executed: the item added, the selection, the projection.\<close>

lemma domain_with_context_cases:
  assumes "domain_with_context D word domain instruction recorded ex d user sec rt w = (reply, rt', w')"
  obtains (unadded) "reply = Threw" "rt' = rt" "w' = w"
  | (unselected) item rt1 where "rt_skill_instruction (lit (word @ ''-skill-instruction'')) (lit instruction) user rt = Inr (item, rt1)"
      "reply = Threw" "rt' = rt1" "w' = w"
  | (selected) item rt1 user_item selection rt2 where
      "rt_skill_instruction (lit (word @ ''-skill-instruction'')) (lit instruction) user rt = Inr (item, rt1)"
      "ctx_get user (rt_items rt1) = Some user_item"
      "select_for_domain domain user_item item rt1 = Inr (selection, rt2)"
      "(reply = Threw \<and> rt' = rt2 \<and> w' = w) \<or> (\<exists>sk. project_skill selection user (ci_id item) = Inr sk
        \<and> run_selected D word domain recorded ex d (ci_id item) sec sk rt2 w = (reply, rt', w'))"
  using or_throw_cases [OF assms [unfolded domain_with_context_def]]
proof (elim disjE exE conjE)
  fix item rt1
  assume i: "rt_skill_instruction (lit (word @ ''-skill-instruction'')) (lit instruction) user rt = Inr (item, rt1)"
    and c: "(case ctx_get user (rt_items rt1) of None \<Rightarrow> (Threw, rt1, w)
        | Some user_item \<Rightarrow>
            or_throw (select_for_domain domain user_item item rt1) rt1 (\<lambda>selection rt.
            case project_skill selection user (ci_id item) of
              Inl _ \<Rightarrow> (Threw, rt, w)
            | Inr selected \<Rightarrow> run_selected D word domain recorded ex d (ci_id item) sec selected rt w) w)
      = (reply, rt', w')"
  show thesis
  proof (cases "ctx_get user (rt_items rt1)")
    case None
    with c unselected [OF i] show ?thesis by simp
  next
    case (Some u)
    note c = c [unfolded Some option.case]
    from or_throw_cases [OF c] show ?thesis
    proof (elim disjE exE conjE)
      fix selection rt2
      assume s: "select_for_domain domain u item rt1 = Inr (selection, rt2)"
        and "(case project_skill selection user (ci_id item) of Inl _ \<Rightarrow> (Threw, rt2, w)
            | Inr selected \<Rightarrow> run_selected D word domain recorded ex d (ci_id item) sec selected rt2 w)
          = (reply, rt', w')"
      then show ?thesis
        by (intro selected [OF i Some s]) (cases "project_skill selection user (ci_id item)"; auto)
    qed (use unselected [OF i] in simp)
  qed
qed (use unadded in simp)

lemma domain_with_context_spec:
  assumes "domain_with_context D word domain instruction recorded ex d user sec rt w = (Returned r, rt', w')"
  shows "\<exists>query memory. domain_execute D ex query d memory sec w = (Returned r, w')"
  using assms by (rule domain_with_context_cases) (auto dest!: run_selected_spec)

lemma entry_point_cases:
  obtains query d user sec where "entry_point in_context plain call rt w = in_context query d user sec rt w"
  | query d sec where "entry_point in_context plain call rt w = plain query d sec rt w"
proof (cases call)
  case (TraceCall query d user sec)
  then show thesis using that by (cases user) (simp_all add: entry_point_def)
qed (use that in \<open>simp_all add: entry_point_def\<close>)

lemma domain_run_spec:
  assumes "entry_point (\<lambda>query d user sec rt w. domain_with_context D word domain instruction recorded ex d user sec rt w)
       (\<lambda>query d sec rt w. case domain_execute D ex query d None sec w of (r, w) \<Rightarrow> (r, rt, w)) call rt w
     = (Returned r, rt', w')"
  shows "\<exists>query d memory sec. domain_execute D ex query d memory sec w = (Returned r, w')"
proof (rule entry_point_cases)
  fix query d user sec
  assume "entry_point (\<lambda>query d user sec rt w. domain_with_context D word domain instruction recorded ex d user sec rt w)
       (\<lambda>query d sec rt w. case domain_execute D ex query d None sec w of (r, w) \<Rightarrow> (r, rt, w)) call rt w
     = domain_with_context D word domain instruction recorded ex d user sec rt w"
  with assms domain_with_context_spec show ?thesis by fastforce
next
  fix query d sec
  assume "entry_point (\<lambda>query d user sec rt w. domain_with_context D word domain instruction recorded ex d user sec rt w)
       (\<lambda>query d sec rt w. case domain_execute D ex query d None sec w of (r, w) \<Rightarrow> (r, rt, w)) call rt w
     = (case domain_execute D ex query d None sec w of (r, w) \<Rightarrow> (r, rt, w))"
  with assms have "domain_execute D ex query d None sec w = (Returned r, w')" by (auto split: prod.splits)
  then show ?thesis by blast
qed

lemmas domain_skill_defs = data_skill_def knowledge_skill_def data_with_context_def knowledge_with_context_def
  data_execute_def knowledge_execute_def skill.select_convs

lemma data_run_spec:
  "sl_run (data_skill ex) call rt w = (Returned r, rt', w') \<Longrightarrow>
     \<exists>query d memory sec. domain_execute data_definition ex query d memory sec w = (Returned r, w')"
  unfolding domain_skill_defs by (rule domain_run_spec)

lemma knowledge_run_spec:
  "sl_run (knowledge_skill ex) call rt w = (Returned r, rt', w') \<Longrightarrow>
     \<exists>query d memory sec. domain_execute knowledge_definition ex query d memory sec w = (Returned r, w')"
  unfolding domain_skill_defs by (rule domain_run_spec)

lemma data_skill_result: "sl_run (data_skill ex) call rt w = (Returned r, rt', w') \<Longrightarrow> result_of data_definition r"
  by (drule data_run_spec) (auto dest: domain_execute_spec)

lemma knowledge_skill_result:
  "sl_run (knowledge_skill ex) call rt w = (Returned r, rt', w') \<Longrightarrow> result_of knowledge_definition r"
  by (drule knowledge_run_spec) (auto dest: domain_execute_spec)

lemma domain_skills_ok: "skill_ok (data_skill ex)" "skill_ok (knowledge_skill ex)"
  unfolding skill_ok_def using data_skill_result knowledge_skill_result
  by (fastforce simp: result_of_def)+

subsection \<open>What an executor returns is what a tool returned\<close>

text \<open>
  The contract the skills rely on: a completed turn quotes, answer and citations, what the tool of the
  decided route returned for the query of the decision. Both executors keep it.
\<close>

definition quoted ::
  "bool \<Rightarrow> 'w agent_tool \<Rightarrow> 'w agent_tool \<Rightarrow> request_route \<Rightarrow> skill_result \<Rightarrow> bool" where
  "quoted traced knowledge data route r \<longleftrightarrow> (\<exists>q sec w1 w2 y.
     run_tool traced (if route = KnowledgeRoute then knowledge else data) q sec w1 = (CallValue y, w2)
     \<and> atr_succeeded y \<and> sr_answer r = map_option py_strip (atr_answer y) \<and> sr_citations r = atr_citations y)"

locale quoting_executor =
  fixes ex :: "'w tool_executor" and traced :: bool and knowledge data :: "'w agent_tool"
  assumes quotes: "call_executor ex query d memory sec w = (Finished x, w') \<Longrightarrow> tc_status x = ToolCompleted \<Longrightarrow>
      \<exists>q w1 w2 y. query_for_route d = Some q
        \<and> run_tool traced (if rd_route d = KnowledgeRoute then knowledge else data) q sec w1 = (CallValue y, w2)
        \<and> atr_succeeded y \<and> tc_answer x = atr_answer y \<and> tc_citations x = atr_citations y"
begin

lemma domain_execute_quoted:
  assumes "domain_execute D ex query d memory sec w = (Returned r, w')" and "sr_status r = SkillCompleted"
  shows "quoted traced knowledge data (sd_route D) r"
proof -
  from domain_execute_spec [OF assms(1)] assms(2) obtain x where d: "rd_route d = sd_route D"
    and x: "call_executor ex query d memory sec w = (Finished x, w')" "tc_status x = ToolCompleted"
      "sr_answer r = map_option py_strip (tc_answer x)" "sr_citations r = tc_citations x" by blast
  from quotes [OF x(1,2)] obtain q w1 w2 y where
    run: "run_tool traced (if rd_route d = KnowledgeRoute then knowledge else data) q sec w1 = (CallValue y, w2)"
    and y: "atr_succeeded y" "tc_answer x = atr_answer y" "tc_citations x = atr_citations y" by blast
  from y(2,3) x(3,4) have "sr_answer r = map_option py_strip (atr_answer y)" "sr_citations r = atr_citations y"
    by simp_all
  with run y(1) show ?thesis unfolding quoted_def d [symmetric] by blast
qed

lemma data_quoted:
  assumes "sl_run (data_skill ex) call rt w = (Returned r, rt', w')" and "sr_status r = SkillCompleted"
  shows "quoted traced knowledge data DataRoute r"
  using data_run_spec [OF assms(1)] domain_execute_quoted [OF _ assms(2)]
  by (fastforce simp: data_definition_def)

lemma knowledge_quoted:
  assumes "sl_run (knowledge_skill ex) call rt w = (Returned r, rt', w')" and "sr_status r = SkillCompleted"
  shows "quoted traced knowledge data KnowledgeRoute r"
  using knowledge_run_spec [OF assms(1)] domain_execute_quoted [OF _ assms(2)]
  by (fastforce simp: knowledge_definition_def)

end

interpretation native: quoting_executor "native_executor T" "tr_traced T" "tr_knowledge T" "tr_data T" for T
proof
  fix query d memory sec w x w'
  assume c: "call_executor (native_executor T) query d memory sec w = (Finished x, w')"
    and s: "tc_status x = ToolCompleted"
  from c obtain m ev where r: "run_native_tool_calling T query d m sec w = (Finished x, ev, w')"
    by (cases memory) (auto simp: call_executor_def native_executor_def split: prod.splits)
  from tool_turn_cases [OF r] s obtain q where "query_for_route d = Some q" "repeats_tool T (rd_route d) q sec x"
    by blast
  then show "\<exists>q w1 w2 y. query_for_route d = Some q
        \<and> run_tool (tr_traced T) (if rd_route d = KnowledgeRoute then tr_knowledge T else tr_data T) q sec w1 = (CallValue y, w2)
        \<and> atr_succeeded y \<and> tc_answer x = atr_answer y \<and> tc_citations x = atr_citations y"
    unfolding repeats_tool_def by blast
qed

lemma preselected_tool_Some:
  "preselected_tool knowledge data d = Some (name, q, tool) \<Longrightarrow>
     query_for_route d = Some q \<and> tool = (if rd_route d = KnowledgeRoute then knowledge else data)
     \<and> rd_route d \<in> {KnowledgeRoute, DataRoute}"
  by (auto simp: preselected_tool_def query_for_route_def split: request_route.splits option.splits)

lemma preselected_execute_quotes:
  assumes "preselected_execute knowledge data query d sec w = (Finished x, w')" and "tc_status x = ToolCompleted"
  shows "\<exists>q w1 w2 y. query_for_route d = Some q
    \<and> run_tool True (if rd_route d = KnowledgeRoute then knowledge else data) q sec w1 = (CallValue y, w2)
    \<and> atr_succeeded y \<and> tc_answer x = atr_answer y \<and> tc_citations x = atr_citations y"
proof (cases "preselected_tool knowledge data d")
  case None
  with assms show ?thesis
    by (auto simp: preselected_execute_def preselected_failure_def Let_def dest: tool_failed_status split: if_splits)
next
  case (Some p)
  obtain name q tool where p: "p = (name, q, tool)" by (rule prod_cases3)
  note t = preselected_tool_Some [OF Some [unfolded p]]
  obtain reply w1 where r: "run_tool True tool q sec w = (reply, w1)" by (rule prod.exhaust)
  have "\<exists>y. reply = CallValue y \<and> atr_succeeded y \<and> tc_answer x = atr_answer y \<and> tc_citations x = atr_citations y"
    using assms Some p r
    by (cases reply) (auto simp: preselected_execute_def preselected_failure_def Let_def
        dest: tool_failed_status dest!: new_result_Finished split: if_splits)
  with t r show ?thesis by blast
qed

interpretation preselected: quoting_executor "preselected_executor knowledge data" True knowledge data
  for knowledge data
proof
  fix query d memory sec w x w'
  assume c: "call_executor (preselected_executor knowledge data) query d memory sec w = (Finished x, w')"
    and s: "tc_status x = ToolCompleted"
  from c s have "preselected_execute knowledge data query d sec w = (Finished x, w')"
    by (cases memory) (auto simp: call_executor_def preselected_executor_def preselected_with_memory_def
        preselected_failure_def dest: tool_failed_status split: if_splits)
  from preselected_execute_quotes [OF this s]
  show "\<exists>q w1 w2 y. query_for_route d = Some q
        \<and> run_tool True (if rd_route d = KnowledgeRoute then knowledge else data) q sec w1 = (CallValue y, w2)
        \<and> atr_succeeded y \<and> tc_answer x = atr_answer y \<and> tc_citations x = atr_citations y" .
qed

subsection \<open>What a skill does to the runtime of the request\<close>

text \<open>A skill changes the runtime through its operations only, so what holds of reachable runtimes stays.\<close>

lemma select_for_domain_step: "select_for_domain domain u i rt = Inr (selection, rt') \<Longrightarrow> rt_step rt rt'"
  by (auto simp: select_for_domain_def select_for_data_def select_for_knowledge_def intro: rt_step.intros
      split: if_splits)

lemma record_answer_steps:
  assumes "record_answer word domain instruction answer r rt w = (reply, rt', w')"
  shows "rt_step\<^sup>*\<^sup>* rt rt'"
  using or_throw_cases [OF assms [unfolded record_answer_def]]
  by (auto dest!: or_throw_cases rt_step.intros(6,7) intro: rtranclp_trans)

lemma run_selected_steps:
  assumes "run_selected D word domain recorded ex d instruction sec selected rt w = (reply, rt', w')"
  shows "rt_step\<^sup>*\<^sup>* rt rt'"
proof -
  obtain r w1 where e: "domain_execute D ex (sk_user_request selected) d (sk_memory selected) sec w = (r, w1)"
    by (rule prod.exhaust)
  show ?thesis
    using assms unfolding run_selected_def e
    by (cases r) (auto split: option.splits if_splits dest: record_answer_steps)
qed

lemma domain_with_context_steps:
  assumes "domain_with_context D word domain instruction recorded ex d user sec rt w = (reply, rt', w')"
  shows "rt_step\<^sup>*\<^sup>* rt rt'"
  using assms
proof (cases rule: domain_with_context_cases)
  case unadded
  then show ?thesis by simp
next
  case (unselected item rt1)
  then show ?thesis using rt_step.intros(5) by (simp add: r_into_rtranclp)
next
  case (selected item rt1 user_item selection rt2)
  have "rt_step\<^sup>*\<^sup>* rt rt2"
    by (rule rtranclp.rtrancl_into_rtrancl [OF r_into_rtranclp [where r = rt_step, OF rt_step.intros(5) [OF selected(1)]]
          select_for_domain_step [OF selected(3)]])
  moreover have "rt_step\<^sup>*\<^sup>* rt2 rt'"
    using selected(4) by (auto dest: run_selected_steps)
  ultimately show ?thesis by (rule rtranclp_trans)
qed

lemma domain_run_steps:
  assumes "entry_point (\<lambda>query d user sec rt w. domain_with_context D word domain instruction recorded ex d user sec rt w)
       (\<lambda>query d sec rt w. case domain_execute D ex query d None sec w of (r, w) \<Rightarrow> (r, rt, w)) call rt w
     = (reply, rt', w')"
  shows "rt_step\<^sup>*\<^sup>* rt rt'"
  using assms domain_with_context_steps
  by (auto simp: entry_point_def split: skill_call.splits option.splits prod.splits)

lemma domain_skills_step:
  "sl_run (data_skill ex) call rt w = (reply, rt', w') \<Longrightarrow> rt_step\<^sup>*\<^sup>* rt rt'"
  "sl_run (knowledge_skill ex) call rt w = (reply, rt', w') \<Longrightarrow> rt_step\<^sup>*\<^sup>* rt rt'"
  unfolding domain_skill_defs by (rule domain_run_steps, assumption)+

text \<open>Items are never removed.\<close>

lemma rt_add_item_grows:
  "rt_add_item label k c s t ss d cs rt = Inr (i, rt') \<Longrightarrow> rt_request_id rt' = rt_request_id rt
     \<and> rt_items rt' = rt_items rt @ [i] \<and> ci_id i = rt_request_id rt @ [58] @ label"
  by (auto simp: rt_add_item_def rt_add_def ctx_add_def res_simps dest!: new_context_item_wf split: if_splits)

lemma rt_step_grows: "rt_step rt rt' \<Longrightarrow> rt_request_id rt' = rt_request_id rt \<and> set (rt_items rt) \<subseteq> set (rt_items rt')"
proof (induction rule: rt_step.induct)
  case (8 P t rt r rt')
  then show ?case by (auto simp: rt_select_def res_simps)
qed (auto simp: rt_user_request_def rt_add_conversation_memory_def rt_system_instruction_def
    rt_router_decision_def rt_skill_instruction_def rt_verified_summary_def rt_evidence_def
    dest!: rt_add_item_grows split: if_splits)

lemma rt_steps_grow:
  "rt_step\<^sup>*\<^sup>* rt rt' \<Longrightarrow> rt_request_id rt' = rt_request_id rt \<and> set (rt_items rt) \<subseteq> set (rt_items rt')"
  by (induction rule: rtranclp_induct) (auto dest!: rt_step_grows)

definition has_label :: "string \<Rightarrow> request_runtime \<Rightarrow> bool" where
  "has_label label rt \<longleftrightarrow> rt_request_id rt @ [58] @ lit label \<in> ci_id ` set (rt_items rt)"

lemma has_label_mono: "rt_step\<^sup>*\<^sup>* rt rt' \<Longrightarrow> has_label label rt \<Longrightarrow> has_label label rt'"
  unfolding has_label_def using rt_steps_grow by fastforce

lemma rt_add_item_duplicate:
  assumes "has_label label rt"
  shows "rt_add_item (lit label) k c s t ss d cs rt \<noteq> Inr (i, rt')"
proof
  assume a: "rt_add_item (lit label) k c s t ss d cs rt = Inr (i, rt')"
  then obtain x items where "ctx_add x (rt_items rt) = Inr items" "ci_id x = rt_request_id rt @ [58] @ lit label"
    by (auto simp: rt_add_item_def rt_add_def res_simps dest: new_context_item_wf)
  with assms show False by (auto simp: ctx_add_def has_label_def ctx_get_None_iff split: if_splits)
qed

text \<open>A skill runs over the context of one request at most once: its instruction is already there.\<close>

lemma domain_with_context_again:
  assumes "has_label (word @ ''-skill-instruction'') rt"
  shows "domain_with_context D word domain instruction recorded ex d user sec rt w = (Threw, rt, w)"
proof -
  obtain e where "rt_skill_instruction (lit (word @ ''-skill-instruction'')) (lit instruction) user rt = Inl e"
    using rt_add_item_duplicate [OF assms] unfolding rt_skill_instruction_def
    by (metis old.prod.exhaust old.sum.exhaust)
  then show ?thesis by (simp add: domain_with_context_def or_throw_def)
qed

lemma domain_with_context_adds:
  assumes "domain_with_context D word domain instruction recorded ex d user sec rt w = (reply, rt', w')"
    and "reply \<noteq> Threw"
  shows "has_label (word @ ''-skill-instruction'') rt'"
  using assms(1)
proof (cases rule: domain_with_context_cases)
  case (selected item rt1 user_item selection rt2)
  from selected(1) have a: "has_label (word @ ''-skill-instruction'') rt1"
    by (auto simp: rt_skill_instruction_def has_label_def dest!: rt_add_item_grows)
  have "rt_step\<^sup>*\<^sup>* rt2 rt'"
    using selected(4) by (auto dest: run_selected_steps)
  with select_for_domain_step [OF selected(3)] have "rt_step\<^sup>*\<^sup>* rt1 rt'"
    by (rule converse_rtranclp_into_rtranclp)
  from has_label_mono [OF this a] show ?thesis .
qed (use assms(2) in simp_all)

subsection \<open>Answers without citations\<close>

text \<open>
  The knowledge agent answers an unanswerable question with a fixed sentence and no citations. The
  knowledge skill then fails in a request context, because it records evidence for every answer and
  evidence without citations is refused; the data skill returns such an answer.
\<close>

lemma evidence_needs_citations:
  assumes "item_contract i = None" and "evidence_kind (ci_kind i)"
  shows "ci_citations i \<noteq> []"
  using assms unfolding item_contract_def if_Some_None by blast

lemma new_context_item_uncited:
  "new_context_item iid k c s t p cr ex n d [] m = Inr i \<Longrightarrow> ci_citations i = []"
  by (auto simp: new_context_item_def res_simps Let_def split: option.splits)

lemma rt_evidence_uncited: "rt_evidence label c domain [] ss rt \<noteq> Inr (i, rt')"
proof
  assume "rt_evidence label c domain [] ss rt = Inr (i, rt')"
  then obtain prov item where n: "new_context_item (rt_request_id rt @ [58] @ label)
      (if domain = Knowledge then KnowledgeEvidence else DataEvidence) c SrcAgent VerifiedInternal prov
      (Aware (rt_created_at rt)) None (rt_estimate rt c) (Some domain) [] [] = Inr item"
    by (auto simp: rt_evidence_def rt_add_item_def res_simps)
  have "evidence_kind (ci_kind item)" "item_contract item = None"
    using new_context_item_wf [OF n] by (auto simp: evidence_kind_def item_wf_def)
  with evidence_needs_citations new_context_item_uncited [OF n] show False by blast
qed

lemma uncited_answer:
  assumes "domain_execute D ex (sk_user_request selected) d (sk_memory selected) sec w = (Returned r, w')"
    and "sr_status r = SkillCompleted" and "sr_citations r = []" and "sr_answer r \<noteq> None"
  shows "\<exists>rt'. run_selected D ''knowledge'' Knowledge (\<lambda>r. True) ex d instruction sec selected rt w = (Threw, rt', w')"
    and "run_selected D ''data'' Data (\<lambda>r. sr_citations r \<noteq> []) ex d instruction sec selected rt w = (Returned r, rt, w')"
proof -
  have "\<exists>rt'. record_answer word domain instruction answer r rt w = (Threw, rt', w)" for word domain answer w
    using rt_evidence_uncited by (auto simp: record_answer_def or_throw_def assms(3) split: sum.splits) 
  with assms show "\<exists>rt'. run_selected D ''knowledge'' Knowledge (\<lambda>r. True) ex d instruction sec selected rt w = (Threw, rt', w')"
    and "run_selected D ''data'' Data (\<lambda>r. sr_citations r \<noteq> []) ex d instruction sec selected rt w = (Returned r, rt, w')"
    by (auto simp: run_selected_def)
qed

subsection \<open>The results of the two skills\<close>

lemma skill_routes [simp]: "sl_definition (data_skill ex) = data_definition" "sd_route data_definition = DataRoute"
  "sl_definition (knowledge_skill ex) = knowledge_definition" "sd_route knowledge_definition = KnowledgeRoute"
  by (simp_all add: data_skill_def knowledge_skill_def data_definition_def knowledge_definition_def)

lemma result_of_typed:
  assumes "result_of D r" and "sd_tools D = [tool_of_route (sd_route D)]" and "sd_route D \<in> {KnowledgeRoute, DataRoute}"
  shows "skill_result_ok r \<and> sr_name r = sd_name D \<and> (sr_status r = SkillCompleted \<longrightarrow> sr_route r = sd_route D
     \<and> sr_tool r = Some (tool_of_route (sd_route D))
     \<and> list_all (skill_citation (if sd_route D = DataRoute then 68 else 69)) (sr_citations r))"
  using assms by (auto simp: result_of_def route_citations_def dest!: completed_result)

lemma one_tool:
  "sd_tools data_definition = [tool_of_route DataRoute]" "sd_tools knowledge_definition = [tool_of_route KnowledgeRoute]"
  by (simp_all add: data_definition_def knowledge_definition_def tool_of_route_def)

text \<open>
  C29: Whatever a tool turn does, the results of the two single-domain skills are typed: each is a valid
  skill result that carries the name of its skill; a completed one has the route of the skill, the one
  tool of that route and only citations of its domain ([D#] for data, [E#] for knowledge). With either
  executor of the application its answer and citations are those a successful run of that tool returned.
\<close>

theorem domain_skill_typed:
  assumes "s = data_skill ex \<or> s = knowledge_skill ex" and "sl_run s call rt w = (Returned r, rt', w')"
  shows "skill_result_ok r \<and> sr_name r = sl_name s \<and> (sr_status r = SkillCompleted \<longrightarrow>
      sr_route r = sl_route s \<and> sr_tool r = Some (tool_of_route (sl_route s))
      \<and> list_all (skill_citation (if sl_route s = DataRoute then 68 else 69)) (sr_citations r)
      \<and> (ex = native_executor T \<longrightarrow> quoted (tr_traced T) (tr_knowledge T) (tr_data T) (sl_route s) r)
      \<and> (ex = preselected_executor k d \<longrightarrow> quoted True k d (sl_route s) r))"
  using assms(1)
proof (elim disjE)
  assume s: "s = data_skill ex"
  from assms(2) have run: "sl_run (data_skill ex) call rt w = (Returned r, rt', w')" by (simp add: s)
  from result_of_typed [OF data_skill_result [OF run]] native.data_quoted preselected.data_quoted run
  show ?thesis by (auto simp: s one_tool)
next
  assume s: "s = knowledge_skill ex"
  from assms(2) have run: "sl_run (knowledge_skill ex) call rt w = (Returned r, rt', w')" by (simp add: s)
  from result_of_typed [OF knowledge_skill_result [OF run]] native.knowledge_quoted preselected.knowledge_quoted run
  show ?thesis by (auto simp: s one_tool)
qed

subsection \<open>A concrete skill\<close>

definition demo_data_decision :: router_decision where
  "demo_data_decision = \<lparr>rd_route = DataRoute, rd_query = [113], rd_reason = [114],
     rd_knowledge = None, rd_data = Some [107], rd_missing = None, rd_confidence = 1\<rparr>"

definition demo_data_tool :: "nat agent_tool" where
  "demo_data_tool = OtherTool (\<lambda>q w. (CallValue \<lparr>atr_succeeded = True, atr_answer = Some [97],
     atr_citations = [[91, 68, 49, 93]], atr_error = None\<rparr>, Suc w))"

definition demo_data_result :: skill_result where
  "demo_data_result = \<lparr>sr_status = SkillCompleted, sr_name = data_skill_name, sr_version = lit ''1.0.0'',
     sr_route = DataRoute, sr_answer = Some [97], sr_citations = [[91, 68, 49, 93]],
     sr_steps = map lit [''validate_route'', ''native_tool_calling'', ''validate_selected_tool'', ''map_result''],
     sr_tool = Some data_tool_name, sr_error = None\<rparr>"

lemma demo_data_run:
  "sl_run (data_skill (preselected_executor demo_data_tool demo_data_tool)) (PlainCall [113] demo_data_decision) demo_runtime 0
     = (Returned demo_data_result, demo_runtime, 1)"
proof -
  have e: "preselected_execute demo_data_tool demo_data_tool [113] demo_data_decision None 0 = (Finished
      \<lparr>tc_status = ToolCompleted, tc_route = DataRoute, tc_tool = Some data_tool_name,
       tc_call_id = Some (lit ''server_preselected_tool''), tc_answer = Some [97],
       tc_citations = [[91, 68, 49, 93]], tc_steps = 2, tc_error = None, tc_http = None\<rparr>, 1)"
    by (simp add: preselected_execute_def demo_data_decision_def py_space_def preselected_tool_def
        demo_data_tool_def run_tool_def new_tool_calling_result_def length_within_def tool_contract_def)
  show ?thesis
    by (simp add: data_skill_def entry_point_def data_execute_def domain_execute_def call_executor_def
        preselected_executor_def e)
      (simp add: demo_data_decision_def map_runtime_result_def data_definition_def new_skill_result_def
        optional_text_field_def demo_data_result_def data_skill_name_def reply_of_def py_space_def py_strip_def
        terminal_contract_def route_citations_def skill_citation_def py_digit_def py_digit_zeros_def lit_def
        data_tool_name_def Let_def)
qed

theorem domain_skill_typed_witness:
  "sr_status demo_data_result = SkillCompleted \<and> list_all (skill_citation 68) (sr_citations demo_data_result)
     \<and> quoted True demo_data_tool demo_data_tool DataRoute demo_data_result"
proof -
  have "sr_status demo_data_result = SkillCompleted" by (simp add: demo_data_result_def)
  with domain_skill_typed [OF disjI1 [OF refl] demo_data_run] show ?thesis by simp
qed

end
