(* ===== verification/InventoryRisk.thy ===== *)
theory InventoryRisk
  imports DomainSkills AgentWorkflow
begin

section \<open>The mixed inventory-risk skill\<close>

text \<open>
  \<^verbatim>\<open>skills/inventory_risk_diagnosis.py\<close> and \<^verbatim>\<open>skills/inventory_risk_synthesizer.py\<close>: the skill
  that runs the data skill, then the knowledge skill, and asks one synthesizer over their two results.
  The children are skills, the synthesizer a function of its input and of the world; the provider-backed
  synthesizer is one such function, over a chat client and a JSON parser. The labels of schema errors,
  kept for diagnostics only, and trace spans are left out.
\<close>

subsection \<open>The contracts of a synthesis\<close>

record synthesis_input =
  si_request :: pystr
  si_data_query :: pystr
  si_data_answer :: pystr
  si_data_citations :: "pystr list"
  si_knowledge_query :: pystr
  si_knowledge_answer :: pystr
  si_knowledge_citations :: "pystr list"

definition unique_citations :: "pystr list \<Rightarrow> bool" where
  "unique_citations cs \<longleftrightarrow> cs \<noteq> [] \<and> length cs \<le> 100 \<and> distinct cs"

definition new_synthesis_input :: "synthesis_input \<Rightarrow> string + synthesis_input" where
  "new_synthesis_input i =
     res_bind (text_field 4000 (si_request i)) (\<lambda>request.
     res_bind (text_field 2000 (si_data_query i)) (\<lambda>dq.
     res_bind (text_field 8000 (si_data_answer i)) (\<lambda>da.
     res_bind (ensure (unique_citations (si_data_citations i)) ''data_citations'') (\<lambda>_.
     res_bind (text_field 2000 (si_knowledge_query i)) (\<lambda>kq.
     res_bind (text_field 8000 (si_knowledge_answer i)) (\<lambda>ka.
     res_bind (ensure (unique_citations (si_knowledge_citations i)) ''knowledge_citations'') (\<lambda>_.
     res_bind (ensure (list_all (skill_citation 68) (si_data_citations i)) ''data_citations must use [D#]'') (\<lambda>_.
     res_bind (ensure (list_all (skill_citation 69) (si_knowledge_citations i))
       ''knowledge_citations must use [E#]'') (\<lambda>_.
     Inr \<lparr>si_request = request, si_data_query = dq, si_data_answer = da,
          si_data_citations = si_data_citations i, si_knowledge_query = kq, si_knowledge_answer = ka,
          si_knowledge_citations = si_knowledge_citations i\<rparr>)))))))))"

record synthesis_result =
  sy_summary :: pystr
  sy_policy :: pystr
  sy_actions :: "pystr list"
  sy_citations :: "pystr list"

definition mixed_citation :: "pystr \<Rightarrow> bool" where
  "mixed_citation c \<longleftrightarrow> skill_citation 68 c \<or> skill_citation 69 c"

definition new_synthesis_result ::
  "pystr \<Rightarrow> pystr \<Rightarrow> pystr list \<Rightarrow> pystr list \<Rightarrow> string + synthesis_result" where
  "new_synthesis_result summary policy actions citations =
     res_bind (text_field 8000 summary) (\<lambda>summary.
     res_bind (text_field 8000 policy) (\<lambda>policy.
     res_bind (ensure (actions \<noteq> [] \<and> length actions \<le> 20 \<and> list_all (\<lambda>a. \<not> blank a) actions)
       ''recommended_actions'') (\<lambda>_.
     res_bind (ensure (citations \<noteq> [] \<and> length citations \<le> 200 \<and> list_all mixed_citation citations)
       ''citations'') (\<lambda>_.
     Inr \<lparr>sy_summary = summary, sy_policy = policy, sy_actions = map py_strip actions,
          sy_citations = citations\<rparr>))))"

subsection \<open>The provider-backed synthesizer\<close>

record synth_error =
  se_code :: pystr
  se_http :: "int option"
  se_stage :: "string option"
  se_finish :: "pystr option"

datatype chat_reply = ChatResponse json | ChatError pystr "int option" | ChatUnavailable | ChatThrew
  | ChatCancelled

datatype synth_reply = Synthesized synthesis_result | NotASynthesis | SynthFailed synth_error | SynthThrew
  | SynthCancelled

definition synthesis_rules :: pystr where
  \<open>synthesis_rules = lit ''Return exactly one JSON object with risk_summary, policy_basis, recommended_actions, and citations. Output JSON only, without Markdown. Use this exact shape: {"risk_summary":"...","policy_basis":"...","recommended_actions":["..."],"citations":["[D1]","[E1]"]}. Use only the supplied trusted answers and citations. Do not create facts or citations. citations must include at least one [D#] and one [E#], and each must be copied from the supplied evidence.''\<close>

definition synthesis_messages :: "synthesis_input \<Rightarrow> json list" where
  "synthesis_messages i = [message ''system'' synthesis_rules, message ''user''
     (lit ''Original request:'' @ [10] @ si_request i @ [10, 10]
      @ lit ''Data subquery:'' @ [10] @ si_data_query i @ [10]
      @ lit ''Trusted data answer:'' @ [10] @ si_data_answer i @ [10]
      @ lit ''Data citations:'' @ [10] @ py_join (lit '', '') (si_data_citations i) @ [10, 10]
      @ lit ''Knowledge subquery:'' @ [10] @ si_knowledge_query i @ [10]
      @ lit ''Trusted knowledge answer:'' @ [10] @ si_knowledge_answer i @ [10]
      @ lit ''Knowledge citations:'' @ [10] @ py_join (lit '', '') (si_knowledge_citations i))]"

definition safe_finish_reason :: "json \<Rightarrow> pystr option" where
  "safe_finish_reason v = (case v of
       JStr s \<Rightarrow> if s \<in> lit ` {''stop'', ''length'', ''tool_calls'', ''content_filter''} then Some s else None
     | _ \<Rightarrow> None)"

definition synthesis_of_json :: "json \<Rightarrow> synthesis_result option" where
  "synthesis_of_json v = (case v of
       JObj fs \<Rightarrow>
         if list_ex (\<lambda>kv. fst kv \<notin> lit ` {''risk_summary'', ''policy_basis'', ''recommended_actions'', ''citations''}) fs
         then None
         else (case (jget fs ''risk_summary'', jget fs ''policy_basis'', jget fs ''recommended_actions'', jget fs ''citations'') of
             (JStr summary, JStr policy, JList actions, JList citations) \<Rightarrow>
               (case (strings_of actions, strings_of citations) of
                  (Some actions, Some citations) \<Rightarrow>
                    (case new_synthesis_result summary policy actions citations of Inl _ \<Rightarrow> None | Inr r \<Rightarrow> Some r)
                | _ \<Rightarrow> None)
           | _ \<Rightarrow> None)
     | _ \<Rightarrow> None)"

definition citations_are_bounded :: "synthesis_result \<Rightarrow> synthesis_input \<Rightarrow> bool" where
  "citations_are_bounded r i \<longleftrightarrow> sy_citations r \<noteq> []
     \<and> set (sy_citations r) \<subseteq> set (si_data_citations i) \<union> set (si_knowledge_citations i)
     \<and> list_ex (skill_citation 68) (sy_citations r) \<and> list_ex (skill_citation 69) (sy_citations r)"

definition response_error :: "string \<Rightarrow> string \<Rightarrow> pystr option \<Rightarrow> synth_error" where
  "response_error code stage finish = \<lparr>se_code = lit code, se_http = None, se_stage = Some stage, se_finish = finish\<rparr>"

definition parse_synthesis ::
  "(pystr \<Rightarrow> json option) \<Rightarrow> json \<Rightarrow> synthesis_input \<Rightarrow> synth_error + synthesis_result" where
  "parse_synthesis parse response i = (case jfield response ''choices'' of
       JList [JObj choice] \<Rightarrow>
         (let reason = jget choice ''finish_reason''; finish = safe_finish_reason reason in
          if reason = JStr (lit ''length'')
          then Inl (response_error ''inventory_risk_synthesizer_truncated'' ''response_finish'' (Some (lit ''length'')))
          else if reason \<noteq> JStr (lit ''stop'')
          then Inl (response_error ''inventory_risk_synthesizer_invalid_finish_reason'' ''response_finish'' finish)
          else (case jfield (jget choice ''message'') ''content'' of
              JStr content \<Rightarrow>
                if blank content
                then Inl (response_error ''inventory_risk_synthesizer_empty_content'' ''response_content'' finish)
                else (case parse content of
                    None \<Rightarrow> Inl (response_error ''inventory_risk_synthesizer_invalid_json'' ''response_json'' finish)
                  | Some v \<Rightarrow> (case synthesis_of_json v of
                        None \<Rightarrow> Inl (response_error ''inventory_risk_synthesizer_schema_invalid'' ''response_schema'' finish)
                      | Some r \<Rightarrow> if citations_are_bounded r i then Inr r
                          else Inl (response_error ''inventory_risk_synthesis_citations_invalid'' ''response_citations'' finish)))
            | _ \<Rightarrow> Inl (response_error ''inventory_risk_synthesizer_empty_content'' ''response_content'' finish)))
     | _ \<Rightarrow> Inl (response_error ''inventory_risk_synthesizer_missing_choice'' ''response_choices'' None))"

definition map_provider_error :: "pystr \<Rightarrow> int option \<Rightarrow> synth_error" where
  "map_provider_error code http =
     (if code = lit ''tool_calling_provider_http_error''
      then \<lparr>se_code = lit ''inventory_risk_synthesizer_http_error'', se_http = http, se_stage = None, se_finish = None\<rparr>
      else \<lparr>se_code = (if code = lit ''tool_calling_provider_unavailable''
              then lit ''inventory_risk_synthesizer_unavailable''
              else lit ''inventory_risk_synthesizer_invalid_response''),
            se_http = None, se_stage = None, se_finish = None\<rparr>)"

definition provider_synthesize ::
  "(json list \<Rightarrow> 'w \<Rightarrow> chat_reply \<times> 'w) \<Rightarrow> (pystr \<Rightarrow> json option) \<Rightarrow> synthesis_input \<Rightarrow> 'w \<Rightarrow> synth_reply \<times> 'w" where
  "provider_synthesize chat parse i w =
     (let failed = (\<lambda>code. SynthFailed \<lparr>se_code = lit code, se_http = None, se_stage = None, se_finish = None\<rparr>)
      in case chat (synthesis_messages i) w of
        (ChatCancelled, w) \<Rightarrow> (SynthCancelled, w)
      | (ChatError code http, w) \<Rightarrow> (SynthFailed (map_provider_error code http), w)
      | (ChatUnavailable, w) \<Rightarrow> (failed ''inventory_risk_synthesizer_unavailable'', w)
      | (ChatThrew, w) \<Rightarrow> (failed ''inventory_risk_synthesizer_invalid_response'', w)
      | (ChatResponse response, w) \<Rightarrow>
          (case parse_synthesis parse response i of Inl e \<Rightarrow> SynthFailed e | Inr r \<Rightarrow> Synthesized r, w))"

subsection \<open>Applicability\<close>

text \<open>
  The topics, in Chinese and in English. To look for one of them, lowering matters only where it yields
  a letter of a topic: for the capital letters of ASCII, the Kelvin sign and the dotted capital i.
\<close>

definition topics :: "pystr list" where
  "topics = [[24211, 23384], [32570, 36135], [31215, 21387], [34917, 36135], [23433, 20840, 24211, 23384],
     [24211, 23384, 21608, 36716], [26029, 20379], [20379, 24212, 39118, 38505], lit ''inventory'',
     lit ''stockout'', lit ''overstock'', lit ''replenishment'', lit ''safety stock'',
     lit ''inventory turnover'', lit ''supply risk'']"

definition topic_lower :: "pystr \<Rightarrow> pystr" where
  "topic_lower s = concat (map (\<lambda>c. if 65 \<le> c \<and> c \<le> 90 then [c + 32]
     else if c = 8490 then [107] else if c = 304 then [105, 775] else [c]) s)"

definition mixed_applicable :: "pystr \<Rightarrow> router_decision \<Rightarrow> bool" where
  "mixed_applicable request d \<longleftrightarrow> rd_route d = MixedRoute \<and> (case (rd_data d, rd_knowledge d) of
       (Some dq, Some kq) \<Rightarrow> \<not> blank dq \<and> \<not> blank kq
         \<and> list_ex (\<lambda>t. sublist t (topic_lower (py_join [32] [request, dq, kq]))) topics
     | _ \<Rightarrow> False)"

subsection \<open>The children\<close>

definition child_call ::
  "'w skill \<Rightarrow> pystr \<Rightarrow> router_decision \<Rightarrow> pystr option \<Rightarrow> security_context option \<Rightarrow> skill_call" where
  "child_call s query d user sec =
     (if sl_with_trace s then TraceCall query d user (if sl_takes_security s then sec else None)
      else (case user of
          Some u \<Rightarrow> if sl_with_context s then ContextCall query d u else PlainCall query d
        | None \<Rightarrow> PlainCall query d))"

definition sub_decision :: "router_decision \<Rightarrow> request_route \<Rightarrow> pystr \<Rightarrow> string + router_decision" where
  "sub_decision d route subquery = new_router_decision route subquery (rd_reason d)
     (if route = KnowledgeRoute then Some subquery else None) (if route = DataRoute then Some subquery else None)
     None (rd_confidence d)"

definition child_valid :: "pystr \<Rightarrow> request_route \<Rightarrow> pystr \<Rightarrow> nat \<Rightarrow> skill_result \<Rightarrow> bool" where
  "child_valid name route tool letter r \<longleftrightarrow> sr_status r = SkillCompleted \<and> sr_name r = name
     \<and> sr_route r = route \<and> sr_tool r = Some tool
     \<and> (case sr_answer r of None \<Rightarrow> False | Some a \<Rightarrow> \<not> blank a)
     \<and> sr_citations r \<noteq> [] \<and> list_all (skill_citation letter) (sr_citations r)"

definition mixed_failed :: "string list \<Rightarrow> pystr \<Rightarrow> skill_result skill_reply" where
  "mixed_failed steps code = reply_of (new_skill_result SkillFailed inventory_risk_skill (lit ''1.0.0'')
     MixedRoute None [] (map lit steps) None (Some code))"

text \<open>
  One child: its valid result, or the reply the skill ends with. The two stages differ in the word that
  occurs in their step and codes, and in what a valid result is.
\<close>

definition mixed_child ::
  "string \<Rightarrow> (skill_result \<Rightarrow> bool) \<Rightarrow> string list \<Rightarrow> 'w skill \<Rightarrow> skill_call \<Rightarrow> request_runtime \<Rightarrow> 'w
     \<Rightarrow> (skill_result skill_reply + skill_result) \<times> request_runtime \<times> 'w" where
  "mixed_child word valid steps s call rt w =
     (let failed = (\<lambda>suffix. Inl (mixed_failed (steps @ [''execute_'' @ word @ ''_skill''])
            (lit (''inventory_risk_'' @ word @ suffix))))
      in case sl_run s call rt w of
        (Cancelled, rt, w) \<Rightarrow> (Inl Cancelled, rt, w)
      | (Returned r, rt, w) \<Rightarrow> (if valid r then Inr r
          else if sr_status r = SkillFailed then failed ''_skill_failed'' else failed ''_skill_invalid'', rt, w)
      | (NotAResult, rt, w) \<Rightarrow> (failed ''_skill_invalid'', rt, w)
      | (Threw, rt, w) \<Rightarrow> (failed ''_skill_failed'', rt, w)
      | (Refused e, rt, w) \<Rightarrow> (failed ''_skill_failed'', rt, w))"

definition data_valid :: "skill_result \<Rightarrow> bool" where
  "data_valid = child_valid data_skill_name DataRoute data_tool_name 68"

definition knowledge_valid :: "skill_result \<Rightarrow> bool" where
  "knowledge_valid = child_valid knowledge_skill_name KnowledgeRoute knowledge_tool_name 69"

record 'w mixed =
  mx_data :: "'w skill"
  mx_knowledge :: "'w skill"
  mx_synth :: "synthesis_input \<Rightarrow> 'w \<Rightarrow> synth_reply \<times> 'w"
  mx_dump :: "json \<Rightarrow> pystr"
  mx_parse :: "pystr \<Rightarrow> json option"

definition dependency_valid :: "'w skill \<Rightarrow> pystr \<Rightarrow> request_route \<Rightarrow> bool" where
  "dependency_valid s name route \<longleftrightarrow> sl_name s = name \<and> sl_route s = route"

definition new_mixed ::
  "'w skill \<Rightarrow> 'w skill \<Rightarrow> (synthesis_input \<Rightarrow> 'w \<Rightarrow> synth_reply \<times> 'w) \<Rightarrow> (json \<Rightarrow> pystr) \<Rightarrow> (pystr \<Rightarrow> json option)
     \<Rightarrow> string + 'w mixed" where
  "new_mixed data knowledge synth dump parse =
     (if dependency_valid data data_skill_name DataRoute
        \<and> dependency_valid knowledge knowledge_skill_name KnowledgeRoute
      then Inr \<lparr>mx_data = data, mx_knowledge = knowledge, mx_synth = synth, mx_dump = dump, mx_parse = parse\<rparr>
      else Inl ''inventory_risk_dependency_invalid'')"

definition data_stage ::
  "'w mixed \<Rightarrow> pystr \<Rightarrow> router_decision \<Rightarrow> pystr option \<Rightarrow> security_context option \<Rightarrow> request_runtime \<Rightarrow> 'w
     \<Rightarrow> (skill_result skill_reply + skill_result) \<times> request_runtime \<times> 'w" where
  "data_stage M query d user sec = mixed_child ''data'' data_valid [''validate_mixed_request'']
     (mx_data M) (child_call (mx_data M) query d user sec)"

definition knowledge_stage ::
  "'w mixed \<Rightarrow> pystr \<Rightarrow> router_decision \<Rightarrow> pystr option \<Rightarrow> security_context option \<Rightarrow> request_runtime \<Rightarrow> 'w
     \<Rightarrow> (skill_result skill_reply + skill_result) \<times> request_runtime \<times> 'w" where
  "knowledge_stage M query d user sec = mixed_child ''knowledge'' knowledge_valid
     [''validate_mixed_request'', ''execute_data_skill'', ''validate_data_result'']
     (mx_knowledge M) (child_call (mx_knowledge M) query d user sec)"

definition child_steps :: "string list" where
  "child_steps = [''validate_mixed_request'', ''execute_data_skill'', ''validate_data_result'', ''execute_knowledge_skill'']"

definition answer_of :: "skill_result \<Rightarrow> pystr" where
  "answer_of r = (case sr_answer r of Some a \<Rightarrow> a | None \<Rightarrow> [])"

subsection \<open>The synthesis\<close>

definition synthesis_content_ok :: "synthesis_result \<Rightarrow> bool" where
  "synthesis_content_ok s \<longleftrightarrow> \<not> blank (sy_summary s) \<and> \<not> blank (sy_policy s)
     \<and> sy_actions s \<noteq> [] \<and> list_all (\<lambda>a. \<not> blank a) (sy_actions s)"

definition ordered_mixed_citations :: "pystr list \<Rightarrow> pystr list \<Rightarrow> pystr list \<Rightarrow> pystr list option" where
  "ordered_mixed_citations cs ds ks =
     (if cs = [] \<or> \<not> set cs \<subseteq> set ds \<union> set ks \<or> \<not> list_ex (skill_citation 68) cs
        \<or> \<not> list_ex (skill_citation 69) cs
      then None else Some (filter (\<lambda>c. c \<in> set cs) (ds @ ks)))"

definition render_answer :: "synthesis_result \<Rightarrow> pystr list \<Rightarrow> pystr" where
  "render_answer s cs =
     [39118, 38505, 27010, 35272, 58, 10] @ sy_summary s @ [10, 10]
     @ [21046, 24230, 20381, 25454, 58, 10] @ sy_policy s @ [10, 10]
     @ [24314, 35758, 25514, 26045, 58, 10]
     @ py_join [10] (map (\<lambda>(i, a). py_nat_str i @ lit ''. '' @ a) (zip [1..<Suc (length (sy_actions s))] (sy_actions s)))
     @ [10, 10, 24341, 29992, 58, 10] @ py_join [32] cs"

definition mixed_synthesize ::
  "'w mixed \<Rightarrow> skill_result \<Rightarrow> skill_result \<Rightarrow> synthesis_input \<Rightarrow> request_runtime \<Rightarrow> 'w
     \<Rightarrow> skill_result skill_reply \<times> request_runtime \<times> 'w" where
  "mixed_synthesize M dr kr i rt w =
     (let failed = mixed_failed (child_steps @ [''synthesize_inventory_risk''])
      in case mx_synth M i w of
        (SynthCancelled, w) \<Rightarrow> (Cancelled, rt, w)
      | (SynthFailed e, w) \<Rightarrow> (failed (se_code e), rt, w)
      | (SynthThrew, w) \<Rightarrow> (failed (lit ''inventory_risk_synthesizer_failed''), rt, w)
      | (NotASynthesis, w) \<Rightarrow> (failed (lit ''inventory_risk_synthesis_invalid''), rt, w)
      | (Synthesized s, w) \<Rightarrow>
          (if \<not> synthesis_content_ok s then failed (lit ''inventory_risk_synthesis_invalid'')
           else (case ordered_mixed_citations (sy_citations s) (sr_citations dr) (sr_citations kr) of
               None \<Rightarrow> failed (lit ''inventory_risk_synthesis_citations_invalid'')
             | Some cs \<Rightarrow> reply_of (new_skill_result SkillCompleted inventory_risk_skill (lit ''1.0.0'') MixedRoute
                 (Some (render_answer s cs)) cs
                 [data_skill_name, data_tool_name, knowledge_skill_name, knowledge_tool_name,
                  lit ''synthesize_inventory_risk''] None None)), rt, w))"

text \<open>
  In a request context the two results are recorded, selected under the policy of the synthesis and read
  back; \<open>k\<close> is what is done with the input built from them.
\<close>

definition with_mixed_context ::
  "'w mixed \<Rightarrow> pystr \<Rightarrow> router_decision \<Rightarrow> router_decision \<Rightarrow> skill_result \<Rightarrow> skill_result
     \<Rightarrow> (synthesis_input \<Rightarrow> request_runtime \<Rightarrow> 'w \<Rightarrow> skill_result skill_reply \<times> request_runtime \<times> 'w)
     \<Rightarrow> request_runtime \<Rightarrow> 'w \<Rightarrow> skill_result skill_reply \<times> request_runtime \<times> 'w" where
  "with_mixed_context M user dd kd dr kr k rt w =
     or_throw (rt_verified_answer_summary (mx_dump M) (lit ''mixed-data-answer-summary'') (answer_of dr)
       (rd_query dd) (sr_citations dr) [user] rt) rt (\<lambda>ds rt.
     or_throw (rt_verified_answer_summary (mx_dump M) (lit ''mixed-knowledge-answer-summary'') (answer_of kr)
       (rd_query kd) (sr_citations kr) [user] rt) rt (\<lambda>ks rt.
     or_throw (rt_evidence (lit ''mixed-data-evidence'') (answer_of dr) Data (sr_citations dr) [ci_id ds] rt) rt (\<lambda>_ rt.
     or_throw (rt_evidence (lit ''mixed-knowledge-evidence'') (answer_of kr) Knowledge (sr_citations kr) [ci_id ks] rt) rt (\<lambda>_ rt.
     case ctx_get user (rt_items rt) of
       None \<Rightarrow> (mixed_failed child_steps (lit ''inventory_risk_context_failed''), rt, w)
     | Some u \<Rightarrow> or_throw (select_for_mixed_synthesis u ds ks (Aware (rt_created_at rt)) rt) rt (\<lambda>selection rt.
         case project_mixed (mx_parse M) selection user (ci_id ds) (ci_id ks) of
           Inl _ \<Rightarrow> (Threw, rt, w)
         | Inr (request, d, k') \<Rightarrow>
             (case new_synthesis_input \<lparr>si_request = request, si_data_query = as_subquery d,
                 si_data_answer = as_answer d, si_data_citations = as_citations d,
                 si_knowledge_query = as_subquery k', si_knowledge_answer = as_answer k',
                 si_knowledge_citations = as_citations k'\<rparr> of
                Inl _ \<Rightarrow> (Threw, rt, w)
              | Inr i \<Rightarrow> k i rt w)) w) w) w) w) w"

definition without_context ::
  "pystr \<Rightarrow> pystr \<Rightarrow> pystr \<Rightarrow> skill_result \<Rightarrow> skill_result
     \<Rightarrow> (synthesis_input \<Rightarrow> request_runtime \<Rightarrow> 'w \<Rightarrow> skill_result skill_reply \<times> request_runtime \<times> 'w)
     \<Rightarrow> request_runtime \<Rightarrow> 'w \<Rightarrow> skill_result skill_reply \<times> request_runtime \<times> 'w" where
  "without_context query dq kq dr kr k rt w =
     (case new_synthesis_input \<lparr>si_request = query, si_data_query = dq, si_data_answer = answer_of dr,
         si_data_citations = sr_citations dr, si_knowledge_query = kq, si_knowledge_answer = answer_of kr,
         si_knowledge_citations = sr_citations kr\<rparr> of
        Inl _ \<Rightarrow> (Threw, rt, w)
      | Inr i \<Rightarrow> k i rt w)"

subsection \<open>Execution\<close>

text \<open>After the data result is known to be valid: the knowledge child, the input, the synthesis.\<close>

definition after_data ::
  "'w mixed \<Rightarrow> pystr \<Rightarrow> router_decision \<Rightarrow> pystr \<Rightarrow> pystr \<Rightarrow> router_decision \<Rightarrow> pystr option
     \<Rightarrow> security_context option \<Rightarrow> skill_result \<Rightarrow> request_runtime \<Rightarrow> 'w
     \<Rightarrow> skill_result skill_reply \<times> request_runtime \<times> 'w" where
  "after_data M query d dq kq dd user sec dr rt w =
     (case sub_decision d KnowledgeRoute kq of
        Inl _ \<Rightarrow> (Threw, rt, w)
      | Inr kd \<Rightarrow> (case knowledge_stage M kq kd user sec rt w of
          (Inl reply, rt, w) \<Rightarrow> (reply, rt, w)
        | (Inr kr, rt, w) \<Rightarrow> (case user of
            Some u \<Rightarrow> with_mixed_context M u dd kd dr kr (mixed_synthesize M dr kr) rt w
          | None \<Rightarrow> without_context query dq kq dr kr (mixed_synthesize M dr kr) rt w)))"

definition mixed_execute ::
  "'w mixed \<Rightarrow> pystr \<Rightarrow> router_decision \<Rightarrow> pystr option \<Rightarrow> security_context option \<Rightarrow> request_runtime \<Rightarrow> 'w
     \<Rightarrow> skill_result skill_reply \<times> request_runtime \<times> 'w" where
  "mixed_execute M query d user sec rt w =
     (if \<not> mixed_applicable query d
      then (mixed_failed [''validate_mixed_request''] (lit ''inventory_risk_route_invalid''), rt, w)
      else (let dq = the (rd_data d); kq = the (rd_knowledge d) in
        case sub_decision d DataRoute dq of
          Inl _ \<Rightarrow> (Threw, rt, w)
        | Inr dd \<Rightarrow> (case data_stage M dq dd user sec rt w of
            (Inl reply, rt, w) \<Rightarrow> (reply, rt, w)
          | (Inr dr, rt, w) \<Rightarrow> after_data M query d dq kq dd user sec dr rt w)))"

definition mixed_definition :: skill_definition where
  "mixed_definition = \<lparr>sd_name = inventory_risk_skill, sd_version = lit ''1.0.0'',
     sd_description = lit ''Diagnose inventory risk from data and policy evidence.'',
     sd_route = MixedRoute, sd_input = [lit ''request'', lit ''RouterDecision(mixed)''],
     sd_tools = [data_tool_name, knowledge_tool_name],
     sd_steps = map lit [''validate_mixed_request'', ''execute_data_skill'', ''validate_data_result'',
       ''execute_knowledge_skill'', ''validate_knowledge_result''],
     sd_output = [lit ''future mixed diagnosis''],
     sd_failures = map lit [''inventory_risk_route_invalid'', ''inventory_risk_data_skill_failed'',
       ''inventory_risk_data_skill_invalid'', ''inventory_risk_knowledge_skill_failed'',
       ''inventory_risk_knowledge_skill_invalid'', ''inventory_risk_synthesizer_failed'',
       ''inventory_risk_synthesizer_http_error'', ''inventory_risk_synthesizer_unavailable'',
       ''inventory_risk_synthesizer_invalid_response'', ''inventory_risk_synthesizer_missing_choice'',
       ''inventory_risk_synthesizer_invalid_finish_reason'', ''inventory_risk_synthesizer_truncated'',
       ''inventory_risk_synthesizer_empty_content'', ''inventory_risk_synthesizer_invalid_json'',
       ''inventory_risk_synthesizer_schema_invalid'', ''inventory_risk_synthesis_invalid'',
       ''inventory_risk_synthesis_citations_invalid'', ''inventory_risk_synthesis_not_implemented''],
     sd_requires = [data_skill_name, knowledge_skill_name]\<rparr>"

definition mixed_skill :: "'w mixed \<Rightarrow> 'w skill" where
  "mixed_skill M = \<lparr>sl_definition = mixed_definition, sl_applicable = mixed_applicable,
     sl_with_trace = True, sl_with_context = True, sl_takes_security = True,
     sl_run = entry_point (\<lambda>query d user sec rt w. mixed_execute M query d (Some user) sec rt w)
       (\<lambda>query d sec rt w. mixed_execute M query d None sec rt w)\<rparr>"

subsection \<open>Stages\<close>

lemma mixed_failed_result:
  "mixed_failed steps code = Returned r \<Longrightarrow> skill_result_ok r \<and> sr_status r = SkillFailed
     \<and> sr_name r = inventory_risk_skill \<and> sr_route r = MixedRoute"
  by (auto simp: mixed_failed_def reply_of_Returned dest: new_skill_result_Inr new_skill_result_ok)

lemma mixed_child_cases:
  assumes "mixed_child word valid steps s call rt w = (out, rt', w')"
  obtains (valid) r where "out = Inr r" "valid r" "sl_run s call rt w = (Returned r, rt', w')"
  | (failed) reply x where "out = Inl reply" "reply = Cancelled \<or> (\<exists>steps code. reply = mixed_failed steps code)"
      "sl_run s call rt w = (x, rt', w')" "\<And>r. x = Returned r \<Longrightarrow> \<not> valid r"
proof -
  obtain x rt1 w1 where run: "sl_run s call rt w = (x, rt1, w1)" by (rule prod_cases3)
  from assms have e: "rt' = rt1" "w' = w1"
    unfolding mixed_child_def Let_def run by (cases x; simp)+
  show thesis
  proof (cases "\<exists>r. x = Returned r \<and> valid r")
    case True
    then obtain r where r: "x = Returned r" "valid r" by blast
    then have "out = Inr r" using assms unfolding mixed_child_def Let_def run by simp
    then show thesis using r run e by (intro that(1)) simp_all
  next
    case False
    from assms obtain reply where "out = Inl reply"
      "reply = Cancelled \<or> (\<exists>steps code. reply = mixed_failed steps code)"
      unfolding mixed_child_def Let_def run using False
      by (cases x) (auto split: if_splits)
    then show thesis using run e False by (intro that(2)) auto
  qed
qed

lemma mixed_synthesize_Returned:
  assumes "mixed_synthesize M dr kr i rt w = (Returned r, rt', w')"
  shows "skill_result_ok r \<and> sr_name r = inventory_risk_skill \<and> sr_route r = MixedRoute
     \<and> (sr_status r = SkillCompleted \<longrightarrow> (\<exists>s. mx_synth M i w = (Synthesized s, w')
       \<and> ordered_mixed_citations (sy_citations s) (sr_citations dr) (sr_citations kr) = Some (sr_citations r)
       \<and> sr_answer r = Some (py_strip (render_answer s (sr_citations r)))))"
proof -
  obtain x w1 where x: "mx_synth M i w = (x, w1)" by (rule prod.exhaust)
  note a = assms [unfolded mixed_synthesize_def Let_def x prod.case]
  show ?thesis
  proof (cases x)
    case (Synthesized s)
    from a show ?thesis unfolding Synthesized x
      by (auto simp: reply_of_Returned split: if_splits option.splits
          dest: new_skill_result_Inr new_skill_result_ok mixed_failed_result)
  qed (use a in \<open>auto dest: mixed_failed_result\<close>)
qed

lemma mixed_synthesize_runtime: "mixed_synthesize M dr kr i rt w = (reply, rt', w') \<Longrightarrow> rt' = rt"
  by (auto simp: mixed_synthesize_def Let_def split: prod.splits synth_reply.splits)

subsection \<open>The two results survive the context\<close>

definition summary_json :: "pystr \<Rightarrow> pystr \<Rightarrow> pystr list \<Rightarrow> json" where
  "summary_json answer subquery citations = JObj [(lit ''answer'', JStr answer),
     (lit ''subquery'', JStr subquery), (lit ''citations'', JList (map JStr citations))]"

text \<open>The JSON functions read back the summaries they write.\<close>

definition summaries_roundtrip :: "(json \<Rightarrow> pystr) \<Rightarrow> (pystr \<Rightarrow> json option) \<Rightarrow> bool" where
  "summaries_roundtrip dump parse \<longleftrightarrow>
     (\<forall>a q cs. parse (dump (summary_json a q cs)) = Some (summary_json a q cs))"

definition asked_about :: "synthesis_input \<Rightarrow> skill_result \<Rightarrow> skill_result \<Rightarrow> bool" where
  "asked_about i dr kr \<longleftrightarrow>
     si_data_answer i = py_strip (answer_of dr) \<and> si_data_citations i = sr_citations dr
     \<and> si_knowledge_answer i = py_strip (answer_of kr) \<and> si_knowledge_citations i = sr_citations kr
     \<and> distinct (sr_citations dr) \<and> distinct (sr_citations kr)"

lemma new_synthesis_input_Inr:
  "new_synthesis_input i = Inr j \<Longrightarrow> si_data_answer j = py_strip (si_data_answer i)
     \<and> si_knowledge_answer j = py_strip (si_knowledge_answer i)
     \<and> si_data_citations j = si_data_citations i \<and> si_knowledge_citations j = si_knowledge_citations i
     \<and> distinct (si_data_citations i) \<and> distinct (si_knowledge_citations i)"
  by (auto simp: new_synthesis_input_def res_simps text_field_def unique_citations_def split: if_splits)

lemma project_summary_of:
  assumes "distinct (map ci_id items)" "x \<in> set items" "ci_kind x = StructuredSummary"
    and "parse (ci_content x) = Some (summary_json a q cs)"
    and "project_summary parse items (ci_id x) domain = Inr s"
  shows "s = \<lparr>as_answer = a, as_subquery = q, as_citations = cs\<rparr>"
  using assms(5)
  by (simp add: project_summary_def project_require_ok [OF assms(1-3)] assms(4) summary_json_def jget_def
      Let_def json_text_def map_idI split: if_splits)

lemma mixed_selection_items:
  assumes "select_for_mixed_synthesis u d k (Aware now) rt = Inr (selection, rt')" and "rt_inv rt"
    and "x \<in> set (rt_items rt)" and "x = d \<or> x = k"
  shows "x \<in> set (sr_items selection)" and "distinct (map ci_id (sr_items selection))"
proof -
  from assms(2) have ok: "items_ok (rt_items rt)" and B: "0 < available_tokens (bc_mixed (rt_budgets rt))"
    by (simp_all add: rt_inv_def budgets_ok_def)
  note s = rt_select_sound [OF assms(1) [unfolded select_for_mixed_synthesis_def mixed_synthesis_policy_def] ok refl B]
  show "distinct (map ci_id (sr_items selection))" by (rule s(3))
  from s(2) assms(4) obtain y where y: "y \<in> set (sr_items selection)" "ci_id y = ci_id x" by fastforce
  then have "y \<in> set (rt_items rt)" using s(1) by blast
  with y(2) assms(3) ok have "y = x" by (auto simp: items_ok_def distinct_map inj_on_def)
  with y(1) show "x \<in> set (sr_items selection)" by simp
qed

lemma or_throw_reach:
  assumes "or_throw m rt k w = out" and "rt_step\<^sup>*\<^sup>* rt0 rt"
    and "\<And>a rt1. m = Inr (a, rt1) \<Longrightarrow> rt_step rt rt1"
    and "rt_step\<^sup>*\<^sup>* rt0 rt \<Longrightarrow> out = (Threw, rt, w) \<Longrightarrow> P"
    and "\<And>a rt1. m = Inr (a, rt1) \<Longrightarrow> rt_step\<^sup>*\<^sup>* rt0 rt1 \<Longrightarrow> k a rt1 = out \<Longrightarrow> P"
  shows P
proof (cases m)
  case (Inl e)
  with assms(1,2,4) show P by (simp add: or_throw_def)
next
  case (Inr p)
  then obtain a rt1 where p: "m = Inr (a, rt1)" by (cases p) simp
  from rtranclp.rtrancl_into_rtrancl [OF assms(2) assms(3) [OF p]] have "rt_step\<^sup>*\<^sup>* rt0 rt1" .
  moreover from assms(1) p have "k a rt1 = out" by (simp add: or_throw_def)
  ultimately show P by (rule assms(5) [OF p])
qed

lemma rt_steps_inv: "rt_step\<^sup>*\<^sup>* rt rt' \<Longrightarrow> rt_inv rt \<Longrightarrow> rt_inv rt'"
  by (induction rule: rtranclp_induct) (auto intro: rt_step_inv)

lemma answer_summary_added:
  assumes "rt_verified_answer_summary dump label a q cs sources rt = Inr (i, rt')"
  shows "rt_step rt rt'" and "i \<in> set (rt_items rt')" and "ci_kind i = StructuredSummary"
    and "ci_content i = dump (summary_json a q cs)"
  using assms rt_step.intros(6)
  unfolding rt_verified_answer_summary_def summary_json_def [symmetric]
  by (auto simp: rt_verified_summary_def rt_add_item_def rt_add_def ctx_add_def res_simps
      dest!: new_context_item_wf split: if_splits)

lemma select_for_mixed_step: "select_for_mixed_synthesis u d k now rt = Inr (x, rt') \<Longrightarrow> rt_step rt rt'"
  unfolding select_for_mixed_synthesis_def by (rule rt_step.intros(8))

lemma mixed_input_asked:
  assumes sel: "select_for_mixed_synthesis u ds ks (Aware now) rt = Inr (selection, rt')" and inv: "rt_inv rt"
    and ds: "ds \<in> set (rt_items rt)" "ci_kind ds = StructuredSummary"
      "ci_content ds = dump (summary_json (answer_of dr) dq (sr_citations dr))"
    and ks: "ks \<in> set (rt_items rt)" "ci_kind ks = StructuredSummary"
      "ci_content ks = dump (summary_json (answer_of kr) kq (sr_citations kr))"
    and p: "project_mixed parse selection user (ci_id ds) (ci_id ks) = Inr (request, d, k)"
    and i: "new_synthesis_input \<lparr>si_request = request, si_data_query = as_subquery d,
       si_data_answer = as_answer d, si_data_citations = as_citations d, si_knowledge_query = as_subquery k,
       si_knowledge_answer = as_answer k, si_knowledge_citations = as_citations k\<rparr> = Inr i"
    and rt: "summaries_roundtrip dump parse"
  shows "asked_about i dr kr"
proof -
  note s = mixed_selection_items [OF sel inv]
  from p have d: "project_summary parse (sr_items selection) (ci_id ds) Data = Inr d"
    and k: "project_summary parse (sr_items selection) (ci_id ks) Knowledge = Inr k"
    by (auto simp: project_mixed_def res_simps)
  have "as_answer d = answer_of dr \<and> as_citations d = sr_citations dr"
    using project_summary_of [OF s(2) [OF ds(1)] s(1) [OF ds(1)] ds(2) _ d] rt
    by (simp add: ds(3) summaries_roundtrip_def)
  moreover have "as_answer k = answer_of kr \<and> as_citations k = sr_citations kr"
    using project_summary_of [OF s(2) [OF ks(1)] s(1) [OF ks(1)] ks(2) _ k] rt
    by (simp add: ks(3) summaries_roundtrip_def)
  ultimately show ?thesis
    using new_synthesis_input_Inr [OF i] by (simp add: asked_about_def)
qed

text \<open>
  The run over a context ends in an exception, in the failure of a missing request item, or in the
  continuation on an input that repeats the two results; in between the runtime only makes its own steps.
\<close>

lemma with_mixed_context_cases:
  assumes "with_mixed_context M user dd kd dr kr k rt w = out" and "rt_inv rt"
  shows "\<exists>rt1. rt_step\<^sup>*\<^sup>* rt rt1 \<and> (out = (Threw, rt1, w)
     \<or> out = (mixed_failed child_steps (lit ''inventory_risk_context_failed''), rt1, w)
     \<or> (\<exists>i. out = k i rt1 w \<and> (summaries_roundtrip (mx_dump M) (mx_parse M) \<longrightarrow> asked_about i dr kr)))"
    (is "\<exists>rt1. ?reach rt1 \<and> ?out rt1")
  using assms(1) [unfolded with_mixed_context_def] rtranclp.rtrancl_refl
proof (rule or_throw_reach, goal_cases)
  case (3 ds rt1)
  note ds = answer_summary_added(2-4) [OF 3(1)]
  from 3(3,2) show ?case
  proof (rule or_throw_reach, goal_cases)
    case (3 ks rt2)
    note ks = answer_summary_added(2-4) [OF 3(1)]
    from answer_summary_added(1) [OF 3(1)] rt_step_grows have "ds \<in> set (rt_items rt2)" using ds(1) by blast
    note ds2 = this
    from 3(3,2) show ?case
    proof (rule or_throw_reach, goal_cases)
      case (3 e1 rt3)
      note e1 = 3(1)
      from 3(3,2) show ?case
      proof (rule or_throw_reach, goal_cases)
        case (3 e2 rt4)
        have grow: "set (rt_items rt2) \<subseteq> set (rt_items rt4)"
          using rt_step_grows [OF rt_step.intros(7) [OF e1]] rt_step_grows [OF rt_step.intros(7) [OF 3(1)]] by blast
        show ?case
        proof (cases "ctx_get user (rt_items rt4)")
          case None
          with 3(2,3) show ?thesis by auto
        next
          case (Some u)
          note c = 3(3) [unfolded Some option.case]
          from c 3(2) show ?thesis
          proof (rule or_throw_reach, goal_cases)
            case (3 selection rt5)
            have inv: "rt_inv rt4" using rt_steps_inv [OF \<open>rt_step\<^sup>*\<^sup>* rt rt4\<close> assms(2)] .
            have dsm: "ds \<in> set (rt_items rt4)" and ksm: "ks \<in> set (rt_items rt4)"
              using grow ds2 ks(1) by blast+
            note asked = mixed_input_asked [OF 3(1) inv dsm ds(2,3) ksm ks(2,3)]
            from 3(2,3) show ?case
              by (auto split: sum.splits prod.splits dest: asked)
          qed (auto intro: select_for_mixed_step)
        qed
      qed (auto intro: rt_step.intros(7))
    qed (auto intro: rt_step.intros(7))
  qed (auto intro: answer_summary_added(1))
qed (auto intro: answer_summary_added(1))

subsection \<open>One diagnosis\<close>

definition keeps_runtime :: "'w skill \<Rightarrow> bool" where
  "keeps_runtime s \<longleftrightarrow> (\<forall>call rt w reply rt' w'. sl_run s call rt w = (reply, rt', w') \<longrightarrow> rt_step\<^sup>*\<^sup>* rt rt')"

lemma keeps_runtimeD: "keeps_runtime s \<Longrightarrow> sl_run s call rt w = (reply, rt', w') \<Longrightarrow> rt_step\<^sup>*\<^sup>* rt rt'"
  unfolding keeps_runtime_def by blast

lemma domain_skills_keep: "keeps_runtime (data_skill ex)" "keeps_runtime (knowledge_skill ex)"
  unfolding keeps_runtime_def by (intro allI impI, erule domain_skills_step)+

definition mixed_ok :: "'w mixed \<Rightarrow> bool" where
  "mixed_ok M \<longleftrightarrow> keeps_runtime (mx_data M) \<and> keeps_runtime (mx_knowledge M)
     \<and> summaries_roundtrip (mx_dump M) (mx_parse M)"

text \<open>The replies that end a diagnosis early.\<close>

definition stopped :: "skill_result skill_reply \<Rightarrow> bool" where
  "stopped reply \<longleftrightarrow> reply = Threw \<or> reply = Cancelled \<or> (\<exists>steps code. reply = mixed_failed steps code)"

lemma stopped_simps [simp]: "stopped Threw" "stopped Cancelled" "stopped (mixed_failed steps code)"
  by (auto simp: stopped_def)

lemma stopped_Returned: "stopped (Returned r) \<Longrightarrow> skill_result_ok r \<and> sr_status r = SkillFailed
    \<and> sr_name r = inventory_risk_skill \<and> sr_route r = MixedRoute"
  unfolding stopped_def using mixed_failed_result by (metis skill_reply.distinct(3,7) skill_reply.simps(5,7,9,11))

lemma without_context_cases:
  assumes "without_context query dq kq dr kr k rt w = out"
  shows "out = (Threw, rt, w) \<or> (\<exists>i. out = k i rt w \<and> asked_about i dr kr)"
  using assms by (auto simp: without_context_def asked_about_def split: sum.splits dest!: new_synthesis_input_Inr)

lemma after_data_cases:
  assumes out: "after_data M query d dq kq dd user sec dr rt w = (reply, rt', w')"
    and inv: "rt_inv rt" and M: "mixed_ok M"
  shows "rt_step\<^sup>*\<^sup>* rt rt' \<and> (stopped reply \<or> (\<exists>kr call rt1 w1 i rt2.
     sl_run (mx_knowledge M) call rt w = (Returned kr, rt1, w1) \<and> knowledge_valid kr
     \<and> asked_about i dr kr \<and> mixed_synthesize M dr kr i rt2 w1 = (reply, rt', w')))"
proof (cases "sub_decision d KnowledgeRoute kq")
  case (Inl e)
  with out show ?thesis by (simp add: after_data_def)
next
  case (Inr kd)
  obtain x rt1 w1 where k: "knowledge_stage M kq kd user sec rt w = (x, rt1, w1)" by (rule prod_cases3)
  note out = out [unfolded after_data_def Inr sum.case k prod.case]
  from k [unfolded knowledge_stage_def] show ?thesis
  proof (cases rule: mixed_child_cases)
    case (valid kr)
    have reach: "rt_step\<^sup>*\<^sup>* rt rt1" using M keeps_runtimeD [OF _ valid(3)] by (simp add: mixed_ok_def)
    have "\<exists>rt2. rt_step\<^sup>*\<^sup>* rt1 rt2 \<and> (reply = Threw \<and> rt' = rt2
        \<or> reply = mixed_failed child_steps (lit ''inventory_risk_context_failed'') \<and> rt' = rt2
        \<or> (\<exists>i. (reply, rt', w') = mixed_synthesize M dr kr i rt2 w1 \<and> asked_about i dr kr))"
    proof (cases user)
      case None
      with out valid(1) have "without_context query dq kq dr kr (mixed_synthesize M dr kr) rt1 w1 = (reply, rt', w')" by simp
      from without_context_cases [OF this] show ?thesis by (intro exI [of _ rt1]) auto
    next
      case (Some u)
      with out valid(1) have "with_mixed_context M u dd kd dr kr (mixed_synthesize M dr kr) rt1 w1 = (reply, rt', w')" by simp
      from with_mixed_context_cases [OF this rt_steps_inv [OF reach inv]] M show ?thesis
        unfolding mixed_ok_def by auto
    qed
    then obtain rt2 where "rt_step\<^sup>*\<^sup>* rt1 rt2" and c: "reply = Threw \<and> rt' = rt2
        \<or> reply = mixed_failed child_steps (lit ''inventory_risk_context_failed'') \<and> rt' = rt2
        \<or> (\<exists>i. (reply, rt', w') = mixed_synthesize M dr kr i rt2 w1 \<and> asked_about i dr kr)" by blast
    then have "rt_step\<^sup>*\<^sup>* rt rt2" using reach by (metis rtranclp_trans)
    moreover have "rt' = rt2" using c mixed_synthesize_runtime by metis
    ultimately show ?thesis using c valid(2,3) by (metis stopped_simps(1,3))
  next
    case (failed early y)
    then have "stopped early" by (auto simp: stopped_def)
    moreover have "rt_step\<^sup>*\<^sup>* rt rt1" using M keeps_runtimeD [OF _ failed(3)] by (simp add: mixed_ok_def)
    ultimately show ?thesis using out failed(1) by simp
  qed
qed

lemma mixed_execute_cases:
  assumes out: "mixed_execute M query d user sec rt w = (reply, rt', w')"
    and inv: "rt_inv rt" and M: "mixed_ok M"
  shows "rt_step\<^sup>*\<^sup>* rt rt' \<and> (stopped reply \<or> (\<exists>dr c1 rt1 w1 kr c2 rt2 w2 i rt3.
     sl_run (mx_data M) c1 rt w = (Returned dr, rt1, w1) \<and> data_valid dr
     \<and> sl_run (mx_knowledge M) c2 rt1 w1 = (Returned kr, rt2, w2) \<and> knowledge_valid kr
     \<and> asked_about i dr kr \<and> mixed_synthesize M dr kr i rt3 w2 = (reply, rt', w')))"
proof (cases "mixed_applicable query d \<and> (\<exists>dd. sub_decision d DataRoute (the (rd_data d)) = Inr dd)")
  case False
  with out show ?thesis
    by (auto simp: mixed_execute_def Let_def split: if_splits sum.splits)
next
  case True
  then obtain dd where dd: "sub_decision d DataRoute (the (rd_data d)) = Inr dd" by blast
  obtain x rt1 w1 where k: "data_stage M (the (rd_data d)) dd user sec rt w = (x, rt1, w1)" by (rule prod_cases3)
  from out True dd k have out: "(case x of Inl reply \<Rightarrow> (reply, rt1, w1)
      | Inr dr \<Rightarrow> after_data M query d (the (rd_data d)) (the (rd_knowledge d)) dd user sec dr rt1 w1) = (reply, rt', w')"
    by (auto simp: mixed_execute_def Let_def split: sum.splits)
  from k [unfolded data_stage_def] show ?thesis
  proof (cases rule: mixed_child_cases)
    case (valid dr)
    have reach: "rt_step\<^sup>*\<^sup>* rt rt1" using M keeps_runtimeD [OF _ valid(3)] by (simp add: mixed_ok_def)
    from out valid(1) have a: "after_data M query d (the (rd_data d)) (the (rd_knowledge d)) dd user sec dr rt1 w1 = (reply, rt', w')"
      by simp
    from after_data_cases [OF a rt_steps_inv [OF reach inv] M] reach valid(2,3) show ?thesis
      by (meson rtranclp_trans)
  next
    case (failed early y)
    then have "stopped early" by (auto simp: stopped_def)
    moreover have "rt_step\<^sup>*\<^sup>* rt rt1" using M keeps_runtimeD [OF _ failed(3)] by (simp add: mixed_ok_def)
    ultimately show ?thesis using out failed(1) by simp
  qed
qed

lemma mixed_run_cases:
  assumes "sl_run (mixed_skill M) call rt w = (reply, rt', w')" and "rt_inv rt" and "mixed_ok M"
  shows "rt_step\<^sup>*\<^sup>* rt rt' \<and> (stopped reply \<or> (\<exists>dr c1 rt1 w1 kr c2 rt2 w2 i rt3.
     sl_run (mx_data M) c1 rt w = (Returned dr, rt1, w1) \<and> data_valid dr
     \<and> sl_run (mx_knowledge M) c2 rt1 w1 = (Returned kr, rt2, w2) \<and> knowledge_valid kr
     \<and> asked_about i dr kr \<and> mixed_synthesize M dr kr i rt3 w2 = (reply, rt', w')))"
proof -
  from assms(1) obtain query d user sec where "mixed_execute M query d user sec rt w = (reply, rt', w')"
    by (auto simp: mixed_skill_def entry_point_def split: skill_call.splits option.splits)
  from mixed_execute_cases [OF this assms(2,3)] show ?thesis .
qed

text \<open>The citations of a diagnosis: those the synthesis chose, in the order of the two results.\<close>

definition merged_citations :: "skill_result \<Rightarrow> skill_result \<Rightarrow> synthesis_result \<Rightarrow> pystr list" where
  "merged_citations dr kr s = filter (\<lambda>c. c \<in> set (sy_citations s)) (sr_citations dr)
     @ filter (\<lambda>c. c \<in> set (sy_citations s)) (sr_citations kr)"

lemma citation_letters: "skill_citation 68 c \<Longrightarrow> \<not> skill_citation 69 c"
  by (auto simp: skill_citation_def split: list.splits)

lemma ordered_mixed_citations_Some:
  assumes "ordered_mixed_citations (sy_citations s) (sr_citations dr) (sr_citations kr) = Some cs"
    and "data_valid dr" "knowledge_valid kr" "asked_about i dr kr"
  shows "cs = merged_citations dr kr s \<and> set cs = set (sy_citations s) \<and> distinct cs
    \<and> list_ex (skill_citation 68) cs \<and> list_ex (skill_citation 69) cs"
proof -
  have d: "\<forall>c \<in> set (sr_citations dr). skill_citation 68 c" "\<forall>c \<in> set (sr_citations kr). skill_citation 69 c"
    using assms(2,3) by (auto simp: data_valid_def knowledge_valid_def child_valid_def list_all_iff)
  have u: "distinct (sr_citations dr)" "distinct (sr_citations kr)" using assms(4) by (auto simp: asked_about_def)
  have "set (sr_citations dr) \<inter> set (sr_citations kr) = {}" using d citation_letters by blast
  moreover have cs: "cs = merged_citations dr kr s" and set: "set cs = set (sy_citations s)"
    and e: "list_ex (skill_citation 68) (sy_citations s)" "list_ex (skill_citation 69) (sy_citations s)"
    using assms(1) by (auto simp: ordered_mixed_citations_def merged_citations_def split: if_splits)
  ultimately have "distinct cs" using u by (auto simp: merged_citations_def)
  with cs set e show ?thesis by (simp add: list_ex_iff)
qed

text \<open>
  C30: A diagnosis is grounded in both domains. Its result is always a valid result of the mixed skill; a
  completed one comes from a completed data result with [D#] citations, then, on the runtime and world
  that left, a completed knowledge result with [E#] citations, then one synthesis that was asked about
  exactly these two answers and citations. Its citations are those the synthesis chose, without
  repetition, the data citations first, and there is at least one of each domain.
\<close>

theorem inventory_risk_sound:
  assumes "sl_run (mixed_skill M) call rt w = (Returned r, rt', w')" and "rt_inv rt" and "mixed_ok M"
  shows "skill_result_ok r \<and> sr_name r = inventory_risk_skill \<and> sr_route r = MixedRoute
    \<and> (sr_status r = SkillCompleted \<longrightarrow> (\<exists>c1 dr rt1 w1 c2 kr rt2 w2 i s.
        sl_run (mx_data M) c1 rt w = (Returned dr, rt1, w1) \<and> data_valid dr
      \<and> sl_run (mx_knowledge M) c2 rt1 w1 = (Returned kr, rt2, w2) \<and> knowledge_valid kr
      \<and> asked_about i dr kr \<and> mx_synth M i w2 = (Synthesized s, w')
      \<and> sr_citations r = merged_citations dr kr s \<and> distinct (sr_citations r)
      \<and> list_ex (skill_citation 68) (sr_citations r) \<and> list_ex (skill_citation 69) (sr_citations r)
      \<and> sr_answer r = Some (py_strip (render_answer s (sr_citations r)))))"
proof -
  from mixed_run_cases [OF assms] consider "stopped (Returned r)"
    | dr c1 rt1 w1 kr c2 rt2 w2 i rt3 where "sl_run (mx_data M) c1 rt w = (Returned dr, rt1, w1)" "data_valid dr"
      "sl_run (mx_knowledge M) c2 rt1 w1 = (Returned kr, rt2, w2)" "knowledge_valid kr"
      "asked_about i dr kr" "mixed_synthesize M dr kr i rt3 w2 = (Returned r, rt', w')"
    by blast
  then show ?thesis
  proof cases
    case 1
    from stopped_Returned [OF this] show ?thesis by simp
  next
    case 2
    note r = mixed_synthesize_Returned [OF 2(6)]
    have "\<exists>s. mx_synth M i w2 = (Synthesized s, w') \<and> sr_citations r = merged_citations dr kr s
        \<and> distinct (sr_citations r) \<and> list_ex (skill_citation 68) (sr_citations r)
        \<and> list_ex (skill_citation 69) (sr_citations r)
        \<and> sr_answer r = Some (py_strip (render_answer s (sr_citations r)))" if "sr_status r = SkillCompleted"
      using r that ordered_mixed_citations_Some [OF _ 2(2,4,5)] by blast
    with r 2(1-5) show ?thesis by blast
  qed
qed

subsection \<open>The second round\<close>

text \<open>
  A data skill that ran over a request context has left its instruction there, so every further
  diagnosis over this context fails at once: neither child nor the synthesizer is called, the world
  stays as it is. The repair round of the controlled workflow runs over the context of the first round
  and ends this way.
\<close>

lemma data_skill_again:
  assumes "has_label ''data-skill-instruction'' rt"
  shows "sl_run (data_skill ex) (TraceCall query d (Some user) sec) rt w = (Threw, rt, w)"
  using domain_with_context_again [of "''data''" rt] assms
  by (simp add: data_skill_def entry_point_def data_with_context_def)

lemma data_child_call: "child_call (data_skill ex) query d user sec = TraceCall query d user sec"
  by (simp add: child_call_def data_skill_def)

lemma repair_round_fails:
  assumes "has_label ''data-skill-instruction'' rt" and "mx_data M = data_skill ex" and "mixed_applicable query d"
    and "sub_decision d DataRoute (the (rd_data d)) = Inr dd"
  shows "sl_run (mixed_skill M) (TraceCall query d (Some user) sec) rt w =
     (mixed_failed [''validate_mixed_request'', ''execute_data_skill''] (lit ''inventory_risk_data_skill_failed''), rt, w)"
  using data_skill_again [OF assms(1), of ex _ dd user sec w] assms(2-4)
  by (simp add: mixed_skill_def entry_point_def mixed_execute_def Let_def data_stage_def mixed_child_def data_child_call)

lemma data_run_leaves_label:
  assumes "sl_run (data_skill ex) (TraceCall query d (Some user) sec) rt w = (Returned r, rt', w')"
    and "rt_step\<^sup>*\<^sup>* rt' rt2"
  shows "has_label ''data-skill-instruction'' rt2"
proof -
  from assms(1) have "domain_with_context data_definition ''data'' Data
     ''Execute only the approved read-only data question.'' (\<lambda>r. sr_citations r \<noteq> []) ex d user sec rt w = (Returned r, rt', w')"
    by (simp add: data_skill_def entry_point_def data_with_context_def)
  from domain_with_context_adds [OF this] have "has_label ''data-skill-instruction'' rt'" by simp
  from has_label_mono [OF assms(2) this] show ?thesis .
qed

text \<open>A diagnosis whose rendered text exceeds the bound of an answer raises instead of failing.\<close>

lemma long_diagnosis_raises:
  assumes "mx_synth M i w = (Synthesized s, w')" and "synthesis_content_ok s"
    and "ordered_mixed_citations (sy_citations s) (sr_citations dr) (sr_citations kr) = Some cs"
    and "8000 < length (render_answer s cs)"
  shows "mixed_synthesize M dr kr i rt w = (Threw, rt, w')"
  using assms by (auto simp: mixed_synthesize_def Let_def new_skill_result_def optional_text_field_def
      reply_of_def ensure_def split: sum.splits)

subsection \<open>A concrete diagnosis\<close>

text \<open>A concrete text form of summaries, length-prefixed, that is read back exactly.\<close>

definition frame :: "pystr \<Rightarrow> pystr" where
  "frame s = length s # s"

function frames_of :: "pystr \<Rightarrow> pystr list" where
  "frames_of [] = []"
| "frames_of (n # s) = take n s # frames_of (drop n s)"
  by pat_completeness auto

termination by (relation "measure length") auto

lemma frames_of_frame: "frames_of (frame s @ t) = s # frames_of t"
  by (simp add: frame_def)

lemma frames_of_frames: "frames_of (concat (map frame ss)) = ss"
  by (induction ss) (simp_all add: frames_of_frame)

definition demo_dump :: "json \<Rightarrow> pystr" where
  "demo_dump v = (case v of JObj fs \<Rightarrow> (case (jget fs ''answer'', jget fs ''subquery'', jget fs ''citations'') of
       (JStr a, JStr q, JList cs) \<Rightarrow> concat (map frame (a # q # map json_text cs))
     | _ \<Rightarrow> []) | _ \<Rightarrow> [])"

definition demo_parse :: "pystr \<Rightarrow> json option" where
  "demo_parse s = (case frames_of s of a # q # cs \<Rightarrow> Some (summary_json a q cs) | _ \<Rightarrow> None)"

lemma demo_summaries_roundtrip: "summaries_roundtrip demo_dump demo_parse"
proof -
  have "demo_dump (summary_json a q cs) = concat (map frame (a # q # cs))" for a q cs
    by (simp add: demo_dump_def summary_json_def jget_def json_text_def map_idI comp_def)
  then show ?thesis
    by (simp add: summaries_roundtrip_def demo_parse_def frames_of_frames del: concat.simps list.map)
qed

definition demo_child :: "skill_definition \<Rightarrow> skill_result \<Rightarrow> nat skill" where
  "demo_child D r = \<lparr>sl_definition = D, sl_applicable = (\<lambda>q d. False), sl_with_trace = False,
     sl_with_context = False, sl_takes_security = False, sl_run = (\<lambda>call rt w. (Returned r, rt, Suc w))\<rparr>"

definition demo_knowledge_result :: skill_result where
  "demo_knowledge_result = demo_data_result\<lparr>sr_name := knowledge_skill_name, sr_route := KnowledgeRoute,
     sr_citations := [[91, 69, 49, 93], [91, 69, 50, 93]], sr_tool := Some knowledge_tool_name\<rparr>"

definition demo_synthesis :: synthesis_result where
  "demo_synthesis = \<lparr>sy_summary = [114], sy_policy = [112], sy_actions = [[97]],
     sy_citations = [[91, 69, 50, 93], [91, 68, 49, 93]]\<rparr>"

definition demo_mixed :: "nat mixed" where
  "demo_mixed = \<lparr>mx_data = demo_child data_definition demo_data_result,
     mx_knowledge = demo_child knowledge_definition demo_knowledge_result,
     mx_synth = (\<lambda>i w. (Synthesized demo_synthesis, Suc w)), mx_dump = demo_dump, mx_parse = demo_parse\<rparr>"

definition demo_mixed_decision :: router_decision where
  "demo_mixed_decision = \<lparr>rd_route = MixedRoute, rd_query = [113], rd_reason = [114],
     rd_knowledge = Some [107], rd_data = Some [24211, 23384], rd_missing = None, rd_confidence = 1\<rparr>"

lemma demo_mixed_ok: "mixed_ok demo_mixed"
  by (simp add: mixed_ok_def demo_mixed_def demo_summaries_roundtrip keeps_runtime_def demo_child_def)

lemma demo_stages:
  "data_stage demo_mixed query d user sec rt w = (Inr demo_data_result, rt, Suc w)"
  "knowledge_stage demo_mixed query d user sec rt w = (Inr demo_knowledge_result, rt, Suc w)"
  by (simp_all add: data_stage_def knowledge_stage_def mixed_child_def demo_mixed_def demo_child_def
      data_valid_def knowledge_valid_def child_valid_def demo_data_result_def demo_knowledge_result_def
      skill_citation_def py_digit_def py_digit_zeros_def py_space_def)

lemma demo_sub_decisions:
  "\<exists>dd. sub_decision demo_mixed_decision DataRoute [24211, 23384] = Inr dd"
  "\<exists>kd. sub_decision demo_mixed_decision KnowledgeRoute [107] = Inr kd"
  by (simp_all add: sub_decision_def new_router_decision_def demo_mixed_decision_def text_field_def
      optional_text_field_def py_space_def route_contract_def py_strip_def)

lemma demo_applicable: "mixed_applicable [113] demo_mixed_decision"
  by (simp add: mixed_applicable_def demo_mixed_decision_def py_space_def topic_lower_def topics_def
      sublist_def) (rule disjI1, rule exI [of _ "[113, 32]"], simp)

definition demo_diagnosis :: skill_result where
  "demo_diagnosis = \<lparr>sr_status = SkillCompleted, sr_name = inventory_risk_skill, sr_version = lit ''1.0.0'',
     sr_route = MixedRoute,
     sr_answer = Some (py_strip (render_answer demo_synthesis [[91, 68, 49, 93], [91, 69, 50, 93]])),
     sr_citations = [[91, 68, 49, 93], [91, 69, 50, 93]],
     sr_steps = [data_skill_name, data_tool_name, knowledge_skill_name, knowledge_tool_name,
       lit ''synthesize_inventory_risk''], sr_tool = None, sr_error = None\<rparr>"

lemma demo_synthesize:
  "mixed_synthesize demo_mixed demo_data_result demo_knowledge_result i rt w = (Returned demo_diagnosis, rt, Suc w)"
proof -
  have c: "ordered_mixed_citations (sy_citations demo_synthesis) (sr_citations demo_data_result)
      (sr_citations demo_knowledge_result) = Some [[91, 68, 49, 93], [91, 69, 50, 93]]"
    by (simp add: ordered_mixed_citations_def demo_synthesis_def demo_data_result_def demo_knowledge_result_def
        skill_citation_def py_digit_def py_digit_zeros_def)
  have k: "synthesis_content_ok demo_synthesis"
    by (simp add: synthesis_content_ok_def demo_synthesis_def py_space_def)
  have len: "\<not> 8000 < length (render_answer demo_synthesis [[91, 68, 49, 93], [91, 69, 50, 93]])"
    by (simp add: render_answer_def demo_synthesis_def py_nat_str.simps)
  have ne: "\<not> blank (render_answer demo_synthesis cs)" for cs
    by (simp add: render_answer_def py_space_def)
  show ?thesis
    by (simp add: mixed_synthesize_def demo_mixed_def k c)
      (simp add: new_skill_result_def optional_text_field_def len ne reply_of_def terminal_contract_def
        route_citations_def skill_citation_def py_digit_def py_digit_zeros_def demo_diagnosis_def Let_def
        inventory_risk_skill_def data_skill_name_def knowledge_skill_name_def data_tool_name_def
        knowledge_tool_name_def lit_def py_space_def)
qed

lemma demo_diagnosis_run:
  "sl_run (mixed_skill demo_mixed) (PlainCall [113] demo_mixed_decision) demo_runtime 0 =
     (Returned demo_diagnosis, demo_runtime, 3)"
proof -
  obtain dd where dd: "sub_decision demo_mixed_decision DataRoute [24211, 23384] = Inr dd"
    using demo_sub_decisions(1) by blast
  obtain kd where kd: "sub_decision demo_mixed_decision KnowledgeRoute [107] = Inr kd"
    using demo_sub_decisions(2) by blast
  have q: "rd_data demo_mixed_decision = Some [24211, 23384]" "rd_knowledge demo_mixed_decision = Some [107]"
    by (simp_all add: demo_mixed_decision_def)
  obtain i where i: "new_synthesis_input \<lparr>si_request = [113], si_data_query = [24211, 23384],
      si_data_answer = answer_of demo_data_result, si_data_citations = sr_citations demo_data_result,
      si_knowledge_query = [107], si_knowledge_answer = answer_of demo_knowledge_result,
      si_knowledge_citations = sr_citations demo_knowledge_result\<rparr> = Inr i"
    by (simp add: new_synthesis_input_def text_field_def unique_citations_def answer_of_def demo_data_result_def
        demo_knowledge_result_def py_space_def skill_citation_def py_digit_def py_digit_zeros_def)
  show ?thesis
    by (simp add: mixed_skill_def entry_point_def mixed_execute_def demo_applicable Let_def q dd kd demo_stages
        after_data_def without_context_def i demo_synthesize)
qed

theorem inventory_risk_sound_witness:
  "sr_status demo_diagnosis = SkillCompleted
     \<and> list_ex (skill_citation 68) (sr_citations demo_diagnosis) \<and> (\<exists>dr kr s. data_valid dr \<and> knowledge_valid kr
       \<and> sr_citations demo_diagnosis = merged_citations dr kr s)"
proof -
  have "rt_inv demo_runtime"
    by (simp add: rt_inv_def items_ok_def demo_runtime_def budgets_ok_def default_budget_config_def available_tokens_def)
  moreover have "sr_status demo_diagnosis = SkillCompleted" by (simp add: demo_diagnosis_def)
  ultimately show ?thesis
    using inventory_risk_sound [OF demo_diagnosis_run _ demo_mixed_ok] by blast
qed

end
