(* ===== verification/RankFusion.thy ===== *)
theory RankFusion
  imports Serialization Complex_Main
begin

section \<open>Retrieval: reciprocal rank fusion\<close>

text \<open>
  \<^verbatim>\<open>retrieval/fusion.py\<close>. A mapping from source names to ranked candidates is an association list
  with distinct keys, in the order of the dictionary. Floating-point numbers are the rationals they
  stand for; every operation on them (sum, quotient, \<^verbatim>\<open>math.fsum\<close>) is the exact one followed by the
  argument \<open>rnd\<close>, the rounding to the nearest float. Numbers stay within the range of floats. The deep
  copies of the source leave equal values behind and are not seen here.
\<close>

subsection \<open>Grouping in first-seen order\<close>

text \<open>\<^verbatim>\<open>groups.setdefault(key, []).append(item)\<close>\<close>

fun put_group :: "'k \<Rightarrow> 'a \<Rightarrow> ('k \<times> 'a list) list \<Rightarrow> ('k \<times> 'a list) list" where
  "put_group k x [] = [(k, [x])]"
| "put_group k x ((k', xs) # g) = (if k = k' then (k', xs @ [x]) # g else (k', xs) # put_group k x g)"

definition group_by :: "('a \<Rightarrow> 'k) \<Rightarrow> 'a list \<Rightarrow> ('k \<times> 'a list) list" where
  "group_by f xs = foldl (\<lambda>g x. put_group (f x) x g) [] xs"

lemma put_group_keys: "set (map fst (put_group k x g)) = insert k (set (map fst g))"
  by (induction k x g rule: put_group.induct) auto

lemma put_group_distinct: "distinct (map fst g) \<Longrightarrow> distinct (map fst (put_group k x g))"
proof (induction k x g rule: put_group.induct)
  case (2 k x k' xs g)
  then show ?case using put_group_keys [of k x g] by auto
qed simp

definition groups_of :: "('a \<Rightarrow> 'k) \<Rightarrow> 'a list \<Rightarrow> ('k \<times> 'a list) list \<Rightarrow> bool" where
  "groups_of f xs g \<longleftrightarrow> distinct (map fst g) \<and> set (map fst g) = f ` set xs
     \<and> (\<forall>(k, ys) \<in> set g. ys = filter (\<lambda>x. f x = k) xs)"

lemma put_group_members:
  assumes "distinct (map fst g)"
  shows "(k', ys) \<in> set (put_group k x g) \<longleftrightarrow>
    (if k' = k then ys = (case map_of g k of None \<Rightarrow> [x] | Some xs \<Rightarrow> xs @ [x]) else (k', ys) \<in> set g)"
  using assms
proof (induction k x g rule: put_group.induct)
  case (2 k x a xs g)
  show ?case
  proof (cases "k = a")
    case True
    with 2(2) show ?thesis by (auto simp: rev_image_eqI)
  next
    case False
    with 2 show ?thesis by auto
  qed
qed auto

lemma groups_of_put:
  assumes "groups_of f xs g"
  shows "groups_of f (xs @ [x]) (put_group (f x) x g)"
proof -
  have d: "distinct (map fst g)" and k: "set (map fst g) = f ` set xs"
    and m: "\<forall>(k, ys) \<in> set g. ys = filter (\<lambda>y. f y = k) xs" using assms by (auto simp: groups_of_def)
  have "ys = filter (\<lambda>y. f y = k') (xs @ [x])" if "(k', ys) \<in> set (put_group (f x) x g)" for k' ys
  proof (cases "k' = f x")
    case True
    with that d have ys: "ys = (case map_of g (f x) of None \<Rightarrow> [x] | Some zs \<Rightarrow> zs @ [x])"
      by (simp add: put_group_members)
    show ?thesis
    proof (cases "map_of g (f x)")
      case None
      then have "f x \<notin> f ` set xs" using k by (simp add: map_of_eq_None_iff)
      then have "filter (\<lambda>y. f y = f x) xs = []" by (auto simp: filter_empty_conv) (metis imageI)
      with True ys None show ?thesis by simp
    next
      case (Some zs)
      then have "zs = filter (\<lambda>y. f y = f x) xs" using m map_of_SomeD by fastforce
      with True ys Some show ?thesis by simp
    qed
  next
    case False
    with that d m show ?thesis by (auto simp: put_group_members)
  qed
  then show ?thesis using put_group_distinct [OF d] put_group_keys [of "f x" x g] k
    by (auto simp: groups_of_def)
qed

lemma group_by_groups: "groups_of f xs (group_by f xs)"
proof (induction xs rule: rev_induct)
  case Nil
  then show ?case by (simp add: groups_of_def group_by_def)
next
  case (snoc x xs)
  then show ?case using groups_of_put [OF snoc] by (simp add: group_by_def)
qed

lemma group_by_keys: "distinct (map fst (group_by f xs))" "set (map fst (group_by f xs)) = f ` set xs"
  using group_by_groups [of f xs] by (simp_all add: groups_of_def)

lemma group_by_memberD:
  assumes "(k, ys) \<in> set (group_by f xs)"
  shows "ys = filter (\<lambda>x. f x = k) xs" and "ys \<noteq> []"
proof -
  show ys: "ys = filter (\<lambda>x. f x = k) xs"
    using group_by_groups [of f xs] assms unfolding groups_of_def by fast
  from assms have "k \<in> set (map fst (group_by f xs))" by (simp add: rev_image_eqI)
  then obtain x where "x \<in> set xs" "f x = k" unfolding group_by_keys(2) by blast
  with ys show "ys \<noteq> []" by (auto simp: filter_empty_conv)
qed

subsection \<open>Candidates\<close>

record fusion_candidate =
  fc_source :: pystr
  fc_rank :: int
  fc_document :: pystr
  fc_candidate :: "pystr option"
  fc_record :: "pystr option"
  fc_score :: "rat option"
  fc_content :: "pystr option"
  fc_metadata :: "(pystr \<times> json) list"
  fc_provenance :: "(pystr \<times> json) list"

definition candidate_ok :: "fusion_candidate \<Rightarrow> bool" where
  "candidate_ok c \<longleftrightarrow> \<not> blank (fc_source c) \<and> 0 < fc_rank c \<and> \<not> blank (fc_document c)
     \<and> (\<forall>i \<in> set_option (fc_candidate c). \<not> blank i) \<and> fc_record c \<noteq> Some []"

definition identity :: "fusion_candidate \<Rightarrow> pystr" where
  "identity c = (case fc_candidate c of Some i \<Rightarrow> i | None \<Rightarrow> fc_document c)"

definition or_empty :: "pystr option \<Rightarrow> pystr" where
  "or_empty s = (case s of Some t \<Rightarrow> t | None \<Rightarrow> [])"

record contribution =
  fn_source :: pystr
  fn_rank :: int
  fn_value :: rat
  fn_score :: "rat option"
  fn_candidate :: "pystr option"
  fn_record :: "pystr option"

record fused_result =
  fr_rank :: nat
  fr_document :: pystr
  fr_candidate :: "pystr option"
  fr_score :: rat
  fr_best :: int
  fr_count :: nat
  fr_contributions :: "contribution list"
  fr_record :: "pystr option"
  fr_content :: "pystr option"
  fr_metadata :: "(pystr \<times> json) list"
  fr_provenance :: "(pystr \<times> json) list"

subsection \<open>Fusion\<close>

definition check_candidate :: "pystr \<Rightarrow> fusion_candidate \<Rightarrow> string + fusion_candidate" where
  "check_candidate name c =
     (if \<not> candidate_ok c then Inl ''RRF source contains an invalid candidate''
      else if fc_source c \<noteq> name then Inl ''candidate source_name must match its source mapping''
      else Inr c)"

definition check_source :: "pystr \<times> fusion_candidate list \<Rightarrow> string + fusion_candidate list" where
  "check_source p = (case p of (name, cs) \<Rightarrow>
     res_bind (ensure (cs \<noteq> []) ''RRF source cannot be empty'') (\<lambda>_.
     res_bind (res_map (check_candidate name) cs) (\<lambda>cs.
     res_bind (ensure (map fc_rank cs = map int [1..<Suc (length cs)])
       ''RRF source ranks must be consecutive and start at one'') (\<lambda>_.
     res_bind (ensure (distinct (map identity cs)) ''RRF source contains duplicate values'') (\<lambda>_.
     Inr cs)))))"

definition fusion_weights ::
  "(pystr \<times> fusion_candidate list) list \<Rightarrow> (pystr \<times> rat) list option \<Rightarrow> string + (pystr \<times> rat) list" where
  "fusion_weights sources weights =
     (let ws = (case weights of Some ws \<Rightarrow> ws | None \<Rightarrow> map (\<lambda>(name, _). (name, 1)) sources)
      in if set (map fst ws) \<noteq> set (map fst sources)
         then Inl ''source weights must match source result names exactly''
         else if list_ex (\<lambda>(_, w). w \<le> 0) ws then Inl ''source weight must be finite and positive''
         else Inr ws)"

definition weight_of :: "(pystr \<times> rat) list \<Rightarrow> pystr \<Rightarrow> rat" where
  "weight_of ws name = (case map_of ws name of Some w \<Rightarrow> w | None \<Rightarrow> 0)"

definition contribution_of ::
  "(rat \<Rightarrow> rat) \<Rightarrow> rat \<Rightarrow> (pystr \<times> rat) list \<Rightarrow> fusion_candidate \<Rightarrow> contribution" where
  "contribution_of rnd k ws c =
     \<lparr>fn_source = fc_source c, fn_rank = fc_rank c,
      fn_value = rnd (weight_of ws (fc_source c) / rnd (k + of_int (fc_rank c))),
      fn_score = fc_score c, fn_candidate = fc_candidate c, fn_record = fc_record c\<rparr>"

text \<open>\<^verbatim>\<open>math.fsum\<close> rounds the exact sum once.\<close>

definition fsum :: "(rat \<Rightarrow> rat) \<Rightarrow> rat list \<Rightarrow> rat" where
  "fsum rnd xs = rnd (sum_list xs)"

definition representative :: "fusion_candidate list \<Rightarrow> fusion_candidate" where
  "representative cs = hd (sort_key (\<lambda>c. (fc_rank c, fc_source c, or_empty (fc_record c))) cs)"

definition fused_of ::
  "(rat \<Rightarrow> rat) \<Rightarrow> rat \<Rightarrow> (pystr \<times> rat) list \<Rightarrow> pystr \<times> fusion_candidate list \<Rightarrow> string + fused_result" where
  "fused_of rnd k ws g = (case g of (ident, cs) \<Rightarrow>
     (let r = representative cs; ns = map (contribution_of rnd k ws) (sort_key fc_source cs)
      in if list_ex (\<lambda>c. fc_document c \<noteq> fc_document r) cs
         then Inl ''RRF candidates with one identity must share document_id''
         else if list_ex (\<lambda>n. fn_value n \<le> 0) ns \<or> fsum rnd (map fn_value ns) \<le> 0 then Inl ''contribution''
         else Inr \<lparr>fr_rank = 1, fr_document = fc_document r,
           fr_candidate = (if fc_candidate r \<noteq> None then Some ident else None),
           fr_score = fsum rnd (map fn_value ns), fr_best = Min (set (map fc_rank cs)), fr_count = length cs,
           fr_contributions = ns, fr_record = fc_record r, fr_content = fc_content r,
           fr_metadata = fc_metadata r, fr_provenance = fc_provenance r\<rparr>))"

definition fused_key :: "fused_result \<Rightarrow> rat \<times> int \<times> int \<times> pystr \<times> pystr \<times> pystr" where
  "fused_key r = (- fr_score r, fr_best r, - int (fr_count r), fr_document r, or_empty (fr_candidate r),
     or_empty (fr_record r))"

definition top_n :: "int option \<Rightarrow> 'a list \<Rightarrow> 'a list" where
  "top_n k xs = (case k of None \<Rightarrow> xs | Some n \<Rightarrow> take (nat n) xs)"

definition reciprocal_rank_fusion ::
  "(rat \<Rightarrow> rat) \<Rightarrow> (pystr \<times> fusion_candidate list) list \<Rightarrow> rat \<Rightarrow> (pystr \<times> rat) list option \<Rightarrow> int option
     \<Rightarrow> string + fused_result list" where
  "reciprocal_rank_fusion rnd sources k weights limit =
     (if sources = [] then Inl ''RRF requires at least one source''
      else if k \<le> 0 then Inl ''rrf_k must be a finite positive number''
      else if (case limit of None \<Rightarrow> False | Some n \<Rightarrow> n \<le> 0) then Inl ''top_k must be a positive integer''
      else if list_ex (\<lambda>(name, _). blank name) sources then Inl ''source names cannot be blank''
      else res_bind (fusion_weights sources weights) (\<lambda>ws.
        res_bind (res_map check_source (sort_key fst sources)) (\<lambda>checked.
        res_bind (res_map (fused_of rnd k ws) (group_by identity (concat checked))) (\<lambda>fused.
        Inr (map (\<lambda>(i, r). r\<lparr>fr_rank := i\<rparr>) (enum1 (top_n limit (sort_key fused_key fused))))))))"

subsection \<open>What fusion returns\<close>

definition all_candidates :: "(pystr \<times> fusion_candidate list) list \<Rightarrow> fusion_candidate list" where
  "all_candidates sources = concat (map snd sources)"

definition source_ok :: "pystr \<times> fusion_candidate list \<Rightarrow> bool" where
  "source_ok p \<longleftrightarrow> snd p \<noteq> [] \<and> (\<forall>c \<in> set (snd p). candidate_ok c \<and> fc_source c = fst p)
     \<and> map fc_rank (snd p) = map int [1..<Suc (length (snd p))] \<and> distinct (map identity (snd p))"

lemma source_ok_rank: "source_ok p \<Longrightarrow> c \<in> set (snd p) \<Longrightarrow> 1 \<le> fc_rank c"
  by (auto simp: source_ok_def candidate_ok_def int_one_le_iff_zero_less)

lemma check_source_Inr: "check_source p = Inr cs \<Longrightarrow> cs = snd p \<and> source_ok p"
proof -
  assume "check_source p = Inr cs"
  then obtain cs' where c: "res_map (check_candidate (fst p)) (snd p) = Inr cs'" and r: "cs = cs'" "snd p \<noteq> []"
    "map fc_rank cs' = map int [1..<Suc (length cs')]" "distinct (map identity cs')"
    by (cases p) (auto simp: check_source_def res_simps)
  have "cs' = snd p \<and> (\<forall>c \<in> set (snd p). candidate_ok c \<and> fc_source c = fst p)"
    by (rule res_map_validator [OF c]) (auto simp: check_candidate_def split: if_splits)
  with r show ?thesis by (auto simp: source_ok_def)
qed

lemma check_sources_Inr:
  "res_map check_source sources = Inr checked \<Longrightarrow> checked = map snd sources \<and> (\<forall>p \<in> set sources. source_ok p)"
  by (induction sources arbitrary: checked) (auto simp: res_simps dest!: check_source_Inr)

definition result_identity :: "fused_result \<Rightarrow> pystr" where
  "result_identity r = (case fr_candidate r of Some i \<Rightarrow> i | None \<Rightarrow> fr_document r)"

lemma representative_in:
  assumes "cs \<noteq> []"
  shows "representative cs \<in> set cs"
proof -
  let ?s = "sort_key (\<lambda>c. (fc_rank c, fc_source c, or_empty (fc_record c))) cs"
  have "set ?s = set cs" by simp
  moreover from this assms have "?s \<noteq> []" by force
  ultimately show ?thesis unfolding representative_def using hd_in_set by blast
qed

definition values_of :: "(rat \<Rightarrow> rat) \<Rightarrow> rat \<Rightarrow> (pystr \<times> rat) list \<Rightarrow> fusion_candidate list \<Rightarrow> rat" where
  "values_of rnd k ws cs = rnd (sum_list (map (\<lambda>c. fn_value (contribution_of rnd k ws c)) cs))"

lemma sum_list_perm:
  fixes v :: "'a \<Rightarrow> 'b::comm_monoid_add"
  assumes "mset xs = mset ys"
  shows "sum_list (map v xs) = sum_list (map v ys)"
proof -
  have "sum_mset (mset (map v xs)) = sum_mset (mset (map v ys))" by (simp add: assms)
  then show ?thesis by (simp only: sum_mset_sum_list)
qed

lemma sum_list_sort_key: "sum_list (map v (sort_key f xs)) = (sum_list (map v xs) :: rat)"
  by (rule sum_list_perm) simp

lemma fused_of_Inr:
  assumes "fused_of rnd k ws (i, cs) = Inr r" and "cs \<noteq> []" and "\<forall>c \<in> set cs. identity c = i"
  shows "result_identity r = i \<and> fr_score r = values_of rnd k ws cs
     \<and> mset (fr_contributions r) = image_mset (contribution_of rnd k ws) (mset cs)
     \<and> fr_best r = Min (set (map fc_rank cs)) \<and> fr_count r = length cs
     \<and> (\<forall>c \<in> set cs. fc_document c = fr_document r \<and> 0 < fn_value (contribution_of rnd k ws c))"
proof -
  let ?ns = "map (contribution_of rnd k ws) (sort_key fc_source cs)"
  from assms(1) have r: "r = \<lparr>fr_rank = 1, fr_document = fc_document (representative cs),
           fr_candidate = (if fc_candidate (representative cs) \<noteq> None then Some i else None),
           fr_score = fsum rnd (map fn_value ?ns), fr_best = Min (set (map fc_rank cs)), fr_count = length cs,
           fr_contributions = ?ns, fr_record = fc_record (representative cs),
           fr_content = fc_content (representative cs), fr_metadata = fc_metadata (representative cs),
           fr_provenance = fc_provenance (representative cs)\<rparr>"
    and same: "\<forall>c \<in> set cs. fc_document c = fc_document (representative cs)"
    and pos: "\<forall>n \<in> set ?ns. 0 < fn_value n"
    by (auto simp: fused_of_def Let_def list_ex_iff not_le split: if_splits)
  have "identity (representative cs) = i" using representative_in [OF assms(2)] assms(3) by blast
  then have "result_identity r = i" by (auto simp: r result_identity_def identity_def split: option.splits)
  moreover have "fr_score r = values_of rnd k ws cs"
    by (simp add: r fsum_def values_of_def sum_list_sort_key comp_def)
  moreover have "mset (fr_contributions r) = image_mset (contribution_of rnd k ws) (mset cs)"
    by (simp add: r flip: mset_map) (metis mset_map mset_sort)
  moreover have "fr_document r = fc_document (representative cs)" by (simp add: r)
  ultimately show ?thesis using same pos by (simp add: r)
qed

text \<open>One result per identity, computed from the candidates with that identity.\<close>

definition fused_from ::
  "(rat \<Rightarrow> rat) \<Rightarrow> rat \<Rightarrow> (pystr \<times> rat) list \<Rightarrow> fusion_candidate list \<Rightarrow> fused_result \<Rightarrow> bool" where
  "fused_from rnd k ws cs r \<longleftrightarrow> (let same = filter (\<lambda>c. identity c = result_identity r) cs in
     fr_score r = values_of rnd k ws same \<and> fr_best r = Min (set (map fc_rank same)) \<and> fr_count r = length same
     \<and> mset (fr_contributions r) = image_mset (contribution_of rnd k ws) (mset same)
     \<and> (\<forall>c \<in> set same. fc_document c = fr_document r \<and> 0 < fn_value (contribution_of rnd k ws c)))"

lemma fused_groups:
  assumes "res_map (fused_of rnd k ws) (group_by identity cs) = Inr fused"
  shows "map result_identity fused = map fst (group_by identity cs) \<and> (\<forall>r \<in> set fused. fused_from rnd k ws cs r)"
proof -
  have each: "result_identity r = fst p \<and> fused_from rnd k ws cs r"
    if "p \<in> set (group_by identity cs)" "fused_of rnd k ws p = Inr r" for p r
  proof -
    obtain i ys where p: "p = (i, ys)" by (rule prod.exhaust)
    note ys = group_by_memberD [OF that(1) [unfolded p]]
    from ys(1) have "\<forall>c \<in> set ys. identity c = i" by simp
    from fused_of_Inr [OF that(2) [unfolded p] ys(2) this] show ?thesis
      by (simp add: fused_from_def Let_def p flip: ys(1))
  qed
  from assms have "list_all2 (\<lambda>p r. fused_of rnd k ws p = Inr r) (group_by identity cs) fused"
    by (simp add: res_map_Inr_iff)
  then have "list_all2 (\<lambda>p r. result_identity r = fst p \<and> fused_from rnd k ws cs r) (group_by identity cs) fused"
    by (rule list.rel_mono_strong) (rule each)
  then show ?thesis
    by (induction rule: list_all2_induct) auto
qed

lemma fusion_Inr:
  assumes "reciprocal_rank_fusion rnd sources k weights limit = Inr rs"
  obtains ws fused where "fusion_weights sources weights = Inr ws" "0 < k" "\<forall>p \<in> set sources. source_ok p"
    "res_map (fused_of rnd k ws) (group_by identity (all_candidates (sort_key fst sources))) = Inr fused"
    "rs = map (\<lambda>(i, r). r\<lparr>fr_rank := i\<rparr>) (enum1 (top_n limit (sort_key fused_key fused)))"
proof -
  from assms obtain ws checked fused where a: "fusion_weights sources weights = Inr ws" "0 < k"
    and c: "res_map check_source (sort_key fst sources) = Inr checked"
    and f: "res_map (fused_of rnd k ws) (group_by identity (concat checked)) = Inr fused"
    and rs: "rs = map (\<lambda>(i, r). r\<lparr>fr_rank := i\<rparr>) (enum1 (top_n limit (sort_key fused_key fused)))"
    by (auto simp: reciprocal_rank_fusion_def res_simps split: if_splits)
  from check_sources_Inr [OF c] f have "\<forall>p \<in> set sources. source_ok p"
    "res_map (fused_of rnd k ws) (group_by identity (all_candidates (sort_key fst sources))) = Inr fused"
    by (simp_all add: all_candidates_def)
  with a rs that show thesis by blast
qed

text \<open>The results before they are cut and numbered.\<close>

lemma fused_results:
  assumes "res_map (fused_of rnd k ws) (group_by identity cs) = Inr fused"
  shows "distinct (map result_identity fused)" and "result_identity ` set fused = identity ` set cs"
    and "\<forall>r \<in> set fused. fused_from rnd k ws cs r"
  using fused_groups [OF assms] group_by_keys [of identity cs] by (simp_all flip: set_map)

lemma mset_all_candidates: "mset sources = mset sources' \<Longrightarrow> mset (all_candidates sources) = mset (all_candidates sources')"
  unfolding all_candidates_def mset_concat map_map by (rule sum_list_perm)

lemma fused_from_mset:
  assumes "mset cs = mset cs'"
  shows "fused_from rnd k ws cs r = fused_from rnd k ws cs' r"
proof -
  let ?s = "filter (\<lambda>c. identity c = result_identity r) cs" and ?s' = "filter (\<lambda>c. identity c = result_identity r) cs'"
  have m: "mset ?s = mset ?s'" using assms by simp
  then have "sum_list (map v ?s) = sum_list (map v ?s')" for v :: "fusion_candidate \<Rightarrow> rat"
    by (rule sum_list_perm)
  moreover have "set ?s = set ?s'" "length ?s = length ?s'"
    using mset_eq_setD [OF m] mset_eq_length [OF m] by blast+
  ultimately show ?thesis using m unfolding fused_from_def Let_def values_of_def by simp
qed

lemma result_identity_rank [simp]: "result_identity (r\<lparr>fr_rank := i\<rparr>) = result_identity r"
  by (cases "fr_candidate r") (simp_all add: result_identity_def)

lemma fused_key_rank [simp]: "fused_key (r\<lparr>fr_rank := i\<rparr>) = fused_key r"
  "fused_from rnd k ws cs (r\<lparr>fr_rank := i\<rparr>) = fused_from rnd k ws cs r"
  by (simp_all add: fused_key_def fused_from_def)

lemma top_take: "top_n limit xs = take (case limit of None \<Rightarrow> length xs | Some n \<Rightarrow> nat n) xs"
  by (simp add: top_n_def split: option.splits)

subsection \<open>Better ranks give no lower scores\<close>

lemma candidates_distinct:
  assumes "distinct (map fst sources)" and "\<forall>p \<in> set sources. source_ok p"
  shows "distinct (map (\<lambda>c. (fc_source c, identity c)) (all_candidates sources))"
  using assms
proof (induction sources)
  case (Cons p sources)
  have p: "source_ok p" using Cons.prems by simp
  have "distinct (map (\<lambda>c. (fc_source c, identity c)) (snd p))"
    using p by (auto simp: source_ok_def distinct_map inj_on_def)
  moreover have "fst p \<notin> fc_source ` set (all_candidates sources)"
    using Cons.prems by (force simp: all_candidates_def source_ok_def)
  then have "set (map (\<lambda>c. (fc_source c, identity c)) (snd p)) \<inter>
      set (map (\<lambda>c. (fc_source c, identity c)) (all_candidates sources)) = {}"
    using p by (auto simp: source_ok_def image_iff)
  ultimately show ?case using Cons by (simp add: all_candidates_def)
qed (simp add: all_candidates_def)

text \<open>Every appearance of the second identity is matched by a better or equal one of the first.\<close>

definition dominates :: "fusion_candidate list \<Rightarrow> pystr \<Rightarrow> pystr \<Rightarrow> bool" where
  "dominates cs a b \<longleftrightarrow> (\<forall>y \<in> set cs. identity y = b \<longrightarrow>
     (\<exists>x \<in> set cs. identity x = a \<and> fc_source x = fc_source y \<and> fc_rank x \<le> fc_rank y))"

lemma weight_nonneg: "fusion_weights sources weights = Inr ws \<Longrightarrow> 0 \<le> weight_of ws name"
  by (auto simp: fusion_weights_def Let_def weight_of_def list_ex_iff split: if_splits option.splits
      dest!: map_of_SomeD)

lemma contribution_mono:
  assumes "mono rnd" "rnd 1 = 1" "0 < k" "0 \<le> weight_of ws (fc_source y)"
    and "fc_source x = fc_source y" "1 \<le> fc_rank x" "fc_rank x \<le> fc_rank y"
  shows "fn_value (contribution_of rnd k ws y) \<le> fn_value (contribution_of rnd k ws x)"
proof -
  have "1 \<le> k + of_int (fc_rank x)" using assms(3,6) by (simp add: add_increasing)
  then have "1 \<le> rnd (k + of_int (fc_rank x))" using monoD [OF assms(1)] assms(2) by fastforce
  moreover have "rnd (k + of_int (fc_rank x)) \<le> rnd (k + of_int (fc_rank y))"
    by (rule monoD [OF assms(1)]) (simp add: assms(7))
  ultimately have "weight_of ws (fc_source y) / rnd (k + of_int (fc_rank y))
      \<le> weight_of ws (fc_source y) / rnd (k + of_int (fc_rank x))"
    using assms(4) by (intro divide_left_mono) auto
  then show ?thesis using monoD [OF assms(1)] assms(5) by (simp add: contribution_of_def)
qed

lemma dominating_sum:
  fixes v :: "'a \<Rightarrow> rat"
  assumes "distinct (map s B)" "distinct A" and "\<forall>y \<in> set B. \<exists>x \<in> set A. s x = s y \<and> v y \<le> v x"
    and "\<forall>x \<in> set A. 0 \<le> v x"
  shows "sum_list (map v B) \<le> sum_list (map v A)"
proof -
  obtain h where h: "\<forall>y \<in> set B. h y \<in> set A \<and> s (h y) = s y \<and> v y \<le> v (h y)"
    using assms(3) by (metis (full_types))
  have inj: "inj_on h (set B)" using h assms(1) by (auto simp: inj_on_def distinct_map) metis
  have "sum_list (map v B) = sum v (set B)"
    using assms(1) by (simp add: distinct_map sum_list_distinct_conv_sum_set)
  also have "\<dots> \<le> sum (v \<circ> h) (set B)" using h by (intro sum_mono) auto
  also have "\<dots> = sum v (h ` set B)" using inj by (simp add: sum.reindex)
  also have "\<dots> \<le> sum v (set A)" using h assms(4) by (intro sum_mono2) auto
  also have "\<dots> = sum_list (map v A)" using assms(2) by (simp add: sum_list_distinct_conv_sum_set)
  finally show ?thesis .
qed

lemma dominating_score:
  assumes rnd: "mono rnd" "rnd 1 = 1" and k: "0 < k" and ws: "\<And>name. 0 \<le> weight_of ws name"
    and d: "distinct (map (\<lambda>c. (fc_source c, identity c)) cs)" and pos: "\<forall>c \<in> set cs. 1 \<le> fc_rank c"
    and a: "fused_from rnd k ws cs ra" and b: "fused_from rnd k ws cs rb"
    and dom: "dominates cs (result_identity ra) (result_identity rb)"
  shows "fr_score rb \<le> fr_score ra"
proof -
  define A where "A = filter (\<lambda>c. identity c = result_identity ra) cs"
  define B where "B = filter (\<lambda>c. identity c = result_identity rb) cs"
  let ?v = "\<lambda>c. fn_value (contribution_of rnd k ws c)"
  have "distinct (map fc_source (filter (\<lambda>c. identity c = i) cs))" for i
  proof -
    have "distinct (map (\<lambda>c. (fc_source c, identity c)) (filter (\<lambda>c. identity c = i) cs))"
      using d by (rule distinct_map_filter)
    then show ?thesis by (auto simp: distinct_map inj_on_def)
  qed
  then have s: "distinct (map fc_source B)" "distinct A" unfolding A_def B_def by (auto simp: distinct_map)
  have "\<exists>x \<in> set A. fc_source x = fc_source y \<and> ?v y \<le> ?v x" if y: "y \<in> set B" for y
  proof -
    from y have "y \<in> set cs" "identity y = result_identity rb" by (simp_all add: B_def)
    with dom obtain x where x: "x \<in> set cs" "identity x = result_identity ra" "fc_source x = fc_source y"
      "fc_rank x \<le> fc_rank y" unfolding dominates_def by blast
    with contribution_mono [OF rnd k ws x(3)] pos have "?v y \<le> ?v x" by blast
    with x show ?thesis by (auto simp: A_def)
  qed
  moreover have "\<forall>x \<in> set A. 0 \<le> ?v x"
    using a unfolding fused_from_def Let_def A_def by (auto intro: less_imp_le)
  ultimately have "sum_list (map ?v B) \<le> sum_list (map ?v A)" by (intro dominating_sum [OF s]) auto
  then have "values_of rnd k ws B \<le> values_of rnd k ws A" unfolding values_of_def by (rule monoD [OF rnd(1)])
  then show ?thesis using a b unfolding fused_from_def Let_def A_def B_def by simp
qed

subsection \<open>The order of the sources does not matter\<close>

lemma contribution_weights: "weight_of ws = weight_of ws' \<Longrightarrow> contribution_of rnd k ws = contribution_of rnd k ws'"
  by (simp add: contribution_of_def fun_eq_iff)

lemma weight_of_default: "weight_of (map (\<lambda>(name, _). (name, 1)) sources) name = (if name \<in> fst ` set sources then 1 else 0)"
  by (induction sources) (auto simp: weight_of_def)

lemma fusion_weights_perm:
  assumes "mset sources = mset sources'"
  shows "(\<exists>e. fusion_weights sources weights = Inl e \<and> fusion_weights sources' weights = Inl e)
    \<or> (\<exists>ws ws'. fusion_weights sources weights = Inr ws \<and> fusion_weights sources' weights = Inr ws'
        \<and> weight_of ws = weight_of ws')"
proof -
  have s: "set sources = set sources'" using mset_eq_setD [OF assms] .
  show ?thesis
  proof (cases weights)
    case None
    have "set (map fst (map (\<lambda>(name, _). (name, 1 :: rat)) xs)) = set (map fst xs)" for xs :: "(pystr \<times> fusion_candidate list) list"
      by (auto simp: rev_image_eqI)
    moreover have "\<not> list_ex (\<lambda>(_, w). w \<le> 0) (map (\<lambda>(name, _). (name, 1 :: rat)) xs)" for xs :: "(pystr \<times> fusion_candidate list) list"
      by (auto simp: list_ex_iff)
    ultimately show ?thesis
      using None s by (auto simp: fusion_weights_def Let_def fun_eq_iff weight_of_default)
  next
    case (Some ws)
    then show ?thesis using s by (auto simp: fusion_weights_def Let_def)
  qed
qed

lemma fusion_order_independent:
  assumes "mset sources = mset sources'" and "distinct (map fst sources)"
  shows "reciprocal_rank_fusion rnd sources k weights limit = reciprocal_rank_fusion rnd sources' k weights limit"
proof -
  have sort: "sort_key fst sources = sort_key fst sources'"
    using assms by (intro sort_key_perm_eq) (simp_all add: distinct_map)
  have s: "set sources = set sources'" using mset_eq_setD [OF assms(1)] .
  then have e: "sources = [] \<longleftrightarrow> sources' = []" "list_ex P sources = list_ex P sources'" for P
    by (auto simp: list_ex_iff)
  have f: "fused_of rnd k ws = fused_of rnd k ws'" if "weight_of ws = weight_of ws'" for ws ws'
    by (simp add: fused_of_def fun_eq_iff contribution_weights [OF that])
  from fusion_weights_perm [OF assms(1), of weights] show ?thesis
    unfolding reciprocal_rank_fusion_def e sort by (auto dest: f)
qed

text \<open>
  C31: Fusion is a deterministic ranking of exactly the given candidates. When it returns, the order in
  which the sources are given does not matter; the results are numbered from one, follow the documented
  order, and have pairwise different identities, each with the score, the best rank and the
  contributions of the candidates of that identity; without a limit no identity is lost. For any
  monotone rounding that keeps one, an identity that every source ranks at least as well as another
  never gets a lower score.
\<close>

theorem fusion_ranking:
  assumes "reciprocal_rank_fusion rnd sources k weights limit = Inr rs" and "distinct (map fst sources)"
    and "mono rnd" and "rnd 1 = 1"
  shows "(\<forall>sources'. mset sources' = mset sources \<longrightarrow> reciprocal_rank_fusion rnd sources' k weights limit = Inr rs)
    \<and> map fr_rank rs = [1..<Suc (length rs)] \<and> sorted (map fused_key rs) \<and> distinct (map result_identity rs)
    \<and> (\<exists>ws. fusion_weights sources weights = Inr ws
        \<and> (\<forall>r \<in> set rs. fused_from rnd k ws (all_candidates sources) r))
    \<and> (limit = None \<longrightarrow> result_identity ` set rs = identity ` set (all_candidates sources))
    \<and> (\<forall>ra \<in> set rs. \<forall>rb \<in> set rs. dominates (all_candidates sources) (result_identity ra) (result_identity rb)
        \<longrightarrow> fr_score rb \<le> fr_score ra)"
proof -
  from fusion_Inr [OF assms(1)] obtain ws fused where ws: "fusion_weights sources weights = Inr ws" and k: "0 < k"
    and ok: "\<forall>p \<in> set sources. source_ok p"
    and f: "res_map (fused_of rnd k ws) (group_by identity (all_candidates (sort_key fst sources))) = Inr fused"
    and rs: "rs = map (\<lambda>(i, r). r\<lparr>fr_rank := i\<rparr>) (enum1 (top_n limit (sort_key fused_key fused)))" .
  let ?cs = "all_candidates sources" and ?t = "top_n limit (sort_key fused_key fused)"
  have perm: "mset (all_candidates (sort_key fst sources)) = mset ?cs" by (rule mset_all_candidates) simp
  note r = fused_results [OF f]
  have from_cs: "\<forall>r \<in> set fused. fused_from rnd k ws ?cs r" using r(3) fused_from_mset [OF perm] by blast
  have keys: "map fused_key rs = map fused_key ?t" and ids: "map result_identity rs = map result_identity ?t"
    unfolding rs by (rule renumber_map, simp)+
  have "length rs = length ?t" by (simp add: rs)
  then have numbered: "map fr_rank rs = [1..<Suc (length rs)]" unfolding rs
    by (subst renumber_ranks) simp_all
  have sub: "\<exists>r0 \<in> set fused. r = r0\<lparr>fr_rank := fr_rank r\<rparr>" if "r \<in> set rs" for r
  proof -
    from that obtain i r0 where "(i, r0) \<in> set (enum1 ?t)" "r = r0\<lparr>fr_rank := i\<rparr>" by (auto simp: rs)
    moreover from this have "r0 \<in> set ?t" by (metis map_snd_enum1 set_zip_rightD zip_map_fst_snd)
    moreover have "set ?t \<subseteq> set fused" by (auto simp: top_take dest: in_set_takeD)
    ultimately show ?thesis by (intro bexI [of _ r0]) auto
  qed
  have froms: "\<forall>r \<in> set rs. fused_from rnd k ws ?cs r" using sub from_cs by (metis fused_key_rank(2))
  have "sorted (map fused_key ?t)" by (simp add: top_take take_map [symmetric] sorted_wrt_take)
  moreover have "distinct (map result_identity ?t)"
  proof -
    have "distinct (map result_identity (sort_key fused_key fused))"
      using r(1) by (simp add: distinct_map)
    then show ?thesis by (simp add: top_take take_map [symmetric])
  qed
  moreover have "result_identity ` set rs = identity ` set ?cs" if "limit = None"
  proof -
    have "result_identity ` set rs = result_identity ` set fused"
      using that ids by (metis list.set_map set_sort top_n_def option.simps(4))
    also have "\<dots> = identity ` set ?cs" using r(2) mset_eq_setD [OF perm] by simp
    finally show ?thesis .
  qed
  moreover have "fr_score rb \<le> fr_score ra" if "ra \<in> set rs" "rb \<in> set rs"
    "dominates ?cs (result_identity ra) (result_identity rb)" for ra rb
  proof (rule dominating_score [OF assms(3,4) k _ candidates_distinct [OF assms(2) ok]])
    show "\<forall>c \<in> set ?cs. 1 \<le> fc_rank c" using ok by (auto simp: all_candidates_def intro: source_ok_rank)
  qed (use that froms weight_nonneg [OF ws] in auto)
  moreover have "\<forall>sources'. mset sources' = mset sources \<longrightarrow> reciprocal_rank_fusion rnd sources' k weights limit = Inr rs"
    using fusion_order_independent [OF _ assms(2)] assms(1) by metis
  ultimately show ?thesis using numbered keys ids ws froms by auto
qed

subsection \<open>A concrete fusion\<close>

definition demo_candidate :: "nat \<Rightarrow> int \<Rightarrow> nat \<Rightarrow> fusion_candidate" where
  "demo_candidate source rank doc = \<lparr>fc_source = [source], fc_rank = rank, fc_document = [doc],
     fc_candidate = None, fc_record = None, fc_score = None, fc_content = None, fc_metadata = [],
     fc_provenance = []\<rparr>"

definition demo_sources :: "(pystr \<times> fusion_candidate list) list" where
  "demo_sources = [([118], [demo_candidate 118 1 97, demo_candidate 118 2 98]),
     ([98], [demo_candidate 98 1 97, demo_candidate 98 2 98])]"

definition demo_fused :: "nat \<Rightarrow> nat \<Rightarrow> rat \<Rightarrow> int \<Rightarrow> fused_result" where
  "demo_fused rank doc score best = \<lparr>fr_rank = rank, fr_document = [doc], fr_candidate = None, fr_score = score,
     fr_best = best, fr_count = 2, fr_contributions = map (contribution_of id 1 [([118], 1), ([98], 1)])
       [demo_candidate 98 best doc, demo_candidate 118 best doc],
     fr_record = None, fr_content = None, fr_metadata = [], fr_provenance = []\<rparr>"

lemma demo_fusion: "reciprocal_rank_fusion id demo_sources 1 None None = Inr [demo_fused 1 97 1 1, demo_fused 2 98 (2 / 3) 2]"
proof -
  have w: "fusion_weights demo_sources None = Inr [([118], 1), ([98], 1)]"
    by (auto simp: fusion_weights_def demo_sources_def)
  have c: "res_map check_source (sort_key fst demo_sources) = Inr [[demo_candidate 98 1 97, demo_candidate 98 2 98],
      [demo_candidate 118 1 97, demo_candidate 118 2 98]]"
    by (simp add: demo_sources_def check_source_def check_candidate_def demo_candidate_def candidate_ok_def
        py_space_def identity_def ensure_def)
  have g: "group_by identity (concat [[demo_candidate 98 1 97, demo_candidate 98 2 98],
      [demo_candidate 118 1 97, demo_candidate 118 2 98]]) =
      [([97], [demo_candidate 98 1 97, demo_candidate 118 1 97]), ([98], [demo_candidate 98 2 98, demo_candidate 118 2 98])]"
    by (simp add: group_by_def demo_candidate_def identity_def)
  have f: "fused_of id 1 [([118], 1), ([98], 1)] ([d], [demo_candidate 98 i d, demo_candidate 118 i d]) =
      Inr (demo_fused 1 d (2 / (1 + of_int i)) i)" if "0 < i" for d i
    using that
    by (auto simp: fused_of_def demo_candidate_def representative_def or_empty_def demo_fused_def contribution_of_def
        weight_of_def fsum_def Let_def field_simps)
  have r: "res_map (fused_of id 1 [([118], 1), ([98], 1)]) [([97], [demo_candidate 98 1 97, demo_candidate 118 1 97]),
      ([98], [demo_candidate 98 2 98, demo_candidate 118 2 98])] = Inr [demo_fused 1 97 1 1, demo_fused 1 98 (2 / 3) 2]"
    by (simp add: f)
  have "fused_key (demo_fused 1 97 1 1) \<le> fused_key (demo_fused 1 98 (2 / 3) 2)"
    by (simp add: fused_key_def demo_fused_def less_eq_prod_def less_prod_def)
  then have k: "sort_key fused_key [demo_fused 1 97 1 1, demo_fused 1 98 (2 / 3) 2] =
      [demo_fused 1 97 1 1, demo_fused 1 98 (2 / 3) 2]" by (simp only: sort_key_simps insort_key.simps if_True)
  have n: "\<not> list_ex (\<lambda>(name, _). blank name) demo_sources" "demo_sources \<noteq> []"
    by (simp_all add: demo_sources_def py_space_def)
  show ?thesis
    unfolding reciprocal_rank_fusion_def w c g r k res_bind.simps
    using n by (simp add: top_n_def enum1_def) (simp add: demo_fused_def)
qed

theorem fusion_ranking_witness:
  "sorted (map fused_key [demo_fused 1 97 1 1, demo_fused 2 98 (2 / 3) 2])
     \<and> reciprocal_rank_fusion id (rev demo_sources) 1 None None = Inr [demo_fused 1 97 1 1, demo_fused 2 98 (2 / 3) 2]"
proof -
  have "distinct (map fst demo_sources)" by (simp add: demo_sources_def)
  moreover have "mono (id :: rat \<Rightarrow> rat)" "id (1 :: rat) = 1" by (auto simp: mono_def)
  ultimately show ?thesis using fusion_ranking [OF demo_fusion] by (metis mset_rev)
qed

end
