(* ===== verification/EvidenceContext.thy ===== *)
theory EvidenceContext
  imports RankFusion Chunking
begin

section \<open>Retrieval: from ranked children to a bounded evidence text\<close>

text \<open>
  \<^verbatim>\<open>retrieval/parent_expansion.py\<close> and \<^verbatim>\<open>retrieval/evidence_context.py\<close>: ranked child hits are
  grouped by parent, the parents ranked by their best child, and their texts assembled under three
  character and count budgets with numbered evidence identifiers. The resolver of parents is a function
  from the requested identifiers to an association list; the in-memory one is an instance. Scores are
  finite floats, so the checks for finiteness have nothing to refuse.
\<close>

subsection \<open>Parent expansion\<close>

record child_candidate =
  ch_id :: pystr
  ch_parent :: pystr
  ch_document :: pystr
  ch_content :: pystr
  ch_rank :: int
  ch_reranker :: "rat option"
  ch_rrf :: "rat option"
  ch_record :: "pystr option"
  ch_start :: "int option"
  ch_end :: "int option"
  ch_metadata :: "(pystr \<times> json) list"
  ch_provenance :: "(pystr \<times> json) list"

definition child_ok :: "child_candidate \<Rightarrow> bool" where
  "child_ok c \<longleftrightarrow> \<not> blank (ch_id c) \<and> \<not> blank (ch_parent c) \<and> \<not> blank (ch_document c)
     \<and> \<not> blank (ch_content c) \<and> 0 < ch_rank c \<and> ch_record c \<noteq> Some []
     \<and> (\<forall>n \<in> set_option (ch_start c). 0 \<le> n) \<and> (\<forall>n \<in> set_option (ch_end c). 0 \<le> n)"

record expanded_parent =
  ep_rank :: nat
  ep_parent :: pystr
  ep_document :: pystr
  ep_content :: pystr
  ep_best :: int
  ep_count :: nat
  ep_children :: "child_candidate list"
  ep_metadata :: "(pystr \<times> json) list"
  ep_provenance :: "(pystr \<times> json) list"

type_synonym resolver = "pystr list \<Rightarrow> (pystr \<times> parent_chunk) list"

definition in_memory_resolver :: "parent_chunk list \<Rightarrow> string + resolver" where
  "in_memory_resolver parents =
     (if distinct (map pc_id parents)
      then Inr (\<lambda>ids. concat (map (\<lambda>i. case find (\<lambda>p. pc_id p = i) parents of None \<Rightarrow> [] | Some p \<Rightarrow> [(i, p)]) ids))
      else Inl ''parent resolver cannot contain duplicate parent IDs'')"

definition check_children :: "child_candidate list \<Rightarrow> string + child_candidate list" where
  "check_children cs =
     (if \<not> list_all child_ok cs then Inl ''parent expansion candidates are invalid''
      else if \<not> distinct (map ch_id cs) then Inl ''parent expansion candidates contain duplicate child IDs''
      else if map ch_rank cs \<noteq> map int [1..<Suc (length cs)]
      then Inl ''parent expansion ranks must be consecutive and start at one''
      else Inr cs)"

text \<open>The parents of a resolved mapping, and the result of one group; an empty content is refused.\<close>

definition source_json :: "pystr option \<Rightarrow> json" where
  "source_json s = (case s of None \<Rightarrow> JNull | Some t \<Rightarrow> JStr t)"

definition expanded_of :: "(pystr \<times> parent_chunk) list \<Rightarrow> pystr \<times> child_candidate list \<Rightarrow> string + expanded_parent" where
  "expanded_of resolved g = (case g of (pid, children) \<Rightarrow>
     (case map_of resolved pid of
        None \<Rightarrow> Inl ''KeyError''
      | Some p \<Rightarrow>
         (let ordered = sort_key ch_rank children
          in if pid = [] \<or> pc_document_id p = [] \<or> pc_content p = [] then Inl ''parent expansion result''
             else Inr \<lparr>ep_rank = 1, ep_parent = pid, ep_document = pc_document_id p, ep_content = pc_content p,
               ep_best = ch_rank (hd ordered), ep_count = length ordered, ep_children = ordered,
               ep_metadata = pc_metadata p,
               ep_provenance = [(lit ''source'', source_json (pc_source p)),
                 (lit ''document_version'', JStr (pc_document_version p))]\<rparr>)))"

definition expanded_key :: "expanded_parent \<Rightarrow> int \<times> pystr \<times> pystr" where
  "expanded_key e = (ep_best e, ep_parent e, ep_document e)"

definition consistent_child :: "(pystr \<times> parent_chunk) list \<Rightarrow> child_candidate \<Rightarrow> string + child_candidate" where
  "consistent_child resolved c = (case map_of resolved (ch_parent c) of
       None \<Rightarrow> Inl ''KeyError''
     | Some p \<Rightarrow> if pc_id p \<noteq> ch_parent c \<or> pc_document_id p \<noteq> ch_document c
         then Inl ''resolved parent is inconsistent with child candidate'' else Inr c)"

definition expand_parents ::
  "resolver \<Rightarrow> child_candidate list \<Rightarrow> int option \<Rightarrow> string + expanded_parent list" where
  "expand_parents resolve cs limit =
     (if (case limit of None \<Rightarrow> False | Some n \<Rightarrow> n \<le> 0)
      then Inl ''parent expansion top_k must be a positive integer''
      else res_bind (check_children cs) (\<lambda>cs. if cs = [] then Inr [] else
        (let ids = sorted_list_of_set (set (map ch_parent cs)); resolved = resolve ids
         in if set (map fst resolved) \<noteq> set ids then Inl ''parent resolver did not return every requested parent''
            else if list_ex (\<lambda>(i, p). i \<noteq> pc_id p) resolved then Inl ''parent resolver returned a mismatched parent ID''
            else res_bind (res_map (consistent_child resolved) cs) (\<lambda>cs.
              res_bind (res_map (expanded_of resolved) (group_by ch_parent cs)) (\<lambda>es.
              Inr (map (\<lambda>(i, e). e\<lparr>ep_rank := i\<rparr>) (enum1 (top_n limit (sort_key expanded_key es)))))))))"

subsection \<open>Evidence assembly\<close>

record evidence_item =
  ei_id :: pystr
  ei_rank :: nat
  ei_parent :: pystr
  ei_document :: pystr
  ei_content :: pystr
  ei_original :: nat
  ei_included :: nat
  ei_truncated :: bool
  ei_count :: nat
  ei_best :: int
  ei_metadata :: "(pystr \<times> json) list"
  ei_provenance :: "(pystr \<times> json) list"
  ei_children :: "child_candidate list"

record evidence_reference =
  er_id :: pystr
  er_parent :: pystr
  er_document :: pystr
  er_source :: "pystr option"
  er_page :: "int option"
  er_start :: "int option"
  er_end :: "int option"

record evidence_context =
  ec_text :: pystr
  ec_items :: "evidence_item list"
  ec_references :: "evidence_reference list"
  ec_included :: nat
  ec_omitted :: nat
  ec_original_chars :: nat
  ec_included_chars :: nat
  ec_truncated :: bool

record evidence_builder =
  eb_total :: int
  eb_each :: int
  eb_count :: int
  eb_marker :: pystr

definition default_marker :: pystr where
  "default_marker = [8230, 91, 25130, 26029, 93]"

definition new_evidence_builder :: "int \<Rightarrow> int \<Rightarrow> int \<Rightarrow> pystr \<Rightarrow> string + evidence_builder" where
  "new_evidence_builder max_total max_each max_count marker =
     (if max_total \<le> 0 \<or> max_each \<le> 0 \<or> max_count \<le> 0 then Inl ''evidence context limits must be positive integers''
      else if marker = [] then Inl ''truncation marker must be a nonempty string''
      else Inr \<lparr>eb_total = max_total, eb_each = max_each, eb_count = max_count, eb_marker = marker\<rparr>)"

definition fit_content :: "evidence_builder \<Rightarrow> pystr \<Rightarrow> int \<Rightarrow> pystr option" where
  "fit_content B content available =
     (let budget = min (eb_each B) available
      in if budget \<le> 0 then None
         else if int (length content) \<le> budget then Some content
         else if budget \<le> int (length (eb_marker B)) then None
         else Some (take (nat (budget - int (length (eb_marker B)))) content @ eb_marker B))"

definition plain_int :: "json \<Rightarrow> int option" where
  "plain_int v = (case v of JInt n \<Rightarrow> Some n | _ \<Rightarrow> None)"

definition text_of_source :: "json \<Rightarrow> pystr option" where
  "text_of_source v = (case v of JStr s \<Rightarrow> if blank s then None else Some s | _ \<Rightarrow> None)"

definition evidence_id :: "nat \<Rightarrow> pystr" where
  "evidence_id n = 69 # py_nat_str n"

definition evidence_reference_of :: "pystr \<Rightarrow> expanded_parent \<Rightarrow> string + evidence_reference" where
  "evidence_reference_of eid e =
     (let r = \<lparr>er_id = eid, er_parent = ep_parent e, er_document = ep_document e,
            er_source = text_of_source (jget (ep_provenance e) ''source''),
            er_page = plain_int (jget (ep_metadata e) ''page_number''),
            er_start = plain_int (jget (ep_metadata e) ''start_offset''),
            er_end = plain_int (jget (ep_metadata e) ''end_offset'')\<rparr>
      in if (\<exists>n \<in> set_option (er_page r). n < 1) \<or> (\<exists>n \<in> set_option (er_start r). n < 0)
           \<or> (\<exists>n \<in> set_option (er_end r). n < 0)
         then Inl ''evidence reference'' else Inr r)"

definition int_str :: "int \<Rightarrow> pystr" where
  "int_str n = (if n < 0 then 45 # py_nat_str (nat (- n)) else py_nat_str (nat n))"

text \<open>The labels of the header: document, source, page, offset, content.\<close>

definition evidence_header :: "evidence_reference \<Rightarrow> pystr" where
  "evidence_header r = py_join [10]
     ([[91] @ er_id r @ [93], [25991, 26723, 73, 68, 65306] @ er_document r]
      @ (case er_source r of None \<Rightarrow> [] | Some s \<Rightarrow> [[26469, 28304, 65306] @ s])
      @ (case er_page r of None \<Rightarrow> [] | Some n \<Rightarrow> [[39029, 30721, 65306] @ int_str n])
      @ (case (er_start r, er_end r) of
           (Some a, Some b) \<Rightarrow> [[20559, 31227, 65306] @ int_str a @ [45] @ int_str b]
         | _ \<Rightarrow> [])
      @ [[20869, 23481, 65306]])"

definition evidence_item_of :: "pystr \<Rightarrow> expanded_parent \<Rightarrow> pystr \<Rightarrow> evidence_item" where
  "evidence_item_of eid e content = \<lparr>ei_id = eid, ei_rank = ep_rank e, ei_parent = ep_parent e,
     ei_document = ep_document e, ei_content = content, ei_original = length (ep_content e),
     ei_included = length content, ei_truncated = (content \<noteq> ep_content e), ei_count = ep_count e,
     ei_best = ep_best e, ei_metadata = ep_metadata e, ei_provenance = ep_provenance e,
     ei_children = ep_children e\<rparr>"

text \<open>The loop: the parents left, the items and references so far and the text rendered so far.\<close>

fun assemble ::
  "evidence_builder \<Rightarrow> expanded_parent list \<Rightarrow> evidence_item list \<Rightarrow> evidence_reference list \<Rightarrow> pystr
     \<Rightarrow> string + evidence_item list \<times> evidence_reference list \<times> pystr" where
  "assemble B [] items refs rendered = Inr (items, refs, rendered)"
| "assemble B (e # es) items refs rendered =
     (if eb_count B \<le> int (length items) then Inr (items, refs, rendered)
      else (let eid = evidence_id (Suc (length items)) in
        res_bind (evidence_reference_of eid e) (\<lambda>r.
        let header = evidence_header r; separator = (if items \<noteq> [] then [10, 10] else []);
            available = eb_total B - int (length rendered) - int (length separator) - int (length header)
        in (case fit_content B (ep_content e) available of
             None \<Rightarrow> Inr (items, refs, rendered)
           | Some content \<Rightarrow>
               (let block = separator @ header @ content
                in if eb_total B < int (length rendered + length block)
                   then Inl ''evidence context exceeded its total budget''
                   else assemble B es (items @ [evidence_item_of eid e content]) (refs @ [r]) (rendered @ block))))))"

definition parent_ok :: "expanded_parent \<Rightarrow> bool" where
  "parent_ok e \<longleftrightarrow> 0 < ep_rank e \<and> ep_parent e \<noteq> [] \<and> ep_document e \<noteq> [] \<and> ep_content e \<noteq> []
     \<and> 0 < ep_best e \<and> 0 < ep_count e \<and> ep_children e \<noteq> [] \<and> list_all child_ok (ep_children e)"

definition check_parents :: "expanded_parent list \<Rightarrow> string + expanded_parent list" where
  "check_parents es =
     (if \<not> list_all parent_ok es then Inl ''evidence parents are invalid''
      else if map ep_rank es \<noteq> [1..<Suc (length es)] then Inl ''parent ranks must be consecutive and start at one''
      else if \<not> distinct (map ep_parent es) then Inl ''evidence parent IDs must be unique''
      else if list_ex (\<lambda>e. blank (ep_content e) \<or> ep_count e \<noteq> length (ep_children e)) es
      then Inl ''parent evidence''
      else Inr es)"

definition build_evidence :: "evidence_builder \<Rightarrow> expanded_parent list \<Rightarrow> string + evidence_context" where
  "build_evidence B es =
     res_bind (check_parents es) (\<lambda>es.
     res_bind (assemble B es [] [] []) (\<lambda>(items, refs, rendered).
     Inr \<lparr>ec_text = rendered, ec_items = items, ec_references = refs, ec_included = length items,
       ec_omitted = length es - length items, ec_original_chars = sum_list (map (length \<circ> ep_content) es),
       ec_included_chars = sum_list (map (length \<circ> ei_content) items),
       ec_truncated = (length items \<noteq> length es \<or> list_ex ei_truncated items)\<rparr>))"


subsection \<open>What expansion returns\<close>

lemma check_children_Inr:
  "check_children cs = Inr cs' \<Longrightarrow> cs' = cs \<and> list_all child_ok cs \<and> distinct (map ch_id cs)
     \<and> map ch_rank cs = map int [1..<Suc (length cs)]"
  by (simp add: check_children_def split: if_splits)

lemma consistent_child_Inr:
  "consistent_child resolved c = Inr c' \<Longrightarrow> c' = c \<and> (\<exists>p. map_of resolved (ch_parent c) = Some p
     \<and> pc_id p = ch_parent c \<and> pc_document_id p = ch_document c)"
  by (auto simp: consistent_child_def split: option.splits if_splits)

definition expansion_of :: "child_candidate list \<Rightarrow> expanded_parent \<Rightarrow> bool" where
  "expansion_of cs e \<longleftrightarrow> parent_ok e \<and> ep_count e = length (ep_children e)
     \<and> ep_children e = filter (\<lambda>c. ch_parent c = ep_parent e) cs
     \<and> (\<forall>c \<in> set (ep_children e). ch_document c = ep_document e \<and> ep_best e \<le> ch_rank c)
     \<and> ep_best e = ch_rank (hd (ep_children e))"

lemma ranks_sorted:
  assumes "map ch_rank cs = map int [1..<Suc (length cs)]"
  shows "sorted (map ch_rank cs)" "distinct (map ch_rank cs)"
  unfolding assms by (simp_all add: sorted_map distinct_map strict_sorted_imp_sorted del: upt_Suc)

lemma sorted_filter_ranks:
  assumes "sorted (map ch_rank cs)"
  shows "sort_key ch_rank (filter P cs) = filter P cs" and "sorted (map ch_rank (filter P cs))"
  using assms sorted_filter [of ch_rank cs P] by (simp_all add: sorted_sort_id sort_key_id_if_sorted)

lemma group_expansion:
  assumes cs: "list_all child_ok cs" "sorted (map ch_rank cs)"
    and ok: "\<forall>c \<in> set cs. consistent_child resolved c = Inr c"
    and g: "(pid, children) \<in> set (group_by ch_parent cs)" and e: "expanded_of resolved (pid, children) = Inr e"
  shows "expansion_of cs e \<and> ep_parent e = pid
    \<and> (\<exists>p. map_of resolved pid = Some p \<and> ep_content e = pc_content p \<and> ep_document e = pc_document_id p)"
proof -
  note children = group_by_memberD [OF g]
  have sorted: "sort_key ch_rank children = children" "sorted (map ch_rank children)"
    unfolding children(1) using sorted_filter_ranks [OF cs(2)] by simp_all
  from e obtain p where p: "map_of resolved pid = Some p" and nonempty: "pid \<noteq> []" "pc_document_id p \<noteq> []" "pc_content p \<noteq> []"
    and e: "e = \<lparr>ep_rank = 1, ep_parent = pid, ep_document = pc_document_id p, ep_content = pc_content p,
               ep_best = ch_rank (hd children), ep_count = length children, ep_children = children,
               ep_metadata = pc_metadata p,
               ep_provenance = [(lit ''source'', source_json (pc_source p)),
                 (lit ''document_version'', JStr (pc_document_version p))]\<rparr>"
    by (auto simp: expanded_of_def sorted Let_def split: option.splits if_splits)
  have mem: "c \<in> set cs \<and> ch_parent c = pid" if "c \<in> set children" for c using that by (simp add: children(1))
  have kids: "child_ok c" "ch_document c = pc_document_id p" if "c \<in> set children" for c
    using mem [OF that] cs(1) ok p consistent_child_Inr [of resolved c c] by (auto simp: list_all_iff)
  obtain c0 rest where c0: "children = c0 # rest" using children(2) by (cases children) auto
  have "0 < ch_rank c0" using kids(1) [of c0] by (simp add: c0 child_ok_def)
  moreover have "\<forall>c \<in> set children. ch_rank c0 \<le> ch_rank c" using sorted(2) by (auto simp: c0)
  ultimately have "parent_ok e \<and> (\<forall>c \<in> set children. ep_best e \<le> ch_rank c)"
    using nonempty kids(1) children(2) by (simp add: e parent_ok_def c0 list_all_iff)
  then show ?thesis using p kids(2) by (simp add: expansion_of_def e flip: children(1))
qed

lemma expansion_of_rank: "expansion_of cs e \<Longrightarrow> 0 < i \<Longrightarrow> expansion_of cs (e\<lparr>ep_rank := i\<rparr>)"
  by (auto simp: expansion_of_def parent_ok_def)

lemma expanded_key_rank [simp]: "expanded_key (e\<lparr>ep_rank := i\<rparr>) = expanded_key e"
  by (simp add: expanded_key_def)

lemma expand_parents_Inr:
  assumes "expand_parents resolve cs limit = Inr es" and "cs \<noteq> []"
  obtains resolved fused where "resolved = resolve (sorted_list_of_set (set (map ch_parent cs)))"
    "list_all child_ok cs" "sorted (map ch_rank cs)" "\<forall>c \<in> set cs. consistent_child resolved c = Inr c"
    "res_map (expanded_of resolved) (group_by ch_parent cs) = Inr fused"
    "es = map (\<lambda>(i, e). e\<lparr>ep_rank := i\<rparr>) (enum1 (top_n limit (sort_key expanded_key fused)))"
proof -
  let ?resolved = "resolve (sorted_list_of_set (set (map ch_parent cs)))"
  have "\<exists>cs'. check_children cs = Inr cs'"
    using assms by (cases "check_children cs") (simp_all add: expand_parents_def split: if_splits)
  then have c: "check_children cs = Inr cs" using check_children_Inr by metis
  have "res_bind (res_map (consistent_child ?resolved) cs) (\<lambda>cs. res_bind (res_map (expanded_of ?resolved) (group_by ch_parent cs))
      (\<lambda>es. Inr (map (\<lambda>(i, e). e\<lparr>ep_rank := i\<rparr>) (enum1 (top_n limit (sort_key expanded_key es)))))) = Inr es"
    using assms by (simp add: expand_parents_def c Let_def split: if_splits)
  then obtain cs' fused where ok: "res_map (consistent_child ?resolved) cs = Inr cs'"
    and f: "res_map (expanded_of ?resolved) (group_by ch_parent cs') = Inr fused"
    and es: "es = map (\<lambda>(i, e). e\<lparr>ep_rank := i\<rparr>) (enum1 (top_n limit (sort_key expanded_key fused)))"
    unfolding res_bind_Inr_iff by blast
  note c = check_children_Inr [OF c]
  have "cs' = cs" "\<forall>c \<in> set cs. consistent_child ?resolved c = Inr c"
    using res_map_validator [OF ok, of "\<lambda>c. consistent_child ?resolved c = Inr c"] consistent_child_Inr by blast+
  with f es c ranks_sorted(1) [of cs] that show thesis by blast
qed

lemma expanded_groups:
  assumes cs: "list_all child_ok cs" "sorted (map ch_rank cs)"
    and ok: "\<forall>c \<in> set cs. consistent_child resolved c = Inr c"
    and f: "res_map (expanded_of resolved) (group_by ch_parent cs) = Inr fused"
  shows "map ep_parent fused = map fst (group_by ch_parent cs)"
    and "\<forall>e \<in> set fused. expansion_of cs e
      \<and> (\<exists>p. map_of resolved (ep_parent e) = Some p \<and> ep_content e = pc_content p \<and> pc_id p = ep_parent e)"
proof -
  have each: "list_all2 (\<lambda>g e. expanded_of resolved g = Inr e) (group_by ch_parent cs) fused"
    using f by (simp add: res_map_Inr_iff)
  have grp: "expansion_of cs e \<and> ep_parent e = fst g \<and> (\<exists>p. map_of resolved (ep_parent e) = Some p
      \<and> ep_content e = pc_content p \<and> pc_id p = ep_parent e)"
    if g: "g \<in> set (group_by ch_parent cs)" and e: "expanded_of resolved g = Inr e" for g e
  proof -
    from g obtain c where "c \<in> set cs" "ch_parent c = fst g"
      using group_by_keys(2) [of ch_parent cs] by (metis image_iff list.set_map)
    with ok consistent_child_Inr have "\<exists>p. map_of resolved (fst g) = Some p \<and> pc_id p = fst g" by metis
    with group_expansion [OF cs ok, of "fst g" "snd g" e] g e show ?thesis by auto
  qed
  have "list_all2 (\<lambda>g e. expansion_of cs e \<and> ep_parent e = fst g \<and> (\<exists>p. map_of resolved (ep_parent e) = Some p
      \<and> ep_content e = pc_content p \<and> pc_id p = ep_parent e)) (group_by ch_parent cs) fused"
    by (rule list.rel_mono_strong [OF each]) (use grp in blast)
  then show "map ep_parent fused = map fst (group_by ch_parent cs)"
    and "\<forall>e \<in> set fused. expansion_of cs e
      \<and> (\<exists>p. map_of resolved (ep_parent e) = Some p \<and> ep_content e = pc_content p \<and> pc_id p = ep_parent e)"
    by (induction rule: list_all2_induct) auto
qed

lemma renumbered_member:
  assumes "e \<in> set (map (\<lambda>(i, e). e\<lparr>ep_rank := i\<rparr>) (enum1 (top_n limit (sort_key expanded_key fused))))"
  obtains i e0 where "0 < i" "e0 \<in> set fused" "e = e0\<lparr>ep_rank := i\<rparr>"
proof -
  let ?t = "top_n limit (sort_key expanded_key fused)"
  from assms obtain i e0 where i: "(i, e0) \<in> set (enum1 ?t)" "e = e0\<lparr>ep_rank := i\<rparr>" by auto
  then have "0 < i" by (auto simp: enum1_def dest: set_zip_leftD simp del: upt_Suc)
  moreover have "e0 \<in> set ?t" using i(1) by (metis map_snd_enum1 set_zip_rightD zip_map_fst_snd)
  moreover have "set ?t \<subseteq> set fused" by (auto simp: top_take dest: in_set_takeD)
  ultimately show thesis using i(2) that by blast
qed

lemma children_covered:
  assumes "\<forall>e \<in> set fused. expansion_of cs e" and "map ep_parent fused = map fst (group_by ch_parent cs)"
  shows "(\<Union>e \<in> set fused. set (ep_children e)) = set cs"
proof -
  have "(\<Union>e \<in> set fused. set (ep_children e)) = (\<Union>e \<in> set fused. {c \<in> set cs. ch_parent c = ep_parent e})"
    using assms(1) by (intro SUP_cong refl) (auto simp: expansion_of_def)
  also have "\<dots> = {c \<in> set cs. ch_parent c \<in> set (map ep_parent fused)}" by auto
  also have "\<dots> = set cs" unfolding assms(2) group_by_keys(2) by auto
  finally show ?thesis .
qed

lemma expand_parents_list:
  assumes "expand_parents resolve cs limit = Inr es"
  shows "map ep_rank es = [1..<Suc (length es)]" and "distinct (map ep_parent es)"
    and "\<forall>e \<in> set es. expansion_of cs e \<and> (\<exists>p. pc_id p = ep_parent e \<and> pc_content p = ep_content e
        \<and> map_of (resolve (sorted_list_of_set (set (map ch_parent cs)))) (ep_parent e) = Some p)"
proof -
  have "map ep_rank es = [1..<Suc (length es)] \<and> distinct (map ep_parent es)
    \<and> (\<forall>e \<in> set es. expansion_of cs e \<and> (\<exists>p. pc_id p = ep_parent e \<and> pc_content p = ep_content e
        \<and> map_of (resolve (sorted_list_of_set (set (map ch_parent cs)))) (ep_parent e) = Some p))"
  proof (cases "cs = []")
    case True
    then have "es = []" using assms by (simp add: expand_parents_def check_children_def split: if_splits)
    then show ?thesis by simp
  next
    case False
    from expand_parents_Inr [OF assms False] obtain resolved fused
      where resolved: "resolved = resolve (sorted_list_of_set (set (map ch_parent cs)))"
      and cs: "list_all child_ok cs" "sorted (map ch_rank cs)" and ok: "\<forall>c \<in> set cs. consistent_child resolved c = Inr c"
      and f: "res_map (expanded_of resolved) (group_by ch_parent cs) = Inr fused"
      and es: "es = map (\<lambda>(i, e). e\<lparr>ep_rank := i\<rparr>) (enum1 (top_n limit (sort_key expanded_key fused)))" .
    let ?t = "top_n limit (sort_key expanded_key fused)"
    note g = expanded_groups [OF cs ok f]
    have parents: "map ep_parent es = map ep_parent ?t" unfolding es by (rule renumber_map) simp
    have numbered: "map ep_rank es = [1..<Suc (length es)]" unfolding es by (subst renumber_ranks) simp_all
    have "distinct (map ep_parent fused)" by (simp only: g(1) group_by_keys)
    then have "distinct (map ep_parent (sort_key expanded_key fused))" by (simp only: distinct_map_sort_key)
    then have "distinct (map ep_parent es)" unfolding parents by (simp add: top_take take_map [symmetric])
    moreover have "\<forall>e \<in> set es. expansion_of cs e
        \<and> (\<exists>p. pc_id p = ep_parent e \<and> pc_content p = ep_content e \<and> map_of resolved (ep_parent e) = Some p)"
    proof
      fix e assume "e \<in> set es"
      then obtain i e0 where e: "0 < i" "e0 \<in> set fused" "e = e0\<lparr>ep_rank := i\<rparr>" unfolding es by (rule renumbered_member)
      with g(2) show "expansion_of cs e \<and> (\<exists>p. pc_id p = ep_parent e \<and> pc_content p = ep_content e
          \<and> map_of resolved (ep_parent e) = Some p)"
        by (auto intro: expansion_of_rank)
    qed
    ultimately show ?thesis using numbered unfolding resolved by blast
  qed
  then show "map ep_rank es = [1..<Suc (length es)]" "distinct (map ep_parent es)"
    "\<forall>e \<in> set es. expansion_of cs e \<and> (\<exists>p. pc_id p = ep_parent e \<and> pc_content p = ep_content e
        \<and> map_of (resolve (sorted_list_of_set (set (map ch_parent cs)))) (ep_parent e) = Some p)" by blast+
qed

text \<open>Results with visible contents are accepted by the evidence builder.\<close>

lemma expand_parents_checked:
  assumes "expand_parents resolve cs limit = Inr es" and "\<forall>e \<in> set es. \<not> blank (ep_content e)"
  shows "check_parents es = Inr es"
  using assms(2) expand_parents_list [OF assms(1)]
  by (auto simp: check_parents_def list_all_iff list_ex_iff expansion_of_def simp del: upt_Suc)

text \<open>
  What parent expansion returns: parents numbered from one in the order of their best child, each at
  most once, each with the content the resolver gave for it and with exactly the candidates that name
  it, in their order; without a limit every candidate is in some result. When the contents are not
  blank, the evidence builder accepts the results.
\<close>

theorem expansion_sound:
  assumes "expand_parents resolve cs limit = Inr es"
  shows "map ep_rank es = [1..<Suc (length es)] \<and> sorted (map expanded_key es) \<and> distinct (map ep_parent es)
    \<and> (\<forall>e \<in> set es. expansion_of cs e \<and> (\<exists>p. pc_id p = ep_parent e \<and> pc_content p = ep_content e
        \<and> (ep_parent e, p) \<in> set (resolve (sorted_list_of_set (set (map ch_parent cs))))))
    \<and> (limit = None \<longrightarrow> (\<Union>e \<in> set es. set (ep_children e)) = set cs)
    \<and> ((\<forall>e \<in> set es. \<not> blank (ep_content e)) \<longrightarrow> check_parents es = Inr es)"
proof -
  have "sorted (map expanded_key es) \<and> (limit = None \<longrightarrow> (\<Union>e \<in> set es. set (ep_children e)) = set cs)"
  proof (cases "cs = []")
    case True
    then have "es = []" using assms by (simp add: expand_parents_def check_children_def split: if_splits)
    then show ?thesis using True by simp
  next
    case False
    from expand_parents_Inr [OF assms False] obtain resolved fused
      where cs: "list_all child_ok cs" "sorted (map ch_rank cs)" and ok: "\<forall>c \<in> set cs. consistent_child resolved c = Inr c"
      and f: "res_map (expanded_of resolved) (group_by ch_parent cs) = Inr fused"
      and es: "es = map (\<lambda>(i, e). e\<lparr>ep_rank := i\<rparr>) (enum1 (top_n limit (sort_key expanded_key fused)))" .
    let ?t = "top_n limit (sort_key expanded_key fused)"
    note g = expanded_groups [OF cs ok f]
    have kept: "map expanded_key es = map expanded_key ?t" "map ep_children es = map ep_children ?t"
      unfolding es by (rule renumber_map, simp)+
    have "sorted (map expanded_key es)" unfolding kept by (simp add: top_take take_map [symmetric] sorted_wrt_take)
    moreover have "(\<Union>e \<in> set es. set (ep_children e)) = set cs" if "limit = None"
    proof -
      have "(\<Union>e \<in> set es. set (ep_children e)) = \<Union> (set ` set (map ep_children es))" by simp
      also have "\<dots> = (\<Union>e \<in> set fused. set (ep_children e))" unfolding kept using that by (simp add: top_n_def)
      also have "\<dots> = set cs" using children_covered [OF _ g(1)] g(2) by blast
      finally show ?thesis .
    qed
    ultimately show ?thesis by blast
  qed
  with expand_parents_list [OF assms] expand_parents_checked [OF assms] show ?thesis
    by (fast dest: map_of_SomeD)
qed

subsection \<open>What assembly returns\<close>

lemma fit_content_cases:
  assumes "fit_content B content available = Some t"
  shows "int (length t) \<le> available" and "int (length t) \<le> eb_each B"
    and "t = content \<or> (\<exists>n < length content. t = take n content @ eb_marker B)"
  using assms by (auto simp: fit_content_def Let_def split: if_splits intro!: exI [of _ "nat (min (eb_each B) available - int (length (eb_marker B)))"])

text \<open>The rendered text of the items and references so far.\<close>

definition rendering :: "evidence_item list \<Rightarrow> evidence_reference list \<Rightarrow> pystr" where
  "rendering items refs = py_join [10, 10] (map2 (\<lambda>r i. evidence_header r @ ei_content i) refs items)"

definition evidence_of :: "evidence_builder \<Rightarrow> nat \<Rightarrow> expanded_parent \<Rightarrow> evidence_item \<Rightarrow> evidence_reference \<Rightarrow> bool" where
  "evidence_of B n e i r \<longleftrightarrow> i = evidence_item_of (evidence_id n) e (ei_content i)
     \<and> evidence_reference_of (evidence_id n) e = Inr r \<and> int (length (ei_content i)) \<le> eb_each B
     \<and> (ei_content i = ep_content e \<or> (\<exists>m < length (ep_content e). ei_content i = take m (ep_content e) @ eb_marker B))"

definition assembled ::
  "evidence_builder \<Rightarrow> expanded_parent list \<Rightarrow> evidence_item list \<Rightarrow> evidence_reference list \<Rightarrow> pystr \<Rightarrow> bool" where
  "assembled B es items refs rendered \<longleftrightarrow> length refs = length items \<and> length items \<le> length es
     \<and> int (length items) \<le> eb_count B \<and> int (length rendered) \<le> eb_total B
     \<and> rendered = rendering items refs
     \<and> (\<forall>n < length items. evidence_of B (Suc n) (es ! n) (items ! n) (refs ! n))"

lemma py_join_snoc: "py_join s (xs @ [x]) = (if xs = [] then x else py_join s xs @ s @ x)"
proof (induction xs)
  case (Cons a xs)
  then show ?case by (cases xs) (simp_all add: py_join_Cons)
qed (simp add: py_join_Cons)

lemma rendering_snoc:
  "length refs = length items \<Longrightarrow> rendering (items @ [i]) (refs @ [r])
     = rendering items refs @ (if items \<noteq> [] then [10, 10] else []) @ evidence_header r @ ei_content i"
  by (cases "items = []") (auto simp: rendering_def py_join_snoc)

text \<open>Why assembly ended before the last parent: the count, or no room for the next one.\<close>

definition stopped :: "evidence_builder \<Rightarrow> expanded_parent list \<Rightarrow> evidence_item list \<Rightarrow> pystr \<Rightarrow> bool" where
  "stopped B es items rendered \<longleftrightarrow> length items < length es \<longrightarrow> int (length items) = eb_count B
     \<or> (\<exists>r. evidence_reference_of (evidence_id (Suc (length items))) (es ! length items) = Inr r
        \<and> fit_content B (ep_content (es ! length items)) (eb_total B - int (length rendered)
             - int (length (if items \<noteq> [] then [10, 10 :: nat] else [])) - int (length (evidence_header r))) = None)"

lemma assembled_step:
  assumes "assembled B es items refs rendered" and "length items < length es" and "int (length items) < eb_count B"
    and "evidence_reference_of (evidence_id (Suc (length items))) (es ! length items) = Inr r"
    and fit: "fit_content B (ep_content (es ! length items)) (eb_total B - int (length rendered)
             - int (length (if items \<noteq> [] then [10, 10 :: nat] else [])) - int (length (evidence_header r))) = Some content"
  shows "assembled B es (items @ [evidence_item_of (evidence_id (Suc (length items))) (es ! length items) content])
    (refs @ [r]) (rendered @ (if items \<noteq> [] then [10, 10] else []) @ evidence_header r @ content)"
proof -
  note fit = fit_content_cases [OF fit]
  let ?i = "evidence_item_of (evidence_id (Suc (length items))) (es ! length items) content"
  have c: "ei_content ?i = content" by (simp add: evidence_item_of_def)
  have "evidence_of B (Suc (length items)) (es ! length items) ?i r"
    using assms(4) fit(2,3) by (simp add: evidence_of_def c)
  then show ?thesis
    using assms(1-3) fit(1) rendering_snoc [of refs items ?i r]
    by (auto simp: assembled_def c nth_append less_Suc_eq)
qed

lemma assemble_assembled:
  assumes "assembled B (before @ rest) items refs rendered" and "length items = length before"
  shows "(\<exists>items' refs' rendered'. assemble B rest items refs rendered = Inr (items', refs', rendered')
      \<and> assembled B (before @ rest) items' refs' rendered' \<and> stopped B (before @ rest) items' rendered')
    \<or> assemble B rest items refs rendered = Inl ''evidence reference''"
  using assms
proof (induction rest arbitrary: before items refs rendered)
  case Nil
  then show ?case by (simp add: stopped_def)
next
  case (Cons e rest)
  have nth: "(before @ e # rest) ! length items = e" using Cons.prems(2) by simp
  show ?case
  proof (cases "eb_count B \<le> int (length items)")
    case True
    with Cons.prems show ?thesis by (auto simp: stopped_def assembled_def)
  next
    case False
    let ?eid = "evidence_id (Suc (length items))" and ?sep = "if items \<noteq> [] then [10, 10 :: nat] else []"
    show ?thesis
    proof (cases "evidence_reference_of ?eid e")
      case (Inl err)
      then show ?thesis using False by (auto simp: evidence_reference_of_def Let_def split: if_splits)
    next
      case (Inr r)
      let ?fit = "fit_content B (ep_content e) (eb_total B - int (length rendered) - int (length ?sep) - int (length (evidence_header r)))"
      show ?thesis
      proof (cases ?fit)
        case None
        then show ?thesis using False Inr Cons.prems nth by (simp add: stopped_def Let_def)
      next
        case (Some content)
        let ?items = "items @ [evidence_item_of ?eid e content]" and ?text = "rendered @ ?sep @ evidence_header r @ content"
        have step: "assembled B ((before @ [e]) @ rest) ?items (refs @ [r]) ?text"
          using assembled_step [of B "before @ e # rest" items refs rendered r content] Cons.prems False Inr Some nth by simp
        then have "\<not> eb_total B < int (length rendered + length (?sep @ evidence_header r @ content))"
          by (simp add: assembled_def)
        then have "assemble B (e # rest) items refs rendered = assemble B rest ?items (refs @ [r]) ?text"
          using False Inr Some by (simp add: Let_def)
        with Cons.IH [OF step] Cons.prems(2) show ?thesis by simp
      qed
    qed
  qed
qed

text \<open>A parent whose recorded page and offsets are in range has a reference under every identifier.\<close>

lemma assemble_located:
  assumes "\<forall>e \<in> set es. \<forall>eid. \<exists>r. evidence_reference_of eid e = Inr r"
  shows "assemble B es items refs rendered \<noteq> Inl ''evidence reference''"
  using assms
  by (induction es arbitrary: items refs rendered) (auto simp: Let_def res_simps split: option.splits, (metis Inl_Inr_False)+)

text \<open>
  C35: The evidence text stays within its budgets. For a builder that its constructor accepts, a built
  context holds the first parents in their order, numbered E1, E2, ..., no more than the configured count;
  each content is the parent's whole content or a proper beginning of it followed by the marker, within
  the limit of one item; the text is exactly the headers and contents joined by blank lines and within
  the total limit; the counts agree, and it ends early only for the count or for lack of room. Building
  fails only on refused parents or a refused location of one of them, never on its own budget check.
\<close>

theorem evidence_within_budget:
  assumes "new_evidence_builder max_total max_each max_count marker = Inr B"
  shows "(\<forall>ctx. build_evidence B es = Inr ctx \<longrightarrow> check_parents es = Inr es
        \<and> assembled B es (ec_items ctx) (ec_references ctx) (ec_text ctx) \<and> stopped B es (ec_items ctx) (ec_text ctx)
        \<and> int (length (ec_text ctx)) \<le> max_total \<and> int (length (ec_items ctx)) \<le> max_count
        \<and> ec_included ctx = length (ec_items ctx) \<and> ec_included ctx + ec_omitted ctx = length es
        \<and> (\<not> ec_truncated ctx \<longrightarrow> map ei_content (ec_items ctx) = map ep_content es))
    \<and> (\<forall>e. build_evidence B es = Inl e \<longrightarrow> check_parents es = Inl e \<or> e = ''evidence reference'')"
proof -
  have B: "B = \<lparr>eb_total = max_total, eb_each = max_each, eb_count = max_count, eb_marker = marker\<rparr>"
    "0 < max_total" "0 < max_count"
    using assms by (auto simp: new_evidence_builder_def split: if_splits)
  have "assembled B es [] [] []" using B by (simp add: assembled_def rendering_def)
  then have a: "(\<exists>items refs rendered. assemble B es [] [] [] = Inr (items, refs, rendered)
      \<and> assembled B es items refs rendered \<and> stopped B es items rendered)
    \<or> assemble B es [] [] [] = Inl ''evidence reference''"
    using assemble_assembled [of B "[]" es "[]" "[]" "[]"] by simp
  show ?thesis
  proof (cases "check_parents es")
    case (Inl e)
    then show ?thesis by (simp add: build_evidence_def)
  next
    case (Inr es')
    then have ok: "check_parents es = Inr es" "es' = es" by (simp_all add: check_parents_def split: if_splits)
    have whole: "map ei_content items = map ep_content es"
      if "assembled B es items refs rendered" "length items = length es" "\<not> list_ex ei_truncated items" for items refs rendered
    proof (rule nth_equalityI)
      fix n assume n: "n < length (map ei_content items)"
      with that(1) have "items ! n = evidence_item_of (evidence_id (Suc n)) (es ! n) (ei_content (items ! n))"
        by (simp add: assembled_def evidence_of_def)
      moreover have "\<not> ei_truncated (items ! n)" using that(3) n by (auto simp: list_ex_iff)
      ultimately have "ei_content (items ! n) = ep_content (es ! n)"
        by (metis evidence_item.select_convs(8) evidence_item_of_def)
      with n that(2) show "map ei_content items ! n = map ep_content es ! n" by simp
    qed (simp add: that(2))
    from a show ?thesis
    proof (elim disjE exE conjE)
      fix items refs rendered
      assume "assemble B es [] [] [] = Inr (items, refs, rendered)" "assembled B es items refs rendered"
        "stopped B es items rendered"
      then show ?thesis using ok whole [of items refs rendered] B by (auto simp: build_evidence_def assembled_def)
    next
      assume "assemble B es [] [] [] = Inl ''evidence reference''"
      then show ?thesis using ok by (simp add: build_evidence_def)
    qed
  qed
qed

subsection \<open>A concrete expansion and its evidence\<close>

definition demo_child :: "nat \<Rightarrow> nat \<Rightarrow> int \<Rightarrow> child_candidate" where
  "demo_child cid pid rank = \<lparr>ch_id = [cid], ch_parent = [pid], ch_document = [100], ch_content = [99],
     ch_rank = rank, ch_reranker = None, ch_rrf = None, ch_record = None, ch_start = None, ch_end = None,
     ch_metadata = [], ch_provenance = []\<rparr>"

definition demo_parent :: "nat \<Rightarrow> pystr \<Rightarrow> parent_chunk" where
  "demo_parent pid content = \<lparr>pc_id = [pid], pc_document_id = [100], pc_document_version = [49],
     pc_content = content, pc_block_ids = [], pc_page = None, pc_source = None, pc_start = 0,
     pc_end = int (length content), pc_metadata = []\<rparr>"

definition demo_resolver :: resolver where
  "demo_resolver = (\<lambda>ids. [([112], demo_parent 112 (lit ''policy'')), ([113], demo_parent 113 (lit ''a longer text''))])"

definition demo_children :: "child_candidate list" where
  "demo_children = [demo_child 97 113 1, demo_child 98 112 2, demo_child 99 113 3]"

definition demo_expanded :: "nat \<Rightarrow> nat \<Rightarrow> pystr \<Rightarrow> child_candidate list \<Rightarrow> expanded_parent" where
  "demo_expanded rank pid content children = \<lparr>ep_rank = rank, ep_parent = [pid], ep_document = [100],
     ep_content = content, ep_best = ch_rank (hd children), ep_count = length children, ep_children = children,
     ep_metadata = [], ep_provenance = [(lit ''source'', JNull), (lit ''document_version'', JStr [49])]\<rparr>"

definition demo_evidence :: "expanded_parent list" where
  "demo_evidence = [demo_expanded 1 113 (lit ''a longer text'') [demo_child 97 113 1, demo_child 99 113 3],
     demo_expanded 2 112 (lit ''policy'') [demo_child 98 112 2]]"

lemma demo_child_ok: "child_ok (demo_child c p n) \<longleftrightarrow> \<not> py_space c \<and> \<not> py_space p \<and> 0 < n"
  by (simp add: child_ok_def demo_child_def py_space_def)

lemma demo_expansion: "expand_parents demo_resolver demo_children None = Inr demo_evidence"
proof -
  have c: "check_children demo_children = Inr demo_children"
    by (simp add: check_children_def demo_children_def demo_child_ok py_space_def) (simp add: demo_child_def)
  have ids: "sorted_list_of_set (set (map ch_parent demo_children)) = [[112], [113]]"
    by (simp add: demo_children_def demo_child_def insert_commute)
  have g: "group_by ch_parent demo_children = [([113], [demo_child 97 113 1, demo_child 99 113 3]), ([112], [demo_child 98 112 2])]"
    by (simp add: group_by_def demo_children_def demo_child_def)
  have ok: "res_map (consistent_child (demo_resolver [[112], [113]])) demo_children = Inr demo_children"
    by (simp add: demo_children_def consistent_child_def demo_resolver_def demo_child_def demo_parent_def)
  have e: "res_map (expanded_of (demo_resolver [[112], [113]])) (group_by ch_parent demo_children) =
      Inr (map (\<lambda>e. e\<lparr>ep_rank := 1\<rparr>) demo_evidence)"
    by (simp add: g expanded_of_def demo_resolver_def demo_parent_def demo_evidence_def demo_expanded_def source_json_def
        demo_child_def)
  have r: "set (map fst (demo_resolver [[112], [113]])) = set [[112], [113]]"
    "\<not> list_ex (\<lambda>(i, p). i \<noteq> pc_id p) (demo_resolver [[112], [113]])" "demo_children \<noteq> []"
    by (simp_all add: demo_resolver_def demo_parent_def demo_children_def)
  show ?thesis
    by (simp add: expand_parents_def c ids r ok e Let_def top_n_def enum1_def del: set_map list.set)
      (simp add: demo_evidence_def demo_expanded_def demo_child_def expanded_key_def)
qed

lemma demo_built: "\<exists>ctx. build_evidence \<lparr>eb_total = 60, eb_each = 10, eb_count = 5, eb_marker = default_marker\<rparr> demo_evidence = Inr ctx"
proof -
  have c: "check_parents demo_evidence = Inr demo_evidence"
    by (simp add: check_parents_def demo_evidence_def demo_expanded_def parent_ok_def demo_child_ok lit_def py_space_def)
      (simp add: demo_child_def)
  have r: "\<exists>r. evidence_reference_of eid (demo_expanded i p t cs) = Inr r" for eid i p t cs
    by (simp add: evidence_reference_of_def demo_expanded_def plain_int_def jget_def Let_def)
  let ?B = "\<lparr>eb_total = 60, eb_each = 10, eb_count = 5, eb_marker = default_marker\<rparr>"
  have "assembled ?B demo_evidence [] [] []" by (simp add: assembled_def rendering_def)
  moreover have "assemble ?B demo_evidence [] [] [] \<noteq> Inl ''evidence reference''"
    by (rule assemble_located) (simp add: demo_evidence_def r)
  ultimately show ?thesis
    using assemble_assembled [of ?B "[]" demo_evidence "[]" "[]" "[]"] by (auto simp: build_evidence_def c)
qed

theorem expansion_sound_witness: "check_parents demo_evidence = Inr demo_evidence"
  using expansion_sound [OF demo_expansion] by (simp add: demo_evidence_def demo_expanded_def lit_def py_space_def)

theorem evidence_within_budget_witness:
  "\<exists>ctx. build_evidence \<lparr>eb_total = 60, eb_each = 10, eb_count = 5, eb_marker = default_marker\<rparr> demo_evidence = Inr ctx
     \<and> int (length (ec_text ctx)) \<le> 60"
proof -
  have b: "new_evidence_builder 60 10 5 default_marker =
      Inr \<lparr>eb_total = 60, eb_each = 10, eb_count = 5, eb_marker = default_marker\<rparr>"
    by (simp add: new_evidence_builder_def default_marker_def)
  from demo_built show ?thesis using evidence_within_budget [OF b] by blast
qed

end
