(* ===== verification/KnowledgeAgents.thy ===== *)
theory KnowledgeAgents
  imports ToolCalling EvidenceContext
begin

section \<open>The provider roles of the knowledge agent\<close>

text \<open>
  \<^verbatim>\<open>agents/evidence_selector.py\<close>, \<^verbatim>\<open>agents/answerability_reviewer.py\<close> and
  \<^verbatim>\<open>agents/grounded_answer.py\<close>: what each role may return, how its output is validated, and the
  provider-backed implementation. The HTTP exchange is an argument that maps the JSON payload to an
  outcome; the texts of the system prompts are arguments as well, and trace spans are left out.
\<close>

subsection \<open>Replies of injected roles\<close>

text \<open>\<open>RaisedCode\<close> is the error class of the role with its subcode and details, \<open>RaisedValue\<close> a
  \<^verbatim>\<open>ValueError\<close>, \<^verbatim>\<open>TypeError\<close> or validation error, \<open>RaisedOther\<close> any other exception.\<close>

datatype 'a agent_reply = Replied 'a | RaisedCode pystr "(pystr \<times> json) list" | RaisedValue | RaisedOther
  | AgentCancelled

text \<open>The fields of \<^verbatim>\<open>ErrorRecord\<close> the workflows set.\<close>

record error_record =
  qe_code :: pystr
  qe_message :: pystr
  qe_details :: "(pystr \<times> json) list"

datatype post_outcome = PostValue json | PostHttp int | PostTimeout | PostUnavailable | PostUndecodable
  | PostOther | PostCancelled

type_synonym 'w transport = "(pystr \<times> json) list \<Rightarrow> 'w \<Rightarrow> post_outcome \<times> 'w"

record llm_config =
  lc_key :: pystr
  lc_base :: pystr
  lc_model :: pystr

definition rstrip_slash :: "pystr \<Rightarrow> pystr" where
  "rstrip_slash s = rev (dropWhile (\<lambda>c. c = 47) (rev s))"

definition new_llm_config :: "pystr \<Rightarrow> pystr \<Rightarrow> pystr \<Rightarrow> string + llm_config" where
  "new_llm_config key base model =
     (if blank key \<or> blank base \<or> blank model then Inl ''LLM API key, base URL, and model name are required''
      else Inr \<lparr>lc_key = key, lc_base = rstrip_slash base, lc_model = model\<rparr>)"

definition chat_payload :: "llm_config \<Rightarrow> int \<Rightarrow> pystr \<Rightarrow> pystr \<Rightarrow> (pystr \<times> json) list" where
  "chat_payload C limit rules user =
     [(lit ''model'', JStr (lc_model C)), (lit ''temperature'', JInt 0), (lit ''max_tokens'', JInt limit),
      (lit ''response_format'', jobj [(''type'', JStr (lit ''json_object''))]),
      (lit ''messages'', JList [message ''system'' rules, message ''user'' user])]"

text \<open>A decoded reply that is no object is a \<^verbatim>\<open>ValueError\<close>, like one that cannot be decoded.\<close>

definition post_chat ::
  "'w transport \<Rightarrow> (pystr \<Rightarrow> pystr option) \<Rightarrow> llm_config \<Rightarrow> int \<Rightarrow> pystr \<Rightarrow> pystr \<Rightarrow> 'w \<Rightarrow> post_outcome \<times> 'w" where
  "post_chat send hostname C limit rules user w =
     (case send (build_chat_completion_payload hostname (lc_base C) (chat_payload C limit rules user)) w of
        (PostValue v, w) \<Rightarrow> (if is_object v then PostValue v else PostUndecodable, w)
      | (out, w) \<Rightarrow> (out, w))"

subsection \<open>Citations\<close>

text \<open>\<^verbatim>\<open>^\[E[1-9][0-9]*\]$\<close> (letter 69) and \<^verbatim>\<open>^\[D[1-9][0-9]*\]$\<close> (letter 68), matched in full.\<close>

definition citation_format :: "nat \<Rightarrow> pystr \<Rightarrow> bool" where
  "citation_format letter s = (case s of
     c # l # d # rest \<Rightarrow> c = 91 \<and> l = letter \<and> 49 \<le> d \<and> d \<le> 57 \<and> rest \<noteq> []
       \<and> list_all (\<lambda>x. 48 \<le> x \<and> x \<le> 57) (butlast rest) \<and> last rest = 93
   | _ \<Rightarrow> False)"

text \<open>\<^verbatim>\<open>re.findall(r"\[[^\[\]]+\]", s)\<close>\<close>

definition bracket :: "nat \<Rightarrow> bool" where
  "bracket c \<longleftrightarrow> c = 91 \<or> c = 93"

function inline_brackets :: "pystr \<Rightarrow> pystr list" where
  "inline_brackets [] = []"
| "inline_brackets (c # s) =
     (let body = takeWhile (\<lambda>x. \<not> bracket x) s; rest = dropWhile (\<lambda>x. \<not> bracket x) s
      in if c = 91 \<and> body \<noteq> [] \<and> rest \<noteq> [] \<and> hd rest = 93
         then (91 # body @ [93]) # inline_brackets (tl rest)
         else inline_brackets s)"
  by pat_completeness auto
termination
  by (relation "measure length") (auto simp: le_imp_less_Suc order.trans [OF diff_le_self length_dropWhile_le])

text \<open>\<^verbatim>\<open>list(dict.fromkeys(xs))\<close>, and the loop that appends what is not yet there.\<close>

definition first_seen :: "'a list \<Rightarrow> 'a list" where
  "first_seen xs = rev (remdups (rev xs))"

lemma set_first_seen [simp]: "set (first_seen xs) = set xs"
  by (simp add: first_seen_def)

lemma distinct_first_seen [simp]: "distinct (first_seen xs)"
  by (simp add: first_seen_def)

lemma first_seen_Nil_iff [simp]: "first_seen xs = [] \<longleftrightarrow> xs = []"
  by (simp add: first_seen_def)

text \<open>A list of errors that ends up empty: every check has passed.\<close>

lemma flag_Nil: "(if c then [x] else []) = [] \<longleftrightarrow> \<not> c"
  by simp

text \<open>\<^verbatim>\<open>f"[{id}]"\<close> unless it starts with a bracket.\<close>

definition bracketed :: "pystr \<Rightarrow> pystr" where
  "bracketed i = (if take 1 i = [91] then i else [91] @ i @ [93])"

subsection \<open>Evidence selection\<close>

record evidence_selection =
  es_ids :: "pystr list"
  es_reason :: pystr

definition new_evidence_selection :: "evidence_selection \<Rightarrow> evidence_selection option" where
  "new_evidence_selection s = (if es_reason s \<noteq> [] \<and> length (es_reason s) \<le> 500 then Some s else None)"

definition has_only :: "(pystr \<times> json) list \<Rightarrow> string list \<Rightarrow> bool" where
  "has_only fs names \<longleftrightarrow> list_all (\<lambda>kv. fst kv \<in> lit ` set names) fs"

definition optional_strings :: "(pystr \<times> json) list \<Rightarrow> string \<Rightarrow> pystr list option" where
  "optional_strings fs name = (case map_of fs (lit name) of
       None \<Rightarrow> Some [] | Some (JList vs) \<Rightarrow> strings_of vs | Some _ \<Rightarrow> None)"

definition selection_of_json :: "json \<Rightarrow> evidence_selection option" where
  "selection_of_json v = (case v of
       JObj fs \<Rightarrow> if \<not> has_only fs [''selected_evidence_ids'', ''selection_reason''] then None
         else (case (optional_strings fs ''selected_evidence_ids'', jget fs ''selection_reason'') of
             (Some ids, JStr reason) \<Rightarrow> new_evidence_selection \<lparr>es_ids = ids, es_reason = reason\<rparr>
           | _ \<Rightarrow> None)
     | _ \<Rightarrow> None)"

text \<open>The normalized identifiers and the errors; the validation passes when there is no error.\<close>

definition validate_evidence_selection :: "pystr list \<Rightarrow> evidence_selection \<Rightarrow> pystr list \<times> string list" where
  "validate_evidence_selection ids s =
     (let available = map bracketed ids;
          requested = first_seen (filter (citation_format 69) (es_ids s));
          errors = map (\<lambda>_. ''invalid_selected_evidence_id'') (filter (\<lambda>i. \<not> citation_format 69 i) (es_ids s))
            @ (if list_ex (\<lambda>i. i \<notin> set available) requested then [''selected_evidence_not_found''] else [])
            @ (if blank (es_reason s) then [''empty_selection_reason''] else [])
      in (filter (\<lambda>i. i \<in> set requested) available, first_seen errors))"

definition render_selected_evidence_context :: "evidence_item list \<Rightarrow> pystr" where
  "render_selected_evidence_context items = py_join [10, 10] (map (\<lambda>i. [91] @ ei_id i @ [93, 10] @ ei_content i) items)"

definition selector_post ::
  "'w transport \<Rightarrow> (pystr \<Rightarrow> pystr option) \<Rightarrow> llm_config \<Rightarrow> pystr \<Rightarrow> pystr \<Rightarrow> pystr \<Rightarrow> 'w \<Rightarrow> post_outcome \<times> 'w" where
  "selector_post send hostname C rules query context = post_chat send hostname C 400 rules
     (py_join [10] [lit ''User question:'', query, [], lit ''Evidence Context:'', context])"

text \<open>An undecodable reply is a \<^verbatim>\<open>ValueError\<close> that the selector does not translate.\<close>

definition provider_select ::
  "'w transport \<Rightarrow> (pystr \<Rightarrow> pystr option) \<Rightarrow> (pystr \<Rightarrow> json option) \<Rightarrow> llm_config \<Rightarrow> pystr \<Rightarrow> pystr \<Rightarrow> pystr \<Rightarrow> 'w
     \<Rightarrow> evidence_selection agent_reply \<times> 'w" where
  "provider_select send hostname parse C rules query context w =
     (let failed = (\<lambda>code. RaisedCode (lit code) [])
      in case selector_post send hostname C rules query context w of
        (PostCancelled, w) \<Rightarrow> (AgentCancelled, w)
      | (PostHttp _, w) \<Rightarrow> (failed ''selector_http_error'', w)
      | (PostTimeout, w) \<Rightarrow> (failed ''selector_timeout'', w)
      | (PostUnavailable, w) \<Rightarrow> (failed ''selector_request_failed'', w)
      | (PostUndecodable, w) \<Rightarrow> (RaisedValue, w)
      | (PostOther, w) \<Rightarrow> (RaisedOther, w)
      | (PostValue payload, w) \<Rightarrow>
          (case extract_stopped_message_content payload of
             Inl code \<Rightarrow> failed (''selector_'' @ code)
           | Inr content \<Rightarrow> (case parse content of
                 None \<Rightarrow> failed ''selector_json_parse_failed''
               | Some v \<Rightarrow> (case selection_of_json v of
                     None \<Rightarrow> failed ''selector_schema_validation_failed'' | Some s \<Rightarrow> Replied s)), w))"

subsection \<open>Answerability review\<close>

datatype verdict = Answerable | Unanswerable

record answerability_decision =
  ad_verdict :: verdict
  ad_missing :: "pystr option"
  ad_reason :: pystr

definition new_answerability_decision :: "answerability_decision \<Rightarrow> answerability_decision option" where
  "new_answerability_decision d =
     (if ad_reason d \<noteq> [] \<and> length (ad_reason d) \<le> 500 \<and> \<not> blank (ad_reason d)
        \<and> (case ad_verdict d of Answerable \<Rightarrow> ad_missing d = None
           | Unanswerable \<Rightarrow> (case ad_missing d of None \<Rightarrow> False | Some m \<Rightarrow> \<not> blank m))
      then Some d else None)"

definition decision_of_json :: "json \<Rightarrow> answerability_decision option" where
  "decision_of_json v = (case v of
       JObj fs \<Rightarrow> if \<not> has_only fs [''answerability'', ''missing_information'', ''decision_reason''] then None
         else (case (jget fs ''answerability'', opt_str_field (jget fs ''missing_information''), jget fs ''decision_reason'') of
             (JStr word, Inr missing, JStr reason) \<Rightarrow>
               if word = lit ''answerable''
               then new_answerability_decision \<lparr>ad_verdict = Answerable, ad_missing = missing, ad_reason = reason\<rparr>
               else if word = lit ''unanswerable''
               then new_answerability_decision \<lparr>ad_verdict = Unanswerable, ad_missing = missing, ad_reason = reason\<rparr>
               else None
           | _ \<Rightarrow> None)
     | _ \<Rightarrow> None)"

definition validate_answerability_decision :: "pystr \<Rightarrow> answerability_decision \<Rightarrow> string list" where
  "validate_answerability_decision query d = first_seen
     (if is_chinese query
      then (if \<not> is_chinese (ad_reason d) then [''reviewer_language_mismatch''] else [])
        @ (if ad_verdict d = Unanswerable \<and> \<not> is_chinese (or_empty (ad_missing d))
           then [''reviewer_language_mismatch''] else [])
      else [])"

definition review_prompt :: "pystr \<Rightarrow> pystr \<Rightarrow> pystr" where
  "review_prompt query context = py_join [10]
     ([lit ''User question:'', query, [], lit ''Selected Evidence Context:'', context]
      @ (if is_chinese query
         then [[], lit ''Mandatory Chinese output requirement:'',
           lit ''Keep JSON field names in English. decision_reason must be a complete Simplified ''
           @ lit ''Chinese sentence. If answerability is unanswerable, missing_information must use ''
           @ lit ''Simplified Chinese. Do not write English sentences in these two fields.'']
         else []))"

definition reviewer_post ::
  "'w transport \<Rightarrow> (pystr \<Rightarrow> pystr option) \<Rightarrow> llm_config \<Rightarrow> pystr \<Rightarrow> pystr \<Rightarrow> pystr \<Rightarrow> 'w \<Rightarrow> post_outcome \<times> 'w" where
  "reviewer_post send hostname C rules query context =
     post_chat send hostname C 400 rules (review_prompt query context)"

text \<open>What the reviewer and the answer generator make of an outcome: their errors carry no subcode.\<close>

definition plain_reply ::
  "(json \<Rightarrow> 'a option) \<Rightarrow> (pystr \<Rightarrow> json option) \<Rightarrow> post_outcome \<Rightarrow> 'a agent_reply" where
  "plain_reply decode parse out = (case out of
       PostCancelled \<Rightarrow> AgentCancelled
     | PostOther \<Rightarrow> RaisedOther
     | PostValue payload \<Rightarrow>
         (case extract_stopped_message_content payload of
            Inl _ \<Rightarrow> RaisedOther
          | Inr content \<Rightarrow> (case Option.bind (parse content) decode of None \<Rightarrow> RaisedOther | Some x \<Rightarrow> Replied x))
     | _ \<Rightarrow> RaisedOther)"

definition provider_review ::
  "'w transport \<Rightarrow> (pystr \<Rightarrow> pystr option) \<Rightarrow> (pystr \<Rightarrow> json option) \<Rightarrow> llm_config \<Rightarrow> pystr \<Rightarrow> pystr \<Rightarrow> pystr \<Rightarrow> 'w
     \<Rightarrow> answerability_decision agent_reply \<times> 'w" where
  "provider_review send hostname parse C rules query context w =
     (case reviewer_post send hostname C rules query context w of
        (out, w) \<Rightarrow> (plain_reply decision_of_json parse out, w))"

subsection \<open>Grounded answers\<close>

record answer_draft =
  dr_answer :: pystr
  dr_citations :: "pystr list"

definition new_answer_draft :: "answer_draft \<Rightarrow> answer_draft option" where
  "new_answer_draft d = (if dr_answer d \<noteq> [] then Some d else None)"

definition draft_of_json :: "json \<Rightarrow> answer_draft option" where
  "draft_of_json v = (case v of
       JObj fs \<Rightarrow> if \<not> has_only fs [''answer'', ''citations''] then None
         else (case (jget fs ''answer'', optional_strings fs ''citations'') of
             (JStr a, Some cs) \<Rightarrow> new_answer_draft \<lparr>dr_answer = a, dr_citations = cs\<rparr>
           | _ \<Rightarrow> None)
     | _ \<Rightarrow> None)"

definition answer_prompt :: "pystr \<Rightarrow> pystr \<Rightarrow> pystr \<Rightarrow> pystr option \<Rightarrow> pystr \<Rightarrow> pystr" where
  "answer_prompt query context verdict missing reason = py_join [10]
     [lit ''User question:'', query, [], lit ''Reviewer conclusion (already determined; do not change it):'', verdict,
      [], lit ''Reviewer missing information:'', (case missing of None \<Rightarrow> lit ''None'' | Some m \<Rightarrow> m),
      [], lit ''Reviewer audit reason:'', reason, [], lit ''Selected Evidence Context:'', context]"

definition answer_post ::
  "'w transport \<Rightarrow> (pystr \<Rightarrow> pystr option) \<Rightarrow> llm_config \<Rightarrow> pystr \<Rightarrow> pystr \<Rightarrow> pystr \<Rightarrow> pystr \<Rightarrow> pystr option \<Rightarrow> pystr
     \<Rightarrow> 'w \<Rightarrow> post_outcome \<times> 'w" where
  "answer_post send hostname C rules query context verdict missing reason =
     post_chat send hostname C 600 rules (answer_prompt query context verdict missing reason)"

definition provider_answer ::
  "'w transport \<Rightarrow> (pystr \<Rightarrow> pystr option) \<Rightarrow> (pystr \<Rightarrow> json option) \<Rightarrow> llm_config \<Rightarrow> pystr \<Rightarrow> pystr \<Rightarrow> pystr \<Rightarrow> pystr
     \<Rightarrow> pystr option \<Rightarrow> pystr \<Rightarrow> 'w \<Rightarrow> answer_draft agent_reply \<times> 'w" where
  "provider_answer send hostname parse C rules query context verdict missing reason w =
     (case answer_post send hostname C rules query context verdict missing reason w of
        (out, w) \<Rightarrow> (plain_reply draft_of_json parse out, w))"

end
