(* ===== verification/DataAgents.thy ===== *)
theory DataAgents
  imports KnowledgeAgents
begin

section \<open>The provider roles of the data agent\<close>

text \<open>
  \<^verbatim>\<open>agents/data_query_planner.py\<close>, \<^verbatim>\<open>agents/data_answer_generator.py\<close> and
  \<^verbatim>\<open>data_agent/models.py\<close>: the plan of one query, the evidence of one executed query, the bounded
  projection of it that a provider may see, and the validation of what both roles return. Case folding
  and the word characters of Unicode are arguments (\<open>casefold\<close>, \<open>word\<close>); so are the prompts, the JSON text
  of a value and the HTTP exchange.
\<close>

subsection \<open>Plans\<close>

datatype plan_status = PlanReady | PlanClarify | PlanUnsupported

record data_plan =
  dp_status :: plan_status
  dp_intent :: pystr
  dp_sql :: "pystr option"
  dp_reason :: pystr
  dp_missing :: "pystr option"

definition plan_contract :: "data_plan \<Rightarrow> bool" where
  "plan_contract p \<longleftrightarrow>
     (if dp_status p = PlanReady
      then (case dp_sql p of None \<Rightarrow> False | Some q \<Rightarrow> \<not> blank q) \<and> dp_missing p = None
      else dp_sql p = None)
     \<and> (dp_status p = PlanClarify \<longrightarrow> (case dp_missing p of None \<Rightarrow> False | Some m \<Rightarrow> \<not> blank m))"

definition new_data_plan :: "data_plan \<Rightarrow> data_plan option" where
  "new_data_plan p =
     (if dp_intent p \<noteq> [] \<and> length (dp_intent p) \<le> 240 \<and> length_within 20000 (dp_sql p)
        \<and> dp_reason p \<noteq> [] \<and> length (dp_reason p) \<le> 500 \<and> length_within 300 (dp_missing p) \<and> plan_contract p
      then Some p else None)"

definition plan_status_of :: "pystr \<Rightarrow> plan_status option" where
  "plan_status_of s = (if s = lit ''ready'' then Some PlanReady else if s = lit ''needs_clarification'' then Some PlanClarify
     else if s = lit ''unsupported'' then Some PlanUnsupported else None)"

definition plan_of_json :: "json \<Rightarrow> data_plan option" where
  "plan_of_json v = (case v of
       JObj fs \<Rightarrow>
         if \<not> has_only fs [''status'', ''intent'', ''sql'', ''decision_reason'', ''missing_information''] then None
         else (case (jget fs ''status'', jget fs ''intent'', opt_str_field (jget fs ''sql''), jget fs ''decision_reason'',
               opt_str_field (jget fs ''missing_information'')) of
             (JStr status, JStr intent, Inr sql, JStr reason, Inr missing) \<Rightarrow>
               Option.bind (plan_status_of status) (\<lambda>status. new_data_plan \<lparr>dp_status = status, dp_intent = intent,
                 dp_sql = sql, dp_reason = reason, dp_missing = missing\<rparr>)
           | _ \<Rightarrow> None)
     | _ \<Rightarrow> None)"

definition validate_data_query_plan :: "pystr \<Rightarrow> data_plan \<Rightarrow> string list" where
  "validate_data_query_plan query p =
     (if is_chinese query
        \<and> \<not> list_all is_chinese ([dp_intent p, dp_reason p] @ (case dp_missing p of None \<Rightarrow> [] | Some m \<Rightarrow> [m]))
      then [''data_planner_language_mismatch''] else [])"

subsection \<open>The planner\<close>

text \<open>The metadata of a completion, or \<^verbatim>\<open>ValueError\<close>: finish reason, limit reached, empty.\<close>

definition safe_reason :: "pystr \<Rightarrow> pystr" where
  "safe_reason s = (if s \<in> lit ` {''stop'', ''length'', ''content_filter'', ''tool_calls'', ''function_call''} then s
     else lit ''unknown'')"

definition response_metadata :: "json \<Rightarrow> (pystr option \<times> bool \<times> bool) option" where
  "response_metadata payload = (case jfield payload ''choices'' of
       JList (JObj choice # _) \<Rightarrow>
         (case jget choice ''finish_reason'' of
            JNull \<Rightarrow> Some (None, False, False)
          | JStr raw \<Rightarrow>
              (let reason = safe_reason raw in
               if reason \<noteq> lit ''stop'' then Some (Some reason, reason = lit ''length'', False)
               else (case jget choice ''message'' of
                   JObj m \<Rightarrow> Some (Some reason, False, (case jget m ''content'' of JStr c \<Rightarrow> blank c | _ \<Rightarrow> True))
                 | _ \<Rightarrow> None))
          | _ \<Rightarrow> None)
     | _ \<Rightarrow> None)"

definition metadata_details :: "pystr option \<times> bool \<times> bool \<Rightarrow> (pystr \<times> json) list" where
  "metadata_details m = (case m of (reason, limited, nothing) \<Rightarrow>
     [(lit ''finish_reason'', (case reason of None \<Rightarrow> JNull | Some r \<Rightarrow> JStr r)),
      (lit ''token_limit_reached'', JBool limited), (lit ''response_empty'', JBool nothing)])"

definition planner_prompt ::
  "pystr \<Rightarrow> (json \<Rightarrow> pystr) \<Rightarrow> json \<Rightarrow> json \<Rightarrow> pystr" where
  "planner_prompt rules text_of schema definitions =
     rules @ [10, 10] @ lit ''Authorized schema from Enterprise Data MCP:'' @ [10] @ text_of schema @ [10, 10]
     @ lit ''Business definitions from Enterprise Data MCP:'' @ [10] @ text_of definitions"

definition planner_post ::
  "'w transport \<Rightarrow> (pystr \<Rightarrow> pystr option) \<Rightarrow> llm_config \<Rightarrow> pystr \<Rightarrow> (json \<Rightarrow> pystr) \<Rightarrow> json \<Rightarrow> json \<Rightarrow> pystr \<Rightarrow> 'w
     \<Rightarrow> post_outcome \<times> 'w" where
  "planner_post send hostname C rules text_of schema definitions query =
     post_chat send hostname C 1500 (planner_prompt rules text_of schema definitions)
       (lit ''User question:'' @ [10] @ query)"

definition parse_plan :: "(pystr \<Rightarrow> json option) \<Rightarrow> json \<Rightarrow> data_plan agent_reply" where
  "parse_plan parse payload =
     (let invalid = RaisedCode (lit ''data_query_provider_invalid_response'')
      in case response_metadata payload of
        None \<Rightarrow> invalid []
      | Some m \<Rightarrow> (case m of (reason, limited, nothing) \<Rightarrow>
          if nothing then RaisedCode (lit ''data_plan_response_empty'') (metadata_details m)
          else if limited then RaisedCode (lit ''data_plan_output_truncated'') (metadata_details m)
          else if reason \<noteq> Some (lit ''stop'') then invalid (metadata_details m)
          else (case extract_stopped_message_content payload of
              Inl _ \<Rightarrow> invalid []
            | Inr content \<Rightarrow> (case parse content of
                None \<Rightarrow> RaisedCode (lit ''data_plan_json_parse_failed'') (metadata_details m)
              | Some v \<Rightarrow> (case plan_of_json v of
                    None \<Rightarrow> RaisedCode (lit ''data_plan_schema_validation_failed'') (metadata_details m)
                  | Some p \<Rightarrow> Replied p)))))"

definition provider_plan ::
  "'w transport \<Rightarrow> (pystr \<Rightarrow> pystr option) \<Rightarrow> (pystr \<Rightarrow> json option) \<Rightarrow> llm_config \<Rightarrow> pystr \<Rightarrow> (json \<Rightarrow> pystr) \<Rightarrow> pystr
     \<Rightarrow> json \<Rightarrow> json \<Rightarrow> 'w \<Rightarrow> data_plan agent_reply \<times> 'w" where
  "provider_plan send hostname parse C rules text_of query schema definitions w =
     (let failed = (\<lambda>code. RaisedCode (lit code) [])
      in case planner_post send hostname C rules text_of schema definitions query w of
        (PostCancelled, w) \<Rightarrow> (AgentCancelled, w)
      | (PostHttp status, w) \<Rightarrow>
          (RaisedCode (lit ''data_query_provider_http_error'') [(lit ''http_status'', JInt status)], w)
      | (PostTimeout, w) \<Rightarrow> (failed ''data_query_provider_unavailable'', w)
      | (PostUnavailable, w) \<Rightarrow> (failed ''data_query_provider_unavailable'', w)
      | (PostUndecodable, w) \<Rightarrow> (failed ''data_query_provider_invalid_response'', w)
      | (PostOther, w) \<Rightarrow> (RaisedOther, w)
      | (PostValue payload, w) \<Rightarrow> (parse_plan parse payload, w))"

subsection \<open>Evidence and what a provider may see of it\<close>

record data_evidence =
  de_id :: pystr
  de_sql :: pystr
  de_columns :: "pystr list"
  de_rows :: "json list list"
  de_count :: int
  de_truncated :: bool
  de_tables :: "pystr list"
  de_elapsed :: rat

text \<open>\<^verbatim>\<open>^D[1-9][0-9]*$\<close>; the pattern search of pydantic does not allow a trailing newline.\<close>

definition data_id :: "pystr \<Rightarrow> bool" where
  "data_id i \<longleftrightarrow> citation_format 68 ([91] @ i @ [93])"

definition new_data_evidence :: "data_evidence \<Rightarrow> data_evidence option" where
  "new_data_evidence e = (if data_id (de_id e) \<and> de_sql e \<noteq> [] \<and> 0 \<le> de_count e \<and> 0 \<le> de_elapsed e then Some e else None)"

record data_projection =
  pj_id :: pystr
  pj_columns :: "pystr list"
  pj_records :: "(pystr \<times> json) list list"
  pj_count :: int
  pj_source_truncated :: bool
  pj_truncated :: bool

definition forbidden_markers :: "string list" where
  "forbidden_markers = [''authorization'', ''connection_string'', ''database_url'', ''email'', ''password'', ''phone'',
     ''raw_error'', ''roles'', ''secret'', ''sql'', ''tenant_id'', ''token'', ''user_id'']"

definition column_is_safe :: "(pystr \<Rightarrow> pystr) \<Rightarrow> pystr \<Rightarrow> bool" where
  "column_is_safe casefold c = (let n = casefold c in
     (case n of [] \<Rightarrow> False | x # rest \<Rightarrow> 97 \<le> x \<and> x \<le> 122 \<and> length rest \<le> 63
        \<and> list_all (\<lambda>y. 97 \<le> y \<and> y \<le> 122 \<or> 48 \<le> y \<and> y \<le> 57 \<or> y = 95) rest)
     \<and> \<not> list_ex (\<lambda>m. sublist (lit m) n) forbidden_markers)"

definition safe_scalar :: "json \<Rightarrow> string + json" where
  "safe_scalar v = (case v of
       JStr s \<Rightarrow> Inr (JStr (take 160 s))
     | JList _ \<Rightarrow> Inl ''data_projection_value_forbidden''
     | JObj _ \<Rightarrow> Inl ''data_projection_value_forbidden''
     | _ \<Rightarrow> Inr v)"

text \<open>A record is a dictionary: a repeated column keeps its place and takes the last value.\<close>

fun put_field :: "'k \<Rightarrow> 'v \<Rightarrow> ('k \<times> 'v) list \<Rightarrow> ('k \<times> 'v) list" where
  "put_field k v [] = [(k, v)]"
| "put_field k v ((k', v') # fs) = (if k = k' then (k, v) # fs else (k', v') # put_field k v fs)"

definition dict_of :: "('k \<times> 'v) list \<Rightarrow> ('k \<times> 'v) list" where
  "dict_of kvs = foldl (\<lambda>d (k, v). put_field k v d) [] kvs"

definition project_row :: "pystr list \<Rightarrow> json list \<Rightarrow> string + (pystr \<times> json) list" where
  "project_row columns row =
     (if length row \<noteq> length columns then Inl ''data_projection_shape_invalid''
      else res_bind (res_map safe_scalar row) (\<lambda>vs. Inr (dict_of (zip columns vs))))"

definition new_data_projection :: "(pystr \<Rightarrow> pystr) \<Rightarrow> data_projection \<Rightarrow> string + data_projection" where
  "new_data_projection casefold p =
     (if data_id (pj_id p) \<and> length (pj_columns p) \<le> 12 \<and> length (pj_records p) \<le> 8 \<and> 0 \<le> pj_count p
        \<and> distinct (pj_columns p) \<and> list_all (column_is_safe casefold) (pj_columns p)
        \<and> list_all (list_all (\<lambda>kv. column_is_safe casefold (fst kv))) (pj_records p)
      then Inr p else Inl ''data projection'')"

definition project_evidence :: "(pystr \<Rightarrow> pystr) \<Rightarrow> data_evidence \<Rightarrow> string + data_projection" where
  "project_evidence casefold e =
     (if 12 < length (de_columns e) \<or> \<not> list_all (column_is_safe casefold) (de_columns e)
      then Inl ''data_projection_column_forbidden''
      else res_bind (res_map (project_row (de_columns e)) (take 8 (de_rows e))) (\<lambda>records.
        new_data_projection casefold \<lparr>pj_id = de_id e, pj_columns = de_columns e, pj_records = records,
          pj_count = de_count e, pj_source_truncated = de_truncated e, pj_truncated = (8 < length (de_rows e))\<rparr>))"

definition project_data_evidence :: "(pystr \<Rightarrow> pystr) \<Rightarrow> data_evidence list \<Rightarrow> string + data_projection list" where
  "project_data_evidence casefold es = res_map (project_evidence casefold) es"

definition projection_json :: "data_projection \<Rightarrow> json" where
  "projection_json p = jobj [(''evidence_id'', JStr (pj_id p)), (''columns'', JList (map JStr (pj_columns p))),
     (''records'', JList (map JObj (pj_records p))), (''row_count'', JInt (pj_count p)),
     (''source_truncated'', JBool (pj_source_truncated p)), (''projection_truncated'', JBool (pj_truncated p))]"

definition render_data_evidence ::
  "(pystr \<Rightarrow> pystr) \<Rightarrow> (json \<Rightarrow> pystr) \<Rightarrow> data_evidence list \<Rightarrow> string + pystr" where
  "render_data_evidence casefold text_of es =
     res_bind (project_data_evidence casefold es) (\<lambda>ps. Inr (text_of (JList (map projection_json ps))))"

subsection \<open>Answers\<close>

text \<open>\<^verbatim>\<open>(?<!\[)\bD[1-9][0-9]*\b(?!\])\<close>, searched from the character after \<open>prev\<close>.\<close>

fun bare_data :: "(nat \<Rightarrow> bool) \<Rightarrow> nat option \<Rightarrow> pystr \<Rightarrow> bool" where
  "bare_data word prev [] \<longleftrightarrow> False"
| "bare_data word prev (c # s) \<longleftrightarrow>
     c = 68 \<and> (case prev of None \<Rightarrow> True | Some p \<Rightarrow> p \<noteq> 91 \<and> \<not> word p)
       \<and> (let digits = takeWhile (\<lambda>x. 48 \<le> x \<and> x \<le> 57) s; rest = dropWhile (\<lambda>x. 48 \<le> x \<and> x \<le> 57) s
          in digits \<noteq> [] \<and> hd digits \<noteq> 48 \<and> (case rest of [] \<Rightarrow> True | x # _ \<Rightarrow> \<not> word x \<and> x \<noteq> 93))
     \<or> bare_data word (Some c) s"

definition validate_data_citations :: "(nat \<Rightarrow> bool) \<Rightarrow> pystr list \<Rightarrow> answer_draft \<Rightarrow> pystr list \<times> string list" where
  "validate_data_citations word ids d =
     (let available = map bracketed ids;
          declared = first_seen (filter (citation_format 68) (dr_citations d));
          inline = inline_brackets (dr_answer d);
          errors = map (\<lambda>_. ''invalid_data_citation_format'') (filter (\<lambda>c. \<not> citation_format 68 c) (dr_citations d))
            @ (if inline = [] then [''data_answer_missing_inline_citation''] else [])
            @ (if bare_data word None (dr_answer d) then [''bare_data_citation_not_allowed''] else [])
            @ (if list_ex (\<lambda>c. \<not> citation_format 68 c) inline then [''invalid_data_citation_format''] else [])
            @ (if set inline \<noteq> set declared then [''data_citations_not_present_in_answer''] else [])
            @ (if list_ex (\<lambda>c. c \<notin> set available) (inline @ declared) then [''data_citation_not_in_evidence''] else [])
      in (filter (\<lambda>c. c \<in> set declared) available, first_seen errors))"

definition data_answer_post ::
  "'w transport \<Rightarrow> (pystr \<Rightarrow> pystr option) \<Rightarrow> llm_config \<Rightarrow> pystr \<Rightarrow> pystr \<Rightarrow> pystr \<Rightarrow> 'w \<Rightarrow> post_outcome \<times> 'w" where
  "data_answer_post send hostname C rules query evidence = post_chat send hostname C 700 rules
     (lit ''User question:'' @ [10] @ query @ [10, 10] @ lit ''Executed Data Evidence:'' @ [10] @ evidence)"

text \<open>A refused projection carries its subcode when it is the generator's own error.\<close>

definition projection_error :: "string \<Rightarrow> 'a agent_reply" where
  "projection_error e = (if e = ''data projection'' then RaisedValue else RaisedCode (lit e) [])"

definition provider_data_answer ::
  "'w transport \<Rightarrow> (pystr \<Rightarrow> pystr option) \<Rightarrow> (pystr \<Rightarrow> json option) \<Rightarrow> (pystr \<Rightarrow> pystr) \<Rightarrow> (json \<Rightarrow> pystr) \<Rightarrow> llm_config
     \<Rightarrow> pystr \<Rightarrow> pystr \<Rightarrow> data_evidence list \<Rightarrow> 'w \<Rightarrow> answer_draft agent_reply \<times> 'w" where
  "provider_data_answer send hostname parse casefold text_of C rules query evidence w =
     (let failed = (\<lambda>code. RaisedCode (lit code) [])
      in case render_data_evidence casefold text_of evidence of
        Inl e \<Rightarrow> (projection_error e, w)
      | Inr context \<Rightarrow>
          (case data_answer_post send hostname C rules query context w of
             (PostCancelled, w) \<Rightarrow> (AgentCancelled, w)
           | (PostHttp _, w) \<Rightarrow> (failed ''data_answer_generation_failed'', w)
           | (PostTimeout, w) \<Rightarrow> (failed ''data_answer_generation_failed'', w)
           | (PostUnavailable, w) \<Rightarrow> (failed ''data_answer_generation_failed'', w)
           | (PostUndecodable, w) \<Rightarrow> (RaisedValue, w)
           | (PostOther, w) \<Rightarrow> (RaisedOther, w)
           | (PostValue payload, w) \<Rightarrow>
               (case extract_stopped_message_content payload of
                  Inl code \<Rightarrow> failed (''data_answer_'' @ code)
                | Inr content \<Rightarrow> (case parse content of
                      None \<Rightarrow> failed ''data_answer_json_parse_failed''
                    | Some v \<Rightarrow> (case draft_of_json v of
                          None \<Rightarrow> failed ''data_answer_schema_validation_failed'' | Some d \<Rightarrow> Replied d)), w)))"

subsection \<open>What validation and projection give\<close>

lemma data_citations_validated:
  assumes "validate_data_citations word ids d = (out, [])"
  shows "out \<noteq> [] \<and> set out = set (dr_citations d) \<and> set out = set (inline_brackets (dr_answer d))
    \<and> set out \<subseteq> bracketed ` set ids \<and> list_all (citation_format 68) out \<and> \<not> bare_data word None (dr_answer d)"
proof -
  let ?good = "filter (citation_format 68) (dr_citations d)" and ?inline = "inline_brackets (dr_answer d)"
  have out: "out = filter (\<lambda>c. c \<in> set (first_seen ?good)) (map bracketed ids)"
    using assms(1) by (simp add: validate_data_citations_def Let_def)
  have "filter (\<lambda>c. \<not> citation_format 68 c) (dr_citations d) = []" "?inline \<noteq> []" "\<not> bare_data word None (dr_answer d)"
    and same: "set ?inline = set (first_seen ?good)"
    and sub: "\<not> list_ex (\<lambda>c. c \<notin> set (map bracketed ids)) (?inline @ first_seen ?good)"
    using assms(1)
    unfolding validate_data_citations_def Let_def prod.inject first_seen_Nil_iff append_is_Nil_conv map_is_Nil_conv flag_Nil not_not
    by blast+
  then have "?good = dr_citations d" by (auto simp: filter_empty_conv filter_id_conv)
  then have cited: "set (first_seen ?good) = set (dr_citations d)" "list_all (citation_format 68) (dr_citations d)"
    by (auto simp: list_all_iff filter_id_conv)
  have "set out = set (first_seen ?good)" using sub by (auto simp: out list_ex_iff)
  moreover from this have "out \<noteq> []" using same \<open>?inline \<noteq> []\<close> by (metis set_empty)
  moreover have "list_all (citation_format 68) out" using \<open>set out = _\<close> cited by (simp add: list_all_iff)
  moreover have "set out \<subseteq> bracketed ` set ids" by (auto simp: out)
  ultimately show ?thesis using cited(1) same \<open>\<not> bare_data word None (dr_answer d)\<close> by simp
qed

lemma put_field_keys: "fst ` set (put_field k v d) = insert k (fst ` set d)"
  by (induction k v d rule: put_field.induct) auto

lemma put_field_new: "k \<notin> fst ` set d \<Longrightarrow> put_field k v d = d @ [(k, v)]"
  by (induction k v d rule: put_field.induct) auto

lemma dict_of_distinct: "distinct (map fst kvs) \<Longrightarrow> dict_of kvs = kvs"
proof (induction kvs rule: rev_induct)
  case (snoc kv kvs)
  then have "dict_of kvs = kvs" "fst kv \<notin> fst ` set kvs" by auto
  then show ?case by (simp add: dict_of_def case_prod_beta put_field_new)
qed (simp add: dict_of_def)

definition scalar_within :: "json \<Rightarrow> bool" where
  "scalar_within v = (case v of JStr s \<Rightarrow> length s \<le> 160 | JList _ \<Rightarrow> False | JObj _ \<Rightarrow> False | _ \<Rightarrow> True)"

lemma safe_scalar_within: "safe_scalar v = Inr u \<Longrightarrow> scalar_within u"
  by (cases v) (auto simp: safe_scalar_def scalar_within_def)

lemma project_row_shape:
  assumes "project_row columns row = Inr r" and "distinct columns"
  shows "map fst r = columns \<and> list_all (\<lambda>kv. scalar_within (snd kv)) r"
proof -
  from assms(1) obtain vs where len: "length row = length columns" and vs: "res_map safe_scalar row = Inr vs"
    and r: "r = dict_of (zip columns vs)" by (auto simp: project_row_def res_simps split: if_splits)
  have all: "list_all2 (\<lambda>v u. safe_scalar v = Inr u) row vs" using vs by (simp add: res_map_Inr_iff)
  then have "length vs = length columns" using len by (simp add: list_all2_lengthD)
  moreover have "list_all scalar_within vs"
    using all by (induction rule: list_all2_induct) (auto intro: safe_scalar_within)
  ultimately show ?thesis using assms(2) unfolding r
    by (subst dict_of_distinct) (auto simp: list_all_iff dict_of_distinct dest: set_zip_rightD)
qed

definition projection_safe :: "(pystr \<Rightarrow> pystr) \<Rightarrow> data_evidence \<Rightarrow> data_projection \<Rightarrow> bool" where
  "projection_safe casefold e p \<longleftrightarrow> pj_id p = de_id e \<and> pj_columns p = de_columns e \<and> pj_count p = de_count e
     \<and> length (pj_columns p) \<le> 12 \<and> distinct (pj_columns p) \<and> list_all (column_is_safe casefold) (pj_columns p)
     \<and> length (pj_records p) = min 8 (length (de_rows e)) \<and> (pj_truncated p \<longleftrightarrow> 8 < length (de_rows e))
     \<and> list_all (\<lambda>r. map fst r = pj_columns p \<and> list_all (\<lambda>kv. scalar_within (snd kv)) r) (pj_records p)"

lemma project_evidence_safe:
  assumes "project_evidence casefold e = Inr p"
  shows "projection_safe casefold e p"
proof -
  from assms obtain records where rows: "res_map (project_row (de_columns e)) (take 8 (de_rows e)) = Inr records"
    and p: "new_data_projection casefold \<lparr>pj_id = de_id e, pj_columns = de_columns e, pj_records = records,
          pj_count = de_count e, pj_source_truncated = de_truncated e, pj_truncated = (8 < length (de_rows e))\<rparr> = Inr p"
    by (auto simp: project_evidence_def res_simps split: if_splits)
  have all: "list_all2 (\<lambda>row r. project_row (de_columns e) row = Inr r) (take 8 (de_rows e)) records"
    using rows by (simp add: res_map_Inr_iff)
  have d: "distinct (de_columns e)" using p by (simp add: new_data_projection_def split: if_splits)
  have "length records = min 8 (length (de_rows e))" using list_all2_lengthD [OF all] by (simp add: min.commute)
  moreover have "list_all (\<lambda>r. map fst r = de_columns e \<and> list_all (\<lambda>kv. scalar_within (snd kv)) r) records"
    using all by (induction rule: list_all2_induct) (auto dest: project_row_shape [OF _ d])
  ultimately show ?thesis using p by (auto simp: new_data_projection_def projection_safe_def split: if_splits)
qed

text \<open>
  What leaves for the data answer provider is a bounded projection. Each projected result belongs to
  its evidence and has at most twelve distinct columns with safe names, at most eight records, each with
  exactly these columns and with scalar values of at most 160 characters; it says when rows were left
  out, and it has no place for the SQL or the tables.
\<close>

theorem data_projection_bounded:
  assumes "project_data_evidence casefold es = Inr ps"
  shows "list_all2 (projection_safe casefold) es ps"
  using assms unfolding project_data_evidence_def res_map_Inr_iff
  by (rule list_all2_mono) (rule project_evidence_safe)

definition demo_evidence_rows :: data_evidence where
  "demo_evidence_rows = \<lparr>de_id = [68, 49], de_sql = [115], de_columns = [[113]],
     de_rows = replicate 9 [JStr (replicate 200 120)], de_count = 9, de_truncated = False, de_tables = [[116]], de_elapsed = 0\<rparr>"

lemma demo_projection: "\<exists>p. project_data_evidence id [demo_evidence_rows] = Inr [p]"
proof -
  have c: "column_is_safe id [113]"
    by (simp add: column_is_safe_def forbidden_markers_def lit_def Let_def sublist_Cons_right)
  have r: "project_row [[113]] [JStr (replicate 200 120)] = Inr [([113], JStr (replicate 160 120))]"
    by (simp add: project_row_def safe_scalar_def dict_of_def)
  have "res_map (project_row [[113]]) (replicate 8 [JStr (replicate 200 120)])
      = Inr (replicate 8 [([113], JStr (replicate 160 120))])"
    by (simp add: r res_map_Inr_iff list_all2_conv_all_nth)
  then show ?thesis
    by (simp add: project_data_evidence_def project_evidence_def demo_evidence_rows_def c new_data_projection_def
        data_id_def citation_format_def list_all_iff)
qed

theorem data_projection_bounded_witness:
  "\<exists>p. project_data_evidence id [demo_evidence_rows] = Inr [p] \<and> length (pj_records p) = 8 \<and> pj_truncated p"
proof -
  from demo_projection obtain p where p: "project_data_evidence id [demo_evidence_rows] = Inr [p]" by blast
  from data_projection_bounded [OF p] have "projection_safe id demo_evidence_rows p" by simp
  with p show ?thesis by (auto simp: projection_safe_def demo_evidence_rows_def)
qed

end
