(* ===== verification/KnowledgeQA.thy ===== *)
theory KnowledgeQA
  imports KnowledgeAgents
begin

section \<open>The knowledge agent\<close>

text \<open>
  \<^verbatim>\<open>workflows/knowledge_qa.py\<close>: retrieval, selection of evidence, review of answerability and
  generation of an answer, as four steps on one state. The four services are functions of what they are
  asked and of a world, and a ghost log records the questions. Every update is checked against the
  contract of the state, which is the strictest schedule the graph library can follow; the lemmas show
  that the check never fails. Trace spans are left out.
\<close>

subsection \<open>State\<close>

datatype qa_outcome = QaAnswerable | QaUnanswerable | QaFailed

record qa_state =
  qs_request :: pystr
  qs_query :: pystr
  qs_retrieved :: "evidence_item list"
  qs_context :: pystr
  qs_selected :: "evidence_item list"
  qs_selected_context :: pystr
  qs_selection :: "pystr option"
  qs_outcome :: "qa_outcome option"
  qs_answer :: "pystr option"
  qs_citations :: "pystr list"
  qs_missing :: "pystr option"
  qs_reason :: "pystr option"
  qs_errors :: "error_record list"

definition said :: "pystr option \<Rightarrow> bool" where
  "said s = (case s of None \<Rightarrow> False | Some t \<Rightarrow> \<not> blank t)"

definition qa_state_ok :: "qa_state \<Rightarrow> bool" where
  "qa_state_ok s \<longleftrightarrow> qs_query s \<noteq> [] \<and> (case qs_outcome s of
       None \<Rightarrow> qs_answer s = None \<and> qs_citations s = [] \<and> qs_missing s = None \<and> qs_reason s = None \<and> qs_errors s = []
     | Some QaFailed \<Rightarrow> qs_answer s = None \<and> qs_citations s = [] \<and> qs_missing s = None \<and> qs_reason s = None
         \<and> qs_errors s \<noteq> []
     | Some out \<Rightarrow> (if out = QaAnswerable then qs_missing s = None else said (qs_missing s))
         \<and> said (qs_reason s) \<and> qs_errors s = []
         \<and> (if qs_answer s = None then qs_citations s = []
            else said (qs_answer s) \<and> (qs_citations s \<noteq> [] \<longleftrightarrow> out = QaAnswerable)))"

definition initial_qa_state :: "pystr \<Rightarrow> pystr \<Rightarrow> qa_state" where
  "initial_qa_state rid query = \<lparr>qs_request = rid, qs_query = query, qs_retrieved = [], qs_context = [],
     qs_selected = [], qs_selected_context = [], qs_selection = None, qs_outcome = None, qs_answer = None,
     qs_citations = [], qs_missing = None, qs_reason = None, qs_errors = []\<rparr>"

subsection \<open>Citations\<close>

definition cited_form :: "pystr \<Rightarrow> pystr" where
  "cited_form i = (if citation_format 69 i then i else [91] @ i @ [93])"

text \<open>The normalized citations and the errors; the validation passes when there is no error.\<close>

definition validate_citations :: "pystr list \<Rightarrow> answer_draft \<Rightarrow> pystr list \<times> string list" where
  "validate_citations ids d =
     (let available = map cited_form ids;
          normalized = first_seen (filter (citation_format 69) (dr_citations d));
          inline = inline_brackets (dr_answer d);
          errors = map (\<lambda>_. ''invalid_citation_format'') (filter (\<lambda>c. \<not> citation_format 69 c) (dr_citations d))
            @ (if list_ex (\<lambda>c. c \<notin> set available) normalized then [''citation_not_in_evidence''] else [])
            @ (if list_ex (\<lambda>c. \<not> citation_format 69 c) inline then [''invalid_citation_format''] else [])
            @ (if \<not> set normalized \<subseteq> set inline then [''citations_not_present_in_answer''] else [])
            @ (if \<not> set inline \<subseteq> set normalized then [''answer_contains_undeclared_citation''] else [])
            @ (if normalized = [] then [''answer_missing_inline_citation''] else [])
      in (normalized, first_seen errors))"

subsection \<open>Updates\<close>

definition failed_update ::
  "pystr \<Rightarrow> string \<Rightarrow> (pystr \<times> json) list \<Rightarrow> bool \<Rightarrow> qa_state \<Rightarrow> qa_state" where
  "failed_update code msg details clear s =
     (let s = s\<lparr>qs_outcome := Some QaFailed, qs_answer := None, qs_citations := [], qs_missing := None,
            qs_reason := None, qs_errors := [\<lparr>qe_code = code, qe_message = lit msg, qe_details = details\<rparr>]\<rparr>
      in if clear then s\<lparr>qs_selected := [], qs_selected_context := [], qs_selection := None\<rparr> else s)"

definition empty_evidence_decision :: "pystr \<Rightarrow> pystr \<times> pystr" where
  "empty_evidence_decision query =
     (if is_chinese query
      then ([33021, 22815, 30452, 25509, 25903, 25345, 35813, 38382, 39064, 31572, 26696, 30340, 35777, 25454],
        [24403, 21069, 27809, 26377, 36873, 20013, 33021, 22815, 30452, 25509, 25903, 25345, 35813, 38382, 39064, 30340, 35777,
         25454, 12290])
      else (lit ''evidence that directly supports the requested information'',
        lit ''No selected Evidence directly supports the requested information.''))"

definition unanswerable_answer :: "pystr \<Rightarrow> pystr" where
  "unanswerable_answer query =
     (if is_chinese query
      then [29616, 26377, 35777, 25454, 19981, 36275, 20197, 30830, 23450, 35813, 38382, 39064, 30340, 31572, 26696, 12290]
      else lit ''The available Evidence is insufficient to determine the answer.'')"

subsection \<open>The four steps\<close>

record 'w qa_services =
  qv_retrieve :: "pystr \<Rightarrow> pystr list option \<Rightarrow> 'w \<Rightarrow> evidence_context call_reply \<times> 'w"
  qv_select :: "pystr \<Rightarrow> pystr \<Rightarrow> evidence_item list \<Rightarrow> 'w \<Rightarrow> evidence_selection agent_reply \<times> 'w"
  qv_review :: "pystr \<Rightarrow> pystr \<Rightarrow> evidence_item list \<Rightarrow> 'w \<Rightarrow> answerability_decision agent_reply \<times> 'w"
  qv_generate :: "pystr \<Rightarrow> pystr \<Rightarrow> evidence_item list \<Rightarrow> pystr \<Rightarrow> pystr option \<Rightarrow> pystr \<Rightarrow> 'w
    \<Rightarrow> answer_draft agent_reply \<times> 'w"

datatype qa_call = Retrieving pystr "pystr list option" | Selecting pystr "evidence_item list"
  | Reviewing pystr "evidence_item list" | Generating pystr "evidence_item list"

type_synonym 'w qa_step = "qa_state \<Rightarrow> 'w \<Rightarrow> qa_state flow_result \<times> qa_call list \<times> 'w"

definition halted :: "qa_state \<Rightarrow> bool" where
  "halted s \<longleftrightarrow> qs_outcome s = Some QaFailed \<or> qs_errors s \<noteq> []"

definition retrieve_evidence :: "'w qa_services \<Rightarrow> knowledge_scope option \<Rightarrow> 'w qa_step" where
  "retrieve_evidence V scope s w =
     (let allowed = map_option ks_documents scope; ev = [Retrieving (qs_query s) allowed];
          outside = (\<lambda>d. case allowed of None \<Rightarrow> False | Some ds \<Rightarrow> d \<notin> set ds)
      in case qv_retrieve V (qs_query s) allowed w of
        (CallCancelled, w) \<Rightarrow> (FlowCancelled, ev, w)
      | (CallRaised, w) \<Rightarrow>
          (Finished (failed_update (lit ''retrieval_failed'') ''Knowledge retrieval could not be completed.'' [] True s), ev, w)
      | (CallValue ctx, w) \<Rightarrow>
          (Finished
            (if list_ex (\<lambda>i. outside (ei_document i)) (ec_items ctx)
             then failed_update (lit ''evidence_scope_violation'') ''Knowledge Evidence exceeded the authorized scope.'' [] True s
             else if list_ex (\<lambda>r. outside (er_document r)) (ec_references ctx)
             then failed_update (lit ''citation_scope_violation'') ''Knowledge citations exceeded the authorized scope.'' [] True s
             else s\<lparr>qs_retrieved := ec_items ctx, qs_context := ec_text ctx\<rparr>), ev, w))"

definition selection_failed :: "pystr \<Rightarrow> qa_state \<Rightarrow> qa_state" where
  "selection_failed subcode = failed_update (lit ''evidence_selection_failed'')
     ''Evidence selection could not be completed.'' [(lit ''subcode'', JStr subcode)] True"

definition select_evidence :: "'w qa_services \<Rightarrow> 'w qa_step" where
  "select_evidence V s w =
     (if halted s then (Finished s, [], w)
      else (let ev = [Selecting (qs_context s) (qs_retrieved s)]
        in case qv_select V (qs_query s) (qs_context s) (qs_retrieved s) w of
          (AgentCancelled, w) \<Rightarrow> (FlowCancelled, ev, w)
        | (RaisedCode code _, w) \<Rightarrow> (Finished (selection_failed code s), ev, w)
        | (RaisedValue, w) \<Rightarrow> (Finished (selection_failed (lit ''selector_response_invalid'') s), ev, w)
        | (RaisedOther, w) \<Rightarrow> (Finished (selection_failed (lit ''selector_unexpected_failure'') s), ev, w)
        | (Replied raw, w) \<Rightarrow>
            (Finished (case new_evidence_selection raw of
               None \<Rightarrow> selection_failed (lit ''selector_response_invalid'') s
             | Some sel \<Rightarrow> (case validate_evidence_selection (map ei_id (qs_retrieved s)) sel of
                 (_, code # _) \<Rightarrow> failed_update (lit code) ''Evidence selection failed validation.'' [] True s
               | (ids, []) \<Rightarrow>
                   (let selected = filter (\<lambda>i. [91] @ ei_id i @ [93] \<in> set ids) (qs_retrieved s)
                    in s\<lparr>qs_selected := selected,
                         qs_selected_context := render_selected_evidence_context selected,
                         qs_selection := Some (es_reason sel)\<rparr>))), ev, w)))"

definition outcome_of :: "verdict \<Rightarrow> qa_outcome" where
  "outcome_of v = (case v of Answerable \<Rightarrow> QaAnswerable | Unanswerable \<Rightarrow> QaUnanswerable)"

definition review_failed :: "string \<Rightarrow> string \<Rightarrow> qa_state \<Rightarrow> qa_state" where
  "review_failed code msg = failed_update (lit code) msg [] False"

definition review_answerability :: "'w qa_services \<Rightarrow> 'w qa_step" where
  "review_answerability V s w =
     (if halted s then (Finished s, [], w)
      else if qs_selected s = []
      then (case empty_evidence_decision (qs_query s) of (missing, reason) \<Rightarrow>
        (Finished (s\<lparr>qs_outcome := Some QaUnanswerable, qs_missing := Some missing, qs_reason := Some reason\<rparr>), [], w))
      else (let ev = [Reviewing (qs_selected_context s) (qs_selected s)]
        in case qv_review V (qs_query s) (qs_selected_context s) (qs_selected s) w of
          (AgentCancelled, w) \<Rightarrow> (FlowCancelled, ev, w)
        | (RaisedValue, w) \<Rightarrow> (Finished (review_failed ''invalid_answerability_decision'' ''Answerability review failed validation.'' s), ev, w)
        | (Replied raw, w) \<Rightarrow>
            (Finished (case new_answerability_decision raw of
               None \<Rightarrow> review_failed ''invalid_answerability_decision'' ''Answerability review failed validation.'' s
             | Some d \<Rightarrow> (case validate_answerability_decision (qs_query s) d of
                 code # _ \<Rightarrow> failed_update (lit code) ''Answerability review failed language validation.'' [] False s
               | [] \<Rightarrow> s\<lparr>qs_outcome := Some (outcome_of (ad_verdict d)), qs_missing := ad_missing d,
                     qs_reason := Some (ad_reason d)\<rparr>)), ev, w)
        | (_, w) \<Rightarrow> (Finished (review_failed ''answerability_review_failed'' ''Answerability review could not be completed.'' s), ev, w)))"

definition answer_failed :: "qa_state \<Rightarrow> qa_state" where
  "answer_failed = failed_update (lit ''answer_generation_failed'')
     ''Grounded answer generation could not be completed.'' [] False"

definition generate_answer :: "'w qa_services \<Rightarrow> 'w qa_step" where
  "generate_answer V s w =
     (if halted s then (Finished s, [], w)
      else if qs_outcome s = Some QaUnanswerable
      then (Finished (s\<lparr>qs_answer := Some (unanswerable_answer (qs_query s)), qs_citations := []\<rparr>), [], w)
      else if qs_outcome s \<noteq> Some QaAnswerable
      then (Finished (failed_update (lit ''invalid_answerability_decision'')
        ''Answer generation requires a reviewed decision.'' [] True s), [], w)
      else (let ev = [Generating (qs_selected_context s) (qs_selected s)]
        in case qv_generate V (qs_query s) (qs_selected_context s) (qs_selected s) (lit ''answerable'') (qs_missing s)
             (or_empty (qs_reason s)) w of
          (AgentCancelled, w) \<Rightarrow> (FlowCancelled, ev, w)
        | (Replied raw, w) \<Rightarrow>
            (Finished (case new_answer_draft raw of
               None \<Rightarrow> answer_failed s
             | Some d \<Rightarrow> (case validate_citations (map ei_id (qs_selected s)) d of
                 (_, code # _) \<Rightarrow> failed_update (lit code) ''Generated answer failed validation.'' [] False s
               | (citations, []) \<Rightarrow> s\<lparr>qs_answer := Some (dr_answer d), qs_citations := citations\<rparr>)), ev, w)
        | (_, w) \<Rightarrow> (Finished (answer_failed s), ev, w)))"

subsection \<open>The graph\<close>

definition checked_step :: "'w qa_step \<Rightarrow> 'w qa_step" where
  "checked_step f s w = (case f s w of
       (Finished s', ev, w') \<Rightarrow> (if qa_state_ok s' then Finished s' else FlowThrew, ev, w')
     | out \<Rightarrow> out)"

definition then_step :: "qa_state flow_result \<times> qa_call list \<times> 'w \<Rightarrow> 'w qa_step \<Rightarrow> qa_state flow_result \<times> qa_call list \<times> 'w"
  where
  "then_step out f = (case out of
       (Finished s, ev, w) \<Rightarrow> (case checked_step f s w of (out, ev', w) \<Rightarrow> (out, ev @ ev', w))
     | _ \<Rightarrow> out)"

definition knowledge_qa_graph :: "'w qa_services \<Rightarrow> knowledge_scope option \<Rightarrow> 'w qa_step" where
  "knowledge_qa_graph V scope s w =
     then_step (then_step (then_step (checked_step (retrieve_evidence V scope) s w)
       (select_evidence V)) (review_answerability V)) (generate_answer V)"

definition run_knowledge_qa ::
  "'w qa_services \<Rightarrow> pystr \<Rightarrow> pystr \<Rightarrow> knowledge_scope option \<Rightarrow> 'w \<Rightarrow> qa_state flow_result \<times> qa_call list \<times> 'w" where
  "run_knowledge_qa V rid query scope w =
     (if query = [] then (FlowThrew, [], w) else knowledge_qa_graph V scope (initial_qa_state rid query) w)"

text \<open>The agent as the knowledge tool runs it.\<close>

definition qa_agent_state :: "qa_state \<Rightarrow> agent_state" where
  "qa_agent_state s = \<lparr>ag_failed = (qs_outcome s = Some QaFailed), ag_answer = qs_answer s,
     ag_citations = qs_citations s, ag_errors = map qe_code (qs_errors s)\<rparr>"

definition knowledge_agent ::
  "'w qa_services \<Rightarrow> pystr \<Rightarrow> pystr \<Rightarrow> knowledge_scope option \<Rightarrow> 'w \<Rightarrow> agent_state call_reply \<times> 'w" where
  "knowledge_agent V rid query scope w = (case run_knowledge_qa V rid query scope w of
       (Finished s, _, w) \<Rightarrow> (CallValue (qa_agent_state s), w)
     | (FlowCancelled, _, w) \<Rightarrow> (CallCancelled, w)
     | (FlowThrew, _, w) \<Rightarrow> (CallRaised, w))"

subsection \<open>What validation means\<close>

lemma selection_validated:
  assumes "validate_evidence_selection ids s = (out, [])"
  shows "set out = set (es_ids s) \<and> set out \<subseteq> bracketed ` set ids \<and> \<not> blank (es_reason s)"
proof -
  have "filter (\<lambda>i. \<not> citation_format 69 i) (es_ids s) = []" "\<not> blank (es_reason s)"
    and sub: "\<not> list_ex (\<lambda>i. i \<notin> set (map bracketed ids)) (first_seen (filter (citation_format 69) (es_ids s)))"
    and out: "out = filter (\<lambda>i. i \<in> set (first_seen (filter (citation_format 69) (es_ids s)))) (map bracketed ids)"
    using assms
    unfolding validate_evidence_selection_def Let_def prod.inject first_seen_Nil_iff append_is_Nil_conv map_is_Nil_conv flag_Nil
    by blast+
  then have "filter (citation_format 69) (es_ids s) = es_ids s" by (auto simp: filter_empty_conv filter_id_conv)
  with sub out \<open>\<not> blank (es_reason s)\<close> show ?thesis by (auto simp: list_ex_iff)
qed

lemma citations_validated:
  assumes "validate_citations ids d = (out, [])"
  shows "out \<noteq> [] \<and> distinct out \<and> set out = set (dr_citations d) \<and> set out = set (inline_brackets (dr_answer d))
    \<and> set out \<subseteq> cited_form ` set ids \<and> list_all (citation_format 69) out"
proof -
  let ?good = "filter (citation_format 69) (dr_citations d)"
  have out: "out = first_seen ?good" using assms by (simp add: validate_citations_def Let_def)
  have "out \<noteq> []"
    and "filter (\<lambda>c. \<not> citation_format 69 c) (dr_citations d) = []"
    and sub: "\<not> list_ex (\<lambda>c. c \<notin> set (map cited_form ids)) out"
    and inline: "set out \<subseteq> set (inline_brackets (dr_answer d))" "set (inline_brackets (dr_answer d)) \<subseteq> set out"
    using assms unfolding out
    unfolding validate_citations_def Let_def prod.inject first_seen_Nil_iff append_is_Nil_conv map_is_Nil_conv flag_Nil not_not
    by blast+
  then have "?good = dr_citations d" by (auto simp: filter_empty_conv filter_id_conv)
  then have "set out = set (dr_citations d)" "list_all (citation_format 69) out"
    by (auto simp: out list_all_iff filter_id_conv)
  with \<open>out \<noteq> []\<close> sub inline show ?thesis by (auto simp: list_ex_iff out)
qed

text \<open>A bracketed token occurs in the text, so a text with one is not blank.\<close>

lemma inline_brackets_part: "t \<in> set (inline_brackets s) \<Longrightarrow> 91 \<in> set s"
proof (induction s rule: inline_brackets.induct)
  case (2 c s)
  let ?rest = "dropWhile (\<lambda>x. \<not> bracket x) s"
  have "set (tl xs) \<subseteq> set xs" for xs :: pystr by (cases xs) auto
  then have "set (tl ?rest) \<subseteq> set s" using set_dropWhileD by fast
  then show ?case using 2 by (auto simp: Let_def split: if_splits)
qed simp

lemma cited_not_blank:
  assumes "inline_brackets s \<noteq> []"
  shows "\<not> blank s"
proof -
  have "91 \<in> set s" using inline_brackets_part [of "hd (inline_brackets s)" s] assms by simp
  moreover have "\<not> py_space 91" by (simp add: py_space_def)
  ultimately show ?thesis unfolding blank_iff_all_space by blast
qed

subsection \<open>The stages of a run\<close>

fun qa_stage :: "qa_call \<Rightarrow> nat" where
  "qa_stage (Retrieving _ _) = 0"
| "qa_stage (Selecting _ _) = 1"
| "qa_stage (Reviewing _ _) = 2"
| "qa_stage (Generating _ _) = 3"

definition qa_inv :: "pystr \<Rightarrow> knowledge_scope option \<Rightarrow> qa_state \<Rightarrow> bool" where
  "qa_inv query scope s \<longleftrightarrow> qa_state_ok s \<and> qs_query s = query
     \<and> subseq (qs_selected s) (qs_retrieved s)
     \<and> qs_selected_context s = render_selected_evidence_context (qs_selected s)
     \<and> (\<forall>sc. scope = Some sc \<longrightarrow> ei_document ` set (qs_retrieved s) \<subseteq> set (ks_documents sc))"

definition running :: "qa_state \<Rightarrow> bool" where
  "running s \<longleftrightarrow> qs_answer s = None \<and> qs_outcome s \<in> {None, Some QaFailed}"

definition in_order :: "nat \<Rightarrow> qa_call list \<Rightarrow> bool" where
  "in_order n ev \<longleftrightarrow> map qa_stage ev = [0..<length ev] \<and> length ev \<le> n"

definition stage :: "('s \<Rightarrow> 'e list \<Rightarrow> bool) \<Rightarrow> 's flow_result \<times> 'e list \<times> 'w \<Rightarrow> bool" where
  "stage Q out = (case out of (Finished s, ev, _) \<Rightarrow> Q s ev | (FlowCancelled, _) \<Rightarrow> True | (FlowThrew, _) \<Rightarrow> False)"

lemma checked_stage:
  "stage Q (f s w) \<Longrightarrow> (\<And>s ev. Q s ev \<Longrightarrow> qa_state_ok s) \<Longrightarrow> stage Q (checked_step f s w)"
  by (auto simp: stage_def checked_step_def split: flow_result.splits prod.splits)

lemma then_stage:
  assumes "stage Q out" and "\<And>s ev w. Q s ev \<Longrightarrow> stage (\<lambda>s' ev'. R s' (ev @ ev')) (f s w)"
    and "\<And>s ev. R s ev \<Longrightarrow> qa_state_ok s"
  shows "stage R (then_step out f)"
proof -
  have "stage (\<lambda>s' ev'. R s' (ev @ ev')) (checked_step f s w)" if "Q s ev" for s ev w
    using assms(2) [OF that] by (rule checked_stage) (rule assms(3))
  then show ?thesis using assms(1)
    by (fastforce simp: stage_def then_step_def split: flow_result.splits prod.splits)
qed

lemma in_order_snoc: "in_order n ev \<Longrightarrow> qa_stage c = length ev \<Longrightarrow> length ev < m \<Longrightarrow> in_order m (ev @ [c])"
  by (simp add: in_order_def)

lemma in_order_le: "in_order n ev \<Longrightarrow> n \<le> m \<Longrightarrow> in_order m ev"
  by (simp add: in_order_def)

lemma retrieve_stage:
  assumes "query \<noteq> []"
  shows "stage (\<lambda>s ev. qa_inv query scope s \<and> running s \<and> qs_selected s = [] \<and> in_order 1 ev \<and> length ev = 1)
    (retrieve_evidence V scope (initial_qa_state rid query) w)"
  using assms
  by (auto simp: stage_def retrieve_evidence_def Let_def initial_qa_state_def qa_inv_def qa_state_ok_def running_def
      in_order_def failed_update_def render_selected_evidence_context_def list_ex_iff
      split: call_reply.splits prod.splits option.splits)

lemma failed_running:
  assumes "qa_inv query scope s"
  shows "qa_inv query scope (failed_update code msg details clear s)" "running (failed_update code msg details clear s)"
    "qs_outcome (failed_update code msg details clear s) = Some QaFailed" "qs_answer (failed_update code msg details clear s) = None"
  using assms
  by (auto simp: qa_inv_def qa_state_ok_def running_def failed_update_def Let_def render_selected_evidence_context_def)

lemma running_halted: "qa_inv query scope s \<Longrightarrow> running s \<Longrightarrow> halted s \<longleftrightarrow> qs_outcome s = Some QaFailed"
  by (auto simp: halted_def running_def qa_inv_def qa_state_ok_def)

lemma select_stage:
  assumes "qa_inv query scope s" "running s" "in_order 1 ev" "length ev = 1"
  shows "stage (\<lambda>s ev'. qa_inv query scope s \<and> running s \<and> in_order 2 (ev @ ev')
      \<and> (qs_outcome s = None \<longrightarrow> length (ev @ ev') = 2)) (select_evidence V s w)"
proof (cases "halted s")
  case True
  then show ?thesis using assms running_halted [OF assms(1,2)]
    by (auto simp: select_evidence_def stage_def in_order_def)
next
  case False
  have order: "in_order 2 (ev @ [Selecting c es])" for c es using in_order_snoc [OF assms(3)] assms(4) by simp
  have none: "qs_outcome s = None" using False assms(1,2) running_halted [OF assms(1,2)] by (auto simp: running_def)
  have sel: "qa_inv query scope (s\<lparr>qs_selected := filter P (qs_retrieved s),
      qs_selected_context := render_selected_evidence_context (filter P (qs_retrieved s)), qs_selection := r\<rparr>)" for P r
    using assms(1) none by (auto simp: qa_inv_def qa_state_ok_def)
  show ?thesis using False none sel order assms(1,2,4) failed_running [OF assms(1)]
    by (auto simp: select_evidence_def stage_def selection_failed_def Let_def running_def
        split: agent_reply.splits prod.splits option.splits list.splits)
qed

definition qa_reviewed :: "qa_state \<Rightarrow> qa_call list \<Rightarrow> bool" where
  "qa_reviewed s ev \<longleftrightarrow> qs_outcome s \<noteq> None \<and> qs_answer s = None \<and> (qs_outcome s = Some QaAnswerable \<longrightarrow> qs_selected s \<noteq> []
     \<and> length ev = 3 \<and> Reviewing (qs_selected_context s) (qs_selected s) \<in> set ev)"

lemma review_stage:
  assumes "qa_inv query scope s" "running s" "in_order 2 ev" "qs_outcome s = None \<longrightarrow> length ev = 2"
  shows "stage (\<lambda>s ev'. qa_inv query scope s \<and> in_order 3 (ev @ ev') \<and> qa_reviewed s (ev @ ev'))
    (review_answerability V s w)"
proof (cases "halted s")
  case True
  then show ?thesis using assms running_halted [OF assms(1,2)]
    by (auto simp: review_answerability_def stage_def in_order_def qa_reviewed_def running_def)
next
  case False
  have none: "qs_outcome s = None" using False assms(1,2) running_halted [OF assms(1,2)] by (auto simp: running_def)
  then have order: "length ev = 2" "in_order 3 (ev @ [Reviewing c es])" "in_order 3 ev" for c es
    using assms(4) in_order_snoc [OF assms(3), of _ 3] in_order_le [OF assms(3), of 3] by simp_all
  have said: "said (Some (fst (empty_evidence_decision q)))" "said (Some (snd (empty_evidence_decision q)))" for q
    by (simp_all add: said_def empty_evidence_decision_def py_space_def lit_def)
  have empty: "qa_inv query scope (s\<lparr>qs_outcome := Some QaUnanswerable, qs_missing := Some m, qs_reason := Some r\<rparr>)"
    if "empty_evidence_decision q = (m, r)" for q m r
    using assms(1) none said [of q] that by (auto simp: qa_inv_def qa_state_ok_def)
  have decided: "qa_inv query scope (s\<lparr>qs_outcome := Some (outcome_of (ad_verdict d)), qs_missing := ad_missing d,
      qs_reason := Some (ad_reason d)\<rparr>)" if "new_answerability_decision raw = Some d" for raw d
    using assms(1) none that
    by (auto simp: qa_inv_def qa_state_ok_def new_answerability_decision_def outcome_of_def said_def
        split: verdict.splits if_splits option.splits)
  have answer: "qs_answer s = None" using assms(2) by (simp add: running_def)
  show ?thesis using False none empty decided order answer failed_running [OF assms(1)]
    by (auto simp: review_answerability_def stage_def review_failed_def qa_reviewed_def Let_def
        split: agent_reply.splits prod.splits option.splits list.splits)
qed

text \<open>What a run ends in: every outcome but a failure has an answer.\<close>

definition qa_grounded :: "qa_state \<Rightarrow> bool" where
  "qa_grounded s \<longleftrightarrow> (\<exists>a. qs_answer s = Some a \<and> \<not> blank a \<and> qs_citations s \<noteq> [] \<and> distinct (qs_citations s)
     \<and> set (qs_citations s) = set (inline_brackets a)
     \<and> set (qs_citations s) \<subseteq> cited_form ` ei_id ` set (qs_selected s)
     \<and> list_all (citation_format 69) (qs_citations s))"

definition qa_final :: "pystr \<Rightarrow> qa_state \<Rightarrow> qa_call list \<Rightarrow> bool" where
  "qa_final query s ev \<longleftrightarrow> (case qs_outcome s of
       Some QaAnswerable \<Rightarrow> qa_grounded s \<and> length ev = 4
         \<and> Reviewing (qs_selected_context s) (qs_selected s) \<in> set ev \<and> Generating (qs_selected_context s) (qs_selected s) \<in> set ev
     | Some QaUnanswerable \<Rightarrow> qs_answer s = Some (unanswerable_answer query) \<and> qs_citations s = [] \<and> length ev \<le> 3
     | Some QaFailed \<Rightarrow> qs_answer s = None
     | None \<Rightarrow> False)"

lemma generate_stage:
  assumes "qa_inv query scope s" "in_order 3 ev" "qa_reviewed s ev"
  shows "stage (\<lambda>s ev'. qa_inv query scope s \<and> in_order 4 (ev @ ev') \<and> qa_final query s (ev @ ev'))
    (generate_answer V s w)"
proof (cases "halted s")
  case True
  then have "qs_outcome s = Some QaFailed"
    using assms(1,3) by (auto simp: halted_def qa_inv_def qa_state_ok_def qa_reviewed_def split: option.splits qa_outcome.splits)
  then show ?thesis using True assms in_order_le [OF assms(2)]
    by (simp add: generate_answer_def stage_def qa_final_def qa_reviewed_def)
next
  case False
  then have out: "qs_outcome s = Some QaAnswerable \<or> qs_outcome s = Some QaUnanswerable" "qs_answer s = None"
    using assms(3) by (auto simp: halted_def qa_reviewed_def) (metis qa_outcome.exhaust)+
  have query: "qs_query s = query" using assms(1) by (simp add: qa_inv_def)
  note failed = failed_running [OF assms(1)]
  show ?thesis
  proof (cases "qs_outcome s = Some QaUnanswerable")
    case True
    have "said (Some (unanswerable_answer query))" by (simp add: said_def unanswerable_answer_def py_space_def lit_def)
    then have "qa_inv query scope (s\<lparr>qs_answer := Some (unanswerable_answer query), qs_citations := []\<rparr>)"
      using assms(1) True by (auto simp: qa_inv_def qa_state_ok_def)
    then show ?thesis using True False query assms(2) in_order_le [OF assms(2), of 4]
      by (auto simp: generate_answer_def stage_def qa_final_def in_order_def)
  next
    case False
    with out have a: "qs_outcome s = Some QaAnswerable" by simp
    have ev: "length ev = 3" "Reviewing (qs_selected_context s) (qs_selected s) \<in> set ev"
      using assms(3) a by (auto simp: qa_reviewed_def)
    have order: "in_order 4 (ev @ [Generating c es])" for c es using in_order_snoc [OF assms(2), of _ 4] ev(1) by simp
    have good: "qa_inv query scope (s\<lparr>qs_answer := Some (dr_answer d), qs_citations := cs\<rparr>)
        \<and> qa_grounded (s\<lparr>qs_answer := Some (dr_answer d), qs_citations := cs\<rparr>)"
      if "validate_citations (map ei_id (qs_selected s)) d = (cs, [])" for d cs
    proof -
      note v = citations_validated [OF that]
      then have "set (inline_brackets (dr_answer d)) \<noteq> {}" by (metis set_empty)
      then have "\<not> blank (dr_answer d)" using cited_not_blank [of "dr_answer d"] by simp
      then show ?thesis using v assms(1) a out(2)
        by (auto simp: qa_inv_def qa_state_ok_def qa_grounded_def said_def)
    qed
    show ?thesis using a False \<open>\<not> halted s\<close> ev order good failed
      by (auto simp: generate_answer_def stage_def qa_final_def answer_failed_def Let_def
          split: agent_reply.splits prod.splits option.splits list.splits)
  qed
qed

lemma run_stages:
  assumes "query \<noteq> []"
  shows "stage (\<lambda>s ev. qa_inv query scope s \<and> in_order 4 ev \<and> qa_final query s ev) (run_knowledge_qa V rid query scope w)"
proof -
  have "stage (\<lambda>s ev. qa_inv query scope s \<and> running s \<and> qs_selected s = [] \<and> in_order 1 ev \<and> length ev = 1)
      (checked_step (retrieve_evidence V scope) (initial_qa_state rid query) w)"
    by (rule checked_stage, rule retrieve_stage [OF assms]) (simp add: qa_inv_def)
  then have "stage (\<lambda>s ev. qa_inv query scope s \<and> running s \<and> in_order 2 ev \<and> (qs_outcome s = None \<longrightarrow> length ev = 2))
      (then_step (checked_step (retrieve_evidence V scope) (initial_qa_state rid query) w) (select_evidence V))"
    by (rule then_stage) (elim conjE, rule select_stage, assumption+, simp add: qa_inv_def)
  then have "stage (\<lambda>s ev. qa_inv query scope s \<and> in_order 3 ev \<and> qa_reviewed s ev)
      (then_step (then_step (checked_step (retrieve_evidence V scope) (initial_qa_state rid query) w)
        (select_evidence V)) (review_answerability V))"
    by (rule then_stage) (elim conjE, rule review_stage, assumption+, simp add: qa_inv_def)
  then have "stage (\<lambda>s ev. qa_inv query scope s \<and> in_order 4 ev \<and> qa_final query s ev)
      (knowledge_qa_graph V scope (initial_qa_state rid query) w)"
    unfolding knowledge_qa_graph_def
    by (rule then_stage) (elim conjE, rule generate_stage, assumption+, simp add: qa_inv_def)
  then show ?thesis using assms by (simp add: run_knowledge_qa_def)
qed

text \<open>
  C36: A run of the knowledge agent ends well. Whatever the four services reply, for a nonempty query
  the run is cancelled or returns a state that satisfies its contract; no check of the contract ever
  fails. The services are asked in the order retrieval, selection, review, generation, each at most
  once. An answered state comes from a review and a generation over exactly the selected evidence, and
  its citations are distinct, are exactly the bracketed tokens of the answer, and name selected evidence;
  selected evidence is retrieved evidence, and under a scope only of allowed documents. A state that is
  not answerable holds the fixed answer without citations, a failed one no answer.
\<close>

theorem knowledge_qa_grounded:
  assumes "run_knowledge_qa V rid query scope w = (out, ev, w')" and "query \<noteq> []"
  shows "out \<noteq> FlowThrew
    \<and> (\<forall>s. out = Finished s \<longrightarrow> qa_inv query scope s \<and> in_order 4 ev \<and> qa_final query s ev)"
  using run_stages [OF assms(2), of scope V rid w] assms(1) by (auto simp: stage_def)

text \<open>As the agent behind the knowledge tool it never raises.\<close>

lemma knowledge_agent_returns:
  assumes "query \<noteq> []"
  shows "fst (knowledge_agent V rid query scope w) \<noteq> CallRaised"
proof -
  obtain out ev w' where r: "run_knowledge_qa V rid query scope w = (out, ev, w')" by (metis prod_cases3)
  have "out \<noteq> FlowThrew" using run_stages [OF assms, of scope V rid w] r by (auto simp: stage_def)
  then show ?thesis by (cases out) (simp_all add: knowledge_agent_def r)
qed

subsection \<open>A concrete run\<close>

definition demo_item :: evidence_item where
  "demo_item = \<lparr>ei_id = [69, 49], ei_rank = 1, ei_parent = [112], ei_document = [100], ei_content = [99],
     ei_original = 1, ei_included = 1, ei_truncated = False, ei_count = 1, ei_best = 1, ei_metadata = [],
     ei_provenance = [], ei_children = []\<rparr>"

definition demo_qa :: "unit qa_services" where
  "demo_qa = \<lparr>qv_retrieve = (\<lambda>query allowed w. (CallValue \<lparr>ec_text = [99], ec_items = [demo_item], ec_references = [],
       ec_included = 1, ec_omitted = 0, ec_original_chars = 1, ec_included_chars = 1, ec_truncated = False\<rparr>, w)),
     qv_select = (\<lambda>query context items w. (Replied \<lparr>es_ids = [[91, 69, 49, 93]], es_reason = [114]\<rparr>, w)),
     qv_review = (\<lambda>query context items w. (Replied \<lparr>ad_verdict = Answerable, ad_missing = None, ad_reason = [114]\<rparr>, w)),
     qv_generate = (\<lambda>query context items verdict missing reason w.
       (Replied \<lparr>dr_answer = [97, 91, 69, 49, 93], dr_citations = [[91, 69, 49, 93]]\<rparr>, w))\<rparr>"

definition demo_retrieved :: qa_state where
  "demo_retrieved = (initial_qa_state [] [113])\<lparr>qs_retrieved := [demo_item], qs_context := [99]\<rparr>"

definition demo_selected :: qa_state where
  "demo_selected = demo_retrieved\<lparr>qs_selected := [demo_item],
     qs_selected_context := render_selected_evidence_context [demo_item], qs_selection := Some [114]\<rparr>"

definition demo_reviewed :: qa_state where
  "demo_reviewed = demo_selected\<lparr>qs_outcome := Some QaAnswerable, qs_missing := None, qs_reason := Some [114]\<rparr>"

definition demo_answered :: qa_state where
  "demo_answered = demo_reviewed\<lparr>qs_answer := Some [97, 91, 69, 49, 93], qs_citations := [[91, 69, 49, 93]]\<rparr>"

lemmas demo_states = demo_retrieved_def demo_selected_def demo_reviewed_def demo_answered_def initial_qa_state_def

lemma demo_ok: "qa_state_ok demo_retrieved" "qa_state_ok demo_selected" "qa_state_ok demo_reviewed" "qa_state_ok demo_answered"
  by (simp_all add: qa_state_ok_def demo_states said_def py_space_def)

lemma demo_running: "\<not> halted demo_retrieved" "\<not> halted demo_selected" "\<not> halted demo_reviewed"
  by (simp_all add: halted_def demo_states)

lemma demo_selection_valid:
  "validate_evidence_selection [[69, 49]] \<lparr>es_ids = [[91, 69, 49, 93]], es_reason = [114]\<rparr> = ([[91, 69, 49, 93]], [])"
  by (simp add: validate_evidence_selection_def bracketed_def citation_format_def first_seen_def py_space_def)

lemma demo_citations_valid:
  "validate_citations [[69, 49]] \<lparr>dr_answer = [97, 91, 69, 49, 93], dr_citations = [[91, 69, 49, 93]]\<rparr>
     = ([[91, 69, 49, 93]], [])"
  by (simp add: validate_citations_def cited_form_def citation_format_def first_seen_def bracket_def Let_def)

lemma demo_retrieve: "\<exists>ev. retrieve_evidence demo_qa None (initial_qa_state [] [113]) () = (Finished demo_retrieved, ev, ())"
  by (simp add: retrieve_evidence_def demo_qa_def demo_retrieved_def list_ex_iff)

lemma demo_selected_run: "\<exists>ev. select_evidence demo_qa demo_retrieved () = (Finished demo_selected, ev, ())"
proof -
  have q: "qv_select demo_qa q c es () = (Replied \<lparr>es_ids = [[91, 69, 49, 93]], es_reason = [114]\<rparr>, ())" for q c es
    by (simp add: demo_qa_def)
  have r: "qs_retrieved demo_retrieved = [demo_item]" "ei_id demo_item = [69, 49]"
    by (simp_all add: demo_states demo_item_def)
  show ?thesis using demo_running
    by (simp add: select_evidence_def q r new_evidence_selection_def demo_selection_valid Let_def demo_selected_def)
qed

lemma demo_review: "\<exists>ev. review_answerability demo_qa demo_selected () = (Finished demo_reviewed, ev, ())"
proof -
  have q: "qv_review demo_qa q c es () = (Replied \<lparr>ad_verdict = Answerable, ad_missing = None, ad_reason = [114]\<rparr>, ())" for q c es
    by (simp add: demo_qa_def)
  have r: "qs_selected demo_selected = [demo_item]" "\<not> is_chinese (qs_query demo_selected)"
    by (simp_all add: demo_states is_chinese_def)
  show ?thesis using demo_running
    by (simp add: review_answerability_def q r new_answerability_decision_def validate_answerability_decision_def
        first_seen_def Let_def demo_reviewed_def outcome_of_def py_space_def)
qed

lemma demo_generate: "\<exists>ev. generate_answer demo_qa demo_reviewed () = (Finished demo_answered, ev, ())"
proof -
  have q: "qv_generate demo_qa q c es v m r () =
      (Replied \<lparr>dr_answer = [97, 91, 69, 49, 93], dr_citations = [[91, 69, 49, 93]]\<rparr>, ())" for q c es v m r
    by (simp add: demo_qa_def)
  have r: "qs_selected demo_reviewed = [demo_item]" "qs_outcome demo_reviewed = Some QaAnswerable" "ei_id demo_item = [69, 49]"
    by (simp_all add: demo_states demo_item_def)
  show ?thesis using demo_running
    by (simp add: generate_answer_def q r new_answer_draft_def demo_citations_valid Let_def demo_answered_def)
qed

lemma demo_qa_run: "\<exists>ev. run_knowledge_qa demo_qa [] [113] None () = (Finished demo_answered, ev, ())"
proof -
  obtain ev1 ev2 ev3 ev4 where "retrieve_evidence demo_qa None (initial_qa_state [] [113]) () = (Finished demo_retrieved, ev1, ())"
    "select_evidence demo_qa demo_retrieved () = (Finished demo_selected, ev2, ())"
    "review_answerability demo_qa demo_selected () = (Finished demo_reviewed, ev3, ())"
    "generate_answer demo_qa demo_reviewed () = (Finished demo_answered, ev4, ())"
    using demo_retrieve demo_selected_run demo_review demo_generate by blast
  then show ?thesis by (simp add: run_knowledge_qa_def knowledge_qa_graph_def then_step_def checked_step_def demo_ok)
qed

theorem knowledge_qa_grounded_witness:
  "\<exists>ev. run_knowledge_qa demo_qa [] [113] None () = (Finished demo_answered, ev, ()) \<and> qa_grounded demo_answered
     \<and> in_order 4 ev"
proof -
  from demo_qa_run obtain ev where s: "run_knowledge_qa demo_qa [] [113] None () = (Finished demo_answered, ev, ())" by blast
  from knowledge_qa_grounded [OF s] have "in_order 4 ev" "qa_final [113] demo_answered ev" by simp_all
  then show ?thesis using s by (auto simp: qa_final_def demo_states)
qed

end
