(* ===== verification/DataAgent.thy ===== *)
theory DataAgent
  imports DataAgents KnowledgeQA
begin

section \<open>The data agent\<close>

text \<open>
  \<^verbatim>\<open>workflows/data_agent.py\<close>: plan one query, execute it through the MCP client, answer from its
  result. The client, the planner and the generator are functions of what they are asked and of a world;
  a ghost log records what was asked. The client of a scoped request is a wrapper that keeps the schema's
  tables next to the world. Case folding and the regular expression that reads table names out of SQL
  text are arguments. Every update is checked against the contract of the state, which is the strictest
  schedule the graph library can follow; the lemmas show that the check never fails.
\<close>

subsection \<open>State\<close>

datatype data_status = DataRunning | DataPlanned | DataClarify | DataUnsupported | DataQueried | DataAnswered
  | DataEmpty | DataFailed

record data_state =
  dt_request :: pystr
  dt_query :: pystr
  dt_status :: data_status
  dt_plan :: "plan_status option"
  dt_intent :: "pystr option"
  dt_sql :: "pystr option"
  dt_reason :: "pystr option"
  dt_missing :: "pystr option"
  dt_evidence :: "data_evidence list"
  dt_answer :: "pystr option"
  dt_citations :: "pystr list"
  dt_errors :: "error_record list"

text \<open>\<^verbatim>\<open>not value\<close> for an optional string\<close>

definition given :: "pystr option \<Rightarrow> bool" where
  "given s \<longleftrightarrow> s \<noteq> None \<and> s \<noteq> Some []"

definition data_state_ok :: "data_state \<Rightarrow> bool" where
  "data_state_ok s \<longleftrightarrow> dt_query s \<noteq> [] \<and> (case dt_status s of
       DataRunning \<Rightarrow> dt_plan s = None \<and> dt_intent s = None \<and> dt_sql s = None \<and> dt_reason s = None \<and> dt_missing s = None
         \<and> dt_answer s = None \<and> dt_citations s = [] \<and> dt_errors s = [] \<and> dt_evidence s = []
     | DataPlanned \<Rightarrow> dt_plan s = Some PlanReady \<and> given (dt_intent s) \<and> given (dt_sql s) \<and> given (dt_reason s)
         \<and> dt_missing s = None \<and> dt_answer s = None \<and> dt_citations s = [] \<and> dt_errors s = [] \<and> dt_evidence s = []
     | DataClarify \<Rightarrow> dt_plan s = Some PlanClarify \<and> given (dt_intent s) \<and> given (dt_reason s) \<and> given (dt_missing s)
         \<and> given (dt_answer s) \<and> dt_sql s = None \<and> dt_citations s = [] \<and> dt_errors s = [] \<and> dt_evidence s = []
     | DataUnsupported \<Rightarrow> dt_plan s = Some PlanUnsupported \<and> given (dt_intent s) \<and> given (dt_reason s) \<and> dt_missing s = None
         \<and> given (dt_answer s) \<and> dt_sql s = None \<and> dt_citations s = [] \<and> dt_errors s = [] \<and> dt_evidence s = []
     | DataQueried \<Rightarrow> dt_plan s = Some PlanReady \<and> given (dt_intent s) \<and> given (dt_sql s) \<and> given (dt_reason s)
         \<and> dt_evidence s \<noteq> [] \<and> dt_answer s = None \<and> dt_citations s = [] \<and> dt_errors s = []
     | DataAnswered \<Rightarrow> dt_plan s = Some PlanReady \<and> given (dt_intent s) \<and> given (dt_sql s) \<and> given (dt_reason s)
         \<and> given (dt_answer s) \<and> dt_citations s \<noteq> [] \<and> dt_evidence s \<noteq> [] \<and> dt_errors s = []
     | DataEmpty \<Rightarrow> dt_plan s = Some PlanReady \<and> given (dt_intent s) \<and> given (dt_sql s) \<and> given (dt_reason s)
         \<and> given (dt_answer s) \<and> dt_citations s = [[91, 68, 49, 93]] \<and> dt_evidence s \<noteq> [] \<and> dt_errors s = []
     | DataFailed \<Rightarrow> dt_plan s = None \<and> dt_intent s = None \<and> dt_sql s = None \<and> dt_reason s = None \<and> dt_missing s = None
         \<and> dt_answer s = None \<and> dt_citations s = [] \<and> dt_errors s \<noteq> [])"

definition initial_data_state :: "pystr \<Rightarrow> pystr \<Rightarrow> data_state" where
  "initial_data_state rid query = \<lparr>dt_request = rid, dt_query = query, dt_status = DataRunning, dt_plan = None,
     dt_intent = None, dt_sql = None, dt_reason = None, dt_missing = None, dt_evidence = [], dt_answer = None,
     dt_citations = [], dt_errors = []\<rparr>"

definition data_agent_failed ::
  "pystr \<Rightarrow> string \<Rightarrow> data_evidence list \<Rightarrow> (pystr \<times> json) list \<Rightarrow> data_state \<Rightarrow> data_state" where
  "data_agent_failed code msg evidence details s = s\<lparr>dt_status := DataFailed, dt_plan := None, dt_intent := None,
     dt_sql := None, dt_reason := None, dt_missing := None, dt_evidence := evidence, dt_answer := None, dt_citations := [],
     dt_errors := [\<lparr>qe_code = code, qe_message = lit msg, qe_details = details\<rparr>]\<rparr>"

subsection \<open>The client\<close>

datatype 'a client_reply = Got 'a | McpError pystr | ClientRaised | ClientCancelled

record mcp_result =
  mq_columns :: "pystr list"
  mq_rows :: "json list list"
  mq_count :: int
  mq_truncated :: bool
  mq_sql :: "pystr option"
  mq_tables :: "pystr list"
  mq_elapsed :: rat
  mq_error :: "pystr option"

type_synonym schema_tables = "(pystr \<times> pystr list) list"

record 'w data_client =
  dc_open :: "'w \<Rightarrow> unit client_reply \<times> 'w"
  dc_close :: "'w \<Rightarrow> unit client_reply \<times> 'w"
  dc_schema :: "'w \<Rightarrow> schema_tables client_reply \<times> 'w"
  dc_definitions :: "'w \<Rightarrow> (pystr \<times> pystr) list client_reply \<times> 'w"
  dc_query :: "pystr \<Rightarrow> 'w \<Rightarrow> mcp_result client_reply \<times> 'w"

text \<open>The world of a request: that of the services and the tables a scoped client has seen.\<close>

definition lift_world :: "('w \<Rightarrow> 'a \<times> 'w) \<Rightarrow> 'w \<times> 'x \<Rightarrow> 'a \<times> 'w \<times> 'x" where
  "lift_world f wx = (case wx of (w, x) \<Rightarrow> (case f w of (r, w) \<Rightarrow> (r, w, x)))"

definition plain_client :: "'w data_client \<Rightarrow> ('w \<times> pystr list) data_client" where
  "plain_client c = \<lparr>dc_open = lift_world (dc_open c), dc_close = lift_world (dc_close c),
     dc_schema = lift_world (dc_schema c), dc_definitions = lift_world (dc_definitions c),
     dc_query = (\<lambda>sql. lift_world (dc_query c sql))\<rparr>"

definition operations_domain :: pystr where
  "operations_domain = lit ''enterprise_operations''"

definition permits_table :: "(pystr \<Rightarrow> pystr) \<Rightarrow> data_scope \<Rightarrow> pystr \<Rightarrow> bool" where
  "permits_table casefold scope t \<longleftrightarrow> data_permits scope operations_domain None
     \<and> list_ex (\<lambda>r. casefold r = casefold t) (ds_resources scope)"

definition scoped_schema ::
  "(pystr \<Rightarrow> pystr) \<Rightarrow> data_scope \<Rightarrow> 'w data_client \<Rightarrow> 'w \<times> pystr list \<Rightarrow> schema_tables client_reply \<times> 'w \<times> pystr list" where
  "scoped_schema casefold scope c wt = (case wt of (w, seen) \<Rightarrow> (case dc_schema c w of
       (Got tables, w) \<Rightarrow>
         (let allowed = filter (\<lambda>(t, _). permits_table casefold scope t) tables
          in (if allowed = [] then McpError (lit ''data_scope_violation'') else Got allowed, w, map (casefold \<circ> fst) tables))
     | (out, w) \<Rightarrow> (out, w, seen)))"

definition scope_violation :: "rat \<Rightarrow> mcp_result" where
  "scope_violation elapsed = \<lparr>mq_columns = [], mq_rows = [], mq_count = 0, mq_truncated = False, mq_sql = None,
     mq_tables = [], mq_elapsed = elapsed, mq_error = Some (lit ''data_scope_violation'')\<rparr>"

definition scoped_query ::
  "(pystr \<Rightarrow> pystr) \<Rightarrow> (pystr \<Rightarrow> pystr list) \<Rightarrow> data_scope \<Rightarrow> 'w data_client \<Rightarrow> pystr \<Rightarrow> 'w \<times> pystr list
     \<Rightarrow> mcp_result client_reply \<times> 'w \<times> pystr list" where
  "scoped_query casefold references scope c sql wt = (case wt of (w, seen) \<Rightarrow>
     if list_ex (\<lambda>t. t \<in> set seen \<and> \<not> permits_table casefold scope t) (map casefold (references sql))
     then (Got (scope_violation 0), w, seen)
     else (case dc_query c sql w of
       (Got r, w) \<Rightarrow>
         (Got (if list_ex (\<lambda>t. \<not> permits_table casefold scope t) (mq_tables r) then scope_violation (mq_elapsed r) else r),
          w, seen)
     | (out, w) \<Rightarrow> (out, w, seen)))"

definition scoped_client ::
  "(pystr \<Rightarrow> pystr) \<Rightarrow> (pystr \<Rightarrow> pystr list) \<Rightarrow> data_scope \<Rightarrow> 'w data_client \<Rightarrow> ('w \<times> pystr list) data_client" where
  "scoped_client casefold references scope c = \<lparr>dc_open = lift_world (dc_open c), dc_close = lift_world (dc_close c),
     dc_schema = scoped_schema casefold scope c, dc_definitions = lift_world (dc_definitions c),
     dc_query = scoped_query casefold references scope c\<rparr>"

subsection \<open>Answers the workflow writes itself\<close>

definition clarification_answer :: "pystr \<Rightarrow> pystr \<Rightarrow> pystr" where
  "clarification_answer query missing =
     (if is_chinese query then [35831, 34917, 20805] @ missing @ [12290] else lit ''Please provide '' @ missing @ lit ''.'')"

definition unsupported_data_answer :: "pystr \<Rightarrow> pystr" where
  "unsupported_data_answer query =
     (if is_chinese query
      then [24403, 21069, 32463, 33829, 25968, 25454, 24211, 19981, 21253, 21547, 22238, 31572, 35813, 38382, 39064, 25152, 38656,
        30340, 25968, 25454, 12290]
      else lit ''The current operations database does not contain the required data.'')"

definition empty_answer :: "pystr \<Rightarrow> pystr" where
  "empty_answer query =
     (if is_chinese query
      then [26410, 26597, 35810, 21040, 31526, 21512, 24403, 21069, 26465, 20214, 30340, 25968, 25454, 12290, 91, 68, 49, 93]
      else lit ''No data matched the current conditions.[D1]'')"

subsection \<open>The three steps\<close>

record 'w data_services =
  dv_plan :: "pystr \<Rightarrow> schema_tables \<Rightarrow> (pystr \<times> pystr) list \<Rightarrow> 'w \<Rightarrow> data_plan agent_reply \<times> 'w"
  dv_answer :: "pystr \<Rightarrow> data_evidence list \<Rightarrow> 'w \<Rightarrow> answer_draft agent_reply \<times> 'w"

datatype data_call = Planning schema_tables | Querying pystr | Answering "data_evidence list"

type_synonym 'w data_step = "data_state \<Rightarrow> 'w \<Rightarrow> data_state flow_result \<times> data_call list \<times> 'w"

definition planning_failed :: "data_state \<Rightarrow> data_state" where
  "planning_failed = data_agent_failed (lit ''data_query_planning_failed'') ''Data planning could not be completed.'' [] []"

definition mcp_failed :: "pystr \<Rightarrow> data_state \<Rightarrow> data_state" where
  "mcp_failed code = data_agent_failed code ''Enterprise Data MCP could not be completed.'' [] []"

definition planned_state :: "data_plan \<Rightarrow> data_state \<Rightarrow> data_state" where
  "planned_state p s = (case dp_status p of
       PlanClarify \<Rightarrow> s\<lparr>dt_status := DataClarify, dt_plan := Some PlanClarify, dt_intent := Some (dp_intent p),
         dt_reason := Some (dp_reason p), dt_missing := dp_missing p,
         dt_answer := Some (clarification_answer (dt_query s) (or_empty (dp_missing p)))\<rparr>
     | PlanUnsupported \<Rightarrow> s\<lparr>dt_status := DataUnsupported, dt_plan := Some PlanUnsupported, dt_intent := Some (dp_intent p),
         dt_reason := Some (dp_reason p), dt_answer := Some (unsupported_data_answer (dt_query s))\<rparr>
     | PlanReady \<Rightarrow> s\<lparr>dt_status := DataPlanned, dt_plan := Some PlanReady, dt_intent := Some (dp_intent p),
         dt_sql := dp_sql p, dt_reason := Some (dp_reason p)\<rparr>)"

definition plan_data_query :: "'w data_services \<Rightarrow> 'w data_client \<Rightarrow> 'w data_step" where
  "plan_data_query V c s w =
     (case dc_schema c w of
        (ClientCancelled, w) \<Rightarrow> (FlowCancelled, [], w)
      | (McpError code, w) \<Rightarrow> (Finished (mcp_failed code s), [], w)
      | (ClientRaised, w) \<Rightarrow> (Finished (planning_failed s), [], w)
      | (Got tables, w) \<Rightarrow>
          (case dc_definitions c w of
             (ClientCancelled, w) \<Rightarrow> (FlowCancelled, [], w)
           | (McpError code, w) \<Rightarrow> (Finished (mcp_failed code s), [], w)
           | (ClientRaised, w) \<Rightarrow> (Finished (planning_failed s), [], w)
           | (Got definitions, w) \<Rightarrow>
               (case dv_plan V (dt_query s) tables definitions w of
                  (AgentCancelled, w) \<Rightarrow> (FlowCancelled, [Planning tables], w)
                | (RaisedCode code details, w) \<Rightarrow>
                    (Finished (data_agent_failed code ''Data planning could not be completed.'' [] details s), [Planning tables], w)
                | (Replied raw, w) \<Rightarrow>
                    (Finished (case new_data_plan raw of
                       None \<Rightarrow> planning_failed s
                     | Some p \<Rightarrow> (case validate_data_query_plan (dt_query s) p of
                         code # _ \<Rightarrow> data_agent_failed (lit code) ''Data plan failed validation.'' [] [] s
                       | [] \<Rightarrow> planned_state p s)), [Planning tables], w)
                | (_, w) \<Rightarrow> (Finished (planning_failed s), [Planning tables], w))))"

text \<open>The result of a query: the failed state, or the evidence of it.\<close>

definition query_result :: "mcp_result \<Rightarrow> data_state \<Rightarrow> data_state" where
  "query_result r s = (case mq_error r of
       Some code \<Rightarrow> data_agent_failed code ''Data query could not be completed.'' [] [] s
     | None \<Rightarrow>
         if mq_tables r = []
         then data_agent_failed (lit ''data_query_without_business_table'')
           ''Data query did not access an authorized business table.'' [] [] s
         else (case new_data_evidence \<lparr>de_id = [68, 49], de_sql = or_empty (mq_sql r), de_columns = mq_columns r,
             de_rows = mq_rows r, de_count = mq_count r, de_truncated = mq_truncated r, de_tables = mq_tables r,
             de_elapsed = mq_elapsed r\<rparr> of
           None \<Rightarrow> data_agent_failed (lit ''safe_query_execution_failed'') ''Data query could not be completed.'' [] [] s
         | Some e \<Rightarrow>
             if de_count e = 0
             then s\<lparr>dt_status := DataEmpty, dt_evidence := [e], dt_answer := Some (empty_answer (dt_query s)),
               dt_citations := [[91, 68, 49, 93]]\<rparr>
             else s\<lparr>dt_status := DataQueried, dt_evidence := [e]\<rparr>))"

definition execute_safe_query :: "'w data_client \<Rightarrow> 'w data_step" where
  "execute_safe_query c s w =
     (case (dt_status s, dt_sql s) of
        (DataPlanned, Some sql) \<Rightarrow>
          if sql = []
          then (Finished (data_agent_failed (lit ''invalid_data_query_plan'') ''Data query execution requires a ready plan.'' [] [] s), [], w)
          else (case dc_query c sql w of
             (ClientCancelled, w) \<Rightarrow> (FlowCancelled, [Querying sql], w)
           | (McpError code, w) \<Rightarrow> (Finished (mcp_failed code s), [Querying sql], w)
           | (ClientRaised, w) \<Rightarrow>
               (Finished (data_agent_failed (lit ''mcp_tool_call_failed'') ''Data query could not be completed.'' [] [] s), [Querying sql], w)
           | (Got r, w) \<Rightarrow> (Finished (query_result r s), [Querying sql], w))
      | _ \<Rightarrow> (Finished (data_agent_failed (lit ''invalid_data_query_plan'') ''Data query execution requires a ready plan.'' [] [] s), [], w))"

definition data_answer_failed :: "pystr \<Rightarrow> data_state \<Rightarrow> data_state" where
  "data_answer_failed code s = data_agent_failed code ''Data answer could not be completed.'' (dt_evidence s) [] s"

definition generate_data_answer :: "(nat \<Rightarrow> bool) \<Rightarrow> 'w data_services \<Rightarrow> 'w data_step" where
  "generate_data_answer word V s w =
     (if dt_status s \<noteq> DataQueried \<or> dt_evidence s = []
      then (Finished (data_agent_failed (lit ''invalid_data_query_plan'') ''Data answer generation requires executed evidence.'' [] [] s), [], w)
      else (let ev = [Answering (dt_evidence s)]
        in case dv_answer V (dt_query s) (dt_evidence s) w of
          (AgentCancelled, w) \<Rightarrow> (FlowCancelled, ev, w)
        | (RaisedCode code _, w) \<Rightarrow> (Finished (data_answer_failed code s), ev, w)
        | (Replied raw, w) \<Rightarrow>
            (Finished (case new_answer_draft raw of
               None \<Rightarrow> data_answer_failed (lit ''data_answer_generation_failed'') s
             | Some d \<Rightarrow> (case validate_data_citations word (map de_id (dt_evidence s)) d of
                 (_, code # _) \<Rightarrow>
                   data_agent_failed (lit code) ''Data answer failed citation validation.'' (dt_evidence s) [] s
               | (citations, []) \<Rightarrow>
                   s\<lparr>dt_status := DataAnswered, dt_answer := Some (dr_answer d), dt_citations := citations\<rparr>)), ev, w)
        | (_, w) \<Rightarrow> (Finished (data_answer_failed (lit ''data_answer_generation_failed'') s), ev, w)))"

subsection \<open>The graph\<close>

definition data_checked :: "'w data_step \<Rightarrow> 'w data_step" where
  "data_checked f s w = (case f s w of
       (Finished s', ev, w') \<Rightarrow> (if data_state_ok s' then Finished s' else FlowThrew, ev, w')
     | out \<Rightarrow> out)"

text \<open>A conditional edge: the next step runs on the states of one status, the others end the run.\<close>

definition data_next ::
  "data_state flow_result \<times> data_call list \<times> 'w \<Rightarrow> data_status \<Rightarrow> 'w data_step
     \<Rightarrow> data_state flow_result \<times> data_call list \<times> 'w" where
  "data_next out status f = (case out of
       (Finished s, ev, w) \<Rightarrow> if dt_status s = status
         then (case data_checked f s w of (out, ev', w) \<Rightarrow> (out, ev @ ev', w)) else out
     | _ \<Rightarrow> out)"

definition data_agent_graph :: "(nat \<Rightarrow> bool) \<Rightarrow> 'w data_services \<Rightarrow> 'w data_client \<Rightarrow> 'w data_step" where
  "data_agent_graph word V c s w =
     data_next (data_next (data_checked (plan_data_query V c) s w) DataPlanned (execute_safe_query c))
       DataQueried (generate_data_answer word V)"

definition lift_services :: "'w data_services \<Rightarrow> ('w \<times> 'x) data_services" where
  "lift_services V = \<lparr>dv_plan = (\<lambda>q t d. lift_world (dv_plan V q t d)), dv_answer = (\<lambda>q e. lift_world (dv_answer V q e))\<rparr>"

text \<open>\<^verbatim>\<open>async with client\<close>: the client is closed on every way out; an error of closing replaces the result.\<close>

definition within_session ::
  "'w data_client \<Rightarrow> ('w \<Rightarrow> data_state flow_result \<times> data_call list \<times> 'w) \<Rightarrow> 'w
     \<Rightarrow> data_state flow_result \<times> data_call list \<times> 'w" where
  "within_session c body w = (case dc_open c w of
       (ClientCancelled, w) \<Rightarrow> (FlowCancelled, [], w)
     | (Got _, w) \<Rightarrow> (case body w of (out, ev, w) \<Rightarrow> (case dc_close c w of
           (Got _, w) \<Rightarrow> (out, ev, w)
         | (ClientCancelled, w) \<Rightarrow> (FlowCancelled, ev, w)
         | (_, w) \<Rightarrow> (FlowThrew, ev, w)))
     | (_, w) \<Rightarrow> (FlowThrew, [], w))"

definition run_data_agent ::
  "(pystr \<Rightarrow> pystr) \<Rightarrow> (pystr \<Rightarrow> pystr list) \<Rightarrow> (nat \<Rightarrow> bool) \<Rightarrow> 'w data_services \<Rightarrow> 'w data_client \<Rightarrow> pystr \<Rightarrow> pystr
     \<Rightarrow> data_scope option \<Rightarrow> 'w \<Rightarrow> data_state flow_result \<times> data_call list \<times> 'w" where
  "run_data_agent casefold references word V c rid query scope w =
     (if query = [] then (FlowThrew, [], w)
      else if (case scope of None \<Rightarrow> False | Some sc \<Rightarrow> \<not> data_permits sc operations_domain None)
      then (Finished (data_agent_failed (lit ''data_scope_violation'') ''Data access is outside the authorized scope.'' [] []
        (initial_data_state rid query)), [], w)
      else (let client = (case scope of None \<Rightarrow> plain_client c | Some sc \<Rightarrow> scoped_client casefold references sc c)
        in case within_session client (data_agent_graph word (lift_services V) client (initial_data_state rid query)) (w, []) of
          (out, ev, w, _) \<Rightarrow> (out, ev, w)))"

subsection \<open>What a client may return\<close>

text \<open>The contract the workflow relies on: a successful query reports only permitted tables.\<close>

locale permitting_client =
  fixes client :: "'w data_client" and permitted :: "pystr \<Rightarrow> bool"
  assumes permits: "dc_query client sql w = (Got r, w') \<Longrightarrow> mq_error r = None \<Longrightarrow> \<forall>t \<in> set (mq_tables r). permitted t"

text \<open>The evidence of a state comes from one query of the planned text over permitted tables.\<close>

definition fetched :: "(pystr \<Rightarrow> bool) \<Rightarrow> data_state \<Rightarrow> data_call list \<Rightarrow> bool" where
  "fetched permitted s ev \<longleftrightarrow> (\<exists>e sql. dt_evidence s = [e] \<and> de_id e = [68, 49] \<and> dt_sql s = Some sql
     \<and> Querying sql \<in> set ev \<and> de_tables e \<noteq> [] \<and> (\<forall>t \<in> set (de_tables e). permitted t))"

fun data_call_stage :: "data_call \<Rightarrow> nat" where
  "data_call_stage (Planning _) = 0"
| "data_call_stage (Querying _) = 1"
| "data_call_stage (Answering _) = 2"

definition data_order :: "data_call list \<Rightarrow> bool" where
  "data_order ev \<longleftrightarrow> map data_call_stage ev = [0..<length ev]"

definition data_planned :: "data_state \<Rightarrow> data_call list \<Rightarrow> bool" where
  "data_planned s ev \<longleftrightarrow> data_state_ok s \<and> data_order ev \<and> dt_status s \<in> {DataPlanned, DataClarify, DataUnsupported, DataFailed}
     \<and> (dt_status s = DataFailed \<longrightarrow> length ev \<le> 1) \<and> (dt_status s \<noteq> DataFailed \<longrightarrow> length ev = 1)"

definition data_queried :: "(pystr \<Rightarrow> bool) \<Rightarrow> data_state \<Rightarrow> data_call list \<Rightarrow> bool" where
  "data_queried permitted s ev \<longleftrightarrow> data_state_ok s \<and> data_order ev \<and> length ev \<le> 2
     \<and> dt_status s \<in> {DataQueried, DataEmpty, DataClarify, DataUnsupported, DataFailed}
     \<and> (dt_status s \<in> {DataClarify, DataUnsupported} \<longrightarrow> length ev = 1)
     \<and> (dt_status s \<in> {DataQueried, DataEmpty} \<longrightarrow> length ev = 2 \<and> fetched permitted s ev)"

definition data_grounded :: "(nat \<Rightarrow> bool) \<Rightarrow> data_state \<Rightarrow> bool" where
  "data_grounded word s \<longleftrightarrow> (\<exists>a. dt_answer s = Some a \<and> set (inline_brackets a) = {[91, 68, 49, 93]}
     \<and> \<not> bare_data word None a) \<and> dt_citations s = [[91, 68, 49, 93]]"

definition data_final :: "(nat \<Rightarrow> bool) \<Rightarrow> (pystr \<Rightarrow> bool) \<Rightarrow> data_state \<Rightarrow> data_call list \<Rightarrow> bool" where
  "data_final word permitted s ev \<longleftrightarrow> data_state_ok s \<and> data_order ev \<and> length ev \<le> 3 \<and> (case dt_status s of
       DataAnswered \<Rightarrow> fetched permitted s ev \<and> data_grounded word s \<and> Answering (dt_evidence s) \<in> set ev
     | DataEmpty \<Rightarrow> fetched permitted s ev \<and> length ev = 2
     | DataClarify \<Rightarrow> length ev = 1
     | DataUnsupported \<Rightarrow> length ev = 1
     | DataFailed \<Rightarrow> True
     | _ \<Rightarrow> False)"

lemma data_failed_ok:
  "dt_query s \<noteq> [] \<Longrightarrow> data_state_ok (data_agent_failed code msg evidence details s)"
  "dt_status (data_agent_failed code msg evidence details s) = DataFailed"
  by (simp_all add: data_state_ok_def data_agent_failed_def)

lemma data_order_snoc: "data_order ev \<Longrightarrow> data_call_stage c = length ev \<Longrightarrow> data_order (ev @ [c])"
  by (simp add: data_order_def)

lemma data_order_Nil [simp]: "data_order []" "data_order [Planning t]"
  by (simp_all add: data_order_def)

lemma data_next_stage:
  assumes "stage Q out" and "\<And>s ev w. Q s ev \<Longrightarrow> dt_status s = status \<Longrightarrow> stage (\<lambda>s' ev'. R s' (ev @ ev')) (f s w)"
    and "\<And>s ev. Q s ev \<Longrightarrow> dt_status s \<noteq> status \<Longrightarrow> R s ev" and "\<And>s ev. R s ev \<Longrightarrow> data_state_ok s"
  shows "stage R (data_next out status f)"
  using assms
  by (fastforce simp: stage_def data_next_def data_checked_def split: flow_result.splits prod.splits)

lemma given_plan:
  assumes "new_data_plan raw = Some p"
  shows "p = raw" "given (Some (dp_intent p))" "given (Some (dp_reason p))"
    "dp_status p = PlanReady \<Longrightarrow> given (dp_sql p) \<and> dp_missing p = None"
    "dp_status p = PlanClarify \<Longrightarrow> given (dp_missing p)"
  using assms by (auto simp: new_data_plan_def plan_contract_def given_def not_blank_nonempty split: if_splits option.splits)

lemma planned_state_ok:
  assumes "data_state_ok s" "dt_status s = DataRunning" and "new_data_plan raw = Some p"
  shows "data_state_ok (planned_state p s)" "dt_status (planned_state p s) \<in> {DataPlanned, DataClarify, DataUnsupported}"
proof -
  note g = given_plan [OF assms(3)]
  have texts: "given (Some (clarification_answer q m))" "given (Some (unsupported_data_answer q))" for q m
    by (simp_all add: given_def clarification_answer_def unsupported_data_answer_def lit_def)
  show "data_state_ok (planned_state p s)"
    using assms(1,2) g texts by (cases "dp_status p") (simp_all add: planned_state_def data_state_ok_def)
  show "dt_status (planned_state p s) \<in> {DataPlanned, DataClarify, DataUnsupported}"
    by (cases "dp_status p") (simp_all add: planned_state_def)
qed

lemma plan_stage:
  assumes "data_state_ok s" "dt_status s = DataRunning"
  shows "stage data_planned (plan_data_query V c s w)"
proof -
  have q: "dt_query s \<noteq> []" using assms(1) by (simp add: data_state_ok_def)
  have failed: "data_planned (data_agent_failed code msg [] details s) ev" if "data_order ev" "length ev \<le> 1" for code msg details ev
    using that data_failed_ok q by (simp add: data_planned_def)
  have planned: "data_planned (planned_state p s) [Planning t]" if "new_data_plan raw = Some p" for raw p t
    using planned_state_ok [OF assms that] by (auto simp: data_planned_def)
  show ?thesis using failed planned
    by (auto simp: stage_def plan_data_query_def mcp_failed_def planning_failed_def
        split: client_reply.splits agent_reply.splits prod.splits option.splits list.splits)
qed

lemma query_result_cases:
  assumes "data_state_ok s" "dt_status s = DataPlanned"
  obtains "dt_status (query_result r s) = DataFailed" "data_state_ok (query_result r s)"
  | e where "mq_error r = None" "data_state_ok (query_result r s)" "dt_status (query_result r s) \<in> {DataQueried, DataEmpty}"
    "dt_evidence (query_result r s) = [e]" "de_id e = [68, 49]" "de_tables e = mq_tables r" "mq_tables r \<noteq> []"
    "dt_sql (query_result r s) = dt_sql s"
proof -
  have q: "dt_query s \<noteq> []" using assms(1) by (simp add: data_state_ok_def)
  have written: "given (Some (empty_answer q))" for q by (simp add: given_def empty_answer_def lit_def)
  consider "dt_status (query_result r s) = DataFailed \<and> data_state_ok (query_result r s)"
    | e where "mq_error r = None" "mq_tables r \<noteq> []" "de_id e = [68, 49]" "de_tables e = mq_tables r"
      "query_result r s = (if de_count e = 0
             then s\<lparr>dt_status := DataEmpty, dt_evidence := [e], dt_answer := Some (empty_answer (dt_query s)),
               dt_citations := [[91, 68, 49, 93]]\<rparr>
             else s\<lparr>dt_status := DataQueried, dt_evidence := [e]\<rparr>)"
  proof (cases "mq_error r = None \<and> mq_tables r \<noteq> []")
    case True
    let ?raw = "\<lparr>de_id = [68, 49], de_sql = or_empty (mq_sql r), de_columns = mq_columns r,
             de_rows = mq_rows r, de_count = mq_count r, de_truncated = mq_truncated r, de_tables = mq_tables r,
             de_elapsed = mq_elapsed r\<rparr>"
    show thesis
    proof (cases "new_data_evidence ?raw")
      case None
      then show thesis using True that(1) data_failed_ok q by (simp add: query_result_def)
    next
      case (Some e)
      moreover from Some have "e = ?raw" by (simp add: new_data_evidence_def split: if_splits)
      ultimately show thesis using True that(2) [of e] by (simp add: query_result_def)
    qed
  next
    case False
    then show thesis using that(1) data_failed_ok q by (auto simp: query_result_def split: option.splits)
  qed
  then show thesis
  proof cases
    case (2 e)
    then show thesis using that(2) [of e] assms written by (auto simp: data_state_ok_def)
  qed (use that(1) in blast)
qed

context permitting_client
begin

lemma query_stage:
  assumes "data_planned s ev" "dt_status s = DataPlanned"
  shows "stage (\<lambda>s ev'. data_queried permitted s (ev @ ev')) (execute_safe_query client s w)"
proof -
  have ok: "data_state_ok s" and ev: "data_order ev" "length ev = 1" using assms by (auto simp: data_planned_def)
  then obtain sql where sql: "dt_sql s = Some sql" "sql \<noteq> []" "dt_query s \<noteq> []"
    using assms(2) by (auto simp: data_state_ok_def given_def)
  have order: "data_order (ev @ [Querying sql])" using data_order_snoc [OF ev(1)] ev(2) by simp
  have failed: "data_queried permitted (data_agent_failed code msg [] [] s) (ev @ [Querying sql])" for code msg
    using order ev data_failed_ok sql(3) by (simp add: data_queried_def)
  have got: "data_queried permitted (query_result r s) (ev @ [Querying sql])" if r: "dc_query client sql w = (Got r, w')" for r w'
    using ok assms(2)
  proof (cases rule: query_result_cases [where r = r])
    case 1
    then show ?thesis using order ev by (simp add: data_queried_def)
  next
    case (2 e)
    then have "\<forall>t \<in> set (de_tables e). permitted t" using permits [OF r] by simp
    with 2 have "fetched permitted (query_result r s) (ev @ [Querying sql])"
      using sql by (auto simp: fetched_def)
    then show ?thesis using 2 order ev by (auto simp: data_queried_def)
  qed
  show ?thesis using sql failed got assms(2)
    by (auto simp: stage_def execute_safe_query_def mcp_failed_def split: client_reply.splits prod.splits)
qed

lemma answer_stage:
  assumes "data_queried permitted s ev" "dt_status s = DataQueried"
  shows "stage (\<lambda>s ev'. data_final word permitted s (ev @ ev')) (generate_data_answer word V s w)"
proof -
  have ok: "data_state_ok s" and ev: "data_order ev" "length ev = 2" and f: "fetched permitted s ev"
    using assms by (auto simp: data_queried_def)
  then obtain e where e: "dt_evidence s = [e]" "de_id e = [68, 49]" by (auto simp: fetched_def)
  have q: "dt_query s \<noteq> []" using ok by (simp add: data_state_ok_def)
  have order: "data_order (ev @ [Answering x])" for x using data_order_snoc [OF ev(1)] ev(2) by simp
  have failed: "data_final word permitted (data_agent_failed code msg evidence [] s) (ev @ [Answering x])" for code msg evidence x
    using order ev data_failed_ok q by (simp add: data_final_def)
  have good: "data_final word permitted (s\<lparr>dt_status := DataAnswered, dt_answer := Some (dr_answer d), dt_citations := cs\<rparr>)
      (ev @ [Answering (dt_evidence s)])"
    if v: "validate_data_citations word (map de_id (dt_evidence s)) d = (cs, [])" for d cs
  proof -
    have D1: "bracketed [68, 49] = [91, 68, 49, 93]" by (simp add: bracketed_def)
    note c = data_citations_validated [OF v]
    have "length cs \<le> 1" using v e by (auto simp: validate_data_citations_def Let_def)
    moreover have "set cs \<subseteq> {[91, 68, 49, 93]}" "cs \<noteq> []" using c e D1 by auto
    ultimately have cs: "cs = [[91, 68, 49, 93]]" by (cases cs) auto
    have inline: "set (inline_brackets (dr_answer d)) = {[91, 68, 49, 93]}" "\<not> bare_data word None (dr_answer d)"
      using c cs by auto
    have "given (Some (dr_answer d))"
    proof (rule ccontr)
      assume "\<not> given (Some (dr_answer d))"
      then have "dr_answer d = []" by (simp add: given_def)
      with inline(1) show False by simp
    qed
    with ok assms(2) cs have "data_state_ok (s\<lparr>dt_status := DataAnswered, dt_answer := Some (dr_answer d), dt_citations := cs\<rparr>)"
      by (simp add: data_state_ok_def)
    then show ?thesis using order ev f inline cs by (auto simp: data_final_def data_grounded_def fetched_def)
  qed
  show ?thesis using e assms(2) failed good
    by (auto simp: stage_def generate_data_answer_def data_answer_failed_def Let_def
        split: agent_reply.splits prod.splits option.splits list.splits)
qed

lemma graph_stage:
  assumes "data_state_ok s" "dt_status s = DataRunning"
  shows "stage (data_final word permitted) (data_agent_graph word V client s w)"
proof -
  have "stage data_planned (data_checked (plan_data_query V client) s w)"
    using plan_stage [OF assms, of V client w]
    by (auto simp: stage_def data_checked_def data_planned_def split: flow_result.splits prod.splits)
  then have "stage (data_queried permitted) (data_next (data_checked (plan_data_query V client) s w) DataPlanned (execute_safe_query client))"
  proof (rule data_next_stage)
    fix s ev assume "data_planned s ev" "dt_status s \<noteq> DataPlanned"
    then show "data_queried permitted s ev" by (auto simp: data_planned_def data_queried_def)
  qed (use query_stage in \<open>auto simp: data_queried_def\<close>)
  then show ?thesis unfolding data_agent_graph_def
  proof (rule data_next_stage)
    fix s ev assume "data_queried permitted s ev" "dt_status s \<noteq> DataQueried"
    then show "data_final word permitted s ev" by (auto simp: data_queried_def data_final_def)
  qed (use answer_stage in \<open>auto simp: data_final_def\<close>)
qed

end

text \<open>Both clients of the workflow keep the contract: the scoped one for the tables of its scope.\<close>

lemma scoped_query_permits:
  assumes "scoped_query casefold references scope c sql wt = (Got r, wt')" "mq_error r = None"
  shows "\<forall>t \<in> set (mq_tables r). permits_table casefold scope t"
  using assms by (auto simp: scoped_query_def scope_violation_def list_ex_iff split: prod.splits if_splits client_reply.splits)

interpretation scoped: permitting_client "scoped_client casefold references scope c" "permits_table casefold scope"
  for casefold references scope and c :: "'w data_client"
  by unfold_locales (auto simp: scoped_client_def dest: scoped_query_permits)

interpretation plain: permitting_client "plain_client c" "\<lambda>_. True"
  for c :: "'w data_client"
  by unfold_locales simp

subsection \<open>A whole run\<close>

definition scope_permits :: "(pystr \<Rightarrow> pystr) \<Rightarrow> data_scope option \<Rightarrow> pystr \<Rightarrow> bool" where
  "scope_permits casefold scope = (case scope of None \<Rightarrow> \<lambda>_. True | Some sc \<Rightarrow> permits_table casefold sc)"

definition well_behaved :: "'w data_client \<Rightarrow> bool" where
  "well_behaved c \<longleftrightarrow> (\<forall>w. fst (dc_open c w) = Got ()) \<and> (\<forall>w. fst (dc_close c w) = Got ())"

lemma well_behaved_lift:
  assumes "well_behaved c"
  shows "well_behaved (plain_client c)" "well_behaved (scoped_client casefold references sc c)"
  using assms
  by (auto simp: well_behaved_def plain_client_def scoped_client_def lift_world_def split: prod.splits) (metis fst_conv)+

lemma within_session_stage:
  assumes "\<And>w. stage Q (body w)"
  shows "within_session c body w = (Finished s, ev, w') \<Longrightarrow> Q s ev"
    and "well_behaved c \<Longrightarrow> fst (within_session c body w) \<noteq> FlowThrew"
proof -
  show "Q s ev" if "within_session c body w = (Finished s, ev, w')"
  proof -
    from that obtain w1 w2 where "body w1 = (Finished s, ev, w2)"
      by (auto simp: within_session_def split: client_reply.splits prod.splits)
    with assms [of w1] show ?thesis by (simp add: stage_def)
  qed
  show "fst (within_session c body w) \<noteq> FlowThrew" if "well_behaved c"
  proof -
    have "fst (dc_open c w) = Got ()" using that by (simp add: well_behaved_def)
    then obtain w1 where w1: "dc_open c w = (Got (), w1)" by (cases "dc_open c w") simp
    obtain out ev w2 where body: "body w1 = (out, ev, w2)" by (metis prod_cases3)
    have "fst (dc_close c w2) = Got ()" using that by (simp add: well_behaved_def)
    then obtain w3 where w3: "dc_close c w2 = (Got (), w3)" by (cases "dc_close c w2") simp
    have "out \<noteq> FlowThrew" using assms [of w1] by (auto simp: body stage_def)
    then show ?thesis by (simp add: within_session_def w1 body w3)
  qed
qed

lemma initial_data_ok: "query \<noteq> [] \<Longrightarrow> data_state_ok (initial_data_state rid query) \<and> dt_status (initial_data_state rid query) = DataRunning"
  by (simp add: initial_data_state_def data_state_ok_def)


text \<open>The agent as the data tool runs it.\<close>

definition data_agent_state :: "data_state \<Rightarrow> agent_state" where
  "data_agent_state s = \<lparr>ag_failed = (dt_status s = DataFailed), ag_answer = dt_answer s, ag_citations = dt_citations s,
     ag_errors = map qe_code (dt_errors s)\<rparr>"

definition data_agent ::
  "(pystr \<Rightarrow> pystr) \<Rightarrow> (pystr \<Rightarrow> pystr list) \<Rightarrow> (nat \<Rightarrow> bool) \<Rightarrow> 'w data_services \<Rightarrow> 'w data_client \<Rightarrow> pystr \<Rightarrow> pystr
     \<Rightarrow> data_scope option \<Rightarrow> 'w \<Rightarrow> agent_state call_reply \<times> 'w" where
  "data_agent casefold references word V c rid query scope w =
     (case run_data_agent casefold references word V c rid query scope w of
       (Finished s, _, w) \<Rightarrow> (CallValue (data_agent_state s), w)
     | (FlowCancelled, _, w) \<Rightarrow> (CallCancelled, w)
     | (FlowThrew, _, w) \<Rightarrow> (CallRaised, w))"

lemma data_agent_returns:
  assumes "query \<noteq> []" and "well_behaved c"
  shows "fst (data_agent casefold references word V c rid query None w) \<noteq> CallRaised"
proof -
  let ?body = "data_agent_graph word (lift_services V) (plain_client c) (initial_data_state rid query)"
  have "fst (within_session (plain_client c) ?body (w, [])) \<noteq> FlowThrew"
    using within_session_stage(2) [of _ ?body, OF plain.graph_stage well_behaved_lift(1) [OF assms(2)]]
      initial_data_ok [OF assms(1)] by blast
  then show ?thesis using assms(1)
    by (auto simp: data_agent_def run_data_agent_def Let_def split: prod.splits flow_result.splits)
qed

subsection \<open>A concrete run\<close>

definition demo_client :: "unit data_client" where
  "demo_client = \<lparr>dc_open = (\<lambda>w. (Got (), w)), dc_close = (\<lambda>w. (Got (), w)), dc_schema = (\<lambda>w. (Got [([116], [[113]])], w)),
     dc_definitions = (\<lambda>w. (Got [], w)),
     dc_query = (\<lambda>sql w. (Got \<lparr>mq_columns = [[113]], mq_rows = [[JInt 1]], mq_count = 1, mq_truncated = False, mq_sql = Some [115],
       mq_tables = [[116]], mq_elapsed = 0, mq_error = None\<rparr>, w))\<rparr>"

definition demo_plan :: data_plan where
  "demo_plan = \<lparr>dp_status = PlanReady, dp_intent = [105], dp_sql = Some [115], dp_reason = [114], dp_missing = None\<rparr>"

definition demo_data :: "unit data_services" where
  "demo_data = \<lparr>dv_plan = (\<lambda>q t d w. (Replied demo_plan, w)),
     dv_answer = (\<lambda>q e w. (Replied \<lparr>dr_answer = [97, 91, 68, 49, 93], dr_citations = [[91, 68, 49, 93]]\<rparr>, w))\<rparr>"

definition demo_planned :: data_state where
  "demo_planned = planned_state demo_plan (initial_data_state [] [113])"

definition demo_queried :: data_state where
  "demo_queried = demo_planned\<lparr>dt_status := DataQueried, dt_evidence := [\<lparr>de_id = [68, 49], de_sql = [115], de_columns = [[113]],
     de_rows = [[JInt 1]], de_count = 1, de_truncated = False, de_tables = [[116]], de_elapsed = 0\<rparr>]\<rparr>"

definition demo_data_answered :: data_state where
  "demo_data_answered = demo_queried\<lparr>dt_status := DataAnswered, dt_answer := Some [97, 91, 68, 49, 93],
     dt_citations := [[91, 68, 49, 93]]\<rparr>"

lemmas demo_data_states = demo_planned_def demo_queried_def demo_data_answered_def planned_state_def demo_plan_def
  initial_data_state_def

lemma demo_data_ok: "data_state_ok demo_planned" "data_state_ok demo_queried" "data_state_ok demo_data_answered"
  by (simp_all add: data_state_ok_def demo_data_states given_def)

lemma demo_data_plan:
  "plan_data_query (lift_services demo_data) (plain_client demo_client) (initial_data_state [] [113]) ((), [])
     = (Finished demo_planned, [Planning [([116], [[113]])]], (), [])"
  by (simp add: plan_data_query_def plain_client_def demo_client_def lift_world_def lift_services_def demo_data_def
      new_data_plan_def plan_contract_def length_within_def demo_plan_def py_space_def validate_data_query_plan_def
      is_chinese_def demo_planned_def initial_data_state_def)

lemma demo_data_query:
  "execute_safe_query (plain_client demo_client) demo_planned ((), []) = (Finished demo_queried, [Querying [115]], (), [])"
  by (simp add: execute_safe_query_def demo_planned_def planned_state_def demo_plan_def initial_data_state_def plain_client_def
      demo_client_def lift_world_def query_result_def new_data_evidence_def data_id_def citation_format_def or_empty_def
      demo_queried_def)

lemma demo_data_generate:
  "generate_data_answer (\<lambda>_. False) (lift_services demo_data) demo_queried ((), [])
     = (Finished demo_data_answered, [Answering (dt_evidence demo_queried)], (), [])"
proof -
  have v: "validate_data_citations (\<lambda>_. False) [[68, 49]] \<lparr>dr_answer = [97, 91, 68, 49, 93], dr_citations = [[91, 68, 49, 93]]\<rparr>
      = ([[91, 68, 49, 93]], [])"
    by (simp add: validate_data_citations_def bracketed_def citation_format_def first_seen_def bracket_def Let_def)
  have e: "map de_id (dt_evidence demo_queried) = [[68, 49]]" "dt_status demo_queried = DataQueried" "dt_evidence demo_queried \<noteq> []"
    by (simp_all add: demo_queried_def)
  show ?thesis
    by (simp add: generate_data_answer_def e v lift_services_def lift_world_def demo_data_def new_answer_draft_def
        demo_data_answered_def Let_def)
qed

lemma demo_agent_run:
  "\<exists>ev. run_data_agent id (\<lambda>_. []) (\<lambda>_. False) demo_data demo_client [] [113] None () = (Finished demo_data_answered, ev, ())"
proof -
  have s: "dt_status demo_planned = DataPlanned" "dt_status demo_queried = DataQueried"
    by (simp_all add: demo_data_states)
  have o: "dc_open (plain_client demo_client) w = (Got (), w)" "dc_close (plain_client demo_client) w = (Got (), w)" for w
    by (cases w, simp add: plain_client_def demo_client_def lift_world_def)+
  show ?thesis
    by (simp add: run_data_agent_def within_session_def o data_agent_graph_def data_checked_def demo_data_plan demo_data_ok
        data_next_def s demo_data_query demo_data_generate)
qed


end
