(* ===== verification/SafeQuery.thy ===== *)
theory SafeQuery
  imports DataAgent
begin

section \<open>Safe data access\<close>

text \<open>
  \<^verbatim>\<open>data/sql_guard.py\<close>, \<^verbatim>\<open>data/safe_query_service.py\<close>, \<^verbatim>\<open>data/models.py\<close> and the tool of
  \<^verbatim>\<open>mcp_server/enterprise_data_server.py\<close>. What the guard reads of a parsed statement is a record;
  the parser and the rendering of a statement are arguments, as are \<^verbatim>\<open>str.lower\<close> and \<^verbatim>\<open>str.upper\<close>
  (\<open>lower\<close>, \<open>upper\<close>). The database is a function on a world; a ghost log records what it was asked.
\<close>

subsection \<open>What the guard reads of a statement\<close>

record sql_table =
  tb_db :: pystr
  tb_catalog :: pystr
  tb_name :: pystr
  tb_alias :: pystr

record sql_column =
  cl_star :: bool
  cl_name :: pystr
  cl_table :: pystr

record sql_scope =
  sp_tables :: "sql_table list"
  sp_columns :: "sql_column list"
  sp_having :: "sql_column list"

datatype sql_root = WriteRoot | OtherRoot | QueryRoot

datatype sql_function = AnonymousFunction pystr | KnownFunction pystr

datatype sql_limit = LimitNumber int | LimitOther

text \<open>
  \<open>st_selects\<close>: whether each SELECT has expressions; \<open>st_stars\<close>: whether each star is below a COUNT;
  \<open>st_scopes\<close> is missing when \<^verbatim>\<open>traverse_scope\<close> raises; \<open>st_sql\<close> renders with a given LIMIT.
\<close>

record sql_statement =
  st_root :: sql_root
  st_selects :: "bool list"
  st_lock :: bool
  st_into :: bool
  st_functions :: "sql_function list"
  st_ctes :: "pystr list"
  st_tables :: "sql_table list"
  st_stars :: "bool list"
  st_scopes :: "sql_scope list option"
  st_limit :: "sql_limit option"
  st_sql :: "sql_limit option \<Rightarrow> pystr"

datatype parse_outcome = Parsed "sql_statement option list" | ParseFailed | ParserRaised

subsection \<open>The guard\<close>

definition business_tables :: "(pystr \<times> pystr list) list" where
  "business_tables = map (\<lambda>(t, cs). (lit t, map lit cs))
     [(''products'', [''product_id'', ''sku'', ''product_name'', ''category'', ''status'', ''safety_stock'']),
      (''suppliers'', [''supplier_id'', ''supplier_name'', ''status'']),
      (''sales_orders'', [''sales_order_id'', ''order_number'', ''order_date'', ''status'']),
      (''sales_order_items'', [''sales_order_item_id'', ''sales_order_id'', ''product_id'', ''quantity'', ''unit_price'']),
      (''inventory_snapshots'', [''inventory_snapshot_id'', ''product_id'', ''snapshot_date'', ''on_hand_quantity'']),
      (''purchase_orders'', [''purchase_order_id'', ''purchase_order_number'', ''supplier_id'', ''product_id'', ''order_date'',
        ''status'', ''quantity'', ''unit_cost'', ''promised_delivery_date'', ''actual_delivery_date''])]"

record sql_guard =
  gd_rows :: int
  gd_tables :: "(pystr \<times> pystr list) list"

definition new_sql_guard :: "int \<Rightarrow> (pystr \<times> pystr list) list option \<Rightarrow> string + sql_guard" where
  "new_sql_guard max_rows tables =
     (if max_rows \<le> 0 then Inl ''max_rows must be positive''
      else Inr \<lparr>gd_rows = max_rows,
        gd_tables = (case tables of None \<Rightarrow> business_tables | Some ts \<Rightarrow> if ts = [] then business_tables else ts)\<rparr>)"

record guard_decision =
  gn_allowed :: bool
  gn_sql :: "pystr option"
  gn_code :: "string option"
  gn_tables :: "pystr list"

definition guard_reject :: "string \<Rightarrow> guard_decision" where
  "guard_reject code = \<lparr>gn_allowed = False, gn_sql = None, gn_code = Some code, gn_tables = []\<rparr>"

definition system_schemas :: "pystr list" where
  "system_schemas = map lit [''information_schema'', ''mysql'', ''performance_schema'', ''sys'']"

definition dangerous_functions :: "pystr list" where
  "dangerous_functions = map lit [''LOAD_FILE'', ''SLEEP'', ''BENCHMARK'']"

definition function_name :: "(pystr \<Rightarrow> pystr) \<Rightarrow> sql_function \<Rightarrow> pystr" where
  "function_name upper f = (case f of AnonymousFunction n \<Rightarrow> upper n | KnownFunction n \<Rightarrow> upper n)"

definition contains_dangerous_function :: "(pystr \<Rightarrow> pystr) \<Rightarrow> sql_statement \<Rightarrow> bool" where
  "contains_dangerous_function upper st \<longleftrightarrow> list_ex (\<lambda>f. function_name upper f \<in> set dangerous_functions) (st_functions st)"

text \<open>The tables of a statement in their order: the code of a rejection, or the names accessed.\<close>

fun check_tables ::
  "(pystr \<Rightarrow> pystr) \<Rightarrow> sql_guard \<Rightarrow> pystr list \<Rightarrow> sql_table list \<Rightarrow> pystr list \<Rightarrow> string + pystr list" where
  "check_tables lower G ctes [] accessed = Inr accessed"
| "check_tables lower G ctes (t # ts) accessed =
     (let schema = lower (if tb_db t \<noteq> [] then tb_db t else tb_catalog t); name = lower (tb_name t)
      in if schema \<in> set system_schemas then Inl ''system_schema_not_allowed''
         else if name \<in> set ctes then check_tables lower G ctes ts accessed
         else if map_of (gd_tables G) name = None then Inl ''unauthorized_table''
         else check_tables lower G ctes ts (name # accessed))"

definition scope_aliases :: "(pystr \<Rightarrow> pystr) \<Rightarrow> sql_guard \<Rightarrow> pystr list \<Rightarrow> sql_scope \<Rightarrow> (pystr \<times> pystr list) list" where
  "scope_aliases lower G ctes sp = dict_of (concat (map (\<lambda>t.
     if lower (tb_name t) \<in> set ctes then []
     else (case map_of (gd_tables G) (lower (tb_name t)) of None \<Rightarrow> [] | Some cs \<Rightarrow> [(lower (tb_alias t), cs)])) (sp_tables sp)))"

definition column_ok :: "(pystr \<Rightarrow> pystr) \<Rightarrow> (pystr \<times> pystr list) list \<Rightarrow> sql_column \<Rightarrow> bool" where
  "column_ok lower aliases c \<longleftrightarrow> cl_star c
     \<or> (let name = lower (cl_name c); qualifier = lower (cl_table c)
        in if qualifier \<noteq> [] then (case map_of aliases qualifier of None \<Rightarrow> True | Some cs \<Rightarrow> name \<in> set cs)
           else aliases = [] \<or> list_ex (\<lambda>(_, cs). name \<in> set cs) aliases)"

definition columns_ok :: "(pystr \<Rightarrow> pystr) \<Rightarrow> sql_guard \<Rightarrow> pystr list \<Rightarrow> sql_scope list \<Rightarrow> bool" where
  "columns_ok lower G ctes scopes \<longleftrightarrow>
     list_all (\<lambda>sp. list_all (column_ok lower (scope_aliases lower G ctes sp)) (sp_columns sp @ sp_having sp)) scopes"

definition apply_or_validate_limit :: "sql_guard \<Rightarrow> sql_limit option \<Rightarrow> string + sql_limit option" where
  "apply_or_validate_limit G limit = (case limit of
       None \<Rightarrow> Inr (Some (LimitNumber (gd_rows G)))
     | Some LimitOther \<Rightarrow> Inl ''limit_exceeded''
     | Some (LimitNumber n) \<Rightarrow> if gd_rows G < n then Inl ''limit_exceeded'' else Inr limit)"

text \<open>One statement: the code of a rejection, or the text to run and the tables; missing when a library call raises.\<close>

definition guard_statement ::
  "(pystr \<Rightarrow> pystr) \<Rightarrow> (pystr \<Rightarrow> pystr) \<Rightarrow> sql_guard \<Rightarrow> sql_statement \<Rightarrow> guard_decision option" where
  "guard_statement lower upper G st =
     (let ctes = map lower (st_ctes st) in
      if st_root st = WriteRoot \<or> st_root st \<noteq> QueryRoot then Some (guard_reject ''write_statement_not_allowed'')
      else if list_ex Not (st_selects st) then Some (guard_reject ''sql_parse_failed'')
      else if st_lock st then Some (guard_reject ''locking_read_not_allowed'')
      else if st_into st then Some (guard_reject ''dangerous_function_not_allowed'')
      else if contains_dangerous_function upper st then Some (guard_reject ''dangerous_function_not_allowed'')
      else (case check_tables lower G ctes (st_tables st) [] of
          Inl code \<Rightarrow> Some (guard_reject code)
        | Inr accessed \<Rightarrow>
            if list_ex Not (st_stars st) then Some (guard_reject ''wildcard_not_allowed'')
            else (case st_scopes st of
                None \<Rightarrow> None
              | Some scopes \<Rightarrow>
                  if \<not> columns_ok lower G ctes scopes then Some (guard_reject ''unauthorized_column'')
                  else (case apply_or_validate_limit G (st_limit st) of
                      Inl code \<Rightarrow> Some (guard_reject code)
                    | Inr limit \<Rightarrow> Some \<lparr>gn_allowed = True, gn_sql = Some (st_sql st limit), gn_code = None,
                        gn_tables = sorted_list_of_set (set accessed)\<rparr>))))"

definition guard_validate ::
  "(pystr \<Rightarrow> pystr) \<Rightarrow> (pystr \<Rightarrow> pystr) \<Rightarrow> (pystr \<Rightarrow> parse_outcome) \<Rightarrow> sql_guard \<Rightarrow> pystr \<Rightarrow> guard_decision option" where
  "guard_validate lower upper parse G sql =
     (if sublist (lit ''into outfile'') (lower sql) \<or> sublist (lit ''into dumpfile'') (lower sql)
      then Some (guard_reject ''dangerous_function_not_allowed'')
      else (case parse sql of
          ParserRaised \<Rightarrow> None
        | ParseFailed \<Rightarrow> Some (guard_reject ''sql_parse_failed'')
        | Parsed statements \<Rightarrow>
            (case [s. Some s \<leftarrow> statements] of
               [st] \<Rightarrow> guard_statement lower upper G st
             | _ \<Rightarrow> Some (guard_reject ''multiple_statements_not_allowed''))))"

subsection \<open>The service\<close>

text \<open>A database value: already public, a decimal with its fixed-point text, a date with its ISO text.\<close>

datatype db_value = PublicValue json | DecimalValue pystr | DateValue pystr

definition public_value :: "db_value \<Rightarrow> json" where
  "public_value v = (case v of PublicValue j \<Rightarrow> j | DecimalValue s \<Rightarrow> JStr s | DateValue s \<Rightarrow> JStr s)"

datatype exec_outcome = ExecRows "pystr list" "db_value list list" | WaitTimeout | ExecTimeout | ExecUnavailable
  | ExecFailed | ExecRaised | ExecCancelled

text \<open>What the driver does in the thread, or that the application waits for it no longer.\<close>

datatype driver_outcome = DriverRows "pystr list" "db_value list list" | DriverOperational pystr | DriverError
  | DriverRaised | DriverLate | DriverCancelled

definition sqlalchemy_execute ::
  "(pystr \<Rightarrow> pystr) \<Rightarrow> (pystr \<Rightarrow> int \<Rightarrow> 'w \<Rightarrow> driver_outcome \<times> 'w) \<Rightarrow> pystr \<Rightarrow> int \<Rightarrow> 'w \<Rightarrow> exec_outcome \<times> 'w" where
  "sqlalchemy_execute lower driver sql millis w = (case driver sql millis w of
       (DriverRows columns rows, w) \<Rightarrow> (ExecRows columns rows, w)
     | (DriverOperational text_of_error, w) \<Rightarrow> (let message = lower text_of_error in
         (if sublist (lit ''max_execution_time'') message \<or> sublist (lit ''query execution was interrupted'') message
          then ExecTimeout
          else if sublist (lit ''connect'') message \<or> sublist (lit ''connection'') message then ExecUnavailable
          else ExecFailed, w))
     | (DriverError, w) \<Rightarrow> (ExecFailed, w)
     | (DriverRaised, w) \<Rightarrow> (ExecRaised, w)
     | (DriverLate, w) \<Rightarrow> (WaitTimeout, w)
     | (DriverCancelled, w) \<Rightarrow> (ExecCancelled, w))"

text \<open>\<open>sv_millis\<close> is the query timeout in milliseconds, as \<^verbatim>\<open>round\<close> gives it.\<close>

record 'w query_service =
  sv_guard :: sql_guard
  sv_execute :: "pystr \<Rightarrow> int \<Rightarrow> 'w \<Rightarrow> exec_outcome \<times> 'w"
  sv_discard :: "'w \<Rightarrow> 'w"
  sv_elapsed :: "'w \<Rightarrow> rat"
  sv_millis :: int
  sv_wait :: rat
  sv_rows :: int
  sv_cells :: int

definition service_limits :: "rat \<Rightarrow> rat option \<Rightarrow> int \<Rightarrow> int \<Rightarrow> string + rat" where
  "service_limits timeout wait rows cells =
     (if timeout \<le> 0 \<or> rows \<le> 0 \<or> cells \<le> 0 then Inl ''SafeQueryService resource limits must be positive''
      else (let wait = (case wait of None \<Rightarrow> timeout + 1 | Some x \<Rightarrow> if x = 0 then timeout + 1 else x)
        in if wait \<le> timeout then Inl ''application timeout must exceed database query timeout'' else Inr wait))"

definition new_query_service ::
  "sql_guard \<Rightarrow> (pystr \<Rightarrow> int \<Rightarrow> 'w \<Rightarrow> exec_outcome \<times> 'w) \<Rightarrow> ('w \<Rightarrow> 'w) \<Rightarrow> ('w \<Rightarrow> rat) \<Rightarrow> rat \<Rightarrow> int \<Rightarrow> rat option \<Rightarrow> int
     \<Rightarrow> int \<Rightarrow> string + 'w query_service" where
  "new_query_service G execute discard elapsed timeout millis wait rows cells =
     res_bind (service_limits timeout wait rows cells) (\<lambda>wait.
     Inr \<lparr>sv_guard = G, sv_execute = execute, sv_discard = discard, sv_elapsed = elapsed, sv_millis = millis,
       sv_wait = wait, sv_rows = rows, sv_cells = cells\<rparr>)"

record query_audit =
  qa_request :: pystr
  qa_sql :: "pystr option"
  qa_allowed :: bool
  qa_code :: "string option"
  qa_tables :: "pystr list"
  qa_elapsed :: rat
  qa_count :: int
  qa_truncated :: bool

record query_reply =
  qr_columns :: "pystr list"
  qr_rows :: "json list list"
  qr_count :: int
  qr_truncated :: bool
  qr_elapsed :: rat
  qr_tables :: "pystr list"
  qr_audit :: query_audit
  qr_error :: "string option"

definition query_failure :: "pystr \<Rightarrow> rat \<Rightarrow> string \<Rightarrow> guard_decision option \<Rightarrow> int \<Rightarrow> bool \<Rightarrow> query_reply" where
  "query_failure rid elapsed code decision rows truncated =
     (let tables = (case decision of None \<Rightarrow> [] | Some d \<Rightarrow> gn_tables d);
          sql = (case decision of None \<Rightarrow> None | Some d \<Rightarrow> gn_sql d)
      in \<lparr>qr_columns = [], qr_rows = [], qr_count = 0, qr_truncated = truncated, qr_elapsed = elapsed, qr_tables = tables,
          qr_audit = \<lparr>qa_request = rid, qa_sql = sql, qa_allowed = False, qa_code = Some code, qa_tables = tables,
            qa_elapsed = elapsed, qa_count = rows, qa_truncated = truncated\<rparr>,
          qr_error = Some code\<rparr>)"

text \<open>A fetched result: too many rows, too many cells, or its public form.\<close>

definition fetched_reply ::
  "'w query_service \<Rightarrow> pystr \<Rightarrow> rat \<Rightarrow> guard_decision \<Rightarrow> pystr list \<Rightarrow> db_value list list \<Rightarrow> query_reply" where
  "fetched_reply S rid elapsed d columns rows =
     (let n = int (length rows)
      in if sv_rows S < n then query_failure rid elapsed ''result_too_large'' (Some d) n True
         else if sv_cells S < n * int (length columns) then query_failure rid elapsed ''result_too_large'' (Some d) n False
         else \<lparr>qr_columns = columns, qr_rows = map (map public_value) rows, qr_count = n, qr_truncated = False,
           qr_elapsed = elapsed, qr_tables = gn_tables d,
           qr_audit = \<lparr>qa_request = rid, qa_sql = gn_sql d, qa_allowed = True, qa_code = None, qa_tables = gn_tables d,
             qa_elapsed = elapsed, qa_count = n, qa_truncated = False\<rparr>,
           qr_error = None\<rparr>)"

definition service_execute ::
  "(pystr \<Rightarrow> pystr) \<Rightarrow> (pystr \<Rightarrow> pystr) \<Rightarrow> (pystr \<Rightarrow> parse_outcome) \<Rightarrow> 'w query_service \<Rightarrow> pystr \<Rightarrow> pystr \<Rightarrow> 'w
     \<Rightarrow> query_reply flow_result \<times> (pystr \<times> int) list \<times> 'w" where
  "service_execute lower upper parse S rid sql w =
     (case guard_validate lower upper parse (sv_guard S) sql of
        None \<Rightarrow> (FlowThrew, [], w)
      | Some d \<Rightarrow>
          if \<not> gn_allowed d
          then (Finished (query_failure rid (sv_elapsed S w)
            (case gn_code d of None \<Rightarrow> ''safe_query_execution_failed'' | Some c \<Rightarrow> c) None 0 False), [], w)
          else (let text_to_run = or_empty (gn_sql d); timeout = sv_millis S; ev = [(text_to_run, timeout)];
                    failure = (\<lambda>code w. (Finished (query_failure rid (sv_elapsed S w) code (Some d) 0 False), ev, w))
            in case sv_execute S text_to_run timeout w of
              (WaitTimeout, w) \<Rightarrow> failure ''query_timeout'' (sv_discard S w)
            | (ExecTimeout, w) \<Rightarrow> failure ''query_timeout'' w
            | (ExecUnavailable, w) \<Rightarrow> failure ''database_unavailable'' w
            | (ExecFailed, w) \<Rightarrow> failure ''safe_query_execution_failed'' w
            | (ExecRaised, w) \<Rightarrow> (FlowThrew, ev, w)
            | (ExecCancelled, w) \<Rightarrow> (FlowCancelled, ev, w)
            | (ExecRows columns rows, w) \<Rightarrow> (Finished (fetched_reply S rid (sv_elapsed S w) d columns rows), ev, w)))"

subsection \<open>The health probe\<close>

datatype probe_reply = ProbePassed | ProbeAuthentication string | ProbeUnavailable string | ProbeTimeout string
  | ProbeHealth string | ProbeRaised

datatype close_reply = Closed | CloseFailed string | CloseRaised

record preflight_result =
  pf_connected :: bool
  pf_ready :: bool
  pf_guard :: bool
  pf_shutdown :: string
  pf_code :: string
  pf_exception :: "string option"

text \<open>The probe and the close of the executor, either may be missing; no value when one raises something else.\<close>

definition preflight_database :: "probe_reply option \<Rightarrow> close_reply option \<Rightarrow> preflight_result option" where
  "preflight_database probe close = (case probe of
       None \<Rightarrow> Some \<lparr>pf_connected = False, pf_ready = False, pf_guard = True, pf_shutdown = ''not_required'',
         pf_code = ''mysql_health_query_failed'', pf_exception = None\<rparr>
     | Some reply \<Rightarrow>
         (let conn = (reply = ProbePassed);
              outcome = (case reply of
                  ProbePassed \<Rightarrow> Some (''none'', None)
                | ProbeAuthentication e \<Rightarrow> Some (''mysql_authentication_failed'', Some e)
                | ProbeUnavailable e \<Rightarrow> Some (''mysql_connection_failed'', Some e)
                | ProbeTimeout e \<Rightarrow> Some (''mysql_timeout'', Some e)
                | ProbeHealth e \<Rightarrow> Some (''mysql_health_query_failed'', Some e)
                | ProbeRaised \<Rightarrow> None);
              closed = (case close of
                  Some (CloseFailed e) \<Rightarrow> map_option (\<lambda>_. (''mysql_shutdown_failed'', Some e)) outcome
                | Some CloseRaised \<Rightarrow> None
                | _ \<Rightarrow> outcome)
          in map_option (\<lambda>(code, e). \<lparr>pf_connected = conn, pf_ready = (conn \<and> code = ''none''), pf_guard = True,
               pf_shutdown = (if code \<noteq> ''mysql_shutdown_failed'' then ''passed'' else ''failed''),
               pf_code = code, pf_exception = e\<rparr>) closed))"

definition preflight_payload :: "string \<Rightarrow> bool \<Rightarrow> bool \<Rightarrow> bool \<Rightarrow> string \<Rightarrow> string option \<Rightarrow> (pystr \<times> json) list" where
  "preflight_payload code conn ready guard shutdown e =
     [(lit ''component'', JStr (lit ''mysql'')), (lit ''phase'', JStr (lit ''mcp_server_preflight'')),
      (lit ''status'', JStr (lit (if code = ''none'' then ''passed'' else ''failed''))), (lit ''error_code'', JStr (lit code)),
      (lit ''connection_established'', JBool conn), (lit ''readonly_ready'', JBool ready),
      (lit ''sql_guard_ready'', JBool guard), (lit ''shutdown'', JStr (lit shutdown)),
      (lit ''exception_type'', (case e of None \<Rightarrow> JNull | Some x \<Rightarrow> JStr (lit x)))]"

text \<open>\<open>configured\<close>: whether the service can be built.\<close>

definition server_preflight :: "bool \<Rightarrow> probe_reply option \<Rightarrow> close_reply option \<Rightarrow> (pystr \<times> json) list option" where
  "server_preflight configured probe close =
     (if \<not> configured
      then Some (preflight_payload ''mysql_configuration_missing'' False False False ''not_started'' (Some ''ConfigurationError''))
      else map_option (\<lambda>r. preflight_payload (pf_code r) (pf_connected r) (pf_ready r) (pf_guard r) (pf_shutdown r) (pf_exception r))
        (preflight_database probe close))"

text \<open>The probe reports passed exactly when it connected and any shutdown that was tried succeeded.\<close>

lemma preflight_payload_status:
  "map_of (preflight_payload code conn ready guard shutdown e) (lit ''status'') = Some (JStr (lit ''passed'')) \<longleftrightarrow> code = ''none''"
  by (simp add: preflight_payload_def)

lemma preflight_code_none:
  "(\<exists>r. preflight_database probe close = Some r \<and> pf_code r = ''none'')
     \<longleftrightarrow> probe = Some ProbePassed \<and> (close = None \<or> close = Some Closed)"
proof (cases probe)
  case None then show ?thesis by (simp add: preflight_database_def)
next
  case (Some reply)
  then show ?thesis by (cases reply; cases close rule: option.exhaust; cases "the close")
      (simp_all add: preflight_database_def Let_def)
qed

lemma server_preflight_passed_iff:
  "(\<exists>payload. server_preflight configured probe close = Some payload
      \<and> map_of payload (lit ''status'') = Some (JStr (lit ''passed'')))
     \<longleftrightarrow> configured \<and> probe = Some ProbePassed \<and> (close = None \<or> close = Some Closed)"
  unfolding preflight_code_none [symmetric]
  by (cases "preflight_database probe close") (simp_all add: server_preflight_def preflight_payload_status)

subsection \<open>The tool of the server\<close>

text \<open>\<open>None\<close> is a service that cannot be configured.\<close>

definition server_schema :: schema_tables where
  "server_schema = map (\<lambda>(t, cs). (t, sort cs)) business_tables"

definition server_query ::
  "(pystr \<Rightarrow> pystr) \<Rightarrow> (pystr \<Rightarrow> pystr) \<Rightarrow> (pystr \<Rightarrow> parse_outcome) \<Rightarrow> 'w query_service option \<Rightarrow> pystr \<Rightarrow> pystr \<Rightarrow> 'w
     \<Rightarrow> mcp_result flow_result \<times> (pystr \<times> int) list \<times> 'w" where
  "server_query lower upper parse service rid sql w =
     (if sql = [] \<or> 20000 < length sql then (FlowThrew, [], w)
      else (case service of
          None \<Rightarrow> (Finished \<lparr>mq_columns = [], mq_rows = [], mq_count = 0, mq_truncated = False, mq_sql = None,
            mq_tables = [], mq_elapsed = 0, mq_error = Some (lit ''database_unavailable'')\<rparr>, [], w)
        | Some S \<Rightarrow> (case service_execute lower upper parse S rid sql w of
            (Finished r, ev, w) \<Rightarrow> (Finished \<lparr>mq_columns = qr_columns r, mq_rows = qr_rows r, mq_count = qr_count r,
              mq_truncated = qr_truncated r, mq_sql = qa_sql (qr_audit r), mq_tables = qr_tables r,
              mq_elapsed = qr_elapsed r, mq_error = map_option lit (qr_error r)\<rparr>, ev, w)
          | (FlowCancelled, ev, w) \<Rightarrow> (FlowCancelled, ev, w)
          | (FlowThrew, ev, w) \<Rightarrow> (FlowThrew, ev, w))))"

subsection \<open>What the guard admits\<close>

definition admitted ::
  "(pystr \<Rightarrow> pystr) \<Rightarrow> (pystr \<Rightarrow> pystr) \<Rightarrow> sql_guard \<Rightarrow> sql_statement \<Rightarrow> guard_decision \<Rightarrow> bool" where
  "admitted lower upper G st d \<longleftrightarrow> (let ctes = map lower (st_ctes st) in
     st_root st = QueryRoot \<and> list_all id (st_selects st) \<and> \<not> st_lock st \<and> \<not> st_into st
     \<and> (\<forall>f \<in> set (st_functions st). function_name upper f \<notin> set dangerous_functions)
     \<and> (\<forall>t \<in> set (st_tables st). lower (if tb_db t \<noteq> [] then tb_db t else tb_catalog t) \<notin> set system_schemas
          \<and> (lower (tb_name t) \<in> set ctes \<or> lower (tb_name t) \<in> set (gn_tables d)))
     \<and> set (gn_tables d) \<subseteq> fst ` set (gd_tables G) \<and> sorted (gn_tables d) \<and> distinct (gn_tables d)
     \<and> list_all id (st_stars st) \<and> (\<exists>scopes. st_scopes st = Some scopes \<and> columns_ok lower G ctes scopes)
     \<and> (\<exists>n \<le> gd_rows G. gn_sql d = Some (st_sql st (Some (LimitNumber n))))
     \<and> gn_code d = None)"

lemma check_tables_Inr:
  assumes "check_tables lower G ctes ts acc = Inr accessed"
  shows "set acc \<subseteq> set accessed \<and> set accessed \<subseteq> set acc \<union> fst ` set (gd_tables G)
    \<and> (\<forall>t \<in> set ts. lower (if tb_db t \<noteq> [] then tb_db t else tb_catalog t) \<notin> set system_schemas
        \<and> (lower (tb_name t) \<in> set ctes \<or> lower (tb_name t) \<in> set accessed))"
  using assms
proof (induction lower G ctes ts acc rule: check_tables.induct)
  case (2 lower G ctes t ts acc)
  let ?schema = "lower (if tb_db t \<noteq> [] then tb_db t else tb_catalog t)" and ?name = "lower (tb_name t)"
  have schema: "?schema \<notin> set system_schemas" using "2.prems" by (auto simp: Let_def split: if_splits)
  show ?case
  proof (cases "?name \<in> set ctes")
    case True
    with schema "2.prems" have "check_tables lower G ctes ts acc = Inr accessed" by (simp add: Let_def)
    with "2.IH"(1) [OF refl refl schema True] schema True show ?thesis by simp
  next
    case False
    with schema "2.prems" obtain cs where cs: "map_of (gd_tables G) ?name = Some cs"
      and r: "check_tables lower G ctes ts (?name # acc) = Inr accessed"
      by (auto simp: Let_def split: if_splits)
    then have "map_of (gd_tables G) ?name \<noteq> None" by simp
    from "2.IH"(2) [OF refl refl schema False this r] schema show ?thesis
      using map_of_SomeD [OF cs] by (auto simp: rev_image_eqI)
  qed
qed simp

lemma limit_bounded:
  "apply_or_validate_limit G limit = Inr l \<Longrightarrow> \<exists>n \<le> gd_rows G. l = Some (LimitNumber n)"
  by (auto simp: apply_or_validate_limit_def split: option.splits sql_limit.splits if_splits)

lemma guard_statement_admits:
  assumes "guard_statement lower upper G st = Some d" and "gn_allowed d"
  shows "admitted lower upper G st d"
proof -
  let ?ctes = "map lower (st_ctes st)"
  have no: "\<not> gn_allowed (guard_reject code)" for code by (simp add: guard_reject_def)
  note a = assms(1) [unfolded guard_statement_def Let_def]
  have root: "st_root st = QueryRoot" "\<not> list_ex Not (st_selects st)" "\<not> st_lock st" "\<not> st_into st"
    "\<not> contains_dangerous_function upper st"
    using a assms(2) no by (auto split: if_splits)
  obtain accessed where acc: "check_tables lower G ?ctes (st_tables st) [] = Inr accessed"
    using a root assms(2) no by (cases "check_tables lower G ?ctes (st_tables st) []") auto
  have stars: "\<not> list_ex Not (st_stars st)" using a root acc assms(2) no by (auto split: if_splits)
  obtain scopes where scopes: "st_scopes st = Some scopes" using a root acc stars by (cases "st_scopes st") auto
  have cols: "columns_ok lower G ?ctes scopes" using a root acc stars scopes assms(2) no by (auto split: if_splits)
  obtain l where l: "apply_or_validate_limit G (st_limit st) = Inr l"
    using a root acc stars scopes cols assms(2) no by (cases "apply_or_validate_limit G (st_limit st)") auto
  have d: "d = \<lparr>gn_allowed = True, gn_sql = Some (st_sql st l), gn_code = None, gn_tables = sorted_list_of_set (set accessed)\<rparr>"
    using a root acc stars scopes cols l by simp
  from limit_bounded [OF l] check_tables_Inr [OF acc] show ?thesis
    using root stars scopes cols d
    by (auto simp: admitted_def Let_def list_all_iff list_ex_iff contains_dangerous_function_def)
qed

lemma guard_admits:
  assumes "guard_validate lower upper parse G sql = Some d" and "gn_allowed d"
  shows "\<exists>st ss. parse sql = Parsed ss \<and> [s. Some s \<leftarrow> ss] = [st] \<and> admitted lower upper G st d"
proof -
  have no: "\<not> gn_allowed (guard_reject code)" for code by (simp add: guard_reject_def)
  note a = assms(1) [unfolded guard_validate_def]
  obtain ss where ss: "parse sql = Parsed ss" using a assms(2) no by (cases "parse sql") (auto split: if_splits)
  obtain st where st: "[s. Some s \<leftarrow> ss] = [st]"
    using a ss assms(2) no by (auto split: if_splits list.splits)
  have "guard_statement lower upper G st = Some d" using a ss st assms(2) no by (auto split: if_splits)
  with ss st assms(2) guard_statement_admits show ?thesis by blast
qed

subsection \<open>What the service runs and returns\<close>

definition reply_within :: "'w query_service \<Rightarrow> guard_decision \<Rightarrow> query_reply \<Rightarrow> bool" where
  "reply_within S d r \<longleftrightarrow> qr_count r = int (length (qr_rows r)) \<and> qr_count r \<le> sv_rows S
     \<and> qr_count r * int (length (qr_columns r)) \<le> sv_cells S \<and> qr_tables r = gn_tables d
     \<and> qa_allowed (qr_audit r) \<and> qa_sql (qr_audit r) = gn_sql d"

definition reply_refused :: "query_reply \<Rightarrow> bool" where
  "reply_refused r \<longleftrightarrow> qr_rows r = [] \<and> qr_columns r = [] \<and> qr_count r = 0 \<and> \<not> qa_allowed (qr_audit r) \<and> qa_code (qr_audit r) = qr_error r"

lemma failure_refused: "reply_refused (query_failure rid elapsed code d n t)" "qr_error (query_failure rid elapsed code d n t) = Some code"
  by (simp_all add: query_failure_def reply_refused_def Let_def)

lemma fetched_reply_cases:
  "qr_error (fetched_reply S rid elapsed d columns rows) = None \<Longrightarrow> reply_within S d (fetched_reply S rid elapsed d columns rows)"
  "qr_error (fetched_reply S rid elapsed d columns rows) = Some c \<Longrightarrow> reply_refused (fetched_reply S rid elapsed d columns rows)"
  by (auto simp: fetched_reply_def Let_def failure_refused reply_within_def)

text \<open>Stated as a lemma first, since the client of the server rests on it.\<close>

lemma service_execute_guarded:
  assumes "service_execute lower upper parse S rid sql w = (out, ev, w')"
  shows "(ev = [] \<or> (\<exists>d st ss. ev = [(or_empty (gn_sql d), sv_millis S)] \<and> parse sql = Parsed ss \<and> [s. Some s \<leftarrow> ss] = [st]
        \<and> admitted lower upper (sv_guard S) st d
        \<and> (\<forall>r. out = Finished r \<and> qr_error r = None \<longrightarrow> reply_within S d r)))
    \<and> (\<forall>r. out = Finished r \<longrightarrow> (if qr_error r = None then ev \<noteq> [] else reply_refused r))"
proof (cases "guard_validate lower upper parse (sv_guard S) sql")
  case None
  then show ?thesis using assms by (auto simp: service_execute_def)
next
  case (Some d)
  show ?thesis
  proof (cases "gn_allowed d")
    case False
    then show ?thesis using assms Some failure_refused by (auto simp: service_execute_def)
  next
    case True
    have run: "ev = [(or_empty (gn_sql d), sv_millis S)] \<and>
        (\<forall>r. out = Finished r \<longrightarrow> (if qr_error r = None then reply_within S d r else reply_refused r))"
      using assms Some True failure_refused fetched_reply_cases
      by (auto simp: service_execute_def Let_def split: exec_outcome.splits prod.splits)
    moreover obtain st ss where "parse sql = Parsed ss" "[s. Some s \<leftarrow> ss] = [st]" "admitted lower upper (sv_guard S) st d"
      using guard_admits [OF Some True] by blast
    ultimately have "\<exists>d st ss. ev = [(or_empty (gn_sql d), sv_millis S)] \<and> parse sql = Parsed ss \<and> [s. Some s \<leftarrow> ss] = [st]
        \<and> admitted lower upper (sv_guard S) st d \<and> (\<forall>r. out = Finished r \<and> qr_error r = None \<longrightarrow> reply_within S d r)"
      by (intro exI [of _ d] exI [of _ st] exI [of _ ss]) simp
    then show ?thesis using run by (auto split: if_splits)
  qed
qed

text \<open>
  C38: Only guarded text reaches the database, at most once per request, and what comes back is bounded.
  Whatever is executed is the rendering, under a LIMIT of at most the configured rows, of the one
  statement the parser gave: a query without locks, INTO, dangerous functions or wildcards outside
  COUNT, over tables that are allowlisted and reported or named like a common table expression, with
  known columns. A result without an error stays within the row and cell limits, and every error carries
  no rows and a refusing audit.
\<close>

theorem safe_query_guarded:
  assumes "service_execute lower upper parse S rid sql w = (out, ev, w')"
  shows "(ev = [] \<or> (\<exists>d st ss. ev = [(or_empty (gn_sql d), sv_millis S)] \<and> parse sql = Parsed ss \<and> [s. Some s \<leftarrow> ss] = [st]
        \<and> admitted lower upper (sv_guard S) st d
        \<and> (\<forall>r. out = Finished r \<and> qr_error r = None \<longrightarrow> reply_within S d r)))
    \<and> (\<forall>r. out = Finished r \<longrightarrow> (if qr_error r = None then ev \<noteq> [] else reply_refused r))"
  using assms by (rule service_execute_guarded)

subsection \<open>A concrete query, and a table the guard does not see\<close>

lemma Nil_eq_lit [simp]: "[] = lit s \<longleftrightarrow> s = []"
  by (cases s) (simp_all add: lit_def)

definition demo_guard :: sql_guard where
  "demo_guard = \<lparr>gd_rows = 10, gd_tables = business_tables\<rparr>"

definition demo_statement :: sql_statement where
  "demo_statement = \<lparr>st_root = QueryRoot, st_selects = [True], st_lock = False, st_into = False, st_functions = [],
     st_ctes = [], st_tables = [\<lparr>tb_db = [], tb_catalog = [], tb_name = lit ''products'', tb_alias = lit ''products''\<rparr>],
     st_stars = [], st_scopes = Some [\<lparr>sp_tables = [\<lparr>tb_db = [], tb_catalog = [], tb_name = lit ''products'', tb_alias = lit ''products''\<rparr>],
       sp_columns = [\<lparr>cl_star = False, cl_name = lit ''sku'', cl_table = []\<rparr>], sp_having = []\<rparr>],
     st_limit = None, st_sql = (\<lambda>_. [115])\<rparr>"

definition demo_decision :: guard_decision where
  "demo_decision = \<lparr>gn_allowed = True, gn_sql = Some [115], gn_code = None, gn_tables = [lit ''products'']\<rparr>"

lemma demo_guard_allows: "guard_statement id id demo_guard demo_statement = Some demo_decision"
  by (simp add: guard_statement_def demo_guard_def demo_statement_def contains_dangerous_function_def system_schemas_def
      business_tables_def columns_ok_def column_ok_def scope_aliases_def dict_of_def apply_or_validate_limit_def
      demo_decision_def Let_def)

definition demo_service :: "unit query_service" where
  "demo_service = \<lparr>sv_guard = demo_guard, sv_execute = (\<lambda>sql ms w. (ExecRows [lit ''sku''] [[DecimalValue [49]]], w)),
     sv_discard = id, sv_elapsed = (\<lambda>_. 0), sv_millis = 5000, sv_wait = 6, sv_rows = 10, sv_cells = 100\<rparr>"

lemma demo_service_run:
  "service_execute id id (\<lambda>_. Parsed [Some demo_statement]) demo_service [] [115] () =
     (Finished (fetched_reply demo_service [] 0 demo_decision [lit ''sku''] [[DecimalValue [49]]]), [([115], 5000)], ())"
proof -
  have n: "\<not> sublist (lit ''into outfile'') [115]" "\<not> sublist (lit ''into dumpfile'') [115]"
    by (simp_all add: lit_def sublist_Cons_right)
  have "guard_validate id id (\<lambda>_. Parsed [Some demo_statement]) demo_guard [115] = Some demo_decision"
    using n by (simp add: guard_validate_def demo_guard_allows)
  then show ?thesis by (simp add: service_execute_def demo_service_def demo_decision_def or_empty_def)
qed

theorem safe_query_guarded_witness:
  "\<exists>d. admitted id id demo_guard demo_statement d
     \<and> reply_within demo_service d (fetched_reply demo_service [] 0 demo_decision [lit ''sku''] [[DecimalValue [49]]])"
proof -
  let ?r = "fetched_reply demo_service [] 0 demo_decision [lit ''sku''] [[DecimalValue [49]]]"
  have "qr_error ?r = None" by (simp add: fetched_reply_def demo_service_def)
  with safe_query_guarded [OF demo_service_run] show ?thesis by (auto simp: demo_service_def)
qed

text \<open>
  A table is skipped when its bare name is the name of any common table expression of the statement, also
  when it is qualified by a schema or lies outside the expression's reach. So
  \<^verbatim>\<open>WITH payroll AS (SELECT sku FROM products) SELECT salary FROM hr.payroll\<close> is admitted.
\<close>

definition shadowed_statement :: sql_statement where
  "shadowed_statement = (let products = \<lparr>tb_db = [], tb_catalog = [], tb_name = lit ''products'', tb_alias = lit ''products''\<rparr>;
      payroll = \<lparr>tb_db = lit ''hr'', tb_catalog = [], tb_name = lit ''payroll'', tb_alias = lit ''payroll''\<rparr>
    in \<lparr>st_root = QueryRoot, st_selects = [True, True], st_lock = False, st_into = False, st_functions = [],
     st_ctes = [lit ''payroll''], st_tables = [payroll, products], st_stars = [],
     st_scopes = Some [\<lparr>sp_tables = [products], sp_columns = [\<lparr>cl_star = False, cl_name = lit ''sku'', cl_table = []\<rparr>], sp_having = []\<rparr>,
       \<lparr>sp_tables = [payroll], sp_columns = [\<lparr>cl_star = False, cl_name = lit ''salary'', cl_table = []\<rparr>], sp_having = []\<rparr>],
     st_limit = None, st_sql = (\<lambda>_. [115])\<rparr>)"

lemma shadowed_table_admitted: "guard_statement id id demo_guard shadowed_statement = Some demo_decision"
  by (simp add: guard_statement_def demo_guard_def shadowed_statement_def contains_dangerous_function_def system_schemas_def
      business_tables_def columns_ok_def column_ok_def scope_aliases_def dict_of_def apply_or_validate_limit_def
      demo_decision_def Let_def)

end
