(* ===== verification/TurnIdentity.thy ===== *)
theory TurnIdentity
  imports Coordinator
begin

section \<open>Requests of the application and the identity of their turns\<close>

text \<open>
  \<^verbatim>\<open>application/models.py\<close> and \<^verbatim>\<open>application/turn_identity.py\<close>. Encoding to UTF-8 is written out: it
  fails on a surrogate. The hash, from bytes to hexadecimal text, is an argument.
\<close>

subsection \<open>Requests and responses\<close>

datatype context_status = ContextNotRequested | ContextEmpty | ContextProjected | ContextOmitted

datatype persistence_status = PersistenceNotRequested | PersistenceSkipped | PersistenceDone
  | PersistenceVersionConflict | PersistenceIdempotencyConflict | PersistenceStoreFailure

datatype summarization_status = SummaryNotRequested | SummarySkipped | SummaryNotNeeded | SummaryCompacted
  | SummaryVersionConflict | SummaryProviderFailure | SummaryStoreFailure

record formal_request =
  fr_id :: pystr
  fr_query :: pystr
  fr_session :: "pystr option"
  fr_security :: "security_context option"

definition optional_session_id :: "pystr option \<Rightarrow> string + pystr option" where
  "optional_session_id v = (case v of
       None \<Rightarrow> Inr None
     | Some s \<Rightarrow> (let normalized = py_strip s in
         if normalized = [] then Inl ''session_id must be non-empty when supplied''
         else if 128 < length normalized then Inl ''session_id exceeds maximum length''
         else if list_ex (\<lambda>c. py_space c \<and> c \<notin> {32, 9}) normalized then Inl ''session_id must not contain control characters''
         else if list_ex (\<lambda>c. c < 32 \<or> c = 127) normalized then Inl ''session_id must not contain control characters''
         else Inr (Some normalized)))"

definition new_formal_request ::
  "pystr \<Rightarrow> pystr \<Rightarrow> pystr option \<Rightarrow> security_context option \<Rightarrow> string + formal_request" where
  "new_formal_request rid query session security =
     (if blank rid \<or> blank query then Inl ''request field must be non-empty''
      else res_bind (optional_session_id session) (\<lambda>session.
        Inr \<lparr>fr_id = rid, fr_query = query, fr_session = session, fr_security = security\<rparr>))"

record formal_response =
  fo_id :: pystr
  fo_result :: coordinator_result
  fo_context :: context_status
  fo_persistence :: persistence_status
  fo_summary :: summarization_status

definition new_formal_response ::
  "pystr \<Rightarrow> coordinator_result \<Rightarrow> context_status \<Rightarrow> persistence_status \<Rightarrow> summarization_status
     \<Rightarrow> formal_response flow_result" where
  "new_formal_response rid result context persistence summary =
     (if rid = [] then FlowThrew
      else Finished \<lparr>fo_id = rid, fo_result = result, fo_context = context, fo_persistence = persistence,
        fo_summary = summary\<rparr>)"

text \<open>A validated session identifier passes the stricter rule of the session scope unchanged.\<close>

lemma session_id_text_ok:
  assumes "new_formal_request rid query session security = Inr q" and "fr_session q = Some sid"
  shows "text_ok sid" and "validate_text sid label = Inr sid"
proof -
  obtain s where s: "sid = py_strip s" "py_strip s \<noteq> []" "\<not> list_ex (\<lambda>c. c < 32 \<or> c = 127) (py_strip s)"
    using assms by (auto simp: new_formal_request_def optional_session_id_def Let_def res_simps split: option.splits if_splits)
  have "\<not> blank sid" using s(2) py_strip_idem [of s] by (simp add: s(1) blank_def)
  then show ok: "text_ok sid" using s by (simp add: text_ok_def control_char_def [abs_def])
  show "validate_text sid label = Inr sid" by (rule validate_text_fix [OF ok])
qed

subsection \<open>UTF-8\<close>

definition utf8_char :: "nat \<Rightarrow> nat list option" where
  "utf8_char c = (if c < 128 then Some [c]
     else if c < 2048 then Some [192 + c div 64, 128 + c mod 64]
     else if 55296 \<le> c \<and> c < 57344 then None
     else if c < 65536 then Some [224 + c div 4096, 128 + c div 64 mod 64, 128 + c mod 64]
     else if c < 1114112 then Some [240 + c div 262144, 128 + c div 4096 mod 64, 128 + c div 64 mod 64, 128 + c mod 64]
     else None)"

fun utf8 :: "pystr \<Rightarrow> nat list option" where
  "utf8 [] = Some []"
| "utf8 (c # s) = (case utf8_char c of None \<Rightarrow> None
     | Some bs \<Rightarrow> (case utf8 s of None \<Rightarrow> None | Some rest \<Rightarrow> Some (bs @ rest)))"

lemma split2: "c div 64 = d div 64 \<Longrightarrow> c mod 64 = d mod 64 \<Longrightarrow> c = (d :: nat)"
  by (metis div_mult_mod_eq)

lemma split3: "c div 4096 = d div 4096 \<Longrightarrow> c div 64 mod 64 = d div 64 mod 64 \<Longrightarrow> c mod 64 = d mod 64 \<Longrightarrow> c = (d :: nat)"
proof (rule split2)
  assume "c div 4096 = d div 4096" "c div 64 mod 64 = d div 64 mod 64"
  moreover have "x div 4096 = x div 64 div 64" for x :: nat by (simp add: div_mult2_eq [symmetric])
  ultimately show "c div 64 = d div 64" using split2 [of "c div 64" "d div 64"] by simp
qed

lemma split4: "c div 262144 = d div 262144 \<Longrightarrow> c div 4096 mod 64 = d div 4096 mod 64 \<Longrightarrow> c div 64 mod 64 = d div 64 mod 64
    \<Longrightarrow> c mod 64 = d mod 64 \<Longrightarrow> c = (d :: nat)"
proof (rule split3)
  assume "c div 262144 = d div 262144" "c div 4096 mod 64 = d div 4096 mod 64"
  moreover have "x div 262144 = x div 4096 div 64" for x :: nat by (simp add: div_mult2_eq [symmetric])
  ultimately show "c div 4096 = d div 4096" using split2 [of "c div 4096" "d div 4096"] by simp
qed

lemma lead_bounds:
  "c < 2048 \<Longrightarrow> c div 64 < (32 :: nat)" "c < 65536 \<Longrightarrow> c div 4096 < (16 :: nat)" "c < 1114112 \<Longrightarrow> c div 262144 < (5 :: nat)"
  by simp_all

lemma utf8_char_prefix_free:
  assumes "utf8_char c = Some bs" and "utf8_char d = Some ds" and "bs @ xs = ds @ ys"
  shows "c = d \<and> xs = ys"
  using assms lead_bounds [of c] lead_bounds [of d]
  by (auto simp: utf8_char_def split: if_splits intro: split2 split3 split4)

lemma utf8_char_not_Nil: "utf8_char c = Some bs \<Longrightarrow> bs \<noteq> []"
  by (auto simp: utf8_char_def split: if_splits)

lemma utf8_inject: "utf8 s = Some bs \<Longrightarrow> utf8 t = Some bs \<Longrightarrow> s = t"
proof (induction s arbitrary: t bs)
  case Nil
  then show ?case by (cases t) (auto split: option.splits dest: utf8_char_not_Nil)
next
  case (Cons c s)
  then obtain b r where b: "utf8_char c = Some b" "utf8 s = Some r" "bs = b @ r" by (auto split: option.splits)
  with Cons.prems(2) obtain d u where t: "t = d # u"
    by (cases t) (auto dest: utf8_char_not_Nil)
  with Cons.prems(2) obtain b' r' where b': "utf8_char d = Some b'" "utf8 u = Some r'" "bs = b' @ r'"
    by (auto split: option.splits)
  with utf8_char_prefix_free [OF b(1) b'(1), of r r'] b(3) have "c = d" "r = r'" by auto
  with Cons.IH [OF b(2)] b'(2) t show ?case by simp
qed

subsection \<open>Turn identifiers\<close>

fun big_endian :: "nat \<Rightarrow> nat \<Rightarrow> nat list" where
  "big_endian 0 n = []"
| "big_endian (Suc k) n = big_endian k (n div 256) @ [n mod 256]"

definition encode_field :: "nat list \<Rightarrow> string + nat list" where
  "encode_field value = (if length value < 2 ^ 64 then Inr (big_endian 8 (length value) @ value) else Inl ''OverflowError'')"

definition turn_payload :: "pystr \<Rightarrow> pystr \<Rightarrow> string + nat list" where
  "turn_payload sid rid =
     res_bind (if blank sid then Inl ''session_id must be non-empty'' else Inr ()) (\<lambda>_.
     res_bind (if blank rid then Inl ''request_id must be non-empty'' else Inr ()) (\<lambda>_.
     res_bind (case utf8 sid of None \<Rightarrow> Inl ''UnicodeEncodeError'' | Some bs \<Rightarrow> Inr bs) (\<lambda>session_bytes.
     res_bind (case utf8 rid of None \<Rightarrow> Inl ''UnicodeEncodeError'' | Some bs \<Rightarrow> Inr bs) (\<lambda>request_bytes.
     res_bind (encode_field session_bytes) (\<lambda>a.
     res_bind (encode_field request_bytes) (\<lambda>b. Inr (lit ''turn-v1'' @ [0] @ a @ b)))))))"

definition derive_turn_id :: "(nat list \<Rightarrow> pystr) \<Rightarrow> pystr \<Rightarrow> pystr \<Rightarrow> string + pystr" where
  "derive_turn_id sha sid rid = res_bind (turn_payload sid rid) (\<lambda>payload. Inr (lit ''turn-v1-'' @ sha payload))"

lemma length_big_endian [simp]: "length (big_endian k n) = k"
  by (induction k arbitrary: n) simp_all

lemma big_endian_inject: "n < 256 ^ k \<Longrightarrow> m < 256 ^ k \<Longrightarrow> big_endian k n = big_endian k m \<Longrightarrow> n = m"
proof (induction k arbitrary: n m)
  case (Suc k)
  then have "big_endian k (n div 256) = big_endian k (m div 256)" "n mod 256 = m mod 256" by auto
  moreover have "n div 256 < 256 ^ k" "m div 256 < 256 ^ k"
    using Suc.prems by (simp_all add: less_mult_imp_div_less mult.commute)
  ultimately show ?case using Suc.IH [of "n div 256" "m div 256"] by (metis div_mult_mod_eq)
qed simp

lemma encode_field_prefix_free:
  assumes "encode_field x = Inr a" and "encode_field y = Inr b" and "a @ xs = b @ ys"
  shows "x = y \<and> xs = ys"
proof -
  have l: "length x < 2 ^ 64" "length y < 2 ^ 64" and
    e: "big_endian 8 (length x) @ x @ xs = big_endian 8 (length y) @ y @ ys"
    using assms by (auto simp: encode_field_def split: if_splits)
  then have "big_endian 8 (length x) = big_endian 8 (length y)" "x @ xs = y @ ys"
    by (simp_all add: append_eq_append_conv)
  moreover have "length x = length y"
    using big_endian_inject [of "length x" 8 "length y"] l calculation(1) by simp
  ultimately show ?thesis by (simp add: append_eq_append_conv)
qed

text \<open>The hashed bytes determine both identifiers.\<close>

lemma turn_payload_inject:
  assumes "turn_payload sid rid = Inr p" and "turn_payload sid' rid' = Inr p"
  shows "sid = sid' \<and> rid = rid'"
proof -
  from assms(1) obtain s r a b where 1: "utf8 sid = Some s" "utf8 rid = Some r" "encode_field s = Inr a" "encode_field r = Inr b"
    "p = lit ''turn-v1'' @ [0] @ a @ b" by (auto simp: turn_payload_def res_simps split: option.splits if_splits)
  from assms(2) obtain s' r' a' b' where 2: "utf8 sid' = Some s'" "utf8 rid' = Some r'" "encode_field s' = Inr a'"
    "encode_field r' = Inr b'" "p = lit ''turn-v1'' @ [0] @ a' @ b'"
    by (auto simp: turn_payload_def res_simps split: option.splits if_splits)
  from 1(5) 2(5) have "a @ b = a' @ b'" by simp
  with encode_field_prefix_free [OF 1(3) 2(3)] have "s = s'" "b = b'" by auto
  moreover from this(2) encode_field_prefix_free [OF 1(4) 2(4), of "[]" "[]"] have "r = r'" by simp
  ultimately show ?thesis using utf8_inject [OF 1(1)] utf8_inject [OF 1(2)] 2(1,2) by blast
qed

lemma derive_turn_id_inject:
  assumes "derive_turn_id sha sid rid = Inr t" and "derive_turn_id sha sid' rid' = Inr t"
    and "\<And>p p'. turn_payload sid rid = Inr p \<Longrightarrow> turn_payload sid' rid' = Inr p' \<Longrightarrow> sha p = sha p' \<Longrightarrow> p = p'"
  shows "sid = sid' \<and> rid = rid'"
proof -
  obtain p p' where "turn_payload sid rid = Inr p" "turn_payload sid' rid' = Inr p'" "sha p = sha p'"
    using assms(1,2) by (auto simp: derive_turn_id_def res_simps)
  with assms(3) turn_payload_inject show ?thesis by metis
qed

end
