(* ===== verification/FormalExecutor.thy ===== *)
theory FormalExecutor
  imports TurnIdentity Governance RollingSummary
begin

section \<open>The request executor\<close>

text \<open>
  \<^verbatim>\<open>application/executor.py\<close>: one request is bound to the session of its principal, read, projected,
  coordinated, persisted, summarized and released. The store and the summary service are operations on a
  state \<open>'st\<close>, which other requests may change inside them; providers, databases and the audit sink are
  the world \<open>'w\<close>. A ghost log keeps what the executor asked of its collaborators.
\<close>

subsection \<open>State and collaborators\<close>

record 'st session_ops =
  so_read :: "pystr \<Rightarrow> 'st \<Rightarrow> (mem_error + session_snapshot) flow_result \<times> 'st"
  so_append :: "session_turn \<Rightarrow> int \<Rightarrow> 'st \<Rightarrow> (mem_error + session_snapshot) flow_result \<times> 'st"

record ('st, 'w, 'r) executor =
  ex_coordinator :: "'w coordinator"
  ex_store :: "'st session_ops option"
  ex_projector :: memory_projector
  ex_summary :: "(pystr \<Rightarrow> session_snapshot \<Rightarrow> 'st \<Rightarrow> (mem_error + summary_outcome) flow_result \<times> 'st) option"
  ex_policy :: "auth_policy option"
  ex_session_scope :: "security_context \<Rightarrow> security_failure + security_event"
  ex_governance :: "('w, 'r) governance option"
  ex_count :: "'w \<Rightarrow> nat"
  ex_sha :: "pystr \<Rightarrow> pystr"
  ex_turn_sha :: "nat list \<Rightarrow> pystr"

text \<open>\<open>ex_count\<close> reads the provider calls of the bound request off the world the coordinator leaves.\<close>

datatype exec_event = ReadSession pystr | Coordinated request "flow_call list" | AppendedTurn session_turn int
  | SummarizedSession pystr session_snapshot

record ('st, 'w) exec_state =
  xs_store :: 'st
  xs_world :: 'w
  xs_log :: "exec_event list"

text \<open>The readings of the clocks: when the coordinator starts and when a new turn is built.\<close>

record moment =
  mo_created :: int
  mo_now :: pytime

subsection \<open>Authorization of the request\<close>

definition security_denial :: "('st, 'w, 'r) executor \<Rightarrow> formal_request \<Rightarrow> sec_error option" where
  "security_denial X q = (case ex_policy X of
       None \<Rightarrow> None
     | Some P \<Rightarrow> (case fr_security q of
           None \<Rightarrow> Some Unauthenticated
         | Some c \<Rightarrow>
             if sc_request_id c \<noteq> fr_id q then Some SecurityContextInvalid
             else if blank (p_tenant_id (sc_principal c)) then Some TenantContextMissing else None))"

definition bind_session_scope ::
  "('st, 'w, 'r) executor \<Rightarrow> formal_request \<Rightarrow> string + (formal_request \<times> sec_error option)" where
  "bind_session_scope X q = (case (ex_policy X, fr_session q) of
       (Some P, Some sid) \<Rightarrow> (case fr_security q of
           None \<Rightarrow> Inr (q, Some SecurityContextInvalid)
         | Some c \<Rightarrow> (case res_bind (ex_session_scope X c) (\<lambda>_. scoped_session_key (ex_sha X) c sid) of
               Inl (Denied code) \<Rightarrow> Inr (q, Some code)
             | Inl (SecInvalid e) \<Rightarrow> Inl e
             | Inr key \<Rightarrow> Inr (q\<lparr>fr_session := Some key\<rparr>, None)))
     | _ \<Rightarrow> Inr (q, None))"

definition failed_result :: "string \<Rightarrow> pystr \<Rightarrow> coordinator_result" where
  "failed_result step code = \<lparr>co_status = CoordFailed, co_route = None, co_skill = None, co_answer = None,
     co_citations = [], co_steps = [lit step], co_tool_steps = [], co_error = Some code, co_memory = False\<rparr>"

definition authorization_failure :: "formal_request \<Rightarrow> sec_error \<Rightarrow> formal_response flow_result" where
  "authorization_failure q code = new_formal_response (fr_id q) (failed_result ''authorize_request'' (sec_code code))
     ContextNotRequested PersistenceNotRequested SummaryNotRequested"

subsection \<open>Coordination\<close>

text \<open>An error code as the audit event takes it; what is not ASCII fails its pattern as the replacement does.\<close>

definition code_text :: "pystr \<Rightarrow> string" where
  "code_text = map (\<lambda>c. if c < 128 then char_of c else CHR ''?'')"

definition coordinator_request ::
  "('st, 'w, 'r) executor \<Rightarrow> moment \<Rightarrow> formal_request \<Rightarrow> memory_projection option \<Rightarrow> request" where
  "coordinator_request X m q memory = \<lparr>rq_query = fr_query q, rq_id = fr_id q, rq_created = mo_created m,
     rq_memory = memory, rq_security = (if ex_policy X = None then None else fr_security q), rq_policy = ex_policy X\<rparr>"

definition run_coordinator ::
  "('st, 'w, 'r) executor \<Rightarrow> request \<Rightarrow> ('st, 'w) exec_state
     \<Rightarrow> coordinator_result flow_result \<times> ('st, 'w) exec_state" where
  "run_coordinator X rq s = (case coord_execute (ex_coordinator X) rq (xs_world s) of
     (r, calls, w) \<Rightarrow> (r, s\<lparr>xs_world := w, xs_log := xs_log s @ [Coordinated rq calls]\<rparr>))"

text \<open>An audit event on the world, with the provider calls counted so far.\<close>

definition audit_world ::
  "('w, 'r) governance \<Rightarrow> request_context \<Rightarrow> audit_event_type \<Rightarrow> audit_outcome \<Rightarrow> string option \<Rightarrow> nat
     \<Rightarrow> ('st, 'w) exec_state \<Rightarrow> (gov_error + unit) \<times> ('st, 'w) exec_state" where
  "audit_world G ctx kind outcome code calls s =
     (case gov_audit G (Some ctx) kind outcome code \<lparr>gs_count = calls, gs_sink = xs_world s\<rparr> of
        (r, g, _) \<Rightarrow> (r, s\<lparr>xs_world := gs_sink g\<rparr>))"

definition execute_coordinator ::
  "('st, 'w, 'r) executor \<Rightarrow> moment \<Rightarrow> formal_request \<Rightarrow> memory_projection option \<Rightarrow> ('st, 'w) exec_state
     \<Rightarrow> coordinator_result flow_result \<times> ('st, 'w) exec_state" where
  "execute_coordinator X m q memory s =
     (let rq = coordinator_request X m q memory
      in if ex_policy X \<noteq> None \<and> fr_security q = None then (FlowThrew, s)
         else (case ex_governance X of
             None \<Rightarrow> if ex_policy X \<noteq> None then (FlowThrew, s) else run_coordinator X rq s
           | Some G \<Rightarrow> (case fr_security q of
                 None \<Rightarrow> (FlowThrew, s)
               | Some c \<Rightarrow> (case bind_request (ex_sha X) G (fr_id q) (sc_trace_id c) c of
                     Inl _ \<Rightarrow> (FlowThrew, s)
                   | Inr ctx \<Rightarrow> (case audit_world G ctx WorkflowStarted OutStarted None 0 s of
                         (Inl _, s) \<Rightarrow> (FlowThrew, s)
                       | (Inr _, s) \<Rightarrow> (case run_coordinator X rq s of
                             (Finished r, s) \<Rightarrow>
                               (let completed = (co_status r = CoordCompleted)
                                in case audit_world G ctx (if completed then WorkflowCompleted else WorkflowFailed)
                                     (if completed then OutCompleted else OutFailed)
                                     (if completed then None else map_option code_text (co_error r)) (ex_count X (xs_world s)) s of
                                   (Inl _, s) \<Rightarrow> (FlowThrew, s)
                                 | (Inr _, s) \<Rightarrow> (Finished r, s))
                           | (other, s) \<Rightarrow> (other, s)))))))"

subsection \<open>Persistence and summary\<close>

text \<open>The turn of an answer; missing when one of its parts cannot be built.\<close>

definition turn_of_answer ::
  "('st, 'w, 'r) executor \<Rightarrow> moment \<Rightarrow> formal_request \<Rightarrow> pystr \<Rightarrow> pystr \<Rightarrow> session_snapshot \<Rightarrow> session_turn option" where
  "turn_of_answer X m q sid answer snapshot =
     (case derive_turn_id (ex_turn_sha X) sid (fr_id q) of
        Inl _ \<Rightarrow> None
      | Inr tid \<Rightarrow>
          (let created = (case find (\<lambda>t. t_turn_id t = tid) (sn_turns snapshot) of
               None \<Rightarrow> mo_now m | Some t \<Rightarrow> Aware (t_created_at t))
           in case new_session_turn sid tid (fr_id q) (fr_query q) answer created of Inl _ \<Rightarrow> None | Inr t \<Rightarrow> Some t))"

definition append_status :: "mem_error \<Rightarrow> persistence_status" where
  "append_status e = (case e of VersionConflict _ _ _ \<Rightarrow> PersistenceVersionConflict
     | TurnConflict _ _ _ \<Rightarrow> PersistenceIdempotencyConflict | _ \<Rightarrow> PersistenceStoreFailure)"

definition storable_answer :: "coordinator_result \<Rightarrow> pystr option" where
  "storable_answer r = (if co_status r \<noteq> CoordCompleted then None
     else (case co_answer r of None \<Rightarrow> None | Some a \<Rightarrow> if blank a then None else Some a))"

definition persist_turn ::
  "('st, 'w, 'r) executor \<Rightarrow> 'st session_ops \<Rightarrow> moment \<Rightarrow> formal_request \<Rightarrow> pystr \<Rightarrow> coordinator_result \<Rightarrow> session_snapshot
     \<Rightarrow> ('st, 'w) exec_state \<Rightarrow> (persistence_status \<times> session_snapshot option) flow_result \<times> ('st, 'w) exec_state" where
  "persist_turn X S m q sid result snapshot s = (case storable_answer result of
       None \<Rightarrow> (Finished (PersistenceSkipped, None), s)
     | Some answer \<Rightarrow> (case turn_of_answer X m q sid answer snapshot of
           None \<Rightarrow> (Finished (PersistenceStoreFailure, None), s)
         | Some turn \<Rightarrow> (case so_append S turn (sn_version snapshot) (xs_store s) of
             (r, st) \<Rightarrow>
               ((case r of
                   Finished (Inr post) \<Rightarrow> Finished (PersistenceDone, Some post)
                 | Finished (Inl e) \<Rightarrow> Finished (append_status e, None)
                 | FlowThrew \<Rightarrow> Finished (PersistenceStoreFailure, None)
                 | FlowCancelled \<Rightarrow> FlowCancelled),
                s\<lparr>xs_store := st, xs_log := xs_log s @ [AppendedTurn turn (sn_version snapshot)]\<rparr>))))"

definition summary_failure :: "mem_error \<Rightarrow> summarization_status" where
  "summary_failure e = (case e of VersionConflict _ _ _ \<Rightarrow> SummaryVersionConflict
     | GenerationFailed _ \<Rightarrow> SummaryProviderFailure | OutputInvalid _ \<Rightarrow> SummaryProviderFailure
     | _ \<Rightarrow> SummaryStoreFailure)"

definition summarize_turn ::
  "('st, 'w, 'r) executor \<Rightarrow> pystr \<Rightarrow> persistence_status \<Rightarrow> session_snapshot option \<Rightarrow> ('st, 'w) exec_state
     \<Rightarrow> summarization_status flow_result \<times> ('st, 'w) exec_state" where
  "summarize_turn X sid status post s =
     (if status \<noteq> PersistenceDone then (Finished SummarySkipped, s)
      else (case ex_summary X of
          None \<Rightarrow> (Finished SummaryNotRequested, s)
        | Some service \<Rightarrow> (case post of
              None \<Rightarrow> (FlowThrew, s)
            | Some snapshot \<Rightarrow> (case service sid snapshot (xs_store s) of
                (r, st) \<Rightarrow>
                  ((case r of
                      Finished (Inr outcome) \<Rightarrow>
                        Finished (if oc_status outcome = NotRequired then SummaryNotNeeded else SummaryCompacted)
                    | Finished (Inl e) \<Rightarrow> Finished (summary_failure e)
                    | FlowThrew \<Rightarrow> Finished SummaryStoreFailure
                    | FlowCancelled \<Rightarrow> FlowCancelled),
                   s\<lparr>xs_store := st, xs_log := xs_log s @ [SummarizedSession sid snapshot]\<rparr>)))))"

subsection \<open>The request\<close>

definition memory_status :: "session_snapshot \<Rightarrow> memory_projection option \<Rightarrow> coordinator_result \<Rightarrow> context_status" where
  "memory_status snapshot projection result = (case projection of
       None \<Rightarrow> if sn_summary snapshot = None \<and> sn_turns snapshot = [] then ContextEmpty else ContextOmitted
     | Some _ \<Rightarrow> if co_memory result then ContextProjected else ContextOmitted)"

definition finish_with_memory ::
  "('st, 'w, 'r) executor \<Rightarrow> 'st session_ops \<Rightarrow> moment \<Rightarrow> formal_request \<Rightarrow> pystr \<Rightarrow> session_snapshot
     \<Rightarrow> memory_projection option \<Rightarrow> coordinator_result \<Rightarrow> ('st, 'w) exec_state
     \<Rightarrow> formal_response flow_result \<times> ('st, 'w) exec_state" where
  "finish_with_memory X S m q sid snapshot projection result s =
     (case persist_turn X S m q sid result snapshot s of
        (FlowCancelled, s) \<Rightarrow> (FlowCancelled, s)
      | (FlowThrew, s) \<Rightarrow> (FlowThrew, s)
      | (Finished (status, post), s) \<Rightarrow> (case summarize_turn X sid status post s of
            (FlowCancelled, s) \<Rightarrow> (FlowCancelled, s)
          | (FlowThrew, s) \<Rightarrow> (FlowThrew, s)
          | (Finished summary, s) \<Rightarrow>
              (new_formal_response (fr_id q) result (memory_status snapshot projection result) status summary, s)))"

definition execute_with_memory ::
  "('st, 'w, 'r) executor \<Rightarrow> 'st session_ops \<Rightarrow> moment \<Rightarrow> formal_request \<Rightarrow> pystr \<Rightarrow> ('st, 'w) exec_state
     \<Rightarrow> formal_response flow_result \<times> ('st, 'w) exec_state" where
  "execute_with_memory X S m q sid s =
     (case so_read S sid (xs_store s) of
        (r, st) \<Rightarrow> (let s = s\<lparr>xs_store := st, xs_log := xs_log s @ [ReadSession sid]\<rparr>
          in (case r of
              FlowCancelled \<Rightarrow> (FlowCancelled, s)
            | FlowThrew \<Rightarrow> (FlowThrew, s)
            | Finished (Inl _) \<Rightarrow> (FlowThrew, s)
            | Finished (Inr snapshot) \<Rightarrow> (case project_memory (ex_projector X) snapshot of
                  Inl _ \<Rightarrow> (FlowThrew, s)
                | Inr projection \<Rightarrow> (case execute_coordinator X m q projection s of
                      (FlowCancelled, s) \<Rightarrow> (FlowCancelled, s)
                    | (FlowThrew, s) \<Rightarrow> (FlowThrew, s)
                    | (Finished result, s) \<Rightarrow> finish_with_memory X S m q sid snapshot projection result s)))))"

definition execute_without_memory ::
  "('st, 'w, 'r) executor \<Rightarrow> moment \<Rightarrow> formal_request \<Rightarrow> ('st, 'w) exec_state
     \<Rightarrow> formal_response flow_result \<times> ('st, 'w) exec_state" where
  "execute_without_memory X m q s = (case execute_coordinator X m q None s of
       (FlowCancelled, s) \<Rightarrow> (FlowCancelled, s)
     | (FlowThrew, s) \<Rightarrow> (FlowThrew, s)
     | (Finished result, s) \<Rightarrow> (new_formal_response (fr_id q) result ContextNotRequested PersistenceNotRequested
         SummaryNotRequested, s))"

definition release_blocked :: "formal_request \<Rightarrow> formal_response flow_result" where
  "release_blocked q = new_formal_response (fr_id q) (failed_result ''response_release'' (lit ''response_release_blocked''))
     ContextNotRequested PersistenceNotRequested SummaryNotRequested"

definition releasable :: "coordinator_result \<Rightarrow> bool" where
  "releasable r \<longleftrightarrow> co_status r = CoordCompleted \<and> co_answer r \<noteq> None \<and> co_citations r \<noteq> []"

definition release_response ::
  "('st, 'w, 'r) executor \<Rightarrow> formal_request \<Rightarrow> formal_response \<Rightarrow> ('st, 'w) exec_state
     \<Rightarrow> formal_response flow_result \<times> ('st, 'w) exec_state" where
  "release_response X q response s = (case (ex_governance X, fr_security q) of
       (Some G, Some c) \<Rightarrow>
         (let allowed = releasable (fo_result response)
          in case gov_audit_for_request (ex_sha X) G (fr_id q) (sc_trace_id c) c
               (if allowed then ResponseReleaseAllowed else ResponseReleaseBlocked)
               (if allowed then OutAllowed else OutBlocked)
               (if allowed then None else Some ''response_release_blocked'') (xs_world s) of
             (Inl _, g, _) \<Rightarrow> (release_blocked q, s\<lparr>xs_world := gs_sink g\<rparr>)
           | (Inr _, g, _) \<Rightarrow> (if allowed then Finished response else release_blocked q, s\<lparr>xs_world := gs_sink g\<rparr>))
     | _ \<Rightarrow> (Finished response, s))"

definition execute_business ::
  "('st, 'w, 'r) executor \<Rightarrow> moment \<Rightarrow> formal_request \<Rightarrow> ('st, 'w) exec_state
     \<Rightarrow> formal_response flow_result \<times> ('st, 'w) exec_state" where
  "execute_business X m q s = (case bind_session_scope X q of
       Inl _ \<Rightarrow> (FlowThrew, s)
     | Inr (scoped, scope_denial) \<Rightarrow>
         (case (case security_denial X q of None \<Rightarrow> scope_denial | Some d \<Rightarrow> Some d) of
            Some denial \<Rightarrow> (authorization_failure q denial, s)
          | None \<Rightarrow> (case (fr_session scoped, ex_store X) of
                (Some sid, Some S) \<Rightarrow> execute_with_memory X S m scoped sid s
              | _ \<Rightarrow> execute_without_memory X m scoped s)))"

definition formal_execute ::
  "('st, 'w, 'r) executor \<Rightarrow> moment \<Rightarrow> formal_request \<Rightarrow> ('st, 'w) exec_state
     \<Rightarrow> formal_response flow_result \<times> ('st, 'w) exec_state" where
  "formal_execute X m q s = (case execute_business X m q s of
       (Finished response, s) \<Rightarrow> release_response X q response s
     | (other, s) \<Rightarrow> (other, s))"

subsection \<open>What a request asks of its collaborators\<close>

definition event_rank :: "exec_event \<Rightarrow> nat" where
  "event_rank e = (case e of ReadSession _ \<Rightarrow> 0 | Coordinated _ _ \<Rightarrow> 1 | AppendedTurn _ _ \<Rightarrow> 2 | SummarizedSession _ _ \<Rightarrow> 3)"

text \<open>The calls of a request on the session \<open>key\<close>: each at most once, in this order, about this request only.\<close>

definition event_ok :: "('st, 'w, 'r) executor \<Rightarrow> formal_request \<Rightarrow> pystr option \<Rightarrow> exec_event \<Rightarrow> bool" where
  "event_ok X q key e = (case e of
       ReadSession k \<Rightarrow> key = Some k
     | Coordinated rq calls \<Rightarrow> rq_query rq = fr_query q \<and> rq_id rq = fr_id q \<and> rq_policy rq = ex_policy X
         \<and> (ex_policy X \<noteq> None \<longrightarrow> rq_security rq = fr_security q \<and> fr_security q \<noteq> None \<and> ex_governance X \<noteq> None)
     | AppendedTurn t v \<Rightarrow> key = Some (t_session_id t) \<and> t_request_id t = fr_id q \<and> t_user_text t = fr_query q
     | SummarizedSession k n \<Rightarrow> key = Some k)"

definition log_ok :: "('st, 'w, 'r) executor \<Rightarrow> formal_request \<Rightarrow> pystr option \<Rightarrow> nat \<Rightarrow> exec_event list \<Rightarrow> bool" where
  "log_ok X q key n es \<longleftrightarrow> sorted_wrt (<) (map event_rank es) \<and> list_all (event_ok X q key) es \<and> (\<forall>e \<in> set es. event_rank e < n)"

lemma log_ok_Nil [simp]: "log_ok X q key n []"
  by (simp add: log_ok_def)

lemma log_ok_mono: "log_ok X q key n es \<Longrightarrow> n \<le> k \<Longrightarrow> log_ok X q key k es"
  by (auto simp: log_ok_def)

lemma log_ok_snoc: "log_ok X q key n es \<Longrightarrow> event_ok X q key e \<Longrightarrow> n \<le> event_rank e \<Longrightarrow> event_rank e < k \<Longrightarrow> log_ok X q key k (es @ [e])"
  by (auto simp: log_ok_def sorted_wrt_append)

lemma audit_world_frame:
  "audit_world G ctx kind outcome code n s = (r, s') \<Longrightarrow> xs_store s' = xs_store s \<and> xs_log s' = xs_log s"
  by (auto simp: audit_world_def split: prod.splits)

lemma execute_coordinator_log:
  assumes "execute_coordinator X m q memory s = (r, s')" and "log_ok X q key 1 (xs_log s)"
  shows "xs_store s' = xs_store s \<and> log_ok X q key 2 (xs_log s')"
proof -
  have ok: "log_ok X q key 2 (xs_log s @ [Coordinated (coordinator_request X m q memory) calls])"
    if "ex_policy X \<noteq> None \<Longrightarrow> fr_security q \<noteq> None \<and> ex_governance X \<noteq> None" for calls
    by (rule log_ok_snoc [OF assms(2)]) (use that in \<open>auto simp: event_ok_def event_rank_def coordinator_request_def\<close>)
  have keep: "log_ok X q key 2 (xs_log s)" by (rule log_ok_mono [OF assms(2)]) simp
  show ?thesis
    using assms(1) ok keep
    by (auto simp: execute_coordinator_def Let_def run_coordinator_def dest!: audit_world_frame
        split: if_splits option.splits sum.splits prod.splits flow_result.splits)
qed

lemma turn_of_answer_Some:
  "turn_of_answer X m q sid answer snapshot = Some t \<Longrightarrow>
     t_session_id t = sid \<and> t_request_id t = fr_id q \<and> t_user_text t = fr_query q \<and> t_assistant_text t = answer \<and> turn_wf t
     \<and> derive_turn_id (ex_turn_sha X) sid (fr_id q) = Inr (t_turn_id t)"
  by (auto simp: turn_of_answer_def new_session_turn_def turn_wf_def Let_def res_simps split: sum.splits)

lemma persist_turn_log:
  assumes "persist_turn X S m q sid result snapshot s = (r, s')" and "log_ok X q (Some sid) 2 (xs_log s)"
  shows "log_ok X q (Some sid) 3 (xs_log s')"
proof -
  have "log_ok X q (Some sid) 3 (xs_log s @ [AppendedTurn t v])"
    if "turn_of_answer X m q sid a snapshot = Some t" for t a v
    by (rule log_ok_snoc [OF assms(2)]) (use turn_of_answer_Some [OF that] in \<open>simp_all add: event_ok_def event_rank_def\<close>)
  moreover have "log_ok X q (Some sid) 3 (xs_log s)" by (rule log_ok_mono [OF assms(2)]) simp
  ultimately show ?thesis
    using assms(1) by (auto simp: persist_turn_def split: option.splits prod.splits)
qed

lemma summarize_turn_log:
  assumes "summarize_turn X sid status post s = (r, s')" and "log_ok X q (Some sid) 3 (xs_log s)"
  shows "log_ok X q (Some sid) 4 (xs_log s')"
proof -
  have "log_ok X q (Some sid) 4 (xs_log s @ [SummarizedSession sid n])" for n
    by (rule log_ok_snoc [OF assms(2)]) (simp_all add: event_ok_def event_rank_def)
  moreover have "log_ok X q (Some sid) 4 (xs_log s)" by (rule log_ok_mono [OF assms(2)]) simp
  ultimately show ?thesis
    using assms(1) by (auto simp: summarize_turn_def split: option.splits prod.splits if_splits)
qed

text \<open>The log only grows.\<close>

lemma execute_coordinator_ne: "execute_coordinator X m q memory s = (r, s') \<Longrightarrow> xs_log s \<noteq> [] \<Longrightarrow> xs_log s' \<noteq> []"
  by (auto simp: execute_coordinator_def Let_def run_coordinator_def dest!: audit_world_frame
      split: if_splits option.splits sum.splits prod.splits flow_result.splits)

lemma finish_with_memory_ne:
  "finish_with_memory X S m q sid snapshot projection result s = (r, s') \<Longrightarrow> xs_log s \<noteq> [] \<Longrightarrow> xs_log s' \<noteq> []"
  by (auto simp: finish_with_memory_def persist_turn_def summarize_turn_def
      split: if_splits option.splits prod.splits flow_result.splits)

lemma finish_with_memory_log:
  assumes "finish_with_memory X S m q sid snapshot projection result s = (r, s')" and "log_ok X q (Some sid) 2 (xs_log s)"
  shows "log_ok X q (Some sid) 4 (xs_log s')"
proof -
  obtain p s1 where p: "persist_turn X S m q sid result snapshot s = (p, s1)" by fastforce
  note l = persist_turn_log [OF p assms(2)]
  have l4: "log_ok X q (Some sid) 4 (xs_log s1)" by (rule log_ok_mono [OF l]) simp
  show ?thesis
  proof (cases p)
    case (Finished x)
    obtain status post where x: "x = (status, post)" by fastforce
    obtain u s2 where u: "summarize_turn X sid status post s1 = (u, s2)" by fastforce
    from summarize_turn_log [OF u l] assms(1) show ?thesis
      by (auto simp: finish_with_memory_def p Finished x u split: flow_result.splits)
  qed (use assms(1) l4 in \<open>auto simp: finish_with_memory_def p\<close>)
qed

lemma execute_with_memory_log:
  assumes "execute_with_memory X S m q sid s = (r, s')" and "xs_log s = []"
  shows "log_ok X q (Some sid) 4 (xs_log s') \<and> xs_log s' \<noteq> []"
proof -
  obtain a st where a: "so_read S sid (xs_store s) = (a, st)" by fastforce
  let ?s = "s\<lparr>xs_store := st, xs_log := [ReadSession sid]\<rparr>"
  have one: "log_ok X q (Some sid) 1 (xs_log ?s)" by (simp add: log_ok_def event_ok_def event_rank_def)
  have four: "log_ok X q (Some sid) 4 (xs_log ?s)" by (rule log_ok_mono [OF one]) simp
  show ?thesis
  proof (cases "\<exists>n p. a = Finished (Inr n) \<and> project_memory (ex_projector X) n = Inr p")
    case False
    then show ?thesis using assms(1) four
      by (auto simp: execute_with_memory_def a assms(2) Let_def split: flow_result.splits sum.splits)
  next
    case True
    then obtain n p where n: "a = Finished (Inr n)" "project_memory (ex_projector X) n = Inr p" by blast
    obtain b s1 where b: "execute_coordinator X m q p ?s = (b, s1)" by fastforce
    note l = execute_coordinator_log [OF b one]
    have l4: "log_ok X q (Some sid) 4 (xs_log s1)" by (rule log_ok_mono [OF conjunct2 [OF l]]) simp
    have ne1: "xs_log s1 \<noteq> []" using execute_coordinator_ne [OF b] by simp
    show ?thesis
    proof (cases b)
      case (Finished result)
      then have "finish_with_memory X S m q sid n p result s1 = (r, s')"
        using assms(1) by (simp add: execute_with_memory_def a n assms(2) b)
      with finish_with_memory_log [OF this conjunct2 [OF l]] finish_with_memory_ne [OF this ne1] show ?thesis by simp
    qed (use assms(1) l4 ne1 in \<open>auto simp: execute_with_memory_def a n assms(2) b\<close>)
  qed
qed

lemma release_response_frame:
  "release_response X q response s = (r, s') \<Longrightarrow> xs_store s' = xs_store s \<and> xs_log s' = xs_log s"
  by (auto simp: release_response_def Let_def split: option.splits prod.splits sum.splits if_splits)

lemma event_ok_session [simp]: "event_ok X (q\<lparr>fr_session := k\<rparr>) = event_ok X q"
  by (auto simp: fun_eq_iff event_ok_def split: exec_event.splits)

lemma log_ok_session [simp]: "log_ok X (q\<lparr>fr_session := k\<rparr>) = log_ok X q"
  by (auto simp: fun_eq_iff log_ok_def)

text \<open>What holds of the scope a request was bound to.\<close>

lemma bind_session_scope_Inr:
  assumes "bind_session_scope X q = Inr (scoped, None)" and "ex_policy X = Some P"
    and "ex_session_scope X = require_session_scope (ex_sha X)"
  shows "scoped = q\<lparr>fr_session := fr_session scoped\<rparr>"
    and "fr_session scoped = Some k \<Longrightarrow> \<exists>c sid scope. fr_security q = Some c \<and> fr_session q = Some sid
      \<and> sc_session_scope c = Some scope \<and> ss_tenant_id scope = p_tenant_id (sc_principal c)
      \<and> ss_subject_id scope = p_subject_id (sc_principal c) \<and> k = ex_sha X (session_key_text scope (py_strip sid))"
proof -
  show "scoped = q\<lparr>fr_session := fr_session scoped\<rparr>"
    using assms by (auto simp: bind_session_scope_def split: option.splits sum.splits security_failure.splits)
  assume k: "fr_session scoped = Some k"
  then obtain c sid e where c: "fr_session q = Some sid" "fr_security q = Some c"
    "require_session_scope (ex_sha X) c = Inr e" "scoped_session_key (ex_sha X) c sid = Inr k"
    using assms by (auto simp: bind_session_scope_def res_simps split: option.splits sum.splits security_failure.splits)
  with require_session_scope_Inr [OF c(3)] scoped_session_key_Inr [OF c(4)]
  show "\<exists>c sid scope. fr_security q = Some c \<and> fr_session q = Some sid
      \<and> sc_session_scope c = Some scope \<and> ss_tenant_id scope = p_tenant_id (sc_principal c)
      \<and> ss_subject_id scope = p_subject_id (sc_principal c) \<and> k = ex_sha X (session_key_text scope (py_strip sid))"
    by auto
qed

lemma security_denial_None:
  "security_denial X q = None \<Longrightarrow> ex_policy X = Some P \<Longrightarrow>
     \<exists>c. fr_security q = Some c \<and> sc_request_id c = fr_id q \<and> \<not> blank (p_tenant_id (sc_principal c))"
  by (auto simp: security_denial_def split: option.splits if_splits)

lemma execute_without_memory_log:
  assumes "execute_without_memory X m q s = (r, s')" and "xs_log s = []"
  shows "log_ok X q key 4 (xs_log s') \<and> xs_store s' = xs_store s"
proof -
  obtain b s1 where b: "execute_coordinator X m q None s = (b, s1)" by fastforce
  have "log_ok X q key 1 (xs_log s)" by (simp add: assms(2))
  note l = execute_coordinator_log [OF b this]
  have "log_ok X q key 4 (xs_log s1)" by (rule log_ok_mono [OF conjunct2 [OF l]]) simp
  then show ?thesis using l assms(1) by (auto simp: execute_without_memory_def b split: flow_result.splits)
qed

lemma execute_business_log:
  assumes "execute_business X m q s = (r, s')" and "xs_log s = []" and "ex_policy X = Some P"
    and "ex_session_scope X = require_session_scope (ex_sha X)"
  shows "\<exists>key. log_ok X q key 4 (xs_log s') \<and> (xs_log s' = [] \<longrightarrow> xs_store s' = xs_store s)
    \<and> (xs_log s' \<noteq> [] \<longrightarrow> security_denial X q = None)
    \<and> (\<forall>k. key = Some k \<longrightarrow> (\<exists>c sid scope. fr_security q = Some c \<and> fr_session q = Some sid
      \<and> sc_session_scope c = Some scope \<and> ss_tenant_id scope = p_tenant_id (sc_principal c)
      \<and> ss_subject_id scope = p_subject_id (sc_principal c) \<and> k = ex_sha X (session_key_text scope (py_strip sid))))"
proof (cases "\<exists>scoped. bind_session_scope X q = Inr (scoped, None) \<and> security_denial X q = None")
  case False
  then have "s' = s" using assms(1)
    by (auto simp: execute_business_def split: sum.splits option.splits)
  then show ?thesis by (intro exI [of _ None]) (simp add: assms(2))
next
  case True
  then obtain scoped where b: "bind_session_scope X q = Inr (scoped, None)" and d: "security_denial X q = None" by blast
  note scope = bind_session_scope_Inr [OF b assms(3,4)]
  have lo: "log_ok X scoped = log_ok X q" by (subst scope(1)) simp
  have run: "r = r \<and> (case (fr_session scoped, ex_store X) of
      (Some sid, Some S) \<Rightarrow> execute_with_memory X S m scoped sid s = (r, s')
    | _ \<Rightarrow> execute_without_memory X m scoped s = (r, s'))"
    using assms(1) by (simp add: execute_business_def b d split: option.splits)
  show ?thesis
  proof (cases "fr_session scoped \<noteq> None \<and> ex_store X \<noteq> None")
    case True
    then obtain sid S where "fr_session scoped = Some sid" "execute_with_memory X S m scoped sid s = (r, s')"
      using run by auto
    with execute_with_memory_log [OF this(2) assms(2)] scope(2) lo d show ?thesis
      by (intro exI [of _ "Some sid"]) simp
  next
    case False
    then have "execute_without_memory X m scoped s = (r, s')" using run by (auto split: option.splits)
    from execute_without_memory_log [OF this assms(2)] lo d show ?thesis by (intro exI [of _ None]) auto
  qed
qed

text \<open>
  C1: Behind an authorization policy a request reaches its collaborators only for its own principal. It
  reads, coordinates, appends and summarizes at most once each and in this order; every session key it
  touches is the hash of the tenant and subject of the request's own session scope, which are those of
  its principal; the coordinator sees the request's own identifier, query, policy and security context,
  and only under governance; a stored turn carries the request's own identifier and query. A request
  without a context of its own identifier and tenant changes no session and asks nothing.
\<close>

theorem formal_request_isolated:
  assumes "formal_execute X m q s = (out, s')" and "xs_log s = []" and "ex_policy X = Some P"
    and "ex_session_scope X = require_session_scope (ex_sha X)"
  shows "\<exists>key. log_ok X q key 4 (xs_log s')
    \<and> (xs_log s' = [] \<longrightarrow> xs_store s' = xs_store s)
    \<and> (xs_log s' \<noteq> [] \<longrightarrow> (\<exists>c. fr_security q = Some c \<and> sc_request_id c = fr_id q \<and> \<not> blank (p_tenant_id (sc_principal c))))
    \<and> (\<forall>k. key = Some k \<longrightarrow> (\<exists>c sid scope. fr_security q = Some c \<and> fr_session q = Some sid
      \<and> sc_session_scope c = Some scope \<and> ss_tenant_id scope = p_tenant_id (sc_principal c)
      \<and> ss_subject_id scope = p_subject_id (sc_principal c) \<and> k = ex_sha X (session_key_text scope (py_strip sid))))"
proof -
  obtain r s1 where r: "execute_business X m q s = (r, s1)" by fastforce
  have "xs_store s' = xs_store s1 \<and> xs_log s' = xs_log s1"
    using assms(1) by (auto simp: formal_execute_def r dest: release_response_frame split: flow_result.splits)
  with execute_business_log [OF r assms(2-4)] security_denial_None [OF _ assms(3), of q] show ?thesis by metis
qed

subsection \<open>Release\<close>

lemma gov_audit_for_request_Inr:
  assumes "gov_audit_for_request sha G rid tid c kind outcome code w = (Inr x, g, fx)"
  shows "\<exists>app e y. gv_append G = Some app \<and> app e w = (Inr y, gs_sink g) \<and> ae_event_type e = kind \<and> ae_request_id e = rid
    \<and> ae_outcome e = outcome"
proof -
  let ?st = "\<lparr>gs_count = 0, gs_sink = w\<rparr>"
  obtain ctx where ctx: "bind_request sha G rid tid c = Inr ctx" "gov_audit G (Some ctx) kind outcome code ?st = (Inr x, g, fx)"
    using assms by (auto simp: gov_audit_for_request_def split: sum.splits)
  have e: "rc_request_id ctx = rid" using ctx(1) by (auto simp: bind_request_def split: option.splits if_splits)
  define ev where "ev = gov_event G ctx ?st kind outcome None None None code"
  have f: "ae_event_type ev = kind" "ae_request_id ev = rid" "ae_outcome ev = outcome"
    by (simp_all add: ev_def gov_event_def Let_def e split: prod.splits)
  have "gov_append G ev ?st = (Inr x, g, fx)" "gv_append G \<noteq> None"
    using ctx(2) by (auto simp: gov_audit_def ev_def split: if_splits)
  then obtain app y where "gv_append G = Some app" "app ev w = (Inr y, gs_sink g)"
    by (auto simp: gov_append_def split: if_splits prod.splits sum.splits)
  with f show ?thesis by blast
qed

lemma release_blocked_Finished: "release_blocked q = Finished r \<Longrightarrow>
    co_status (fo_result r) = CoordFailed \<and> co_answer (fo_result r) = None \<and> co_citations (fo_result r) = []
    \<and> co_error (fo_result r) = Some (lit ''response_release_blocked'')"
  by (auto simp: release_blocked_def new_formal_response_def failed_result_def split: if_splits)

text \<open>
  C2: Under governance an answer leaves only with citations and after its release event is durable: what
  a request returns either is a completed result with an answer and citations whose release was the
  last thing appended to the sink, or carries no answer and no citations and the blocked code.
\<close>

theorem formal_release_audited:
  assumes "formal_execute X m q s = (Finished r, s')" and "ex_governance X = Some G" and "fr_security q = Some c"
  shows "(releasable (fo_result r) \<and> (\<exists>app e w y. gv_append G = Some app \<and> app e w = (Inr y, xs_world s')
        \<and> ae_event_type e = ResponseReleaseAllowed \<and> ae_outcome e = OutAllowed \<and> ae_request_id e = fr_id q))
    \<or> (co_status (fo_result r) = CoordFailed \<and> co_answer (fo_result r) = None \<and> co_citations (fo_result r) = []
        \<and> co_error (fo_result r) = Some (lit ''response_release_blocked''))"
proof -
  obtain r1 s1 where "release_response X q r1 s1 = (Finished r, s')"
    using assms(1) by (auto simp: formal_execute_def split: prod.splits flow_result.splits)
  then show ?thesis
    using assms(2,3)
    by (auto simp: release_response_def Let_def dest!: gov_audit_for_request_Inr release_blocked_Finished
        split: prod.splits sum.splits if_splits) metis+
qed

subsection \<open>Persistence is truthful\<close>

text \<open>A store whose operations return or raise one of the memory errors.\<close>

definition plain_ops ::
  "(pystr \<Rightarrow> 'st \<Rightarrow> (mem_error + session_snapshot) \<times> 'st) \<Rightarrow> (session_turn \<Rightarrow> int \<Rightarrow> 'st \<Rightarrow> (mem_error + session_snapshot) \<times> 'st)
     \<Rightarrow> 'st session_ops" where
  "plain_ops read_op append_op = \<lparr>so_read = (\<lambda>k st. case read_op k st of (r, st) \<Rightarrow> (Finished r, st)),
     so_append = (\<lambda>t v st. case append_op t v st of (r, st) \<Rightarrow> (Finished r, st))\<rparr>"

text \<open>What a persistence status says of the sessions before and after.\<close>

definition status_truthful ::
  "('st, 'w, 'r) executor \<Rightarrow> moment \<Rightarrow> formal_request \<Rightarrow> pystr \<Rightarrow> coordinator_result \<Rightarrow> session_snapshot
     \<Rightarrow> (pystr \<Rightarrow> sess_view) \<Rightarrow> (pystr \<Rightarrow> sess_view) \<Rightarrow> persistence_status \<Rightarrow> session_snapshot option \<Rightarrow> bool" where
  "status_truthful X m q sid result snapshot before after status post = (case status of
       PersistenceDone \<Rightarrow> (\<exists>t n. post = Some n \<and> snapshot_view n = after sid \<and> t \<in> set (sn_turns n)
         \<and> t_session_id t = sid \<and> t_request_id t = fr_id q \<and> t_user_text t = fr_query q
         \<and> storable_answer result = Some (t_assistant_text t) \<and> (\<forall>i. i \<noteq> sid \<longrightarrow> after i = before i)
         \<and> (if t \<in> set (v_turns (before sid)) then after sid = before sid else sn_version snapshot = v_version (before sid)))
     | PersistenceSkipped \<Rightarrow> storable_answer result = None \<and> after = before
     | PersistenceVersionConflict \<Rightarrow> sn_version snapshot \<noteq> v_version (before sid) \<and> after = before
     | PersistenceIdempotencyConflict \<Rightarrow> after = before \<and> (\<exists>d \<in> set (v_turns (before sid)). \<exists>a. storable_answer result = Some a
         \<and> turn_of_answer X m q sid a snapshot \<noteq> Some d
         \<and> (t_request_id d = fr_id q \<or> derive_turn_id (ex_turn_sha X) sid (fr_id q) = Inr (t_turn_id d)))
     | PersistenceStoreFailure \<Rightarrow> after = before
     | PersistenceNotRequested \<Rightarrow> False)"

text \<open>The answer of this request is already a turn of the session.\<close>

definition already_stored ::
  "('st, 'w, 'r) executor \<Rightarrow> formal_request \<Rightarrow> pystr \<Rightarrow> coordinator_result \<Rightarrow> session_turn list \<Rightarrow> bool" where
  "already_stored X q sid result turns \<longleftrightarrow> (\<exists>d \<in> set turns. derive_turn_id (ex_turn_sha X) sid (fr_id q) = Inr (t_turn_id d)
     \<and> t_request_id d = fr_id q \<and> t_user_text d = fr_query q \<and> storable_answer result = Some (t_assistant_text d))"

lemma already_stored_turn:
  assumes "already_stored X q sid result (sn_turns n)" and "view_wf limit sid (snapshot_view n)"
  shows "\<exists>d a. d \<in> set (sn_turns n) \<and> storable_answer result = Some a \<and> turn_of_answer X m q sid a n = Some d"
proof -
  obtain d where d: "d \<in> set (sn_turns n)" "derive_turn_id (ex_turn_sha X) sid (fr_id q) = Inr (t_turn_id d)"
    "t_request_id d = fr_id q" "t_user_text d = fr_query q" "storable_answer result = Some (t_assistant_text d)"
    using assms(1) by (auto simp: already_stored_def)
  have wf: "distinct (map t_turn_id (sn_turns n))" "turn_wf d" "t_session_id d = sid"
    using assms(2) d(1) by (auto simp: view_wf_def)
  obtain e where e: "find (\<lambda>t. t_turn_id t = t_turn_id d) (sn_turns n) = Some e"
    using d(1) by (cases "find (\<lambda>t. t_turn_id t = t_turn_id d) (sn_turns n)") (auto simp: find_None_iff)
  then have "e \<in> set (sn_turns n)" "t_turn_id e = t_turn_id d" by (auto simp: find_Some_iff)
  then have "e = d" using wf(1) d(1) by (simp add: distinct_map inj_on_def)
  with e d wf(2,3) have "turn_of_answer X m q sid (t_assistant_text d) n = Some d"
    by (cases d) (auto simp: turn_of_answer_def new_session_turn_def turn_wf_def normalize_utc_def)
  with d show ?thesis by blast
qed

context session_store
begin

lemma append_cases:
  assumes "inv st" and "turn_wf t" and "0 \<le> v" and "append now t v st = (r, st')"
  shows "case r of
      Inl e \<Rightarrow> (\<forall>i. view now i st' = view now i st) \<and> view_append limit (t_session_id t) (view now (t_session_id t) st) t v = Inl e
    | Inr n \<Rightarrow> (\<forall>i. i \<noteq> t_session_id t \<longrightarrow> view now i st' = view now i st) \<and> snapshot_view n = view now (t_session_id t) st'
        \<and> view_append limit (t_session_id t) (view now (t_session_id t) st) t v = Inr (snapshot_view n)"
  using append_ok [OF assms(1-3), of now] assms(4)
  by (cases "view_append limit (t_session_id t) (view now (t_session_id t) st) t v") auto

lemma persist_truthful:
  assumes "inv (xs_store s)" and "0 \<le> sn_version n"
    and "persist_turn X (plain_ops (read now) (append now)) m q sid result n s = (r, s')"
  shows "\<exists>status post. r = Finished (status, post)
    \<and> status_truthful X m q sid result n (\<lambda>i. view now i (xs_store s)) (\<lambda>i. view now i (xs_store s')) status post
    \<and> (snapshot_view n = view now sid (xs_store s) \<and> already_stored X q sid result (sn_turns n) \<longrightarrow>
        status = PersistenceDone \<and> (\<forall>i. view now i (xs_store s') = view now i (xs_store s)))"
proof (cases "\<exists>a t. storable_answer result = Some a \<and> turn_of_answer X m q sid a n = Some t")
  case False
  have none: "\<not> (snapshot_view n = view now sid (xs_store s) \<and> already_stored X q sid result (sn_turns n))"
  proof
    assume a: "snapshot_view n = view now sid (xs_store s) \<and> already_stored X q sid result (sn_turns n)"
    have "view_wf limit sid (snapshot_view n)" using view_wf [OF assms(1)] a by simp
    from already_stored_turn [OF conjunct2 [OF a] this, of m] False show False by blast
  qed
  show ?thesis
  proof (cases "storable_answer result")
    case None
    then have "r = Finished (PersistenceSkipped, None)" "s' = s" using assms(3) by (simp_all add: persist_turn_def)
    with None none show ?thesis by (simp add: status_truthful_def)
  next
    case (Some a)
    with False have "turn_of_answer X m q sid a n = None" by (cases "turn_of_answer X m q sid a n") auto
    then have "r = Finished (PersistenceStoreFailure, None)" "s' = s" using assms(3) Some by (simp_all add: persist_turn_def)
    with none show ?thesis by (simp add: status_truthful_def)
  qed
next
  case True
  then obtain a t where a: "storable_answer result = Some a" and t: "turn_of_answer X m q sid a n = Some t" by blast
  note tf = turn_of_answer_Some [OF t]
  obtain x st where x: "append now t (sn_version n) (xs_store s) = (x, st)" by fastforce
  have s': "xs_store s' = st" and r: "r = (case x of Inr post \<Rightarrow> Finished (PersistenceDone, Some post)
      | Inl e \<Rightarrow> Finished (append_status e, None))"
    using assms(3) by (auto simp: persist_turn_def a t plain_ops_def x split: sum.splits)
  have wf: "turn_wf t" "t_session_id t = sid" using tf by simp_all
  note c = append_cases [OF assms(1) wf(1) assms(2) x, unfolded wf(2)]
  show ?thesis
  proof (cases x)
    case (Inl e)
    have v: "view now i st = view now i (xs_store s)" for i using c Inl by simp
    have va: "view_append limit sid (view now sid (xs_store s)) t (sn_version n) = Inl e" using c Inl by simp
    show ?thesis
    proof (cases "matching_turn (v_turns (view now sid (xs_store s))) t")
      case None
      then have e: "e = VersionConflict sid (sn_version n) (v_version (view now sid (xs_store s)))"
        "sn_version n \<noteq> v_version (view now sid (xs_store s))"
        using va by (auto simp: view_append_def split: if_splits)
      then have "snapshot_view n \<noteq> view now sid (xs_store s)" by (metis snapshot_view_sel(1))
      with e v show ?thesis by (simp add: r Inl s' append_status_def status_truthful_def)
    next
      case (Some d)
      then have e: "e = TurnConflict sid (t_turn_id t) (t_request_id t)" and dt: "d \<noteq> t"
        using va by (auto simp: view_append_def split: if_splits)
      have d: "d \<in> set (v_turns (view now sid (xs_store s)))" "t_turn_id d = t_turn_id t \<or> t_request_id d = t_request_id t"
        using matching_turn_SomeD [OF Some] by auto
      have none: "\<not> (snapshot_view n = view now sid (xs_store s) \<and> already_stored X q sid result (sn_turns n))"
      proof
        assume as: "snapshot_view n = view now sid (xs_store s) \<and> already_stored X q sid result (sn_turns n)"
        have vw: "view_wf limit sid (snapshot_view n)" using view_wf [OF assms(1)] as by simp
        obtain d' where d': "d' \<in> set (sn_turns n)" "d' = t"
          using already_stored_turn [OF conjunct2 [OF as] vw, of m] a t by auto
        have "d \<in> set (sn_turns n)" using d(1) as by (metis snapshot_view_sel(2))
        with d' d(2) vw have "d = t" by (auto simp: view_wf_def distinct_map inj_on_def)
        with dt show False by simp
      qed
      have "t_request_id d = fr_id q \<or> derive_turn_id (ex_turn_sha X) sid (fr_id q) = Inr (t_turn_id d)"
        using d(2) tf by auto
      with d(1) a t dt have "\<exists>d \<in> set (v_turns (view now sid (xs_store s))). \<exists>a. storable_answer result = Some a
         \<and> turn_of_answer X m q sid a n \<noteq> Some d
         \<and> (t_request_id d = fr_id q \<or> derive_turn_id (ex_turn_sha X) sid (fr_id q) = Inr (t_turn_id d))"
        by (intro bexI [of _ d] exI [of _ a]) auto
      then have "status_truthful X m q sid result n (\<lambda>i. view now i (xs_store s)) (\<lambda>i. view now i st) PersistenceIdempotencyConflict None"
        using v by (simp add: status_truthful_def)
      with none show ?thesis by (auto simp: r Inl s' e append_status_def)
    qed
  next
    case (Inr post)
    have v: "\<forall>i. i \<noteq> sid \<longrightarrow> view now i st = view now i (xs_store s)" "snapshot_view post = view now sid st"
      and va: "view_append limit sid (view now sid (xs_store s)) t (sn_version n) = Inr (snapshot_view post)"
      using c Inr by auto
    have after: "t \<in> set (sn_turns post) \<and> (if t \<in> set (v_turns (view now sid (xs_store s))) then view now sid st = view now sid (xs_store s)
        else sn_version n = v_version (view now sid (xs_store s)))"
    proof (cases "matching_turn (v_turns (view now sid (xs_store s))) t")
      case None
      then have q: "sn_version n = v_version (view now sid (xs_store s))"
        "snapshot_view post = (view now sid (xs_store s))\<lparr>v_version := v_version (view now sid (xs_store s)) + 1,
           v_turns := take_last limit (v_turns (view now sid (xs_store s)) @ [t])\<rparr>"
        using va by (auto simp: view_append_def split: if_splits)
      have p: "sn_version n = v_version (view now sid (xs_store s))"
        "sn_turns post = take_last limit (v_turns (view now sid (xs_store s)) @ [t])"
        using q(1) arg_cong [OF q(2), of v_turns] by simp_all
      have "last (sn_turns post) = t" "sn_turns post \<noteq> []"
        using p(2) limit_pos last_take_last [of limit "v_turns (view now sid (xs_store s)) @ [t]"]
        by (auto simp: take_last_def)
      moreover have "t \<notin> set (v_turns (view now sid (xs_store s)))" using None by (auto simp: matching_turn_None_iff)
      ultimately show ?thesis using p(1) by (metis last_in_set)
    next
      case (Some d)
      then have d: "d = t" "snapshot_view post = view now sid (xs_store s)"
        using va by (auto simp: view_append_def split: if_splits)
      have "t \<in> set (v_turns (view now sid (xs_store s)))" using matching_turn_SomeD [OF Some] d(1) by simp
      with d(2) v(2) show ?thesis by (metis snapshot_view_sel(2))
    qed
    have same: "view now sid st = view now sid (xs_store s)"
      if as: "snapshot_view n = view now sid (xs_store s) \<and> already_stored X q sid result (sn_turns n)"
    proof -
      have vw: "view_wf limit sid (snapshot_view n)" using view_wf [OF assms(1)] as by simp
      have "t \<in> set (sn_turns n)" using already_stored_turn [OF conjunct2 [OF as] vw, of m] a t by auto
      then have "t \<in> set (v_turns (view now sid (xs_store s)))" using as by (metis snapshot_view_sel(2))
      with after show ?thesis by simp
    qed
    have "status_truthful X m q sid result n (\<lambda>i. view now i (xs_store s)) (\<lambda>i. view now i st) PersistenceDone (Some post)"
      unfolding status_truthful_def using after v tf a
      by (simp, intro exI [of _ t]) auto
    with same v show ?thesis by (auto simp: r Inr s')
  qed
qed

end


subsection \<open>Composition\<close>

text \<open>\<^verbatim>\<open>application/runtime.py\<close>: which store and which summary service an executor is built with.\<close>

datatype memory_mode = MemoryDisabled | MemoryInMemory | MemoryProvided

record ('s, 'z) memory_config =
  mc_mode :: memory_mode
  mc_store :: "'s option"
  mc_policy :: "memory_policy option"
  mc_summarizer :: "'z option"
  mc_summary_policy :: "summary_policy option"

datatype 's store_choice = NoStore | FreshStore memory_policy | GivenStore 's

definition resolve_store :: "('s, 'z) memory_config \<Rightarrow> string + 's store_choice" where
  "resolve_store C = (case mc_mode C of
       MemoryDisabled \<Rightarrow>
         if mc_store C \<noteq> None then Inl ''runtime_memory_store_not_allowed''
         else if mc_policy C \<noteq> None then Inl ''runtime_memory_policy_not_allowed'' else Inr NoStore
     | MemoryInMemory \<Rightarrow>
         if mc_store C \<noteq> None then Inl ''runtime_memory_store_not_allowed''
         else Inr (FreshStore (case mc_policy C of None \<Rightarrow> default_memory_policy | Some P \<Rightarrow> P))
     | MemoryProvided \<Rightarrow>
         if mc_policy C \<noteq> None then Inl ''runtime_memory_policy_not_allowed''
         else (case mc_store C of None \<Rightarrow> Inl ''runtime_memory_store_required'' | Some s \<Rightarrow> Inr (GivenStore s)))"

definition build_summary_service :: "('s, 'z) memory_config \<Rightarrow> 's store_choice \<Rightarrow> string + ('z \<times> summary_policy) option" where
  "build_summary_service C store = (case mc_summarizer C of
       None \<Rightarrow> if mc_summary_policy C \<noteq> None then Inl ''runtime_summary_policy_requires_summarizer'' else Inr None
     | Some z \<Rightarrow>
         if store = NoStore then Inl ''runtime_summary_requires_memory_store''
         else Inr (Some (z, case mc_summary_policy C of None \<Rightarrow> default_summary_policy | Some Q \<Rightarrow> Q)))"

definition build_memory :: "('s, 'z) memory_config option \<Rightarrow> string + ('s store_choice \<times> ('z \<times> summary_policy) option)" where
  "build_memory memory = (let C = (case memory of
       None \<Rightarrow> \<lparr>mc_mode = MemoryDisabled, mc_store = None, mc_policy = None, mc_summarizer = None, mc_summary_policy = None\<rparr>
     | Some C \<Rightarrow> C)
     in res_bind (resolve_store C) (\<lambda>store. res_bind (build_summary_service C store) (\<lambda>service. Inr (store, service))))"

text \<open>Every part of an accepted configuration is used: nothing the caller supplied is dropped silently.\<close>

lemma build_memory_uses_everything:
  assumes "build_memory (Some C) = Inr (store, service)"
  shows "(mc_store C \<noteq> None \<longleftrightarrow> (\<exists>s. store = GivenStore s)) \<and> (\<forall>P. mc_policy C = Some P \<longrightarrow> store = FreshStore P)
    \<and> (mc_summarizer C = None \<longleftrightarrow> service = None) \<and> (service \<noteq> None \<longrightarrow> store \<noteq> NoStore)
    \<and> (\<forall>Q. mc_summary_policy C = Some Q \<longrightarrow> (\<exists>z. service = Some (z, Q)))"
  using assms
  by (auto simp: build_memory_def resolve_store_def build_summary_service_def Let_def res_simps
      split: memory_mode.splits option.splits if_splits)

subsection \<open>A concrete request\<close>

definition demo_key :: pystr where
  "demo_key = lit ''aaaaaaaaaaaaaaaa''"

definition demo_release_gov :: "(nat, pystr) governance" where
  "demo_release_gov = \<lparr>gv_policy = Some controlled_mixed, gv_append = Some (\<lambda>e w. (Inr e, w)), gv_redactor = Some demo_rules,
     gv_transport = (\<lambda>_. TRaised), gv_size = (\<lambda>_. 0), gv_text = (\<lambda>s. s), gv_fresh = (\<lambda>w. (lit ''e'', 0))\<rparr>"

definition demo_executor :: "(mem_store, nat, pystr) executor" where
  "demo_executor = \<lparr>ex_coordinator = demo_coordinator,
     ex_store = Some (plain_ops (mem_read (Aware 0)) (mem_append_turn default_memory_policy (Aware 0) (Aware 0))),
     ex_projector = \<lparr>pr_estimate = estimate_tokens, pr_allowance = 1800\<rparr>, ex_summary = None,
     ex_policy = Some grants_policy, ex_session_scope = require_session_scope (\<lambda>s. demo_key),
     ex_governance = Some demo_release_gov, ex_count = (\<lambda>_. 1), ex_sha = (\<lambda>s. demo_key), ex_turn_sha = (\<lambda>_. lit ''h'')\<rparr>"

definition demo_formal :: formal_request where
  "demo_formal = \<lparr>fr_id = lit ''1'', fr_query = lit ''q'', fr_session = Some (lit ''s''), fr_security = Some demo_full_grants\<rparr>"

definition demo_moment :: moment where
  "demo_moment = \<lparr>mo_created = 0, mo_now = Aware 0\<rparr>"

definition demo_stored :: session_turn where
  "demo_stored = \<lparr>t_session_id = demo_key, t_turn_id = lit ''turn-v1-h'', t_request_id = lit ''1'', t_user_text = lit ''q'',
     t_assistant_text = [97], t_created_at = 0\<rparr>"

lemma demo_bound: "bind_session_scope demo_executor demo_formal = Inr (demo_formal\<lparr>fr_session := Some demo_key\<rparr>, None)"
  by (simp add: bind_session_scope_def demo_executor_def demo_formal_def require_session_scope_def scope_event_def
      demo_full_grants_def demo_grants_def demo_context_def demo_principal_def demo_scope_def scoped_session_key_def
      validate_text_def py_strip_def py_space_def lit_def control_char_def)

lemma demo_not_denied: "security_denial demo_executor demo_formal = None"
  by (simp add: security_denial_def demo_executor_def demo_formal_def demo_full_grants_def demo_grants_def demo_context_def
      demo_principal_def lit_def py_space_def)

lemma demo_audit:
  "bind_request (\<lambda>s. demo_key) demo_release_gov (lit ''1'') (sc_trace_id demo_full_grants) demo_full_grants = Inr ctx \<Longrightarrow>
     kind_code = None \<or> kind_code = Some ''response_release_blocked'' \<Longrightarrow> n \<le> 1 \<Longrightarrow>
     gov_audit demo_release_gov (Some ctx) kind outcome kind_code \<lparr>gs_count = n, gs_sink = w\<rparr> =
       (Inr (), \<lparr>gs_count = n, gs_sink = w\<rparr>, [Audited (gov_event demo_release_gov ctx \<lparr>gs_count = n, gs_sink = w\<rparr> kind outcome None None None kind_code)])"
  by (auto simp: gov_audit_def gov_append_def demo_release_gov_def bind_request_def gov_event_def audit_event_ok_def
      controlled_mixed_def demo_key_def principal_name_def demo_full_grants_def demo_grants_def demo_context_def demo_principal_def)

lemma demo_bind_request:
  "\<exists>ctx. bind_request (\<lambda>s. demo_key) demo_release_gov (lit ''1'') (sc_trace_id demo_full_grants) demo_full_grants = Inr ctx"
  by (simp add: bind_request_def demo_release_gov_def)

definition demo_begin :: "(mem_store, nat) exec_state" where
  "demo_begin = \<lparr>xs_store = Map.empty, xs_world = 0, xs_log = []\<rparr>"

definition demo_empty :: session_snapshot where
  "demo_empty = \<lparr>sn_session_id = demo_key, sn_version = 0, sn_turns = [], sn_summary = None, sn_expires_at = None\<rparr>"

lemma demo_key_ok [simp]: "\<not> blank demo_key" "demo_key \<noteq> []"
  by (simp_all add: demo_key_def lit_def py_space_def)

lemma demo_read_empty: "mem_read (Aware 0) demo_key Map.empty = (Inr demo_empty, Map.empty)"
  by (simp add: mem_read_def validate_session_id_def live_session_def snapshot_of_def new_session_snapshot_def demo_empty_def)

abbreviation demo_scoped :: formal_request where
  "demo_scoped \<equiv> demo_formal\<lparr>fr_session := Some demo_key\<rparr>"

lemma demo_turn_built: "turn_of_answer demo_executor demo_moment demo_scoped demo_key [97] demo_empty = Some demo_stored"
  by (simp add: turn_of_answer_def derive_turn_id_def turn_payload_def demo_executor_def demo_formal_def demo_empty_def
      demo_moment_def new_session_turn_def normalize_utc_def demo_stored_def encode_field_def utf8_char_def py_space_def)
    (simp add: demo_key_def utf8_char_def lit_def py_space_def new_session_turn_def normalize_utc_def)

lemma demo_append_stored:
  "\<exists>post S. mem_append_turn default_memory_policy (Aware 0) (Aware 0) demo_stored 0 Map.empty = (Inr post, S)"
  by (simp add: mem_append_turn_def validate_expected_version_def live_session_def stored_turns_def stored_version_def
      commit_session_def clock_now_def snapshot_of_def new_session_snapshot_def stored_summary_def demo_stored_def Let_def)

lemma demo_persist:
  assumes "xs_store s = Map.empty"
  shows "\<exists>post s'. persist_turn demo_executor (plain_ops (mem_read (Aware 0)) (mem_append_turn default_memory_policy (Aware 0) (Aware 0)))
      demo_moment demo_scoped demo_key demo_answer demo_empty s = (Finished (PersistenceDone, Some post), s')
      \<and> xs_world s' = xs_world s \<and> xs_log s' = xs_log s @ [AppendedTurn demo_stored 0]"
proof -
  obtain post S where "mem_append_turn default_memory_policy (Aware 0) (Aware 0) demo_stored 0 Map.empty = (Inr post, S)"
    using demo_append_stored by blast
  moreover have "storable_answer demo_answer = Some [97]" "sn_version demo_empty = 0"
    by (simp_all add: storable_answer_def demo_answer_def py_space_def demo_empty_def)
  ultimately show ?thesis by (simp add: persist_turn_def demo_turn_built plain_ops_def assms)
qed

lemma demo_coordinated:
  "\<exists>calls s'. execute_coordinator demo_executor demo_moment demo_scoped None \<lparr>xs_store = Map.empty, xs_world = 0, xs_log = es\<rparr> =
     (Finished demo_answer, s') \<and> xs_store s' = Map.empty \<and> xs_log s' = es @ [Coordinated Coordinator.demo_request calls]"
proof -
  obtain ctx where ctx: "bind_request (\<lambda>s. demo_key) demo_release_gov (lit ''1'') (sc_trace_id demo_full_grants) demo_full_grants = Inr ctx"
    using demo_bind_request by blast
  have au: "audit_world demo_release_gov ctx kind outcome None n s = (Inr (), s)" if "n \<le> 1" for kind outcome n and s :: "(mem_store, nat) exec_state"
    using that demo_audit [OF ctx, of None n kind outcome "xs_world s"] by (simp add: audit_world_def)
  have rq: "coordinator_request demo_executor demo_moment demo_scoped None = Coordinator.demo_request"
    by (simp add: coordinator_request_def demo_executor_def demo_moment_def demo_formal_def Coordinator.demo_request_def)
  have ex: "ex_policy demo_executor = Some grants_policy" "ex_governance demo_executor = Some demo_release_gov"
    "ex_sha demo_executor = (\<lambda>s. demo_key)" "ex_coordinator demo_executor = demo_coordinator" "ex_count demo_executor = (\<lambda>_. 1)"
    "fr_security demo_scoped = Some demo_full_grants" "fr_id demo_scoped = lit ''1''"
    by (simp_all add: demo_executor_def demo_formal_def)
  obtain calls w where "coord_execute demo_coordinator Coordinator.demo_request 0 = (Finished demo_answer, calls, w)"
    using demo_coord_run by blast
  moreover have "co_status demo_answer = CoordCompleted" by (simp add: demo_answer_def)
  ultimately show ?thesis
    by (simp add: execute_coordinator_def rq ex ctx au run_coordinator_def)
qed

lemma demo_business:
  "\<exists>r s' calls. execute_business demo_executor demo_moment demo_formal demo_begin = (Finished r, s') \<and> fo_result r = demo_answer
     \<and> fo_persistence r = PersistenceDone
     \<and> xs_log s' = [ReadSession demo_key, Coordinated Coordinator.demo_request calls, AppendedTurn demo_stored 0]"
proof -
  let ?ops = "plain_ops (mem_read (Aware 0)) (mem_append_turn default_memory_policy (Aware 0) (Aware 0))"
  have ex: "ex_store demo_executor = Some ?ops" "ex_summary demo_executor = None" by (simp_all add: demo_executor_def)
  have pr: "project_memory (ex_projector demo_executor) demo_empty = Inr None"
    by (simp add: project_memory_def demo_empty_def)
  have rd: "so_read ?ops demo_key Map.empty = (Finished (Inr demo_empty), Map.empty)" by (simp add: plain_ops_def demo_read_empty)
  obtain calls s1 where c: "execute_coordinator demo_executor demo_moment demo_scoped None
      \<lparr>xs_store = Map.empty, xs_world = 0, xs_log = [ReadSession demo_key]\<rparr> = (Finished demo_answer, s1)"
    "xs_store s1 = Map.empty" "xs_log s1 = [ReadSession demo_key, Coordinated Coordinator.demo_request calls]"
    using demo_coordinated [of "[ReadSession demo_key]"] by auto
  obtain post s2 where p: "persist_turn demo_executor ?ops demo_moment demo_scoped demo_key demo_answer demo_empty s1 =
      (Finished (PersistenceDone, Some post), s2)" "xs_log s2 = xs_log s1 @ [AppendedTurn demo_stored 0]"
    using demo_persist [OF c(2)] by blast
  show ?thesis
    by (simp add: execute_business_def demo_bound demo_not_denied ex execute_with_memory_def demo_begin_def rd pr c(1)
        finish_with_memory_def p summarize_turn_def new_formal_response_def)
      (simp add: demo_formal_def c(3))
qed

lemma demo_formal_run:
  "\<exists>r s' calls. formal_execute demo_executor demo_moment demo_formal demo_begin = (Finished r, s') \<and> fo_result r = demo_answer
     \<and> xs_log s' = [ReadSession demo_key, Coordinated Coordinator.demo_request calls, AppendedTurn demo_stored 0]"
proof -
  obtain r s1 calls where b: "execute_business demo_executor demo_moment demo_formal demo_begin = (Finished r, s1)" "fo_result r = demo_answer"
    "xs_log s1 = [ReadSession demo_key, Coordinated Coordinator.demo_request calls, AppendedTurn demo_stored 0]"
    using demo_business by blast
  obtain ctx where ctx: "bind_request (\<lambda>s. demo_key) demo_release_gov (lit ''1'') (sc_trace_id demo_full_grants) demo_full_grants = Inr ctx"
    using demo_bind_request by blast
  have ex: "ex_governance demo_executor = Some demo_release_gov" "ex_sha demo_executor = (\<lambda>s. demo_key)"
    "fr_security demo_formal = Some demo_full_grants" "fr_id demo_formal = lit ''1''"
    by (simp_all add: demo_executor_def demo_formal_def)
  have "releasable demo_answer" by (simp add: releasable_def demo_answer_def)
  then have "release_response demo_executor demo_formal r s1 = (Finished r, s1)"
    using b(2) demo_audit [OF ctx, of None 0] by (simp add: release_response_def ex gov_audit_for_request_def ctx)
  with b show ?thesis by (simp add: formal_execute_def)
qed

theorem formal_request_isolated_witness:
  "\<exists>s' scope sid. xs_log (s' :: (mem_store, nat) exec_state) \<noteq> [] \<and> sc_session_scope demo_full_grants = Some scope
     \<and> fr_session demo_formal = Some sid \<and> ss_tenant_id scope = p_tenant_id (sc_principal demo_full_grants)
     \<and> ReadSession (ex_sha demo_executor (session_key_text scope (py_strip sid))) \<in> set (xs_log s')"
proof -
  obtain r s' calls where b: "formal_execute demo_executor demo_moment demo_formal demo_begin = (Finished r, s')"
    "xs_log s' = [ReadSession demo_key, Coordinated Coordinator.demo_request calls, AppendedTurn demo_stored 0]"
    using demo_formal_run by blast
  have "xs_log demo_begin = []" "ex_policy demo_executor = Some grants_policy" "fr_security demo_formal = Some demo_full_grants"
    "ex_session_scope demo_executor = require_session_scope (ex_sha demo_executor)"
    by (simp_all add: demo_begin_def demo_executor_def demo_formal_def)
  with formal_request_isolated [OF b(1)] b(2) show ?thesis
    by (intro exI [of _ s']) (auto simp: log_ok_def event_ok_def)
qed

theorem formal_release_audited_witness:
  "\<exists>r s'. formal_execute demo_executor demo_moment demo_formal demo_begin = (Finished r, s') \<and> releasable (fo_result r)
     \<and> (\<exists>app e w y. gv_append demo_release_gov = Some app \<and> app e w = (Inr y, xs_world s')
        \<and> ae_event_type e = ResponseReleaseAllowed \<and> ae_request_id e = lit ''1'')"
proof -
  obtain r s' calls where b: "formal_execute demo_executor demo_moment demo_formal demo_begin = (Finished r, s')" "fo_result r = demo_answer"
    using demo_formal_run by blast
  have "ex_governance demo_executor = Some demo_release_gov" "fr_security demo_formal = Some demo_full_grants" "fr_id demo_formal = lit ''1''"
    "co_status demo_answer \<noteq> CoordFailed" by (simp_all add: demo_executor_def demo_formal_def demo_answer_def)
  with formal_release_audited [OF b(1) this(1,2)] b show ?thesis by auto
qed


text \<open>
  The turn is stored before its release is decided: when the release is blocked, because its audit
  fails or the answer has no citations, the answer is withheld and the response says that nothing was
  persisted, but the session keeps the turn and later requests see it.
\<close>

lemma withheld_answer_persisted:
  assumes "execute_business X m q s = (Finished r, s1)" and "fo_persistence r = PersistenceDone"
    and "ex_governance X = Some G" and "fr_security q = Some c" and "fr_id q \<noteq> []" and "\<not> releasable (fo_result r)"
  shows "\<exists>r' s'. formal_execute X m q s = (Finished r', s') \<and> fo_persistence r' = PersistenceNotRequested
    \<and> co_answer (fo_result r') = None \<and> xs_store s' = xs_store s1"
  using assms
  by (auto simp: formal_execute_def release_response_def release_blocked_def new_formal_response_def failed_result_def
      split: prod.splits sum.splits)

end
