(* ===== verification/LexicalIndex.thy ===== *)
theory LexicalIndex
  imports RankFusion
begin

section \<open>Retrieval: the tokenizer and the BM25 index\<close>

text \<open>
  \<^verbatim>\<open>retrieval/tokenization.py\<close> and \<^verbatim>\<open>retrieval/bm25.py\<close>. The NFKC normalization followed by lowering is the
  argument \<open>fold_text\<close>. Numbers are treated as in RankFusion: each float operation is the exact one
  followed by \<open>rnd\<close>; \<open>flog\<close> is the logarithm of the platform. A \<^verbatim>\<open>Counter\<close> is a total function, zero for
  a missing key. The number of a failed check is its message without the interpolated identifiers.
\<close>

subsection \<open>Tokens\<close>

definition ascii_alnum :: "nat \<Rightarrow> bool" where
  "ascii_alnum c \<longleftrightarrow> 97 \<le> c \<and> c \<le> 122 \<or> 48 \<le> c \<and> c \<le> 57"

definition token_joint :: "nat \<Rightarrow> bool" where
  "token_joint c \<longleftrightarrow> c \<in> {45, 95, 46, 47}"

definition cjk_char :: "nat \<Rightarrow> bool" where
  "cjk_char c \<longleftrightarrow> 13312 \<le> c \<and> c \<le> 19903 \<or> 19968 \<le> c \<and> c \<le> 40959 \<or> 63744 \<le> c \<and> c \<le> 64255"

text \<open>The longest match of the first alternative at an alphanumeric character, and what follows it.\<close>

fun ascii_span :: "pystr \<Rightarrow> pystr \<times> pystr" where
  "ascii_span [] = ([], [])"
| "ascii_span (c # s) =
     (if ascii_alnum c \<or> token_joint c \<and> s \<noteq> [] \<and> ascii_alnum (hd s)
      then (case ascii_span s of (t, rest) \<Rightarrow> (c # t, rest)) else ([], c # s))"

definition bigrams :: "pystr \<Rightarrow> pystr list" where
  "bigrams run = map2 (\<lambda>a b. [a, b]) run (drop 1 run)"

definition cjk_tokens :: "pystr \<Rightarrow> pystr list" where
  "cjk_tokens run = map (\<lambda>c. [c]) run @ bigrams run"

lemma ascii_span_length: "length (snd (ascii_span s)) \<le> length s"
  by (induction s rule: ascii_span.induct) (auto split: prod.splits)

lemma ascii_span_shorter: "ascii_alnum c \<Longrightarrow> length (snd (ascii_span (c # s))) < Suc (length s)"
  using ascii_span_length [of s] by (auto split: prod.splits)

text \<open>\<^verbatim>\<open>_TOKEN_PATTERN.finditer\<close>, with the tokens of each match.\<close>

function scan_tokens :: "pystr \<Rightarrow> pystr list" where
  "scan_tokens [] = []"
| "scan_tokens (c # s) =
     (if ascii_alnum c then fst (ascii_span (c # s)) # scan_tokens (snd (ascii_span (c # s)))
      else if cjk_char c then cjk_tokens (takeWhile cjk_char (c # s)) @ scan_tokens (dropWhile cjk_char s)
      else scan_tokens s)"
  by pat_completeness auto

termination
proof (relation "measure length")
  show "(snd (ascii_span (c # s)), c # s) \<in> measure length" if "ascii_alnum c" for c s
    using ascii_span_shorter [OF that, of s] by simp
  show "(dropWhile cjk_char s, c # s) \<in> measure length" for c :: nat and s
    using length_dropWhile_le [of cjk_char s] by (simp add: le_imp_less_Suc)
qed simp_all

definition tokenize :: "(pystr \<Rightarrow> pystr) \<Rightarrow> pystr \<Rightarrow> string + pystr list" where
  "tokenize fold_text s =
     (if blank s then Inl ''tokenizer input cannot be empty or whitespace''
      else let tokens = scan_tokens (fold_text s)
           in if tokens = [] then Inl ''tokenizer input produced no searchable tokens'' else Inr tokens)"

subsection \<open>The index\<close>

record bm25_document =
  bd_record :: pystr
  bd_document :: pystr
  bd_candidate :: "pystr option"
  bd_content :: pystr
  bd_category :: pystr
  bd_source :: pystr
  bd_metadata :: "(pystr \<times> json) list"

definition bm25_document_ok :: "bm25_document \<Rightarrow> bool" where
  "bm25_document_ok d \<longleftrightarrow> \<not> blank (bd_record d) \<and> \<not> blank (bd_document d) \<and> \<not> blank (bd_content d)
     \<and> \<not> blank (bd_category d) \<and> \<not> blank (bd_source d) \<and> (\<forall>i \<in> set_option (bd_candidate d). \<not> blank i)"

definition bd_identity :: "bm25_document \<Rightarrow> pystr" where
  "bd_identity d = (case bd_candidate d of Some i \<Rightarrow> i | None \<Rightarrow> bd_document d)"

record bm25_index =
  bx_k1 :: rat
  bx_b :: rat
  bx_documents :: "bm25_document list"
  bx_frequencies :: "(pystr \<times> (pystr \<Rightarrow> nat)) list"
  bx_lengths :: "(pystr \<times> nat) list"
  bx_document_frequency :: "pystr \<Rightarrow> nat"

definition index_document ::
  "(pystr \<Rightarrow> string + pystr list) \<Rightarrow> bm25_index \<Rightarrow> bm25_document \<Rightarrow> string + bm25_index" where
  "index_document tok ix d =
     (if \<not> bm25_document_ok d then Inl ''BM25 document failed model validation''
      else if bd_identity d \<in> set (map fst (bx_frequencies ix))
      then Inl (if bd_candidate d = None then ''duplicate document_id'' else ''duplicate candidate_id'')
      else if bd_record d \<in> set (map bd_record (bx_documents ix)) then Inl ''duplicate record_id''
      else (case tok (bd_content d) of
          Inl _ \<Rightarrow> Inl ''BM25 document produced no searchable tokens''
        | Inr tokens \<Rightarrow> Inr (ix\<lparr>bx_documents := bx_documents ix @ [d],
            bx_frequencies := bx_frequencies ix @ [(bd_identity d, count_list tokens)],
            bx_lengths := bx_lengths ix @ [(bd_identity d, length tokens)],
            bx_document_frequency := (\<lambda>t. bx_document_frequency ix t + (if t \<in> set tokens then 1 else 0))\<rparr>)))"

fun index_documents ::
  "(pystr \<Rightarrow> string + pystr list) \<Rightarrow> bm25_index \<Rightarrow> bm25_document list \<Rightarrow> string + bm25_index" where
  "index_documents tok ix [] = Inr ix"
| "index_documents tok ix (d # ds) = res_bind (index_document tok ix d) (\<lambda>ix. index_documents tok ix ds)"

definition new_bm25_index ::
  "(pystr \<Rightarrow> string + pystr list) \<Rightarrow> rat \<Rightarrow> rat \<Rightarrow> bm25_document list \<Rightarrow> string + bm25_index" where
  "new_bm25_index tok k1 b ds =
     (if ds = [] then Inl ''BM25 corpus cannot be empty''
      else if k1 \<le> 0 then Inl ''BM25 k1 must be greater than zero''
      else if b < 0 \<or> 1 < b then Inl ''BM25 b must be within [0, 1]''
      else index_documents tok \<lparr>bx_k1 = k1, bx_b = b, bx_documents = [], bx_frequencies = [], bx_lengths = [],
        bx_document_frequency = (\<lambda>_. 0)\<rparr> ds)"

definition average_length :: "(rat \<Rightarrow> rat) \<Rightarrow> bm25_index \<Rightarrow> rat" where
  "average_length rnd ix =
     rnd (of_nat (sum_list (map snd (bx_lengths ix))) / of_nat (length (bx_lengths ix)))"

subsection \<open>Scores\<close>

definition inverse_document_frequency :: "(rat \<Rightarrow> rat) \<Rightarrow> (rat \<Rightarrow> rat) \<Rightarrow> bm25_index \<Rightarrow> pystr \<Rightarrow> rat" where
  "inverse_document_frequency rnd flog ix t =
     (let df = bx_document_frequency ix t
      in flog (rnd (1 + rnd (rnd (of_int (int (length (bx_documents ix)) - int df) + 1 / 2) / rnd (of_nat df + 1 / 2)))))"

definition length_factor :: "(rat \<Rightarrow> rat) \<Rightarrow> bm25_index \<Rightarrow> nat \<Rightarrow> rat" where
  "length_factor rnd ix len =
     rnd (rnd (1 - bx_b ix) + rnd (rnd (bx_b ix * of_nat len) / average_length rnd ix))"

definition term_score :: "(rat \<Rightarrow> rat) \<Rightarrow> (rat \<Rightarrow> rat) \<Rightarrow> bm25_index \<Rightarrow> rat \<Rightarrow> pystr \<Rightarrow> nat \<Rightarrow> rat" where
  "term_score rnd flog ix factor t tf =
     rnd (rnd (inverse_document_frequency rnd flog ix t * rnd (of_nat tf * rnd (bx_k1 ix + 1)))
       / rnd (of_nat tf + rnd (bx_k1 ix * factor)))"

definition sum_terms ::
  "(rat \<Rightarrow> rat) \<Rightarrow> (rat \<Rightarrow> rat) \<Rightarrow> bm25_index \<Rightarrow> rat \<Rightarrow> (pystr \<Rightarrow> nat) \<Rightarrow> pystr list \<Rightarrow> rat" where
  "sum_terms rnd flog ix factor frequencies tokens =
     foldl (\<lambda>score t. if frequencies t = 0 then score
        else rnd (score + term_score rnd flog ix factor t (frequencies t))) 0 tokens"

definition score_tokens ::
  "(rat \<Rightarrow> rat) \<Rightarrow> (rat \<Rightarrow> rat) \<Rightarrow> bm25_index \<Rightarrow> pystr list \<Rightarrow> pystr \<Rightarrow> string + rat" where
  "score_tokens rnd flog ix tokens i = (case (map_of (bx_frequencies ix) i, map_of (bx_lengths ix) i) of
       (Some frequencies, Some len) \<Rightarrow>
         (let score = sum_terms rnd flog ix (length_factor rnd ix len) frequencies tokens
          in if score < 0 then Inl ''BM25 score must be finite and nonnegative'' else Inr score)
     | _ \<Rightarrow> Inl ''unknown BM25 candidate identity'')"

subsection \<open>Retrieval\<close>

record bm25_hit =
  bh_rank :: nat
  bh_document :: bm25_document
  bh_score :: rat

definition bm25_key :: "bm25_document \<times> rat \<Rightarrow> rat \<times> pystr \<times> pystr \<times> pystr" where
  "bm25_key p = (case p of (d, score) \<Rightarrow> (- score, bd_document d, bd_identity d, bd_record d))"

definition scored_documents ::
  "(rat \<Rightarrow> rat) \<Rightarrow> (rat \<Rightarrow> rat) \<Rightarrow> bm25_index \<Rightarrow> pystr list \<Rightarrow> string + (bm25_document \<times> rat) list" where
  "scored_documents rnd flog ix tokens =
     res_bind (res_map (\<lambda>d. res_bind (score_tokens rnd flog ix tokens (bd_identity d)) (\<lambda>score. Inr (d, score)))
       (bx_documents ix)) (\<lambda>scored. Inr (filter (\<lambda>(_, score). 0 < score) scored))"

definition bm25_retrieve ::
  "(pystr \<Rightarrow> string + pystr list) \<Rightarrow> (rat \<Rightarrow> rat) \<Rightarrow> (rat \<Rightarrow> rat) \<Rightarrow> bm25_index \<Rightarrow> pystr \<Rightarrow> int
     \<Rightarrow> string + bm25_hit list" where
  "bm25_retrieve tok rnd flog ix q limit =
     (if blank q then Inl ''BM25 query cannot be empty or whitespace''
      else if limit \<le> 0 then Inl ''top_k must be a positive integer''
      else (case tok q of
          Inl _ \<Rightarrow> Inl ''BM25 query produced no searchable tokens''
        | Inr tokens \<Rightarrow> res_bind (scored_documents rnd flog ix tokens) (\<lambda>scored.
            Inr (map (\<lambda>(i, d, score). \<lparr>bh_rank = i, bh_document = d, bh_score = score\<rparr>)
              (enum1 (take (nat limit) (sort_key bm25_key scored)))))))"

subsection \<open>What an index holds\<close>

definition has_token :: "(pystr \<Rightarrow> string + pystr list) \<Rightarrow> pystr \<Rightarrow> bm25_document \<Rightarrow> bool" where
  "has_token tok t d \<longleftrightarrow> (\<exists>ts. tok (bd_content d) = Inr ts \<and> t \<in> set ts)"

definition index_ok :: "(pystr \<Rightarrow> string + pystr list) \<Rightarrow> bm25_index \<Rightarrow> bool" where
  "index_ok tok ix \<longleftrightarrow> (let ds = bx_documents ix in
     map fst (bx_frequencies ix) = map bd_identity ds \<and> map fst (bx_lengths ix) = map bd_identity ds
     \<and> distinct (map bd_identity ds) \<and> distinct (map bd_record ds) \<and> list_all bm25_document_ok ds
     \<and> (\<forall>d \<in> set ds. \<exists>ts. tok (bd_content d) = Inr ts \<and> (bd_identity d, count_list ts) \<in> set (bx_frequencies ix)
          \<and> (bd_identity d, length ts) \<in> set (bx_lengths ix))
     \<and> bx_document_frequency ix = (\<lambda>t. length (filter (has_token tok t) ds)))"

lemma index_document_ok:
  assumes "index_document tok ix d = Inr ix'" and "index_ok tok ix"
  shows "index_ok tok ix' \<and> bx_documents ix' = bx_documents ix @ [d] \<and> bx_k1 ix' = bx_k1 ix \<and> bx_b ix' = bx_b ix"
proof -
  from assms(1) obtain ts where d: "bm25_document_ok d" "bd_identity d \<notin> set (map fst (bx_frequencies ix))"
    "bd_record d \<notin> set (map bd_record (bx_documents ix))" "tok (bd_content d) = Inr ts"
    and ix': "ix' = ix\<lparr>bx_documents := bx_documents ix @ [d],
            bx_frequencies := bx_frequencies ix @ [(bd_identity d, count_list ts)],
            bx_lengths := bx_lengths ix @ [(bd_identity d, length ts)],
            bx_document_frequency := (\<lambda>t. bx_document_frequency ix t + (if t \<in> set ts then 1 else 0))\<rparr>"
    by (auto simp: index_document_def split: if_splits sum.splits)
  have "has_token tok t d \<longleftrightarrow> t \<in> set ts" for t using d(4) by (simp add: has_token_def)
  moreover have "bd_identity d \<notin> set (map bd_identity (bx_documents ix))"
    using d(2) assms(2) unfolding index_ok_def Let_def by metis
  ultimately show ?thesis
    using assms(2) d unfolding ix' index_ok_def Let_def
    by (auto simp: fun_eq_iff)
qed

lemma index_documents_ok:
  assumes "index_documents tok ix ds = Inr ix'" and "index_ok tok ix"
  shows "index_ok tok ix' \<and> bx_documents ix' = bx_documents ix @ ds \<and> bx_k1 ix' = bx_k1 ix \<and> bx_b ix' = bx_b ix"
  using assms
proof (induction ds arbitrary: ix)
  case (Cons d ds)
  from Cons.prems(1) obtain ix1 where "index_document tok ix d = Inr ix1" "index_documents tok ix1 ds = Inr ix'"
    by (auto simp: res_simps)
  with Cons.IH [of ix1] index_document_ok [of tok ix d ix1] Cons.prems(2) show ?case by auto
qed simp

lemma new_index_ok:
  assumes "new_bm25_index tok k1 b ds = Inr ix"
  shows "index_ok tok ix" and "bx_documents ix = ds" and "bx_k1 ix = k1" and "bx_b ix = b"
    and "0 < k1" and "0 \<le> b" and "b \<le> 1" and "ds \<noteq> []"
proof -
  let ?e = "\<lparr>bx_k1 = k1, bx_b = b, bx_documents = [], bx_frequencies = [], bx_lengths = [],
        bx_document_frequency = (\<lambda>_. 0 :: nat)\<rparr>"
  from assms have i: "index_documents tok ?e ds = Inr ix" and c: "0 < k1" "0 \<le> b" "b \<le> 1" "ds \<noteq> []"
    by (auto simp: new_bm25_index_def split: if_splits)
  have "index_ok tok ?e" by (simp add: index_ok_def)
  from index_documents_ok [OF i this] show "index_ok tok ix" "bx_documents ix = ds" "bx_k1 ix = k1" "bx_b ix = b"
    by simp_all
qed (use assms in \<open>auto simp: new_bm25_index_def split: if_splits\<close>)

lemma indexed_document:
  assumes "index_ok tok ix" and "d \<in> set (bx_documents ix)"
  obtains ts where "tok (bd_content d) = Inr ts" "map_of (bx_frequencies ix) (bd_identity d) = Some (count_list ts)"
    "map_of (bx_lengths ix) (bd_identity d) = Some (length ts)"
proof -
  from assms obtain ts where "tok (bd_content d) = Inr ts" "(bd_identity d, count_list ts) \<in> set (bx_frequencies ix)"
    "(bd_identity d, length ts) \<in> set (bx_lengths ix)" unfolding index_ok_def Let_def by blast
  moreover have "distinct (map fst (bx_frequencies ix))" "distinct (map fst (bx_lengths ix))"
    using assms(1) by (simp_all add: index_ok_def Let_def)
  ultimately show thesis using that by (metis map_of_is_SomeI)
qed

subsection \<open>Scores are never negative\<close>

text \<open>What the proofs use of a rounding of finite numbers: order, zero and one are kept.\<close>

definition rounding :: "(rat \<Rightarrow> rat) \<Rightarrow> bool" where
  "rounding rnd \<longleftrightarrow> mono rnd \<and> rnd 0 = 0 \<and> rnd 1 = 1"

lemma rounding_nonneg: "rounding rnd \<Longrightarrow> 0 \<le> x \<Longrightarrow> 0 \<le> rnd x"
  by (metis rounding_def monoD)

lemma rounding_ge_1: "rounding rnd \<Longrightarrow> 1 \<le> x \<Longrightarrow> 1 \<le> rnd x"
  by (metis rounding_def monoD)

lemma idf_nonneg:
  assumes "rounding rnd" and "\<forall>x \<ge> 1. 0 \<le> flog x" and "index_ok tok ix"
  shows "0 \<le> inverse_document_frequency rnd flog ix t"
proof -
  have "bx_document_frequency ix t \<le> length (bx_documents ix)"
    using assms(3) by (simp add: index_ok_def Let_def)
  then have "(0 :: rat) \<le> of_int (int (length (bx_documents ix)) - int (bx_document_frequency ix t)) + 1 / 2" by simp
  then have "0 \<le> rnd (rnd (of_int (int (length (bx_documents ix)) - int (bx_document_frequency ix t)) + 1 / 2)
      / rnd (of_nat (bx_document_frequency ix t) + 1 / 2))"
    by (intro rounding_nonneg [OF assms(1)] divide_nonneg_nonneg) simp_all
  then show ?thesis unfolding inverse_document_frequency_def Let_def
    using assms(2) rounding_ge_1 [OF assms(1)] by simp
qed

lemma average_nonneg: "rounding rnd \<Longrightarrow> 0 \<le> average_length rnd ix"
  unfolding average_length_def by (rule rounding_nonneg) simp_all

lemma length_factor_nonneg:
  assumes "rounding rnd" and "0 \<le> bx_b ix" and "bx_b ix \<le> 1"
  shows "0 \<le> length_factor rnd ix n"
  unfolding length_factor_def using assms average_nonneg [OF assms(1), of ix]
  by (intro rounding_nonneg [OF assms(1)] add_nonneg_nonneg divide_nonneg_nonneg mult_nonneg_nonneg) simp_all

lemma term_score_nonneg:
  assumes "rounding rnd" and "0 \<le> inverse_document_frequency rnd flog ix t" and "0 < bx_k1 ix" and "0 \<le> factor"
  shows "0 \<le> term_score rnd flog ix factor t tf"
  unfolding term_score_def using assms(2-4)
  by (intro rounding_nonneg [OF assms(1)] divide_nonneg_nonneg mult_nonneg_nonneg add_nonneg_nonneg) simp_all

lemma sum_terms_nonneg:
  assumes "rounding rnd" and "\<And>t. 0 \<le> term_score rnd flog ix factor t (f t)"
  shows "0 \<le> sum_terms rnd flog ix factor f tokens"
proof -
  have "0 \<le> foldl (\<lambda>score t. if f t = 0 then score
        else rnd (score + term_score rnd flog ix factor t (f t))) s tokens" if "0 \<le> s" for s
    using that by (induction tokens arbitrary: s) (simp_all add: rounding_nonneg [OF assms(1)] assms(2))
  then show ?thesis by (simp add: sum_terms_def)
qed

lemma sum_terms_missing:
  assumes "\<forall>t \<in> set tokens. f t = 0"
  shows "sum_terms rnd flog ix factor f tokens = 0"
proof -
  have "foldl (\<lambda>score t. if f t = 0 then score
        else rnd (score + term_score rnd flog ix factor t (f t))) s tokens = s" for s
    using assms by (induction tokens arbitrary: s) simp_all
  then show ?thesis by (simp add: sum_terms_def)
qed

text \<open>Every document of the index has a score, and a positive one only with a token of the query.\<close>

lemma indexed_score:
  assumes "rounding rnd" and "\<forall>x \<ge> 1. 0 \<le> flog x" and "new_bm25_index tok k1 b ds = Inr ix" and "d \<in> set ds"
  obtains score where "score_tokens rnd flog ix tokens (bd_identity d) = Inr score" "0 \<le> score"
    "0 < score \<Longrightarrow> \<exists>t \<in> set tokens. has_token tok t d"
proof -
  note ix = new_index_ok [OF assms(3)]
  obtain ts where ts: "tok (bd_content d) = Inr ts" "map_of (bx_frequencies ix) (bd_identity d) = Some (count_list ts)"
    "map_of (bx_lengths ix) (bd_identity d) = Some (length ts)"
    using indexed_document [OF ix(1), of d] assms(4) ix(2) by metis
  let ?s = "sum_terms rnd flog ix (length_factor rnd ix (length ts)) (count_list ts) tokens"
  have "0 \<le> ?s"
    using ix(3-7) by (intro sum_terms_nonneg term_score_nonneg length_factor_nonneg assms(1) idf_nonneg [OF assms(1,2) ix(1)]) auto
  moreover have "\<exists>t \<in> set tokens. has_token tok t d" if "0 < ?s"
  proof (rule ccontr)
    assume "\<not> ?thesis"
    then have "\<forall>t \<in> set tokens. count_list ts t = 0" using ts(1) by (auto simp: has_token_def count_list_0_iff)
    from sum_terms_missing [OF this] that show False by simp
  qed
  moreover have "score_tokens rnd flog ix tokens (bd_identity d) = Inr ?s"
    using calculation(1) ts by (simp add: score_tokens_def Let_def)
  ultimately show thesis using that by blast
qed

subsection \<open>What retrieval returns\<close>

definition hit_pair :: "bm25_hit \<Rightarrow> bm25_document \<times> rat" where
  "hit_pair h = (bh_document h, bh_score h)"

lemma ranked_hits:
  assumes "hits = map (\<lambda>(i, d, score). \<lparr>bh_rank = i, bh_document = d, bh_score = score\<rparr>) (enum1 T)"
  shows "map bh_rank hits = [1..<Suc (length hits)]" and "map hit_pair hits = T"
proof -
  have e: "hits = map (\<lambda>(i, p). \<lparr>bh_rank = i, bh_document = fst p, bh_score = snd p\<rparr>) (enum1 T)"
    unfolding assms by (simp add: case_prod_beta)
  have "map bh_rank hits = [1..<Suc (length T)]" unfolding e by (rule renumber_ranks) simp
  then show "map bh_rank hits = [1..<Suc (length hits)]" by (simp add: e)
  have "map hit_pair (map (\<lambda>(i, p). \<lparr>bh_rank = i, bh_document = fst p, bh_score = snd p\<rparr>) zs) = map snd zs" for zs
    by (induction zs) (auto simp: hit_pair_def)
  from this [of "enum1 T"] show "map hit_pair hits = T" unfolding e map_snd_enum1 .
qed

text \<open>The documents with a positive score, and what a retrieval makes of them.\<close>

definition positive_scores ::
  "(rat \<Rightarrow> rat) \<Rightarrow> (rat \<Rightarrow> rat) \<Rightarrow> bm25_index \<Rightarrow> pystr list \<Rightarrow> (bm25_document \<times> rat) list" where
  "positive_scores rnd flog ix tokens = filter (\<lambda>(_, score). 0 < score)
     (map (\<lambda>d. (d, projr (score_tokens rnd flog ix tokens (bd_identity d)))) (bx_documents ix))"

lemma bm25_retrieve_eq:
  assumes "rounding rnd" and "\<forall>x \<ge> 1. 0 \<le> flog x" and "new_bm25_index tok k1 b ds = Inr ix"
    and "\<not> blank q" and "tok q = Inr tokens" and "0 < limit"
  shows "bm25_retrieve tok rnd flog ix q limit = Inr (map (\<lambda>(i, d, score). \<lparr>bh_rank = i, bh_document = d, bh_score = score\<rparr>)
    (enum1 (take (nat limit) (sort_key bm25_key (positive_scores rnd flog ix tokens)))))"
proof -
  have "res_bind (score_tokens rnd flog ix tokens (bd_identity d)) (\<lambda>score. Inr (d, score))
      = Inr (d, projr (score_tokens rnd flog ix tokens (bd_identity d)))" if "d \<in> set ds" for d
    using indexed_score [OF assms(1-3) that, where tokens = tokens] by (metis res_bind.simps(2) sum.sel(2))
  then have "scored_documents rnd flog ix tokens = Inr (positive_scores rnd flog ix tokens)"
    unfolding scored_documents_def positive_scores_def new_index_ok(2) [OF assms(3)]
    by (subst res_map_Inr_map [where g = "\<lambda>d. (d, projr (score_tokens rnd flog ix tokens (bd_identity d)))"]) simp_all
  then show ?thesis using assms(4-6) by (simp add: bm25_retrieve_def)
qed

lemma distinct_positive:
  assumes "index_ok tok ix" and "distinct (map f (bx_documents ix))"
  shows "distinct (map (f \<circ> fst) (take n (sort_key bm25_key (positive_scores rnd flog ix tokens))))"
proof -
  have "distinct (map (f \<circ> fst) (map (\<lambda>d. (d, projr (score_tokens rnd flog ix tokens (bd_identity d)))) (bx_documents ix)))"
    using assms(2) by (simp add: comp_def)
  then have "distinct (map (f \<circ> fst) (positive_scores rnd flog ix tokens))"
    unfolding positive_scores_def by (rule distinct_map_filter)
  then have "distinct (map (f \<circ> fst) (sort_key bm25_key (positive_scores rnd flog ix tokens)))"
    by (simp only: distinct_map_sort_key)
  then show ?thesis by (simp add: take_map [symmetric])
qed


subsection \<open>A concrete index\<close>

definition demo_bm25_document :: "nat \<Rightarrow> pystr \<Rightarrow> bm25_document" where
  "demo_bm25_document i content = \<lparr>bd_record = [i], bd_document = [i], bd_candidate = Some [i], bd_content = content,
     bd_category = [107], bd_source = [115], bd_metadata = []\<rparr>"

definition demo_corpus :: "bm25_document list" where
  "demo_corpus = [demo_bm25_document 97 [24211, 23384], demo_bm25_document 98 [98, 45, 49]]"

lemma demo_tokens: "tokenize id [24211, 23384] = Inr [[24211], [23384], [24211, 23384]]"
  "tokenize id [98, 45, 49] = Inr [[98, 45, 49]]"
  by (simp_all add: tokenize_def py_space_def ascii_alnum_def token_joint_def cjk_char_def cjk_tokens_def bigrams_def)

lemma demo_index: "\<exists>ix. new_bm25_index (tokenize id) (3 / 2) (3 / 4) demo_corpus = Inr ix"
  by (simp add: new_bm25_index_def demo_corpus_def index_document_def demo_bm25_document_def bm25_document_ok_def
      py_space_def demo_tokens bd_identity_def)


end
