(* ===== verification/VectorStore.thy ===== *)
theory VectorStore
  imports EvidenceContext LexicalIndex "HOL-Library.AList"
begin

section \<open>Retrieval: vector stores and dense retrieval\<close>

text \<open>
  \<^verbatim>\<open>retrieval/models.py\<close>, \<^verbatim>\<open>retrieval/in_memory_store.py\<close> and \<^verbatim>\<open>retrieval/dense.py\<close>. A vector is a list of
  finite numbers; \<open>rnd\<close> rounds a product or quotient, \<open>fadd\<close> is \<^verbatim>\<open>sum\<close> over floats and \<open>fsqrt\<close> the square
  root. A store and an embedding provider act on a world of type \<open>'w\<close>; the locale \<open>vector_store\<close> is what
  dense retrieval relies on of a store, and the in-memory store interprets it.
\<close>

subsection \<open>Records, filters and counts\<close>

record vector_record =
  vr_id :: pystr
  vr_parent :: pystr
  vr_document :: pystr
  vr_version :: pystr
  vr_content :: pystr
  vr_vector :: "rat list"
  vr_source :: "pystr option"
  vr_page :: "int option"
  vr_metadata :: "(pystr \<times> json) list"

definition vector_record_ok :: "vector_record \<Rightarrow> bool" where
  "vector_record_ok r \<longleftrightarrow> vr_id r \<noteq> [] \<and> vr_parent r \<noteq> [] \<and> vr_document r \<noteq> [] \<and> vr_version r \<noteq> []
     \<and> vr_content r \<noteq> [] \<and> vr_vector r \<noteq> [] \<and> page_ok (vr_page r)"

record vector_hit =
  vh_id :: pystr
  vh_score :: rat
  vh_content :: pystr
  vh_parent :: pystr
  vh_document :: pystr
  vh_version :: pystr
  vh_source :: "pystr option"
  vh_page :: "int option"
  vh_metadata :: "(pystr \<times> json) list"

record upsert_counts =
  uc_attempted :: nat
  uc_inserted :: nat
  uc_updated :: nat

record search_filter =
  sf_document :: "pystr option"
  sf_documents :: "pystr list"

definition new_search_filter :: "pystr option \<Rightarrow> pystr list \<Rightarrow> string + search_filter" where
  "new_search_filter document documents =
     (if document = Some [] then Inl ''document_id''
      else if [] \<in> set documents then Inl ''document_ids cannot contain blank values''
      else if \<not> distinct documents then Inl ''document_ids must be unique''
      else if document \<noteq> None \<and> documents \<noteq> [] then Inl ''use either document_id or document_ids, not both''
      else Inr \<lparr>sf_document = document, sf_documents = documents\<rparr>)"

definition filter_documents :: "search_filter \<Rightarrow> pystr set option" where
  "filter_documents f = (case sf_document f of
       Some d \<Rightarrow> Some {d}
     | None \<Rightarrow> if sf_documents f \<noteq> [] then Some (set (sf_documents f)) else None)"

subsection \<open>The in-memory store\<close>

record memory_vectors =
  mv_dimension :: int
  mv_records :: "(pystr \<times> vector_record) list"

definition new_memory_vectors :: "int \<Rightarrow> string + memory_vectors" where
  "new_memory_vectors dimension =
     (if dimension \<le> 0 then Inl ''store dimension must be greater than zero''
      else Inr \<lparr>mv_dimension = dimension, mv_records = []\<rparr>)"

definition vector_norm :: "(rat \<Rightarrow> rat) \<Rightarrow> (rat list \<Rightarrow> rat) \<Rightarrow> (rat \<Rightarrow> rat) \<Rightarrow> rat list \<Rightarrow> rat" where
  "vector_norm rnd fadd fsqrt v = fsqrt (fadd (map (\<lambda>x. rnd (x * x)) v))"

definition check_vector ::
  "(rat \<Rightarrow> rat) \<Rightarrow> (rat list \<Rightarrow> rat) \<Rightarrow> (rat \<Rightarrow> rat) \<Rightarrow> int \<Rightarrow> rat list \<Rightarrow> string + rat" where
  "check_vector rnd fadd fsqrt dimension v =
     (if v = [] then Inl ''vector cannot be empty''
      else if int (length v) \<noteq> dimension then Inl ''vector dimension does not match store dimension''
      else if vector_norm rnd fadd fsqrt v = 0 then Inl ''vector cannot be a zero vector''
      else Inr (vector_norm rnd fadd fsqrt v))"

text \<open>The validation loop of a batch: the identifiers seen so far and the records left.\<close>

fun check_batch ::
  "(rat list \<Rightarrow> string + rat) \<Rightarrow> pystr list \<Rightarrow> vector_record list \<Rightarrow> string + unit" where
  "check_batch check seen [] = Inr ()"
| "check_batch check seen (r # rs) =
     (if \<not> vector_record_ok r then Inl ''vector record failed model validation''
      else if vr_id r \<in> set seen then Inl ''duplicate record_id in one upsert batch''
      else res_bind (check (vr_vector r)) (\<lambda>_. check_batch check (vr_id r # seen) rs))"

definition memory_upsert ::
  "(rat \<Rightarrow> rat) \<Rightarrow> (rat list \<Rightarrow> rat) \<Rightarrow> (rat \<Rightarrow> rat) \<Rightarrow> vector_record list \<Rightarrow> memory_vectors
     \<Rightarrow> (string + upsert_counts) \<times> memory_vectors" where
  "memory_upsert rnd fadd fsqrt rs s =
     (case check_batch (check_vector rnd fadd fsqrt (mv_dimension s)) [] rs of
        Inl e \<Rightarrow> (Inl e, s)
      | Inr _ \<Rightarrow>
          (let inserted = length (filter (\<lambda>r. vr_id r \<notin> set (map fst (mv_records s))) rs)
           in (Inr \<lparr>uc_attempted = length rs, uc_inserted = inserted, uc_updated = length rs - inserted\<rparr>,
               s\<lparr>mv_records := foldl (\<lambda>m r. AList.update (vr_id r) r m) (mv_records s) rs\<rparr>)))"

definition hit_of_record :: "rat \<Rightarrow> vector_record \<Rightarrow> vector_hit" where
  "hit_of_record score r = \<lparr>vh_id = vr_id r, vh_score = score, vh_content = vr_content r, vh_parent = vr_parent r,
     vh_document = vr_document r, vh_version = vr_version r, vh_source = vr_source r, vh_page = vr_page r,
     vh_metadata = vr_metadata r\<rparr>"

definition cosine :: "(rat \<Rightarrow> rat) \<Rightarrow> (rat list \<Rightarrow> rat) \<Rightarrow> (rat \<Rightarrow> rat) \<Rightarrow> rat list \<Rightarrow> rat \<Rightarrow> rat list \<Rightarrow> rat" where
  "cosine rnd fadd fsqrt query query_norm v =
     rnd (fadd (map2 (\<lambda>x y. rnd (x * y)) query v) / rnd (query_norm * vector_norm rnd fadd fsqrt v))"

definition memory_search ::
  "(rat \<Rightarrow> rat) \<Rightarrow> (rat list \<Rightarrow> rat) \<Rightarrow> (rat \<Rightarrow> rat) \<Rightarrow> rat list \<Rightarrow> int \<Rightarrow> search_filter option \<Rightarrow> memory_vectors
     \<Rightarrow> (string + vector_hit list) \<times> memory_vectors" where
  "memory_search rnd fadd fsqrt query limit filters s =
     (if limit \<le> 0 then (Inl ''top_k must be greater than zero'', s)
      else (case check_vector rnd fadd fsqrt (mv_dimension s) query of
          Inl e \<Rightarrow> (Inl e, s)
        | Inr query_norm \<Rightarrow>
            (let documents = Option.bind filters filter_documents;
                 scored = map (\<lambda>(i, r). (cosine rnd fadd fsqrt query query_norm (vr_vector r), i, r))
                   (filter (\<lambda>(_, r). documents = None \<or> vr_document r \<in> the documents) (mv_records s))
             in (Inr (map (\<lambda>(score, _, r). hit_of_record score r)
                   (take (nat limit) (sort_key (\<lambda>(score, i, _). (- score, i)) scored))), s))))"

definition memory_delete :: "pystr \<Rightarrow> memory_vectors \<Rightarrow> (string + nat) \<times> memory_vectors" where
  "memory_delete document s =
     (if document = [] then (Inl ''document_id cannot be empty'', s)
      else (Inr (length (filter (\<lambda>(_, r). vr_document r = document) (mv_records s))),
            s\<lparr>mv_records := filter (\<lambda>(_, r). vr_document r \<noteq> document) (mv_records s)\<rparr>))"

definition memory_ids :: "memory_vectors \<Rightarrow> (string + pystr set) \<times> memory_vectors" where
  "memory_ids s = (Inr (set (map fst (mv_records s))), s)"

definition memory_count :: "memory_vectors \<Rightarrow> nat" where
  "memory_count s = card (set (map fst (mv_records s)))"

subsection \<open>Dense indexing and retrieval\<close>

record 'w dense_services =
  dn_dimension :: int
  dn_embed_documents :: "pystr list \<Rightarrow> 'w \<Rightarrow> (string + rat list list) \<times> 'w"
  dn_embed_query :: "pystr \<Rightarrow> 'w \<Rightarrow> (string + rat list) \<times> 'w"
  dn_upsert :: "vector_record list \<Rightarrow> 'w \<Rightarrow> (string + upsert_counts) \<times> 'w"
  dn_search :: "rat list \<Rightarrow> int \<Rightarrow> search_filter option \<Rightarrow> 'w \<Rightarrow> (string + vector_hit list) \<times> 'w"
  dn_ids :: "'w \<Rightarrow> (string + pystr set) \<times> 'w"

definition check_embedding ::
  "(rat \<Rightarrow> rat) \<Rightarrow> (rat list \<Rightarrow> rat) \<Rightarrow> (rat \<Rightarrow> rat) \<Rightarrow> int \<Rightarrow> rat list \<Rightarrow> string + unit" where
  "check_embedding rnd fadd fsqrt dimension v =
     (if int (length v) \<noteq> dimension
      then Inl ''embedding vector dimension must match embedding provider dimension''
      else if vector_norm rnd fadd fsqrt v = 0 then Inl ''embedding vector cannot be zero'' else Inr ())"

definition record_of_child :: "child_chunk \<Rightarrow> rat list \<Rightarrow> string + vector_record" where
  "record_of_child c v =
     (let r = \<lparr>vr_id = cc_id c, vr_parent = cc_parent_id c, vr_document = cc_document_id c,
            vr_version = cc_document_version c, vr_content = cc_content c, vr_vector = v, vr_source = cc_source c,
            vr_page = cc_page c, vr_metadata = cc_metadata c\<rparr>
      in if vector_record_ok r then Inr r else Inl ''vector record'')"

definition dense_index ::
  "(rat \<Rightarrow> rat) \<Rightarrow> (rat list \<Rightarrow> rat) \<Rightarrow> (rat \<Rightarrow> rat) \<Rightarrow> 'w dense_services \<Rightarrow> child_chunk list \<Rightarrow> 'w
     \<Rightarrow> (string + upsert_counts) \<times> 'w" where
  "dense_index rnd fadd fsqrt S chunks w =
     (if chunks = [] then (Inr \<lparr>uc_attempted = 0, uc_inserted = 0, uc_updated = 0\<rparr>, w)
      else (case dn_embed_documents S (map cc_content chunks) w of
          (Inl e, w) \<Rightarrow> (Inl e, w)
        | (Inr vectors, w) \<Rightarrow>
            if length vectors \<noteq> length chunks
            then (Inl ''embedding provider result count must match child chunk count'', w)
            else (case res_bind (res_map (check_embedding rnd fadd fsqrt (dn_dimension S)) vectors) (\<lambda>_.
                res_map (\<lambda>(c, v). record_of_child c v) (zip chunks vectors)) of
                Inl e \<Rightarrow> (Inl e, w)
              | Inr rs \<Rightarrow> dn_upsert S rs w)))"

definition dense_retrieve ::
  "'w dense_services \<Rightarrow> pystr \<Rightarrow> int \<Rightarrow> search_filter option \<Rightarrow> 'w \<Rightarrow> (string + vector_hit list) \<times> 'w" where
  "dense_retrieve S q limit filters w =
     (if blank q then (Inl ''retrieval query cannot be empty or whitespace'', w)
      else if limit \<le> 0 then (Inl ''top_k must be greater than zero'', w)
      else (case dn_embed_query S q w of
          (Inl e, w) \<Rightarrow> (Inl e, w)
        | (Inr v, w) \<Rightarrow> dn_search S v limit filters w))"

subsection \<open>What dense retrieval relies on\<close>

text \<open>
  \<open>valid\<close> is the invariant of a store and \<open>held\<close> the identifiers it stores: a successful upsert adds exactly
  the given ones, everything else keeps them, a search finds stored records, each once, and a listing is exact.
\<close>

locale vector_store =
  fixes valid :: "'w \<Rightarrow> bool" and held :: "'w \<Rightarrow> pystr set"
    and upsert :: "vector_record list \<Rightarrow> 'w \<Rightarrow> (string + upsert_counts) \<times> 'w"
    and search :: "rat list \<Rightarrow> int \<Rightarrow> search_filter option \<Rightarrow> 'w \<Rightarrow> (string + vector_hit list) \<times> 'w"
    and ids :: "'w \<Rightarrow> (string + pystr set) \<times> 'w"
  assumes upsert_valid: "valid w \<Longrightarrow> valid (snd (upsert rs w))"
    and upsert_held: "valid w \<Longrightarrow> fst (upsert rs w) = Inr c \<Longrightarrow> held (snd (upsert rs w)) = held w \<union> vr_id ` set rs"
    and upsert_failed: "valid w \<Longrightarrow> fst (upsert rs w) = Inl e \<Longrightarrow> held (snd (upsert rs w)) = held w"
    and search_keeps: "valid w \<Longrightarrow> valid (snd (search v k f w)) \<and> held (snd (search v k f w)) = held w"
    and search_found: "valid w \<Longrightarrow> fst (search v k f w) = Inr hits \<Longrightarrow>
          vh_id ` set hits \<subseteq> held w \<and> distinct (map vh_id hits) \<and> int (length hits) \<le> k"
    and ids_keeps: "valid w \<Longrightarrow> valid (snd (ids w)) \<and> held (snd (ids w)) = held w"
    and ids_exact: "valid w \<Longrightarrow> fst (ids w) = Inr is \<Longrightarrow> is = held w"

locale dense_world = vector_store valid held "dn_upsert S" "dn_search S" "dn_ids S"
  for valid :: "'w \<Rightarrow> bool" and held :: "'w \<Rightarrow> pystr set" and S :: "'w dense_services" +
  assumes embed_documents_keeps:
      "valid w \<Longrightarrow> valid (snd (dn_embed_documents S ts w)) \<and> held (snd (dn_embed_documents S ts w)) = held w"
    and embed_query_keeps: "valid w \<Longrightarrow> valid (snd (dn_embed_query S q w)) \<and> held (snd (dn_embed_query S q w)) = held w"
begin

lemma dense_retrieve_keeps:
  assumes "dense_retrieve S q limit filters w = (r, w')" and "valid w"
  shows "valid w' \<and> held w' = held w
    \<and> (\<forall>hits. r = Inr hits \<longrightarrow> vh_id ` set hits \<subseteq> held w \<and> distinct (map vh_id hits) \<and> int (length hits) \<le> limit)"
proof -
  obtain v w1 where e: "dn_embed_query S q w = (v, w1)" by (rule prod.exhaust)
  have w1: "valid w1" "held w1 = held w" using embed_query_keeps [OF assms(2), of q] by (simp_all add: e)
  have found: "valid w2 \<and> held w2 = held w
    \<and> (\<forall>hits. t = Inr hits \<longrightarrow> vh_id ` set hits \<subseteq> held w \<and> distinct (map vh_id hits) \<and> int (length hits) \<le> limit)"
    if "dn_search S u limit filters w1 = (t, w2)" for u t w2
    using search_keeps [OF w1(1), of u limit filters] search_found [OF w1(1), of u limit filters] w1(2)
    by (simp add: that)
  show ?thesis using assms(1,2) w1 e found
    by (simp add: dense_retrieve_def split: if_splits sum.splits) auto
qed

lemma records_of_children:
  "length vs = length cs \<Longrightarrow> res_map (\<lambda>(c, v). record_of_child c v) (zip cs vs) = Inr rs \<Longrightarrow> map vr_id rs = map cc_id cs"
proof (induction vs cs arbitrary: rs rule: list_induct2)
  case (Cons v vs c cs)
  then show ?case by (auto simp: res_simps record_of_child_def Let_def split: if_splits)
qed (simp add: res_simps)

lemma dense_index_keeps:
  assumes "dense_index rnd fadd fsqrt S chunks w = (r, w')" and "valid w"
  shows "valid w' \<and> held w' = held w \<union> (if \<exists>c. r = Inr c then cc_id ` set chunks else {})"
proof (cases "chunks = []")
  case False
  obtain vs w1 where e: "dn_embed_documents S (map cc_content chunks) w = (vs, w1)" by (rule prod.exhaust)
  have w1: "valid w1" "held w1 = held w"
    using embed_documents_keeps [OF assms(2), of "map cc_content chunks"] by (simp_all add: e)
  show ?thesis
  proof (cases "\<exists>vectors rs. vs = Inr vectors \<and> length vectors = length chunks
      \<and> res_bind (res_map (check_embedding rnd fadd fsqrt (dn_dimension S)) vectors) (\<lambda>_.
          res_map (\<lambda>(c, v). record_of_child c v) (zip chunks vectors)) = Inr rs")
    case True
    then obtain vectors rs where v: "vs = Inr vectors" "length vectors = length chunks"
      and rs: "res_bind (res_map (check_embedding rnd fadd fsqrt (dn_dimension S)) vectors) (\<lambda>_.
          res_map (\<lambda>(c, v). record_of_child c v) (zip chunks vectors)) = Inr rs" by blast
    have u: "dn_upsert S rs w1 = (r, w')" using assms(1) False e v rs by (simp add: dense_index_def)
    have "map vr_id rs = map cc_id chunks" using records_of_children [OF v(2)] rs by (auto simp: res_simps)
    then have "vr_id ` set rs = cc_id ` set chunks" by (metis list.set_map)
    then show ?thesis
      using upsert_valid [OF w1(1), of rs] upsert_held [OF w1(1), of rs] upsert_failed [OF w1(1), of rs] w1(2)
      by (cases r) (auto simp: u)
  next
    case no: False
    then have "\<exists>err. (r, w') = (Inl err, w1)" using assms(1) False e
      by (auto simp: dense_index_def split: if_splits sum.splits)
    then show ?thesis using w1 by auto
  qed
qed (use assms in \<open>auto simp: dense_index_def\<close>)

text \<open>A corpus indexed into a store that held no other record is exactly what the store holds.\<close>

lemma dense_index_exact:
  assumes "dense_index rnd fadd fsqrt S chunks w = (Inr c, w1)" and "valid w" and "held w \<subseteq> cc_id ` set chunks"
    and "dn_ids S w1 = (Inr is, w2)"
  shows "is = cc_id ` set chunks"
proof -
  from dense_index_keeps [OF assms(1,2)] have w1: "valid w1" "held w1 = held w \<union> cc_id ` set chunks" by simp_all
  with ids_exact [OF w1(1), of "is"] assms(3,4) show ?thesis by auto
qed

end

subsection \<open>The in-memory store keeps the contract\<close>

definition vectors_ok ::
  "(rat \<Rightarrow> rat) \<Rightarrow> (rat list \<Rightarrow> rat) \<Rightarrow> (rat \<Rightarrow> rat) \<Rightarrow> memory_vectors \<Rightarrow> bool" where
  "vectors_ok rnd fadd fsqrt s \<longleftrightarrow> distinct (map fst (mv_records s))
     \<and> (\<forall>(i, r) \<in> set (mv_records s). vr_id r = i \<and> vector_record_ok r
         \<and> int (length (vr_vector r)) = mv_dimension s \<and> vector_norm rnd fadd fsqrt (vr_vector r) \<noteq> 0)"

definition memory_held :: "memory_vectors \<Rightarrow> pystr set" where
  "memory_held s = set (map fst (mv_records s))"

lemma check_batch_Inr:
  "check_batch check seen rs = Inr u \<Longrightarrow>
     (\<forall>r \<in> set rs. vector_record_ok r \<and> (\<exists>n. check (vr_vector r) = Inr n)) \<and> distinct (map vr_id rs)
     \<and> vr_id ` set rs \<inter> set seen = {}"
  by (induction check seen rs rule: check_batch.induct) (auto simp: res_simps split: if_splits)

lemma set_alist_update:
  "distinct (map fst m) \<Longrightarrow> set (AList.update k v m) = insert (k, v) {p \<in> set m. fst p \<noteq> k}"
  by (induction m) (auto simp: rev_image_eqI)

lemma updates_ok:
  assumes "distinct (map fst m)" and "\<forall>(i, r) \<in> set m. vr_id r = i \<and> P r" and "\<forall>r \<in> set rs. P r"
  shows "(let m' = foldl (\<lambda>m r. AList.update (vr_id r) r m) m rs
     in distinct (map fst m') \<and> (\<forall>(i, r) \<in> set m'. vr_id r = i \<and> P r)
        \<and> fst ` set m' = fst ` set m \<union> vr_id ` set rs)"
  using assms
proof (induction rs arbitrary: m)
  case (Cons r rs)
  let ?m = "AList.update (vr_id r) r m"
  have "distinct (map fst ?m)" using Cons.prems(1) by (rule distinct_update)
  moreover have "\<forall>(i, r) \<in> set ?m. vr_id r = i \<and> P r"
    using Cons.prems by (auto simp: set_alist_update)
  moreover have "fst ` set ?m = insert (vr_id r) (fst ` set m)" by (simp add: dom_update)
  ultimately show ?case using Cons.IH [of ?m] Cons.prems(3) by (auto simp: Let_def)
qed simp

lemma memory_upsert_ok:
  assumes "vectors_ok rnd fadd fsqrt s"
  shows "vectors_ok rnd fadd fsqrt (snd (memory_upsert rnd fadd fsqrt rs s))"
    and "fst (memory_upsert rnd fadd fsqrt rs s) = Inr c \<Longrightarrow>
      memory_held (snd (memory_upsert rnd fadd fsqrt rs s)) = memory_held s \<union> vr_id ` set rs"
    and "fst (memory_upsert rnd fadd fsqrt rs s) = Inl e \<Longrightarrow> snd (memory_upsert rnd fadd fsqrt rs s) = s"
proof -
  define P where "P r \<longleftrightarrow> vector_record_ok r \<and> int (length (vr_vector r)) = mv_dimension s
    \<and> vector_norm rnd fadd fsqrt (vr_vector r) \<noteq> 0" for r
  let ?b = "check_batch (check_vector rnd fadd fsqrt (mv_dimension s)) [] rs"
  have "\<forall>r \<in> set rs. P r" if "?b = Inr u" for u
    using check_batch_Inr [OF that] by (auto simp: P_def check_vector_def split: if_splits)
  then have "let m' = foldl (\<lambda>m r. AList.update (vr_id r) r m) (mv_records s) rs
     in distinct (map fst m') \<and> (\<forall>(i, r) \<in> set m'. vr_id r = i \<and> P r)
        \<and> fst ` set m' = fst ` set (mv_records s) \<union> vr_id ` set rs" if "?b = Inr u" for u
    using assms that by (intro updates_ok) (auto simp: vectors_ok_def P_def)
  then show "vectors_ok rnd fadd fsqrt (snd (memory_upsert rnd fadd fsqrt rs s))"
    "fst (memory_upsert rnd fadd fsqrt rs s) = Inr c \<Longrightarrow>
      memory_held (snd (memory_upsert rnd fadd fsqrt rs s)) = memory_held s \<union> vr_id ` set rs"
    using assms by (auto simp: memory_upsert_def vectors_ok_def P_def memory_held_def Let_def split: sum.splits)
  show "fst (memory_upsert rnd fadd fsqrt rs s) = Inl e \<Longrightarrow> snd (memory_upsert rnd fadd fsqrt rs s) = s"
    by (auto simp: memory_upsert_def Let_def split: sum.splits)
qed

lemma memory_search_state: "snd (memory_search rnd fadd fsqrt q k f s) = s"
  by (simp add: memory_search_def Let_def split: sum.splits)

text \<open>What a search finds: stored records of the filter's documents, each once, with its score, best first.\<close>

lemma memory_search_Inr:
  assumes "fst (memory_search rnd fadd fsqrt q k f s) = Inr hits" and "vectors_ok rnd fadd fsqrt s"
  shows "vh_id ` set hits \<subseteq> memory_held s" and "distinct (map vh_id hits)" and "int (length hits) \<le> k"
    and "sorted (map (\<lambda>h. (- vh_score h, vh_id h)) hits)"
    and "\<forall>h \<in> set hits. \<exists>r. (vh_id h, r) \<in> set (mv_records s) \<and> h = hit_of_record (vh_score h) r
      \<and> (\<forall>documents. Option.bind f filter_documents = Some documents \<longrightarrow> vh_document h \<in> documents)"
proof -
  let ?docs = "Option.bind f filter_documents"
  obtain n where n: "check_vector rnd fadd fsqrt (mv_dimension s) q = Inr n" and k: "0 < k"
    using assms(1) by (auto simp: memory_search_def split: if_splits sum.splits)
  define K where "K = filter (\<lambda>(_, r). ?docs = None \<or> vr_document r \<in> the ?docs) (mv_records s)"
  define T where "T = take (nat k) (sort_key (\<lambda>(score, i, _ :: vector_record). (- score, i))
    (map (\<lambda>(i, r). (cosine rnd fadd fsqrt q n (vr_vector r), i, r)) K))"
  have hits: "hits = map (\<lambda>(score, _, r). hit_of_record score r) T"
    using assms(1) n k by (simp add: memory_search_def Let_def T_def K_def)
  have mem: "(i, r) \<in> set (mv_records s) \<and> vr_id r = i \<and> (\<forall>documents. ?docs = Some documents \<longrightarrow> vr_document r \<in> documents)"
    if "(score, i, r) \<in> set T" for score i r
    using that assms(2) by (auto simp: T_def K_def vectors_ok_def dest!: in_set_takeD)
  have ids: "map vh_id hits = map (\<lambda>(_, i, _). i) T"
    unfolding hits by (auto simp: hit_of_record_def dest: mem)
  have each: "\<exists>r. (vh_id h, r) \<in> set (mv_records s) \<and> h = hit_of_record (vh_score h) r
      \<and> (\<forall>documents. ?docs = Some documents \<longrightarrow> vh_document h \<in> documents)" if h: "h \<in> set hits" for h
  proof -
    from h obtain score i r where t: "(score, i, r) \<in> set T" "h = hit_of_record score r" unfolding hits by auto
    then show ?thesis using mem [OF t(1)] by (intro exI [of _ r]) (auto simp: hit_of_record_def)
  qed
  then show "vh_id ` set hits \<subseteq> memory_held s" by (force simp: memory_held_def)
  show "int (length hits) \<le> k" using k by (simp add: hits T_def)
  show "distinct (map vh_id hits)"
  proof -
    have "distinct (map fst K)" using assms(2) unfolding K_def vectors_ok_def by (simp add: distinct_map_filter)
    then have "distinct (map (\<lambda>(_, i, _). i) (map (\<lambda>(i, r). (cosine rnd fadd fsqrt q n (vr_vector r), i, r)) K))"
      by (simp add: comp_def case_prod_beta)
    then have "distinct (map (\<lambda>(_, i, _). i) (sort_key (\<lambda>(score, i, _ :: vector_record). (- score, i))
        (map (\<lambda>(i, r). (cosine rnd fadd fsqrt q n (vr_vector r), i, r)) K)))" by (simp only: distinct_map_sort_key)
    then show ?thesis unfolding ids T_def by (simp add: take_map [symmetric])
  qed
  have "map (\<lambda>h. (- vh_score h, vh_id h)) hits = map (\<lambda>(score, i, _). (- score, i)) T"
    unfolding hits by (auto simp: hit_of_record_def dest: mem)
  then show "sorted (map (\<lambda>h. (- vh_score h, vh_id h)) hits)" by (simp add: T_def take_map [symmetric] sorted_wrt_take)
  show "\<forall>h \<in> set hits. \<exists>r. (vh_id h, r) \<in> set (mv_records s) \<and> h = hit_of_record (vh_score h) r
      \<and> (\<forall>documents. ?docs = Some documents \<longrightarrow> vh_document h \<in> documents)"
    using each by blast
qed

subsection \<open>The offline embedding provider\<close>

text \<open>
  \<^verbatim>\<open>DeterministicHashEmbeddingProvider\<close> of \<^verbatim>\<open>retrieval/embeddings.py\<close>: \<open>digest\<close> gives the bytes of SHA-256,
  \<open>fold_text\<close> normalizes and lowers. The counts in a vector are small integers and therefore exact.
\<close>

definition embedding_char :: "nat \<Rightarrow> bool" where
  "embedding_char c \<longleftrightarrow> 13312 \<le> c \<and> c \<le> 40959"

function embedding_tokens :: "pystr \<Rightarrow> pystr list" where
  "embedding_tokens [] = []"
| "embedding_tokens (c # s) =
     (if ascii_alnum c then takeWhile ascii_alnum (c # s) # embedding_tokens (dropWhile ascii_alnum s)
      else if embedding_char c then [c] # embedding_tokens s else embedding_tokens s)"
  by pat_completeness auto

termination
proof (relation "measure length")
  show "(dropWhile ascii_alnum s, c # s) \<in> measure length" for c :: nat and s
    using length_dropWhile_le [of ascii_alnum s] by (simp add: le_imp_less_Suc)
qed simp_all

definition add_token :: "(pystr \<Rightarrow> nat list) \<Rightarrow> nat \<Rightarrow> rat list \<Rightarrow> pystr \<Rightarrow> rat list" where
  "add_token digest dimension v token =
     (let bytes = digest token; i = foldl (\<lambda>n b. 256 * n + b) 0 (take 8 bytes) mod dimension
      in v[i := v ! i + (if even (bytes ! 8) then 1 else - 1)])"

definition hash_embed ::
  "(rat \<Rightarrow> rat) \<Rightarrow> (rat list \<Rightarrow> rat) \<Rightarrow> (rat \<Rightarrow> rat) \<Rightarrow> (pystr \<Rightarrow> nat list) \<Rightarrow> (pystr \<Rightarrow> pystr) \<Rightarrow> nat \<Rightarrow> pystr
     \<Rightarrow> string + rat list" where
  "hash_embed rnd fadd fsqrt digest fold_text dimension s =
     (if blank s then Inl ''embedding text cannot be empty or whitespace''
      else let tokens = embedding_tokens (fold_text s) in
        if tokens = [] then Inl ''embedding text contains no supported tokens''
        else let v = foldl (add_token digest dimension) (replicate dimension 0) tokens; n = vector_norm rnd fadd fsqrt v
          in if n = 0 then Inl ''text tokens collapsed to a zero vector'' else Inr (map (\<lambda>x. rnd (x / n)) v))"

lemma hash_embed_length: "hash_embed rnd fadd fsqrt digest fold_text dimension s = Inr v \<Longrightarrow> length v = dimension"
proof -
  have "length (foldl (add_token digest dimension) v ts) = length v" for v ts
    by (induction ts arbitrary: v) (simp_all add: add_token_def Let_def)
  then show "hash_embed rnd fadd fsqrt digest fold_text dimension s = Inr v \<Longrightarrow> length v = dimension"
    by (auto simp: hash_embed_def Let_def split: if_splits)
qed

text \<open>An embedding provider that computes locally, without a state of its own, over the in-memory store.\<close>

definition local_services ::
  "(rat \<Rightarrow> rat) \<Rightarrow> (rat list \<Rightarrow> rat) \<Rightarrow> (rat \<Rightarrow> rat) \<Rightarrow> int \<Rightarrow> (pystr \<Rightarrow> string + rat list) \<Rightarrow> memory_vectors dense_services" where
  "local_services rnd fadd fsqrt dimension emb =
     \<lparr>dn_dimension = dimension, dn_embed_documents = (\<lambda>ts w. (res_map emb ts, w)),
      dn_embed_query = (\<lambda>q w. (emb q, w)), dn_upsert = memory_upsert rnd fadd fsqrt,
      dn_search = memory_search rnd fadd fsqrt, dn_ids = memory_ids\<rparr>"

interpretation local_dense: dense_world "vectors_ok rnd fadd fsqrt" memory_held
  "local_services rnd fadd fsqrt dimension emb" for rnd fadd fsqrt dimension emb
proof unfold_locales
  fix w rs c e v k f hits "is" ts q
  assume w: "vectors_ok rnd fadd fsqrt w"
  let ?S = "local_services rnd fadd fsqrt dimension emb"
  show "vectors_ok rnd fadd fsqrt (snd (dn_upsert ?S rs w))"
    using memory_upsert_ok(1) [OF w] by (simp add: local_services_def)
  show "fst (dn_upsert ?S rs w) = Inr c \<Longrightarrow> memory_held (snd (dn_upsert ?S rs w)) = memory_held w \<union> vr_id ` set rs"
    using memory_upsert_ok(2) [OF w] by (simp add: local_services_def)
  show "fst (dn_upsert ?S rs w) = Inl e \<Longrightarrow> memory_held (snd (dn_upsert ?S rs w)) = memory_held w"
    using memory_upsert_ok(3) [OF w] by (simp add: local_services_def)
  show "vectors_ok rnd fadd fsqrt (snd (dn_search ?S v k f w)) \<and> memory_held (snd (dn_search ?S v k f w)) = memory_held w"
    using w by (simp add: local_services_def memory_search_state)
  show "fst (dn_search ?S v k f w) = Inr hits \<Longrightarrow>
      vh_id ` set hits \<subseteq> memory_held w \<and> distinct (map vh_id hits) \<and> int (length hits) \<le> k"
    using memory_search_Inr [OF _ w] by (simp add: local_services_def)
  show "vectors_ok rnd fadd fsqrt (snd (dn_ids ?S w)) \<and> memory_held (snd (dn_ids ?S w)) = memory_held w"
    using w by (simp add: local_services_def memory_ids_def)
  show "fst (dn_ids ?S w) = Inr is \<Longrightarrow> is = memory_held w"
    by (auto simp: local_services_def memory_ids_def memory_held_def)
  show "vectors_ok rnd fadd fsqrt (snd (dn_embed_documents ?S ts w)) \<and> memory_held (snd (dn_embed_documents ?S ts w)) = memory_held w"
    "vectors_ok rnd fadd fsqrt (snd (dn_embed_query ?S q w)) \<and> memory_held (snd (dn_embed_query ?S q w)) = memory_held w"
    using w by (simp_all add: local_services_def)
qed

end
