(* ===== verification/RetrievalInputs.thy ===== *)
theory RetrievalInputs
  imports VectorStore ProviderReplies
begin

section \<open>Retrieval: the reranker and the generated corpus\<close>

text \<open>
  \<^verbatim>\<open>retrieval/reranking.py\<close>, and the loading of the corpus in \<^verbatim>\<open>retrieval/pipeline.py\<close>. The model library, the
  files, the parser of JSON text and the reading of an integer are arguments. Timings and deep copies are
  left out; scores are finite floats, so the checks for finiteness have nothing to refuse.
\<close>

subsection \<open>Reranking\<close>

record rerank_candidate =
  rk_document :: pystr
  rk_candidate :: "pystr option"
  rk_content :: pystr
  rk_rank :: int
  rk_record :: "pystr option"
  rk_score :: "rat option"
  rk_metadata :: "(pystr \<times> json) list"
  rk_provenance :: "(pystr \<times> json) list"

definition rerank_candidate_ok :: "rerank_candidate \<Rightarrow> bool" where
  "rerank_candidate_ok c \<longleftrightarrow> \<not> blank (rk_document c) \<and> \<not> blank (rk_content c) \<and> 0 < rk_rank c
     \<and> (\<forall>i \<in> set_option (rk_candidate c). \<not> blank i) \<and> rk_record c \<noteq> Some []"

record reranked =
  rr_rank :: int
  rr_document :: pystr
  rr_candidate :: "pystr option"
  rr_content :: pystr
  rr_score :: rat
  rr_upstream :: int
  rr_record :: "pystr option"
  rr_upstream_score :: "rat option"
  rr_metadata :: "(pystr \<times> json) list"
  rr_provenance :: "(pystr \<times> json) list"

definition rk_identity :: "rerank_candidate \<Rightarrow> pystr" where
  "rk_identity c = (case rk_candidate c of Some i \<Rightarrow> i | None \<Rightarrow> rk_document c)"

definition validate_candidates :: "rerank_candidate list \<Rightarrow> string + rerank_candidate list" where
  "validate_candidates cs =
     (if \<not> list_all rerank_candidate_ok cs then Inl ''reranker candidates are invalid''
      else if \<not> distinct (map rk_identity cs)
      then Inl (if list_all (\<lambda>c. rk_candidate c = None) cs
        then ''reranker candidates contain duplicate document_id values''
        else ''reranker candidates contain duplicate candidate identity values'')
      else if map rk_rank cs \<noteq> map int [1..<Suc (length cs)]
      then Inl ''reranker upstream ranks must be consecutive and start at one''
      else Inr cs)"

definition rerank_key :: "rerank_candidate \<times> rat \<Rightarrow> rat \<times> int \<times> pystr \<times> pystr \<times> pystr" where
  "rerank_key p = (case p of (c, score) \<Rightarrow>
     (- score, rk_rank c, rk_document c, or_empty (rk_candidate c), or_empty (rk_record c)))"

definition reranked_of :: "nat \<Rightarrow> rerank_candidate \<times> rat \<Rightarrow> reranked" where
  "reranked_of rank p = (case p of (c, score) \<Rightarrow>
     \<lparr>rr_rank = int rank, rr_document = rk_document c, rr_candidate = rk_candidate c, rr_content = rk_content c,
      rr_score = score, rr_upstream = rk_rank c, rr_record = rk_record c, rr_upstream_score = rk_score c,
      rr_metadata = rk_metadata c, rr_provenance = rk_provenance c\<rparr>)"

text \<open>The adapter keeps whether its model is loaded; \<open>ce_load\<close> and \<open>ce_predict\<close> are the model library.\<close>

record 'w cross_encoder =
  ce_load :: "'w \<Rightarrow> (string + unit) \<times> 'w"
  ce_predict :: "(pystr \<times> pystr) list \<Rightarrow> 'w \<Rightarrow> (string + rat list) \<times> 'w"

definition load_encoder :: "'w cross_encoder \<Rightarrow> bool \<times> 'w \<Rightarrow> (string + unit) \<times> bool \<times> 'w" where
  "load_encoder E s = (case s of (ready, w) \<Rightarrow>
     if ready then (Inr (), True, w)
     else (case ce_load E w of
         (Inl _, w) \<Rightarrow> (Inl ''failed to load configured cross-encoder model'', False, w)
       | (Inr _, w) \<Rightarrow> (Inr (), True, w)))"

definition cross_rerank ::
  "'w cross_encoder \<Rightarrow> pystr \<Rightarrow> rerank_candidate list \<Rightarrow> int option \<Rightarrow> bool \<times> 'w
     \<Rightarrow> (string + reranked list) \<times> bool \<times> 'w" where
  "cross_rerank E q cs limit s =
     (if blank q then (Inl ''reranker query cannot be empty or whitespace'', s)
      else if (case limit of None \<Rightarrow> False | Some n \<Rightarrow> n \<le> 0)
      then (Inl ''reranker top_k must be a positive integer'', s)
      else (case validate_candidates cs of
          Inl e \<Rightarrow> (Inl e, s)
        | Inr [] \<Rightarrow> (Inr [], s)
        | Inr cs \<Rightarrow> (case load_encoder E s of
            (Inl e, s) \<Rightarrow> (Inl e, s)
          | (Inr _, ready, w) \<Rightarrow> (case ce_predict E (map (\<lambda>c. (q, rk_content c)) cs) w of
              (Inl _, w) \<Rightarrow> (Inl ''cross-encoder prediction failed'', ready, w)
            | (Inr scores, w) \<Rightarrow>
                if length scores \<noteq> length cs then (Inl ''cross-encoder returned invalid score output'', ready, w)
                else (Inr (map (\<lambda>(i, p). reranked_of i p)
                       (enum1 (top_n limit (sort_key rerank_key (zip cs scores))))), ready, w)))))"

text \<open>
  What the pipeline relies on of a reranker: the results are candidates, each at most once, numbered
  from one and no more than asked for.
\<close>

definition reranked_from :: "rerank_candidate \<Rightarrow> reranked \<Rightarrow> bool" where
  "reranked_from c r \<longleftrightarrow> rr_document r = rk_document c \<and> rr_candidate r = rk_candidate c \<and> rr_record r = rk_record c
     \<and> rr_content r = rk_content c \<and> rr_upstream r = rk_rank c"

definition rerank_reply :: "rerank_candidate list \<Rightarrow> int option \<Rightarrow> reranked list \<Rightarrow> bool" where
  "rerank_reply cs limit rs \<longleftrightarrow> map rr_rank rs = map int [1..<Suc (length rs)]
     \<and> (\<forall>r \<in> set rs. \<exists>c \<in> set cs. reranked_from c r) \<and> distinct (map rr_upstream rs)
     \<and> (\<forall>n \<in> set_option limit. int (length rs) \<le> n)"

locale reranker =
  fixes rerank :: "pystr \<Rightarrow> rerank_candidate list \<Rightarrow> int option \<Rightarrow> 'w \<Rightarrow> (string + reranked list) \<times> 'w"
  assumes replies: "fst (rerank q cs limit w) = Inr rs \<Longrightarrow> rerank_reply cs limit rs"
begin

lemma reply_identified:
  assumes "rerank q cs limit w = (Inr rs, w')" and "r \<in> set rs"
  obtains c where "c \<in> set cs" "rr_candidate r = rk_candidate c" "rr_document r = rk_document c"
  using replies [of q cs limit w rs] assms by (auto simp: rerank_reply_def reranked_from_def)

end

lemma validate_candidates_Inr:
  "validate_candidates cs = Inr cs' \<Longrightarrow> cs' = cs \<and> map rk_rank cs = map int [1..<Suc (length cs)] \<and> distinct (map rk_identity cs)"
  by (simp add: validate_candidates_def split: if_splits)

lemma reranked_of_fields [simp]: "rr_rank (reranked_of i p) = int i" "rr_upstream (reranked_of i p) = rk_rank (fst p)"
  by (simp_all add: reranked_of_def case_prod_beta)

lemma cross_rerank_reply:
  assumes "fst (cross_rerank E q cs limit s) = Inr rs"
  shows "rerank_reply cs limit rs"
proof -
  have lim: "\<forall>n \<in> set_option limit. 0 < n"
    using assms by (auto simp: cross_rerank_def split: if_splits option.splits)
  obtain cs' where v: "validate_candidates cs = Inr cs'"
    using assms by (auto simp: cross_rerank_def split: if_splits sum.splits)
  note v' = validate_candidates_Inr [OF v]
  show ?thesis
  proof (cases "cs = []")
    case True
    then have "rs = []" using assms v v' by (auto simp: cross_rerank_def split: if_splits)
    then show ?thesis using lim by (auto simp: rerank_reply_def)
  next
    case False
    then obtain scores where scores: "length scores = length cs"
      and rs: "rs = map (\<lambda>(i, p). reranked_of i p) (enum1 (top_n limit (sort_key rerank_key (zip cs scores))))"
      using assms v v' by (cases cs) (auto simp: cross_rerank_def split: if_splits prod.splits sum.splits)
    define T where "T = top_n limit (sort_key rerank_key (zip cs scores))"
    have sub: "c \<in> set cs" if "(c, score) \<in> set T" for c score
      using that by (auto simp: T_def top_take dest!: in_set_takeD set_zip_leftD)
    have "map rr_rank rs = map int (map fst (enum1 T))" unfolding rs T_def by (simp add: case_prod_beta comp_def del: map_fst_enum1)
    then have ranks: "map rr_rank rs = map int [1..<Suc (length rs)]" by (simp add: rs T_def del: upt_Suc)
    have "map rr_upstream rs = map (rk_rank \<circ> fst \<circ> snd) (enum1 T)" unfolding rs T_def by (simp add: case_prod_beta comp_def)
    also have "\<dots> = map (rk_rank \<circ> fst) T" by (metis map_map map_snd_enum1)
    finally have up: "map rr_upstream rs = map (rk_rank \<circ> fst) T" .
    have "distinct (map (rk_rank \<circ> fst) (zip cs scores))"
      using v' scores by (simp add: map_map [symmetric] distinct_map del: map_map upt_Suc)
    then have "distinct (map (rk_rank \<circ> fst) (sort_key rerank_key (zip cs scores)))" by (simp only: distinct_map_sort_key)
    then have "distinct (map rr_upstream rs)" unfolding up T_def by (simp add: top_take take_map [symmetric])
    moreover have "\<exists>c \<in> set cs. reranked_from c r" if r: "r \<in> set rs" for r
    proof -
      from r obtain i c score where t: "(i, c, score) \<in> set (enum1 T)" "r = reranked_of i (c, score)"
        unfolding rs T_def by auto
      then have "(c, score) \<in> set T" by (metis map_snd_enum1 set_zip_rightD zip_map_fst_snd)
      then show ?thesis using sub t(2) by (intro bexI [of _ c]) (auto simp: reranked_from_def reranked_of_def)
    qed
    moreover have "\<forall>n \<in> set_option limit. int (length rs) \<le> n"
      using lim by (auto simp: rs top_n_def)
    ultimately show ?thesis using ranks unfolding rerank_reply_def by blast
  qed
qed

interpretation cross: reranker "cross_rerank E" for E
  by unfold_locales (rule cross_rerank_reply)

text \<open>A valid batch is answered whenever the model loads and predicts one score for each pair.\<close>

lemma cross_rerank_returns:
  assumes "\<not> blank q" and "validate_candidates cs = Inr cs" and "\<forall>n \<in> set_option limit. 0 < n"
    and "fst (load_encoder E s) = Inr ()"
    and "\<And>w. \<exists>scores w'. ce_predict E (map (\<lambda>c. (q, rk_content c)) cs) w = (Inr scores, w') \<and> length scores = length cs"
  shows "\<exists>rs. fst (cross_rerank E q cs limit s) = Inr rs"
proof (cases cs)
  case (Cons c rest)
  obtain ready w where l: "load_encoder E s = (Inr (), ready, w)"
    using assms(4) by (metis prod.collapse)
  from assms(5) [of w] Cons l assms(1-3) show ?thesis
    by (auto simp: cross_rerank_def split: option.splits)
qed (use assms in \<open>auto simp: cross_rerank_def split: option.splits\<close>)

subsection \<open>The generated corpus\<close>

definition path_parts :: "pystr \<Rightarrow> pystr list" where
  "path_parts s = (let (parts, last) = foldr (\<lambda>c (parts, cur). if c = 47 then (cur # parts, []) else (parts, c # cur)) s ([], [])
     in last # parts)"

text \<open>The checks of a row: its version, its source (a relative path without a parent step) and its objects.\<close>

definition windows_absolute :: "pystr \<Rightarrow> bool" where
  "windows_absolute s = (case s of _ # c # d # _ \<Rightarrow> c = 58 \<and> d = 47 | _ \<Rightarrow> False)"

definition check_row :: "(pystr \<times> json) list \<Rightarrow> string + unit" where
  "check_row row =
     (if jget row ''schema_version'' \<noteq> JStr (lit ''1.0'') then Inl ''generated chunk schema_version must be 1.0''
      else (case jget row ''source'' of
          JStr source \<Rightarrow>
            if blank source then Inl ''generated chunk source must be nonempty''
            else if \<not> is_object (jget row ''metadata'') \<or> \<not> is_object (jget row ''provenance'')
            then Inl ''generated chunk metadata and provenance must be objects''
            else if hd source = 47 \<or> windows_absolute source \<or> 92 \<in> set source \<or> lit ''..'' \<in> set (path_parts source)
            then Inl ''generated chunk source must be a relative POSIX path'' else Inr ()
        | _ \<Rightarrow> Inl ''generated chunk source must be nonempty''))"

definition object_fields :: "json \<Rightarrow> (pystr \<times> json) list" where
  "object_fields v = (case v of JObj fs \<Rightarrow> fs | _ \<Rightarrow> [])"

definition runtime_metadata :: "(pystr \<times> json) list \<Rightarrow> bool \<Rightarrow> (pystr \<times> json) list" where
  "runtime_metadata row child =
     (let put = (\<lambda>name m. AList.update (lit name) (jget row name) m);
          m = put ''end_offset'' (put ''start_offset'' (put ''source'' (put ''document_version''
                (object_fields (jget row ''metadata'')))));
          m = (if child then put ''parent_id'' m else m);
          m = (if jget row ''page_number'' \<noteq> JNull then put ''page_number'' m else m)
      in case text_of_source (jget (object_fields (jget row ''provenance'')) ''parser_name'') of
           None \<Rightarrow> m | Some name \<Rightarrow> AList.update (lit ''parser_name'') (JStr name) m)"

definition metadata_value_ok :: "json \<Rightarrow> bool" where
  "metadata_value_ok v = (case v of JObj _ \<Rightarrow> False | JList vs \<Rightarrow> list_all (\<lambda>v. case v of JStr _ \<Rightarrow> True | _ \<Rightarrow> False) vs
     | _ \<Rightarrow> True)"

definition text_at :: "(pystr \<times> json) list \<Rightarrow> string \<Rightarrow> pystr option" where
  "text_at row name = (case jget row name of JStr s \<Rightarrow> Some s | _ \<Rightarrow> None)"

definition page_at :: "(json \<Rightarrow> int option) \<Rightarrow> (pystr \<times> json) list \<Rightarrow> int option option" where
  "page_at as_int row = (if jget row ''page_number'' = JNull then Some None
     else map_option Some (as_int (jget row ''page_number'')))"

text \<open>A key that the code reads with \<^verbatim>\<open>row[...]\<close> must be present, even where null is allowed.\<close>

definition offset_at :: "(json \<Rightarrow> int option) \<Rightarrow> (pystr \<times> json) list \<Rightarrow> string \<Rightarrow> int option option" where
  "offset_at as_int row name = (case map_of row (lit name) of
       None \<Rightarrow> None | Some JNull \<Rightarrow> Some None | Some v \<Rightarrow> map_option Some (as_int v))"

definition texts_of :: "json \<Rightarrow> pystr list option" where
  "texts_of v = (case v of
       JList vs \<Rightarrow> if list_all (\<lambda>v. case v of JStr _ \<Rightarrow> True | _ \<Rightarrow> False) vs
         then Some (map (\<lambda>v. case v of JStr s \<Rightarrow> s | _ \<Rightarrow> []) vs) else None
     | _ \<Rightarrow> None)"

definition schema_invalid :: string where
  "schema_invalid = ''generated parent/child chunk schema is invalid''"

definition parent_from_row :: "(json \<Rightarrow> int option) \<Rightarrow> (pystr \<times> json) list \<Rightarrow> string + parent_chunk" where
  "parent_from_row as_int row = res_bind (check_row row) (\<lambda>_.
     (case (text_at row ''chunk_id'', text_at row ''document_id'', text_at row ''document_version'', text_at row ''content'',
        texts_of (jget row ''block_ids''), page_at as_int row, as_int (jget row ''start_offset''), as_int (jget row ''end_offset'')) of
        (Some i, Some document, Some version, Some content, Some blocks, Some page, Some a, Some b) \<Rightarrow>
          if \<not> list_all (metadata_value_ok \<circ> snd) (runtime_metadata row False) then Inl schema_invalid
          else (case new_parent_chunk \<lparr>pc_id = i, pc_document_id = document, pc_document_version = version,
              pc_content = content, pc_block_ids = blocks, pc_page = page, pc_source = text_at row ''source'',
              pc_start = a, pc_end = b, pc_metadata = runtime_metadata row False\<rparr> of
              Inl _ \<Rightarrow> Inl schema_invalid | Inr p \<Rightarrow> Inr p)
      | _ \<Rightarrow> Inl schema_invalid))"

definition child_from_row :: "(json \<Rightarrow> int option) \<Rightarrow> (pystr \<times> json) list \<Rightarrow> string + child_chunk" where
  "child_from_row as_int row = res_bind (check_row row) (\<lambda>_.
     (case (text_at row ''chunk_id'', text_at row ''parent_id'', text_at row ''document_id'', text_at row ''document_version'',
        text_at row ''content'', page_at as_int row, offset_at as_int row ''start_offset'', offset_at as_int row ''end_offset'') of
        (Some i, Some parent, Some document, Some version, Some content, Some page, Some a, Some b) \<Rightarrow>
          if \<not> list_all (metadata_value_ok \<circ> snd) (runtime_metadata row True) then Inl schema_invalid
          else (case new_child_chunk \<lparr>cc_id = i, cc_parent_id = parent, cc_document_id = document,
              cc_document_version = version, cc_content = content, cc_page = page, cc_source = text_at row ''source'',
              cc_start = a, cc_end = b, cc_metadata = runtime_metadata row True\<rparr> of
              Inl _ \<Rightarrow> Inl schema_invalid | Inr c \<Rightarrow> Inr c)
      | _ \<Rightarrow> Inl schema_invalid))"

text \<open>A file is its lines, or nothing when it cannot be read.\<close>

definition read_jsonl ::
  "(pystr \<Rightarrow> json option) \<Rightarrow> pystr list option \<Rightarrow> string + (pystr \<times> json) list list" where
  "read_jsonl parse file = (case file of
       None \<Rightarrow> Inl ''cannot read generated chunk file''
     | Some lines \<Rightarrow> res_map (\<lambda>line. case parse line of
         Some (JObj fs) \<Rightarrow> Inr fs | _ \<Rightarrow> Inl ''generated chunk file is invalid'') (filter (\<lambda>line. \<not> blank line) lines))"

definition child_within :: "parent_chunk list \<Rightarrow> child_chunk \<Rightarrow> bool" where
  "child_within parents c = (case find (\<lambda>p. pc_id p = cc_parent_id c) parents of
       None \<Rightarrow> False
     | Some p \<Rightarrow> pc_document_id p = cc_document_id c \<and> pc_document_version p = cc_document_version c
         \<and> pc_source p = cc_source c
         \<and> (case (cc_start c, cc_end c) of (Some a, Some b) \<Rightarrow> pc_start p \<le> a \<and> b \<le> pc_end p | _ \<Rightarrow> False))"

record corpus_files =
  cf_parse :: "pystr \<Rightarrow> json option"
  cf_int :: "json \<Rightarrow> int option"
  cf_direct :: bool
  cf_lines :: "bool \<Rightarrow> string \<Rightarrow> pystr list option"

definition load_chunks :: "corpus_files \<Rightarrow> string + parent_chunk list \<times> child_chunk list" where
  "load_chunks F =
     res_bind (read_jsonl (cf_parse F) (cf_lines F (cf_direct F) ''parent_chunks.jsonl'')) (\<lambda>parent_rows.
     res_bind (read_jsonl (cf_parse F) (cf_lines F (cf_direct F) ''child_chunks.jsonl'')) (\<lambda>child_rows.
     res_bind (res_map (parent_from_row (cf_int F)) parent_rows) (\<lambda>parents.
     res_bind (res_map (child_from_row (cf_int F)) child_rows) (\<lambda>children.
       if parents = [] \<or> children = [] then Inl ''generated parent and child chunks cannot be empty''
       else if \<not> distinct (map pc_id parents) then Inl ''generated parent chunk IDs must be unique''
       else if \<not> distinct (map cc_id children) then Inl ''generated child chunk IDs must be unique''
       else if \<not> list_all (child_within parents) children then Inl ''generated child has an invalid parent relation''
       else Inr (parents, children)))))"

subsection \<open>What a loaded corpus is\<close>

definition corpus_ok :: "parent_chunk list \<Rightarrow> child_chunk list \<Rightarrow> bool" where
  "corpus_ok parents children \<longleftrightarrow> parents \<noteq> [] \<and> children \<noteq> []
     \<and> distinct (map pc_id parents) \<and> distinct (map cc_id children)
     \<and> (\<forall>p \<in> set parents. new_parent_chunk p = Inr p \<and> text_of_source (source_json (pc_source p)) = pc_source p)
     \<and> (\<forall>c \<in> set children. new_child_chunk c = Inr c \<and> (\<exists>s. cc_source c = Some s \<and> \<not> blank s)
          \<and> (\<exists>p \<in> set parents. pc_id p = cc_parent_id c \<and> pc_document_id p = cc_document_id c
               \<and> pc_document_version p = cc_document_version c \<and> pc_source p = cc_source c
               \<and> (\<exists>a b. cc_start c = Some a \<and> cc_end c = Some b \<and> pc_start p \<le> a \<and> b \<le> pc_end p)))"

lemma check_row_source: "check_row row = Inr u \<Longrightarrow> \<exists>s. text_at row ''source'' = Some s \<and> \<not> blank s"
  by (auto simp: check_row_def text_at_def split: if_splits json.splits)

lemma new_parent_chunk_id: "new_parent_chunk p = Inr p' \<Longrightarrow> p' = p"
  by (auto simp: new_parent_chunk_def split: if_splits)

lemma new_child_chunk_id: "new_child_chunk c = Inr c' \<Longrightarrow> c' = c"
  by (auto simp: new_child_chunk_def split: if_splits option.splits)

lemma parent_from_row_Inr:
  assumes "parent_from_row as_int row = Inr p"
  shows "new_parent_chunk p = Inr p \<and> text_of_source (source_json (pc_source p)) = pc_source p"
proof -
  obtain u where u: "check_row row = Inr u" using assms by (auto simp: parent_from_row_def res_simps)
  from check_row_source [OF u] obtain s where s: "text_at row ''source'' = Some s" "\<not> blank s" by blast
  from assms u obtain p0 where p0: "new_parent_chunk p0 = Inr p" "pc_source p0 = Some s"
    by (auto simp: parent_from_row_def s split: if_splits option.splits sum.splits)
  with new_parent_chunk_id [OF p0(1)] s(2) show ?thesis by (simp add: text_of_source_def source_json_def)
qed

lemma child_from_row_Inr:
  assumes "child_from_row as_int row = Inr c"
  shows "new_child_chunk c = Inr c \<and> (\<exists>s. cc_source c = Some s \<and> \<not> blank s)"
proof -
  obtain u where u: "check_row row = Inr u" using assms by (auto simp: child_from_row_def res_simps)
  from check_row_source [OF u] obtain s where s: "text_at row ''source'' = Some s" "\<not> blank s" by blast
  from assms u obtain c0 where c0: "new_child_chunk c0 = Inr c" "cc_source c0 = Some s"
    by (auto simp: child_from_row_def s split: if_splits option.splits sum.splits)
  with new_child_chunk_id [OF c0(1)] s(2) show ?thesis by simp
qed

lemma load_chunks_ok:
  assumes "load_chunks F = Inr (parents, children)"
  shows "corpus_ok parents children"
proof -
  from assms obtain prows crows where p: "res_map (parent_from_row (cf_int F)) prows = Inr parents"
    and c: "res_map (child_from_row (cf_int F)) crows = Inr children"
    and ok: "parents \<noteq> []" "children \<noteq> []" "distinct (map pc_id parents)" "distinct (map cc_id children)"
      "list_all (child_within parents) children"
    by (auto simp: load_chunks_def res_simps split: if_splits)
  have "\<forall>p \<in> set parents. new_parent_chunk p = Inr p \<and> text_of_source (source_json (pc_source p)) = pc_source p"
    by (rule res_map_all [OF p]) (rule parent_from_row_Inr)
  moreover have "\<forall>c \<in> set children. new_child_chunk c = Inr c \<and> (\<exists>s. cc_source c = Some s \<and> \<not> blank s)"
    by (rule res_map_all [OF c]) (rule child_from_row_Inr)
  moreover have "\<exists>p \<in> set parents. pc_id p = cc_parent_id c \<and> pc_document_id p = cc_document_id c
      \<and> pc_document_version p = cc_document_version c \<and> pc_source p = cc_source c
      \<and> (\<exists>a b. cc_start c = Some a \<and> cc_end c = Some b \<and> pc_start p \<le> a \<and> b \<le> pc_end p)" if "c \<in> set children" for c
  proof -
    have w: "child_within parents c" using ok(5) that by (simp add: list_all_iff)
    then obtain p where f: "find (\<lambda>p. pc_id p = cc_parent_id c) parents = Some p"
      by (auto simp: child_within_def split: option.splits)
    with w find_SomeD [OF f] show ?thesis
      by (intro bexI [of _ p]) (auto simp: child_within_def split: option.splits)
  qed
  ultimately show ?thesis using ok unfolding corpus_ok_def by blast
qed

end
