(* ===== verification/RetrievalPipeline.thy ===== *)
theory RetrievalPipeline
  imports RetrievalInputs
begin

section \<open>Retrieval: the hybrid pipeline\<close>

text \<open>
  \<^verbatim>\<open>retrieval/pipeline.py\<close>: one corpus is loaded and indexed once, and each query runs dense and lexical
  retrieval, fusion, reranking, parent expansion and evidence assembly. The files, the embedding
  provider, the vector store, the reranker and the arithmetic of floats are arguments; an exception of one of them, a
  cancellation included, is its left value and leaves the pipeline as it is. Timings, trace spans and deep
  copies are left out; the lock makes each \<^verbatim>\<open>initialize\<close> and \<^verbatim>\<open>close\<close> one step.
\<close>

subsection \<open>Configuration and services\<close>

record retrieval_config =
  rg_dense_top :: int
  rg_bm25_top :: int
  rg_rrf_top :: int
  rg_rrf_k :: rat
  rg_dense_weight :: rat
  rg_bm25_weight :: rat
  rg_candidates :: int
  rg_reranker_top :: int
  rg_parent_top :: int
  rg_evidence_count :: int
  rg_evidence_total :: int
  rg_evidence_each :: int

definition new_retrieval_config :: "retrieval_config \<Rightarrow> string + retrieval_config" where
  "new_retrieval_config g =
     (if rg_dense_top g \<le> 0 \<or> rg_bm25_top g \<le> 0 \<or> rg_rrf_top g \<le> 0 \<or> rg_rrf_k g \<le> 0 \<or> rg_dense_weight g \<le> 0
        \<or> rg_bm25_weight g \<le> 0 \<or> rg_candidates g \<le> 0 \<or> rg_reranker_top g \<le> 0 \<or> rg_parent_top g \<le> 0
        \<or> rg_evidence_count g \<le> 0 \<or> rg_evidence_total g \<le> 0 \<or> rg_evidence_each g \<le> 0
      then Inl ''greater than zero''
      else if rg_rrf_top g < rg_candidates g then Inl ''reranker candidate count cannot exceed RRF top_k''
      else if rg_candidates g < rg_reranker_top g then Inl ''reranker top_k cannot exceed its candidate count''
      else if rg_reranker_top g < rg_parent_top g then Inl ''parent top_k cannot exceed reranker top_k''
      else if rg_parent_top g < rg_evidence_count g then Inl ''evidence count cannot exceed parent top_k''
      else Inr g)"

definition default_retrieval_config :: retrieval_config where
  "default_retrieval_config = \<lparr>rg_dense_top = 10, rg_bm25_top = 10, rg_rrf_top = 10, rg_rrf_k = 60,
     rg_dense_weight = 1, rg_bm25_weight = 1, rg_candidates = 10, rg_reranker_top = 5, rg_parent_top = 5,
     rg_evidence_count = 5, rg_evidence_total = 6000, rg_evidence_each = 1800\<rparr>"

text \<open>The arithmetic, the folding of text and \<^verbatim>\<open>str\<close> of a metadata value, and the injected services.\<close>

record numerics =
  nu_rnd :: "rat \<Rightarrow> rat"
  nu_add :: "rat list \<Rightarrow> rat"
  nu_sqrt :: "rat \<Rightarrow> rat"
  nu_log :: "rat \<Rightarrow> rat"
  nu_fold :: "pystr \<Rightarrow> pystr"
  nu_str :: "json \<Rightarrow> pystr"

record 'w retrieval_services =
  rs_dense :: "'w dense_services"
  rs_store_dimension :: int
  rs_init_embedding :: "('w \<Rightarrow> (string + unit) \<times> 'w) option"
  rs_init_reranker :: "('w \<Rightarrow> (string + unit) \<times> 'w) option"
  rs_rerank :: "pystr \<Rightarrow> rerank_candidate list \<Rightarrow> int option \<Rightarrow> 'w \<Rightarrow> (string + reranked list) \<times> 'w"

record pipeline =
  pl_config :: retrieval_config
  pl_initialized :: bool
  pl_closed :: bool
  pl_upserted :: "upsert_counts option"
  pl_parents :: "parent_chunk list"
  pl_children :: "child_chunk list"
  pl_by_id :: "(pystr \<times> child_chunk) list"
  pl_dense :: bool
  pl_bm25 :: "bm25_index option"
  pl_expander :: "resolver option"
  pl_builder :: "evidence_builder option"

definition new_pipeline :: "'w retrieval_services \<Rightarrow> retrieval_config option \<Rightarrow> string + pipeline" where
  "new_pipeline S config =
     (if dn_dimension (rs_dense S) \<noteq> rs_store_dimension S then Inl ''embedding and vector store dimensions must match''
      else Inr \<lparr>pl_config = (case config of None \<Rightarrow> default_retrieval_config | Some g \<Rightarrow> g), pl_initialized = False,
        pl_closed = False, pl_upserted = None, pl_parents = [], pl_children = [], pl_by_id = [], pl_dense = False,
        pl_bm25 = None, pl_expander = None, pl_builder = None\<rparr>)"

subsection \<open>Initialization\<close>

definition initialize_dependency :: "('w \<Rightarrow> (string + unit) \<times> 'w) option \<Rightarrow> 'w \<Rightarrow> (string + unit) \<times> 'w" where
  "initialize_dependency init w = (case init of None \<Rightarrow> (Inr (), w) | Some start \<Rightarrow> start w)"

definition falsy :: "json \<Rightarrow> bool" where
  "falsy v = (case v of JNull \<Rightarrow> True | JBool b \<Rightarrow> \<not> b | JInt n \<Rightarrow> n = 0 | JReal x \<Rightarrow> x = 0 | JStr s \<Rightarrow> s = []
     | JList vs \<Rightarrow> vs = [] | JObj fs \<Rightarrow> fs = [])"

definition child_category :: "(json \<Rightarrow> pystr) \<Rightarrow> child_chunk \<Rightarrow> pystr" where
  "child_category show c = (let v = jget (cc_metadata c) ''category''
     in if falsy v then lit ''enterprise_kb'' else case v of JStr s \<Rightarrow> s | _ \<Rightarrow> show v)"

definition bm25_document_of :: "(json \<Rightarrow> pystr) \<Rightarrow> child_chunk \<Rightarrow> string + bm25_document" where
  "bm25_document_of show c =
     (let d = \<lparr>bd_record = cc_id c, bd_document = cc_document_id c, bd_candidate = Some (cc_id c),
            bd_content = cc_content c, bd_category = child_category show c, bd_source = or_empty (cc_source c),
            bd_metadata = cc_metadata c\<rparr>
      in if bm25_document_ok d then Inr d else Inl ''BM25 document'')"

definition index_corpus ::
  "numerics \<Rightarrow> 'w retrieval_services \<Rightarrow> bool \<Rightarrow> child_chunk list \<Rightarrow> 'w \<Rightarrow> (string + upsert_counts option) \<times> 'w" where
  "index_corpus N S ingest children w =
     (if ingest
      then (case dense_index (nu_rnd N) (nu_add N) (nu_sqrt N) (rs_dense S) children w of
          (Inl e, w) \<Rightarrow> (Inl e, w) | (Inr c, w) \<Rightarrow> (Inr (Some c), w))
      else (Inr None, w))"

definition start_services ::
  "numerics \<Rightarrow> parent_chunk list \<Rightarrow> child_chunk list \<Rightarrow> upsert_counts option \<Rightarrow> pipeline \<Rightarrow> (string + unit) \<times> pipeline" where
  "start_services N parents children counts p =
     (case res_bind (res_map (bm25_document_of (nu_str N)) children) (new_bm25_index (tokenize (nu_fold N)) (3 / 2) (3 / 4)) of
        Inl e \<Rightarrow> (Inl e, p)
      | Inr ix \<Rightarrow>
          (let p = p\<lparr>pl_parents := parents, pl_children := children, pl_by_id := map (\<lambda>c. (cc_id c, c)) children,
                 pl_dense := True, pl_bm25 := Some ix\<rparr>
           in case in_memory_resolver parents of
                Inl e \<Rightarrow> (Inl e, p)
              | Inr resolve \<Rightarrow>
                  (let p = p\<lparr>pl_expander := Some resolve\<rparr>; g = pl_config p
                   in case new_evidence_builder (rg_evidence_total g) (rg_evidence_each g) (rg_evidence_count g) default_marker of
                        Inl e \<Rightarrow> (Inl e, p)
                      | Inr B \<Rightarrow> (Inr (), p\<lparr>pl_builder := Some B, pl_upserted := counts, pl_initialized := True\<rparr>))))"

definition initialize_pipeline ::
  "numerics \<Rightarrow> 'w retrieval_services \<Rightarrow> corpus_files \<Rightarrow> bool \<Rightarrow> pipeline \<Rightarrow> 'w \<Rightarrow> (string + unit) \<times> pipeline \<times> 'w" where
  "initialize_pipeline N S F ingest p w =
     (if pl_closed p then (Inl ''retrieval pipeline is closed'', p, w)
      else if pl_initialized p then (Inr (), p, w)
      else (case load_chunks F of
          Inl e \<Rightarrow> (Inl e, p, w)
        | Inr (parents, children) \<Rightarrow>
            (case initialize_dependency (rs_init_embedding S) w of
               (Inl e, w) \<Rightarrow> (Inl e, p, w)
             | (Inr _, w) \<Rightarrow>
            (case initialize_dependency (rs_init_reranker S) w of
               (Inl e, w) \<Rightarrow> (Inl e, p, w)
             | (Inr _, w) \<Rightarrow>
            (case index_corpus N S ingest children w of
               (Inl e, w) \<Rightarrow> (Inl e, p, w)
             | (Inr counts, w) \<Rightarrow>
            (case dn_ids (rs_dense S) w of
               (Inl e, w) \<Rightarrow> (Inl e, p, w)
             | (Inr actual, w) \<Rightarrow>
                 if actual \<noteq> cc_id ` set children
                 then (Inl ''pipeline vector store must contain exactly the generated child corpus'', p, w)
                 else (case start_services N parents children counts p of (r, p) \<Rightarrow> (r, p, w))))))))"

definition close_pipeline :: "pipeline \<Rightarrow> pipeline" where
  "close_pipeline p = p\<lparr>pl_parents := [], pl_children := [], pl_by_id := [], pl_dense := False, pl_bm25 := None,
     pl_expander := None, pl_builder := None, pl_initialized := False, pl_closed := True\<rparr>"

subsection \<open>Child results\<close>

record child_result =
  cr_rank :: int
  cr_candidate :: pystr
  cr_record :: pystr
  cr_parent :: pystr
  cr_document :: pystr
  cr_content :: pystr
  cr_score :: rat
  cr_source_name :: pystr
  cr_source :: "pystr option"
  cr_metadata :: "(pystr \<times> json) list"
  cr_provenance :: "(pystr \<times> json) list"

definition child_provenance :: "child_chunk \<Rightarrow> (pystr \<times> json) list" where
  "child_provenance c =
     [(lit ''document_version'', JStr (cc_document_version c)), (lit ''parent_id'', JStr (cc_parent_id c))]
     @ (case cc_source c of None \<Rightarrow> [] | Some s \<Rightarrow> [(lit ''source'', JStr s)])
     @ (case cc_page c of None \<Rightarrow> [] | Some n \<Rightarrow> [(lit ''page_number'', JInt n)])
     @ (case cc_start c of None \<Rightarrow> [] | Some n \<Rightarrow> [(lit ''start_offset'', JInt n)])
     @ (case cc_end c of None \<Rightarrow> [] | Some n \<Rightarrow> [(lit ''end_offset'', JInt n)])
     @ (case text_of_source (jget (cc_metadata c) ''parser_name'') of
          None \<Rightarrow> [] | Some name \<Rightarrow> [(lit ''parser_name'', JStr name)])"

definition child_of_id :: "pipeline \<Rightarrow> pystr \<Rightarrow> string + child_chunk" where
  "child_of_id p i = (case map_of (pl_by_id p) i of
       None \<Rightarrow> Inl ''retrieval stage returned an unknown child ID'' | Some c \<Rightarrow> Inr c)"

definition normalize_child :: "pipeline \<Rightarrow> int \<Rightarrow> pystr \<Rightarrow> rat \<Rightarrow> pystr \<Rightarrow> string + child_result" where
  "normalize_child p rank i score source_name = res_bind (child_of_id p i) (\<lambda>c.
     if rank \<le> 0 \<or> blank (cc_id c) \<or> blank (cc_parent_id c) \<or> blank (cc_document_id c) \<or> blank (cc_content c)
        \<or> source_name = []
     then Inl ''child retrieval result''
     else Inr \<lparr>cr_rank = rank, cr_candidate = cc_id c, cr_record = cc_id c, cr_parent = cc_parent_id c,
       cr_document = cc_document_id c, cr_content = cc_content c, cr_score = score, cr_source_name = source_name,
       cr_source = cc_source c, cr_metadata = cc_metadata c, cr_provenance = child_provenance c\<rparr>)"

definition filter_scope :: "pystr set option \<Rightarrow> child_result list \<Rightarrow> child_result list" where
  "filter_scope allowed rs = (case allowed of
       None \<Rightarrow> rs
     | Some documents \<Rightarrow>
         map (\<lambda>(i, r). r\<lparr>cr_rank := int i\<rparr>) (enum1 (filter (\<lambda>r. cr_document r \<in> documents) rs)))"

subsection \<open>One query\<close>

definition dense_results :: "pipeline \<Rightarrow> vector_hit list \<Rightarrow> string + child_result list" where
  "dense_results p hits =
     res_map (\<lambda>(i, h). normalize_child p (int i) (vh_id h) (vh_score h) (lit ''dense'')) (enum1 hits)"

definition lexical_results :: "pipeline \<Rightarrow> bm25_hit list \<Rightarrow> string + child_result list" where
  "lexical_results p hits = res_map (\<lambda>h. normalize_child p (int (bh_rank h))
     (case bd_candidate (bh_document h) of Some i \<Rightarrow> i | None \<Rightarrow> bd_record (bh_document h)) (bh_score h) (lit ''bm25'')) hits"

definition fusion_input :: "string \<Rightarrow> child_result \<Rightarrow> fusion_candidate" where
  "fusion_input name r = \<lparr>fc_source = lit name, fc_rank = cr_rank r, fc_document = cr_document r,
     fc_candidate = Some (cr_candidate r), fc_record = Some (cr_record r), fc_score = Some (cr_score r),
     fc_content = Some (cr_content r), fc_metadata = cr_metadata r, fc_provenance = cr_provenance r\<rparr>"

definition fuse_results ::
  "numerics \<Rightarrow> retrieval_config \<Rightarrow> bool \<Rightarrow> child_result list \<Rightarrow> child_result list \<Rightarrow> string + fused_result list" where
  "fuse_results N g scoped dense lexical =
     (let sources = filter (\<lambda>(_, rs, _). rs \<noteq> [])
            [(''dense'', dense, rg_dense_weight g), (''bm25'', lexical, rg_bm25_weight g)]
      in if sources = [] \<and> scoped then Inr []
         else reciprocal_rank_fusion (nu_rnd N) (map (\<lambda>(name, rs, _). (lit name, map (fusion_input name) rs)) sources)
           (rg_rrf_k g) (Some (map (\<lambda>(name, _, weight). (lit name, weight)) sources)) (Some (rg_rrf_top g)))"

definition child_key :: "pystr option \<Rightarrow> pystr option \<Rightarrow> pystr" where
  "child_key candidate record = (case candidate of Some (c # s) \<Rightarrow> c # s | _ \<Rightarrow> or_empty record)"

definition rerank_input :: "pipeline \<Rightarrow> fused_result \<Rightarrow> string + rerank_candidate" where
  "rerank_input p f = res_bind (child_of_id p (child_key (fr_candidate f) (fr_record f))) (\<lambda>c.
     (let r = \<lparr>rk_document = fr_document f, rk_candidate = fr_candidate f, rk_content = cc_content c,
            rk_rank = int (fr_rank f), rk_record = fr_record f, rk_score = Some (fr_score f),
            rk_metadata = fr_metadata f, rk_provenance = fr_provenance f\<rparr>
      in if rerank_candidate_ok r then Inr r else Inl ''rerank candidate''))"

definition fused_by_id :: "fused_result list \<Rightarrow> (pystr \<times> fused_result) list" where
  "fused_by_id fs = rev (map (\<lambda>f. (child_key (fr_candidate f) (fr_record f), f)) fs)"

definition parent_candidate :: "pipeline \<Rightarrow> fused_result list \<Rightarrow> reranked \<Rightarrow> string + child_candidate" where
  "parent_candidate p fs r =
     (let i = child_key (rr_candidate r) (rr_record r) in
      res_bind (child_of_id p i) (\<lambda>c. case map_of (fused_by_id fs) i of
          None \<Rightarrow> Inl ''reranker returned an unknown child candidate''
        | Some f \<Rightarrow>
            if rr_document r \<noteq> cc_document_id c then Inl ''reranker changed the candidate document_id''
            else (let cand = \<lparr>ch_id = cc_id c, ch_parent = cc_parent_id c, ch_document = cc_document_id c,
                    ch_content = cc_content c, ch_rank = rr_rank r, ch_reranker = Some (rr_score r),
                    ch_rrf = Some (fr_score f), ch_record = Some (cc_id c), ch_start = cc_start c, ch_end = cc_end c,
                    ch_metadata = cc_metadata c, ch_provenance = child_provenance c\<rparr>
              in if child_ok cand then Inr cand else Inl ''parent candidate'')))"

record retrieval_result =
  re_query :: pystr
  re_dense :: "child_result list"
  re_lexical :: "child_result list"
  re_fused :: "fused_result list"
  re_reranked :: "reranked list"
  re_parents :: "expanded_parent list"
  re_evidence :: evidence_context
  re_config :: retrieval_config

definition rerank_stage ::
  "'w retrieval_services \<Rightarrow> pipeline \<Rightarrow> pystr \<Rightarrow> fused_result list \<Rightarrow> 'w \<Rightarrow> (string + reranked list) \<times> 'w" where
  "rerank_stage S p q fs w =
     (case res_map (rerank_input p) (take (nat (rg_candidates (pl_config p))) fs) of
        Inl e \<Rightarrow> (Inl e, w)
      | Inr [] \<Rightarrow> (Inr [], w)
      | Inr inputs \<Rightarrow> rs_rerank S q inputs (Some (rg_reranker_top (pl_config p))) w)"

text \<open>From the reranked children to the result; nothing here reads the world.\<close>

definition finish_query ::
  "pipeline \<Rightarrow> resolver \<Rightarrow> evidence_builder \<Rightarrow> pystr \<Rightarrow> child_result list \<Rightarrow> child_result list \<Rightarrow> fused_result list
     \<Rightarrow> reranked list \<Rightarrow> string + retrieval_result" where
  "finish_query p resolve B q dense lexical fs rs =
     res_bind (res_map (parent_candidate p fs) rs) (\<lambda>candidates.
     res_bind (expand_parents resolve candidates (Some (rg_parent_top (pl_config p)))) (\<lambda>parents.
     res_bind (build_evidence B parents) (\<lambda>evidence.
     Inr \<lparr>re_query = q, re_dense = dense, re_lexical = lexical, re_fused = fs, re_reranked = rs,
       re_parents = parents, re_evidence = evidence, re_config = pl_config p\<rparr>)))"

definition retrieve_query ::
  "numerics \<Rightarrow> 'w retrieval_services \<Rightarrow> pipeline \<Rightarrow> pystr \<Rightarrow> pystr set option \<Rightarrow> 'w
     \<Rightarrow> (string + retrieval_result) \<times> 'w" where
  "retrieve_query N S p q allowed w =
     (let g = pl_config p in
      if pl_closed p then (Inl ''retrieval pipeline is closed'', w)
      else if \<not> pl_initialized p then (Inl ''retrieval pipeline must be initialized'', w)
      else if blank q then (Inl ''retrieval query cannot be empty or whitespace'', w)
      else (case (pl_dense p, pl_bm25 p, pl_expander p, pl_builder p) of
          (True, Some ix, Some resolve, Some B) \<Rightarrow>
            (case dense_retrieve (rs_dense S) q (rg_dense_top g) None w of
               (Inl e, w) \<Rightarrow> (Inl e, w)
             | (Inr hits, w) \<Rightarrow>
                 (case res_bind (dense_results p hits) (\<lambda>dense.
                        res_bind (bm25_retrieve (tokenize (nu_fold N)) (nu_rnd N) (nu_log N) ix q (rg_bm25_top g)) (\<lambda>lexical_hits.
                        res_bind (lexical_results p lexical_hits) (\<lambda>lexical.
                        let dense = filter_scope allowed dense; lexical = filter_scope allowed lexical in
                        res_bind (fuse_results N g (allowed \<noteq> None) dense lexical) (\<lambda>fs. Inr (dense, lexical, fs))))) of
                    Inl e \<Rightarrow> (Inl e, w)
                  | Inr (dense, lexical, fs) \<Rightarrow>
                      (case rerank_stage S p q fs w of
                         (Inl e, w) \<Rightarrow> (Inl e, w)
                       | (Inr rs, w) \<Rightarrow> (finish_query p resolve B q dense lexical fs rs, w))))
        | _ \<Rightarrow> (Inl ''retrieval pipeline services are unavailable'', w)))"

subsection \<open>What fusion returns to the pipeline\<close>

lemma res_map_member: "res_map f xs = Inr ys \<Longrightarrow> y \<in> set ys \<Longrightarrow> \<exists>x \<in> set xs. f x = Inr y"
  by (induction xs arbitrary: ys) (auto simp: res_simps)

lemma res_map_returns: "(\<And>x. x \<in> set xs \<Longrightarrow> \<exists>y. f x = Inr y) \<Longrightarrow> \<exists>ys. res_map f xs = Inr ys"
proof (induction xs)
  case (Cons x xs)
  then obtain y ys where "f x = Inr y" "res_map f xs = Inr ys" by (metis list.set_intros)
  then show ?case by simp
qed simp

lemma enum1_member:
  assumes "(i, x) \<in> set (enum1 xs)"
  shows "0 < i" and "x \<in> set xs"
proof -
  from assms have "i \<in> set (map fst (enum1 xs))" by (simp add: rev_image_eqI del: map_fst_enum1)
  then show "0 < i" by (simp del: upt_Suc)
  from assms have "x \<in> set (map snd (enum1 xs))" by (simp add: rev_image_eqI del: map_snd_enum1)
  then show "x \<in> set xs" by simp
qed

lemma fusion_list:
  assumes "reciprocal_rank_fusion rnd sources k weights limit = Inr fs"
  shows "map fr_rank fs = [1..<Suc (length fs)]" and "distinct (map result_identity fs)"
    and "\<forall>f \<in> set fs. \<exists>c \<in> set (all_candidates sources). result_identity f = identity c
      \<and> fr_document f = fc_document c \<and> fr_candidate f = fc_candidate c \<and> fr_record f = fc_record c"
proof -
  from fusion_Inr [OF assms] obtain ws fused
    where f: "res_map (fused_of rnd k ws) (group_by identity (all_candidates (sort_key fst sources))) = Inr fused"
    and fs: "fs = map (\<lambda>(i, r). r\<lparr>fr_rank := i\<rparr>) (enum1 (top_n limit (sort_key fused_key fused)))" .
  let ?cs = "all_candidates (sort_key fst sources)" and ?t = "top_n limit (sort_key fused_key fused)"
  have same: "set ?cs = set (all_candidates sources)" by (simp add: all_candidates_def)
  show "map fr_rank fs = [1..<Suc (length fs)]" unfolding fs by (subst renumber_ranks) simp_all
  have ids: "map result_identity fs = map result_identity ?t" unfolding fs by (rule renumber_map) simp
  have "distinct (map result_identity (sort_key fused_key fused))"
    using fused_results(1) [OF f] by (simp only: distinct_map_sort_key)
  then show "distinct (map result_identity fs)" unfolding ids by (simp add: top_take take_map [symmetric])
  show "\<forall>f \<in> set fs. \<exists>c \<in> set (all_candidates sources). result_identity f = identity c
      \<and> fr_document f = fc_document c \<and> fr_candidate f = fc_candidate c \<and> fr_record f = fc_record c"
  proof
    fix r assume "r \<in> set fs"
    then obtain i r0 where r: "(i, r0) \<in> set (enum1 ?t)" "r = r0\<lparr>fr_rank := i\<rparr>" by (auto simp: fs)
    then have "r0 \<in> set fused" using enum1_member(2) [OF r(1)] by (auto simp: top_take dest: in_set_takeD)
    then obtain g where g: "g \<in> set (group_by identity ?cs)" "fused_of rnd k ws g = Inr r0"
      using res_map_member [OF f] by blast
    obtain ident ys where p: "g = (ident, ys)" by (rule prod.exhaust)
    note ys = group_by_memberD [OF g(1) [unfolded p]]
    note rep = representative_in [OF ys(2)]
    then have "representative ys \<in> set (all_candidates sources)" "identity (representative ys) = ident"
      using ys(1) same by auto
    moreover have "fr_document r0 = fc_document (representative ys)" "fr_record r0 = fc_record (representative ys)"
      "fr_candidate r0 = (if fc_candidate (representative ys) \<noteq> None then Some ident else None)"
      using g(2) by (auto simp: p fused_of_def Let_def split: if_splits)
    ultimately show "\<exists>c \<in> set (all_candidates sources). result_identity r = identity c
      \<and> fr_document r = fc_document c \<and> fr_candidate r = fc_candidate c \<and> fr_record r = fc_record c"
      unfolding r(2)
      by (intro bexI [of _ "representative ys"]) (auto simp: result_identity_def identity_def split: option.splits)
  qed
qed

subsection \<open>The invariant of a pipeline\<close>

definition corpus_documents :: "numerics \<Rightarrow> child_chunk list \<Rightarrow> string + bm25_document list" where
  "corpus_documents N children = res_map (bm25_document_of (nu_str N)) children"

definition pipeline_ready :: "numerics \<Rightarrow> pipeline \<Rightarrow> bm25_index \<Rightarrow> resolver \<Rightarrow> evidence_builder \<Rightarrow> bool" where
  "pipeline_ready N p ix resolve B \<longleftrightarrow> (let g = pl_config p in
     corpus_ok (pl_parents p) (pl_children p) \<and> pl_by_id p = map (\<lambda>c. (cc_id c, c)) (pl_children p)
     \<and> pl_dense p \<and> pl_bm25 p = Some ix \<and> pl_expander p = Some resolve \<and> pl_builder p = Some B
     \<and> (\<exists>ds. corpus_documents N (pl_children p) = Inr ds \<and> new_bm25_index (tokenize (nu_fold N)) (3 / 2) (3 / 4) ds = Inr ix)
     \<and> in_memory_resolver (pl_parents p) = Inr resolve
     \<and> new_evidence_builder (rg_evidence_total g) (rg_evidence_each g) (rg_evidence_count g) default_marker = Inr B)"

definition pipeline_ok :: "numerics \<Rightarrow> pipeline \<Rightarrow> bool" where
  "pipeline_ok N p \<longleftrightarrow> new_retrieval_config (pl_config p) = Inr (pl_config p)
     \<and> (pl_closed p \<longrightarrow> \<not> pl_initialized p)
     \<and> (if pl_initialized p then \<exists>ix resolve B. pipeline_ready N p ix resolve B
        else pl_bm25 p = None \<and> pl_expander p = None \<and> pl_builder p = None \<and> pl_children p = [])"

text \<open>The pipelines a program can have: made, initialized from any files and services' replies, closed.\<close>

inductive pipeline_run :: "numerics \<Rightarrow> 'w retrieval_services \<Rightarrow> pipeline \<Rightarrow> bool" for N S where
  made: "new_pipeline S config = Inr p \<Longrightarrow> (\<forall>g. config = Some g \<longrightarrow> new_retrieval_config g = Inr g) \<Longrightarrow> pipeline_run N S p"
| started: "pipeline_run N S p \<Longrightarrow> initialize_pipeline N S F ingest p w = (r, p', w') \<Longrightarrow> pipeline_run N S p'"
| ended: "pipeline_run N S p \<Longrightarrow> pipeline_run N S (close_pipeline p)"

lemma start_services_ok:
  assumes "start_services N parents children counts p = (r, p')" and "corpus_ok parents children"
    and "new_retrieval_config (pl_config p) = Inr (pl_config p)"
  shows "pl_config p' = pl_config p \<and> pl_closed p' = pl_closed p \<and> (p' = p \<and> (\<exists>e. r = Inl e)
    \<or> r = Inr () \<and> pl_initialized p' \<and> pl_parents p' = parents \<and> pl_children p' = children
      \<and> (\<exists>ix resolve B. pipeline_ready N p' ix resolve B))"
proof (cases "res_bind (res_map (bm25_document_of (nu_str N)) children) (new_bm25_index (tokenize (nu_fold N)) (3 / 2) (3 / 4))")
  case (Inl e)
  then show ?thesis using assms(1) by (auto simp: start_services_def)
next
  case (Inr ix)
  have "distinct (map pc_id parents)" using assms(2) by (simp add: corpus_ok_def)
  then obtain resolve where resolve: "in_memory_resolver parents = Inr resolve" by (simp add: in_memory_resolver_def)
  let ?g = "pl_config p"
  have "0 < rg_evidence_total ?g" "0 < rg_evidence_each ?g" "0 < rg_evidence_count ?g"
    using assms(3) by (auto simp: new_retrieval_config_def split: if_splits)
  then obtain B where B: "new_evidence_builder (rg_evidence_total ?g) (rg_evidence_each ?g) (rg_evidence_count ?g)
      default_marker = Inr B"
    by (auto simp: new_evidence_builder_def default_marker_def)
  obtain ds where "corpus_documents N children = Inr ds" "new_bm25_index (tokenize (nu_fold N)) (3 / 2) (3 / 4) ds = Inr ix"
    using Inr by (auto simp: corpus_documents_def res_simps)
  with assms Inr resolve B show ?thesis
    by (auto simp: start_services_def pipeline_ready_def Let_def)
qed

lemma initialize_pipeline_cases:
  assumes "initialize_pipeline N S F ingest p w = (r, p', w')"
  obtains (unchanged) "p' = p"
    | (started) parents children counts where "\<not> pl_closed p" "\<not> pl_initialized p"
        "load_chunks F = Inr (parents, children)" "start_services N parents children counts p = (r, p')"
  using assms
  by (auto simp: initialize_pipeline_def split: if_splits sum.splits prod.splits)

lemma pipeline_run_ok: "pipeline_run N S p \<Longrightarrow> pipeline_ok N p"
proof (induction rule: pipeline_run.induct)
  case (made config p)
  have "new_retrieval_config default_retrieval_config = Inr default_retrieval_config"
    by (simp add: new_retrieval_config_def default_retrieval_config_def)
  with made show ?case by (auto simp: new_pipeline_def pipeline_ok_def split: if_splits option.splits)
next
  case (started p F ingest w r p' w')
  from started.hyps(2) show ?case
  proof (cases rule: initialize_pipeline_cases)
    case unchanged
    with started.IH show ?thesis by simp
  next
    case (started parents children counts)
    have "new_retrieval_config (pl_config p) = Inr (pl_config p)" using \<open>pipeline_ok N p\<close> by (simp add: pipeline_ok_def)
    from start_services_ok [OF started(4) load_chunks_ok [OF started(3)] this] started(1,2) \<open>pipeline_ok N p\<close>
    show ?thesis by (auto simp: pipeline_ok_def)
  qed
next
  case (ended p)
  then show ?case by (auto simp: pipeline_ok_def close_pipeline_def)
qed

lemma ready_pipeline:
  assumes "pipeline_run N S p" and "pl_initialized p"
  obtains ix resolve B where "pipeline_ready N p ix resolve B"
  using pipeline_run_ok [OF assms(1)] assms(2) by (auto simp: pipeline_ok_def)

subsection \<open>The stages of a query\<close>

text \<open>A child result shows a child of the corpus.\<close>

definition shows_child :: "pipeline \<Rightarrow> child_result \<Rightarrow> bool" where
  "shows_child p r \<longleftrightarrow> (\<exists>c \<in> set (pl_children p). child_of_id p (cc_id c) = Inr c \<and> cr_candidate r = cc_id c
     \<and> cr_record r = cc_id c \<and> cr_parent r = cc_parent_id c \<and> cr_document r = cc_document_id c
     \<and> cr_content r = cc_content c \<and> \<not> blank (cc_id c) \<and> \<not> blank (cc_document_id c) \<and> \<not> blank (cc_content c))"

lemma child_of_id_Inr:
  assumes "pl_by_id p = map (\<lambda>c. (cc_id c, c)) (pl_children p)" and "child_of_id p i = Inr c"
  shows "c \<in> set (pl_children p) \<and> cc_id c = i"
  using assms by (auto simp: child_of_id_def split: option.splits dest!: map_of_SomeD)

lemma child_of_id_member:
  assumes "pl_by_id p = map (\<lambda>c. (cc_id c, c)) (pl_children p)" and "distinct (map cc_id (pl_children p))"
    and "c \<in> set (pl_children p)"
  shows "child_of_id p (cc_id c) = Inr c"
proof -
  have "map_of (pl_by_id p) (cc_id c) = Some c"
    using assms by (intro map_of_is_SomeI) (simp_all add: comp_def image_iff)
  then show ?thesis by (simp add: child_of_id_def)
qed

lemma normalize_child_Inr:
  assumes "pl_by_id p = map (\<lambda>c. (cc_id c, c)) (pl_children p)" and "normalize_child p rank i score name = Inr r"
  shows "shows_child p r \<and> cr_rank r = rank \<and> cr_candidate r = i"
proof -
  from assms(2) obtain c where c: "child_of_id p i = Inr c" by (auto simp: normalize_child_def res_simps)
  from child_of_id_Inr [OF assms(1) c] c assms(2) show ?thesis
    by (auto simp: normalize_child_def shows_child_def split: if_splits intro!: bexI [of _ c])
qed

lemma dense_results_shown:
  assumes "pl_by_id p = map (\<lambda>c. (cc_id c, c)) (pl_children p)" and "dense_results p hits = Inr rs"
  shows "\<forall>r \<in> set rs. shows_child p r"
  by (rule res_map_all [OF assms(2) [unfolded dense_results_def]]) (use normalize_child_Inr [OF assms(1)] in \<open>auto\<close>)

lemma lexical_results_shown:
  assumes "pl_by_id p = map (\<lambda>c. (cc_id c, c)) (pl_children p)" and "lexical_results p hits = Inr rs"
  shows "\<forall>r \<in> set rs. shows_child p r"
  by (rule res_map_all [OF assms(2) [unfolded lexical_results_def]]) (use normalize_child_Inr [OF assms(1)] in \<open>auto\<close>)

lemma shows_child_rank [simp]: "shows_child p (r\<lparr>cr_rank := i\<rparr>) = shows_child p r"
  by (simp add: shows_child_def)

definition in_scope :: "pystr set option \<Rightarrow> pystr \<Rightarrow> bool" where
  "in_scope allowed document \<longleftrightarrow> (\<forall>documents. allowed = Some documents \<longrightarrow> document \<in> documents)"

lemma filter_scope_shown:
  assumes "\<forall>r \<in> set rs. shows_child p r" and "r \<in> set (filter_scope allowed rs)"
  shows "shows_child p r" and "in_scope allowed (cr_document r)"
proof -
  have "shows_child p r \<and> in_scope allowed (cr_document r)"
    using assms by (cases allowed) (auto simp: filter_scope_def in_scope_def dest!: enum1_member(2))
  then show "shows_child p r" "in_scope allowed (cr_document r)" by blast+
qed

text \<open>A fused result stands for a child of the corpus and of the scope.\<close>

definition stands_for :: "pipeline \<Rightarrow> pystr set option \<Rightarrow> fused_result \<Rightarrow> child_chunk \<Rightarrow> bool" where
  "stands_for p allowed f c \<longleftrightarrow> c \<in> set (pl_children p) \<and> child_of_id p (cc_id c) = Inr c
     \<and> fr_candidate f = Some (cc_id c) \<and> fr_record f = Some (cc_id c) \<and> fr_document f = cc_document_id c
     \<and> \<not> blank (cc_id c) \<and> \<not> blank (cc_document_id c) \<and> \<not> blank (cc_content c) \<and> in_scope allowed (cc_document_id c)"

lemma fused_child:
  assumes "fuse_results N g scoped dense lexical = Inr fs" and "f \<in> set fs"
    and "\<forall>r \<in> set dense \<union> set lexical. shows_child p r \<and> in_scope allowed (cr_document r)"
  shows "\<exists>c. stands_for p allowed f c"
proof -
  let ?sources = "filter (\<lambda>(_, rs, _). rs \<noteq> []) [(''dense'', dense, rg_dense_weight g), (''bm25'', lexical, rg_bm25_weight g)]"
  let ?inputs = "map (\<lambda>(name, rs, _). (lit name, map (fusion_input name) rs)) ?sources"
  have "fs \<noteq> []" using assms(2) by auto
  then obtain weights where "reciprocal_rank_fusion (nu_rnd N) ?inputs (rg_rrf_k g) weights (Some (rg_rrf_top g)) = Inr fs"
    using assms(1) by (auto simp: fuse_results_def Let_def split: if_splits)
  from fusion_list(3) [OF this] assms(2) obtain c where c: "c \<in> set (all_candidates ?inputs)" "fr_document f = fc_document c"
    "fr_candidate f = fc_candidate c" "fr_record f = fc_record c" by blast
  then obtain name r where r: "r \<in> set dense \<union> set lexical" "c = fusion_input name r"
    by (auto simp: all_candidates_def split: if_splits)
  with assms(3) have "shows_child p r" "in_scope allowed (cr_document r)" by blast+
  then show ?thesis using c(2-4) r(2) by (auto simp: shows_child_def stands_for_def fusion_input_def)
qed

lemma child_key_Some: "i \<noteq> [] \<Longrightarrow> child_key (Some i) r = i"
  by (cases i) (simp_all add: child_key_def)

lemma stands_for_key: "stands_for p allowed f c \<Longrightarrow> child_key (fr_candidate f) (fr_record f) = cc_id c"
  by (auto simp: stands_for_def intro!: child_key_Some)

text \<open>Whatever a reranker answers, a parent candidate is a child that was fused.\<close>

lemma parent_candidate_Inr:
  assumes "parent_candidate p fs r = Inr cand" and "\<forall>f \<in> set fs. \<exists>c. stands_for p allowed f c"
  obtains c f where "f \<in> set fs" "stands_for p allowed f c" "ch_id cand = cc_id c" "ch_parent cand = cc_parent_id c"
    "ch_document cand = cc_document_id c" "ch_content cand = cc_content c" "rr_document r = cc_document_id c"
    "ch_rank cand = rr_rank r"
proof -
  let ?i = "child_key (rr_candidate r) (rr_record r)"
  from assms(1) obtain c f where c: "child_of_id p ?i = Inr c" and f: "map_of (fused_by_id fs) ?i = Some f"
    and d: "rr_document r = cc_document_id c"
    and cand: "ch_id cand = cc_id c" "ch_parent cand = cc_parent_id c" "ch_document cand = cc_document_id c"
      "ch_content cand = cc_content c" "ch_rank cand = rr_rank r"
    by (auto simp: parent_candidate_def Let_def res_simps split: option.splits if_splits)
  from map_of_SomeD [OF f] have m: "f \<in> set fs" "?i = child_key (fr_candidate f) (fr_record f)"
    by (auto simp: fused_by_id_def)
  with assms(2) obtain c' where c': "stands_for p allowed f c'" by blast
  then have "?i = cc_id c'" using m(2) stands_for_key by metis
  then have "c' = c" using c' c by (simp add: stands_for_def)
  with m(1) c' d cand that show thesis by blast
qed

text \<open>The parents of a query are parents of the corpus and of the scope.\<close>

lemma in_memory_resolver_map_of:
  assumes "in_memory_resolver parents = Inr resolve" and "map_of (resolve ids) i = Some parent"
  shows "parent \<in> set parents \<and> pc_id parent = i"
proof -
  from map_of_SomeD [OF assms(2)] assms(1) have "find (\<lambda>p. pc_id p = i) parents = Some parent"
    by (auto simp: in_memory_resolver_def split: if_splits option.splits)
  then show ?thesis by (auto dest: find_SomeD)
qed

definition from_parent :: "pipeline \<Rightarrow> pystr set option \<Rightarrow> expanded_parent \<Rightarrow> bool" where
  "from_parent p allowed e \<longleftrightarrow> in_scope allowed (ep_document e)
     \<and> (\<exists>parent \<in> set (pl_parents p). pc_id parent = ep_parent e \<and> pc_document_id parent = ep_document e
          \<and> pc_content parent = ep_content e)
     \<and> (\<forall>k \<in> set (ep_children e). \<exists>c \<in> set (pl_children p). cc_id c = ch_id k \<and> cc_parent_id c = ep_parent e
          \<and> cc_document_id c = ep_document e \<and> cc_content c = ch_content k)"

lemma expanded_parent:
  assumes "in_memory_resolver (pl_parents p) = Inr resolve" and "expand_parents resolve cands limit = Inr es"
    and "e \<in> set es" and "corpus_ok (pl_parents p) (pl_children p)"
    and "\<forall>k \<in> set cands. \<exists>c \<in> set (pl_children p). ch_id k = cc_id c \<and> ch_parent k = cc_parent_id c
      \<and> ch_document k = cc_document_id c \<and> ch_content k = cc_content c \<and> in_scope allowed (cc_document_id c)"
  shows "from_parent p allowed e"
proof -
  from expand_parents_list(3) [OF assms(2)] assms(3) obtain parent where e: "expansion_of cands e"
    and parent: "pc_id parent = ep_parent e" "pc_content parent = ep_content e"
      "map_of (resolve (sorted_list_of_set (set (map ch_parent cands)))) (ep_parent e) = Some parent" by blast
  have pm: "parent \<in> set (pl_parents p)" using in_memory_resolver_map_of [OF assms(1) parent(3)] by blast
  have kids: "k \<in> set cands \<and> ch_parent k = ep_parent e \<and> ch_document k = ep_document e" if "k \<in> set (ep_children e)" for k
    using that e by (auto simp: expansion_of_def)
  have members: "\<exists>c \<in> set (pl_children p). cc_id c = ch_id k \<and> cc_parent_id c = ep_parent e
      \<and> cc_document_id c = ep_document e \<and> cc_content c = ch_content k \<and> in_scope allowed (cc_document_id c)"
    if "k \<in> set (ep_children e)" for k
    using assms(5) kids [OF that] by metis
  have "ep_children e \<noteq> []" using e unfolding expansion_of_def parent_ok_def by blast
  then obtain k where "k \<in> set (ep_children e)" by (meson list.set_sel(1))
  from members [OF this] obtain c where c: "c \<in> set (pl_children p)" "cc_parent_id c = ep_parent e"
    "cc_document_id c = ep_document e" "in_scope allowed (cc_document_id c)" by blast
  from assms(4) c(1) obtain q where q: "q \<in> set (pl_parents p)" "pc_id q = cc_parent_id c" "pc_document_id q = cc_document_id c"
    unfolding corpus_ok_def by blast
  have "distinct (map pc_id (pl_parents p))" using assms(4) by (simp add: corpus_ok_def)
  then have "q = parent" using q(1,2) pm parent(1) c(2) by (metis distinct_map inj_on_def)
  then show ?thesis unfolding from_parent_def using c q pm parent(1,2) members by metis
qed

definition from_evidence :: "pipeline \<Rightarrow> pystr set option \<Rightarrow> evidence_item \<Rightarrow> bool" where
  "from_evidence p allowed i \<longleftrightarrow> in_scope allowed (ei_document i)
     \<and> (\<exists>parent \<in> set (pl_parents p). pc_id parent = ei_parent i \<and> pc_document_id parent = ei_document i
          \<and> (ei_content i = pc_content parent \<or> (\<exists>m. ei_content i = take m (pc_content parent) @ default_marker)))"

lemma built_evidence:
  assumes "build_evidence B es = Inr ctx" and "new_evidence_builder total_chars each number marker = Inr B"
  shows "assembled B es (ec_items ctx) (ec_references ctx) (ec_text ctx)"
proof -
  have B: "0 < eb_total B" "0 < eb_count B" using assms(2) by (auto simp: new_evidence_builder_def split: if_splits)
  from assms(1) obtain es' where es': "check_parents es = Inr es'" by (auto simp: build_evidence_def res_simps)
  then have "es' = es" by (simp add: check_parents_def split: if_splits)
  then obtain items refs rendered where a: "assemble B es [] [] [] = Inr (items, refs, rendered)"
    and ctx: "ec_items ctx = items" "ec_references ctx = refs" "ec_text ctx = rendered"
    using assms(1) es' by (auto simp: build_evidence_def res_simps)
  have "assembled B es [] [] []" using B by (simp add: assembled_def rendering_def)
  from assemble_assembled [of B "[]" es "[]" "[]" "[]"] this a ctx show ?thesis by simp
qed

lemma evidence_from_parents:
  assumes "build_evidence B es = Inr ctx" and "new_evidence_builder total_chars each number default_marker = Inr B"
    and "\<forall>e \<in> set es. from_parent p allowed e" and "i \<in> set (ec_items ctx)"
  shows "from_evidence p allowed i"
proof -
  note a = built_evidence [OF assms(1,2)]
  from assms(4) obtain n where n: "n < length (ec_items ctx)" "ec_items ctx ! n = i" by (auto simp: in_set_conv_nth)
  let ?e = "es ! n"
  have "n < length es" using a n by (simp add: assembled_def)
  then have e: "from_parent p allowed ?e" using assms(3) by simp
  have "evidence_of B (Suc n) ?e i (ec_references ctx ! n)" using a n by (auto simp: assembled_def)
  then have i: "i = evidence_item_of (evidence_id (Suc n)) ?e (ei_content i)"
    and c: "ei_content i = ep_content ?e \<or> (\<exists>m. ei_content i = take m (ep_content ?e) @ eb_marker B)"
    by (auto simp: evidence_of_def)
  have "ei_document i = ep_document ?e" "ei_parent i = ep_parent ?e" by (subst i, simp add: evidence_item_of_def)+
  moreover have "eb_marker B = default_marker" using assms(2) by (auto simp: new_evidence_builder_def split: if_splits)
  ultimately show ?thesis using e c unfolding from_parent_def from_evidence_def by metis
qed

subsection \<open>A query stays in its corpus and its scope\<close>

lemma retrieve_query_Inr:
  assumes "retrieve_query N S p q allowed w = (Inr r, w')" and "pipeline_ready N p ix resolve B"
  obtains hits lexical_hits dense lexical w1
  where "\<not> blank q" "dense_retrieve (rs_dense S) q (rg_dense_top (pl_config p)) None w = (Inr hits, w1)"
    "dense_results p hits = Inr dense" "lexical_results p lexical_hits = Inr lexical"
    "re_dense r = filter_scope allowed dense" "re_lexical r = filter_scope allowed lexical"
    "fuse_results N (pl_config p) (allowed \<noteq> None) (re_dense r) (re_lexical r) = Inr (re_fused r)"
    "rerank_stage S p q (re_fused r) w1 = (Inr (re_reranked r), w')"
    "finish_query p resolve B q (re_dense r) (re_lexical r) (re_fused r) (re_reranked r) = Inr r"
proof -
  have ready: "pl_dense p" "pl_bm25 p = Some ix" "pl_expander p = Some resolve" "pl_builder p = Some B"
    using assms(2) by (simp_all add: pipeline_ready_def Let_def)
  let ?g = "pl_config p"
  from assms(1) ready obtain hits w1 where q: "\<not> blank q"
    and d: "dense_retrieve (rs_dense S) q (rg_dense_top ?g) None w = (Inr hits, w1)"
    by (auto simp: retrieve_query_def Let_def split: if_splits prod.splits sum.splits)
  from assms(1) ready q d obtain dense lexical_hits lexical fs rs where
    dn: "dense_results p hits = Inr dense" and lx: "lexical_results p lexical_hits = Inr lexical"
    and fs: "fuse_results N ?g (allowed \<noteq> None) (filter_scope allowed dense) (filter_scope allowed lexical) = Inr fs"
    and rs: "rerank_stage S p q fs w1 = (Inr rs, w')"
    and fin: "finish_query p resolve B q (filter_scope allowed dense) (filter_scope allowed lexical) fs rs = Inr r"
    by (auto simp: retrieve_query_def Let_def res_simps split: if_splits prod.splits sum.splits)
  have "re_dense r = filter_scope allowed dense" "re_lexical r = filter_scope allowed lexical" "re_fused r = fs"
    "re_reranked r = rs"
    using fin by (auto simp: finish_query_def res_simps)
  with q d dn lx fs rs fin that show thesis by metis
qed


end
