(* ===== verification/RetrievalLiveness.thy ===== *)
theory RetrievalLiveness
  imports RetrievalPipeline
begin

section \<open>Retrieval: when the pipeline answers\<close>

text \<open>
  Which queries return a result: each stage returns on the output of the stage before it, for a corpus that
  the checks of the later stages accept. The laws of the store are those of the locale \<open>dense_world\<close>, those of
  the reranker the locale \<open>reranker\<close>.
\<close>

subsection \<open>Each stage returns\<close>

text \<open>
  What the loader does not check of a corpus but a query needs: parents that are named and have visible text, and
  whose recorded page and offsets are in range.
\<close>

definition located :: "(pystr \<times> json) list \<Rightarrow> bool" where
  "located m \<longleftrightarrow> (\<forall>n \<in> set_option (plain_int (jget m ''page_number'')). 1 \<le> n)
     \<and> (\<forall>n \<in> set_option (plain_int (jget m ''start_offset'')). 0 \<le> n)
     \<and> (\<forall>n \<in> set_option (plain_int (jget m ''end_offset'')). 0 \<le> n)"

definition queryable :: "pipeline \<Rightarrow> bool" where
  "queryable p \<longleftrightarrow> (\<forall>c \<in> set (pl_children p). \<not> blank (cc_parent_id c))
     \<and> (\<forall>q \<in> set (pl_parents p). \<not> blank (pc_content q) \<and> located (pc_metadata q))"

lemma indexed_child:
  assumes "pipeline_ready N p ix resolve B" and "c \<in> set (pl_children p)"
  shows "\<not> blank (cc_id c) \<and> \<not> blank (cc_document_id c) \<and> \<not> blank (cc_content c) \<and> child_of_id p (cc_id c) = Inr c"
proof -
  from assms(1) obtain ds where ds: "corpus_documents N (pl_children p) = Inr ds" by (auto simp: pipeline_ready_def Let_def)
  then obtain d where "bm25_document_of (nu_str N) c = Inr d"
    using assms(2) by (auto simp: corpus_documents_def res_map_Inr_iff list_all2_conv_all_nth in_set_conv_nth)
  moreover have "child_of_id p (cc_id c) = Inr c"
    by (rule child_of_id_member [OF _ _ assms(2)]) (use assms(1) in \<open>auto simp: pipeline_ready_def corpus_ok_def Let_def\<close>)
  ultimately show ?thesis by (auto simp: bm25_document_of_def bm25_document_ok_def Let_def split: if_splits)
qed

text \<open>The results of one source: children of the corpus, each once, numbered from one.\<close>

definition ranked_children :: "pipeline \<Rightarrow> child_result list \<Rightarrow> bool" where
  "ranked_children p rs \<longleftrightarrow> (\<forall>r \<in> set rs. shows_child p r) \<and> distinct (map cr_candidate rs)
     \<and> map cr_rank rs = map int [1..<Suc (length rs)]"

lemma normalize_child_returns:
  assumes "pipeline_ready N p ix resolve B" and "queryable p" and "i \<in> cc_id ` set (pl_children p)" and "0 < rank" and "name \<noteq> []"
  shows "\<exists>r. normalize_child p rank i score name = Inr r \<and> shows_child p r \<and> cr_rank r = rank \<and> cr_candidate r = i"
proof -
  from assms(3) obtain c where c: "c \<in> set (pl_children p)" "i = cc_id c" by blast
  have "\<not> blank (cc_parent_id c)" using assms(2) c(1) by (simp add: queryable_def)
  with indexed_child [OF assms(1) c(1)] assms(4,5) have "\<exists>r. normalize_child p rank i score name = Inr r"
    unfolding c(2) normalize_child_def by simp
  then show ?thesis using normalize_child_Inr [of p rank i score name] assms(1) by (auto simp: pipeline_ready_def Let_def)
qed

lemma ranked_results:
  assumes "pipeline_ready N p ix resolve B" and "queryable p" and "name \<noteq> []"
    and "\<forall>x \<in> set xs. 0 < rank x \<and> ident x \<in> cc_id ` set (pl_children p)" and "distinct (map ident xs)"
    and "map rank xs = map int [1..<Suc (length xs)]"
  shows "\<exists>rs. res_map (\<lambda>x. normalize_child p (rank x) (ident x) (score x) name) xs = Inr rs \<and> ranked_children p rs
    \<and> length rs = length xs"
proof -
  have each: "\<exists>r. normalize_child p (rank x) (ident x) (score x) name = Inr r \<and> shows_child p r \<and> cr_rank r = rank x
      \<and> cr_candidate r = ident x" if "x \<in> set xs" for x
    using normalize_child_returns [OF assms(1,2) _ _ assms(3)] assms(4) that by blast
  then obtain g where g: "\<forall>x \<in> set xs. normalize_child p (rank x) (ident x) (score x) name = Inr (g x)
      \<and> shows_child p (g x) \<and> cr_rank (g x) = rank x \<and> cr_candidate (g x) = ident x"
    by metis
  then have "res_map (\<lambda>x. normalize_child p (rank x) (ident x) (score x) name) xs = Inr (map g xs)"
    by (intro res_map_Inr_map) simp
  moreover have c: "map cr_candidate (map g xs) = map ident xs" and r: "map cr_rank (map g xs) = map rank xs" using g by simp_all
  have "ranked_children p (map g xs)" unfolding ranked_children_def c r length_map using g assms(5,6) by auto
  ultimately show ?thesis by auto
qed

lemma filter_scope_ranked:
  assumes "ranked_children p rs"
  shows "ranked_children p (filter_scope allowed rs)"
proof (cases allowed)
  case (Some documents)
  let ?k = "filter (\<lambda>r. cr_document r \<in> documents) rs"
  have e: "filter_scope allowed rs = map (\<lambda>(i, r). r\<lparr>cr_rank := int i\<rparr>) (enum1 ?k)" by (simp add: filter_scope_def Some)
  have "map cr_candidate (filter_scope allowed rs) = map cr_candidate ?k" unfolding e by (rule renumber_map) simp
  moreover have "map cr_rank (filter_scope allowed rs) = map int (map fst (enum1 ?k))"
    unfolding e by (simp add: case_prod_beta comp_def del: map_fst_enum1)
  then have "map cr_rank (filter_scope allowed rs) = map int [1..<Suc (length (filter_scope allowed rs))]"
    by (simp add: e del: upt_Suc)
  moreover have "\<forall>r \<in> set (filter_scope allowed rs). shows_child p r"
    using filter_scope_shown(1) assms unfolding ranked_children_def by blast
  ultimately show ?thesis using assms by (simp add: ranked_children_def distinct_map_filter)
qed (simp add: assms filter_scope_def)

lemma shown_same:
  assumes "shows_child p r" and "shows_child p r'" and "cr_candidate r = cr_candidate r'"
  shows "cr_document r = cr_document r'"
proof -
  from assms(1) obtain c where c: "child_of_id p (cc_id c) = Inr c" "cr_candidate r = cc_id c" "cr_document r = cc_document_id c"
    unfolding shows_child_def by blast
  from assms(2) obtain c' where c': "child_of_id p (cc_id c') = Inr c'" "cr_candidate r' = cc_id c'" "cr_document r' = cc_document_id c'"
    unfolding shows_child_def by blast
  have "c = c'" by (metis c(1,2) c'(1,2) assms(3) sum.inject(2))
  then show ?thesis using c(3) c'(3) by simp
qed

lemma fusion_input_ok:
  assumes "shows_child p r" and "0 < cr_rank r" and "lit name \<noteq> []" and "\<not> blank (lit name)"
  shows "check_candidate (lit name) (fusion_input name r) = Inr (fusion_input name r)"
  using assms by (auto simp: check_candidate_def candidate_ok_def fusion_input_def shows_child_def)

lemma check_source_ranked:
  assumes "ranked_children p rs" and "rs \<noteq> []" and "\<not> blank (lit name)"
  shows "check_source (lit name, map (fusion_input name) rs) = Inr (map (fusion_input name) rs)"
proof -
  have "0 < cr_rank r" if "r \<in> set rs" for r
  proof -
    have "cr_rank r \<in> set (map int [1..<Suc (length rs)])" using that assms(1) unfolding ranked_children_def by (metis image_eqI list.set_map)
    then show ?thesis by (auto simp del: upt_Suc)
  qed
  then have "res_map (check_candidate (lit name)) (map (fusion_input name) rs) = Inr (map (\<lambda>c. c) (map (fusion_input name) rs))"
    using assms by (intro res_map_Inr_map) (auto simp: ranked_children_def intro!: fusion_input_ok)
  moreover have "map fc_rank (map (fusion_input name) rs) = map cr_rank rs" by (simp add: fusion_input_def)
  moreover have "map identity (map (fusion_input name) rs) = map cr_candidate rs" by (simp add: fusion_input_def identity_def)
  ultimately show ?thesis
    using assms(1,2) unfolding check_source_def ranked_children_def by (simp add: ensure_def del: map_map upt_Suc)
qed

text \<open>Group by group, fusion returns when equal identities share a document and all weights are positive.\<close>

lemma fused_of_returns:
  assumes "(i, cs) \<in> set (group_by identity all)" and "\<forall>c \<in> set all. \<forall>c' \<in> set all. identity c = identity c' \<longrightarrow> fc_document c = fc_document c'"
    and "\<forall>x > 0. 0 < rnd x" and "0 < k" and "\<forall>c \<in> set all. 0 < fc_rank c \<and> 0 < weight_of ws (fc_source c)"
  shows "\<exists>f. fused_of rnd k ws (i, cs) = Inr f"
proof -
  note cs = group_by_memberD [OF assms(1)]
  note rep = representative_in [OF cs(2)]
  have "\<not> list_ex (\<lambda>c. fc_document c \<noteq> fc_document (representative cs)) cs"
    using rep assms(2) by (auto simp: list_ex_iff cs(1))
  moreover have pos: "0 < fn_value (contribution_of rnd k ws c)" if "c \<in> set cs" for c
  proof -
    have "0 < fc_rank c" "0 < weight_of ws (fc_source c)" using assms(5) that by (auto simp: cs(1))
    then have "0 < rnd (k + of_int (fc_rank c))" using assms(3,4) by simp
    then show ?thesis using \<open>0 < weight_of ws (fc_source c)\<close> assms(3) by (simp add: contribution_of_def)
  qed
  then have "\<not> list_ex (\<lambda>n. fn_value n \<le> 0) (map (contribution_of rnd k ws) (sort_key fc_source cs))"
    by (auto simp: list_ex_iff not_le)
  moreover have "0 < sum_list (map fn_value (map (contribution_of rnd k ws) (sort_key fc_source cs)))"
  proof -
    have ne: "sort_key fc_source cs \<noteq> []" using cs(2) by (metis length_0_conv length_sort)
    have "0 < sum_list (map v xs)" if "xs \<noteq> []" "\<forall>x \<in> set xs. 0 < v x" for v :: "fusion_candidate \<Rightarrow> rat" and xs
      using that
    proof (induction xs)
      case (Cons a xs)
      then show ?case by (cases "xs = []") (auto intro: add_pos_pos)
    qed simp
    from this [OF ne, of "\<lambda>c. fn_value (contribution_of rnd k ws c)"] pos show ?thesis by (simp add: comp_def)
  qed
  then have "0 < fsum rnd (map fn_value (map (contribution_of rnd k ws) (sort_key fc_source cs)))"
    using assms(3) by (simp add: fsum_def)
  ultimately show ?thesis by (simp add: fused_of_def Let_def not_le)
qed

lemma ranked_positive:
  assumes "ranked_children p rs" and "r \<in> set rs"
  shows "0 < cr_rank r"
proof -
  have "cr_rank r \<in> set (map int [1..<Suc (length rs)])"
    using assms unfolding ranked_children_def by (metis image_eqI list.set_map)
  then show ?thesis by (auto simp del: upt_Suc)
qed

definition fusion_sources ::
  "retrieval_config \<Rightarrow> child_result list \<Rightarrow> child_result list \<Rightarrow> (string \<times> child_result list \<times> rat) list" where
  "fusion_sources g dense lexical = filter (\<lambda>(_, rs, _). rs \<noteq> [])
     [(''dense'', dense, rg_dense_weight g), (''bm25'', lexical, rg_bm25_weight g)]"

lemma fusion_sources_member:
  assumes "(name, rs, weight) \<in> set (fusion_sources g dense lexical)" and "new_retrieval_config g = Inr g"
  shows "rs \<noteq> []" and "rs = dense \<or> rs = lexical" and "\<not> blank (lit name)" and "0 < weight"
    and "weight_of (map (\<lambda>(name, _, weight). (lit name, weight)) (fusion_sources g dense lexical)) (lit name) = weight"
  using assms by (auto simp: fusion_sources_def lit_def py_space_def weight_of_def new_retrieval_config_def split: if_splits)

lemma fuse_results_return:
  assumes ranked: "ranked_children p dense" "ranked_children p lexical" and g: "new_retrieval_config g = Inr g"
    and rnd: "\<forall>x > 0. 0 < nu_rnd N x" and some: "scoped \<or> dense \<noteq> [] \<or> lexical \<noteq> []"
  shows "\<exists>fs. fuse_results N g scoped dense lexical = Inr fs"
proof (cases "fusion_sources g dense lexical = []")
  case True
  then have "dense = []" "lexical = []" by (auto simp: fusion_sources_def split: if_splits)
  then show ?thesis using some by (simp add: fuse_results_def)
next
  case False
  let ?S = "fusion_sources g dense lexical"
  let ?in = "map (\<lambda>(name, rs, _). (lit name, map (fusion_input name) rs)) ?S"
  let ?ws = "map (\<lambda>(name, _, weight). (lit name, weight)) ?S"
  note member = fusion_sources_member [OF _ g]
  have both: "ranked_children p rs" if "(name, rs, weight) \<in> set ?S" for name rs weight
    using member(2) [OF that] ranked by auto
  have w: "fusion_weights ?in (Some ?ws) = Inr ?ws"
  proof -
    have "map fst ?ws = map fst ?in" by (simp add: case_prod_beta)
    then have w: "set (map fst ?ws) = set (map fst ?in)" by (rule arg_cong)
    have "\<not> list_ex (\<lambda>(_, w). w \<le> 0) ?ws" using member(4) by (fastforce simp: list_ex_iff not_le)
    then show ?thesis by (simp only: fusion_weights_def Let_def option.case w simp_thms if_False)
  qed
  have c: "res_map check_source (sort_key fst ?in) = Inr (map snd (sort_key fst ?in))"
  proof (rule res_map_Inr_map)
    fix x assume "x \<in> set (sort_key fst ?in)"
    then obtain name rs weight where s: "(name, rs, weight) \<in> set ?S" "x = (lit name, map (fusion_input name) rs)" by auto
    with check_source_ranked [OF both [OF s(1)] member(1,3) [OF s(1)]] show "check_source x = Inr (snd x)" by simp
  qed
  obtain fused where f: "res_map (fused_of (nu_rnd N) (rg_rrf_k g) ?ws) (group_by identity (concat (map snd (sort_key fst ?in)))) = Inr fused"
  proof -
    let ?all = "concat (map snd (sort_key fst ?in))"
    have c: "\<exists>name r weight. c = fusion_input name r \<and> r \<in> set dense \<union> set lexical \<and> (\<exists>rs. (name, rs, weight) \<in> set ?S \<and> r \<in> set rs)"
      if "c \<in> set ?all" for c
    proof -
      from that obtain name rs weight r where "(name, rs, weight) \<in> set ?S" "r \<in> set rs" "c = fusion_input name r" by auto
      with member(2) show ?thesis by blast
    qed
    have same: "\<forall>c \<in> set ?all. \<forall>c' \<in> set ?all. identity c = identity c' \<longrightarrow> fc_document c = fc_document c'"
    proof (intro ballI impI)
      fix c c' assume "c \<in> set ?all" "c' \<in> set ?all" and i: "identity c = identity c'"
      then obtain n r n' r' where r: "c = fusion_input n r" "r \<in> set dense \<union> set lexical" "c' = fusion_input n' r'"
        "r' \<in> set dense \<union> set lexical" using c by meson
      then have "shows_child p r" "shows_child p r'" using ranked by (auto simp: ranked_children_def)
      from shown_same [OF this] i show "fc_document c = fc_document c'" by (simp add: r fusion_input_def identity_def)
    qed
    have pos: "\<forall>c \<in> set ?all. 0 < fc_rank c \<and> 0 < weight_of ?ws (fc_source c)"
    proof
      fix x assume "x \<in> set ?all"
      then obtain name r weight rs where x: "x = fusion_input name r" "(name, rs, weight) \<in> set ?S" "r \<in> set rs" using c by meson
      with ranked_positive [OF both [OF x(2)] x(3)] member(4,5) [OF x(2)]
      show "0 < fc_rank x \<and> 0 < weight_of ?ws (fc_source x)" by (simp add: fusion_input_def)
    qed
    have "0 < rg_rrf_k g" using g by (auto simp: new_retrieval_config_def split: if_splits)
    then have each: "\<exists>f. fused_of (nu_rnd N) (rg_rrf_k g) ?ws x = Inr f" if "x \<in> set (group_by identity ?all)" for x
      using fused_of_returns [OF _ same rnd _ pos, of "fst x" "snd x" "rg_rrf_k g"] that by simp
    have "\<exists>fused. res_map (fused_of (nu_rnd N) (rg_rrf_k g) ?ws) (group_by identity ?all) = Inr fused"
      by (rule res_map_returns) (rule each)
    then show thesis using that by blast
  qed
  have k: "(rg_rrf_k g \<le> 0) = False" "(rg_rrf_top g \<le> 0) = False" using g by (auto simp: new_retrieval_config_def split: if_splits)
  have b: "list_ex (\<lambda>(name, _). blank name) ?in = False" using member(3) by (fastforce simp: list_ex_iff)
  have ne: "(?in = []) = False" "(?S = [] \<and> scoped) = False" using False by simp_all
  show ?thesis unfolding fuse_results_def Let_def fusion_sources_def [symmetric] ne(2) reciprocal_rank_fusion_def
    unfolding if_False option.case ne(1) k b w c f res_bind.simps by (rule exI, rule refl)
qed

text \<open>The inputs of the reranker.\<close>

definition fused_list :: "pipeline \<Rightarrow> pystr set option \<Rightarrow> fused_result list \<Rightarrow> bool" where
  "fused_list p allowed fs \<longleftrightarrow> map fr_rank fs = [1..<Suc (length fs)] \<and> distinct (map result_identity fs)
     \<and> (\<forall>f \<in> set fs. \<exists>c. stands_for p allowed f c)"

definition input_of :: "fused_result \<Rightarrow> rerank_candidate \<Rightarrow> bool" where
  "input_of f i \<longleftrightarrow> rk_candidate i = fr_candidate f \<and> rk_document i = fr_document f \<and> rk_record i = fr_record f
     \<and> rk_rank i = int (fr_rank f) \<and> rk_identity i = result_identity f \<and> rerank_candidate_ok i"

lemma rerank_inputs_return:
  assumes "fused_list p allowed fs"
  shows "\<exists>inputs. res_map (rerank_input p) (take n fs) = Inr inputs \<and> validate_candidates inputs = Inr inputs
    \<and> (\<forall>i \<in> set inputs. \<exists>f \<in> set fs. input_of f i)"
proof -
  have "\<exists>i. rerank_input p f = Inr i \<and> input_of f i" if f: "f \<in> set fs" for f
  proof -
    from f assms obtain c where c: "stands_for p allowed f c" by (auto simp: fused_list_def)
    have "fr_rank f \<in> set [1..<Suc (length fs)]" using f assms unfolding fused_list_def by (metis image_eqI list.set_map)
    then have "0 < fr_rank f" by (simp del: upt_Suc)
    then show ?thesis using c stands_for_key [OF c]
      by (auto simp: rerank_input_def stands_for_def rerank_candidate_ok_def input_of_def rk_identity_def result_identity_def Let_def)
  qed
  then obtain h where h: "\<forall>f \<in> set fs. rerank_input p f = Inr (h f) \<and> input_of f (h f)" by metis
  have sub: "set (take n fs) \<subseteq> set fs" by (rule set_take_subset)
  have "res_map (rerank_input p) (take n fs) = Inr (map h (take n fs))"
    using h sub by (intro res_map_Inr_map) blast
  moreover have "validate_candidates (map h (take n fs)) = Inr (map h (take n fs))"
  proof -
    have "map rk_identity (map h (take n fs)) = take n (map result_identity fs)"
      using h sub by (auto simp: input_of_def take_map)
    moreover have "map rk_rank (map h (take n fs)) = map int (take n (map fr_rank fs))"
      using h sub by (auto simp: input_of_def take_map)
    moreover have "take n (map fr_rank fs) = [1..<Suc (length (take n fs))]"
      using assms by (simp add: fused_list_def take_upt min_def del: upt_Suc)
    moreover have "list_all rerank_candidate_ok (map h (take n fs))" using h sub by (auto simp: list_all_iff input_of_def)
    ultimately show ?thesis using assms unfolding validate_candidates_def fused_list_def by (simp del: map_map upt_Suc)
  qed
  moreover have "\<forall>i \<in> set (map h (take n fs)). \<exists>f \<in> set fs. input_of f i" using h sub by auto
  ultimately show ?thesis by blast
qed

text \<open>The candidates of parent expansion.\<close>

definition candidate_of :: "pipeline \<Rightarrow> child_candidate \<Rightarrow> bool" where
  "candidate_of p k \<longleftrightarrow> (\<exists>c \<in> set (pl_children p). ch_id k = cc_id c \<and> ch_parent k = cc_parent_id c
     \<and> ch_document k = cc_document_id c \<and> ch_content k = cc_content c)"

lemma child_offsets: "new_child_chunk c = Inr c \<Longrightarrow> (\<forall>n \<in> set_option (cc_start c). 0 \<le> n) \<and> (\<forall>n \<in> set_option (cc_end c). 0 \<le> n)"
  by (auto simp: new_child_chunk_def split: if_splits)

lemma parent_candidate_returns:
  assumes ready: "pipeline_ready N p ix resolve B" "queryable p" and f: "f \<in> set fs" "stands_for p allowed f c"
    and r: "rr_candidate r = fr_candidate f" "rr_document r = fr_document f" "0 < rr_rank r"
  shows "\<exists>k. parent_candidate p fs r = Inr k \<and> child_ok k \<and> candidate_of p k \<and> ch_rank k = rr_rank r \<and> Some (ch_id k) = rr_candidate r"
proof -
  have c: "c \<in> set (pl_children p)" "child_of_id p (cc_id c) = Inr c" "fr_candidate f = Some (cc_id c)"
    "\<not> blank (cc_id c)" "\<not> blank (cc_document_id c)" "\<not> blank (cc_content c)" "fr_document f = cc_document_id c"
    using f(2) by (auto simp: stands_for_def)
  have key: "child_key (rr_candidate r) (rr_record r) = cc_id c" using r(1) c(3,4) by (auto intro!: child_key_Some)
  have "cc_id c \<in> fst ` set (fused_by_id fs)"
    using f(1) stands_for_key [OF f(2)] by (force simp: fused_by_id_def)
  then obtain f' where f': "map_of (fused_by_id fs) (cc_id c) = Some f'" by (metis map_of_eq_None_iff not_None_eq)
  have "new_child_chunk c = Inr c" using ready(1) c(1) by (auto simp: pipeline_ready_def corpus_ok_def Let_def)
  note off = child_offsets [OF this]
  have "\<not> blank (cc_parent_id c)" using ready(2) c(1) by (simp add: queryable_def)
  then show ?thesis using c key f' r off
    by (auto simp: parent_candidate_def Let_def child_ok_def candidate_of_def)
qed

lemma distinct_map_transfer:
  assumes "distinct (map f xs)" and "\<And>x y. x \<in> set xs \<Longrightarrow> y \<in> set xs \<Longrightarrow> g x = g y \<Longrightarrow> f x = f y"
  shows "distinct (map g xs)"
  using assms unfolding distinct_map inj_on_def by blast

lemma parent_candidates_return:
  assumes ready: "pipeline_ready N p ix resolve B" "queryable p" and fs: "fused_list p allowed fs"
    and inputs: "\<forall>i \<in> set inputs. \<exists>f \<in> set fs. input_of f i" "validate_candidates inputs = Inr inputs"
    and reply: "rerank_reply inputs limit rs"
  shows "\<exists>cands. res_map (parent_candidate p fs) rs = Inr cands \<and> check_children cands = Inr cands
    \<and> (\<forall>k \<in> set cands. candidate_of p k)"
proof -
  have pos: "0 < rr_rank r" if "r \<in> set rs" for r
  proof -
    have "rr_rank r \<in> set (map int [1..<Suc (length rs)])"
      using that reply unfolding rerank_reply_def by (metis image_eqI list.set_map)
    then show ?thesis by (auto simp del: upt_Suc)
  qed
  have src: "\<exists>i \<in> set inputs. reranked_from i r" if "r \<in> set rs" for r using reply that by (simp add: rerank_reply_def)
  have "\<exists>k. parent_candidate p fs r = Inr k \<and> child_ok k \<and> candidate_of p k \<and> ch_rank k = rr_rank r \<and> Some (ch_id k) = rr_candidate r"
    if r: "r \<in> set rs" for r
  proof -
    from src [OF r] obtain i where i: "i \<in> set inputs" "reranked_from i r" by blast
    from inputs(1) i(1) obtain f where f: "f \<in> set fs" "input_of f i" by blast
    from fs f(1) obtain c where c: "stands_for p allowed f c" by (auto simp: fused_list_def)
    show ?thesis using i(2) f(2) by (intro parent_candidate_returns [OF ready f(1) c _ _ pos [OF r]])
      (simp_all add: reranked_from_def input_of_def)
  qed
  then obtain h where h: "\<forall>r \<in> set rs. parent_candidate p fs r = Inr (h r) \<and> child_ok (h r) \<and> candidate_of p (h r)
      \<and> ch_rank (h r) = rr_rank r \<and> Some (ch_id (h r)) = rr_candidate r" by metis
  have "res_map (parent_candidate p fs) rs = Inr (map h rs)" using h by (intro res_map_Inr_map) blast
  moreover have "check_children (map h rs) = Inr (map h rs)"
  proof -
    have "distinct (map (\<lambda>r. ch_id (h r)) rs)"
    proof (rule distinct_map_transfer [of rr_upstream])
      show "distinct (map rr_upstream rs)" using reply by (simp add: rerank_reply_def)
      fix r r' assume r: "r \<in> set rs" "r' \<in> set rs" "ch_id (h r) = ch_id (h r')"
      then have "rr_candidate r = rr_candidate r'" using h by metis
      moreover obtain i i' where i: "i \<in> set inputs" "reranked_from i r" "i' \<in> set inputs" "reranked_from i' r'"
        using src r(1,2) by meson
      moreover have "rr_candidate r \<noteq> None" using h r(1) by (metis option.distinct(1))
      ultimately have "rk_identity i = rk_identity i'" by (auto simp: reranked_from_def rk_identity_def)
      moreover have "distinct (map rk_identity inputs)" using validate_candidates_Inr [OF inputs(2)] by blast
      ultimately have "i = i'" using i(1,3) by (simp add: distinct_map inj_on_def)
      then show "rr_upstream r = rr_upstream r'" using i(2,4) by (simp add: reranked_from_def)
    qed
    moreover have "map ch_rank (map h rs) = map rr_rank rs" using h by simp
    then have "map ch_rank (map h rs) = map int [1..<Suc (length (map h rs))]" using reply by (simp add: rerank_reply_def del: map_map upt_Suc)
    moreover have "list_all child_ok (map h rs)" using h by (simp add: list_all_iff)
    ultimately show ?thesis unfolding check_children_def by (simp add: comp_def del: upt_Suc)
  qed
  moreover have "\<forall>k \<in> set (map h rs). candidate_of p k" using h by simp
  ultimately show ?thesis by blast
qed

lemma find_distinct: "distinct (map pc_id ps) \<Longrightarrow> q \<in> set ps \<Longrightarrow> find (\<lambda>p. pc_id p = pc_id q) ps = Some q"
  by (simp add: find_key_iff)

lemma resolver_complete:
  assumes "in_memory_resolver ps = Inr resolve" and "\<forall>i \<in> set ids. \<exists>q \<in> set ps. pc_id q = i"
  shows "set (map fst (resolve ids)) = set ids" and "\<forall>(i, q) \<in> set (resolve ids). pc_id q = i \<and> q \<in> set ps"
    and "\<forall>q \<in> set ps. pc_id q \<in> set ids \<longrightarrow> map_of (resolve ids) (pc_id q) = Some q"
proof -
  let ?f = "\<lambda>i. case find (\<lambda>p. pc_id p = i) ps of None \<Rightarrow> [] | Some p \<Rightarrow> [(i, p)]"
  have d: "distinct (map pc_id ps)" and r: "resolve ids = concat (map ?f ids)"
    using assms(1) by (auto simp: in_memory_resolver_def split: if_splits)
  have found: "?f (pc_id q) = [(pc_id q, q)]" if "q \<in> set ps" for q using find_distinct [OF d that] by simp
  have "(\<lambda>i. fst ` set (?f i)) ` set ids = (\<lambda>i. {i}) ` set ids"
    using assms(2) found by (intro image_cong refl) fastforce
  then show "set (map fst (resolve ids)) = set ids" unfolding r by (simp add: image_UN)
  show m: "\<forall>(i, q) \<in> set (resolve ids). pc_id q = i \<and> q \<in> set ps"
    unfolding r by (auto split: option.splits dest!: find_SomeD [OF sym])
  show "\<forall>q \<in> set ps. pc_id q \<in> set ids \<longrightarrow> map_of (resolve ids) (pc_id q) = Some q"
  proof (intro ballI impI)
    fix q assume q: "q \<in> set ps" "pc_id q \<in> set ids"
    then have "pc_id q \<in> fst ` set (resolve ids)"
      using \<open>set (map fst (resolve ids)) = set ids\<close> by simp
    then obtain q' where q': "map_of (resolve ids) (pc_id q) = Some q'" by (metis map_of_eq_None_iff not_None_eq)
    with m have "pc_id q' = pc_id q" "q' \<in> set ps" by (auto dest!: map_of_SomeD)
    then show "map_of (resolve ids) (pc_id q) = Some q" using q' q(1) d by (metis distinct_map inj_on_def)
  qed
qed

lemma expand_parents_returns:
  assumes "pipeline_ready N p ix resolve B" and "check_children cands = Inr cands" and "\<forall>k \<in> set cands. candidate_of p k" and "0 < n"
  shows "\<exists>es. expand_parents resolve cands (Some n) = Inr es"
proof -
  have corpus: "corpus_ok (pl_parents p) (pl_children p)" and res: "in_memory_resolver (pl_parents p) = Inr resolve"
    using assms(1) by (simp_all add: pipeline_ready_def Let_def)
  let ?ids = "sorted_list_of_set (set (map ch_parent cands))"
  have ids: "set ?ids = ch_parent ` set cands" by simp
  have parent: "\<exists>q \<in> set (pl_parents p). pc_id q = ch_parent k \<and> pc_document_id q = ch_document k" if "k \<in> set cands" for k
  proof -
    from assms(3) that obtain c where "c \<in> set (pl_children p)" "ch_parent k = cc_parent_id c" "ch_document k = cc_document_id c"
      by (auto simp: candidate_of_def)
    then show ?thesis using corpus unfolding corpus_ok_def by fastforce
  qed
  have "\<forall>i \<in> set ?ids. \<exists>q \<in> set (pl_parents p). pc_id q = i" unfolding ids using parent by fastforce
  note r = resolver_complete [OF res this]
  have lookup: "\<exists>q \<in> set (pl_parents p). map_of (resolve ?ids) (ch_parent k) = Some q \<and> pc_id q = ch_parent k \<and> pc_document_id q = ch_document k"
    if "k \<in> set cands" for k
    using parent [OF that] r(3) ids that by (metis image_eqI)
  have same: "(set (map fst (resolve ?ids)) \<noteq> set ?ids) = False" using r(1) by simp
  have mism: "list_ex (\<lambda>(i, q). i \<noteq> pc_id q) (resolve ?ids) = False" using r(2) by (auto simp: list_ex_iff)
  have cons: "res_map (consistent_child (resolve ?ids)) cands = Inr (map (\<lambda>k. k) cands)"
    by (rule res_map_Inr_map) (use lookup in \<open>fastforce simp: consistent_child_def\<close>)
  have "\<exists>e. expanded_of (resolve ?ids) g = Inr e" if "g \<in> set (group_by ch_parent cands)" for g
  proof -
    obtain pid ks where g: "g = (pid, ks)" by (rule prod.exhaust)
    from group_by_memberD [OF that [unfolded g]] obtain k where k: "k \<in> set cands" "ch_parent k = pid"
      by (metis (mono_tags, lifting) filter_False mem_Collect_eq set_filter)
    from lookup [OF k(1)] obtain q where q: "q \<in> set (pl_parents p)" "map_of (resolve ?ids) pid = Some q" "pc_id q = pid"
      unfolding k(2) by blast
    have "new_parent_chunk q = Inr q" using corpus q(1) by (auto simp: corpus_ok_def)
    then have "pc_id q \<noteq> [] \<and> pc_document_id q \<noteq> [] \<and> pc_content q \<noteq> []" by (auto simp: new_parent_chunk_def split: if_splits)
    with q(2,3) show ?thesis by (auto simp: g expanded_of_def Let_def)
  qed
  then obtain fused where f: "res_map (expanded_of (resolve ?ids)) (group_by ch_parent cands) = Inr fused"
    using res_map_returns by blast
  have "(case Some n of None \<Rightarrow> False | Some n \<Rightarrow> n \<le> 0) = False" using assms(4) by simp
  then show ?thesis unfolding expand_parents_def
    by (simp only: if_False assms(2) res_bind.simps Let_def same mism cons list.map_ident f) (auto split: if_splits)
qed

lemma expanded_metadata:
  assumes "expand_parents resolve cs limit = Inr es" and "e \<in> set es"
  shows "\<exists>q. map_of (resolve (sorted_list_of_set (set (map ch_parent cs)))) (ep_parent e) = Some q \<and> ep_metadata e = pc_metadata q"
proof (cases "cs = []")
  case True
  then have "es = []" using assms(1) by (simp add: expand_parents_def check_children_def split: if_splits)
  then show ?thesis using assms(2) by simp
next
  case False
  from expand_parents_Inr [OF assms(1) False] obtain resolved fused
    where resolved: "resolved = resolve (sorted_list_of_set (set (map ch_parent cs)))"
    and f: "res_map (expanded_of resolved) (group_by ch_parent cs) = Inr fused"
    and es: "es = map (\<lambda>(i, e). e\<lparr>ep_rank := i\<rparr>) (enum1 (top_n limit (sort_key expanded_key fused)))" .
  from assms(2) obtain i e0 where e: "e0 \<in> set fused" "e = e0\<lparr>ep_rank := i\<rparr>" unfolding es by (rule renumbered_member) blast
  from res_map_member [OF f e(1)] obtain g where "expanded_of resolved g = Inr e0" by blast
  then show ?thesis unfolding resolved [symmetric] e(2)
    by (cases g) (auto simp: expanded_of_def Let_def split: option.splits if_splits)
qed

lemma located_reference: "located (ep_metadata e) \<Longrightarrow> \<exists>r. evidence_reference_of eid e = Inr r"
  by (fastforce simp: evidence_reference_of_def located_def Let_def)

lemma evidence_returns:
  assumes ready: "pipeline_ready N p ix resolve B" and ok: "queryable p" and es: "expand_parents resolve cands limit = Inr es"
  shows "\<exists>ctx. build_evidence B es = Inr ctx"
proof -
  have res: "in_memory_resolver (pl_parents p) = Inr resolve"
    and B: "new_evidence_builder (rg_evidence_total (pl_config p)) (rg_evidence_each (pl_config p))
       (rg_evidence_count (pl_config p)) default_marker = Inr B"
    using ready by (simp_all add: pipeline_ready_def Let_def)
  have e: "\<not> blank (ep_content e) \<and> located (ep_metadata e)" if "e \<in> set es" for e
  proof -
    from expanded_metadata [OF es that] obtain q where q: "map_of (resolve (sorted_list_of_set (set (map ch_parent cands)))) (ep_parent e) = Some q"
      "ep_metadata e = pc_metadata q" by blast
    from expand_parents_list(3) [OF es] that q(1) have "ep_content e = pc_content q" by fastforce
    moreover have "q \<in> set (pl_parents p)" using in_memory_resolver_map_of [OF res q(1)] by blast
    ultimately show ?thesis using ok q(2) by (auto simp: queryable_def)
  qed
  have c: "check_parents es = Inr es" using expand_parents_checked [OF es] e by blast
  have "assembled B es [] [] []" using B by (auto simp: assembled_def rendering_def new_evidence_builder_def split: if_splits)
  then have "(\<exists>items refs rendered. assemble B es [] [] [] = Inr (items, refs, rendered))
      \<or> assemble B es [] [] [] = Inl ''evidence reference''"
    using assemble_assembled [of B "[]" es "[]" "[]" "[]"] by auto
  moreover have "assemble B es [] [] [] \<noteq> Inl ''evidence reference''"
    using assemble_located located_reference e by blast
  ultimately show ?thesis using c by (auto simp: build_evidence_def)
qed

lemma lexical_results_return:
  assumes ready: "pipeline_ready N p ix resolve B" and ok: "queryable p" and num: "rounding (nu_rnd N)" "\<forall>x \<ge> 1. 0 \<le> nu_log N x"
    and q: "\<not> blank q" "tokenize (nu_fold N) q = Inr tokens" "0 < limit"
  shows "\<exists>hits rs. bm25_retrieve (tokenize (nu_fold N)) (nu_rnd N) (nu_log N) ix q limit = Inr hits
    \<and> lexical_results p hits = Inr rs \<and> ranked_children p rs"
proof -
  from ready obtain ds where ds: "corpus_documents N (pl_children p) = Inr ds"
    and ix: "new_bm25_index (tokenize (nu_fold N)) (3 / 2) (3 / 4) ds = Inr ix" by (auto simp: pipeline_ready_def Let_def)
  define T where "T = take (nat limit) (sort_key bm25_key (positive_scores (nu_rnd N) (nu_log N) ix tokens))"
  define hits where "hits = map (\<lambda>(i, d, score). \<lparr>bh_rank = i, bh_document = d, bh_score = score\<rparr>) (enum1 T)"
  have r: "bm25_retrieve (tokenize (nu_fold N)) (nu_rnd N) (nu_log N) ix q limit = Inr hits"
    unfolding hits_def T_def by (rule bm25_retrieve_eq [OF num ix q])
  note h = ranked_hits [OF hits_def]
  have doc: "\<exists>c \<in> set (pl_children p). bd_candidate d = Some (cc_id c) \<and> bd_record d = cc_id c" if "d \<in> set ds" for d
  proof -
    from res_map_member [OF ds [unfolded corpus_documents_def] that] obtain c where
      "c \<in> set (pl_children p)" "bm25_document_of (nu_str N) c = Inr d" by blast
    then show ?thesis by (auto simp: bm25_document_of_def Let_def split: if_splits)
  qed
  let ?ident = "\<lambda>x. case bd_candidate (bh_document x) of Some i \<Rightarrow> i | None \<Rightarrow> bd_record (bh_document x)"
  have members: "bh_document x \<in> set ds" if "x \<in> set hits" for x
  proof -
    have "hit_pair x \<in> set T" using that h(2) by (metis image_eqI list.set_map)
    then show ?thesis by (auto simp: T_def positive_scores_def hit_pair_def new_index_ok(2) [OF ix] dest!: in_set_takeD)
  qed
  then have ident: "?ident x = bd_record (bh_document x)" if "x \<in> set hits" for x
    using doc [of "bh_document x"] that by fastforce
  have "distinct (map (bd_record \<circ> fst) T)" unfolding T_def
    using new_index_ok(1) [OF ix] by (intro distinct_positive) (auto simp: index_ok_def Let_def)
  moreover have "map (bd_record \<circ> fst) T = map ?ident hits"
    using ident by (simp add: h(2) [symmetric] hit_pair_def)
  ultimately have d: "distinct (map ?ident hits)" by simp
  have ranks: "map (\<lambda>x. int (bh_rank x)) hits = map int [1..<Suc (length hits)]"
    unfolding h(1) [symmetric] by simp
  have "\<forall>x \<in> set hits. 0 < int (bh_rank x) \<and> ?ident x \<in> cc_id ` set (pl_children p)"
  proof
    fix x assume x: "x \<in> set hits"
    have "bh_rank x \<in> set [1..<Suc (length hits)]" using x h(1) by (metis image_eqI list.set_map)
    then show "0 < int (bh_rank x) \<and> ?ident x \<in> cc_id ` set (pl_children p)"
      using doc [OF members [OF x]] by (auto simp del: upt_Suc)
  qed
  from ranked_results [OF ready ok _ this d ranks, of "lit ''bm25''" bh_score] obtain rs
    where "lexical_results p hits = Inr rs" "ranked_children p rs" by (auto simp: lexical_results_def)
  with r show ?thesis by blast
qed

lemma dense_results_return:
  assumes ready: "pipeline_ready N p ix resolve B" "queryable p" and hits: "vh_id ` set hits \<subseteq> cc_id ` set (pl_children p)" "distinct (map vh_id hits)"
  shows "\<exists>rs. dense_results p hits = Inr rs \<and> ranked_children p rs \<and> length rs = length hits"
proof -
  have "\<forall>x \<in> set (enum1 hits). 0 < int (fst x) \<and> vh_id (snd x) \<in> cc_id ` set (pl_children p)"
    using hits(1) enum1_member by fastforce
  moreover have "map (\<lambda>x. vh_id (snd x)) (enum1 hits) = map vh_id hits" by (metis (no_types, lifting) comp_apply list.map_comp map_cong map_snd_enum1)
  moreover have "map (\<lambda>x. int (fst x)) (enum1 hits) = map int [1..<Suc (length (enum1 hits))]"
    by (metis (no_types, lifting) comp_apply length_enum1 list.map_comp map_cong map_fst_enum1)
  ultimately show ?thesis
    using ranked_results [OF ready, of "lit ''dense''" "enum1 hits" "\<lambda>x. int (fst x)" "\<lambda>x. vh_id (snd x)" "\<lambda>x. vh_score (snd x)"] hits(2)
    by (simp add: dense_results_def case_prod_unfold del: upt_Suc)
qed

lemma fused_list_of:
  assumes "fuse_results N g scoped dense lexical = Inr fs"
    and "\<forall>r \<in> set dense \<union> set lexical. shows_child p r \<and> in_scope allowed (cr_document r)"
  shows "fused_list p allowed fs"
proof -
  have "\<forall>f \<in> set fs. \<exists>c. stands_for p allowed f c" using fused_child [OF assms(1) _ assms(2)] by blast
  moreover have "map fr_rank fs = [1..<Suc (length fs)] \<and> distinct (map result_identity fs)"
  proof (cases "fs = []")
    case False
    then show ?thesis using assms(1) fusion_list(1,2)
      by (auto simp: fuse_results_def Let_def simp del: upt_Suc split: if_splits)
  qed simp
  ultimately show ?thesis by (simp add: fused_list_def)
qed

lemma rerank_stage_returns:
  assumes "reranker (rs_rerank S)" and "fused_list p allowed fs"
    and answers: "\<forall>inputs w. validate_candidates inputs = Inr inputs \<longrightarrow>
      (\<exists>rs. fst (rs_rerank S q inputs (Some (rg_reranker_top (pl_config p))) w) = Inr rs)"
  shows "\<exists>inputs limit rs w'. rerank_stage S p q fs w = (Inr rs, w') \<and> rerank_reply inputs limit rs
    \<and> validate_candidates inputs = Inr inputs \<and> (\<forall>i \<in> set inputs. \<exists>f \<in> set fs. input_of f i)"
proof -
  from rerank_inputs_return [OF assms(2), of "nat (rg_candidates (pl_config p))"] obtain inputs
    where i: "res_map (rerank_input p) (take (nat (rg_candidates (pl_config p))) fs) = Inr inputs"
      "validate_candidates inputs = Inr inputs" "\<forall>i \<in> set inputs. \<exists>f \<in> set fs. input_of f i" by blast
  show ?thesis
  proof (cases "inputs = []")
    case True
    then have "rerank_stage S p q fs w = (Inr [], w)" using i(1) by (simp add: rerank_stage_def)
    moreover have "rerank_reply inputs None []" by (simp add: rerank_reply_def)
    ultimately show ?thesis using i(2,3) by blast
  next
    case False
    let ?t = "Some (rg_reranker_top (pl_config p))"
    from answers i(2) obtain rs where rs: "fst (rs_rerank S q inputs ?t w) = Inr rs" by blast
    then obtain w' where w': "rs_rerank S q inputs ?t w = (Inr rs, w')" by (metis prod.collapse)
    have "rerank_stage S p q fs w = (Inr rs, w')" using i(1) False w' by (cases inputs) (simp_all add: rerank_stage_def)
    moreover have "rerank_reply inputs ?t rs" using reranker.replies [OF assms(1) rs] .
    ultimately show ?thesis using i(2,3) by blast
  qed
qed

lemma query_returns:
  assumes ready: "pipeline_ready N p ix resolve B" and ok: "queryable p" and g: "new_retrieval_config (pl_config p) = Inr (pl_config p)"
    and state: "pl_initialized p" "\<not> pl_closed p"
    and num: "rounding (nu_rnd N)" "\<forall>x > 0. 0 < nu_rnd N x" "\<forall>x \<ge> 1. 0 \<le> nu_log N x"
    and q: "\<not> blank q" "tokenize (nu_fold N) q = Inr tokens"
    and dense: "dense_retrieve (rs_dense S) q (rg_dense_top (pl_config p)) None w = (Inr hits, w1)"
      "vh_id ` set hits \<subseteq> cc_id ` set (pl_children p)" "distinct (map vh_id hits)" "allowed \<noteq> None \<or> hits \<noteq> []"
    and rerank: "reranker (rs_rerank S)" "\<forall>inputs w. validate_candidates inputs = Inr inputs \<longrightarrow>
      (\<exists>rs. fst (rs_rerank S q inputs (Some (rg_reranker_top (pl_config p))) w) = Inr rs)"
  shows "\<exists>r w'. retrieve_query N S p q allowed w = (Inr r, w')"
proof -
  let ?g = "pl_config p"
  have r: "pl_dense p" "pl_bm25 p = Some ix" "pl_expander p = Some resolve" "pl_builder p = Some B"
    and byid: "pl_by_id p = map (\<lambda>c. (cc_id c, c)) (pl_children p)"
    using ready by (simp_all add: pipeline_ready_def Let_def)
  have tops: "0 < rg_bm25_top ?g" "0 < rg_parent_top ?g" using g by (auto simp: new_retrieval_config_def split: if_splits)
  from dense_results_return [OF ready ok dense(2,3)] obtain ds where ds: "dense_results p hits = Inr ds" "ranked_children p ds"
    "length ds = length hits" by blast
  from lexical_results_return [OF ready ok num(1,3) q tops(1)] obtain lhits ls
    where ls: "bm25_retrieve (tokenize (nu_fold N)) (nu_rnd N) (nu_log N) ix q (rg_bm25_top ?g) = Inr lhits"
      "lexical_results p lhits = Inr ls" "ranked_children p ls" by blast
  let ?d = "filter_scope allowed ds" and ?l = "filter_scope allowed ls"
  have "allowed \<noteq> None \<or> ?d \<noteq> [] \<or> ?l \<noteq> []"
  proof (cases allowed)
    case None
    then have "ds \<noteq> []" using dense(4) ds(3) by auto
    then show ?thesis using None by (simp add: filter_scope_def)
  qed simp
  from fuse_results_return [OF filter_scope_ranked [OF ds(2)] filter_scope_ranked [OF ls(3)] g num(2) this]
  obtain fs where fs: "fuse_results N ?g (allowed \<noteq> None) ?d ?l = Inr fs" by blast
  have "\<forall>r \<in> set ?d \<union> set ?l. shows_child p r \<and> in_scope allowed (cr_document r)"
    using filter_scope_shown ds(2) ls(3) unfolding ranked_children_def by blast
  from fused_list_of [OF fs this] have fl: "fused_list p allowed fs" .
  from rerank_stage_returns [OF rerank(1) fl rerank(2), of w1] obtain inputs limit rs w'
    where rs: "rerank_stage S p q fs w1 = (Inr rs, w')" "rerank_reply inputs limit rs"
      "validate_candidates inputs = Inr inputs" "\<forall>i \<in> set inputs. \<exists>f \<in> set fs. input_of f i" by blast
  from parent_candidates_return [OF ready ok fl rs(4,3,2)] obtain cands
    where c: "res_map (parent_candidate p fs) rs = Inr cands" "check_children cands = Inr cands" "\<forall>k \<in> set cands. candidate_of p k" by blast
  from expand_parents_returns [OF ready c(2,3) tops(2)] obtain es
    where es: "expand_parents resolve cands (Some (rg_parent_top ?g)) = Inr es" by blast
  from evidence_returns [OF ready ok es] obtain ctx where "build_evidence B es = Inr ctx" by blast
  with c(1) es have "\<exists>r. finish_query p resolve B q ?d ?l fs rs = Inr r" by (simp add: finish_query_def)
  then show ?thesis using state q(1) r dense(1) ds(1) ls(1,2) fs rs(1)
    by (simp add: retrieve_query_def Let_def)
qed


subsection \<open>A concrete pipeline\<close>

definition demo_numerics :: numerics where
  "demo_numerics = \<lparr>nu_rnd = id, nu_add = sum_list, nu_sqrt = id, nu_log = (\<lambda>x. x - 1), nu_fold = id, nu_str = (\<lambda>_. [])\<rparr>"

definition demo_common :: "pystr \<Rightarrow> (pystr \<times> json) list" where
  "demo_common content = [(lit ''schema_version'', JStr (lit ''1.0'')), (lit ''source'', JStr [115]), (lit ''metadata'', JObj []),
     (lit ''provenance'', JObj []), (lit ''document_id'', JStr [100]), (lit ''document_version'', JStr [118]),
     (lit ''content'', JStr content), (lit ''start_offset'', JInt 0), (lit ''end_offset'', JInt 1)]"

definition demo_corpus_files :: "pystr \<Rightarrow> corpus_files" where
  "demo_corpus_files content = \<lparr>cf_parse = (\<lambda>line. Some (JObj (if line = [112]
       then (lit ''chunk_id'', JStr [112]) # (lit ''block_ids'', JList []) # demo_common content
       else (lit ''chunk_id'', JStr [99]) # (lit ''parent_id'', JStr [112]) # demo_common [24211]))),
     cf_int = plain_int, cf_direct = True,
     cf_lines = (\<lambda>_ name. Some (if name = ''parent_chunks.jsonl'' then [[112]] else [[99]]))\<rparr>"

definition demo_chunk_metadata :: "(pystr \<times> json) list" where
  "demo_chunk_metadata = [(lit ''document_version'', JStr [118]), (lit ''source'', JStr [115]),
     (lit ''start_offset'', JInt 0), (lit ''end_offset'', JInt 1)]"

definition demo_loaded_parent :: parent_chunk where
  "demo_loaded_parent = \<lparr>pc_id = [112], pc_document_id = [100], pc_document_version = [118], pc_content = [24211], pc_block_ids = [],
     pc_page = None, pc_source = Some [115], pc_start = 0, pc_end = 1, pc_metadata = demo_chunk_metadata\<rparr>"

definition demo_loaded_child :: child_chunk where
  "demo_loaded_child = \<lparr>cc_id = [99], cc_parent_id = [112], cc_document_id = [100], cc_document_version = [118], cc_content = [24211],
     cc_page = None, cc_source = Some [115], cc_start = Some 0, cc_end = Some 1,
     cc_metadata = demo_chunk_metadata @ [(lit ''parent_id'', JStr [112])]\<rparr>"

definition demo_encoder :: "unit cross_encoder" where
  "demo_encoder = \<lparr>ce_load = (\<lambda>w. (Inr (), w)), ce_predict = (\<lambda>pairs w. (Inr (map (\<lambda>_. 1) pairs), w))\<rparr>"

definition demo_services :: "memory_vectors retrieval_services" where
  "demo_services = \<lparr>rs_dense = local_services id sum_list id 1 (\<lambda>_. Inr [1]), rs_store_dimension = 1,
     rs_init_embedding = None, rs_init_reranker = None,
     rs_rerank = (\<lambda>q cs limit w. (fst (cross_rerank demo_encoder q cs limit (True, ())), w))\<rparr>"

definition demo_vectors :: memory_vectors where
  "demo_vectors = \<lparr>mv_dimension = 1, mv_records = []\<rparr>"

lemma demo_corpus_loaded:
  assumes "content \<noteq> []"
  shows "load_chunks (demo_corpus_files content) = Inr ([demo_loaded_parent\<lparr>pc_content := content\<rparr>], [demo_loaded_child])"
proof -
  let ?p = "(lit ''chunk_id'', JStr [112]) # (lit ''block_ids'', JList []) # demo_common content"
  let ?c = "(lit ''chunk_id'', JStr [99]) # (lit ''parent_id'', JStr [112]) # demo_common [24211]"
  have rows: "read_jsonl (cf_parse (demo_corpus_files content)) (cf_lines (demo_corpus_files content) True ''parent_chunks.jsonl'') = Inr [?p]"
    "read_jsonl (cf_parse (demo_corpus_files content)) (cf_lines (demo_corpus_files content) True ''child_chunks.jsonl'') = Inr [?c]"
    by (simp_all add: read_jsonl_def demo_corpus_files_def py_space_def)
  have ok: "check_row ?p = Inr ()" "check_row ?c = Inr ()"
    by (simp_all add: check_row_def demo_common_def jget_def is_object_def py_space_def windows_absolute_def path_parts_def lit_def)
  have m: "runtime_metadata ?p False = demo_chunk_metadata"
    "runtime_metadata ?c True = demo_chunk_metadata @ [(lit ''parent_id'', JStr [112])]"
    by (simp_all add: runtime_metadata_def demo_common_def jget_def object_fields_def text_of_source_def demo_chunk_metadata_def)
  have "parent_from_row plain_int ?p = Inr (demo_loaded_parent\<lparr>pc_content := content\<rparr>)"
    unfolding parent_from_row_def ok m using assms
    by (simp add: demo_common_def text_at_def jget_def texts_of_def page_at_def plain_int_def metadata_value_ok_def
        demo_chunk_metadata_def new_parent_chunk_def page_ok_def demo_loaded_parent_def)
  moreover have "child_from_row plain_int ?c = Inr demo_loaded_child"
    unfolding child_from_row_def ok m
    by (simp add: demo_common_def text_at_def jget_def page_at_def offset_at_def plain_int_def metadata_value_ok_def
        demo_chunk_metadata_def new_child_chunk_def page_ok_def demo_loaded_child_def)
  moreover have "child_within [demo_loaded_parent\<lparr>pc_content := content\<rparr>] demo_loaded_child"
    by (simp add: child_within_def demo_loaded_parent_def demo_loaded_child_def)
  moreover have "cf_direct (demo_corpus_files content) = True" "cf_int (demo_corpus_files content) = plain_int" by (simp_all add: demo_corpus_files_def)
  ultimately show ?thesis by (simp add: load_chunks_def rows)
qed

lemma demo_corpus_loaded_same: "load_chunks (demo_corpus_files [24211]) = Inr ([demo_loaded_parent], [demo_loaded_child])"
  by (simp add: demo_corpus_loaded demo_loaded_parent_def)

definition demo_filled :: memory_vectors where
  "demo_filled = \<lparr>mv_dimension = 1, mv_records = [([99], \<lparr>vr_id = [99], vr_parent = [112], vr_document = [100],
     vr_version = [118], vr_content = [24211], vr_vector = [1], vr_source = Some [115], vr_page = None,
     vr_metadata = cc_metadata demo_loaded_child\<rparr>)]\<rparr>"

lemma demo_indexed: "index_corpus demo_numerics demo_services True [demo_loaded_child] demo_vectors =
    (Inr (Some \<lparr>uc_attempted = 1, uc_inserted = 1, uc_updated = 0\<rparr>), demo_filled)"
  by (simp add: index_corpus_def dense_index_def demo_numerics_def demo_services_def local_services_def check_embedding_def
      vector_norm_def record_of_child_def demo_loaded_child_def vector_record_ok_def page_ok_def memory_upsert_def
      check_vector_def demo_vectors_def demo_filled_def)

lemma demo_filled_ok: "vectors_ok id sum_list id demo_filled" "memory_held demo_filled = {[99]}"
  by (simp_all add: vectors_ok_def memory_held_def demo_filled_def vector_record_ok_def page_ok_def vector_norm_def)

lemma demo_tokenized: "tokenize (nu_fold demo_numerics) [24211] = Inr [[24211]]"
  by (simp add: demo_numerics_def tokenize_def py_space_def ascii_alnum_def token_joint_def cjk_char_def cjk_tokens_def bigrams_def)

lemma demo_started:
  assumes "new_pipeline demo_services None = Inr p"
  shows "\<exists>p'. start_services demo_numerics [demo_loaded_parent] [demo_loaded_child] counts p = (Inr (), p')"
proof -
  have d: "res_map (bm25_document_of (nu_str demo_numerics)) [demo_loaded_child] = Inr [\<lparr>bd_record = [99], bd_document = [100],
      bd_candidate = Some [99], bd_content = [24211], bd_category = lit ''enterprise_kb'', bd_source = [115],
      bd_metadata = cc_metadata demo_loaded_child\<rparr>]"
    by (simp add: bm25_document_of_def demo_loaded_child_def child_category_def jget_def demo_chunk_metadata_def falsy_def
        bm25_document_ok_def py_space_def or_empty_def lit_def)
  have "\<exists>ix. new_bm25_index (tokenize (nu_fold demo_numerics)) (3 / 2) (3 / 4) [\<lparr>bd_record = [99], bd_document = [100],
      bd_candidate = Some [99], bd_content = [24211], bd_category = lit ''enterprise_kb'', bd_source = [115],
      bd_metadata = cc_metadata demo_loaded_child\<rparr>] = Inr ix"
    by (simp add: new_bm25_index_def index_document_def bm25_document_ok_def py_space_def demo_tokenized lit_def)
  with d obtain ix where ix: "res_bind (res_map (bm25_document_of (nu_str demo_numerics)) [demo_loaded_child])
      (new_bm25_index (tokenize (nu_fold demo_numerics)) (3 / 2) (3 / 4)) = Inr ix" by auto
  obtain resolve where r: "in_memory_resolver [demo_loaded_parent] = Inr resolve" by (simp add: in_memory_resolver_def)
  have "pl_config p = default_retrieval_config" using assms by (auto simp: new_pipeline_def split: if_splits)
  then show ?thesis unfolding start_services_def ix
    by (simp add: r Let_def default_retrieval_config_def new_evidence_builder_def default_marker_def)
qed

lemma demo_initialized:
  obtains p where "pipeline_run demo_numerics demo_services p" "pl_initialized p" "pl_config p = default_retrieval_config"
    "pl_parents p = [demo_loaded_parent]" "pl_children p = [demo_loaded_child]"
proof -
  obtain p where p: "new_pipeline demo_services None = Inr p"
    by (simp add: new_pipeline_def demo_services_def local_services_def)
  from demo_started [OF p] obtain p' where s: "start_services demo_numerics [demo_loaded_parent] [demo_loaded_child]
      (Some \<lparr>uc_attempted = 1, uc_inserted = 1, uc_updated = 0\<rparr>) p = (Inr (), p')" by blast
  have c: "pl_config p = default_retrieval_config" "\<not> pl_closed p" "\<not> pl_initialized p"
    using p by (auto simp: new_pipeline_def split: if_splits)
  have deps: "rs_init_embedding demo_services = None" "rs_init_reranker demo_services = None"
    "dn_ids (rs_dense demo_services) demo_filled = (Inr {[99]}, demo_filled)"
    by (simp_all add: demo_services_def local_services_def memory_ids_def demo_filled_def)
  have "cc_id ` set [demo_loaded_child] = {[99]}" by (simp add: demo_loaded_child_def)
  then have "initialize_pipeline demo_numerics demo_services (demo_corpus_files [24211]) True p demo_vectors = (Inr (), p', demo_filled)"
    by (simp add: initialize_pipeline_def c demo_corpus_loaded_same initialize_dependency_def deps demo_indexed s [unfolded One_nat_def])
  then have "pipeline_run demo_numerics demo_services p'"
    using pipeline_run.intros(1) [OF p] by (auto intro: pipeline_run.intros(2))
  moreover have "new_retrieval_config (pl_config p) = Inr (pl_config p)"
    by (simp add: c new_retrieval_config_def default_retrieval_config_def)
  with start_services_ok [OF s load_chunks_ok [OF demo_corpus_loaded_same]] c
  have "pl_initialized p' \<and> pl_config p' = default_retrieval_config \<and> pl_parents p' = [demo_loaded_parent]
      \<and> pl_children p' = [demo_loaded_child]" by auto
  ultimately show thesis using that by blast
qed

lemma demo_queryable:
  assumes "pl_parents p = [demo_loaded_parent]" and "pl_children p = [demo_loaded_child]"
  shows "queryable p"
  using assms by (simp add: queryable_def demo_loaded_child_def demo_loaded_parent_def py_space_def located_def jget_def
      demo_chunk_metadata_def plain_int_def)

lemma demo_rerank_returns:
  assumes "validate_candidates inputs = Inr inputs"
  shows "\<exists>rs. fst (rs_rerank demo_services [24211] inputs (Some 5) w) = Inr rs"
proof -
  have "\<exists>rs. fst (cross_rerank demo_encoder [24211] inputs (Some 5) (True, ())) = Inr rs"
    by (rule cross_rerank_returns [OF _ assms]) (auto simp: py_space_def load_encoder_def demo_encoder_def)
  then show ?thesis by (simp add: demo_services_def)
qed

lemma demo_reranker: "reranker (rs_rerank demo_services)"
  by unfold_locales (auto simp: demo_services_def dest: cross_rerank_reply)

lemma demo_dense_world: "dense_world (vectors_ok id sum_list id) memory_held (rs_dense demo_services)"
  unfolding demo_services_def retrieval_services.simps by (rule local_dense.dense_world_axioms)

lemma demo_retrieved: "\<exists>h w1. dense_retrieve (rs_dense demo_services) [24211] 10 None demo_filled = (Inr [h], w1)"
  by (simp add: dense_retrieve_def demo_services_def local_services_def memory_search_def check_vector_def vector_norm_def
      demo_filled_def py_space_def)

lemma demo_numerics_ok: "rounding (nu_rnd demo_numerics)" "\<forall>x > 0. 0 < nu_rnd demo_numerics x" "\<forall>x \<ge> 1. 0 \<le> nu_log demo_numerics x"
  by (simp_all add: demo_numerics_def rounding_def mono_def)

lemma demo_answered:
  obtains p r w' where "pipeline_run demo_numerics demo_services p" "pl_children p = [demo_loaded_child]"
    "retrieve_query demo_numerics demo_services p [24211] (Some {[100]}) demo_filled = (Inr r, w')"
proof -
  obtain p where p: "pipeline_run demo_numerics demo_services p" "pl_initialized p" "pl_config p = default_retrieval_config"
    "pl_parents p = [demo_loaded_parent]" "pl_children p = [demo_loaded_child]" by (rule demo_initialized)
  from ready_pipeline [OF p(1,2)] obtain ix resolve B where ready: "pipeline_ready demo_numerics p ix resolve B" .
  have ok: "new_retrieval_config (pl_config p) = Inr (pl_config p)" "\<not> pl_closed p"
    using pipeline_run_ok [OF p(1)] p(2) by (auto simp: pipeline_ok_def)
  obtain h w1 where h: "dense_retrieve (rs_dense demo_services) [24211] (rg_dense_top (pl_config p)) None demo_filled = (Inr [h], w1)"
    using demo_retrieved by (auto simp: p(3) default_retrieval_config_def)
  have "vh_id ` set [h] \<subseteq> cc_id ` set (pl_children p)"
    using dense_world.dense_retrieve_keeps [OF demo_dense_world h demo_filled_ok(1)] p(5) demo_filled_ok(2)
    by (simp add: demo_loaded_child_def)
  then have "\<exists>r w'. retrieve_query demo_numerics demo_services p [24211] (Some {[100]}) demo_filled = (Inr r, w')"
    by (intro query_returns [OF ready demo_queryable [OF p(4,5)] ok(1) p(2) ok(2) demo_numerics_ok _ demo_tokenized h _ _ _ demo_reranker])
      (use demo_rerank_returns in \<open>auto simp: p(3) default_retrieval_config_def py_space_def\<close>)
  with p(1,5) that show thesis by blast
qed


text \<open>
  The loader accepts a parent without visible text, which the evidence builder then rejects for every query that
  reaches it.
\<close>

theorem blank_parent_accepted:
  "(\<exists>q. load_chunks (demo_corpus_files [32]) = Inr ([q], [demo_loaded_child]) \<and> blank (pc_content q))
   \<and> (\<forall>B es e. e \<in> set es \<and> blank (ep_content e) \<longrightarrow> (\<exists>m. build_evidence B es = Inl m))"
  by (auto simp: demo_corpus_loaded py_space_def build_evidence_def check_parents_def list_ex_iff)


end
