(* ===== verification/TraceModels.thy ===== *)
theory TraceModels
  imports DataAgents
begin

section \<open>Observability: attributes, spans and traces\<close>

text \<open>
  \<^verbatim>\<open>observability/stages.py\<close>, \<^verbatim>\<open>observability/attributes.py\<close>, \<^verbatim>\<open>observability/models.py\<close>,
  \<^verbatim>\<open>observability/provider.py\<close> and \<^verbatim>\<open>observability/summary.py\<close>. A value offered as an attribute is a JSON
  value, where an array or object stands for everything that is not a scalar; floats are finite. \<^verbatim>\<open>str.lower\<close> is
  the argument \<open>lowered\<close>, \<open>rnd\<close> rounds to a float. The validators of a model strip its texts, so a constructor
  may return other texts than it was given.
\<close>

subsection \<open>Stages and attributes\<close>

datatype span_status =
    SpanRunning
  | SpanCompleted
  | SpanFailed
  | SpanCancelled
  | SpanSkipped
  | SpanUnsupported
  | SpanNotRequested

definition terminal_status :: "span_status \<Rightarrow> bool" where
  "terminal_status s \<longleftrightarrow> s \<noteq> SpanRunning"

datatype trace_stage =
    StageRequest
  | StageMemoryRead
  | StageRouting
  | StageProviderCall
  | StageCoordination
  | StageAgentWorkflow
  | StagePlanning
  | StagePlanStepExecution
  | StageWorkflowReview
  | StageSkillExecution
  | StageToolSelection
  | StageToolExecution
  | StageDataAccess
  | StageRetrieval
  | StageReranking
  | StageEvidenceSelection
  | StageAnswerGeneration
  | StageReview
  | StageMemoryWrite
  | StageMemorySummary
  | StageResponseMapping
  | StageRuntimeBootstrap

definition common_keys :: "string list" where
  "common_keys = [''provider'', ''model'', ''retry_count'', ''input_tokens'', ''output_tokens'',
    ''tool_call_count'', ''result_count'', ''denied'', ''success'']"

fun stage_keys :: "trace_stage \<Rightarrow> string list" where
  "stage_keys StageRequest = [''http_status'', ''latency_ms'', ''final_status'', ''session_present'']"
| "stage_keys StageMemoryRead = [''memory_requested'', ''result_count'', ''success'', ''latency_ms'']"
| "stage_keys StageRouting = [''route'', ''has_knowledge_subquery'', ''has_data_subquery'', ''latency_ms'']"
| "stage_keys StageProviderCall = [''operation'', ''usage_available'', ''finish_reason'', ''success'', ''latency_ms'']"
| "stage_keys StageCoordination = [''route'', ''selected_skill_count'', ''skill_name'', ''success'', ''latency_ms'']"
| "stage_keys StageAgentWorkflow = [''plan_version'', ''plan_step_count'', ''repair_allowed'', ''success'', ''result_status'',
     ''latency_ms'']"
| "stage_keys StagePlanning = [''plan_version'', ''plan_step_count'', ''success'', ''latency_ms'']"
| "stage_keys StagePlanStepExecution = [''execution_round'', ''skill_name'', ''skill_calls_used'', ''success'', ''result_status'',
     ''latency_ms'']"
| "stage_keys StageWorkflowReview = [''execution_round'', ''reviewer_outcome'', ''reason_code'', ''repair_attempts'',
     ''reviewer_calls_used'', ''budget_remaining'', ''success'', ''result_status'',
     ''latency_ms'']"
| "stage_keys StageSkillExecution = [''route'', ''skill_name'', ''execution_index'', ''selected_skill_count'', ''success'',
     ''result_status'', ''latency_ms'']"
| "stage_keys StageToolSelection = [''tool_name'', ''authorized'', ''argument_validation'', ''denied'', ''tool_call_count'',
     ''selection_index'', ''query_source'', ''success'', ''latency_ms'']"
| "stage_keys StageToolExecution = [''tool_name'', ''authorized'', ''execution_index'', ''success'', ''result_status'',
     ''result_count'', ''result_truncated'', ''latency_ms'']"
| "stage_keys StageDataAccess = [''tool_name'', ''query_category'', ''authorized'', ''denied'', ''argument_validation'',
     ''row_count'', ''result_truncated'', ''timeout'', ''success'', ''result_status'',
     ''latency_ms'']"
| "stage_keys StageRetrieval = [''requested_top_k'', ''dense_candidate_count'', ''sparse_candidate_count'',
     ''fused_candidate_count'', ''retrieved_count'', ''collection_name'', ''child_count'',
     ''parent_count'', ''expanded_count'', ''reranked_count'', ''empty_result'', ''success'',
     ''latency_ms'']"
| "stage_keys StageReranking = [''input_candidate_count'', ''requested_top_k'', ''reranked_count'', ''model'', ''success'',
     ''latency_ms'']"
| "stage_keys StageEvidenceSelection = [''candidate_evidence_count'', ''selected_evidence_count'', ''answerable'', ''empty_result'',
     ''success'', ''result_status'', ''latency_ms'']"
| "stage_keys StageAnswerGeneration = [''answer_type'', ''citation_count'', ''source_count'', ''success'', ''result_status'',
     ''latency_ms'']"
| "stage_keys StageReview = [''reviewer_type'', ''review_passed'', ''review_outcome'', ''answerable'', ''success'',
     ''result_status'', ''latency_ms'']"
| "stage_keys StageMemoryWrite = [''written_item_count'', ''success'', ''latency_ms'']"
| "stage_keys StageMemorySummary = [''compacted_turn_count'', ''success'', ''latency_ms'']"
| "stage_keys StageResponseMapping = [''http_status'', ''latency_ms'', ''success'']"
| "stage_keys StageRuntimeBootstrap = [''latency_ms'']"

definition forbidden_keys :: "string list" where
  "forbidden_keys = [''prompt'', ''system_prompt'', ''messages'', ''query'', ''user_query'', ''rewritten_query'',
    ''sql'', ''raw_sql'', ''evidence'', ''context'', ''document_text'', ''tool_result'',
    ''rows'', ''response'', ''answer'', ''chain_of_thought'', ''reasoning'', ''api_key'',
    ''token'', ''authorization'', ''cookie'', ''password'', ''secret'', ''connection_string'',
    ''session_id'', ''local_path'', ''stack_trace'']"

record attribute_limits =
  al_count :: int
  al_length :: int

definition new_attribute_limits :: "int \<Rightarrow> int \<Rightarrow> string + attribute_limits" where
  "new_attribute_limits count_max length_max =
     (if count_max \<le> 0 \<or> length_max \<le> 0 then Inl ''attribute limits must be positive''
      else Inr \<lparr>al_count = count_max, al_length = length_max\<rparr>)"

record trace_attribute =
  at_key :: pystr
  at_value :: json

text \<open>The value that is kept, if any, and whether something was dropped.\<close>

definition trace_scalar :: "int \<Rightarrow> json \<Rightarrow> json option \<times> bool" where
  "trace_scalar max_length v = (case v of
       JStr s \<Rightarrow> if int (length s) \<le> max_length then (Some v, False) else (Some (JStr (take (nat max_length) s)), True)
     | JList _ \<Rightarrow> (None, True)
     | JObj _ \<Rightarrow> (None, True)
     | _ \<Rightarrow> (Some v, False))"

definition allowed_keys :: "trace_stage \<Rightarrow> pystr list" where
  "allowed_keys stage = map lit (common_keys @ stage_keys stage)"

text \<open>The loop over the offered values: what is kept, how many were dropped, the keys seen.\<close>

fun sanitize_loop ::
  "(pystr \<Rightarrow> pystr) \<Rightarrow> trace_stage \<Rightarrow> attribute_limits \<Rightarrow> (pystr \<times> json) list \<Rightarrow> trace_attribute list \<Rightarrow> nat
     \<Rightarrow> pystr list \<Rightarrow> trace_attribute list \<times> nat" where
  "sanitize_loop lowered stage L [] kept dropped seen = (kept, dropped)"
| "sanitize_loop lowered stage L ((raw, v) # vs) kept dropped seen =
     (let key = lowered (py_strip raw) in
      if key = [] \<or> key \<in> set seen \<or> key \<in> set (map lit forbidden_keys) \<or> key \<notin> set (allowed_keys stage)
      then sanitize_loop lowered stage L vs kept (dropped + 1) seen
      else if al_count L \<le> int (length kept) then sanitize_loop lowered stage L vs kept (dropped + 1) (key # seen)
      else (case trace_scalar (al_length L) v of
          (None, _) \<Rightarrow> sanitize_loop lowered stage L vs kept (dropped + 1) (key # seen)
        | (Some u, clipped) \<Rightarrow> sanitize_loop lowered stage L vs (kept @ [\<lparr>at_key = key, at_value = u\<rparr>])
             (dropped + (if clipped then 1 else 0)) (key # seen)))"

definition sanitize_attributes ::
  "(pystr \<Rightarrow> pystr) \<Rightarrow> trace_stage \<Rightarrow> (pystr \<times> json) list \<Rightarrow> attribute_limits \<Rightarrow> trace_attribute list \<times> nat" where
  "sanitize_attributes lowered stage vs L = sanitize_loop lowered stage L vs [] 0 []"

subsection \<open>Contexts, spans and traces\<close>

definition trace_text :: "nat \<Rightarrow> pystr \<Rightarrow> string + pystr" where
  "trace_text max_length s = (if s = [] \<or> max_length < length s \<or> blank s then Inl ''trace field'' else Inr (py_strip s))"

text \<open>An optional field has no least length, so an empty text is refused as blank.\<close>

definition trace_opt_text :: "nat \<Rightarrow> pystr option \<Rightarrow> string + pystr option" where
  "trace_opt_text max_length s = (case s of None \<Rightarrow> Inr None | Some t \<Rightarrow> res_bind (trace_text max_length t) (Inr \<circ> Some))"

record trace_context =
  tx_trace :: pystr
  tx_request :: pystr
  tx_session :: bool
  tx_span :: "pystr option"
  tx_parent :: "pystr option"

definition new_trace_context ::
  "pystr \<Rightarrow> pystr \<Rightarrow> bool \<Rightarrow> pystr option \<Rightarrow> pystr option \<Rightarrow> string + trace_context" where
  "new_trace_context trace request session span_id parent_id =
     res_bind (trace_text 128 trace) (\<lambda>trace. res_bind (trace_text 128 request) (\<lambda>request.
     res_bind (trace_opt_text 128 span_id) (\<lambda>span_id. res_bind (trace_opt_text 128 parent_id) (\<lambda>parent_id.
     Inr \<lparr>tx_trace = trace, tx_request = request, tx_session = session, tx_span = span_id, tx_parent = parent_id\<rparr>))))"

definition create_context :: "pystr \<Rightarrow> bool \<Rightarrow> pystr \<Rightarrow> string + trace_context" where
  "create_context request session fresh = new_trace_context fresh request session None None"

definition for_child_span :: "pystr \<Rightarrow> trace_context \<Rightarrow> trace_context" where
  "for_child_span i c = c\<lparr>tx_span := Some i, tx_parent := tx_span c\<rparr>"

definition safe_name :: "pystr \<Rightarrow> bool" where
  "safe_name s = (case s of [] \<Rightarrow> False
     | c # t \<Rightarrow> 97 \<le> c \<and> c \<le> 122 \<and> list_all (\<lambda>c. 97 \<le> c \<and> c \<le> 122 \<or> 48 \<le> c \<and> c \<le> 57 \<or> c = 95) t)"

definition safe_text :: "pystr \<Rightarrow> string + pystr" where
  "safe_text s = res_bind (trace_text 64 s) (\<lambda>s. if safe_name s then Inr s
     else Inl ''component and operation must be stable lowercase identifiers'')"

definition aware_utc :: "pytime \<Rightarrow> string + int" where
  "aware_utc t = (case t of Aware i \<Rightarrow> Inr i | Naive _ \<Rightarrow> Inl ''must be timezone-aware'')"

definition error_contract :: "span_status \<Rightarrow> pystr option \<Rightarrow> string + unit" where
  "error_contract status error =
     (if \<not> terminal_status status then Inl ''must be terminal''
      else if status = SpanFailed \<and> error = None then Inl ''failed spans require a safe error_code''
      else if status \<noteq> SpanFailed \<and> error \<noteq> None then Inl ''only failed spans may carry an error_code'' else Inr ())"

record trace_span =
  ts_id :: pystr
  ts_trace :: pystr
  ts_parent :: "pystr option"
  ts_stage :: trace_stage
  ts_component :: pystr
  ts_operation :: pystr
  ts_started :: int
  ts_completed :: int
  ts_duration :: rat
  ts_status :: span_status
  ts_error :: "pystr option"
  ts_attributes :: "trace_attribute list"
  ts_dropped :: nat

definition new_trace_span :: "trace_span \<Rightarrow> string + trace_span" where
  "new_trace_span s =
     res_bind (trace_text 128 (ts_id s)) (\<lambda>i. res_bind (trace_text 128 (ts_trace s)) (\<lambda>trace.
     res_bind (trace_opt_text 128 (ts_parent s)) (\<lambda>parent. res_bind (safe_text (ts_component s)) (\<lambda>component.
     res_bind (safe_text (ts_operation s)) (\<lambda>operation. res_bind (ensure (0 \<le> ts_duration s) ''duration_ms'') (\<lambda>_.
     res_bind (trace_opt_text 64 (ts_error s)) (\<lambda>err. res_bind (error_contract (ts_status s) err) (\<lambda>_.
     res_bind (ensure (distinct (map at_key (ts_attributes s))) ''TraceSpan attributes must have unique keys'') (\<lambda>_.
     Inr (s\<lparr>ts_id := i, ts_trace := trace, ts_parent := parent, ts_component := component, ts_operation := operation,
       ts_error := err\<rparr>))))))))))"

record request_trace =
  qt_trace :: pystr
  qt_request :: pystr
  qt_session :: bool
  qt_started :: int
  qt_completed :: int
  qt_duration :: rat
  qt_status :: span_status
  qt_route :: "pystr option"
  qt_skill :: "pystr option"
  qt_error :: "pystr option"
  qt_spans :: "trace_span list"
  qt_count :: nat
  qt_dropped_spans :: nat
  qt_dropped_attributes :: nat
  qt_sink_failures :: nat

definition new_request_trace :: "request_trace \<Rightarrow> string + request_trace" where
  "new_request_trace t =
     res_bind (trace_text 128 (qt_trace t)) (\<lambda>trace. res_bind (trace_text 128 (qt_request t)) (\<lambda>request.
     res_bind (ensure (0 \<le> qt_duration t) ''duration_ms'') (\<lambda>_. res_bind (trace_opt_text 64 (qt_route t)) (\<lambda>route.
     res_bind (trace_opt_text 64 (qt_skill t)) (\<lambda>skill. res_bind (trace_opt_text 64 (qt_error t)) (\<lambda>err.
     res_bind (ensure (terminal_status (qt_status t)) ''RequestTrace final_status must be terminal'') (\<lambda>_.
     res_bind (ensure (qt_count t = length (qt_spans t)) ''span_count must equal the number of spans'') (\<lambda>_.
     res_bind (ensure (list_all (\<lambda>s. ts_trace s = trace) (qt_spans t)) ''all spans must belong to the request trace'') (\<lambda>_.
     res_bind (ensure (distinct (map ts_id (qt_spans t))) ''span IDs must be unique'') (\<lambda>_.
     res_bind (error_contract (qt_status t) err) (\<lambda>_.
     Inr (t\<lparr>qt_trace := trace, qt_request := request, qt_route := route, qt_skill := skill, qt_error := err\<rparr>))))))))))))"

subsection \<open>Provider attributes and the public summary\<close>

record provider_metadata =
  pm_provider :: "pystr option"
  pm_model :: "pystr option"
  pm_retries :: "int option"

definition valid_token_count :: "json \<Rightarrow> bool" where
  "valid_token_count v = (case v of JInt n \<Rightarrow> 0 \<le> n | _ \<Rightarrow> False)"

definition get_or :: "(pystr \<times> json) list \<Rightarrow> string \<Rightarrow> string \<Rightarrow> json" where
  "get_or fs a b = (case map_of fs (lit a) of Some v \<Rightarrow> v | None \<Rightarrow> jget fs b)"

definition usage_tokens :: "json \<Rightarrow> json \<times> json \<times> bool" where
  "usage_tokens payload = (case jfield payload ''usage'' of
       JObj fs \<Rightarrow>
         (let i = get_or fs ''prompt_tokens'' ''input_tokens''; n = get_or fs ''completion_tokens'' ''output_tokens''
          in if \<not> valid_token_count i \<or> \<not> valid_token_count n then (JNull, JNull, False) else (i, n, True))
     | _ \<Rightarrow> (JNull, JNull, False))"

definition traced_finish_reason :: "json \<Rightarrow> json" where
  "traced_finish_reason payload = (case jfield payload ''choices'' of
       JList (JObj fs # _) \<Rightarrow> (case jget fs ''finish_reason'' of
           JStr s \<Rightarrow> if s \<in> set (map lit [''stop'', ''length'', ''content_filter'', ''tool_calls'', ''function_call''])
             then JStr s else JNull
         | _ \<Rightarrow> JNull)
     | _ \<Rightarrow> JNull)"

definition opt_json :: "pystr option \<Rightarrow> json" where
  "opt_json s = (case s of None \<Rightarrow> JNull | Some t \<Rightarrow> JStr t)"

definition provider_attributes ::
  "provider_metadata \<Rightarrow> pystr \<Rightarrow> json \<times> json \<times> bool \<Rightarrow> json \<Rightarrow> bool \<Rightarrow> (pystr \<times> json) list" where
  "provider_attributes m operation usage finish ok = (case usage of (input_tokens, output_tokens, available) \<Rightarrow>
     [(lit ''provider'', opt_json (pm_provider m)), (lit ''model'', opt_json (pm_model m)),
      (lit ''operation'', JStr operation), (lit ''usage_available'', JBool available),
      (lit ''input_tokens'', input_tokens), (lit ''output_tokens'', output_tokens),
      (lit ''retry_count'', case pm_retries m of None \<Rightarrow> JNull | Some n \<Rightarrow> JInt n),
      (lit ''finish_reason'', finish), (lit ''success'', JBool ok)])"

definition provider_response_attributes :: "provider_metadata \<Rightarrow> pystr \<Rightarrow> json \<Rightarrow> (pystr \<times> json) list" where
  "provider_response_attributes m operation payload =
     provider_attributes m operation (usage_tokens payload) (traced_finish_reason payload) True"

definition provider_failure_attributes :: "provider_metadata \<Rightarrow> pystr \<Rightarrow> (pystr \<times> json) list" where
  "provider_failure_attributes m operation = provider_attributes m operation (JNull, JNull, False) JNull False"

definition public_attribute_keys :: "string list" where
  "public_attribute_keys = [''answerable'', ''denied'', ''input_tokens'', ''model'', ''output_tokens'', ''provider'',
    ''reranked_count'', ''retrieved_count'', ''retry_count'', ''review_outcome'', ''route'',
    ''row_count'', ''selected_evidence_count'', ''skill_name'', ''timeout'', ''tool_name'']"

record stage_summary =
  su_stage :: trace_stage
  su_operation :: pystr
  su_status :: span_status
  su_duration :: rat
  su_error :: "pystr option"
  su_attributes :: "trace_attribute list"

record trace_summary =
  sm_trace :: pystr
  sm_request :: pystr
  sm_status :: span_status
  sm_duration :: rat
  sm_count :: nat
  sm_dropped_spans :: nat
  sm_dropped_attributes :: nat
  sm_sink_failures :: nat
  sm_truncated :: nat
  sm_stages :: "stage_summary list"

definition public_attributes :: "trace_attribute list \<Rightarrow> trace_attribute list" where
  "public_attributes as = filter (\<lambda>a. at_key a \<in> set (map lit public_attribute_keys)) as"

definition build_trace_summary :: "request_trace \<Rightarrow> int \<Rightarrow> string + trace_summary" where
  "build_trace_summary t max_stages =
     (if max_stages \<le> 0 then Inl ''max_stages must be positive''
      else (let spans = take (nat max_stages) (qt_spans t) in
        Inr \<lparr>sm_trace = qt_trace t, sm_request = qt_request t, sm_status = qt_status t, sm_duration = qt_duration t,
          sm_count = qt_count t, sm_dropped_spans = qt_dropped_spans t, sm_dropped_attributes = qt_dropped_attributes t,
          sm_sink_failures = qt_sink_failures t, sm_truncated = length (qt_spans t) - length spans,
          sm_stages = map (\<lambda>s. \<lparr>su_stage = ts_stage s, su_operation = ts_operation s, su_status = ts_status s,
            su_duration = ts_duration s, su_error = ts_error s, su_attributes = public_attributes (ts_attributes s)\<rparr>) spans\<rparr>))"

subsection \<open>Sanitized attributes\<close>

text \<open>What an attribute of a span may be: an allowed key of the stage and a bounded scalar.\<close>

definition attribute_clean :: "trace_stage \<Rightarrow> attribute_limits \<Rightarrow> trace_attribute \<Rightarrow> bool" where
  "attribute_clean stage L a \<longleftrightarrow> at_key a \<in> set (allowed_keys stage) \<and> at_key a \<notin> set (map lit forbidden_keys)
     \<and> (case at_value a of JStr s \<Rightarrow> int (length s) \<le> al_length L | JList _ \<Rightarrow> False | JObj _ \<Rightarrow> False | _ \<Rightarrow> True)"

definition attributes_clean :: "trace_stage \<Rightarrow> attribute_limits \<Rightarrow> trace_attribute list \<Rightarrow> bool" where
  "attributes_clean stage L as \<longleftrightarrow> list_all (attribute_clean stage L) as \<and> distinct (map at_key as) \<and> int (length as) \<le> al_count L"

lemma trace_scalar_clean:
  "trace_scalar n v = (Some u, clipped) \<Longrightarrow> 0 < n \<Longrightarrow>
     (case u of JStr s \<Rightarrow> int (length s) \<le> n | JList _ \<Rightarrow> False | JObj _ \<Rightarrow> False | _ \<Rightarrow> True)"
  by (auto simp: trace_scalar_def split: json.splits if_splits)

lemma sanitize_loop_clean:
  assumes "attributes_clean stage L kept" and "at_key ` set kept \<subseteq> set seen" and "0 < al_length L" and "0 \<le> al_count L"
  shows "attributes_clean stage L (fst (sanitize_loop lowered stage L vs kept dropped seen))
    \<and> length (fst (sanitize_loop lowered stage L vs kept dropped seen)) + (snd (sanitize_loop lowered stage L vs kept dropped seen))
        \<ge> length kept + dropped + length vs"
  using assms
proof (induction lowered stage L vs kept dropped seen rule: sanitize_loop.induct)
  case (2 lowered stage L raw v vs kept dropped seen)
  let ?key = "lowered (py_strip raw)"
  show ?case
  proof (cases "?key = [] \<or> ?key \<in> set seen \<or> ?key \<in> set (map lit forbidden_keys) \<or> ?key \<notin> set (allowed_keys stage)")
    case True
    with 2(1) [OF refl True 2(5-8)] show ?thesis by (simp add: Let_def)
  next
    case key: False
    show ?thesis
    proof (cases "al_count L \<le> int (length kept)")
      case True
      with 2(2) [OF refl key True 2(5)] 2(6-8) key show ?thesis by (auto simp: Let_def)
    next
      case room: False
      show ?thesis
      proof (cases "trace_scalar (al_length L) v")
        case (Pair u clipped)
        show ?thesis
        proof (cases u)
          case None
          with 2(3) [OF refl key room Pair [symmetric] None 2(5)] Pair 2(6-8) key room show ?thesis by (auto simp: Let_def)
        next
          case (Some w)
          let ?kept = "kept @ [\<lparr>at_key = ?key, at_value = w\<rparr>]"
          have sub: "at_key ` set ?kept \<subseteq> set (?key # seen)" using 2(6) by auto
          have "attributes_clean stage L ?kept"
            using 2(5,6) key room trace_scalar_clean [of "al_length L" v w clipped] Pair Some 2(7)
            by (auto simp: attributes_clean_def attribute_clean_def)
          from 2(4) [OF refl key room Pair [symmetric] Some this sub 2(7,8)] Pair Some key room show ?thesis
            by (simp add: Let_def del: set_map split: if_splits)
        qed
      qed
    qed
  qed
qed simp

text \<open>What sanitizing keeps is clean, and every offered value is kept or counted.\<close>

lemma sanitized_clean:
  assumes "sanitize_attributes lowered stage vs L = (as, dropped)" and "0 < al_length L" and "0 < al_count L"
  shows "attributes_clean stage L as" and "length vs \<le> length as + dropped"
  using sanitize_loop_clean [of stage L "[]" "[]" lowered vs 0] assms
  by (simp_all add: sanitize_attributes_def attributes_clean_def)

text \<open>The public summary of a trace: at most the given number of stages, the others counted, and public keys only.\<close>

lemma trace_summary_public:
  "build_trace_summary t n = Inr s \<Longrightarrow> int (length (sm_stages s)) \<le> n
     \<and> length (sm_stages s) + sm_truncated s = length (qt_spans t)
     \<and> (\<forall>g \<in> set (sm_stages s). \<forall>a \<in> set (su_attributes g). at_key a \<in> set (map lit public_attribute_keys))"
  by (auto simp: build_trace_summary_def Let_def public_attributes_def split: if_splits)

end
