(* ===== verification/TraceCollector.thy ===== *)
theory TraceCollector
  imports TraceModels
begin

section \<open>Observability: the collector of a request, its owner and the sinks\<close>

text \<open>
  \<^verbatim>\<open>observability/collector.py\<close>, \<^verbatim>\<open>observability/execution.py\<close> and \<^verbatim>\<open>observability/sinks.py\<close>. The clocks and
  the identifier factory are arguments: an operation is given the readings and the identifier it draws. An operation
  returns its result and the collector it leaves behind, also when it raises. A dictionary is an association list in
  insertion order.
\<close>

subsection \<open>State\<close>

record trace_limits =
  tl_spans :: int
  tl_attributes :: int
  tl_value_length :: int
  tl_bytes :: int
  tl_traces :: int

definition new_trace_limits :: "trace_limits \<Rightarrow> string + trace_limits" where
  "new_trace_limits L =
     (if tl_spans L \<le> 0 \<or> tl_attributes L \<le> 0 \<or> tl_value_length L \<le> 0 \<or> tl_bytes L \<le> 0 \<or> tl_traces L \<le> 0
      then Inl ''trace limits must be positive'' else Inr L)"

definition span_limits :: "trace_limits \<Rightarrow> attribute_limits" where
  "span_limits L = \<lparr>al_count = tl_attributes L, al_length = tl_value_length L\<rparr>"

record open_span =
  os_context :: trace_context
  os_stage :: trace_stage
  os_component :: pystr
  os_operation :: pystr
  os_started :: int
  os_monotonic :: rat
  os_attributes :: "(pystr \<times> json) list"
  os_dropped :: nat

record collector =
  co_context :: trace_context
  co_limits :: trace_limits
  co_started :: int
  co_monotonic :: rat
  co_open :: "(pystr \<times> open_span) list"
  co_closed :: "trace_span list"
  co_order :: "(pystr \<times> nat) list"
  co_next :: nat
  co_dropped :: "pystr set"
  co_dropped_spans :: nat
  co_dropped_attributes :: nat
  co_final :: bool

definition require_utc :: "pytime \<Rightarrow> string + int" where
  "require_utc t = (case t of Aware i \<Rightarrow> Inr i | Naive _ \<Rightarrow> Inl ''collector clock must return timezone-aware time'')"

definition new_collector :: "trace_context \<Rightarrow> trace_limits \<Rightarrow> pytime \<Rightarrow> rat \<Rightarrow> string + collector" where
  "new_collector c L now tick = res_bind (require_utc now) (\<lambda>t. Inr
     \<lparr>co_context = c, co_limits = L, co_started = t, co_monotonic = tick, co_open = [], co_closed = [], co_order = [],
      co_next = 0, co_dropped = {}, co_dropped_spans = 0, co_dropped_attributes = 0, co_final = False\<rparr>)"

subsection \<open>Operations\<close>

definition parent_span_id :: "collector \<Rightarrow> trace_context option \<Rightarrow> string + pystr option" where
  "parent_span_id C parent = (case parent of
       None \<Rightarrow> Inr (tx_span (co_context C))
     | Some p \<Rightarrow> if tx_trace p \<noteq> tx_trace (co_context C) then Inl ''parent context belongs to another trace''
         else (case tx_span p of
             None \<Rightarrow> Inr None
           | Some i \<Rightarrow> if i \<notin> fst ` set (co_order C) \<and> i \<notin> co_dropped C
               then Inl ''parent context does not identify a collector span'' else Inr (Some i)))"

definition start_span ::
  "(pystr \<Rightarrow> pystr) \<Rightarrow> trace_stage \<Rightarrow> pystr \<Rightarrow> pystr \<Rightarrow> trace_context option \<Rightarrow> (pystr \<times> json) list \<Rightarrow> pystr
     \<Rightarrow> pytime \<times> rat \<Rightarrow> collector \<Rightarrow> (string + trace_context) \<times> collector" where
  "start_span lowered stage component operation parent values i reading C =
     (if co_final C then (Inl ''trace collector is finalized'', C)
      else (case parent_span_id C parent of
          Inl e \<Rightarrow> (Inl e, C)
        | Inr p \<Rightarrow> (case new_trace_context (tx_trace (co_context C)) (tx_request (co_context C))
              (tx_session (co_context C)) (Some i) p of
            Inl e \<Rightarrow> (Inl e, C)
          | Inr child \<Rightarrow>
              if tl_spans (co_limits C) \<le> int (length (co_closed C) + length (co_open C))
              then (Inr child, C\<lparr>co_dropped := insert i (co_dropped C), co_dropped_spans := co_dropped_spans C + 1\<rparr>)
              else (case sanitize_attributes lowered stage values (span_limits (co_limits C)) of (as, n) \<Rightarrow>
                let C = C\<lparr>co_dropped_attributes := co_dropped_attributes C + n\<rparr> in
                (case require_utc (fst reading) of
                    Inl e \<Rightarrow> (Inl e, C)
                  | Inr t \<Rightarrow> (Inr child, C\<lparr>
                      co_open := put_field i \<lparr>os_context = child, os_stage = stage, os_component = component,
                        os_operation = operation, os_started = t, os_monotonic = snd reading,
                        os_attributes = map (\<lambda>a. (at_key a, at_value a)) as, os_dropped = n\<rparr> (co_open C),
                      co_order := put_field i (co_next C) (co_order C), co_next := co_next C + 1\<rparr>))))))"

definition require_context :: "collector \<Rightarrow> trace_context \<Rightarrow> string + pystr" where
  "require_context C c =
     (if tx_trace c \<noteq> tx_trace (co_context C) then Inl ''span context belongs to another trace''
      else (case tx_span c of None \<Rightarrow> Inl ''span context does not identify a current span'' | Some i \<Rightarrow> Inr i))"

definition duration_ms :: "(rat \<Rightarrow> rat) \<Rightarrow> rat \<Rightarrow> rat \<Rightarrow> rat" where
  "duration_ms rnd started tick = max 0 (rnd (rnd (tick - started) * 1000))"

definition span_of ::
  "(rat \<Rightarrow> rat) \<Rightarrow> collector \<Rightarrow> pystr \<Rightarrow> open_span \<Rightarrow> int \<Rightarrow> rat \<Rightarrow> span_status \<Rightarrow> pystr option \<Rightarrow> trace_attribute list \<Rightarrow> nat
     \<Rightarrow> string + trace_span" where
  "span_of rnd C i s completed tick status err as dropped = new_trace_span
     \<lparr>ts_id = i, ts_trace = tx_trace (co_context C), ts_parent = tx_parent (os_context s), ts_stage = os_stage s,
      ts_component = os_component s, ts_operation = os_operation s, ts_started = os_started s, ts_completed = completed,
      ts_duration = duration_ms rnd (os_monotonic s) tick, ts_status = status, ts_error = err,
      ts_attributes = as, ts_dropped = dropped\<rparr>"

text \<open>Popping a key, and the part the closing of a span has after the pop.\<close>

definition pop_key :: "'k \<Rightarrow> ('k \<times> 'v) list \<Rightarrow> ('k \<times> 'v) list" where
  "pop_key k d = filter (\<lambda>kv. fst kv \<noteq> k) d"

definition close_popped ::
  "(pystr \<Rightarrow> pystr) \<Rightarrow> (rat \<Rightarrow> rat) \<Rightarrow> pystr \<Rightarrow> open_span \<Rightarrow> (pystr \<times> json) list \<Rightarrow> span_status \<Rightarrow> pystr option
     \<Rightarrow> pytime \<times> rat \<Rightarrow> collector \<Rightarrow> (string + trace_span) \<times> collector" where
  "close_popped lowered rnd i s values status err reading C =
     (case sanitize_attributes lowered (os_stage s) values (span_limits (co_limits C)) of (as, n) \<Rightarrow>
       let C = C\<lparr>co_dropped_attributes := co_dropped_attributes C + n\<rparr> in
       (case res_bind (require_utc (fst reading)) (\<lambda>t.
            span_of rnd C i s t (snd reading) status err as (os_dropped s + n)) of
          Inl e \<Rightarrow> (Inl e, C)
        | Inr x \<Rightarrow> (Inr x, C\<lparr>co_closed := co_closed C @ [x]\<rparr>)))"

definition complete_span ::
  "(pystr \<Rightarrow> pystr) \<Rightarrow> (rat \<Rightarrow> rat) \<Rightarrow> trace_context \<Rightarrow> span_status \<Rightarrow> pystr option \<Rightarrow> (pystr \<times> json) list
     \<Rightarrow> pytime \<times> rat \<Rightarrow> collector \<Rightarrow> (string + trace_span option) \<times> collector" where
  "complete_span lowered rnd c status err values reading C =
     (if co_final C then (Inl ''trace collector is finalized'', C)
      else (case require_context C c of
          Inl e \<Rightarrow> (Inl e, C)
        | Inr i \<Rightarrow>
            if i \<in> co_dropped C then (Inr None, C\<lparr>co_dropped := co_dropped C - {i}\<rparr>)
            else if \<not> terminal_status status then (Inl ''a span must close with a terminal status'', C)
            else (case map_of (co_open C) i of
                None \<Rightarrow> (Inl ''unknown or already completed span'', C)
              | Some s \<Rightarrow>
                  (case close_popped lowered rnd i s (foldl (\<lambda>d (k, v). put_field k v d) (os_attributes s) values) status
                      err reading (C\<lparr>co_open := pop_key i (co_open C)\<rparr>) of
                    (Inl e, C) \<Rightarrow> (Inl e, C)
                  | (Inr x, C) \<Rightarrow> (Inr (Some x), C)))))"

text \<open>Leaked spans are closed as failed; here the clock is read before the attributes are counted.\<close>

definition unclosed_code :: pystr where
  "unclosed_code = lit ''observability_span_unclosed''"

fun close_leaked ::
  "(pystr \<Rightarrow> pystr) \<Rightarrow> (rat \<Rightarrow> rat) \<Rightarrow> (nat \<Rightarrow> pytime \<times> rat) \<Rightarrow> nat \<Rightarrow> (pystr \<times> open_span) list \<Rightarrow> collector
     \<Rightarrow> (string + unit) \<times> collector" where
  "close_leaked lowered rnd clock n [] C = (Inr (), C)"
| "close_leaked lowered rnd clock n ((i, s) # rest) C =
     (let C = C\<lparr>co_open := pop_key i (co_open C)\<rparr> in
      (case require_utc (fst (clock n)) of
          Inl e \<Rightarrow> (Inl e, C)
        | Inr t \<Rightarrow> (case close_popped lowered rnd i s (os_attributes s) SpanFailed (Some unclosed_code) (clock n) C of
            (Inl e, C) \<Rightarrow> (Inl e, C)
          | (Inr x, C) \<Rightarrow> close_leaked lowered rnd clock (Suc n) rest C)))"

definition ordered_spans :: "collector \<Rightarrow> string + trace_span list" where
  "ordered_spans C =
     (if list_all (\<lambda>s. map_of (co_order C) (ts_id s) \<noteq> None) (co_closed C)
      then Inr (sort_key (\<lambda>s. the (map_of (co_order C) (ts_id s))) (co_closed C)) else Inl ''KeyError'')"

definition finalize_trace ::
  "(pystr \<Rightarrow> pystr) \<Rightarrow> (rat \<Rightarrow> rat) \<Rightarrow> span_status \<Rightarrow> pystr option \<Rightarrow> pystr option \<Rightarrow> pystr option
     \<Rightarrow> (nat \<Rightarrow> pytime \<times> rat) \<Rightarrow> collector \<Rightarrow> (string + request_trace) \<times> collector" where
  "finalize_trace lowered rnd status route skill err clock C =
     (if co_final C then (Inl ''trace collector is finalized'', C)
      else if \<not> terminal_status status then (Inl ''a trace must finalize with a terminal status'', C)
      else (case close_leaked lowered rnd clock 0 (co_open C) C of
          (Inl e, C) \<Rightarrow> (Inl e, C)
        | (Inr _, D) \<Rightarrow>
            (case clock (length (co_open C)) of (now, tick) \<Rightarrow>
             (case res_bind (require_utc now) (\<lambda>t. res_bind (ordered_spans D) (\<lambda>spans. new_request_trace
                \<lparr>qt_trace = tx_trace (co_context D), qt_request = tx_request (co_context D),
                 qt_session = tx_session (co_context D), qt_started = co_started D, qt_completed = t,
                 qt_duration = duration_ms rnd (co_monotonic D) tick, qt_status = status, qt_route = route,
                 qt_skill = skill, qt_error = err, qt_spans = spans, qt_count = length (co_closed D),
                 qt_dropped_spans = co_dropped_spans D, qt_dropped_attributes = co_dropped_attributes D,
                 qt_sink_failures = 0\<rparr>)) of
               Inl e \<Rightarrow> (Inl e, D)
             | Inr t \<Rightarrow> (Inr t, D\<lparr>co_final := True\<rparr>)))))"

subsection \<open>Sinks\<close>

record trace_buffer =
  ms_max :: int
  ms_traces :: "request_trace list"

definition new_trace_buffer :: "int \<Rightarrow> string + trace_buffer" where
  "new_trace_buffer n = (if n \<le> 0 then Inl ''max_traces must be positive'' else Inr \<lparr>ms_max = n, ms_traces = []\<rparr>)"

definition memory_emit :: "request_trace \<Rightarrow> trace_buffer \<Rightarrow> trace_buffer" where
  "memory_emit t k =
     (let ts = ms_traces k @ [t]; overflow = int (length ts) - ms_max k
      in k\<lparr>ms_traces := (if 0 < overflow then drop (nat overflow) ts else ts)\<rparr>)"

definition memory_find :: "pystr \<Rightarrow> trace_buffer \<Rightarrow> request_trace option" where
  "memory_find i k = find (\<lambda>t. qt_trace t = i) (ms_traces k)"

text \<open>
  The line the logging sink writes: the full payload while its UTF-8 text fits, else the summary. The text of a payload is
  an argument; a payload that has no text is a failure of the sink.
\<close>

definition log_line ::
  "(request_trace \<Rightarrow> pystr option) \<Rightarrow> (request_trace \<Rightarrow> pystr option) \<Rightarrow> (pystr \<Rightarrow> int) \<Rightarrow> trace_limits \<Rightarrow> request_trace
     \<Rightarrow> pystr option" where
  "log_line full_text summary_text utf8_size L t = (case full_text t of
       None \<Rightarrow> None
     | Some line \<Rightarrow> if tl_bytes L < utf8_size line then summary_text t else Some line)"

text \<open>How one sink ends: accepted, failed with one of the errors the dispatcher catches, or with another one.\<close>

datatype emission = Emitted | EmitFailed | EmitRaised

record emission_result =
  er_attempted :: nat
  er_succeeded :: nat
  er_failed :: nat

text \<open>The fan-out over the sinks in their order; an error that is not caught ends it.\<close>

fun dispatch_loop ::
  "('s \<Rightarrow> request_trace \<Rightarrow> emission \<times> 's) \<Rightarrow> request_trace \<Rightarrow> 's list \<Rightarrow> nat \<Rightarrow> nat \<Rightarrow> (nat \<times> nat) option \<times> 's list" where
  "dispatch_loop emit t [] ok failed = (Some (ok, failed), [])"
| "dispatch_loop emit t (k # ks) ok failed = (case emit k t of
       (Emitted, k') \<Rightarrow> map_prod id (Cons k') (dispatch_loop emit t ks (ok + 1) failed)
     | (EmitFailed, k') \<Rightarrow> map_prod id (Cons k') (dispatch_loop emit t ks ok (failed + 1))
     | (EmitRaised, k') \<Rightarrow> (None, k' # ks))"

definition dispatch_trace ::
  "('s \<Rightarrow> request_trace \<Rightarrow> emission \<times> 's) \<Rightarrow> request_trace \<Rightarrow> 's list \<Rightarrow> emission_result option \<times> 's list" where
  "dispatch_trace emit t ks = map_prod
     (map_option (\<lambda>(ok, failed). \<lparr>er_attempted = length ks, er_succeeded = ok, er_failed = failed\<rparr>)) id (dispatch_loop emit t ks 0 0)"

subsection \<open>The owner of the collector of a request\<close>

text \<open>Every error of the collector is swallowed: an operation that fails returns nothing, and the state it left stays.\<close>

record 's trace_execution =
  ex_collector :: "collector option"
  ex_sinks :: "'s list option"
  ex_active :: "trace_context option"

definition start_execution :: "string + collector \<Rightarrow> 's list option \<Rightarrow> 's trace_execution" where
  "start_execution made sinks =
     \<lparr>ex_collector = (case made of Inl _ \<Rightarrow> None | Inr C \<Rightarrow> Some C), ex_sinks = sinks, ex_active = None\<rparr>"

definition exec_start_span ::
  "(pystr \<Rightarrow> pystr) \<Rightarrow> trace_stage \<Rightarrow> pystr \<Rightarrow> pystr \<Rightarrow> trace_context option \<Rightarrow> (pystr \<times> json) list \<Rightarrow> pystr
     \<Rightarrow> pytime \<times> rat \<Rightarrow> 's trace_execution \<Rightarrow> trace_context option \<times> 's trace_execution" where
  "exec_start_span lowered stage component operation parent values i reading X = (case ex_collector X of
       None \<Rightarrow> (None, X)
     | Some C \<Rightarrow> (case start_span lowered stage component operation parent values i reading C of
         (Inl _, C) \<Rightarrow> (None, X\<lparr>ex_collector := Some C\<rparr>)
       | (Inr c, C) \<Rightarrow> (Some c, X\<lparr>ex_collector := Some C, ex_active := Some c\<rparr>)))"

definition exec_complete_span ::
  "(pystr \<Rightarrow> pystr) \<Rightarrow> (rat \<Rightarrow> rat) \<Rightarrow> trace_context option \<Rightarrow> span_status \<Rightarrow> pystr option \<Rightarrow> (pystr \<times> json) list
     \<Rightarrow> pytime \<times> rat \<Rightarrow> 's trace_execution \<Rightarrow> 's trace_execution" where
  "exec_complete_span lowered rnd context status err values reading X = (case (ex_collector X, context) of
       (Some C, Some c) \<Rightarrow> (case complete_span lowered rnd c status err values reading C of
           (Inl _, C) \<Rightarrow> X\<lparr>ex_collector := Some C\<rparr>
         | (Inr _, C) \<Rightarrow> X\<lparr>ex_collector := Some C, ex_active := (if ex_active X = Some c then None else ex_active X)\<rparr>)
     | _ \<Rightarrow> X)"

definition memory_not_requested ::
  "(pystr \<Rightarrow> pystr) \<Rightarrow> (rat \<Rightarrow> rat) \<Rightarrow> trace_context option \<Rightarrow> pystr \<Rightarrow> pytime \<times> rat \<Rightarrow> pytime \<times> rat
     \<Rightarrow> 's trace_execution \<Rightarrow> 's trace_execution" where
  "memory_not_requested lowered rnd parent i r1 r2 X =
     (case exec_start_span lowered StageMemoryRead (lit ''application'') (lit ''load_conversation_memory'') parent
        [(lit ''memory_requested'', JBool False)] i r1 X of
      (context, X) \<Rightarrow> exec_complete_span lowered rnd context SpanNotRequested None [] r2 X)"

definition cancel_active_span ::
  "(pystr \<Rightarrow> pystr) \<Rightarrow> (rat \<Rightarrow> rat) \<Rightarrow> pytime \<times> rat \<Rightarrow> 's trace_execution \<Rightarrow> 's trace_execution" where
  "cancel_active_span lowered rnd reading X = exec_complete_span lowered rnd (ex_active X) SpanCancelled None [] reading X"

fun status_text :: "span_status \<Rightarrow> pystr" where
  "status_text SpanRunning = lit ''running''"
| "status_text SpanCompleted = lit ''completed''"
| "status_text SpanFailed = lit ''failed''"
| "status_text SpanCancelled = lit ''cancelled''"
| "status_text SpanSkipped = lit ''skipped''"
| "status_text SpanUnsupported = lit ''unsupported''"
| "status_text SpanNotRequested = lit ''not_requested''"

definition exec_finish ::
  "(pystr \<Rightarrow> pystr) \<Rightarrow> (rat \<Rightarrow> rat) \<Rightarrow> ('s \<Rightarrow> request_trace \<Rightarrow> emission \<times> 's) \<Rightarrow> trace_context option \<Rightarrow> span_status
     \<Rightarrow> pystr option \<Rightarrow> pystr option \<Rightarrow> pystr option \<Rightarrow> pytime \<times> rat \<Rightarrow> (nat \<Rightarrow> pytime \<times> rat)
     \<Rightarrow> 's trace_execution \<Rightarrow> request_trace option \<times> 's trace_execution" where
  "exec_finish lowered rnd emit root_span status err route skill reading clock X =
     (let X = exec_complete_span lowered rnd root_span status err [(lit ''final_status'', JStr (status_text status))] reading X in
      (case ex_collector X of
          None \<Rightarrow> (None, X)
        | Some C \<Rightarrow> (case finalize_trace lowered rnd status route skill err clock C of
            (Inl _, C) \<Rightarrow> (None, X\<lparr>ex_collector := Some C\<rparr>)
          | (Inr t, C) \<Rightarrow> (Some t, X\<lparr>ex_collector := Some C,
              ex_sinks := map_option (\<lambda>ks. snd (dispatch_trace emit t ks)) (ex_sinks X)\<rparr>))))"

text \<open>The calls of an optional recorder, here the owner of the collector, which raises nothing.\<close>

definition start_recorded_span ::
  "(pystr \<Rightarrow> pystr) \<Rightarrow> trace_stage \<Rightarrow> pystr \<Rightarrow> pystr \<Rightarrow> trace_context option \<Rightarrow> (pystr \<times> json) list \<Rightarrow> pystr
     \<Rightarrow> pytime \<times> rat \<Rightarrow> 's trace_execution option \<Rightarrow> trace_context option \<times> 's trace_execution option" where
  "start_recorded_span lowered stage component operation parent values i reading recorder = (case recorder of
       None \<Rightarrow> (None, None)
     | Some X \<Rightarrow> map_prod id Some (exec_start_span lowered stage component operation parent values i reading X))"

definition complete_recorded_span ::
  "(pystr \<Rightarrow> pystr) \<Rightarrow> (rat \<Rightarrow> rat) \<Rightarrow> trace_context option \<Rightarrow> span_status \<Rightarrow> pystr option \<Rightarrow> (pystr \<times> json) list
     \<Rightarrow> pytime \<times> rat \<Rightarrow> 's trace_execution option \<Rightarrow> 's trace_execution option" where
  "complete_recorded_span lowered rnd given status err values reading recorder =
     map_option (exec_complete_span lowered rnd given status err values reading) recorder"

subsection \<open>Runs of a collector\<close>

text \<open>Every sequence of operations a request can perform, failed ones included.\<close>

inductive collector_run :: "(pystr \<Rightarrow> pystr) \<Rightarrow> (rat \<Rightarrow> rat) \<Rightarrow> collector \<Rightarrow> bool" for lowered rnd where
  Fresh: "new_trace_limits L = Inr L' \<Longrightarrow> new_collector c L' now tick = Inr C \<Longrightarrow> collector_run lowered rnd C"
| Started: "collector_run lowered rnd C
     \<Longrightarrow> collector_run lowered rnd (snd (start_span lowered stage component operation parent values i reading C))"
| Completed: "collector_run lowered rnd C
     \<Longrightarrow> collector_run lowered rnd (snd (complete_span lowered rnd c status err values reading C))"
| Ended: "collector_run lowered rnd C
     \<Longrightarrow> collector_run lowered rnd (snd (finalize_trace lowered rnd status route skill err clock C))"

text \<open>The spans kept stay within the limit and the attributes of a closed span are clean.\<close>

definition span_clean :: "trace_limits \<Rightarrow> trace_span \<Rightarrow> bool" where
  "span_clean L s \<longleftrightarrow> attributes_clean (ts_stage s) (span_limits L) (ts_attributes s)"

definition limits_ok :: "trace_limits \<Rightarrow> bool" where
  "limits_ok L \<longleftrightarrow> 0 < tl_spans L \<and> 0 < tl_attributes L \<and> 0 < tl_value_length L"

definition collector_ok :: "collector \<Rightarrow> bool" where
  "collector_ok C \<longleftrightarrow> limits_ok (co_limits C) \<and> int (length (co_closed C) + length (co_open C)) \<le> tl_spans (co_limits C)
     \<and> distinct (map fst (co_open C)) \<and> list_all (span_clean (co_limits C)) (co_closed C)"

subsection \<open>The invariant\<close>

lemma put_field_length: "length (put_field k v d) \<le> Suc (length d)"
  by (induction k v d rule: put_field.induct) auto

lemma put_field_distinct: "distinct (map fst d) \<Longrightarrow> distinct (map fst (put_field k v d))"
  by (induction k v d rule: put_field.induct) (auto simp: put_field_keys)

lemma pop_key_distinct: "distinct (map fst d) \<Longrightarrow> distinct (map fst (pop_key k d))"
  by (simp add: pop_key_def distinct_map_filter)

lemma pop_key_keys: "fst ` set (pop_key k d) = fst ` set d - {k}"
  by (auto simp: pop_key_def)

lemma pop_key_length:
  assumes "distinct (map fst d)" and "map_of d k = Some v"
  shows "Suc (length (pop_key k d)) = length d"
proof -
  have "length (pop_key k d) = card (fst ` set (pop_key k d))"
    using distinct_card [OF pop_key_distinct [OF assms(1), of k]] by simp
  also have "\<dots> = length d - 1"
    using distinct_card [OF assms(1)] image_eqI [OF _ map_of_SomeD [OF assms(2)], of k fst]
    by (simp add: pop_key_keys card_Diff_singleton)
  finally show ?thesis using assms(2) by (cases d) auto
qed

lemma new_trace_span_kept:
  assumes "new_trace_span s = Inr x"
  shows "ts_id x = py_strip (ts_id s)" and "ts_stage x = ts_stage s" and "ts_attributes x = ts_attributes s"
    and "ts_status x = ts_status s" and "ts_error x = map_option py_strip (ts_error s)"
    and "ts_duration x = ts_duration s"
  using assms by (auto simp: new_trace_span_def trace_text_def trace_opt_text_def res_simps split: if_splits option.splits)

text \<open>What closing a popped span does to the collector.\<close>

lemma close_popped_fails:
  "close_popped lowered rnd i s values status err reading C = (Inl e, D)
     \<Longrightarrow> \<exists>n. D = C\<lparr>co_dropped_attributes := n\<rparr>"
  by (auto simp: close_popped_def Let_def split: prod.splits sum.splits)

lemma close_popped_closes:
  assumes "close_popped lowered rnd i s values status err reading C = (Inr x, D)" and "limits_ok (co_limits C)"
  shows "\<exists>n. D = C\<lparr>co_dropped_attributes := n, co_closed := co_closed C @ [x]\<rparr>"
    and "span_clean (co_limits C) x" and "ts_id x = py_strip i" and "ts_status x = status"
    and "ts_error x = map_option py_strip err"
proof -
  obtain as n where as: "sanitize_attributes lowered (os_stage s) values (span_limits (co_limits C)) = (as, n)" by force
  with assms(1) obtain t where x: "span_of rnd (C\<lparr>co_dropped_attributes := co_dropped_attributes C + n\<rparr>) i s t (snd reading)
      status err as (os_dropped s + n) = Inr x"
    and D: "D = C\<lparr>co_dropped_attributes := co_dropped_attributes C + n, co_closed := co_closed C @ [x]\<rparr>"
    by (auto simp: close_popped_def Let_def res_simps split: sum.splits)
  from D show "\<exists>n. D = C\<lparr>co_dropped_attributes := n, co_closed := co_closed C @ [x]\<rparr>" by blast
  note kept = new_trace_span_kept [OF x [unfolded span_of_def]]
  from kept(1,4,5) show "ts_id x = py_strip i" and "ts_status x = status" and "ts_error x = map_option py_strip err"
    by simp_all
  show "span_clean (co_limits C) x"
    using sanitized_clean(1) [OF as] kept(2,3) assms(2) by (simp add: span_clean_def limits_ok_def span_limits_def)
qed

lemma collector_ok_frame [simp]:
  "collector_ok (C\<lparr>co_dropped_attributes := n\<rparr>) = collector_ok C" "collector_ok (C\<lparr>co_final := b\<rparr>) = collector_ok C"
  "collector_ok (C\<lparr>co_dropped := S, co_dropped_spans := n\<rparr>) = collector_ok C"
  "collector_ok (C\<lparr>co_dropped := S\<rparr>) = collector_ok C"
  by (simp_all add: collector_ok_def)

lemma collector_ok_start:
  assumes "collector_ok C"
  shows "collector_ok (snd (start_span lowered stage component operation parent values i reading C))"
proof -
  have "collector_ok (C\<lparr>co_dropped_attributes := n, co_open := put_field i s (co_open C), co_order := d, co_next := m\<rparr>)"
    if "\<not> tl_spans (co_limits C) \<le> int (length (co_closed C) + length (co_open C))" for n s d m
    using assms that put_field_length [of i s "co_open C"] put_field_distinct [of "co_open C" i s]
    by (auto simp: collector_ok_def)
  with assms show ?thesis by (auto simp: start_span_def Let_def split: sum.splits prod.splits)
qed

lemma collector_ok_pop:
  assumes "collector_ok C" and "map_of (co_open C) i = Some s" 
    and "close_popped lowered rnd i s values status err reading (C\<lparr>co_open := pop_key i (co_open C)\<rparr>) = (r, D)"
  shows "collector_ok D"
proof -
  have len: "Suc (length (pop_key i (co_open C))) = length (co_open C)"
    using assms(1) pop_key_length [OF _ assms(2)] by (simp add: collector_ok_def)
  have dist: "distinct (map fst (pop_key i (co_open C)))" using assms(1) pop_key_distinct by (auto simp: collector_ok_def)
  show ?thesis
  proof (cases r)
    case (Inl e)
    with close_popped_fails assms(3) obtain n where "D = C\<lparr>co_open := pop_key i (co_open C), co_dropped_attributes := n\<rparr>"
      by blast
    with assms(1) len dist show ?thesis by (auto simp: collector_ok_def)
  next
    case (Inr x)
    have ok: "limits_ok (co_limits (C\<lparr>co_open := pop_key i (co_open C)\<rparr>))" using assms(1) by (simp add: collector_ok_def)
    from close_popped_closes(1,2) [OF assms(3) [unfolded Inr] ok] obtain n
      where "D = C\<lparr>co_open := pop_key i (co_open C), co_dropped_attributes := n, co_closed := co_closed C @ [x]\<rparr>"
        and "span_clean (co_limits C) x" by auto
    with assms(1) len dist show ?thesis by (auto simp: collector_ok_def)
  qed
qed

lemma collector_ok_complete:
  assumes "collector_ok C"
  shows "collector_ok (snd (complete_span lowered rnd c status err values reading C))"
  using assms collector_ok_pop [OF assms]
  by (auto simp: complete_span_def split: sum.splits option.splits prod.splits)

lemma py_strip_unclosed: "py_strip unclosed_code = unclosed_code"
  by (simp add: unclosed_code_def lit_def py_strip_def py_space_def)

text \<open>What the closing of the leaked spans does when nothing raises.\<close>

definition leaked :: "(pystr \<times> open_span) list \<Rightarrow> trace_span list \<Rightarrow> bool" where
  "leaked open_spans xs \<longleftrightarrow> map ts_id xs = map (\<lambda>is. py_strip (fst is)) open_spans
     \<and> list_all (\<lambda>x. ts_status x = SpanFailed \<and> ts_error x = Some unclosed_code) xs"

lemma close_leaked_ok:
  assumes "close_leaked lowered rnd clock n (co_open C) C = (r, D)" and "collector_ok C"
  shows "collector_ok D"
    and "r = Inr () \<Longrightarrow> \<exists>xs m. D = C\<lparr>co_open := [], co_closed := co_closed C @ xs, co_dropped_attributes := m\<rparr>
      \<and> leaked (co_open C) xs"
proof -
  have "collector_ok D \<and> (r = Inr () \<longrightarrow> (\<exists>xs m. D = C\<lparr>co_open := [], co_closed := co_closed C @ xs, co_dropped_attributes := m\<rparr>
      \<and> leaked opens xs))" if "close_leaked lowered rnd clock n opens C = (r, D)" "co_open C = opens" "collector_ok C" for opens
    using that
  proof (induction opens arbitrary: n C)
    case Nil
    then show ?case by (auto simp: leaked_def intro!: exI [of _ "[]"] exI [of _ "co_dropped_attributes C"])
  next
    case (Cons a rest)
    obtain i s where a: "a = (i, s)" by force
    let ?C = "C\<lparr>co_open := pop_key i (co_open C)\<rparr>"
    from Cons.prems a have rest: "pop_key i (co_open C) = rest" and s: "map_of (co_open C) i = Some s"
      by (auto simp: collector_ok_def pop_key_def filter_id_conv rev_image_eqI)
    have ok: "collector_ok ?C" using Cons.prems(2,3) rest by (auto simp: collector_ok_def)
    show ?case
    proof (cases "require_utc (fst (clock n))")
      case (Inl e)
      with Cons.prems(1) a ok show ?thesis by (auto simp: Let_def)
    next
      case (Inr t)
      obtain q E where q: "close_popped lowered rnd i s (os_attributes s) SpanFailed (Some unclosed_code) (clock n) ?C = (q, E)"
        by force
      have okE: "collector_ok E" by (rule collector_ok_pop [OF Cons.prems(3) s q])
      show ?thesis
      proof (cases q)
        case (Inl e)
        with Cons.prems(1) a q Inr okE show ?thesis by (auto simp: Let_def)
      next
        case (Inr x)
        note x = close_popped_closes [OF q [unfolded this]]
        have "limits_ok (co_limits ?C)" using ok by (simp add: collector_ok_def)
        with x(1,3-5) obtain m where E: "E = ?C\<lparr>co_dropped_attributes := m, co_closed := co_closed C @ [x]\<rparr>"
          and id: "ts_id x = py_strip i" and st: "ts_status x = SpanFailed" "ts_error x = Some unclosed_code"
          by (auto simp: py_strip_unclosed)
        from Cons.prems(1) a q Inr \<open>require_utc (fst (clock n)) = Inr t\<close>
        have "close_leaked lowered rnd clock (Suc n) rest E = (r, D)" by (simp add: Let_def)
        from Cons.IH [OF this _ okE] E rest id st a show ?thesis
          by (auto simp: leaked_def)
      qed
    qed
  qed
  from this [OF assms(1) refl assms(2)] show "collector_ok D"
    and "r = Inr () \<Longrightarrow> \<exists>xs m. D = C\<lparr>co_open := [], co_closed := co_closed C @ xs, co_dropped_attributes := m\<rparr>
      \<and> leaked (co_open C) xs" by blast+
qed

lemma finalize_traceE:
  assumes "finalize_trace lowered rnd status route skill err clock C = (r, E)" and "collector_ok C" and "\<not> co_final C"
  shows "collector_ok E"
    and "r = Inr t \<Longrightarrow> \<exists>xs m spans. leaked (co_open C) xs
      \<and> E = C\<lparr>co_open := [], co_closed := co_closed C @ xs, co_dropped_attributes := m, co_final := True\<rparr>
      \<and> ordered_spans E = Inr spans \<and> qt_spans t = spans \<and> qt_count t = length spans \<and> distinct (map ts_id spans)
      \<and> qt_status t = status \<and> qt_dropped_spans t = co_dropped_spans C"
proof -
  have "collector_ok E \<and> (r = Inr t \<longrightarrow> (\<exists>xs m spans. leaked (co_open C) xs
      \<and> E = C\<lparr>co_open := [], co_closed := co_closed C @ xs, co_dropped_attributes := m, co_final := True\<rparr>
      \<and> ordered_spans E = Inr spans \<and> qt_spans t = spans \<and> qt_count t = length spans \<and> distinct (map ts_id spans)
      \<and> qt_status t = status \<and> qt_dropped_spans t = co_dropped_spans C))"
  proof (cases "terminal_status status")
    case False
    with assms show ?thesis by (auto simp: finalize_trace_def)
  next
    case True
    obtain q D where q: "close_leaked lowered rnd clock 0 (co_open C) C = (q, D)" by force
    note closed = close_leaked_ok [OF q assms(2)]
    show ?thesis
    proof (cases q)
      case (Inl e)
      with assms(1,3) True q closed(1) show ?thesis by (auto simp: finalize_trace_def)
    next
      case (Inr u)
      with closed(2) obtain xs m where D: "D = C\<lparr>co_open := [], co_closed := co_closed C @ xs, co_dropped_attributes := m\<rparr>"
        and xs: "leaked (co_open C) xs" by auto
      have frame: "ordered_spans (D\<lparr>co_final := True\<rparr>) = ordered_spans D" by (simp add: ordered_spans_def)
      have "r = Inr t \<Longrightarrow> E = D\<lparr>co_final := True\<rparr> \<and> ordered_spans D = Inr (qt_spans t)
          \<and> qt_count t = length (qt_spans t) \<and> distinct (map ts_id (qt_spans t)) \<and> qt_status t = status
          \<and> qt_dropped_spans t = co_dropped_spans D"
        using assms(1,3) True q Inr
        by (auto simp: finalize_trace_def new_request_trace_def res_simps split: prod.splits sum.splits)
      moreover have "collector_ok E"
        using assms(1,3) True q Inr closed(1) by (auto simp: finalize_trace_def split: prod.splits sum.splits)
      ultimately show ?thesis using xs frame D by auto
    qed
  qed
  then show "collector_ok E"
    and "r = Inr t \<Longrightarrow> \<exists>xs m spans. leaked (co_open C) xs
      \<and> E = C\<lparr>co_open := [], co_closed := co_closed C @ xs, co_dropped_attributes := m, co_final := True\<rparr>
      \<and> ordered_spans E = Inr spans \<and> qt_spans t = spans \<and> qt_count t = length spans \<and> distinct (map ts_id spans)
      \<and> qt_status t = status \<and> qt_dropped_spans t = co_dropped_spans C" by blast+
qed

lemma finalized_refuses:
  assumes "co_final C"
  shows "start_span lowered stage component operation parent values i reading C = (Inl ''trace collector is finalized'', C)"
    and "complete_span lowered rnd c status err values reading C = (Inl ''trace collector is finalized'', C)"
    and "finalize_trace lowered rnd status route skill err clock C = (Inl ''trace collector is finalized'', C)"
  using assms by (simp_all add: start_span_def complete_span_def finalize_trace_def)

lemma collector_run_ok: "collector_run lowered rnd C \<Longrightarrow> collector_ok C"
proof (induction rule: collector_run.induct)
  case (Fresh L L' c now tick C)
  then show ?case
    by (auto simp: new_trace_limits_def new_collector_def collector_ok_def limits_ok_def res_simps split: if_splits)
next
  case (Started C stage component operation parent vs i reading)
  from Started(2) show ?case by (rule collector_ok_start)
next
  case (Completed C c status err vs reading)
  from Completed(2) show ?case by (rule collector_ok_complete)
next
  case (Ended C status route skill err clock)
  show ?case
  proof (cases "co_final C")
    case True
    with Ended show ?thesis by (simp add: finalized_refuses)
  next
    case False
    with Ended finalize_traceE(1) show ?thesis by (metis prod.collapse)
  qed
qed

subsection \<open>Finalized traces\<close>

lemma ordered_spans_sorted:
  "ordered_spans C = Inr xs \<Longrightarrow> sorted (map (\<lambda>s. the (map_of (co_order C) (ts_id s))) xs) \<and> set xs = set (co_closed C)
     \<and> length xs = length (co_closed C)"
  by (auto simp: ordered_spans_def split: if_splits)

text \<open>
  C40: the trace a collector hands out when it is finalized, after any sequence of operations: it holds at most the
  configured number of spans, with distinct identifiers, in the order in which they were started; every attribute of a span
  has a key that its stage allows and a scalar value within the length limit; the spans are those that had been closed and
  those still open, which are reported as failed with the code for an unclosed span; and afterwards the collector refuses
  every operation.
\<close>

theorem finalized_trace_bounded:
  assumes "collector_run lowered rnd C"
    and "finalize_trace lowered rnd status route skill err clock C = (Inr t, E)"
  shows "int (length (qt_spans t)) \<le> tl_spans (co_limits C) \<and> distinct (map ts_id (qt_spans t))
    \<and> sorted (map (\<lambda>s. the (map_of (co_order C) (ts_id s))) (qt_spans t))
    \<and> (\<forall>s \<in> set (qt_spans t). attributes_clean (ts_stage s) (span_limits (co_limits C)) (ts_attributes s))
    \<and> (\<exists>xs. set (qt_spans t) = set (co_closed C) \<union> set xs \<and> leaked (co_open C) xs)
    \<and> start_span lowered stage component operation parent values i reading E = (Inl ''trace collector is finalized'', E)
    \<and> complete_span lowered rnd c status' err' values reading E = (Inl ''trace collector is finalized'', E)
    \<and> finalize_trace lowered rnd status' route' skill' err' clock' E = (Inl ''trace collector is finalized'', E)"
proof -
  have running: "\<not> co_final C" using assms(2) finalized_refuses(3) by fastforce
  note ok = collector_run_ok [OF assms(1)]
  from finalize_traceE(2) [OF assms(2) ok running refl] obtain xs m where xs: "leaked (co_open C) xs"
    and E: "E = C\<lparr>co_open := [], co_closed := co_closed C @ xs, co_dropped_attributes := m, co_final := True\<rparr>"
    and spans: "ordered_spans E = Inr (qt_spans t)" and ids: "distinct (map ts_id (qt_spans t))" by blast
  have okE: "collector_ok E" by (rule finalize_traceE(1) [OF assms(2) ok running])
  note sorted = ordered_spans_sorted [OF spans]
  have "co_final E" using E by simp
  note refuses = finalized_refuses [OF this]
  have bound: "int (length (qt_spans t)) \<le> tl_spans (co_limits C)" using okE E sorted by (simp add: collector_ok_def)
  have clean: "\<forall>s \<in> set (qt_spans t). attributes_clean (ts_stage s) (span_limits (co_limits C)) (ts_attributes s)"
    using okE E sorted by (auto simp: collector_ok_def list_all_iff span_clean_def)
  have order: "sorted (map (\<lambda>s. the (map_of (co_order C) (ts_id s))) (qt_spans t))" using sorted E by simp
  have sets: "\<exists>xs. set (qt_spans t) = set (co_closed C) \<union> set xs \<and> leaked (co_open C) xs"
    using sorted E xs by (intro exI [of _ xs]) simp
  show ?thesis
    by (intro conjI) (fact bound ids order clean sets refuses)+
qed

subsection \<open>Sinks and owner\<close>

text \<open>The memory sink holds the latest traces in the order in which they were emitted.\<close>

lemma memory_emit_eq:
  "memory_emit t k = k\<lparr>ms_traces := drop (nat (int (Suc (length (ms_traces k))) - ms_max k)) (ms_traces k @ [t])\<rparr>"
  by (simp add: memory_emit_def Let_def)

lemma memory_sink_latest:
  assumes "int (length (ms_traces k)) \<le> ms_max k"
  shows "fold memory_emit ts k =
    k\<lparr>ms_traces := drop (nat (int (length (ms_traces k @ ts)) - ms_max k)) (ms_traces k @ ts)\<rparr>"
proof (induction ts rule: rev_induct)
  case Nil
  with assms show ?case by simp
next
  case (snoc t ts)
  define xs where "xs = ms_traces k @ ts"
  define d where "d = nat (int (length xs) - ms_max k)"
  have d: "d \<le> length xs" using assms by (simp add: d_def)
  then have "drop d xs @ [t] = drop d (xs @ [t])" by simp
  moreover have "nat (int (Suc (length (drop d xs))) - ms_max k) + d = nat (int (Suc (length xs)) - ms_max k)"
    using d assms by (simp add: d_def) arith
  ultimately have step: "drop (nat (int (Suc (length (drop d xs))) - ms_max k)) (drop d xs @ [t])
      = drop (nat (int (Suc (length xs)) - ms_max k)) (xs @ [t])" by (metis drop_drop)
  have "fold memory_emit ts k = k\<lparr>ms_traces := drop d xs\<rparr>" using snoc by (simp add: xs_def d_def)
  then have "fold memory_emit (ts @ [t]) k = k\<lparr>ms_traces := drop (nat (int (Suc (length xs)) - ms_max k)) (xs @ [t])\<rparr>"
    unfolding step [symmetric] by (simp add: memory_emit_eq del: length_drop drop_append)
  then show ?case by (simp add: xs_def)
qed

text \<open>Without an uncaught error every sink is asked once and is counted as a success or a failure.\<close>

lemma dispatch_loop_counts:
  assumes "dispatch_loop emit t ks ok failed = (Some (a, b), ks')"
  shows "a + b = ok + failed + length ks \<and> ks' = map (\<lambda>k. snd (emit k t)) ks"
  using assms
proof (induction ks arbitrary: ok failed ks')
  case (Cons k ks)
  obtain e k' where e: "emit k t = (e, k')" by force
  show ?case
  proof (cases e)
    case Emitted
    with Cons.prems e obtain ks'' where "dispatch_loop emit t ks (ok + 1) failed = (Some (a, b), ks'')" "ks' = k' # ks''"
      by (cases "dispatch_loop emit t ks (ok + 1) failed") auto
    with Cons.IH e show ?thesis by fastforce
  next
    case EmitFailed
    with Cons.prems e obtain ks'' where "dispatch_loop emit t ks ok (failed + 1) = (Some (a, b), ks'')" "ks' = k' # ks''"
      by (cases "dispatch_loop emit t ks ok (failed + 1)") auto
    with Cons.IH e show ?thesis by fastforce
  next
    case EmitRaised
    with Cons.prems e show ?thesis by simp
  qed
qed simp

lemma dispatch_counts:
  "dispatch_trace emit t ks = (Some r, ks') \<Longrightarrow> er_attempted r = er_succeeded r + er_failed r \<and> er_attempted r = length ks
     \<and> ks' = map (\<lambda>k. snd (emit k t)) ks"
  using dispatch_loop_counts [of emit t ks 0 0] by (cases "dispatch_loop emit t ks 0 0") (auto simp: dispatch_trace_def)

text \<open>The collector an owner holds is always one that its operations can reach.\<close>

lemma execution_start_run:
  assumes "ex_collector X = Some C" and "collector_run lowered rnd C"
  shows "\<exists>D. ex_collector (snd (exec_start_span lowered stage component operation parent vs i reading X)) = Some D
    \<and> collector_run lowered rnd D"
  using assms collector_run.Started [OF assms(2), of stage component operation parent vs i reading]
  by (auto simp: exec_start_span_def split: prod.splits sum.splits)

lemma execution_complete_run:
  assumes "ex_collector X = Some C" and "collector_run lowered rnd C"
  shows "\<exists>D. ex_collector (exec_complete_span lowered rnd given status err vs reading X) = Some D \<and> collector_run lowered rnd D"
proof (cases given)
  case None
  with assms show ?thesis by (simp add: exec_complete_span_def)
next
  case (Some c)
  obtain r D where D: "complete_span lowered rnd c status err vs reading C = (r, D)" by force
  with collector_run.Completed [OF assms(2), of c status err vs reading] have "collector_run lowered rnd D" by simp
  with assms(1) Some D show ?thesis by (cases r) (simp_all add: exec_complete_span_def)
qed

text \<open>
  A span that is completed with an error code but not as failed breaks the contract of a span. It was popped before, so it is
  gone: it is neither open nor closed and is not counted as dropped.
\<close>

lemma new_trace_span_contract:
  assumes "new_trace_span s = Inr x"
  shows "error_contract (ts_status s) (map_option py_strip (ts_error s)) = Inr ()"
  using assms by (auto simp: new_trace_span_def trace_text_def trace_opt_text_def res_simps split: if_splits option.splits)

lemma span_of_mistyped: "span_of rnd C i s t tick SpanCompleted (Some e) as n \<noteq> Inr x"
proof
  assume "span_of rnd C i s t tick SpanCompleted (Some e) as n = Inr x"
  from new_trace_span_contract [OF this [unfolded span_of_def]]
  have "error_contract SpanCompleted (Some (py_strip e)) = Inr ()" by simp
  then show False by (simp add: error_contract_def split: if_splits)
qed

lemma mistyped_completion_loses_span:
  assumes "\<not> co_final C" and "tx_span c = Some i" and "tx_trace c = tx_trace (co_context C)" and "i \<notin> co_dropped C"
    and "map_of (co_open C) i = Some s"
  shows "\<exists>e D. complete_span lowered rnd c SpanCompleted (Some err) vs reading C = (Inl e, D)
    \<and> i \<notin> fst ` set (co_open D) \<and> co_closed D = co_closed C \<and> co_dropped_spans D = co_dropped_spans C"
proof -
  let ?C = "C\<lparr>co_open := pop_key i (co_open C)\<rparr>"
  let ?merged = "foldl (\<lambda>d (k, v). put_field k v d) (os_attributes s) vs"
  obtain q D where q: "close_popped lowered rnd i s ?merged SpanCompleted (Some err) reading ?C = (q, D)" by force
  from q obtain e where "q = Inl e"
    by (auto simp: close_popped_def Let_def res_simps span_of_mistyped split: prod.splits sum.splits)
  with q close_popped_fails obtain n where "D = ?C\<lparr>co_dropped_attributes := n\<rparr>" by blast
  with assms q \<open>q = Inl e\<close> show ?thesis by (simp add: complete_span_def require_context_def terminal_status_def pop_key_keys)
qed

subsection \<open>A run\<close>

definition demo_trace_limits :: trace_limits where
  "demo_trace_limits = \<lparr>tl_spans = 64, tl_attributes = 24, tl_value_length = 256, tl_bytes = 65536, tl_traces = 256\<rparr>"

definition demo_trace_context :: trace_context where
  "demo_trace_context = \<lparr>tx_trace = [116], tx_request = [114], tx_session = False, tx_span = None, tx_parent = None\<rparr>"

definition demo_collector :: "nat \<Rightarrow> collector" where
  "demo_collector n = (let C = projr (new_collector demo_trace_context demo_trace_limits (Aware 5) 0) in
     if n = 0 then C
     else snd (start_span id StageRequest [97] [98] None [(lit ''success'', JBool True)] [115] (Aware 6, 1) C))"

lemma demo_collector_run: "collector_run id id (demo_collector n)"
proof -
  have "new_trace_limits demo_trace_limits = Inr demo_trace_limits" by (simp add: new_trace_limits_def demo_trace_limits_def)
  from collector_run.Fresh [OF this, of demo_trace_context "Aware 5" 0 _ id id] have "collector_run id id (demo_collector 0)"
    by (simp add: demo_collector_def new_collector_def require_utc_def)
  with collector_run.Started [of id id "demo_collector 0"] show ?thesis by (simp add: demo_collector_def Let_def)
qed

lemma demo_attribute:
  "sanitize_attributes id StageRequest [(lit ''success'', JBool True)] (span_limits demo_trace_limits)
     = ([\<lparr>at_key = lit ''success'', at_value = JBool True\<rparr>], 0)"
proof -
  have "py_strip (lit ''success'') = lit ''success''" by (simp add: lit_def py_strip_def py_space_def)
  then show ?thesis
    by (simp add: sanitize_attributes_def allowed_keys_def common_keys_def forbidden_keys_def span_limits_def trace_scalar_def
        demo_trace_limits_def Let_def)
qed

lemma demo_short: "py_strip [c] = [c]" "\<not> py_space c" if "c \<in> {97, 98, 114, 115, 116}" for c
  using that by (auto simp: py_strip_def py_space_def)

lemma demo_span_started:
  "demo_collector 1 = \<lparr>co_context = demo_trace_context, co_limits = demo_trace_limits, co_started = 5, co_monotonic = 0,
     co_open = [([115], \<lparr>os_context = demo_trace_context\<lparr>tx_span := Some [115]\<rparr>, os_stage = StageRequest,
       os_component = [97], os_operation = [98], os_started = 6, os_monotonic = 1,
       os_attributes = [(lit ''success'', JBool True)], os_dropped = 0\<rparr>)],
     co_closed = [], co_order = [([115], 0)], co_next = 1, co_dropped = {}, co_dropped_spans = 0,
     co_dropped_attributes = 0, co_final = False\<rparr>"
  using demo_attribute
  by (simp add: demo_collector_def new_collector_def require_utc_def start_span_def demo_trace_context_def parent_span_id_def
      new_trace_context_def trace_text_def trace_opt_text_def demo_short Let_def)
    (simp add: demo_trace_limits_def)

lemma demo_finalized:
  "\<exists>t E. finalize_trace id id SpanCompleted None None None (\<lambda>n. (Aware 7, 2)) (demo_collector 1) = (Inr t, E)
     \<and> map ts_id (qt_spans t) = [[115]]"
proof -
  have "trace_text 64 unclosed_code = Inr unclosed_code"
    by (simp add: trace_text_def blank_def py_strip_unclosed) (simp add: unclosed_code_def)
  with demo_attribute show ?thesis
    unfolding demo_span_started
    by (simp add: finalize_trace_def require_utc_def close_popped_def span_of_def new_trace_span_def trace_text_def
      trace_opt_text_def demo_short safe_text_def safe_name_def error_contract_def terminal_status_def ordered_spans_def
      new_request_trace_def duration_ms_def demo_trace_context_def pop_key_def Let_def)
qed

theorem finalized_trace_bounded_witness:
  "\<exists>t E. finalize_trace id id SpanCompleted None None None (\<lambda>n. (Aware 7, 2)) (demo_collector 1) = (Inr t, E)
     \<and> length (qt_spans t) = 1 \<and> int (length (qt_spans t)) \<le> tl_spans (co_limits (demo_collector 1))"
proof -
  from demo_finalized obtain t E
    where run: "finalize_trace id id SpanCompleted None None None (\<lambda>n. (Aware 7, 2)) (demo_collector 1) = (Inr t, E)"
      and ids: "map ts_id (qt_spans t) = [[115]]" by (elim exE conjE) (rule that)
  from arg_cong [OF ids, of length] finalized_trace_bounded [OF demo_collector_run run, of StageRequest "[]" "[]" None "[]" "[]" "(Aware 8, 3)" demo_trace_context SpanCompleted None None None "\<lambda>_. (Aware 8, 3)"] run show ?thesis by auto
qed

end
