(* ===== verification/DocumentParsers.thy ===== *)
theory DocumentParsers
  imports ClauseChunking TurnIdentity
begin

section \<open>Ingestion: parsers of local documents\<close>

text \<open>
  \<^verbatim>\<open>ingestion/parsers.py\<close> and \<^verbatim>\<open>ingestion/registry.py\<close>. What the platform knows of a source is an argument: the text,
  the name and the file a path stands for (\<open>disk\<close>), the text codecs (\<open>decode\<close>), the PDF reader (\<open>pdf\<close>), the hexadecimal
  SHA-256 digest of bytes (\<open>sha\<close>) and of the canonical JSON text of an identity payload (\<open>digest\<close>), and lower-casing.
\<close>

subsection \<open>Sources\<close>

text \<open>A read that raises \<^verbatim>\<open>OSError\<close> is \<open>None\<close>; the size can change between its inspection and the read.\<close>

record disk_file =
  df_text :: pystr
  df_name :: pystr
  df_exists :: bool
  df_regular :: bool
  df_size :: "int option"
  df_bytes :: "nat list option"

datatype parse_error =
    InvalidSource string
  | UnsupportedSuffix
  | TooLarge
  | CannotDecode
  | CannotEncode
  | CannotParse string
  | BlockInvalid

text \<open>\<^verbatim>\<open>PurePath.suffix\<close>: from the last dot of the name, unless it is its first or its last character.\<close>

definition path_suffix :: "pystr \<Rightarrow> pystr" where
  "path_suffix name =
     (let tail = takeWhile (\<lambda>c. c \<noteq> 46) (rev name); i = length name - length tail
      in if length tail = length name \<or> tail = [] \<or> i \<le> 1 then [] else 46 # rev tail)"

subsection \<open>Parsers\<close>

datatype parser_kind = TextParser | MarkdownParser | PdfParser

fun kind_suffixes :: "parser_kind \<Rightarrow> pystr list" where
  "kind_suffixes TextParser = [lit ''.txt'']"
| "kind_suffixes MarkdownParser = [lit ''.md'', lit ''.markdown'']"
| "kind_suffixes PdfParser = [lit ''.pdf'']"

fun kind_mime :: "parser_kind \<Rightarrow> pystr" where
  "kind_mime TextParser = lit ''text/plain''"
| "kind_mime MarkdownParser = lit ''text/markdown''"
| "kind_mime PdfParser = lit ''application/pdf''"

fun kind_name :: "parser_kind \<Rightarrow> pystr" where
  "kind_name TextParser = lit ''TextDocumentParser''"
| "kind_name MarkdownParser = lit ''MarkdownDocumentParser''"
| "kind_name PdfParser = lit ''PdfDocumentParser''"

record doc_parser =
  dp_kind :: parser_kind
  dp_max :: int
  dp_encodings :: "pystr list"

definition new_local_parser :: "parser_kind \<Rightarrow> int \<Rightarrow> string + doc_parser" where
  "new_local_parser k n =
     (if n \<le> 0 then Inl ''max_file_size must be greater than zero'' else Inr \<lparr>dp_kind = k, dp_max = n, dp_encodings = []\<rparr>)"

definition new_text_parser :: "(pystr \<Rightarrow> bool) \<Rightarrow> parser_kind \<Rightarrow> int \<Rightarrow> pystr list \<Rightarrow> string + doc_parser" where
  "new_text_parser known k n fallback = res_bind (new_local_parser k n) (\<lambda>P.
     let encodings = lit ''utf-8-sig'' # fallback
     in res_bind (res_map (\<lambda>e. ensure (known e) ''unknown text encoding'') encodings) (\<lambda>_. Inr (P\<lparr>dp_encodings := encodings\<rparr>)))"

definition read_source ::
  "(pystr \<Rightarrow> pystr) \<Rightarrow> (pystr \<Rightarrow> disk_file) \<Rightarrow> doc_parser \<Rightarrow> pystr \<Rightarrow> parse_error + (disk_file \<times> nat list)" where
  "read_source lowered disk P source =
     (if contains_text (lit ''://'') source then Inl (InvalidSource ''not a local path'')
      else let f = disk source in
        if \<not> df_exists f then Inl (InvalidSource ''does not exist'')
        else if \<not> df_regular f then Inl (InvalidSource ''not a regular file'')
        else if lowered (path_suffix (df_name f)) \<notin> set (kind_suffixes (dp_kind P)) then Inl UnsupportedSuffix
        else (case df_size f of
            None \<Rightarrow> Inl (InvalidSource ''cannot inspect'')
          | Some n \<Rightarrow> if dp_max P < n then Inl TooLarge
              else (case df_bytes f of
                  None \<Rightarrow> Inl (InvalidSource ''cannot read'')
                | Some bytes \<Rightarrow> (let data = take (nat (dp_max P + 1)) bytes
                    in if dp_max P < int (length data) then Inl TooLarge else Inr (f, data)))))"

definition stable_block_id ::
  "(json \<Rightarrow> pystr) \<Rightarrow> doc_parser \<Rightarrow> pystr \<Rightarrow> int \<Rightarrow> int option \<Rightarrow> pystr \<Rightarrow> pystr" where
  "stable_block_id digest P document_id index page content_sha = lit ''block_'' @ digest (JObj
     [(lit ''schema_version'', JStr (lit ''document-block-v1'')), (lit ''parser_name'', JStr (kind_name (dp_kind P))),
      (lit ''document_id'', JStr document_id), (lit ''block_index'', JInt index), (lit ''page_number'', json_opt JInt page),
      (lit ''block_content_sha256'', JStr content_sha)])"

text \<open>The validated constructor of a block, and the block of one piece of text.\<close>

definition new_document_block :: "document_block \<Rightarrow> parse_error + document_block" where
  "new_document_block b = (if block_contract b then Inr b else Inl BlockInvalid)"

record parse_request =
  pq_document_id :: pystr
  pq_version :: pystr
  pq_metadata :: "(pystr \<times> json) list"

definition make_block ::
  "(nat list \<Rightarrow> pystr) \<Rightarrow> (json \<Rightarrow> pystr) \<Rightarrow> (pystr \<Rightarrow> pystr) \<Rightarrow> doc_parser \<Rightarrow> disk_file \<Rightarrow> pystr \<Rightarrow> parse_request \<Rightarrow> int
     \<Rightarrow> int option \<Rightarrow> pystr \<Rightarrow> parse_error + document_block" where
  "make_block sha digest lowered P f file_sha q index page content =
     (case utf8 content of
        None \<Rightarrow> Inl CannotEncode
      | Some bytes \<Rightarrow> new_document_block
          \<lparr>db_block_id = stable_block_id digest P (pq_document_id q) index page (sha bytes),
           db_document_id = pq_document_id q, db_document_version = pq_version q, db_content = content,
           db_block_index = index, db_page_number = page, db_source = Some (df_text f), db_file_name = Some (df_name f),
           db_file_suffix = Some (lowered (path_suffix (df_name f))), db_mime_type = Some (kind_mime (dp_kind P)),
           db_file_sha256 = Some file_sha, db_content_sha256 = Some (sha bytes),
           db_parser_name = Some (kind_name (dp_kind P)), db_section = None, db_metadata = pq_metadata q\<rparr>)"

text \<open>The first encoding that decodes the bytes.\<close>

fun decode_with :: "(pystr \<Rightarrow> nat list \<Rightarrow> pystr option) \<Rightarrow> pystr list \<Rightarrow> nat list \<Rightarrow> parse_error + pystr" where
  "decode_with decode [] data = Inl CannotDecode"
| "decode_with decode (e # es) data = (case decode e data of Some s \<Rightarrow> Inr s | None \<Rightarrow> decode_with decode es data)"

definition parse_text ::
  "(nat list \<Rightarrow> pystr) \<Rightarrow> (json \<Rightarrow> pystr) \<Rightarrow> (pystr \<Rightarrow> pystr) \<Rightarrow> (pystr \<Rightarrow> nat list \<Rightarrow> pystr option) \<Rightarrow> (pystr \<Rightarrow> disk_file)
     \<Rightarrow> doc_parser \<Rightarrow> pystr \<Rightarrow> parse_request \<Rightarrow> parse_error + document_block list" where
  "parse_text sha digest lowered decode disk P source q =
     res_bind (read_source lowered disk P source) (\<lambda>(f, data).
     res_bind (decode_with decode (dp_encodings P) data) (\<lambda>content.
     res_bind (make_block sha digest lowered P f (sha data) q 0 None content) (\<lambda>b. Inr [b])))"

text \<open>
  What the PDF reader does with the bytes: it raises, reports an encrypted document, or gives the pages, each of which has
  a text, no text, or raises while its text is extracted.
\<close>

datatype pdf_page = PageText "pystr option" | PageRaised
datatype pdf_reply = PdfRaised | PdfEncrypted | PdfPages "pdf_page list"

fun pdf_blocks ::
  "(int \<Rightarrow> int option \<Rightarrow> pystr \<Rightarrow> parse_error + document_block) \<Rightarrow> int \<Rightarrow> pdf_page list \<Rightarrow> parse_error + document_block list" where
  "pdf_blocks mk i [] = Inr []"
| "pdf_blocks mk i (PageRaised # ps) = Inl (CannotParse ''cannot extract text'')"
| "pdf_blocks mk i (PageText content # ps) =
     res_bind (mk i (Some (i + 1)) (case content of None \<Rightarrow> [] | Some s \<Rightarrow> s)) (\<lambda>b.
     res_bind (pdf_blocks mk (i + 1) ps) (\<lambda>bs. Inr (b # bs)))"

definition parse_pdf ::
  "(nat list \<Rightarrow> pystr) \<Rightarrow> (json \<Rightarrow> pystr) \<Rightarrow> (pystr \<Rightarrow> pystr) \<Rightarrow> (nat list \<Rightarrow> pdf_reply) \<Rightarrow> (pystr \<Rightarrow> disk_file)
     \<Rightarrow> doc_parser \<Rightarrow> pystr \<Rightarrow> parse_request \<Rightarrow> parse_error + document_block list" where
  "parse_pdf sha digest lowered pdf disk P source q =
     res_bind (read_source lowered disk P source) (\<lambda>(f, data). case pdf data of
       PdfRaised \<Rightarrow> Inl (CannotParse ''cannot parse'')
     | PdfEncrypted \<Rightarrow> Inl (CannotParse ''encrypted'')
     | PdfPages pages \<Rightarrow> (case pdf_blocks (make_block sha digest lowered P f (sha data) q) 0 pages of
           Inl _ \<Rightarrow> Inl (CannotParse ''cannot parse'')
         | Inr bs \<Rightarrow> Inr bs))"

definition parse_document ::
  "(nat list \<Rightarrow> pystr) \<Rightarrow> (json \<Rightarrow> pystr) \<Rightarrow> (pystr \<Rightarrow> pystr) \<Rightarrow> (pystr \<Rightarrow> nat list \<Rightarrow> pystr option)
     \<Rightarrow> (nat list \<Rightarrow> pdf_reply) \<Rightarrow> (pystr \<Rightarrow> disk_file) \<Rightarrow> doc_parser \<Rightarrow> pystr \<Rightarrow> parse_request
     \<Rightarrow> parse_error + document_block list" where
  "parse_document sha digest lowered decode pdf disk P source q = (case dp_kind P of
       PdfParser \<Rightarrow> parse_pdf sha digest lowered pdf disk P source q
     | _ \<Rightarrow> parse_text sha digest lowered decode disk P source q)"

subsection \<open>The registry\<close>

type_synonym parser_registry = "(pystr \<times> doc_parser) list"

fun register_suffixes :: "(pystr \<Rightarrow> pystr) \<Rightarrow> doc_parser \<Rightarrow> pystr list \<Rightarrow> parser_registry \<Rightarrow> string + parser_registry" where
  "register_suffixes lowered P [] R = Inr R"
| "register_suffixes lowered P (s # ss) R =
     (if lowered s \<in> fst ` set R then Inl ''parser already registered for suffix''
      else register_suffixes lowered P ss (R @ [(lowered s, P)]))"

definition register_parser :: "(pystr \<Rightarrow> pystr) \<Rightarrow> doc_parser \<Rightarrow> parser_registry \<Rightarrow> string + parser_registry" where
  "register_parser lowered P R = register_suffixes lowered P (kind_suffixes (dp_kind P)) R"

fun new_parser_registry :: "(pystr \<Rightarrow> pystr) \<Rightarrow> doc_parser list \<Rightarrow> parser_registry \<Rightarrow> string + parser_registry" where
  "new_parser_registry lowered [] R = Inr R"
| "new_parser_registry lowered (P # Ps) R = res_bind (register_parser lowered P R) (new_parser_registry lowered Ps)"

definition default_registry :: "(pystr \<Rightarrow> bool) \<Rightarrow> (pystr \<Rightarrow> pystr) \<Rightarrow> int \<Rightarrow> string + parser_registry" where
  "default_registry known lowered n =
     res_bind (new_text_parser known TextParser n []) (\<lambda>t. res_bind (new_text_parser known MarkdownParser n []) (\<lambda>m.
     res_bind (new_local_parser PdfParser n) (\<lambda>p. new_parser_registry lowered [t, m, p] [])))"

definition parser_for :: "(pystr \<Rightarrow> pystr) \<Rightarrow> (pystr \<Rightarrow> disk_file) \<Rightarrow> parser_registry \<Rightarrow> pystr \<Rightarrow> parse_error + doc_parser" where
  "parser_for lowered disk R source = (case map_of R (lowered (path_suffix (df_name (disk source)))) of
       None \<Rightarrow> Inl UnsupportedSuffix | Some P \<Rightarrow> Inr P)"

definition registry_parse ::
  "(nat list \<Rightarrow> pystr) \<Rightarrow> (json \<Rightarrow> pystr) \<Rightarrow> (pystr \<Rightarrow> pystr) \<Rightarrow> (pystr \<Rightarrow> nat list \<Rightarrow> pystr option)
     \<Rightarrow> (nat list \<Rightarrow> pdf_reply) \<Rightarrow> (pystr \<Rightarrow> disk_file) \<Rightarrow> parser_registry \<Rightarrow> pystr \<Rightarrow> parse_request
     \<Rightarrow> parse_error + document_block list" where
  "registry_parse sha digest lowered decode pdf disk R source q =
     res_bind (parser_for lowered disk R source) (\<lambda>P. parse_document sha digest lowered decode pdf disk P source q)"

subsection \<open>What a parser returns\<close>

lemma make_block_sound:
  assumes "make_block sha digest lowered P f file_sha q index page content = Inr b"
  shows "block_contract b" and "db_block_index b = index" and "db_page_number b = page" and "db_content b = content"
    and "db_document_id b = pq_document_id q" and "db_file_sha256 b = Some file_sha"
    and "\<exists>h. db_block_id b = stable_block_id digest P (pq_document_id q) index page h"
  using assms by (auto simp: make_block_def new_document_block_def split: option.splits if_splits)

lemma pdf_blocks_sound:
  assumes "pdf_blocks mk i pages = Inr bs"
  shows "length bs = length pages \<and> (\<forall>k < length bs. \<exists>content. mk (i + int k) (Some (i + int k + 1)) content = Inr (bs ! k))"
  using assms
proof (induction pages arbitrary: i bs)
  case (Cons p ps)
  obtain content where p: "p = PageText content" using Cons.prems by (cases p) auto
  with Cons.prems obtain b rest where b: "mk i (Some (i + 1)) (case content of None \<Rightarrow> [] | Some s \<Rightarrow> s) = Inr b"
    and rest: "pdf_blocks mk (i + 1) ps = Inr rest" "bs = b # rest" by (auto simp: res_simps)
  show ?case
  proof (intro conjI allI impI)
    show "length bs = length (p # ps)" using Cons.IH [OF rest(1)] rest(2) by simp
    fix k assume k: "k < length bs"
    show "\<exists>content. mk (i + int k) (Some (i + int k + 1)) content = Inr (bs ! k)"
    proof (cases k)
      case 0
      with b rest(2) show ?thesis by auto
    next
      case (Suc m)
      with Cons.IH [OF rest(1)] k rest(2) obtain content where "mk (i + 1 + int m) (Some (i + 1 + int m + 1)) content = Inr (rest ! m)"
        by auto
      with Suc rest(2) show ?thesis by (auto simp: algebra_simps)
    qed
  qed
qed simp

lemma read_source_sound:
  assumes "read_source lowered disk P source = Inr (f, data)"
  shows "f = disk source" and "int (length data) \<le> dp_max P" and "df_regular f"
    and "lowered (path_suffix (df_name f)) \<in> set (kind_suffixes (dp_kind P))"
    and "\<exists>bytes. df_bytes f = Some bytes \<and> data = bytes"
proof -
  from assms obtain bytes where "f = disk source" "df_bytes f = Some bytes" "data = take (nat (dp_max P + 1)) bytes"
    and len: "int (length data) \<le> dp_max P" and rest: "df_regular f" "lowered (path_suffix (df_name f)) \<in> set (kind_suffixes (dp_kind P))"
    by (auto simp: read_source_def Let_def split: if_splits option.splits)
  then show "f = disk source" and "int (length data) \<le> dp_max P" and "df_regular f"
    and "lowered (path_suffix (df_name f)) \<in> set (kind_suffixes (dp_kind P))"
    and "\<exists>bytes. df_bytes f = Some bytes \<and> data = bytes"
    by auto
qed

text \<open>The blocks of a document: numbered from zero, each with the digest of the whole file that was read.\<close>

definition blocks_of_file :: "(nat list \<Rightarrow> pystr) \<Rightarrow> (json \<Rightarrow> pystr) \<Rightarrow> doc_parser \<Rightarrow> parse_request \<Rightarrow> nat list \<Rightarrow> document_block list \<Rightarrow> bool" where
  "blocks_of_file sha digest P q data bs \<longleftrightarrow> (\<forall>k < length bs. block_contract (bs ! k) \<and> db_block_index (bs ! k) = int k
     \<and> db_document_id (bs ! k) = pq_document_id q \<and> db_file_sha256 (bs ! k) = Some (sha data)
     \<and> (\<exists>page h. db_block_id (bs ! k) = stable_block_id digest P (pq_document_id q) (int k) page h))"

lemma parse_document_sound:
  assumes "parse_document sha digest lowered decode pdf disk P source q = Inr bs"
  shows "\<exists>data. read_source lowered disk P source = Inr (disk source, data) \<and> blocks_of_file sha digest P q data bs"
proof (cases "dp_kind P = PdfParser")
  case True
  with assms have run: "parse_pdf sha digest lowered pdf disk P source q = Inr bs" by (simp add: parse_document_def)
  then obtain f data where r: "read_source lowered disk P source = Inr (f, data)"
    by (auto simp: parse_pdf_def res_simps)
  with run obtain pages where p: "pdf_blocks (make_block sha digest lowered P f (sha data) q) 0 pages = Inr bs"
    by (auto simp: parse_pdf_def split: pdf_reply.splits sum.splits)
  from pdf_blocks_sound [OF p] have "blocks_of_file sha digest P q data bs"
    by (force simp: blocks_of_file_def dest: make_block_sound)
  with r read_source_sound(1) [OF r] show ?thesis by blast
next
  case False
  with assms have "parse_text sha digest lowered decode disk P source q = Inr bs"
    by (cases "dp_kind P") (simp_all add: parse_document_def)
  then obtain f data content b where r: "read_source lowered disk P source = Inr (f, data)"
    and b: "make_block sha digest lowered P f (sha data) q 0 None content = Inr b" "bs = [b]"
    by (auto simp: parse_text_def res_simps)
  with make_block_sound [OF b(1)] read_source_sound(1) [OF r] show ?thesis
    by (auto simp: blocks_of_file_def)
qed

lemma blocks_of_file_ids:
  assumes "blocks_of_file sha digest P q data bs" and "inj digest"
  shows "distinct (map db_block_id bs)"
proof -
  have "m = k" if k: "k < length bs" "m < length bs" "db_block_id (bs ! k) = db_block_id (bs ! m)" for k m
  proof -
    from assms(1) k obtain page h page' h' where
      "stable_block_id digest P (pq_document_id q) (int k) page h = stable_block_id digest P (pq_document_id q) (int m) page' h'"
      unfolding blocks_of_file_def by metis
    with assms(2) show ?thesis by (auto simp: stable_block_id_def dest: injD)
  qed
  then show ?thesis by (auto simp: distinct_conv_nth)
qed

subsection \<open>The registry\<close>

definition registry_ok :: "(pystr \<Rightarrow> pystr) \<Rightarrow> parser_registry \<Rightarrow> bool" where
  "registry_ok lowered R \<longleftrightarrow> distinct (map fst R) \<and> (\<forall>(s, P) \<in> set R. s \<in> lowered ` set (kind_suffixes (dp_kind P)))"

lemma register_suffixes_ok:
  assumes "register_suffixes lowered P ss R = Inr R'" and "registry_ok lowered R" and "set ss \<subseteq> set (kind_suffixes (dp_kind P))"
  shows "registry_ok lowered R' \<and> set R' = set R \<union> (\<lambda>s. (lowered s, P)) ` set ss"
  using assms
proof (induction ss arbitrary: R)
  case (Cons s ss)
  then have new: "lowered s \<notin> fst ` set R" and run: "register_suffixes lowered P ss (R @ [(lowered s, P)]) = Inr R'"
    by (auto split: if_splits)
  from Cons.prems new have "registry_ok lowered (R @ [(lowered s, P)])" by (auto simp: registry_ok_def)
  from Cons.IH [OF run this] Cons.prems(3) show ?case by auto
qed simp

lemma new_parser_registry_ok:
  "new_parser_registry lowered Ps R = Inr R' \<Longrightarrow> registry_ok lowered R \<Longrightarrow> registry_ok lowered R'"
proof (induction Ps arbitrary: R)
  case (Cons P Ps)
  from Cons.prems obtain S where S: "register_parser lowered P R = Inr S" and rest: "new_parser_registry lowered Ps S = Inr R'"
    by (auto simp: res_simps)
  from register_suffixes_ok [OF S [unfolded register_parser_def] Cons.prems(2)] have "registry_ok lowered S" by simp
  with Cons.IH rest show ?case by blast
qed simp

text \<open>The suffix check of the parser that the registry selects never fails, when lower-casing keeps the known suffixes.\<close>

lemma selected_parser_supports:
  assumes "registry_ok lowered R" and "parser_for lowered disk R source = Inr P"
    and "\<forall>s \<in> set (kind_suffixes (dp_kind P)). lowered s = s"
  shows "lowered (path_suffix (df_name (disk source))) \<in> set (kind_suffixes (dp_kind P))"
  using assms by (auto simp: parser_for_def registry_ok_def split: option.splits dest!: map_of_SomeD)

text \<open>The bytes were read in full from a regular file of the selected parser, within its limit.\<close>

lemma registry_parse_sound:
  assumes "registry_parse sha digest lowered decode pdf disk R source q = Inr bs"
  shows "\<exists>P data. parser_for lowered disk R source = Inr P \<and> int (length data) \<le> dp_max P
    \<and> df_regular (disk source) \<and> df_bytes (disk source) = Some data \<and> blocks_of_file sha digest P q data bs"
proof -
  from assms obtain P where P: "parser_for lowered disk R source = Inr P"
    and run: "parse_document sha digest lowered decode pdf disk P source q = Inr bs"
    by (auto simp: registry_parse_def res_simps)
  from parse_document_sound [OF run] obtain data where r: "read_source lowered disk P source = Inr (disk source, data)"
    and bs: "blocks_of_file sha digest P q data bs" by blast
  from P bs read_source_sound [OF r] show ?thesis by auto
qed

text \<open>A readable file of text within the limit, with valid identifiers, is always parsed.\<close>

lemma text_parse_succeeds:
  assumes "dp_kind P \<noteq> PdfParser" and "\<not> contains_text (lit ''://'') source" and "df_exists (disk source)" and "df_regular (disk source)"
    and "lowered (path_suffix (df_name (disk source))) \<in> set (kind_suffixes (dp_kind P))"
    and "df_size (disk source) = Some n" and "n \<le> dp_max P" and "df_bytes (disk source) = Some data"
    and "int (length data) \<le> dp_max P" and "\<exists>e \<in> set (dp_encodings P). \<exists>s. decode e data = Some s"
    and "\<forall>e s. decode e data = Some s \<longrightarrow> utf8 s \<noteq> None" and "\<forall>b. hex_digest (sha b)"
    and "pq_document_id q \<noteq> []" and "pq_version q \<noteq> []"
  shows "\<exists>b. parse_document sha digest lowered decode pdf disk P source q = Inr [b]"
proof -
  have r: "read_source lowered disk P source = Inr (disk source, data)"
    using assms(2-9) by (simp add: read_source_def Let_def)
  have "\<exists>e s. decode_with decode es data = Inr s \<and> decode e data = Some s"
    if "\<exists>e \<in> set es. \<exists>s. decode e data = Some s" for es
    using that by (induction es) (auto split: option.splits)
  with assms(10) obtain e s where s: "decode_with decode (dp_encodings P) data = Inr s" "decode e data = Some s" by blast
  with assms(11) obtain bytes where "utf8 s = Some bytes" by fastforce
  with assms(12-14) have "\<exists>b. make_block sha digest lowered P (disk source) (sha data) q 0 None s = Inr b"
    by (simp add: make_block_def new_document_block_def block_contract_def stable_block_id_def page_ok_def)
  with r s(1) assms(1) show ?thesis by (cases "dp_kind P") (auto simp: parse_document_def parse_text_def)
qed

text \<open>The default registry exists for every positive limit and knows four suffixes.\<close>

lemma default_registry_total:
  assumes "0 < n" and "known (lit ''utf-8-sig'')" and "\<forall>s \<in> {lit ''.txt'', lit ''.md'', lit ''.markdown'', lit ''.pdf''}. lowered s = s"
  shows "\<exists>R. default_registry known lowered n = Inr R \<and> registry_ok lowered R
    \<and> fst ` set R = {lit ''.txt'', lit ''.md'', lit ''.markdown'', lit ''.pdf''}"
  using assms
  by (auto simp: default_registry_def new_text_parser_def new_local_parser_def register_parser_def registry_ok_def Let_def)

subsection \<open>From a file to its chunks\<close>


definition demo_disk :: "pystr \<Rightarrow> disk_file" where
  "demo_disk source = \<lparr>df_text = source, df_name = lit ''a.txt'', df_exists = True, df_regular = True, df_size = Some 2,
     df_bytes = Some [104, 105]\<rparr>"

definition demo_text_parser :: doc_parser where
  "demo_text_parser = \<lparr>dp_kind = TextParser, dp_max = 10, dp_encodings = [lit ''utf-8-sig'']\<rparr>"

definition demo_sha :: "nat list \<Rightarrow> pystr" where
  "demo_sha bytes = replicate 64 48"

lemma demo_parsed:
  "\<exists>b. registry_parse demo_sha (\<lambda>v. []) id (\<lambda>e data. Some data) (\<lambda>data. PdfRaised) demo_disk [(lit ''.txt'', demo_text_parser)]
     [97] \<lparr>pq_document_id = [100], pq_version = [49], pq_metadata = []\<rparr> = Inr [b] \<and> db_content b = [104, 105]"
proof -
  have "path_suffix (lit ''a.txt'') = lit ''.txt''" by (simp add: path_suffix_def lit_def Let_def)
  moreover have "\<not> contains_text (lit ''://'') [97]" by (simp add: lit_def)
  moreover have "utf8 [104, 105] = Some [104, 105]" by (simp add: utf8_char_def)
  ultimately show ?thesis
    by (simp add: registry_parse_def parser_for_def demo_disk_def demo_text_parser_def parse_document_def parse_text_def
        read_source_def make_block_def new_document_block_def block_contract_def stable_block_id_def page_ok_def hex_digest_def
        demo_sha_def list_all_iff Let_def)
qed


end
