(* ===== verification/McpClient.thy ===== *)
theory McpClient
  imports SafeQuery TraceModels
begin

section \<open>The client of the data server\<close>

text \<open>
  \<^verbatim>\<open>mcp_client/enterprise_data_client.py\<close> and \<^verbatim>\<open>mcp_client/contracts.py\<close>, with the response contract of
  \<^verbatim>\<open>mcp_server/contracts.py\<close>. The SDK, the child process and its pipes are the record \<open>mcp_transport\<close> of functions on a
  world; how pydantic reads numbers and truth values from strings is the record \<open>field_words\<close>. The client is a data client
  in the sense of the data agent, over the world and its own state.
\<close>

subsection \<open>Standard error of the child\<close>

record stderr_capture =
  sc_limit :: nat
  sc_captured :: "nat list"
  sc_bytes :: nat
  sc_truncated :: bool

definition new_stderr_capture :: "nat \<Rightarrow> stderr_capture" where
  "new_stderr_capture limit = \<lparr>sc_limit = limit, sc_captured = [], sc_bytes = 0, sc_truncated = False\<rparr>"

definition drain_chunk :: "nat list \<Rightarrow> stderr_capture \<Rightarrow> stderr_capture" where
  "drain_chunk chunk c =
     (let remaining = sc_limit c - length (sc_captured c)
      in c\<lparr>sc_bytes := sc_bytes c + length chunk, sc_captured := sc_captured c @ take remaining chunk,
           sc_truncated := (sc_truncated c \<or> remaining < length chunk)\<rparr>)"

definition child_error_markers :: "(string \<times> string) list" where
  "child_error_markers =
     [(''mcp_database_preflight_mysql_authentication_failed'', ''mysql_authentication_failed''),
      (''mcp_database_preflight_mysql_connection_failed'', ''mysql_connection_failed''),
      (''mcp_database_preflight_mysql_timeout'', ''mysql_timeout''),
      (''mcp_database_preflight_mysql_health_query_failed'', ''mysql_health_query_failed''),
      (''mcp_database_preflight_mysql_shutdown_failed'', ''mysql_shutdown_failed''),
      (''mcp_database_preflight_failed'', ''mysql_preflight_failed'')]"

definition child_error_class :: "pystr \<Rightarrow> string option" where
  "child_error_class content = (case find (\<lambda>(marker, _). contains_text (lit marker) content) child_error_markers of
       Some (_, code) \<Rightarrow> Some code
     | None \<Rightarrow> if contains_text (lit ''traceback'') content \<or> contains_text (lit ''error'') content
         then Some ''child_reported_error'' else None)"

definition sensitive_content_detected :: "pystr \<Rightarrow> bool" where
  "sensitive_content_detected content =
     list_ex (\<lambda>marker. contains_text (lit marker) content) [''password'', ''api_key'', ''authorization'']"

record stderr_summary =
  es_captured :: bool
  es_bytes :: nat
  es_truncated :: bool
  es_warning :: bool
  es_error :: "string option"
  es_sensitive :: bool

definition empty_stderr_summary :: stderr_summary where
  "empty_stderr_summary = \<lparr>es_captured = False, es_bytes = 0, es_truncated = False, es_warning = False, es_error = None,
     es_sensitive = False\<rparr>"

text \<open>\<open>shown\<close> decodes with replacement characters and lower-cases.\<close>

definition close_capture :: "(nat list \<Rightarrow> pystr) \<Rightarrow> stderr_capture \<Rightarrow> stderr_summary" where
  "close_capture shown c = (let content = shown (sc_captured c)
     in \<lparr>es_captured = True, es_bytes = sc_bytes c, es_truncated = sc_truncated c,
         es_warning = contains_text (lit ''warning'') content, es_error = child_error_class content,
         es_sensitive = sensitive_content_detected content\<rparr>)"

subsection \<open>The environment of the child\<close>

datatype setting_value =
    SettingNone
  | SettingSecret pystr
  | SettingEnum pystr
  | SettingPath pystr
  | SettingBool bool
  | SettingText pystr
  | SettingNumber pystr
  | SettingOther

text \<open>A number and an enumeration value come with their text.\<close>

fun serialize_setting :: "setting_value \<Rightarrow> string + pystr" where
  "serialize_setting SettingNone = Inr []"
| "serialize_setting (SettingSecret s) = Inr s"
| "serialize_setting (SettingEnum s) = Inr s"
| "serialize_setting (SettingPath s) = Inr s"
| "serialize_setting (SettingBool b) = Inr (lit (if b then ''true'' else ''false''))"
| "serialize_setting (SettingText s) = Inr s"
| "serialize_setting (SettingNumber s) = Inr s"
| "serialize_setting SettingOther = Inl ''unsupported MCP child setting type''"

definition child_settings_fields :: "string list" where
  "child_settings_fields = [''app_name'', ''environment'', ''db_host'', ''db_port'', ''db_database'', ''db_readonly_username'',
     ''db_readonly_password'', ''db_connect_timeout_seconds'', ''db_query_timeout_seconds'', ''db_max_rows'', ''db_max_result_cells'']"

definition child_variable :: "(pystr \<Rightarrow> pystr) \<Rightarrow> string \<Rightarrow> pystr" where
  "child_variable uppered name = lit ''DECISION_AGENT_'' @ uppered (lit name)"

text \<open>The safe environment of the SDK, the path of the sources before an inherited one, and the listed settings.\<close>

definition capture_child_environment ::
  "(pystr \<Rightarrow> pystr) \<Rightarrow> (pystr \<times> pystr) list \<Rightarrow> pystr \<Rightarrow> pystr \<Rightarrow> pystr \<Rightarrow> (string \<Rightarrow> setting_value) \<Rightarrow> string + (pystr \<times> pystr) list" where
  "capture_child_environment uppered defaults separator source_path inherited setting =
     res_bind (res_map (\<lambda>name. res_bind (serialize_setting (setting name)) (\<lambda>s. Inr (child_variable uppered name, s))) child_settings_fields)
      (\<lambda>fs. Inr (foldl (\<lambda>d (k, v). put_field k v d)
         (put_field (lit ''PYTHONPATH'') (py_join separator (filter (\<lambda>p. p \<noteq> []) [source_path, inherited])) defaults) fs))"

text \<open>Nothing but the listed settings is handed to the child.\<close>

lemma foldl_put_keys: "fst ` set (foldl (\<lambda>d (k, v). put_field k v d) d fs) = fst ` set d \<union> fst ` set fs"
proof (induction fs arbitrary: d)
  case (Cons kv fs)
  obtain k v where "kv = (k, v)" by force
  then show ?case using Cons.IH [of "put_field k v d"] by (simp add: put_field_keys)
qed simp

lemma child_environment_keys:
  assumes "capture_child_environment uppered defaults separator source_path inherited setting = Inr d"
  shows "fst ` set d = fst ` set defaults \<union> {lit ''PYTHONPATH''} \<union> child_variable uppered ` set child_settings_fields"
proof -
  from assms obtain fs where fs: "res_map (\<lambda>name. res_bind (serialize_setting (setting name)) (\<lambda>s. Inr (child_variable uppered name, s)))
      child_settings_fields = Inr fs"
    and d: "d = foldl (\<lambda>d (k, v). put_field k v d)
      (put_field (lit ''PYTHONPATH'') (py_join separator (filter (\<lambda>p. p \<noteq> []) [source_path, inherited])) defaults) fs"
    by (auto simp: capture_child_environment_def res_simps)
  have "map fst xs = map (child_variable uppered) names"
    if "res_map (\<lambda>name. res_bind (serialize_setting (setting name)) (\<lambda>s. Inr (child_variable uppered name, s))) names = Inr xs" for names xs
    using that by (induction names arbitrary: xs) (auto simp: res_simps)
  from this [OF fs] have "fst ` set fs = child_variable uppered ` set child_settings_fields" by (metis list.set_map)
  then show ?thesis by (simp add: d foldl_put_keys put_field_keys insert_commute Un_commute)
qed

subsection \<open>Transport and state\<close>

text \<open>
  A step of the transport: a value, one of the transport errors, a timeout, another exception, or cancellation. Closing
  counts \<^verbatim>\<open>RuntimeError\<close> among the transport errors.
\<close>

datatype 'a io_reply = IoOk 'a | IoTransport | IoTimeout | IoRaised | IoCancelled

record tool_response =
  tp_error :: bool
  tp_structured :: "(pystr \<times> json) list option"
  tp_content :: "pystr option list"

record 'w mcp_transport =
  tr_pipe :: "'w \<Rightarrow> bool \<times> 'w"
  tr_stdio :: "'w \<Rightarrow> unit io_reply \<times> 'w"
  tr_session :: "'w \<Rightarrow> unit io_reply \<times> 'w"
  tr_initialize :: "'w \<Rightarrow> unit io_reply \<times> 'w"
  tr_tools :: "'w \<Rightarrow> pystr list option io_reply \<times> 'w"
  tr_call :: "string \<Rightarrow> (pystr \<times> json) list \<Rightarrow> 'w \<Rightarrow> tool_response io_reply \<times> 'w"
  tr_session_exit :: "'w \<Rightarrow> unit io_reply \<times> 'w"
  tr_stdio_exit :: "'w \<Rightarrow> unit io_reply \<times> 'w"
  tr_stderr :: "'w \<Rightarrow> nat list list \<times> 'w"
  tr_result :: "'w \<Rightarrow> json option \<times> 'w"
  tr_unlink :: "'w \<Rightarrow> 'w"
  tr_shown :: "nat list \<Rightarrow> pystr"
  tr_parse :: "pystr \<Rightarrow> json option"

record mcp_client =
  mc_preflight :: bool
  mc_result_file :: bool
  mc_active :: bool
  mc_stdio :: bool
  mc_session_context :: bool
  mc_session :: bool
  mc_schema :: "schema_tables option"
  mc_definitions :: "(pystr \<times> pystr) list option"
  mc_passed :: bool
  mc_code :: pystr
  mc_status :: pystr
  mc_summary :: "stderr_summary option"
  mc_capture :: bool

definition new_mcp_client :: "rat \<Rightarrow> bool \<Rightarrow> bool \<Rightarrow> string + mcp_client" where
  "new_mcp_client timeout preflight result_file =
     (if timeout \<le> 0 then Inl ''timeout_seconds must be positive''
      else Inr \<lparr>mc_preflight = preflight, mc_result_file = result_file, mc_active = False, mc_stdio = False,
        mc_session_context = False, mc_session = False, mc_schema = None, mc_definitions = None, mc_passed = False,
        mc_code = lit ''mysql_preflight_failed'', mc_status = lit ''not_started'', mc_summary = None, mc_capture = False\<rparr>)"

definition child_stderr_summary :: "mcp_client \<Rightarrow> stderr_summary" where
  "child_stderr_summary c = (case mc_summary c of None \<Rightarrow> empty_stderr_summary | Some s \<Rightarrow> s)"

subsection \<open>Opening and closing\<close>

definition remove_result :: "'w mcp_transport \<Rightarrow> mcp_client \<Rightarrow> 'w \<Rightarrow> 'w" where
  "remove_result T c w = (if mc_result_file c then tr_unlink T w else w)"

text \<open>Closing one context: an expected error is swallowed, anything else is raised.\<close>

definition close_context :: "unit io_reply \<Rightarrow> unit client_reply" where
  "close_context r = (case r of IoRaised \<Rightarrow> ClientRaised | IoCancelled \<Rightarrow> ClientCancelled | _ \<Rightarrow> Got ())"

definition close_captured :: "'w mcp_transport \<Rightarrow> mcp_client \<Rightarrow> 'w \<Rightarrow> mcp_client \<times> 'w" where
  "close_captured T c w =
     (case (if mc_capture c then (case tr_stderr T w of (chunks, w) \<Rightarrow>
          (c\<lparr>mc_summary := Some (close_capture (tr_shown T) (fold drain_chunk chunks (new_stderr_capture 8192))),
             mc_capture := False\<rparr>, w)) else (c, w)) of
        (c, w) \<Rightarrow> (c, if mc_passed c then remove_result T c w else w))"

definition close_contexts :: "'w mcp_transport \<Rightarrow> mcp_client \<Rightarrow> 'w \<Rightarrow> unit client_reply \<times> mcp_client \<times> 'w" where
  "close_contexts T c w =
     (let s = mc_session_context c; d = mc_stdio c;
          c = c\<lparr>mc_session := False, mc_session_context := False, mc_stdio := False, mc_schema := None, mc_definitions := None\<rparr>
      in case (if s then tr_session_exit T w else (IoOk (), w)) of (r, w) \<Rightarrow>
        (case close_context r of
           Got _ \<Rightarrow> (case (if d then tr_stdio_exit T w else (IoOk (), w)) of (r, w) \<Rightarrow>
             (case close_context r of
                Got _ \<Rightarrow> (case close_captured T c w of (c, w) \<Rightarrow> (Got (), c, w))
              | out \<Rightarrow> (out, c, w)))
         | out \<Rightarrow> (out, c, w)))"

definition mcp_exit :: "'w mcp_transport \<Rightarrow> mcp_client \<Rightarrow> 'w \<Rightarrow> unit client_reply \<times> mcp_client \<times> 'w" where
  "mcp_exit T c w = (case close_contexts T c w of (out, c, w) \<Rightarrow> (out, c\<lparr>mc_active := False\<rparr>, w))"

definition preflight_fields :: "string list" where
  "preflight_fields = [''status'', ''error_code'', ''connection_established'', ''readonly_ready'', ''sql_guard_ready'', ''shutdown'']"

text \<open>The result file of the child after at most twenty looks at it: its JSON value, if it ever had one.\<close>

definition read_preflight_result :: "'w mcp_transport \<Rightarrow> mcp_client \<Rightarrow> 'w \<Rightarrow> mcp_client \<times> 'w" where
  "read_preflight_result T c w =
     (if \<not> mc_result_file c then (c, w)
      else (case tr_result T w of (payload, w) \<Rightarrow>
        (let failed = c\<lparr>mc_status := lit ''mysql_preflight_protocol_failed''\<rparr>; w = remove_result T c w in
         (case payload of
            Some (JObj fs) \<Rightarrow> if \<not> keys_are fs preflight_fields then (failed, w)
              else (case jget fs ''error_code'' of
                  JStr code \<Rightarrow> (c\<lparr>mc_status := code, mc_code := code\<rparr>, w)
                | _ \<Rightarrow> (failed, w))
          | _ \<Rightarrow> (failed, w)))))"

definition enter_error_code :: "'w mcp_transport \<Rightarrow> string \<Rightarrow> mcp_client \<Rightarrow> 'w \<Rightarrow> pystr \<times> mcp_client \<times> 'w" where
  "enter_error_code T fallback c w =
     (if \<not> mc_preflight c then (lit fallback, c, w)
      else (case read_preflight_result T c w of (c, w) \<Rightarrow>
        (let c = (case es_error (child_stderr_summary c) of
                Some code \<Rightarrow> if take 6 code = ''mysql_'' then c\<lparr>mc_code := lit code\<rparr> else c
              | None \<Rightarrow> c)
         in (mc_code c, c, w))))"

text \<open>
  Giving up while entering: everything opened is closed and the client is inactive; an exception of the closing replaces
  the outcome.
\<close>

definition abort_enter ::
  "'w mcp_transport \<Rightarrow> (mcp_client \<Rightarrow> 'w \<Rightarrow> unit client_reply \<times> mcp_client \<times> 'w) \<Rightarrow> mcp_client \<Rightarrow> 'w
     \<Rightarrow> unit client_reply \<times> mcp_client \<times> 'w" where
  "abort_enter T outcome c w = (case mcp_exit T c w of
       (Got _, c, w) \<Rightarrow> outcome c w
     | (out, c, w) \<Rightarrow> (out, c, w))"

definition enter_failed ::
  "'w mcp_transport \<Rightarrow> string \<Rightarrow> 'a io_reply \<Rightarrow> mcp_client \<Rightarrow> 'w \<Rightarrow> unit client_reply \<times> mcp_client \<times> 'w" where
  "enter_failed T fallback r c w = (case r of
       IoRaised \<Rightarrow> abort_enter T (\<lambda>c w. (ClientRaised, c, w)) c w
     | IoCancelled \<Rightarrow> abort_enter T (\<lambda>c w. (ClientCancelled, c, w)) c w
     | _ \<Rightarrow> abort_enter T (\<lambda>c w. case enter_error_code T fallback c w of (code, c, w) \<Rightarrow> (McpError code, c, w)) c w)"

definition required_tools :: "string list" where
  "required_tools = [''get_enterprise_schema'', ''get_business_definitions'', ''execute_safe_query'']"

definition enter_with_tools :: "'w mcp_transport \<Rightarrow> pystr list option \<Rightarrow> mcp_client \<Rightarrow> 'w \<Rightarrow> unit client_reply \<times> mcp_client \<times> 'w" where
  "enter_with_tools T tools c w = (case tools of
       None \<Rightarrow> abort_enter T (\<lambda>c w. (McpError (lit ''mcp_initialization_failed''), c, w)) c w
     | Some names \<Rightarrow>
         if \<not> list_all (\<lambda>t. lit t \<in> set names) required_tools
         then abort_enter T (\<lambda>c w. (McpError (lit ''mcp_required_tool_missing''), c, w)) c w
         else (Got (), c\<lparr>mc_passed := mc_preflight c, mc_code := lit ''none'', mc_status := lit ''mysql_preflight_passed''\<rparr>, w))"

text \<open>The pipe of the capture is made outside every handler.\<close>

definition mcp_enter :: "'w mcp_transport \<Rightarrow> mcp_client \<Rightarrow> 'w \<Rightarrow> unit client_reply \<times> mcp_client \<times> 'w" where
  "mcp_enter T c w =
     (if mc_active c then (McpError (lit ''mcp_client_already_active''), c, w)
      else (case tr_pipe T w of
          (False, w) \<Rightarrow> (ClientRaised, c\<lparr>mc_active := True\<rparr>, w)
        | (True, w) \<Rightarrow>
          (let c = c\<lparr>mc_active := True, mc_capture := True, mc_stdio := True\<rparr> in
           case tr_stdio T w of
             (IoOk _, w) \<Rightarrow>
               (case tr_session T w of
                  (IoOk _, w) \<Rightarrow>
                    (let c = c\<lparr>mc_session_context := True, mc_session := True\<rparr> in
                     case tr_initialize T w of
                       (IoOk _, w) \<Rightarrow>
                         (case tr_tools T w of
                            (IoOk tools, w) \<Rightarrow> enter_with_tools T tools c w
                          | (r, w) \<Rightarrow> enter_failed T ''mcp_initialization_failed'' r c w)
                     | (r, w) \<Rightarrow> enter_failed T ''mcp_initialization_failed'' r c w)
                | (r, w) \<Rightarrow> enter_failed T ''mcp_initialization_failed'' r (c\<lparr>mc_session_context := True\<rparr>) w)
           | (r, w) \<Rightarrow> enter_failed T ''mcp_server_unavailable'' r c w)))"

subsection \<open>Tool calls\<close>

definition response_payload :: "'w mcp_transport \<Rightarrow> tool_response \<Rightarrow> ((pystr \<times> json) list) client_reply" where
  "response_payload T r =
     (if tp_error r then McpError (lit ''mcp_tool_call_failed'')
      else (case tp_structured r of
          Some fs \<Rightarrow> Got fs
        | None \<Rightarrow> (case tp_content r of
            [Some text] \<Rightarrow> (case tr_parse T text of Some (JObj fs) \<Rightarrow> Got fs | _ \<Rightarrow> McpError (lit ''mcp_response_invalid''))
          | _ \<Rightarrow> McpError (lit ''mcp_response_invalid''))))"

definition call_payload ::
  "'w mcp_transport \<Rightarrow> string \<Rightarrow> (pystr \<times> json) list \<Rightarrow> mcp_client \<Rightarrow> 'w \<Rightarrow> ((pystr \<times> json) list) client_reply \<times> 'w" where
  "call_payload T tool arguments c w =
     (if \<not> mc_session c then (McpError (lit ''mcp_initialization_failed''), w)
      else (case tr_call T tool arguments w of
          (IoOk r, w) \<Rightarrow> (response_payload T r, w)
        | (IoTimeout, w) \<Rightarrow> (McpError (lit ''mcp_tool_timeout''), w)
        | (IoTransport, w) \<Rightarrow> (McpError (lit ''mcp_tool_call_failed''), w)
        | (IoRaised, w) \<Rightarrow> (ClientRaised, w)
        | (IoCancelled, w) \<Rightarrow> (ClientCancelled, w)))"

text \<open>The fields of the response contracts; pydantic converts numbers and truth values from other types.\<close>

record field_words =
  fw_int :: "pystr \<Rightarrow> int option"
  fw_bool :: "pystr \<Rightarrow> bool option"
  fw_float :: "pystr \<Rightarrow> rat option"

definition read_str :: "json \<Rightarrow> pystr option" where
  "read_str v = (case v of JStr s \<Rightarrow> Some s | _ \<Rightarrow> None)"

definition read_opt_str :: "json \<Rightarrow> pystr option option" where
  "read_opt_str v = (case v of JNull \<Rightarrow> Some None | JStr s \<Rightarrow> Some (Some s) | _ \<Rightarrow> None)"

definition read_int :: "field_words \<Rightarrow> json \<Rightarrow> int option" where
  "read_int F v = (case v of JInt n \<Rightarrow> Some n | JBool b \<Rightarrow> Some (if b then 1 else 0)
     | JReal r \<Rightarrow> if r = of_int \<lfloor>r\<rfloor> then Some \<lfloor>r\<rfloor> else None | JStr s \<Rightarrow> fw_int F s | _ \<Rightarrow> None)"

definition read_bool :: "field_words \<Rightarrow> json \<Rightarrow> bool option" where
  "read_bool F v = (case v of JBool b \<Rightarrow> Some b
     | JInt n \<Rightarrow> if n = 1 then Some True else if n = 0 then Some False else None
     | JReal r \<Rightarrow> if r = 1 then Some True else if r = 0 then Some False else None | JStr s \<Rightarrow> fw_bool F s | _ \<Rightarrow> None)"

definition read_float :: "field_words \<Rightarrow> json \<Rightarrow> rat option" where
  "read_float F v = (case v of JReal r \<Rightarrow> Some r | JInt n \<Rightarrow> Some (of_int n) | JBool b \<Rightarrow> Some (if b then 1 else 0)
     | JStr s \<Rightarrow> fw_float F s | _ \<Rightarrow> None)"

definition read_all :: "('a \<Rightarrow> 'b option) \<Rightarrow> 'a list \<Rightarrow> 'b list option" where
  "read_all f xs = (if list_all (\<lambda>x. f x \<noteq> None) xs then Some (map (the \<circ> f) xs) else None)"

definition read_list :: "(json \<Rightarrow> 'a option) \<Rightarrow> json \<Rightarrow> 'a list option" where
  "read_list f v = (case v of JList vs \<Rightarrow> read_all f vs | _ \<Rightarrow> None)"

definition read_dict :: "(json \<Rightarrow> 'a option) \<Rightarrow> (pystr \<times> json) list \<Rightarrow> (pystr \<times> 'a) list option" where
  "read_dict f fs = (if fs = [] then None else read_all (\<lambda>(k, v). map_option (Pair k) (f v)) fs)"

definition read_schema :: "(pystr \<times> json) list \<Rightarrow> schema_tables option" where
  "read_schema fs = read_dict (read_list read_str) fs"

definition read_definitions :: "(pystr \<times> json) list \<Rightarrow> (pystr \<times> pystr) list option" where
  "read_definitions fs = read_dict read_str fs"

definition result_fields :: "string list" where
  "result_fields = [''columns'', ''rows'', ''row_count'', ''truncated'', ''normalized_sql'', ''accessed_tables'', ''elapsed_ms'',
     ''error_code'']"

definition field_or :: "(pystr \<times> json) list \<Rightarrow> string \<Rightarrow> json \<Rightarrow> json" where
  "field_or fs name missing = (case map_of fs (lit name) of None \<Rightarrow> missing | Some v \<Rightarrow> v)"

definition read_result :: "field_words \<Rightarrow> (pystr \<times> json) list \<Rightarrow> mcp_result option" where
  "read_result F fs =
     (if \<not> fst ` set fs \<subseteq> lit ` set result_fields then None
      else Option.bind (read_list read_str (field_or fs ''columns'' (JList []))) (\<lambda>columns.
       Option.bind (read_list (read_list Some) (field_or fs ''rows'' (JList []))) (\<lambda>rows.
       Option.bind (Option.bind (map_of fs (lit ''row_count'')) (read_int F)) (\<lambda>count.
       Option.bind (Option.bind (map_of fs (lit ''truncated'')) (read_bool F)) (\<lambda>truncated.
       Option.bind (read_opt_str (field_or fs ''normalized_sql'' JNull)) (\<lambda>sql.
       Option.bind (read_list read_str (field_or fs ''accessed_tables'' (JList []))) (\<lambda>tables.
       Option.bind (Option.bind (map_of fs (lit ''elapsed_ms'')) (read_float F)) (\<lambda>elapsed.
       Option.bind (read_opt_str (field_or fs ''error_code'' JNull)) (\<lambda>err.
         if count < 0 \<or> elapsed < 0 then None
         else Some \<lparr>mq_columns = columns, mq_rows = rows, mq_count = count, mq_truncated = truncated, mq_sql = sql,
           mq_tables = tables, mq_elapsed = elapsed, mq_error = err\<rparr>)))))))))"

definition validated :: "('p \<Rightarrow> 'a option) \<Rightarrow> 'p client_reply \<Rightarrow> 'a client_reply" where
  "validated f r = (case r of
       Got p \<Rightarrow> (case f p of None \<Rightarrow> McpError (lit ''mcp_response_invalid'') | Some a \<Rightarrow> Got a)
     | McpError code \<Rightarrow> McpError code | ClientRaised \<Rightarrow> ClientRaised | ClientCancelled \<Rightarrow> ClientCancelled)"

definition mcp_schema :: "'w mcp_transport \<Rightarrow> mcp_client \<Rightarrow> 'w \<Rightarrow> schema_tables client_reply \<times> mcp_client \<times> 'w" where
  "mcp_schema T c w = (case mc_schema c of
       Some tables \<Rightarrow> (Got tables, c, w)
     | None \<Rightarrow> (case call_payload T ''get_enterprise_schema'' [] c w of (r, w) \<Rightarrow>
         (case validated read_schema r of
            Got tables \<Rightarrow> (Got tables, c\<lparr>mc_schema := Some tables\<rparr>, w)
          | out \<Rightarrow> (out, c, w))))"

definition mcp_definitions ::
  "'w mcp_transport \<Rightarrow> mcp_client \<Rightarrow> 'w \<Rightarrow> ((pystr \<times> pystr) list) client_reply \<times> mcp_client \<times> 'w" where
  "mcp_definitions T c w = (case mc_definitions c of
       Some ds \<Rightarrow> (Got ds, c, w)
     | None \<Rightarrow> (case call_payload T ''get_business_definitions'' [] c w of (r, w) \<Rightarrow>
         (case validated read_definitions r of
            Got ds \<Rightarrow> (Got ds, c\<lparr>mc_definitions := Some ds\<rparr>, w)
          | out \<Rightarrow> (out, c, w))))"

definition mcp_query ::
  "field_words \<Rightarrow> 'w mcp_transport \<Rightarrow> pystr \<Rightarrow> mcp_client \<Rightarrow> 'w \<Rightarrow> mcp_result client_reply \<times> mcp_client \<times> 'w" where
  "mcp_query F T sql c w = (case call_payload T ''execute_safe_query'' [(lit ''sql'', JStr sql)] c w of
     (r, w) \<Rightarrow> (validated (read_result F) r, c, w))"

text \<open>The client as the data agent uses it.\<close>

definition on_client :: "(mcp_client \<Rightarrow> 'w \<Rightarrow> 'a \<times> mcp_client \<times> 'w) \<Rightarrow> 'w \<times> mcp_client \<Rightarrow> 'a \<times> 'w \<times> mcp_client" where
  "on_client f wc = (case wc of (w, c) \<Rightarrow> (case f c w of (r, c, w) \<Rightarrow> (r, w, c)))"

definition mcp_data_client :: "field_words \<Rightarrow> 'w mcp_transport \<Rightarrow> ('w \<times> mcp_client) data_client" where
  "mcp_data_client F T = \<lparr>dc_open = on_client (mcp_enter T), dc_close = on_client (mcp_exit T),
     dc_schema = on_client (mcp_schema T), dc_definitions = on_client (mcp_definitions T),
     dc_query = (\<lambda>sql. on_client (mcp_query F T sql))\<rparr>"

subsection \<open>The payload the server sends\<close>

definition result_payload :: "mcp_result \<Rightarrow> (pystr \<times> json) list" where
  "result_payload r = [(lit ''columns'', JList (map JStr (mq_columns r))), (lit ''rows'', JList (map JList (mq_rows r))),
     (lit ''row_count'', JInt (mq_count r)), (lit ''truncated'', JBool (mq_truncated r)),
     (lit ''normalized_sql'', opt_json (mq_sql r)), (lit ''accessed_tables'', JList (map JStr (mq_tables r))),
     (lit ''elapsed_ms'', JReal (mq_elapsed r)), (lit ''error_code'', opt_json (mq_error r))]"

definition schema_payload :: "schema_tables \<Rightarrow> (pystr \<times> json) list" where
  "schema_payload tables = map (\<lambda>(t, cs). (t, JList (map JStr cs))) tables"

definition definitions_payload :: "(pystr \<times> pystr) list \<Rightarrow> (pystr \<times> json) list" where
  "definitions_payload ds = map (\<lambda>(k, v). (k, JStr v)) ds"

text \<open>\<^verbatim>\<open>data/business_definitions.py\<close>, which the server sends as it is.\<close>

definition business_definitions :: "(pystr \<times> pystr) list" where
  "business_definitions = [
    (lit ''effective_sales'', [26377, 25928, 38144, 21806, 35746, 21333, 29366, 24577, 20026] @ lit ''
      confirmed'' @ [12289] @ lit ''shipped'' @ [12289] @ lit ''completed; cancelled '' @ [19981, 35745, 20837,
      12290, 38144, 21806, 39069, 20026] @ lit '' sales_order_items.quantity * unit_price'' @ [12290]),
    (lit ''effective_purchase_amount'', [26377, 25928, 37319, 36141, 35746, 21333, 29366, 24577, 20026] @ lit ''
      ordered'' @ [12289] @ lit ''partially_delivered'' @ [12289] @ lit ''delivered; cancelled '' @ [19981,
      35745, 20837, 12290, 37319, 36141, 37329, 39069, 20026] @ lit '' quantity * unit_cost'' @ [12290]),
    (lit ''current_inventory'', [24403, 21069, 24211, 23384, 25353, 27599, 20010, 20135, 21697, 21508, 33258] @
      lit '' inventory_snapshots.snapshot_date '' @ [30340, 26368, 22823, 20540, 36873, 25321] @ lit ''; '' @
      [24211, 23384, 39118, 38505, 20165, 22312] @ lit '' on_hand_quantity < safety_stock '' @ [26102, 25104,
      31435, 12290]),
    (lit ''on_time_delivery_rate'', [20934, 26102, 20132, 20184, 29575, 21482, 32479, 35745] @ lit '' status ''
      @ [20026] @ lit '' delivered '' @ [19988] @ lit '' actual_delivery_date '' @ [38750, 31354, 30340, 37319,
      36141, 35746, 21333] @ lit ''; actual_delivery_date <= promised_delivery_date '' @ [20026, 20934, 26102] @
      lit ''; '' @ [38646, 20132, 20184, 26679, 26412, 20026] @ lit '' NULL, '' @ [19981, 26159] @ lit '' 0%'' @
      [12290]),
    (lit ''not_delivered'', [26410, 20132, 20184, 20026] @ lit '' status '' @ [23646, 20110] @ lit '' ordered ''
      @ [25110] @ lit '' partially_delivered '' @ [19988] @ lit '' actual_delivery_date '' @ [20026] @ lit ''
      NULL'' @ [12290]),
    (lit ''natural_month'', [33258, 28982, 26376, 21306, 38388, 20026, 21547, 36215, 22987, 26085, 12289, 19981,
      21547, 19979, 19968, 26376, 36215, 22987, 26085] @ lit '', '' @ [19994, 21153, 26085, 26399, 20351, 29992]
      @ lit '' Asia/Shanghai '' @ [26085, 21382, 26085, 12290])]"

subsection \<open>Decoding\<close>

lemma read_all_map [simp]: "(\<And>x. f (g x) = Some x) \<Longrightarrow> read_all f (map g xs) = Some xs"
  by (simp add: read_all_def list_all_iff comp_def)

lemma read_all_Some [simp]: "read_all Some xs = Some xs"
  by (simp add: read_all_def list_all_iff comp_def)

lemma read_list_map [simp]: "(\<And>x. f (g x) = Some x) \<Longrightarrow> read_list f (JList (map g xs)) = Some xs"
  by (simp add: read_list_def)

lemma read_str_JStr [simp]: "read_str (JStr s) = Some s"
  by (simp add: read_str_def)

lemma read_rows [simp]: "read_list (read_list Some) (JList (map JList rows)) = Some rows"
  by (rule read_list_map) (simp add: read_list_def)

lemma read_opt_json [simp]: "read_opt_str (opt_json s) = Some s"
  by (cases s) (simp_all add: read_opt_str_def opt_json_def)

lemma result_roundtrip:
  "0 \<le> mq_count r \<Longrightarrow> 0 \<le> mq_elapsed r \<Longrightarrow> read_result F (result_payload r) = Some r"
  by (simp add: read_result_def result_payload_def result_fields_def field_or_def read_int_def read_bool_def read_float_def)

lemma schema_roundtrip: "tables \<noteq> [] \<Longrightarrow> read_schema (schema_payload tables) = Some tables"
  unfolding read_schema_def read_dict_def schema_payload_def by simp (intro read_all_map; auto)

lemma definitions_roundtrip: "ds \<noteq> [] \<Longrightarrow> read_definitions (definitions_payload ds) = Some ds"
  unfolding read_definitions_def read_dict_def definitions_payload_def by simp (intro read_all_map; auto)

subsection \<open>Standard error\<close>

text \<open>The capture keeps the first bytes up to its limit and counts all of them.\<close>

lemma drain_chunks:
  assumes "length (sc_captured c) \<le> sc_limit c"
  shows "sc_bytes (fold drain_chunk chunks c) = sc_bytes c + length (concat chunks)
    \<and> sc_captured (fold drain_chunk chunks c) = take (sc_limit c) (sc_captured c @ concat chunks)
    \<and> sc_truncated (fold drain_chunk chunks c) = (sc_truncated c \<or> sc_limit c < length (sc_captured c @ concat chunks))
    \<and> sc_limit (fold drain_chunk chunks c) = sc_limit c"
proof (induction chunks rule: rev_induct)
  case Nil
  with assms show ?case by simp
next
  case (snoc chunk chunks)
  with assms show ?case by (auto simp: drain_chunk_def Let_def min_def)
qed

subsection \<open>The life of a session\<close>

text \<open>A client is active between a successful entry and its exit; only then it has a session or cached answers.\<close>

definition client_ok :: "mcp_client \<Rightarrow> bool" where
  "client_ok c \<longleftrightarrow> (mc_session c \<longrightarrow> mc_active c \<and> mc_session_context c \<and> mc_stdio c)
     \<and> (mc_schema c \<noteq> None \<or> mc_definitions c \<noteq> None \<longrightarrow> mc_session c)
     \<and> (mc_session_context c \<or> mc_stdio c \<longrightarrow> mc_session c)"

definition disconnected :: "mcp_client \<Rightarrow> bool" where
  "disconnected c \<longleftrightarrow> \<not> mc_session c \<and> \<not> mc_session_context c \<and> \<not> mc_stdio c \<and> mc_schema c = None \<and> mc_definitions c = None"

lemma disconnected_ok: "disconnected c \<Longrightarrow> client_ok c"
  by (simp add: disconnected_def client_ok_def)

definition inactive :: "mcp_client \<Rightarrow> bool" where
  "inactive c \<longleftrightarrow> disconnected c \<and> \<not> mc_active c"

lemma close_captured_frame: "disconnected (fst (close_captured T c w)) = disconnected c"
  by (auto simp: close_captured_def disconnected_def split: prod.splits)

lemma close_contexts_disconnects: "disconnected (fst (snd (close_contexts T c w)))"
proof -
  let ?c = "c\<lparr>mc_session := False, mc_session_context := False, mc_stdio := False, mc_schema := None, mc_definitions := None\<rparr>"
  obtain r1 w1 where 1: "(if mc_session_context c then tr_session_exit T w else (IoOk (), w)) = (r1, w1)" by force
  obtain r2 w2 where 2: "(if mc_stdio c then tr_stdio_exit T w1 else (IoOk (), w1)) = (r2, w2)" by force
  obtain d v where 3: "close_captured T ?c w2 = (d, v)" by force
  have "disconnected ?c" by (simp add: disconnected_def)
  with close_captured_frame [of T ?c w2] 3 show ?thesis
    by (cases "close_context r1"; cases "close_context r2") (simp_all add: close_contexts_def Let_def 1 2)
qed

lemma exit_inactive: "inactive (fst (snd (mcp_exit T c w)))"
  using close_contexts_disconnects [of T c w]
  by (auto simp: mcp_exit_def inactive_def disconnected_def split: prod.splits)

lemma abort_inactive:
  assumes "\<And>d v. inactive d \<Longrightarrow> inactive (fst (snd (outcome d v))) \<and> fst (outcome d v) \<noteq> Got ()"
  shows "inactive (fst (snd (abort_enter T outcome c w))) \<and> fst (abort_enter T outcome c w) \<noteq> Got ()"
  using exit_inactive [of T c w] assms by (auto simp: abort_enter_def split: prod.splits client_reply.splits)

lemma read_preflight_frame: "inactive (fst (read_preflight_result T c w)) = inactive c"
  by (simp add: read_preflight_result_def inactive_def disconnected_def Let_def split: prod.split option.split json.split)

lemma enter_error_code_frame: "inactive c \<Longrightarrow> inactive (fst (snd (enter_error_code T fallback c w)))"
  using read_preflight_frame [of T c w]
  by (auto simp: enter_error_code_def inactive_def disconnected_def Let_def split: prod.split option.split)

lemma enter_failed_inactive:
  "inactive (fst (snd (enter_failed T fallback x c w))) \<and> fst (enter_failed T fallback x c w) \<noteq> Got ()"
proof -
  have coded: "inactive (fst (snd (case enter_error_code T fallback d v of (code, c, w) \<Rightarrow> (McpError code, c, w))))
      \<and> fst (case enter_error_code T fallback d v of (code, c, w) \<Rightarrow> (McpError code, c, w)) \<noteq> Got ()" if "inactive d" for d v
    using enter_error_code_frame [OF that, of T fallback v] by (cases "enter_error_code T fallback d v") auto
  have code: "inactive (fst (snd (abort_enter T (\<lambda>c w. case enter_error_code T fallback c w of (code, c, w) \<Rightarrow> (McpError code, c, w)) c w)))
      \<and> fst (abort_enter T (\<lambda>c w. case enter_error_code T fallback c w of (code, c, w) \<Rightarrow> (McpError code, c, w)) c w) \<noteq> Got ()"
    by (rule abort_inactive) (erule coded)
  have other: "inactive (fst (snd (abort_enter T (\<lambda>c w. (out, c, w)) c w))) \<and> fst (abort_enter T (\<lambda>c w. (out, c, w)) c w) \<noteq> Got ()"
    if "out \<noteq> Got ()" for out
    by (rule abort_inactive) (use that in simp)
  show ?thesis using code other by (cases x) (simp_all add: enter_failed_def)
qed

text \<open>Entering either ends in an active session with the required tools, or leaves nothing open.\<close>

definition online :: "mcp_client \<Rightarrow> bool" where
  "online c \<longleftrightarrow> mc_active c \<and> mc_session c \<and> mc_session_context c \<and> mc_stdio c"

lemma enter_with_tools_cases:
  assumes "online c"
  shows "if fst (enter_with_tools T tools c w) = Got () then online (fst (snd (enter_with_tools T tools c w)))
    else inactive (fst (snd (enter_with_tools T tools c w)))"
proof -
  have other: "inactive (fst (snd (abort_enter T (\<lambda>c w. (out, c, w)) c w))) \<and> fst (abort_enter T (\<lambda>c w. (out, c, w)) c w) \<noteq> Got ()"
    if "out \<noteq> Got ()" for out
    by (rule abort_inactive) (use that in simp)
  show ?thesis using assms other by (auto simp: enter_with_tools_def online_def split: option.split)
qed

lemma enter_cases:
  assumes "\<not> mc_active c" and "fst (tr_pipe T w)"
  shows "if fst (mcp_enter T c w) = Got () then online (fst (snd (mcp_enter T c w))) else inactive (fst (snd (mcp_enter T c w)))"
proof -
  obtain w1 where 1: "tr_pipe T w = (True, w1)" using assms(2) by (cases "tr_pipe T w") auto
  obtain r2 w2 where 2: "tr_stdio T w1 = (r2, w2)" by force
  obtain r3 w3 where 3: "tr_session T w2 = (r3, w3)" by force
  obtain r4 w4 where 4: "tr_initialize T w3 = (r4, w4)" by force
  obtain r5 w5 where 5: "tr_tools T w4 = (r5, w5)" by force
  let ?c = "c\<lparr>mc_active := True, mc_capture := True, mc_stdio := True, mc_session_context := True, mc_session := True\<rparr>"
  have tools: "if fst (enter_with_tools T tools ?c w5) = Got () then online (fst (snd (enter_with_tools T tools ?c w5)))
      else inactive (fst (snd (enter_with_tools T tools ?c w5)))" for tools
    by (rule enter_with_tools_cases) (simp add: online_def)
  note step = mcp_enter_def 1 2 3 4 5 Let_def prod.case bool.case io_reply.case
  show ?thesis
  proof (cases r2)
    case ok2: (IoOk u)
    show ?thesis
    proof (cases r3)
      case ok3: (IoOk u)
      show ?thesis
      proof (cases r4)
        case ok4: (IoOk u)
        show ?thesis
          using assms(1) tools by (cases r5) (simp_all add: step ok2 ok3 ok4 enter_failed_inactive)
      qed (use assms(1) in \<open>simp_all add: step ok2 ok3 enter_failed_inactive\<close>)
    qed (use assms(1) in \<open>simp_all add: step ok2 enter_failed_inactive\<close>)
  qed (use assms(1) in \<open>simp_all add: step enter_failed_inactive\<close>)
qed

text \<open>Every state a client can reach, whatever the transport replies.\<close>

inductive client_run :: "field_words \<Rightarrow> 'w mcp_transport \<Rightarrow> mcp_client \<Rightarrow> bool" for F T where
  Made: "new_mcp_client timeout preflight result_file = Inr c \<Longrightarrow> client_run F T c"
| Entered: "client_run F T c \<Longrightarrow> client_run F T (fst (snd (mcp_enter T c w)))"
| Exited: "client_run F T c \<Longrightarrow> client_run F T (fst (snd (mcp_exit T c w)))"
| Schema: "client_run F T c \<Longrightarrow> client_run F T (fst (snd (mcp_schema T c w)))"
| Definitions: "client_run F T c \<Longrightarrow> client_run F T (fst (snd (mcp_definitions T c w)))"
| Queried: "client_run F T c \<Longrightarrow> client_run F T (fst (snd (mcp_query F T sql c w)))"

lemma call_disconnected: "disconnected c \<Longrightarrow> call_payload T tool arguments c w = (McpError (lit ''mcp_initialization_failed''), w)"
  by (simp add: call_payload_def disconnected_def)

lemma calls_disconnected:
  assumes "disconnected c"
  shows "mcp_schema T c w = (McpError (lit ''mcp_initialization_failed''), c, w)"
    and "mcp_definitions T c w = (McpError (lit ''mcp_initialization_failed''), c, w)"
    and "mcp_query F T sql c w = (McpError (lit ''mcp_initialization_failed''), c, w)"
proof -
  from assms have "mc_schema c = None" "mc_definitions c = None" by (simp_all add: disconnected_def)
  with assms show "mcp_schema T c w = (McpError (lit ''mcp_initialization_failed''), c, w)"
    and "mcp_definitions T c w = (McpError (lit ''mcp_initialization_failed''), c, w)"
    and "mcp_query F T sql c w = (McpError (lit ''mcp_initialization_failed''), c, w)"
    by (simp_all add: mcp_schema_def mcp_definitions_def mcp_query_def validated_def call_disconnected)
qed

lemma calls_connected:
  assumes "online c"
  shows "online (fst (snd (mcp_schema T c w)))" and "online (fst (snd (mcp_definitions T c w)))"
    and "online (fst (snd (mcp_query F T sql c w)))"
  using assms
  by (auto simp: mcp_schema_def mcp_definitions_def mcp_query_def online_def split: option.splits prod.splits client_reply.splits)

lemma client_run_cases: "client_run F T c \<Longrightarrow> online c \<or> disconnected c"
proof (induction rule: client_run.induct)
  case (Made timeout preflight result_file c)
  then show ?case by (auto simp: new_mcp_client_def disconnected_def split: if_splits)
next
  case (Entered c w)
  show ?case
  proof (cases "mc_active c")
    case True
    with Entered.IH show ?thesis by (simp add: mcp_enter_def)
  next
    case False
    show ?thesis
    proof (cases "fst (tr_pipe T w)")
      case True
      from enter_cases [OF False this] show ?thesis by (auto simp: inactive_def split: if_splits)
    next
      case nopipe: False
      from Entered.IH False have "disconnected c" by (simp add: online_def)
      with nopipe False show ?thesis by (cases "tr_pipe T w") (auto simp: mcp_enter_def disconnected_def)
    qed
  qed
next
  case (Exited c w)
  from exit_inactive [of T c w] show ?case by (simp add: inactive_def)
next
  case (Schema c w)
  then show ?case using calls_connected(1) calls_disconnected(1) by (metis fst_conv snd_conv)
next
  case (Definitions c w)
  then show ?case using calls_connected(2) calls_disconnected(2) by (metis fst_conv snd_conv)
next
  case (Queried c sql w)
  then show ?case using calls_connected(3) calls_disconnected(3) by (metis fst_conv snd_conv)
qed

text \<open>A schema that was received is answered again without a call, and is gone after the exit.\<close>

lemma schema_cached: "mcp_schema T c w = (Got tables, c', w') \<Longrightarrow> mcp_schema T c' v = (Got tables, c', v)"
  by (auto simp: mcp_schema_def split: option.splits prod.splits client_reply.splits)

text \<open>
  The life of a client session, after any sequence of operations and whatever the transport replies: the client either
  has an open session or holds nothing of one, no cached answer included; entering an inactive client ends with an open
  session or closes everything it had opened; the exit always leaves it without a session; without a session every call is
  refused and nothing is sent; and a schema that was received is answered again without another call.
\<close>

theorem mcp_session_confined:
  assumes "client_run F T c"
  shows "(online c \<or> disconnected c)
    \<and> (\<not> mc_active c \<longrightarrow> fst (tr_pipe T w) \<longrightarrow>
        (if fst (mcp_enter T c w) = Got () then online (fst (snd (mcp_enter T c w))) else inactive (fst (snd (mcp_enter T c w)))))
    \<and> inactive (fst (snd (mcp_exit T c w)))
    \<and> (disconnected c \<longrightarrow> mcp_schema T c w = (McpError (lit ''mcp_initialization_failed''), c, w)
        \<and> mcp_definitions T c w = (McpError (lit ''mcp_initialization_failed''), c, w)
        \<and> mcp_query F T sql c w = (McpError (lit ''mcp_initialization_failed''), c, w))
    \<and> (mcp_schema T c w = (Got tables, c', w') \<longrightarrow> mcp_schema T c' v = (Got tables, c', v))"
proof (intro conjI impI)
  show "online c \<or> disconnected c" by (rule client_run_cases [OF assms])
  show "inactive (fst (snd (mcp_exit T c w)))" by (rule exit_inactive)
qed (rule enter_cases calls_disconnected schema_cached, assumption+)+

subsection \<open>The client over the server\<close>

text \<open>A transport that carries the tool of the server: a raised exception comes back as an error result.\<close>

definition served :: "mcp_result flow_result \<times> 'e \<times> 'w \<Rightarrow> tool_response io_reply \<times> 'w" where
  "served out = (case out of
       (Finished r, _, w) \<Rightarrow> (IoOk \<lparr>tp_error = False, tp_structured = Some (result_payload r), tp_content = []\<rparr>, w)
     | (FlowThrew, _, w) \<Rightarrow> (IoOk \<lparr>tp_error = True, tp_structured = None, tp_content = []\<rparr>, w)
     | (FlowCancelled, _, w) \<Rightarrow> (IoCancelled, w))"

definition serves ::
  "(pystr \<Rightarrow> pystr) \<Rightarrow> (pystr \<Rightarrow> pystr) \<Rightarrow> (pystr \<Rightarrow> parse_outcome) \<Rightarrow> 'w query_service \<Rightarrow> pystr \<Rightarrow> 'w mcp_transport \<Rightarrow> bool" where
  "serves lowered uppered parse S rid T \<longleftrightarrow> (\<forall>sql w. tr_call T ''execute_safe_query'' [(lit ''sql'', JStr sql)] w
     = served (server_query lowered uppered parse (Some S) rid sql w))"

lemma server_query_guarded:
  assumes "server_query lowered uppered parse (Some S) rid sql w = (Finished r, ev, w')"
  shows "0 \<le> mq_count r \<and> (if mq_error r = None
     then \<exists>d st ss. ev = [(or_empty (gn_sql d), sv_millis S)] \<and> parse sql = Parsed ss \<and> [s. Some s \<leftarrow> ss] = [st]
        \<and> admitted lowered uppered (sv_guard S) st d \<and> mq_tables r = gn_tables d \<and> mq_sql r = gn_sql d
        \<and> mq_count r = int (length (mq_rows r)) \<and> mq_count r \<le> sv_rows S
     else mq_rows r = [] \<and> mq_count r = 0)"
proof -
  from assms obtain q where q: "service_execute lowered uppered parse S rid sql w = (Finished q, ev, w')"
    and r: "mq_count r = qr_count q" "mq_error r = map_option lit (qr_error q)" "mq_tables r = qr_tables q"
      "mq_sql r = qa_sql (qr_audit q)" "mq_rows r = qr_rows q"
    by (auto simp: server_query_def split: if_splits prod.splits flow_result.splits)
  from service_execute_guarded [OF q] show ?thesis
    by (cases "qr_error q") (auto simp: r reply_within_def reply_refused_def)
qed

text \<open>
  What a query through the client brings: a result that the client returns is exactly the result the server computed, with
  the same effect on the database. Without an error it comes from one guarded statement over tables of the allowlist,
  within the row limit; with an error it has no rows.
\<close>

theorem mcp_query_guarded:
  assumes "serves lowered uppered parse S rid T" and "\<forall>v. 0 \<le> sv_elapsed S v"
    and "mcp_query F T sql c w = (Got r, c', w')"
  shows "c' = c \<and> (\<exists>ev. server_query lowered uppered parse (Some S) rid sql w = (Finished r, ev, w')
    \<and> (if mq_error r = None
       then \<exists>d st ss. ev = [(or_empty (gn_sql d), sv_millis S)] \<and> parse sql = Parsed ss \<and> [s. Some s \<leftarrow> ss] = [st]
          \<and> admitted lowered uppered (sv_guard S) st d \<and> mq_tables r = gn_tables d
          \<and> set (mq_tables r) \<subseteq> fst ` set (gd_tables (sv_guard S))
          \<and> mq_count r = int (length (mq_rows r)) \<and> mq_count r \<le> sv_rows S
       else mq_rows r = [] \<and> mq_count r = 0))"
proof -
  have session: "mc_session c" and c: "c' = c"
    using assms(3) by (auto simp: mcp_query_def call_payload_def validated_def split: if_splits prod.splits)
  obtain out ev v where out: "server_query lowered uppered parse (Some S) rid sql w = (out, ev, v)"
    by (cases "server_query lowered uppered parse (Some S) rid sql w") auto
  have run: "mcp_query F T sql c w = (case served (out, ev, v) of (x, w) \<Rightarrow> (validated (read_result F) (case x of
      IoOk r \<Rightarrow> response_payload T r | IoTimeout \<Rightarrow> McpError (lit ''mcp_tool_timeout'')
    | IoTransport \<Rightarrow> McpError (lit ''mcp_tool_call_failed'') | IoRaised \<Rightarrow> ClientRaised | IoCancelled \<Rightarrow> ClientCancelled), c, w))"
    using assms(1) session out by (auto simp: mcp_query_def call_payload_def serves_def split: prod.splits io_reply.splits)
  then obtain q where q: "out = Finished q"
    using assms(3) by (cases out) (auto simp: served_def validated_def response_payload_def)
  note guarded = server_query_guarded [OF out [unfolded q]]
  have "0 \<le> mq_elapsed q"
    using out q assms(2)
    by (auto simp: server_query_def service_execute_def fetched_reply_def query_failure_def Let_def
        split: if_splits prod.splits flow_result.splits option.splits exec_outcome.splits)
  with guarded run q assms(3) have r: "r = q" and v: "w' = v"
    by (auto simp: served_def response_payload_def validated_def result_roundtrip)
  have "set (gn_tables d) \<subseteq> fst ` set (gd_tables (sv_guard S))" if "admitted lowered uppered (sv_guard S) st d" for st d
    using that by (simp add: admitted_def Let_def)
  with guarded out q r v c show ?thesis by (cases "mq_error r") fastforce+
qed

subsection \<open>The data agent over the client\<close>

definition allowlisted :: "'w query_service \<Rightarrow> pystr \<Rightarrow> bool" where
  "allowlisted S t \<longleftrightarrow> t \<in> fst ` set (gd_tables (sv_guard S))"

text \<open>The contract of a data client carries over to the clients the agent puts around it.\<close>

lemma plain_permits:
  assumes "permitting_client c permitted"
  shows "permitting_client (plain_client c) permitted"
proof
  fix sql wx r wx'
  assume "dc_query (plain_client c) sql wx = (Got r, wx')" and none: "mq_error r = None"
  then obtain w w' where "dc_query c sql w = (Got r, w')" by (auto simp: plain_client_def lift_world_def split: prod.splits)
  with permitting_client.permits [OF assms] none show "\<forall>t \<in> set (mq_tables r). permitted t" by blast
qed

lemma mcp_client_permits:
  assumes "serves lowered uppered parse S rid T" and "\<forall>v. 0 \<le> sv_elapsed S v"
  shows "permitting_client (mcp_data_client F T) (allowlisted S)"
proof
  fix sql wc r wc'
  assume run: "dc_query (mcp_data_client F T) sql wc = (Got r, wc')" and none: "mq_error r = None"
  obtain w c where wc: "wc = (w, c)" by force
  from run wc obtain c' w' where "mcp_query F T sql c w = (Got r, c', w')"
    by (auto simp: mcp_data_client_def on_client_def split: prod.splits)
  from mcp_query_guarded [OF assms this] none show "\<forall>t \<in> set (mq_tables r). allowlisted S t"
    by (auto simp: allowlisted_def)
qed

lemma scoped_permits_both:
  assumes "permitting_client c permitted"
  shows "permitting_client (scoped_client casefold references sc c) (\<lambda>t. permits_table casefold sc t \<and> permitted t)"
proof
  fix sql wt r wt'
  assume run: "dc_query (scoped_client casefold references sc c) sql wt = (Got r, wt')" and none: "mq_error r = None"
  then have scoped: "\<forall>t \<in> set (mq_tables r). permits_table casefold sc t"
    by (auto simp: scoped_client_def dest: scoped_query_permits)
  obtain w seen where wt: "wt = (w, seen)" by force
  from run none wt obtain q w' where "dc_query c sql w = (Got q, w')" "r = q"
    by (auto simp: scoped_client_def scoped_query_def scope_violation_def split: if_splits prod.splits client_reply.splits)
  with permitting_client.permits [OF assms] none scoped show "\<forall>t \<in> set (mq_tables r). permits_table casefold sc t \<and> permitted t"
    by blast
qed


text \<open>A pipe that cannot be made locks the client: it stays active without a session, and no entry is possible any more.\<close>

lemma pipe_failure_locks_client:
  assumes "\<not> mc_active c" and "tr_pipe T w = (False, w')" and "mcp_enter T c w = (r, c', w'')"
  shows "r = ClientRaised \<and> (\<forall>v. mcp_enter T c' v = (McpError (lit ''mcp_client_already_active''), c', v))"
  using assms by (auto simp: mcp_enter_def)

text \<open>A cancelled exit of the session context leaves the child process running and its pipe open.\<close>

lemma cancelled_exit_keeps_child:
  assumes "online c" and "tr_session_exit T w = (IoCancelled, w')"
  shows "mcp_exit T c w = (ClientCancelled, c\<lparr>mc_session := False, mc_session_context := False, mc_stdio := False,
    mc_schema := None, mc_definitions := None, mc_active := False\<rparr>, w')"
  using assms by (simp add: mcp_exit_def close_contexts_def close_context_def online_def Let_def)

subsection \<open>A session\<close>

definition demo_words :: field_words where
  "demo_words = \<lparr>fw_int = (\<lambda>_. None), fw_bool = (\<lambda>_. None), fw_float = (\<lambda>_. None)\<rparr>"

definition demo_transport :: "unit mcp_transport" where
  "demo_transport = \<lparr>tr_pipe = (\<lambda>w. (True, w)), tr_stdio = (\<lambda>w. (IoOk (), w)), tr_session = (\<lambda>w. (IoOk (), w)),
     tr_initialize = (\<lambda>w. (IoOk (), w)), tr_tools = (\<lambda>w. (IoOk (Some (map lit required_tools)), w)),
     tr_call = (\<lambda>tool arguments w. if tool = ''execute_safe_query''
       then (case arguments of [(_, JStr sql)] \<Rightarrow> served (server_query id id (\<lambda>_. Parsed [Some demo_statement]) (Some demo_service) [] sql w)
             | _ \<Rightarrow> (IoRaised, w))
       else if tool = ''get_enterprise_schema''
       then (IoOk \<lparr>tp_error = False, tp_structured = Some (schema_payload [([116], [[99]])]), tp_content = []\<rparr>, w)
       else (IoOk \<lparr>tp_error = False, tp_structured = Some (definitions_payload [([97], [98])]), tp_content = []\<rparr>, w)),
     tr_session_exit = (\<lambda>w. (IoOk (), w)), tr_stdio_exit = (\<lambda>w. (IoOk (), w)), tr_stderr = (\<lambda>w. ([], w)),
     tr_result = (\<lambda>w. (None, w)), tr_unlink = id, tr_shown = id, tr_parse = (\<lambda>_. None)\<rparr>"

definition demo_mcp :: mcp_client where
  "demo_mcp = projr (new_mcp_client 10 False False)"

lemma demo_mcp_run: "client_run demo_words demo_transport demo_mcp" and demo_mcp_inactive: "\<not> mc_active demo_mcp"
  using client_run.Made [of 10 False False demo_mcp demo_words demo_transport]
  by (simp_all add: demo_mcp_def new_mcp_client_def)

lemma demo_entered: "fst (mcp_enter demo_transport demo_mcp ()) = Got ()"
  using demo_mcp_inactive
  by (simp add: mcp_enter_def demo_transport_def enter_with_tools_def required_tools_def Let_def)

theorem mcp_session_confined_witness:
  "client_run demo_words demo_transport demo_mcp \<and> online (fst (snd (mcp_enter demo_transport demo_mcp ())))
     \<and> inactive (fst (snd (mcp_exit demo_transport demo_mcp ())))"
proof -
  have "fst (tr_pipe demo_transport ())" by (simp add: demo_transport_def)
  with mcp_session_confined [OF demo_mcp_run, of "()"] demo_mcp_inactive demo_entered demo_mcp_run show ?thesis by simp
qed

lemma demo_serves: "serves id id (\<lambda>_. Parsed [Some demo_statement]) demo_service [] demo_transport"
  by (simp add: serves_def demo_transport_def)

definition demo_online :: mcp_client where
  "demo_online = fst (snd (mcp_enter demo_transport demo_mcp ()))"

lemma demo_queried:
  "\<exists>r. mcp_query demo_words demo_transport [115] demo_online () = (Got r, demo_online, ()) \<and> mq_error r = None"
proof -
  have "online demo_online"
    using enter_cases [OF demo_mcp_inactive, of demo_transport "()"] demo_entered
    by (simp add: demo_online_def demo_transport_def)
  then have session: "mc_session demo_online" by (simp add: online_def)
  obtain r where r: "server_query id id (\<lambda>_. Parsed [Some demo_statement]) (Some demo_service) [] [115] () = (Finished r, [([115], 5000)], ())"
    and sound: "mq_error r = None" "0 \<le> mq_count r" "0 \<le> mq_elapsed r"
    by (simp add: server_query_def demo_service_run) (simp add: fetched_reply_def demo_service_def)
  have "tr_call demo_transport ''execute_safe_query'' [(lit ''sql'', JStr [115])] ()
      = (IoOk \<lparr>tp_error = False, tp_structured = Some (result_payload r), tp_content = []\<rparr>, ())"
    by (simp add: demo_transport_def r served_def)
  with session sound show ?thesis
    by (simp add: mcp_query_def call_payload_def response_payload_def validated_def result_roundtrip)
qed

theorem mcp_query_guarded_witness:
  "\<exists>r. mcp_query demo_words demo_transport [115] demo_online () = (Got r, demo_online, ()) \<and> mq_error r = None
     \<and> set (mq_tables r) \<subseteq> fst ` set business_tables \<and> mq_count r \<le> 10"
proof -
  from demo_queried obtain r where r: "mcp_query demo_words demo_transport [115] demo_online () = (Got r, demo_online, ())"
    and none: "mq_error r = None" by blast
  have "\<forall>v. 0 \<le> sv_elapsed demo_service v" by (simp add: demo_service_def)
  from mcp_query_guarded [OF demo_serves this r] none r show ?thesis
    by (auto simp: demo_service_def demo_guard_def)
qed

definition demo_answer_rows :: mcp_result where
  "demo_answer_rows = \<lparr>mq_columns = [lit ''sku''], mq_rows = [[JStr [49]]], mq_count = 1, mq_truncated = False, mq_sql = Some [115],
     mq_tables = [lit ''products''], mq_elapsed = 0, mq_error = None\<rparr>"

definition demo_agents :: "(unit \<times> mcp_client) data_services" where
  "demo_agents = \<lparr>dv_plan = (\<lambda>q t d w. (Replied demo_plan, w)),
     dv_answer = (\<lambda>q e w. (Replied \<lparr>dr_answer = [97, 91, 68, 49, 93], dr_citations = [[91, 68, 49, 93]]\<rparr>, w))\<rparr>"

abbreviation demo_data_client :: "((unit \<times> mcp_client) \<times> pystr list) data_client" where
  "demo_data_client \<equiv> plain_client (mcp_data_client demo_words demo_transport)"

definition demo_informed :: mcp_client where
  "demo_informed = demo_online\<lparr>mc_schema := Some [([116], [[99]])], mc_definitions := Some [([97], [98])]\<rparr>"

lemma demo_online_state: "mc_session demo_online" "mc_schema demo_online = None" "mc_definitions demo_online = None"
  by (simp_all add: demo_online_def demo_mcp_def new_mcp_client_def mcp_enter_def demo_transport_def enter_with_tools_def
      required_tools_def Let_def)

lemma demo_planned_run:
  "plan_data_query (lift_services demo_agents) demo_data_client (initial_data_state [] [113]) (((), demo_online), [])
     = (Finished demo_planned, [Planning [([116], [[99]])]], ((), demo_informed), [])"
proof -
  have schema: "dc_schema demo_data_client (((), demo_online), [])
      = (Got [([116], [[99]])], ((), demo_online\<lparr>mc_schema := Some [([116], [[99]])]\<rparr>), [])"
    by (simp add: plain_client_def lift_world_def mcp_data_client_def on_client_def mcp_schema_def call_payload_def demo_online_state
        response_payload_def validated_def demo_transport_def schema_roundtrip)
  have definitions: "dc_definitions demo_data_client (((), demo_online\<lparr>mc_schema := Some [([116], [[99]])]\<rparr>), [])
      = (Got [([97], [98])], ((), demo_informed), [])"
    by (simp add: plain_client_def lift_world_def mcp_data_client_def on_client_def mcp_definitions_def call_payload_def
        demo_online_state response_payload_def validated_def demo_transport_def definitions_roundtrip demo_informed_def)
  show ?thesis
    by (simp add: plan_data_query_def schema definitions lift_world_def lift_services_def demo_agents_def
      new_data_plan_def plan_contract_def length_within_def demo_plan_def py_space_def validate_data_query_plan_def
      is_chinese_def demo_planned_def initial_data_state_def)
qed

definition demo_fetched :: data_state where
  "demo_fetched = demo_planned\<lparr>dt_status := DataQueried, dt_evidence := [\<lparr>de_id = [68, 49], de_sql = [115], de_columns = [lit ''sku''],
     de_rows = [[JStr [49]]], de_count = 1, de_truncated = False, de_tables = [lit ''products''], de_elapsed = 0\<rparr>]\<rparr>"

lemma demo_fetched_run:
  "execute_safe_query demo_data_client demo_planned (((), demo_informed), []) = (Finished demo_fetched, [Querying [115]], ((), demo_informed), [])"
proof -
  have served: "server_query id id (\<lambda>_. Parsed [Some demo_statement]) (Some demo_service) [] [115] ()
      = (Finished demo_answer_rows, [([115], 5000)], ())"
    by (simp add: server_query_def demo_service_run)
      (simp add: fetched_reply_def demo_service_def demo_decision_def demo_answer_rows_def public_value_def)
  have "mcp_query demo_words demo_transport [115] demo_informed () = (Got demo_answer_rows, demo_informed, ())"
    by (simp add: mcp_query_def call_payload_def demo_informed_def demo_online_state demo_transport_def served served_def
        response_payload_def validated_def result_roundtrip)
      (simp add: demo_answer_rows_def result_roundtrip)
  then have "dc_query demo_data_client [115] (((), demo_informed), []) = (Got demo_answer_rows, ((), demo_informed), [])"
    by (simp add: plain_client_def lift_world_def mcp_data_client_def on_client_def)
  then show ?thesis
    by (simp add: execute_safe_query_def demo_planned_def planned_state_def demo_plan_def initial_data_state_def demo_answer_rows_def
        query_result_def new_data_evidence_def data_id_def citation_format_def or_empty_def demo_fetched_def)
qed

definition demo_told :: data_state where
  "demo_told = demo_fetched\<lparr>dt_status := DataAnswered, dt_answer := Some [97, 91, 68, 49, 93], dt_citations := [[91, 68, 49, 93]]\<rparr>"

lemma demo_told_run:
  "generate_data_answer (\<lambda>_. False) (lift_services demo_agents) demo_fetched (wc, [])
     = (Finished demo_told, [Answering (dt_evidence demo_fetched)], wc, [])"
proof -
  have v: "validate_data_citations (\<lambda>_. False) [[68, 49]] \<lparr>dr_answer = [97, 91, 68, 49, 93], dr_citations = [[91, 68, 49, 93]]\<rparr>
      = ([[91, 68, 49, 93]], [])"
    by (simp add: validate_data_citations_def bracketed_def citation_format_def first_seen_def bracket_def Let_def)
  have e: "map de_id (dt_evidence demo_fetched) = [[68, 49]]" "dt_status demo_fetched = DataQueried" "dt_evidence demo_fetched \<noteq> []"
    by (simp_all add: demo_fetched_def)
  show ?thesis
    by (simp add: generate_data_answer_def e v lift_services_def lift_world_def demo_agents_def new_answer_draft_def demo_told_def Let_def)
qed

lemma demo_mcp_agent:
  "\<exists>ev wc. run_data_agent id (\<lambda>_. []) (\<lambda>_. False) demo_agents (mcp_data_client demo_words demo_transport) [] [113] None ((), demo_mcp)
     = (Finished demo_told, ev, wc)"
proof -
  have "mcp_enter demo_transport demo_mcp () = (Got (), demo_online, ())"
    using demo_entered by (cases "mcp_enter demo_transport demo_mcp ()") (simp add: demo_online_def)
  then have o: "dc_open demo_data_client (((), demo_mcp), []) = (Got (), ((), demo_online), [])"
    by (simp add: plain_client_def lift_world_def mcp_data_client_def on_client_def)
  have c: "\<exists>wc. dc_close demo_data_client (((), demo_informed), []) = (Got (), wc, [])"
    by (simp add: plain_client_def lift_world_def mcp_data_client_def on_client_def mcp_exit_def close_contexts_def close_context_def
        demo_transport_def close_captured_def remove_result_def Let_def split: prod.splits)
  then obtain k where c: "dc_close demo_data_client (((), demo_informed), []) = (Got (), ((), k), [])" by auto
  have ok: "data_state_ok demo_fetched" "data_state_ok demo_told"
    by (simp_all add: data_state_ok_def demo_told_def demo_fetched_def demo_data_states given_def)
  have s: "dt_status demo_planned = DataPlanned" "dt_status demo_fetched = DataQueried" by (simp_all add: demo_data_states demo_fetched_def)
  show ?thesis
    by (simp add: run_data_agent_def within_session_def o data_agent_graph_def data_checked_def demo_planned_run demo_data_ok ok
        data_next_def s demo_fetched_run demo_told_run c)
qed


end
