(* ===== verification/Spec2Isabelle.thy ===== *)
theory Spec2Isabelle
  imports RedisStore RollingSummary ContextRuntime Governance Coordinator ClauseChunking InventoryRisk SafeQuery FormalExecutor RequestRouter RetrievalLiveness TraceCollector DocumentParsers McpClient
begin

text \<open>
  Verification development of the enterprise decision agent, a Python service (all paths below are
  under \<^verbatim>\<open>src/src/decision_agent/\<close>) that answers a request by routing it, running a skill over the
  company's documents or its operations database, and returning an answer with citations.

  \<^bold>\<open>How the parts interact.\<close> The coordinator (\<^verbatim>\<open>coordination/coordinator.py\<close>) opens a request context
  (\<^verbatim>\<open>context/runtime.py\<close>) in which every text is a classified item; it asks the router for a decision
  over the items the router's policy selects, authorizes the route, and runs the registered skill of the
  route, directly or through the controlled workflow of planner, executor and reviewer
  (\<^verbatim>\<open>agent_workflow/\<close>). The data and the knowledge skill (\<^verbatim>\<open>skills/\<close>) run one turn of native tool
  calling (\<^verbatim>\<open>tool_calling/\<close>) or a preselected tool; the mixed skill runs both and one synthesis.
  Documents come in through the chunkers (\<^verbatim>\<open>ingestion/\<close>). Provider calls leave through the governance
  gate, which sanitizes, checks the egress policy, audits and releases (\<^verbatim>\<open>security/\<close>). Sessions are
  kept in a store with optimistic versions, in process or in Redis, and are compacted by rolling
  summaries (\<^verbatim>\<open>memory/\<close>); a session enters a later request only as bounded, untrusted text.

  \<^bold>\<open>Theories and the code they model.\<close>
    \<^item> PyBase: the prelude. Strings as lists of code points, results as sums with the propagation of
      exceptions (\<open>res_bind\<close>, the collection \<open>res_simps\<close>), aware and naive timestamps, list lemmas.
    \<^item> MemoryModels, MemoryStore, InMemoryStore, Serialization, RedisStore, RollingSummary:
      \<^verbatim>\<open>memory/\<close>. The locale \<open>session_store\<close> is the contract of a store over the view of one session;
      the in-process store interprets it, the Redis store is proved to refine the same views attempt by
      attempt against arbitrary server replies.
    \<^item> ContextModels, ContextManager, ConversationMemoryView, ContextRuntime: \<^verbatim>\<open>context/\<close>. Items,
      budgets, the two-pass selection, the rendering of a session, the runtime of a request with its step
      relation \<open>rt_step\<close> and the reachable runtimes. The locale \<open>token_estimator\<close> is the estimator's
      contract, interpreted by the code's conservative one.
    \<^item> SecurityModels, ProviderEgress, AuditLog, Redaction, Governance: \<^verbatim>\<open>security/\<close>. Identities and
      the default-deny policy (locale \<open>authorization_policy\<close>), the egress matrix, the hash chain, the
      payload boundary, and the gate over any sink of the locale \<open>audit_sink\<close>.
    \<^item> Skills: \<^verbatim>\<open>routing/models.py\<close>, \<^verbatim>\<open>skills/contracts.py\<close>, \<^verbatim>\<open>skills/registry.py\<close> and
      \<^verbatim>\<open>coordination/skill_execution.py\<close>. AgentWorkflow: \<^verbatim>\<open>agent_workflow/\<close>. Coordinator:
      \<^verbatim>\<open>coordination/coordinator.py\<close>, with the locale \<open>scoped_authorization\<close>, which extends
      \<open>authorization_policy\<close>.
    \<^item> ProviderReplies, ToolCalling: \<^verbatim>\<open>providers/openai_compatible.py\<close> and \<^verbatim>\<open>tool_calling/\<close>.
    \<^item> DomainSkills, InventoryRisk: \<^verbatim>\<open>skills/native_runtime.py\<close> and the three skills. The locale
      \<open>quoting_executor\<close> is what the skills rely on of an executor; both executors interpret it.
    \<^item> Chunking, ClauseChunking: \<^verbatim>\<open>ingestion/chunking.py\<close>, \<^verbatim>\<open>ingestion/clause_aware_chunking.py\<close>.
    \<^item> RankFusion, EvidenceContext: \<^verbatim>\<open>retrieval/fusion.py\<close>, \<^verbatim>\<open>retrieval/parent_expansion.py\<close> and
      \<^verbatim>\<open>retrieval/evidence_context.py\<close>. Ranked lists are fused, their parents resolved and assembled
      into numbered evidence within character and count budgets.
    \<^item> KnowledgeAgents, KnowledgeQA: \<^verbatim>\<open>agents/evidence_selector.py\<close>, \<^verbatim>\<open>agents/answerability_reviewer.py\<close>,
      \<^verbatim>\<open>agents/grounded_answer.py\<close> and \<^verbatim>\<open>workflows/knowledge_qa.py\<close>. The agent behind the knowledge
      tool: four steps on one state over injected services, with the provider-backed roles.
    \<^item> DataAgents, DataAgent: \<^verbatim>\<open>agents/data_query_planner.py\<close>, \<^verbatim>\<open>agents/data_answer_generator.py\<close> and
      \<^verbatim>\<open>workflows/data_agent.py\<close>. One planned, guarded query and a cited answer; the locale
      \<open>permitting_client\<close> is the contract of the database client, interpreted by the plain and the scoped one.
    \<^item> SafeQuery: \<^verbatim>\<open>data/sql_guard.py\<close>, \<^verbatim>\<open>data/safe_query_service.py\<close>, \<^verbatim>\<open>data/executor.py\<close> and
      the tools of \<^verbatim>\<open>mcp_server/enterprise_data_server.py\<close>: the boundary of the database. McpClient:
      \<^verbatim>\<open>mcp_client/\<close>, the session with that server, as a data client of the agent; the two are composed.
    \<^item> TurnIdentity, FormalExecutor: \<^verbatim>\<open>application/\<close>. One request from its binding to a session up to
      its release; persistence is proved in the locale \<open>session_store\<close>, for any store that keeps its contract.
    \<^item> RequestRouter: \<^verbatim>\<open>routing/request_router.py\<close>, from the selected items to one validated decision.
    \<^item> LexicalIndex, VectorStore, RetrievalInputs, RetrievalPipeline, RetrievalLiveness: the rest of \<^verbatim>\<open>retrieval/\<close>.
      The tokenizer and BM25, vector stores behind the locales \<open>vector_store\<close> and \<open>dense_world\<close> (interpreted by the
      in-memory store), the reranker behind the locale \<open>reranker\<close> (interpreted by the cross encoder), and the
      pipeline that loads a corpus once and answers queries from it.
    \<^item> TraceModels, TraceCollector: \<^verbatim>\<open>observability/\<close>. The attribute allowlists, the contracts of spans and
      traces, the collector of a request with its limits, its owner that swallows every error, and the sinks.
    \<^item> DocumentParsers: \<^verbatim>\<open>ingestion/parsers.py\<close> and \<^verbatim>\<open>ingestion/registry.py\<close>, from a local file to
      the blocks that the chunkers take.

  \<^bold>\<open>Conventions.\<close> A pydantic model is a record and its validated constructor a function \<open>new_...\<close>
  whose left value is the first validation error. What runs outside the repository (providers, Redis,
  databases, JSON text, SHA-256, clocks, fresh identifiers, the regular expressions of the redactor) is
  an argument; the world behind injected services is a value of type \<open>'w\<close> threaded through the calls,
  and ghost logs record calls where a property is about their order. Cancellation is a reply of its own.
  Trace spans influence no result: the components are modelled without a recorder, and what a recorder
  does with the calls it gets is modelled on its own in TraceCollector.

  \<^bold>\<open>What the lemmas show.\<close> For the stores: reachable states stay well formed and bounded, versions
  prevent lost updates, retries are idempotent, Redis histories linearize and never corrupt a value,
  contention ends in an error, and compaction loses no turn. For the context: a selection is exactly
  what its policy allows within its budget, nodes are isolated in every reachable runtime. For security:
  authorization is exact, keys are injective, calls leave only after sanitizing, admission and audit, and
  the log is tamper evident up to hash collisions. For a request: only granted skills run, in a bounded
  number of calls, and what is returned is one contract-conforming result of the decided route. For
  the chunkers: they terminate and cover every visible character by bounded, nested chunks. For retrieval:
  rankings are exact, every stage stays inside the corpus and the allowed documents, an initialized pipeline
  answers every query that has a token, and evidence keeps its budgets. For the agents: answers cite exactly
  what was retrieved or queried, and only guarded statements reach the database.

  \<^bold>\<open>Bounds and fuel.\<close> No definition runs on fuel. The window loop of the chunker is a partial function
  whose return is proved for validated parameters (and refuted without the validation); the Redis
  retry loop recurs over the list of attempts, whose length is the configured bound; the workflow
  reserves its rounds, calls and repairs from a fixed budget.

  \<^bold>\<open>Not modelled.\<close> The HTTP interface, settings and object construction, start-up probes, the
  registration of the MCP server with its SDK, the adapters of Milvus and of sentence-transformers, demos,
  scripts and the offline evaluation: they call libraries and services, assemble objects or run outside the
  application, and the components above meet them only through the arguments named in each theory.
\<close>

end
